(* ===== verification/Prelude.thy ===== *)
theory Prelude
  imports Main "HOL-Library.Monad_Syntax"
begin

text \<open>
  Shared vocabulary of the development: the types that stand for Go's \<open>time.Time\<close>,
  \<open>time.Duration\<close> and \<open>int64\<close> identifiers, Go maps as association lists in the order
  a \<open>range\<close> loop happens to visit them, and the lemmas the component theories share.

  \<^item> An instant is the number of nanoseconds since the Unix epoch. Go's zero instant
    (\<open>time.Time\<close> at 1 January of year 1 UTC) is \<open>zero_time\<close>; \<open>IsZero\<close> is
    equality with it. \<open>Sub\<close> saturates at the limits of a 64-bit duration, as
    \<open>time.Time.Sub\<close> does. The monotonic reading of a Go instant is not modelled.
  \<^item> A Go map that the code ranges over is a list of key/value pairs with distinct keys.
    The list order stands for the (unspecified) iteration order, so a lemma over every
    list covers every order the runtime may choose.
  \<^item> \<open>(string + 'a)\<close> is the result of a fallible function: \<open>Inl\<close> carries the
    error message.
\<close>

section \<open>Time\<close>

type_synonym gtime = int
type_synonym duration = int
type_synonym node_id = int
type_synonym group_id = int

definition second :: duration where "second = 1000000000"
definition minute :: duration where "minute = 60 * second"
definition hour :: duration where "hour = 60 * minute"
definition millisecond :: duration where "millisecond = 1000000"

definition zero_time :: gtime where "zero_time = - (62135596800 * second)"

abbreviation is_zero_time :: "gtime \<Rightarrow> bool" where
  "is_zero_time t \<equiv> t = zero_time"

definition max_duration :: duration where "max_duration = 2 ^ 63 - 1"
definition min_duration :: duration where "min_duration = - (2 ^ 63)"

definition time_sub :: "gtime \<Rightarrow> gtime \<Rightarrow> duration" where
  "time_sub t u = max min_duration (min max_duration (t - u))"

definition time_unix :: "gtime \<Rightarrow> int" where
  "time_unix t = t div second"

text \<open>The result of a 64-bit signed operation, wrapped around.\<close>

definition wrap64 :: "int \<Rightarrow> int" where
  "wrap64 i = (i + 2 ^ 63) mod 2 ^ 64 - 2 ^ 63"

named_theorems time_defs \<open>the constants and operations on instants\<close>

declare second_def [time_defs] minute_def [time_defs] hour_def [time_defs]
  millisecond_def [time_defs] zero_time_def [time_defs] max_duration_def [time_defs]
  min_duration_def [time_defs] time_sub_def [time_defs] time_unix_def [time_defs]

lemma second_pos [simp]: "0 < second"
  by (simp add: second_def)

lemma time_unix_mono: "s \<le> t \<Longrightarrow> time_unix s \<le> time_unix t"
  by (simp add: time_unix_def zdiv_mono1)

lemma time_sub_le_iff:
  "min_duration < d \<Longrightarrow> d < max_duration \<Longrightarrow> time_sub t u < d \<longleftrightarrow> t - u < d"
  by (auto simp: time_sub_def)

section \<open>Go maps as association lists\<close>

named_theorems alist_simps \<open>lookups after updates of an association list\<close>

definition amap_at :: "'k \<Rightarrow> ('v \<Rightarrow> 'v) \<Rightarrow> ('k \<times> 'v) list \<Rightarrow> ('k \<times> 'v) list" where
  "amap_at k f = map (\<lambda>(k', v). (k', if k' = k then f v else v))"

fun aput :: "'k \<Rightarrow> 'v \<Rightarrow> ('k \<times> 'v) list \<Rightarrow> ('k \<times> 'v) list" where
  "aput k v [] = [(k, v)]"
| "aput k v ((k', v') # xs) = (if k' = k then (k, v) # xs else (k', v') # aput k v xs)"

definition adel :: "'k \<Rightarrow> ('k \<times> 'v) list \<Rightarrow> ('k \<times> 'v) list" where
  "adel k = filter (\<lambda>(k', _). k' \<noteq> k)"

lemma map_of_amap_at [simp, alist_simps]:
  "map_of (amap_at k f xs) x = (if x = k then map_option f (map_of xs x) else map_of xs x)"
  by (induction xs) (auto simp: amap_at_def)

lemma map_of_aput [simp, alist_simps]:
  "map_of (aput k v xs) x = (if x = k then Some v else map_of xs x)"
  by (induction k v xs rule: aput.induct) auto

lemma map_of_adel [simp, alist_simps]:
  "map_of (adel k xs) x = (if x = k then None else map_of xs x)"
  by (induction xs) (auto simp: adel_def)

lemma fst_amap_at [simp]: "map fst (amap_at k f xs) = map fst xs"
  by (induction xs) (auto simp: amap_at_def)

lemma set_aput:
  "set (aput k v xs) \<subseteq> insert (k, v) (set xs)"
  by (induction k v xs rule: aput.induct) auto

lemma set_fst_aput [simp]: "fst ` set (aput k v xs) = insert k (fst ` set xs)"
  by (induction k v xs rule: aput.induct) auto

lemma distinct_aput [simp]: "distinct (map fst xs) \<Longrightarrow> distinct (map fst (aput k v xs))"
proof (induction k v xs rule: aput.induct)
  case (2 k v k' v' xs)
  then show ?case
    using set_fst_aput [of k v xs] by (auto simp del: set_fst_aput)
qed simp

lemma set_adel [simp]: "set (adel k xs) = {p \<in> set xs. fst p \<noteq> k}"
  by (auto simp: adel_def)

lemma distinct_adel [simp]: "distinct (map fst xs) \<Longrightarrow> distinct (map fst (adel k xs))"
  by (simp add: adel_def distinct_map_filter)

lemma set_amap_at:
  "p \<in> set (amap_at k f xs) \<Longrightarrow>
     \<exists>k' v. (k', v) \<in> set xs \<and> p = (k', if k' = k then f v else v)"
  by (auto simp: amap_at_def)

lemma ball_amap_at:
  "(\<forall>p \<in> set (amap_at k f xs). P p) \<longleftrightarrow>
     (\<forall>(k', v) \<in> set xs. P (k', if k' = k then f v else v))"
  by (auto simp: amap_at_def)

section \<open>Lists\<close>

definition sort_dedup :: "int list \<Rightarrow> int list" where
  "sort_dedup xs = remdups_adj (sort xs)"

lemma set_sort_dedup [simp]: "set (sort_dedup xs) = set xs"
  by (simp add: sort_dedup_def)

lemma sorted_sort_dedup [simp]: "sorted (sort_dedup xs)"
  by (simp add: sort_dedup_def sorted_remdups_adj)

lemma distinct_remdups_adj_sorted: "sorted xs \<Longrightarrow> distinct (remdups_adj xs)"
  by (induction xs rule: remdups_adj.induct) (auto simp: order_antisym)

lemma distinct_sort_dedup [simp]: "distinct (sort_dedup xs)"
  by (simp add: sort_dedup_def distinct_remdups_adj_sorted)

lemma filter_all_in [simp]: "(\<And>x. x \<in> set xs \<Longrightarrow> P x) \<Longrightarrow> filter P xs = xs"
  by (induction xs) auto

lemma find_SomeD: "find P xs = Some x \<Longrightarrow> x \<in> set xs \<and> P x"
  by (induction xs) (auto split: if_splits)

lemma length_filter_lt: "x \<in> set xs \<Longrightarrow> \<not> P x \<Longrightarrow> length (filter P xs) < length xs"
  by (metis length_filter_less)

section \<open>State machines\<close>

text \<open>
  A component is a start state and a step relation; \<open>reaches\<close> is its runs. The first locale is
  the contract of an invariant that steps keep, and its lemma the only place where the induction
  over runs is done; the second adds that it holds in a given start state.
\<close>

inductive reaches :: "('s \<Rightarrow> 's \<Rightarrow> bool) \<Rightarrow> 's \<Rightarrow> 's \<Rightarrow> bool" for step where
  reaches_refl: "reaches step s s"
| reaches_step: "reaches step s t \<Longrightarrow> step t u \<Longrightarrow> reaches step s u"

lemma reaches_once: "step s t \<Longrightarrow> reaches step s t"
  by (rule reaches_step [OF reaches_refl])

lemma reaches_compose:
  assumes "reaches step t u" and "reaches step s t"
  shows "reaches step s u"
  using assms by (induction rule: reaches.induct) (auto intro: reaches_step)

locale preserved_invariant =
  fixes step :: "'s \<Rightarrow> 's \<Rightarrow> bool" and inv :: "'s \<Rightarrow> bool"
  assumes step_inv: "inv s \<Longrightarrow> step s t \<Longrightarrow> inv t"
begin

lemma reaches_inv:
  assumes "reaches step s t" and "inv s"
  shows "inv t"
  using assms by (induction rule: reaches.induct) (auto intro: step_inv)

end

locale inductive_invariant = preserved_invariant step inv
  for start :: 's and step :: "'s \<Rightarrow> 's \<Rightarrow> bool" and inv :: "'s \<Rightarrow> bool" +
  assumes start_inv: "inv start"
begin

lemma reachable_inv: "reaches step start t \<Longrightarrow> inv t"
  using reaches_inv start_inv by blast

end

text \<open>
  A second contract: a measure that no step lowers, such as a version clock. It never goes
  back along a run.
\<close>

locale monotone_clock =
  fixes step :: "'s \<Rightarrow> 's \<Rightarrow> bool" and clock :: "'s \<Rightarrow> int"
  assumes step_clock: "step s t \<Longrightarrow> clock s \<le> clock t"
begin

lemma reaches_clock: "reaches step s t \<Longrightarrow> clock s \<le> clock t"
  by (induction rule: reaches.induct) (auto dest: step_clock intro: order_trans)

end

end
