(* ===== verification/Group_Runtime.thy ===== *)
theory Group_Runtime
  imports Prelude
begin

text \<open>
  The group member runtime of \<open>src/internal/group/runtime.go\<close>: per-group member state
  machines (alive, suspect, evicted), the sliding failure window, eviction that is a global
  fact about a node, automatic and manual recovery, the per-member ring that makes replayed
  health probes harmless, and the revision clock that orders every durable change.

  The process-wide variables of the Go package are the record \<open>world\<close>. A runtime behind a
  pointer carries a serial number, so that \<open>CompareAndDelete\<close> on the pointer is equality of
  serials. Calls of the persistence observer and of the subscribers are appended to
  \<open>w_delivered\<close>. The clock is an argument \<open>now\<close> of every operation that reads it.
\<close>

section \<open>Data\<close>

record GroupInitialState =
  gi_Standby :: bool
  gi_NodeID :: node_id
  gi_FailureHistory :: "int list"
  gi_Evicted :: bool
  gi_LastError :: string
  gi_EvictedAt :: gtime
  gi_Revision :: int

record GroupStateEvent =
  ev_GroupID :: group_id
  ev_NodeID :: node_id
  ev_FailureHistory :: "int list"
  ev_Evicted :: bool
  ev_LastError :: string
  ev_EvictedAt :: gtime
  ev_CurrentNodeID :: node_id
  ev_CurrentChanged :: bool
  ev_StateChanged :: bool
  ev_Recovered :: bool
  ev_Revision :: int

record GroupMemberSnapshot =
  gs_Standby :: bool
  gs_NodeID :: node_id
  gs_Tag :: string
  gs_Status :: string
  gs_FailureCount :: nat
  gs_FailureHistory :: "int list"
  gs_LastError :: string
  gs_EvictedAt :: gtime
  gs_RecoverySuccesses :: int
  gs_RecoveryThreshold :: int
  gs_RecoveryCooldownEnd :: gtime

record RecoveryPolicy =
  rp_Enabled :: bool
  rp_SuccessThreshold :: int
  rp_Cooldown :: duration

definition DefaultRecoveryPolicy :: RecoveryPolicy where
  "DefaultRecoveryPolicy =
     \<lparr>rp_Enabled = True, rp_SuccessThreshold = 3, rp_Cooldown = 5 * minute\<rparr>"

definition NormalizeRecoveryPolicy :: "RecoveryPolicy \<Rightarrow> RecoveryPolicy" where
  "NormalizeRecoveryPolicy p =
     p\<lparr>rp_SuccessThreshold := (if rp_SuccessThreshold p \<le> 0 then 3 else rp_SuccessThreshold p),
       rp_Cooldown := (if rp_Cooldown p < 0 then 0 else rp_Cooldown p)\<rparr>"

definition recoveryPolicyProvided :: "RecoveryPolicy \<Rightarrow> bool" where
  "recoveryPolicyProvided p \<longleftrightarrow>
     rp_Enabled p \<or> rp_SuccessThreshold p \<noteq> 0 \<or> rp_Cooldown p \<noteq> 0"

record GroupRuntimeSnapshot =
  rs_GroupID :: group_id
  rs_CurrentNodeID :: node_id
  rs_CurrentTag :: string
  rs_Members :: "GroupMemberSnapshot list"

record groupMemberRuntime =
  gm_standby :: bool
  gm_nodeID :: node_id
  gm_tag :: string
  gm_failureHistory :: "int list"
  gm_evicted :: bool
  gm_lastError :: string
  gm_evictedAt :: gtime
  gm_recoverySuccesses :: int
  gm_appliedProbes :: "string list"
  gm_revision :: int

type_synonym members = "(string \<times> groupMemberRuntime) list"

record groupRuntime =
  gr_serial :: nat
  gr_id :: group_id
  gr_window :: duration
  gr_threshold :: int
  gr_recovery :: RecoveryPolicy
  gr_currentTag :: string
  gr_members :: members
  gr_lastCurrentNotify :: gtime
  gr_currentNotifyPending :: bool
  gr_currentPendingNodeID :: node_id

type_synonym groups = "(group_id \<times> groupRuntime) list"

datatype receiver = Observer | Subscriber nat

record world =
  w_groups :: groups                              \<comment> \<open>groupRuntimeStore\<close>
  w_globalEvicted :: "node_id set"                \<comment> \<open>globalEvictedNodes\<close>
  w_stateRevision :: int                          \<comment> \<open>stateRevision\<close>
  w_observer :: bool                              \<comment> \<open>groupObserver is installed\<close>
  w_subscriberID :: nat                           \<comment> \<open>stateSubscriberID\<close>
  w_subscribers :: "nat list"                     \<comment> \<open>keys of stateSubscribers\<close>
  w_activation :: "(group_id \<times> nat \<times> (node_id \<Rightarrow> string option)) list"
  w_nextSerial :: nat                             \<comment> \<open>identity of the next allocation\<close>
  w_delivered :: "(receiver \<times> GroupStateEvent) list"

definition initial_world :: world where
  "initial_world = \<lparr>w_groups = [], w_globalEvicted = {}, w_stateRevision = 0, w_observer = False,
     w_subscriberID = 0, w_subscribers = [], w_activation = [], w_nextSerial = 0,
     w_delivered = []\<rparr>"

definition currentTagNotifyInterval :: duration where
  "currentTagNotifyInterval = 500 * millisecond"

definition groupProbeRing :: nat where
  "groupProbeRing = 64"

section \<open>Events, observers and handlers\<close>

definition blank_event :: "group_id \<Rightarrow> GroupStateEvent" where
  "blank_event g = \<lparr>ev_GroupID = g, ev_NodeID = 0, ev_FailureHistory = [], ev_Evicted = False,
     ev_LastError = '''', ev_EvictedAt = zero_time, ev_CurrentNodeID = 0,
     ev_CurrentChanged = False, ev_StateChanged = False, ev_Recovered = False, ev_Revision = 0\<rparr>"

definition current_event :: "group_id \<Rightarrow> node_id \<Rightarrow> GroupStateEvent" where
  "current_event g n =
     (blank_event g)\<lparr>ev_NodeID := n, ev_CurrentNodeID := n, ev_CurrentChanged := True\<rparr>"

definition recovered_event :: "group_id \<Rightarrow> node_id \<Rightarrow> int \<Rightarrow> GroupStateEvent" where
  "recovered_event g n rv = (blank_event g)\<lparr>ev_NodeID := n, ev_StateChanged := True,
     ev_Recovered := True, ev_Revision := rv\<rparr>"

definition state_event :: "group_id \<Rightarrow> groupMemberRuntime \<Rightarrow> bool \<Rightarrow> int \<Rightarrow> GroupStateEvent" where
  "state_event g m currentChanged rv = (blank_event g)\<lparr>ev_NodeID := gm_nodeID m,
     ev_FailureHistory := gm_failureHistory m, ev_Evicted := gm_evicted m,
     ev_LastError := gm_lastError m, ev_EvictedAt := gm_evictedAt m,
     ev_CurrentChanged := currentChanged, ev_StateChanged := True, ev_Revision := rv\<rparr>"

definition SubscribeStateChanges :: "world \<Rightarrow> nat \<times> world" where
  "SubscribeStateChanges w =
     (let n = Suc (w_subscriberID w)
      in (n, w\<lparr>w_subscriberID := n, w_subscribers := w_subscribers w @ [n]\<rparr>))"

definition UnsubscribeStateChanges :: "nat \<Rightarrow> world \<Rightarrow> world" where
  "UnsubscribeStateChanges n w = w\<lparr>w_subscribers := filter (\<lambda>k. k \<noteq> n) (w_subscribers w)\<rparr>"

definition RegisterActivationHandler ::
  "group_id \<Rightarrow> (node_id \<Rightarrow> string option) \<Rightarrow> world \<Rightarrow> nat option \<times> world" where
  "RegisterActivationHandler g h w =
     (if g = 0 then (None, w)
      else (Some (w_nextSerial w),
            w\<lparr>w_nextSerial := Suc (w_nextSerial w),
              w_activation := aput g (w_nextSerial w, h) (w_activation w)\<rparr>))"

definition UnregisterActivationHandler :: "group_id \<Rightarrow> nat \<Rightarrow> world \<Rightarrow> world" where
  "UnregisterActivationHandler g serial w =
     (case map_of (w_activation w) g of
        Some (s, _) \<Rightarrow> if s = serial then w\<lparr>w_activation := adel g (w_activation w)\<rparr> else w
      | None \<Rightarrow> w)"

definition ActivateMember :: "group_id \<Rightarrow> node_id \<Rightarrow> world \<Rightarrow> string option" where
  "ActivateMember g n w =
     (case map_of (w_activation w) g of
        None \<Rightarrow> Some ''group runtime not found''
      | Some (_, h) \<Rightarrow> h n)"

definition SetGroupStateObserver :: "bool \<Rightarrow> world \<Rightarrow> world" where
  "SetGroupStateObserver installed w = w\<lparr>w_observer := installed\<rparr>"

definition deliveries :: "world \<Rightarrow> GroupStateEvent \<Rightarrow> (receiver \<times> GroupStateEvent) list" where
  "deliveries w e = (if w_observer w then [(Observer, e)] else [])
     @ map (\<lambda>n. (Subscriber n, e)) (w_subscribers w)"

definition notifyGroupState :: "GroupStateEvent \<Rightarrow> world \<Rightarrow> world" where
  "notifyGroupState e w = w\<lparr>w_delivered := w_delivered w @ deliveries w e\<rparr>"

definition notify_all :: "GroupStateEvent list \<Rightarrow> world \<Rightarrow> world" where
  "notify_all es w = fold notifyGroupState es w"

section \<open>Member operations\<close>

text \<open>\<open>stateRevision.Add(1)\<close> is the next revision; the member is stamped with it.\<close>

definition touch :: "int \<Rightarrow> groupMemberRuntime \<Rightarrow> groupMemberRuntime" where
  "touch rv m = m\<lparr>gm_revision := rv + 1\<rparr>"

definition advanceStateRevision :: "int \<Rightarrow> int \<Rightarrow> int" where
  "advanceStateRevision revision clock = (if clock \<ge> revision then clock else revision)"

definition alreadyAppliedProbe ::
  "string \<Rightarrow> groupMemberRuntime \<Rightarrow> bool \<times> groupMemberRuntime" where
  "alreadyAppliedProbe probeID m =
     (if probeID = '''' then (False, m)
      else if probeID \<in> set (gm_appliedProbes m) then (True, m)
      else (False, m\<lparr>gm_appliedProbes :=
             (if length (gm_appliedProbes m) \<ge> groupProbeRing then tl (gm_appliedProbes m)
              else gm_appliedProbes m) @ [probeID]\<rparr>))"

definition pruneFailures ::
  "groupMemberRuntime \<Rightarrow> duration \<Rightarrow> gtime \<Rightarrow> bool \<times> groupMemberRuntime" where
  "pruneFailures m window now =
     (if gm_failureHistory m = [] then (False, m)
      else let cutoff = time_unix (now - window);
               history = filter (\<lambda>ts. ts \<ge> cutoff) (gm_failureHistory m)
           in (length history \<noteq> length (gm_failureHistory m),
               m\<lparr>gm_failureHistory := history,
                 gm_lastError := (if history = [] then '''' else gm_lastError m)\<rparr>))"

definition clearMemberEviction :: "groupMemberRuntime \<Rightarrow> groupMemberRuntime" where
  "clearMemberEviction m = m\<lparr>gm_evicted := False, gm_evictedAt := zero_time,
     gm_failureHistory := [], gm_lastError := '''', gm_recoverySuccesses := 0\<rparr>"

definition member_usable :: "groupMemberRuntime \<Rightarrow> bool" where
  "member_usable m \<longleftrightarrow> \<not> gm_standby m \<and> \<not> gm_evicted m"

definition member_clean :: "groupMemberRuntime \<Rightarrow> bool" where
  "member_clean m \<longleftrightarrow> member_usable m \<and> gm_failureHistory m = []"

section \<open>Propagation across groups\<close>

text \<open>
  One group's share of \<open>propagateEviction\<close>: the first member of the node that is not yet
  evicted is evicted, and the loop over this group stops there.
\<close>

fun evict_first :: "node_id \<Rightarrow> string \<Rightarrow> gtime \<Rightarrow> int \<Rightarrow> members \<Rightarrow>
    (groupMemberRuntime \<times> members) option" where
  "evict_first n err at rv [] = None"
| "evict_first n err at rv ((t, m) # ms) =
     (if gm_nodeID m \<noteq> n \<or> gm_evicted m
      then map_option (\<lambda>(m', ms'). (m', (t, m) # ms')) (evict_first n err at rv ms)
      else let m' = touch rv (m\<lparr>gm_evicted := True, gm_evictedAt := at, gm_lastError := err,
                      gm_recoverySuccesses := 0\<rparr>)
           in Some (m', (t, m') # ms))"

definition propagate_group :: "node_id \<Rightarrow> string \<Rightarrow> gtime \<Rightarrow> int \<Rightarrow> groupRuntime \<Rightarrow>
    (GroupStateEvent \<times> groupRuntime) option" where
  "propagate_group n err at rv r =
     (case evict_first n err at rv (gr_members r) of
        None \<Rightarrow> None
      | Some (m', ms') \<Rightarrow>
          let currentChanged = (gr_currentTag r = gm_tag m')
          in Some (state_event (gr_id r) m' currentChanged (rv + 1),
                   r\<lparr>gr_members := ms',
                     gr_currentTag := (if currentChanged then '''' else gr_currentTag r)\<rparr>))"

fun propagate_groups :: "node_id \<Rightarrow> string \<Rightarrow> gtime \<Rightarrow> int \<Rightarrow> groups \<Rightarrow>
    GroupStateEvent list \<times> int \<times> groups" where
  "propagate_groups n err at rv [] = ([], rv, [])"
| "propagate_groups n err at rv ((g, r) # gs) =
     (case propagate_group n err at rv r of
        None \<Rightarrow> (let (es, rv', gs') = propagate_groups n err at rv gs in (es, rv', (g, r) # gs'))
      | Some (e, r') \<Rightarrow>
          (let (es, rv', gs') = propagate_groups n err at (rv + 1) gs
           in (e # es, rv', (g, r') # gs')))"

definition propagateEviction :: "node_id \<Rightarrow> string \<Rightarrow> gtime \<Rightarrow> gtime \<Rightarrow> world \<Rightarrow> world" where
  "propagateEviction n err evictedAt now w =
     (if n = 0 then w
      else let at = (if is_zero_time evictedAt then now else evictedAt);
               (es, rv', gs') = propagate_groups n err at (w_stateRevision w) (w_groups w)
           in notify_all es (w\<lparr>w_groups := gs', w_stateRevision := rv'\<rparr>))"

text \<open>
  Clearing one node in a member list, stamping each cleared member in turn.
  \<open>only_evicted\<close> is the extra guard of the automatic recovery; the manual restore clears
  every member of the node. The result holds the lst stamp given, if any.
\<close>

fun clear_node :: "bool \<Rightarrow> node_id \<Rightarrow> int \<Rightarrow> members \<Rightarrow> int option \<times> int \<times> members" where
  "clear_node only_evicted n rv [] = (None, rv, [])"
| "clear_node only_evicted n rv ((t, m) # ms) =
     (if gm_nodeID m \<noteq> n \<or> only_evicted \<and> \<not> gm_evicted m
      then let (lst, rv', ms') = clear_node only_evicted n rv ms in (lst, rv', (t, m) # ms')
      else let (lst, rv', ms') = clear_node only_evicted n (rv + 1) ms
           in (Some (case lst of None \<Rightarrow> rv + 1 | Some v \<Rightarrow> v), rv',
               (t, touch rv (clearMemberEviction m)) # ms'))"

fun clear_groups :: "bool \<Rightarrow> node_id \<Rightarrow> (group_id \<Rightarrow> bool) \<Rightarrow> int \<Rightarrow> groups \<Rightarrow>
    GroupStateEvent list \<times> int \<times> groups" where
  "clear_groups only_evicted n skip rv [] = ([], rv, [])"
| "clear_groups only_evicted n skip rv ((g, r) # gs) =
     (if skip (gr_id r)
      then let (es, rv', gs') = clear_groups only_evicted n skip rv gs in (es, rv', (g, r) # gs')
      else let (lst, rv1, ms') = clear_node only_evicted n rv (gr_members r);
               (es, rv', gs') = clear_groups only_evicted n skip rv1 gs
           in ((case lst of None \<Rightarrow> es | Some v \<Rightarrow> recovered_event (gr_id r) n v # es), rv',
               (g, r\<lparr>gr_members := ms'\<rparr>) # gs'))"

definition recoverEvictedNodeEverywhere :: "node_id \<Rightarrow> group_id \<Rightarrow> world \<Rightarrow> world" where
  "recoverEvictedNodeEverywhere n origin w =
     (if n = 0 then w
      else let (es, rv', gs') =
             clear_groups True n (\<lambda>g. g = origin) (w_stateRevision w) (w_groups w)
           in notify_all es (w\<lparr>w_globalEvicted := w_globalEvicted w - {n}, w_groups := gs',
                              w_stateRevision := rv'\<rparr>))"

definition node_evicted_somewhere :: "node_id \<Rightarrow> groups \<Rightarrow> bool" where
  "node_evicted_somewhere n gs =
     list_ex (\<lambda>(_, r). list_ex (\<lambda>(_, m). gm_nodeID m = n \<and> gm_evicted m) (gr_members r)) gs"

definition pruneGlobalEvictions :: "node_id list \<Rightarrow> world \<Rightarrow> world" where
  "pruneGlobalEvictions removed w =
     w\<lparr>w_globalEvicted := fold (\<lambda>n marks.
         if n \<in> marks \<and> \<not> node_evicted_somewhere n (w_groups w) then marks - {n} else marks)
       removed (w_globalEvicted w)\<rparr>"

definition NotifyEvents :: "gtime \<Rightarrow> GroupStateEvent list \<Rightarrow> world \<Rightarrow> world" where
  "NotifyEvents now events w = fold (\<lambda>e w.
     let w1 = notifyGroupState e w
     in if ev_Evicted e then propagateEviction (ev_NodeID e) (ev_LastError e) (ev_EvictedAt e) now w1
        else w1) events w"

section \<open>Reconciling and registering a group\<close>

record RuntimeUpdate =
  ru_FailureWindow :: duration
  ru_FailureThreshold :: int
  ru_PreferredNodeID :: node_id
  ru_Members :: "(string \<times> GroupInitialState) list"
  ru_Recovery :: RecoveryPolicy

text \<open>
  \<open>oldByNodeID\<close>: a later member with the same node overwrites an earlier one. The
  accumulator threaded through the member loop holds the global marks, the revision clock
  and the events.
\<close>

definition old_by_node :: "members \<Rightarrow> node_id \<Rightarrow> groupMemberRuntime option" where
  "old_by_node ms n = map_of (rev (map (\<lambda>(_, m). (gm_nodeID m, m)) ms)) n"

definition carried_member ::
  "string \<Rightarrow> GroupInitialState \<Rightarrow> groupMemberRuntime option \<Rightarrow> groupMemberRuntime" where
  "carried_member t i old = (case old of
     Some o' \<Rightarrow> \<lparr>gm_standby = gi_Standby i, gm_nodeID = gi_NodeID i, gm_tag = t,
        gm_failureHistory = gm_failureHistory o', gm_evicted = gm_evicted o',
        gm_lastError = gm_lastError o', gm_evictedAt = gm_evictedAt o',
        gm_recoverySuccesses = gm_recoverySuccesses o', gm_appliedProbes = [],
        gm_revision = gm_revision o'\<rparr>
   | None \<Rightarrow> \<lparr>gm_standby = gi_Standby i, gm_nodeID = gi_NodeID i, gm_tag = t,
        gm_failureHistory = gi_FailureHistory i, gm_evicted = gi_Evicted i,
        gm_lastError = gi_LastError i, gm_evictedAt = gi_EvictedAt i,
        gm_recoverySuccesses = 0, gm_appliedProbes = [],
        gm_revision = (if gi_Revision i > 0 then gi_Revision i else 0)\<rparr>)"

type_synonym reconcile_acc = "node_id set \<times> int \<times> GroupStateEvent list"

text \<open>The eviction decisions on a pruned member: \<open>(newlyEvicted, member)\<close>.\<close>

definition settle_member ::
  "int \<Rightarrow> bool \<Rightarrow> gtime \<Rightarrow> groupMemberRuntime \<Rightarrow> bool \<times> groupMemberRuntime" where
  "settle_member threshold streakStale now m2 =
     (let newlyEvicted = (\<not> gm_evicted m2 \<and> int (length (gm_failureHistory m2)) \<ge> threshold);
          m3 = (if newlyEvicted then m2\<lparr>gm_evicted := True, gm_evictedAt := now\<rparr> else m2);
          m4 = (if gm_evicted m3 \<and> is_zero_time (gm_evictedAt m3) then m3\<lparr>gm_evictedAt := now\<rparr>
                else m3);
          m5 = (if gm_evicted m4 \<and> gm_recoverySuccesses m4 > 0 \<and> streakStale
                then m4\<lparr>gm_recoverySuccesses := 0\<rparr> else m4)
      in (newlyEvicted, m5))"

definition reconcile_member :: "group_id \<Rightarrow> duration \<Rightarrow> int \<Rightarrow> bool \<Rightarrow> gtime \<Rightarrow> members \<Rightarrow>
    string \<times> GroupInitialState \<Rightarrow> reconcile_acc \<Rightarrow> (string \<times> groupMemberRuntime) \<times> reconcile_acc"
  where
  "reconcile_member g window threshold policyChanged now olds ti acc =
     (let (t, i) = ti; (marks, rv, es) = acc;
          old = old_by_node olds (gi_NodeID i);
          m0 = carried_member t i old;
          rv0 = (if old = None \<and> gi_Revision i > 0 then advanceStateRevision (gi_Revision i) rv
                  else rv);
          m1 = (if gm_nodeID m0 \<in> marks then m0\<lparr>gm_evicted := True\<rparr> else m0);
          (pruned, m2) = pruneFailures m1 window now;
          tagChanged = (case old of None \<Rightarrow> False | Some o' \<Rightarrow> gm_tag o' \<noteq> t);
          (newlyEvicted, m5) = settle_member threshold (policyChanged \<or> tagChanged) now m2;
          marks' = (if newlyEvicted then insert (gm_nodeID m5) marks else marks)
      in if pruned \<or> newlyEvicted
         then ((t, touch rv0 m5),
               (marks', rv0 + 1, es @ [state_event g m5 False (rv0 + 1)]))
         else ((t, m5), (marks', rv0, es)))"

fun reconcile_members :: "group_id \<Rightarrow> duration \<Rightarrow> int \<Rightarrow> bool \<Rightarrow> gtime \<Rightarrow> members \<Rightarrow>
    (string \<times> GroupInitialState) list \<Rightarrow> reconcile_acc \<Rightarrow> members \<times> reconcile_acc" where
  "reconcile_members g window threshold pc now olds [] acc = ([], acc)"
| "reconcile_members g window threshold pc now olds (ti # tis) acc =
     (let (tm, acc1) = reconcile_member g window threshold pc now olds ti acc;
          (tms, acc2) = reconcile_members g window threshold pc now olds tis acc1
      in (tm # tms, acc2))"

definition effective_window :: "duration \<Rightarrow> duration" where
  "effective_window d = (if d \<le> 0 then 5 * minute else d)"

definition effective_threshold :: "int \<Rightarrow> int" where
  "effective_threshold n = (if n \<le> 0 then 3 else n)"

definition current_node :: "groupRuntime \<Rightarrow> node_id" where
  "current_node r =
     (case map_of (gr_members r) (gr_currentTag r) of None \<Rightarrow> 0 | Some m \<Rightarrow> gm_nodeID m)"

definition preferred_tag :: "node_id \<Rightarrow> members \<Rightarrow> string" where
  "preferred_tag n ms =
     (case find (\<lambda>(_, m). gm_nodeID m = n \<and> member_clean m) ms of
        None \<Rightarrow> '''' | Some (t, _) \<Rightarrow> t)"

definition ReconcileSilent ::
  "group_id \<Rightarrow> RuntimeUpdate \<Rightarrow> gtime \<Rightarrow> world \<Rightarrow> GroupStateEvent list \<times> world" where
  "ReconcileSilent g u now w =
     (case map_of (w_groups w) g of
        None \<Rightarrow> ([], w)
      | Some r \<Rightarrow>
          let window = effective_window (ru_FailureWindow u);
              threshold = effective_threshold (ru_FailureThreshold u);
              provided = recoveryPolicyProvided (ru_Recovery u);
              policyChanged = (provided \<and> NormalizeRecoveryPolicy (ru_Recovery u) \<noteq> gr_recovery r);
              currentNodeID = current_node r;
              (ms', (marks', rv', es)) =
                reconcile_members g window threshold policyChanged now (gr_members r)
                  (ru_Members u) (w_globalEvicted w, w_stateRevision w, []);
              preferred = (if currentNodeID = 0 then ru_PreferredNodeID u else currentNodeID);
              r' = r\<lparr>gr_window := window, gr_threshold := threshold, gr_members := ms',
                     gr_recovery := (if provided then NormalizeRecoveryPolicy (ru_Recovery u)
                                     else gr_recovery r),
                     gr_currentTag := preferred_tag preferred ms'\<rparr>;
              nextCurrent = current_node r';
              es' = (if nextCurrent \<noteq> currentNodeID then es @ [current_event g nextCurrent] else es);
              removed = filter (\<lambda>n. n \<notin> (gi_NodeID \<circ> snd) ` set (ru_Members u))
                          (remdups (map (gm_nodeID \<circ> snd) (gr_members r)))
          in (es', pruneGlobalEvictions removed
                (w\<lparr>w_groups := aput g r' (w_groups w), w_globalEvicted := marks',
                   w_stateRevision := rv'\<rparr>)))"

definition register_member :: "gtime \<Rightarrow> string \<times> GroupInitialState \<Rightarrow> node_id set \<times> int \<Rightarrow>
    (string \<times> groupMemberRuntime) \<times> node_id set \<times> int" where
  "register_member now ti acc =
     (let (t, i) = ti; (marks, rv) = acc;
          marks' = (if gi_Evicted i then insert (gi_NodeID i) marks else marks);
          ev = (gi_Evicted i \<or> gi_NodeID i \<in> marks');
          at = (if ev \<and> is_zero_time (gi_EvictedAt i) then now else gi_EvictedAt i)
      in ((t, \<lparr>gm_standby = gi_Standby i, gm_nodeID = gi_NodeID i, gm_tag = t,
               gm_failureHistory = gi_FailureHistory i, gm_evicted = ev,
               gm_lastError = gi_LastError i, gm_evictedAt = at, gm_recoverySuccesses = 0,
               gm_appliedProbes = [],
               gm_revision = (if gi_Revision i > 0 then gi_Revision i else 0)\<rparr>),
          marks', (if gi_Revision i > 0 then advanceStateRevision (gi_Revision i) rv else rv)))"

fun register_members :: "gtime \<Rightarrow> (string \<times> GroupInitialState) list \<Rightarrow> node_id set \<times> int \<Rightarrow>
    members \<times> node_id set \<times> int" where
  "register_members now [] acc = ([], acc)"
| "register_members now (ti # tis) acc =
     (let (tm, acc1) = register_member now ti acc;
          (tms, acc2) = register_members now tis acc1
      in (tm # tms, acc2))"

text \<open>The runtime just stored under \<open>g\<close>; \<open>Register\<close> ranges over its live members.\<close>

definition the_group :: "group_id \<Rightarrow> world \<Rightarrow> groupRuntime" where
  "the_group g w = (case map_of (w_groups w) g of Some r \<Rightarrow> r
     | None \<Rightarrow> \<lparr>gr_serial = 0, gr_id = g, gr_window = 0, gr_threshold = 0,
         gr_recovery = DefaultRecoveryPolicy, gr_currentTag = '''', gr_members = [],
         gr_lastCurrentNotify = zero_time, gr_currentNotifyPending = False,
         gr_currentPendingNodeID = 0\<rparr>)"

definition Register :: "group_id \<Rightarrow> duration \<Rightarrow> int \<Rightarrow> string \<Rightarrow>
    (string \<times> GroupInitialState) list \<Rightarrow> RecoveryPolicy option \<Rightarrow> gtime \<Rightarrow> world \<Rightarrow>
    nat option \<times> world" where
  "Register g failureWindow failureThreshold currentTag mems recovery now w =
     (if g = 0 then (None, w)
      else let policy = (case recovery of None \<Rightarrow> DefaultRecoveryPolicy
                         | Some p \<Rightarrow> NormalizeRecoveryPolicy p);
               (ms, (marks', rv')) = register_members now mems (w_globalEvicted w, w_stateRevision w);
               tag = (case map_of ms currentTag of
                        Some m \<Rightarrow> if member_clean m then currentTag else ''''
                      | None \<Rightarrow> '''');
               r = \<lparr>gr_serial = w_nextSerial w, gr_id = g,
                    gr_window = effective_window failureWindow,
                    gr_threshold = effective_threshold failureThreshold,
                    gr_recovery = policy, gr_currentTag = tag, gr_members = ms,
                    gr_lastCurrentNotify = zero_time, gr_currentNotifyPending = False,
                    gr_currentPendingNodeID = 0\<rparr>;
               w1 = w\<lparr>w_groups := aput g r (w_groups w), w_globalEvicted := marks',
                      w_stateRevision := rv', w_nextSerial := Suc (w_nextSerial w)\<rparr>;
               w2 = (case map_of ms tag of
                       Some m \<Rightarrow> notifyGroupState (current_event g (gm_nodeID m)) w1
                     | None \<Rightarrow> if currentTag \<noteq> '''' then notifyGroupState (current_event g 0) w1
                              else w1);
               w3 = fold (\<lambda>(t, _) w. case map_of (gr_members (the_group g w)) t of
                            None \<Rightarrow> w
                          | Some m \<Rightarrow> if gm_evicted m
                              then propagateEviction (gm_nodeID m) (gm_lastError m) (gm_evictedAt m) now w
                              else w) ms w2
           in (Some (w_nextSerial w), w3))"

definition Unregister :: "group_id \<Rightarrow> nat \<Rightarrow> world \<Rightarrow> world" where
  "Unregister g serial w =
     (case map_of (w_groups w) g of
        Some r \<Rightarrow> if gr_serial r = serial then w\<lparr>w_groups := adel g (w_groups w)\<rparr> else w
      | None \<Rightarrow> w)"

section \<open>Queries and selection\<close>

definition put_group :: "group_id \<Rightarrow> groupRuntime \<Rightarrow> world \<Rightarrow> world" where
  "put_group g r w = w\<lparr>w_groups := aput g r (w_groups w)\<rparr>"

definition set_member :: "string \<Rightarrow> groupMemberRuntime \<Rightarrow> groupRuntime \<Rightarrow> groupRuntime" where
  "set_member t m r = r\<lparr>gr_members := amap_at t (\<lambda>_. m) (gr_members r)\<rparr>"

definition MemberAvailable :: "group_id \<Rightarrow> string \<Rightarrow> gtime \<Rightarrow> world \<Rightarrow> bool \<times> world" where
  "MemberAvailable g t now w =
     (case map_of (w_groups w) g of
        None \<Rightarrow> (True, w)
      | Some r \<Rightarrow> (case map_of (gr_members r) t of
            None \<Rightarrow> (False, w)
          | Some m \<Rightarrow>
              let m' = (if gm_evicted m then m else snd (pruneFailures m (gr_window r) now))
              in (member_clean m', put_group g (set_member t m' r) w)))"

definition MemberNotEvicted :: "group_id \<Rightarrow> string \<Rightarrow> world \<Rightarrow> bool" where
  "MemberNotEvicted g t w =
     (case map_of (w_groups w) g of
        None \<Rightarrow> True
      | Some r \<Rightarrow> (case map_of (gr_members r) t of None \<Rightarrow> False | Some m \<Rightarrow> member_usable m))"

text \<open>
  \<open>CurrentTag\<close> prunes the current member before it trusts it, flushes a pending
  notification once the interval has passed, and drops a current tag that is no longer
  clean. The member keeps its pruned history in both cases.
\<close>

definition CurrentTag :: "group_id \<Rightarrow> gtime \<Rightarrow> world \<Rightarrow> string \<times> world" where
  "CurrentTag g now w =
     (case map_of (w_groups w) g of
        None \<Rightarrow> ('''', w)
      | Some r \<Rightarrow>
          let (ok, r1) = (case map_of (gr_members r) (gr_currentTag r) of
                 Some m \<Rightarrow> if member_usable m
                   then let m' = snd (pruneFailures m (gr_window r) now)
                        in (gm_failureHistory m' = [], set_member (gr_currentTag r) m' r)
                   else (False, r)
               | None \<Rightarrow> (False, r))
          in if ok then
               (let flush = (gr_currentNotifyPending r1 \<and>
                     time_sub now (gr_lastCurrentNotify r1) \<ge> currentTagNotifyInterval);
                    r2 = (if flush then r1\<lparr>gr_currentNotifyPending := False,
                                          gr_lastCurrentNotify := now\<rparr> else r1);
                    w1 = put_group g r2 w
                in (gr_currentTag r2,
                    if flush then notifyGroupState (current_event g (gr_currentPendingNodeID r2)) w1
                    else w1))
             else if gr_currentTag r1 = '''' then ('''', put_group g r1 w)
             else ('''', notifyGroupState (current_event g 0)
                    (put_group g (r1\<lparr>gr_currentTag := '''', gr_currentNotifyPending := False\<rparr>) w)))"

definition SetCurrentTag :: "group_id \<Rightarrow> string \<Rightarrow> gtime \<Rightarrow> world \<Rightarrow> world" where
  "SetCurrentTag g t now w =
     (case map_of (w_groups w) g of
        None \<Rightarrow> w
      | Some r \<Rightarrow>
          let m = map_of (gr_members r) t
          in if t \<noteq> '''' \<and> (case m of None \<Rightarrow> True | Some m \<Rightarrow> \<not> member_usable m) then w
             else if gr_currentTag r = t then w
             else let n = (case m of None \<Rightarrow> 0 | Some m \<Rightarrow> gm_nodeID m);
                      r1 = r\<lparr>gr_currentTag := t\<rparr>
                  in if \<not> is_zero_time (gr_lastCurrentNotify r1) \<and>
                        time_sub now (gr_lastCurrentNotify r1) < currentTagNotifyInterval
                     then put_group g (r1\<lparr>gr_currentNotifyPending := True,
                                          gr_currentPendingNodeID := n\<rparr>) w
                     else notifyGroupState (current_event g n)
                            (put_group g (r1\<lparr>gr_lastCurrentNotify := now,
                                             gr_currentNotifyPending := False\<rparr>) w))"

section \<open>Failures, successes and restores\<close>

text \<open>
  \<open>RecordFailure\<close> filters the history into the same backing array. On the same-second
  early return the member keeps its old slice header, so its history is the filtered prefix
  followed by what is left of the old array beyond it.
\<close>

definition window_history :: "groupRuntime \<Rightarrow> gtime \<Rightarrow> groupMemberRuntime \<Rightarrow> int list" where
  "window_history r at m =
     filter (\<lambda>ts. ts \<ge> time_unix (at - gr_window r)) (gm_failureHistory m)"

definition counted_failure ::
  "groupRuntime \<Rightarrow> string option \<Rightarrow> gtime \<Rightarrow> groupMemberRuntime \<Rightarrow> groupMemberRuntime" where
  "counted_failure r cause at m =
     (let m1 = m\<lparr>gm_failureHistory := window_history r at m @ [time_unix at],
                 gm_recoverySuccesses := 0,
                 gm_lastError := (case cause of None \<Rightarrow> gm_lastError m | Some e \<Rightarrow> e)\<rparr>
      in if int (length (gm_failureHistory m1)) \<ge> gr_threshold r
         then m1\<lparr>gm_evicted := True, gm_evictedAt := at\<rparr> else m1)"

definition RecordFailure ::
  "group_id \<Rightarrow> string \<Rightarrow> string option \<Rightarrow> gtime \<Rightarrow> gtime \<Rightarrow> world \<Rightarrow> bool \<times> world" where
  "RecordFailure g t cause at now w =
     (case map_of (w_groups w) g of
        None \<Rightarrow> (False, w)
      | Some r \<Rightarrow> (case map_of (gr_members r) t of
          None \<Rightarrow> (False, w)
        | Some m \<Rightarrow>
            if gm_evicted m
            then (True, put_group g (set_member t (m\<lparr>gm_recoverySuccesses := 0\<rparr>) r) w)
            else let history = window_history r at m
                 in if history \<noteq> [] \<and> last history = time_unix at
                    then (False, put_group g (set_member t (m\<lparr>gm_failureHistory :=
                            history @ drop (length history) (gm_failureHistory m)\<rparr>) r) w)
                    else let m2 = counted_failure r cause at m;
                             currentChanged = (gr_currentTag r = t);
                             rv = w_stateRevision w;
                             r1 = (set_member t (touch rv m2) r)\<lparr>gr_currentTag :=
                                     (if currentChanged then '''' else gr_currentTag r)\<rparr>;
                             w1 = notifyGroupState (state_event g m2 currentChanged (rv + 1))
                                    ((put_group g r1 w)\<lparr>w_stateRevision := rv + 1\<rparr>)
                         in (gm_evicted m2,
                             if gm_evicted m2
                             then propagateEviction (gm_nodeID m2) (gm_lastError m2)
                                    (gm_evictedAt m2) now
                                    (w1\<lparr>w_globalEvicted := insert (gm_nodeID m2) (w_globalEvicted w1)\<rparr>)
                             else w1)))"

definition RecordHealthSuccess ::
  "group_id \<Rightarrow> string \<Rightarrow> string \<Rightarrow> gtime \<Rightarrow> world \<Rightarrow> bool \<times> world" where
  "RecordHealthSuccess g t probeID now w =
     (case map_of (w_groups w) g of
        None \<Rightarrow> (False, w)
      | Some r \<Rightarrow> (case map_of (gr_members r) t of
          None \<Rightarrow> (False, w)
        | Some m0 \<Rightarrow>
            let (dup, m) = alreadyAppliedProbe probeID m0;
                keep = (\<lambda>m'. put_group g (set_member t m' r) w);
                rv = w_stateRevision w
            in if dup then (\<not> gm_evicted m, keep m)
               else if gm_evicted m then
                 (if \<not> rp_Enabled (gr_recovery r)
                  then (False, keep (m\<lparr>gm_recoverySuccesses := 0\<rparr>))
                  else if time_sub now (gm_evictedAt m) < rp_Cooldown (gr_recovery r)
                  then (False, keep m)
                  else let m1 = m\<lparr>gm_recoverySuccesses := gm_recoverySuccesses m + 1\<rparr>
                       in if gm_recoverySuccesses m1 < rp_SuccessThreshold (gr_recovery r)
                          then (False, keep m1)
                          else let n = gm_nodeID m1;
                                   w1 = (keep (touch rv (clearMemberEviction m1)))\<lparr>
                                          w_stateRevision := rv + 1,
                                          w_globalEvicted := w_globalEvicted w - {n}\<rparr>
                               in (True, recoverEvictedNodeEverywhere n g
                                     (notifyGroupState (recovered_event g n (rv + 1)) w1)))
               else if gm_failureHistory m = [] then (True, keep (m\<lparr>gm_recoverySuccesses := 0\<rparr>))
               else let m1 = m\<lparr>gm_failureHistory := [], gm_lastError := '''', gm_recoverySuccesses := 0\<rparr>
                    in (True, notifyGroupState (recovered_event g (gm_nodeID m1) (rv + 1))
                          ((keep (touch rv m1))\<lparr>w_stateRevision := rv + 1\<rparr>))))"

definition RecordGroupHealthFailure :: "group_id \<Rightarrow> string \<Rightarrow> string \<Rightarrow> string option \<Rightarrow>
    gtime \<Rightarrow> gtime \<Rightarrow> world \<Rightarrow> bool \<times> world" where
  "RecordGroupHealthFailure g t probeID cause at now w =
     (case map_of (w_groups w) g of
        None \<Rightarrow> RecordFailure g t cause at now w
      | Some r \<Rightarrow> (case map_of (gr_members r) t of
          None \<Rightarrow> RecordFailure g t cause at now w
        | Some m0 \<Rightarrow>
            let (dup, m) = alreadyAppliedProbe probeID m0;
                w1 = put_group g (set_member t m r) w
            in if dup \<or> gm_failureHistory m \<noteq> [] \<and> last (gm_failureHistory m) = time_unix at
               then (gm_evicted m, w1)
               else RecordFailure g t cause at now w1))"

definition RestoreGroupMember :: "group_id \<Rightarrow> node_id \<Rightarrow> world \<Rightarrow> string option \<times> world" where
  "RestoreGroupMember g n w =
     (if map_of (w_groups w) g = None then (Some ''group runtime not found'', w)
      else let (es, rv', gs') = clear_groups False n (\<lambda>_. False) (w_stateRevision w) (w_groups w);
               w' = notify_all es (w\<lparr>w_globalEvicted := w_globalEvicted w - {n}, w_groups := gs',
                                     w_stateRevision := rv'\<rparr>)
           in ((if es = [] then Some ''group member not found'' else None), w'))"

section \<open>Snapshots\<close>

record StateSnapshot =
  ss_GroupID :: group_id
  ss_NodeID :: node_id
  ss_FailureHistory :: "int list"
  ss_Evicted :: bool
  ss_LastError :: string
  ss_EvictedAt :: gtime
  ss_Revision :: int

definition member_state :: "group_id \<Rightarrow> groupMemberRuntime \<Rightarrow> StateSnapshot" where
  "member_state g m = \<lparr>ss_GroupID = g, ss_NodeID = gm_nodeID m,
     ss_FailureHistory = gm_failureHistory m, ss_Evicted = gm_evicted m,
     ss_LastError = gm_lastError m, ss_EvictedAt = gm_evictedAt m, ss_Revision = gm_revision m\<rparr>"

fun snapshot_members :: "group_id \<Rightarrow> node_id list \<Rightarrow> node_id list \<Rightarrow> members \<Rightarrow> StateSnapshot list"
  where
  "snapshot_members g wanted seen [] = []"
| "snapshot_members g wanted seen ((_, m) # ms) =
     (if gm_nodeID m \<notin> set wanted \<or> gm_nodeID m \<in> set seen then snapshot_members g wanted seen ms
      else member_state g m # snapshot_members g wanted (gm_nodeID m # seen) ms)"

definition SnapshotStates :: "node_id list \<Rightarrow> world \<Rightarrow> StateSnapshot list" where
  "SnapshotStates nodeIDs w =
     (let wanted = filter (\<lambda>n. n \<noteq> 0) nodeIDs
      in if wanted = [] then []
         else concat (map (\<lambda>(_, r). snapshot_members (gr_id r) wanted [] (gr_members r)) (w_groups w)))"

definition member_status :: "groupMemberRuntime \<Rightarrow> string" where
  "member_status m = (if gm_evicted m then ''EVICTED''
     else if gm_failureHistory m \<noteq> [] then ''SUSPECT'' else ''ALIVE'')"

definition snapshot_member :: "RecoveryPolicy \<Rightarrow> gtime \<Rightarrow> groupMemberRuntime \<Rightarrow> GroupMemberSnapshot"
  where
  "snapshot_member p now m =
     (let counting = (gm_evicted m \<and> rp_Enabled p);
          cooldownEnd = gm_evictedAt m + rp_Cooldown p
      in \<lparr>gs_Standby = gm_standby m, gs_NodeID = gm_nodeID m, gs_Tag = gm_tag m,
          gs_Status = member_status m, gs_FailureCount = length (gm_failureHistory m),
          gs_FailureHistory = gm_failureHistory m, gs_LastError = gm_lastError m,
          gs_EvictedAt = gm_evictedAt m,
          gs_RecoverySuccesses = (if counting then gm_recoverySuccesses m else 0),
          gs_RecoveryThreshold = (if counting then rp_SuccessThreshold p else 0),
          gs_RecoveryCooldownEnd = (if counting \<and> cooldownEnd > now then cooldownEnd else zero_time)\<rparr>)"

fun prune_members :: "group_id \<Rightarrow> duration \<Rightarrow> gtime \<Rightarrow> int \<Rightarrow> members \<Rightarrow>
    GroupStateEvent list \<times> int \<times> members" where
  "prune_members g window now rv [] = ([], rv, [])"
| "prune_members g window now rv ((t, m) # ms) =
     (if gm_evicted m then
        (let (es, rv', ms') = prune_members g window now rv ms in (es, rv', (t, m) # ms'))
      else let (pruned, m1) = pruneFailures m window now
           in if pruned
              then let (es, rv', ms') = prune_members g window now (rv + 1) ms
                   in ((blank_event g)\<lparr>ev_NodeID := gm_nodeID m1,
                        ev_FailureHistory := gm_failureHistory m1, ev_LastError := gm_lastError m1,
                        ev_StateChanged := True, ev_Revision := rv + 1\<rparr> # es, rv',
                       (t, touch rv m1) # ms')
              else let (es, rv', ms') = prune_members g window now rv ms
                   in (es, rv', (t, m1) # ms'))"

definition snapshotGroupRuntime :: "bool \<Rightarrow> gtime \<Rightarrow> groupRuntime \<Rightarrow> int \<Rightarrow>
    GroupRuntimeSnapshot \<times> GroupStateEvent list \<times> int \<times> groupRuntime" where
  "snapshotGroupRuntime prune now r rv =
     (let (es, rv', ms') = (if prune then prune_members (gr_id r) (gr_window r) now rv (gr_members r)
                             else ([], rv, gr_members r));
          r' = r\<lparr>gr_members := ms'\<rparr>
      in (\<lparr>rs_GroupID = gr_id r, rs_CurrentNodeID = current_node r, rs_CurrentTag = gr_currentTag r,
           rs_Members = sort_key gs_NodeID (map (snapshot_member (gr_recovery r) now \<circ> snd) ms')\<rparr>,
          es, rv', r'))"

fun snapshot_groups :: "bool \<Rightarrow> gtime \<Rightarrow> int \<Rightarrow> groups \<Rightarrow>
    (group_id \<times> GroupRuntimeSnapshot) list \<times> GroupStateEvent list \<times> int \<times> groups" where
  "snapshot_groups prune now rv [] = ([], [], rv, [])"
| "snapshot_groups prune now rv ((g, r) # gs) =
     (let (s, es, rv1, r') = snapshotGroupRuntime prune now r rv;
          (ss, es', rv2, gs') = snapshot_groups prune now rv1 gs
      in ((gr_id r, s) # ss, es @ es', rv2, (g, r') # gs'))"

definition GroupRuntimeSnapshots ::
  "gtime \<Rightarrow> world \<Rightarrow> (group_id \<times> GroupRuntimeSnapshot) list \<times> world" where
  "GroupRuntimeSnapshots now w =
     (let (ss, es, rv', gs') = snapshot_groups True now (w_stateRevision w) (w_groups w)
      in (ss, notify_all es (w\<lparr>w_groups := gs', w_stateRevision := rv'\<rparr>)))"

definition GroupRuntimeSnapshotsReadonly ::
  "gtime \<Rightarrow> world \<Rightarrow> (group_id \<times> GroupRuntimeSnapshot) list" where
  "GroupRuntimeSnapshotsReadonly now w =
     fst (snapshot_groups False now (w_stateRevision w) (w_groups w))"

definition GroupRuntimeSnapshotReadonly :: "group_id \<Rightarrow> gtime \<Rightarrow> world \<Rightarrow> GroupRuntimeSnapshot option"
  where
  "GroupRuntimeSnapshotReadonly g now w =
     map_option (\<lambda>r. fst (snapshotGroupRuntime False now r (w_stateRevision w))) (map_of (w_groups w) g)"

definition Reset :: "world \<Rightarrow> world" where
  "Reset w = w\<lparr>w_groups := [], w_globalEvicted := {}, w_activation := [], w_subscribers := []\<rparr>"

end
