(* ===== verification/Group_Invariant.thy ===== *)
theory Group_Invariant
  imports Group_Runtime
begin

text \<open>
  The invariant of the group runtime and its preservation by every operation: the selected
  member of a group is always a usable one, a recovery streak never reaches its threshold
  while the member stays evicted, the probe ring is bounded and free of duplicates, and no
  member carries a revision beyond the global clock.
\<close>

section \<open>Well-formed members, groups and worlds\<close>

definition member_ok :: "int \<Rightarrow> RecoveryPolicy \<Rightarrow> groupMemberRuntime \<Rightarrow> bool" where
  "member_ok clock p m \<longleftrightarrow>
     gm_revision m \<le> clock \<and> 0 \<le> gm_recoverySuccesses m \<and>
     (\<not> gm_evicted m \<longrightarrow> gm_recoverySuccesses m = 0) \<and>
     (gm_recoverySuccesses m = 0 \<or> gm_recoverySuccesses m < rp_SuccessThreshold p) \<and>
     (gm_evicted m \<longrightarrow> \<not> is_zero_time (gm_evictedAt m)) \<and>
     distinct (gm_appliedProbes m) \<and> length (gm_appliedProbes m) \<le> groupProbeRing"

definition current_ok :: "groupRuntime \<Rightarrow> bool" where
  "current_ok r \<longleftrightarrow> gr_currentTag r = '''' \<or>
     (\<exists>m. map_of (gr_members r) (gr_currentTag r) = Some m \<and> member_usable m)"

definition members_ok :: "int \<Rightarrow> RecoveryPolicy \<Rightarrow> members \<Rightarrow> bool" where
  "members_ok clock p ms \<longleftrightarrow> distinct (map fst ms) \<and>
     (\<forall>(t, m) \<in> set ms. gm_tag m = t \<and> member_ok clock p m)"

definition group_ok :: "int \<Rightarrow> groupRuntime \<Rightarrow> bool" where
  "group_ok clock r \<longleftrightarrow> members_ok clock (gr_recovery r) (gr_members r) \<and> current_ok r \<and>
     0 < rp_SuccessThreshold (gr_recovery r) \<and> 0 < gr_window r \<and> 0 < gr_threshold r"

definition world_ok :: "world \<Rightarrow> bool" where
  "world_ok w \<longleftrightarrow> 0 \<le> w_stateRevision w \<and> distinct (map fst (w_groups w)) \<and>
     (\<forall>(g, r) \<in> set (w_groups w). gr_id r = g \<and> group_ok (w_stateRevision w) r)"

section \<open>The operations as one step relation\<close>

datatype group_op =
    OpRegister group_id duration int string "(string \<times> GroupInitialState) list" "RecoveryPolicy option"
  | OpUnregister group_id nat
  | OpReconcile group_id RuntimeUpdate
  | OpNotifyEvents "GroupStateEvent list"
  | OpMemberAvailable group_id string
  | OpCurrentTag group_id
  | OpSetCurrentTag group_id string
  | OpRecordFailure group_id string "string option" gtime
  | OpRecordHealthSuccess group_id string string
  | OpRecordGroupHealthFailure group_id string string "string option" gtime
  | OpRestoreGroupMember group_id node_id
  | OpSnapshots
  | OpSetObserver bool
  | OpSubscribe
  | OpUnsubscribe nat
  | OpReset

fun run_op :: "group_op \<Rightarrow> gtime \<Rightarrow> world \<Rightarrow> world" where
  "run_op (OpRegister g win thr t ms p) now w = snd (Register g win thr t ms p now w)"
| "run_op (OpUnregister g s) now w = Unregister g s w"
| "run_op (OpReconcile g u) now w = snd (ReconcileSilent g u now w)"
| "run_op (OpNotifyEvents es) now w = NotifyEvents now es w"
| "run_op (OpMemberAvailable g t) now w = snd (MemberAvailable g t now w)"
| "run_op (OpCurrentTag g) now w = snd (CurrentTag g now w)"
| "run_op (OpSetCurrentTag g t) now w = SetCurrentTag g t now w"
| "run_op (OpRecordFailure g t c at) now w = snd (RecordFailure g t c at now w)"
| "run_op (OpRecordHealthSuccess g t p) now w = snd (RecordHealthSuccess g t p now w)"
| "run_op (OpRecordGroupHealthFailure g t p c at) now w =
     snd (RecordGroupHealthFailure g t p c at now w)"
| "run_op (OpRestoreGroupMember g n) now w = snd (RestoreGroupMember g n w)"
| "run_op OpSnapshots now w = snd (GroupRuntimeSnapshots now w)"
| "run_op (OpSetObserver b) now w = SetGroupStateObserver b w"
| "run_op OpSubscribe now w = snd (SubscribeStateChanges w)"
| "run_op (OpUnsubscribe n) now w = UnsubscribeStateChanges n w"
| "run_op OpReset now w = Reset w"

text \<open>
  What a call site guarantees: the clock is past Go's zero instant and the member arguments
  are maps (distinct keys).
\<close>

fun op_ok :: "group_op \<Rightarrow> bool" where
  "op_ok (OpRegister g win thr t ms p) \<longleftrightarrow> distinct (map fst ms)"
| "op_ok (OpReconcile g u) \<longleftrightarrow> distinct (map fst (ru_Members u))"
| "op_ok (OpRecordFailure g t c at) \<longleftrightarrow> \<not> is_zero_time at"
| "op_ok (OpRecordGroupHealthFailure g t p c at) \<longleftrightarrow> \<not> is_zero_time at"
| "op_ok _ \<longleftrightarrow> True"

definition group_step :: "world \<Rightarrow> world \<Rightarrow> bool" where
  "group_step w w' \<longleftrightarrow> (\<exists>op now. \<not> is_zero_time now \<and> op_ok op \<and> w' = run_op op now w)"

section \<open>Members\<close>

named_theorems member_intros \<open>operations that keep a member well-formed\<close>

lemma member_ok_mono: "member_ok c p m \<Longrightarrow> c \<le> c' \<Longrightarrow> member_ok c' p m"
  by (auto simp: member_ok_def)

lemma member_ok_probe [member_intros]:
  assumes "member_ok c p m"
  shows "member_ok c p (snd (alreadyAppliedProbe pid m))"
proof -
  have "pid \<notin> set (gm_appliedProbes m) \<Longrightarrow> pid \<notin> set (tl (gm_appliedProbes m))"
    by (cases "gm_appliedProbes m") auto
  with assms show ?thesis
    by (auto simp: member_ok_def alreadyAppliedProbe_def distinct_tl groupProbeRing_def)
qed

lemma member_ok_prune [member_intros]:
  "member_ok c p m \<Longrightarrow> member_ok c p (snd (pruneFailures m win now))"
  by (auto simp: member_ok_def pruneFailures_def Let_def)

lemma member_ok_touch_clear [member_intros]:
  "member_ok c p m \<Longrightarrow> member_ok (c + 1) p (touch c (clearMemberEviction m))"
  by (auto simp: member_ok_def clearMemberEviction_def touch_def)

lemma alreadyAppliedProbe_frame [simp]:
  "gm_evicted (snd (alreadyAppliedProbe pid m)) = gm_evicted m"
  "gm_evictedAt (snd (alreadyAppliedProbe pid m)) = gm_evictedAt m"
  "gm_standby (snd (alreadyAppliedProbe pid m)) = gm_standby m"
  "gm_nodeID (snd (alreadyAppliedProbe pid m)) = gm_nodeID m"
  "gm_tag (snd (alreadyAppliedProbe pid m)) = gm_tag m"
  "gm_failureHistory (snd (alreadyAppliedProbe pid m)) = gm_failureHistory m"
  "gm_recoverySuccesses (snd (alreadyAppliedProbe pid m)) = gm_recoverySuccesses m"
  "gm_revision (snd (alreadyAppliedProbe pid m)) = gm_revision m"
  "gm_lastError (snd (alreadyAppliedProbe pid m)) = gm_lastError m"
  by (auto simp: alreadyAppliedProbe_def)

lemma pruneFailures_frame [simp]:
  "gm_evicted (snd (pruneFailures m win now)) = gm_evicted m"
  "gm_standby (snd (pruneFailures m win now)) = gm_standby m"
  "gm_nodeID (snd (pruneFailures m win now)) = gm_nodeID m"
  "gm_tag (snd (pruneFailures m win now)) = gm_tag m"
  "gm_evictedAt (snd (pruneFailures m win now)) = gm_evictedAt m"
  "gm_recoverySuccesses (snd (pruneFailures m win now)) = gm_recoverySuccesses m"
  "gm_revision (snd (pruneFailures m win now)) = gm_revision m"
  "gm_appliedProbes (snd (pruneFailures m win now)) = gm_appliedProbes m"
  by (auto simp: pruneFailures_def Let_def)

lemma pruneFailures_pair:
  "pruneFailures m win now = (b, m') \<Longrightarrow>
     gm_evicted m' = gm_evicted m \<and> gm_standby m' = gm_standby m \<and> gm_nodeID m' = gm_nodeID m \<and>
     gm_tag m' = gm_tag m \<and> gm_evictedAt m' = gm_evictedAt m \<and>
     gm_recoverySuccesses m' = gm_recoverySuccesses m \<and> gm_revision m' = gm_revision m \<and>
     gm_appliedProbes m' = gm_appliedProbes m"
  by (auto simp: pruneFailures_def Let_def split: if_splits)

section \<open>Groups\<close>

lemma members_ok_mono: "members_ok c p ms \<Longrightarrow> c \<le> c' \<Longrightarrow> members_ok c' p ms"
  by (auto simp: members_ok_def intro: member_ok_mono)

lemma group_ok_mono: "group_ok c r \<Longrightarrow> c \<le> c' \<Longrightarrow> group_ok c' r"
  by (auto simp: group_ok_def intro: members_ok_mono)

lemma members_ok_lookup:
  "members_ok c p ms \<Longrightarrow> map_of ms t = Some m \<Longrightarrow> gm_tag m = t \<and> member_ok c p m"
  by (auto simp: members_ok_def dest!: map_of_SomeD)

lemma members_ok_set:
  assumes "members_ok c p ms" "c \<le> c'" "member_ok c' p m'" "gm_tag m' = t"
  shows "members_ok c' p (amap_at t (\<lambda>_. m') ms)"
  using assms members_ok_mono [OF assms(1,2)]
  by (auto simp: members_ok_def ball_amap_at)

lemma group_ok_lookup:
  "group_ok c r \<Longrightarrow> map_of (gr_members r) t = Some m \<Longrightarrow> gm_tag m = t \<and> member_ok c (gr_recovery r) m"
  by (auto simp: group_ok_def dest: members_ok_lookup)

text \<open>
  Replacing one member keeps the group well-formed if the new member is well-formed and, when
  it is the selected one, still usable.
\<close>

lemma group_ok_set_member:
  assumes "group_ok c r" "map_of (gr_members r) t = Some m" "c \<le> c'"
    and "member_ok c' (gr_recovery r) m'" "gm_tag m' = t"
    and "gr_currentTag r = t \<Longrightarrow> member_usable m \<Longrightarrow> member_usable m'"
  shows "group_ok c' (set_member t m' r)"
  using assms members_ok_set [of c "gr_recovery r" "gr_members r" c' m' t]
  by (auto simp: group_ok_def set_member_def current_ok_def)

lemma group_ok_set_member_deselect:
  assumes "group_ok c r" "map_of (gr_members r) t = Some m" "c \<le> c'"
    and "member_ok c' (gr_recovery r) m'" "gm_tag m' = t"
  shows "group_ok c' ((set_member t m' r)\<lparr>gr_currentTag :=
           (if gr_currentTag r = t then '''' else gr_currentTag r)\<rparr>)"
  using assms members_ok_set [of c "gr_recovery r" "gr_members r" c' m' t]
  by (auto simp: group_ok_def set_member_def current_ok_def)

lemma set_member_frame [simp]:
  "gr_id (set_member t m r) = gr_id r" "gr_currentTag (set_member t m r) = gr_currentTag r"
  "gr_recovery (set_member t m r) = gr_recovery r" "gr_window (set_member t m r) = gr_window r"
  "gr_threshold (set_member t m r) = gr_threshold r"
  "gr_members (set_member t m r) = amap_at t (\<lambda>_. m) (gr_members r)"
  by (simp_all add: set_member_def)

section \<open>Worlds\<close>

lemma notify_frame [simp]:
  "w_groups (notifyGroupState e w) = w_groups w"
  "w_stateRevision (notifyGroupState e w) = w_stateRevision w"
  "w_globalEvicted (notifyGroupState e w) = w_globalEvicted w"
  by (simp_all add: notifyGroupState_def)

lemma notify_all_frame [simp]:
  "w_groups (notify_all es w) = w_groups w"
  "w_stateRevision (notify_all es w) = w_stateRevision w"
  "w_globalEvicted (notify_all es w) = w_globalEvicted w"
  unfolding notify_all_def by (induction es arbitrary: w) simp_all

lemma world_ok_cong:
  "w_groups w' = w_groups w \<Longrightarrow> w_stateRevision w' = w_stateRevision w \<Longrightarrow> world_ok w' = world_ok w"
  by (simp add: world_ok_def)

lemma world_ok_lookup:
  "world_ok w \<Longrightarrow> map_of (w_groups w) g = Some r \<Longrightarrow> gr_id r = g \<and> group_ok (w_stateRevision w) r"
  by (auto simp: world_ok_def dest!: map_of_SomeD)

lemma world_ok_put:
  assumes "world_ok w" "gr_id r = g" "group_ok c r" "w_stateRevision w \<le> c"
    and "w_groups w' = aput g r (w_groups w)" "w_stateRevision w' = c"
  shows "world_ok w'"
proof -
  have "\<forall>(g', r') \<in> set (w_groups w). gr_id r' = g' \<and> group_ok c r'"
    using assms(1,4) by (auto simp: world_ok_def intro: group_ok_mono)
  then show ?thesis
    using assms set_aput [of g r "w_groups w"] by (fastforce simp: world_ok_def)
qed

lemma put_group_frame [simp]:
  "w_groups (put_group g r w) = aput g r (w_groups w)"
  "w_stateRevision (put_group g r w) = w_stateRevision w"
  "w_globalEvicted (put_group g r w) = w_globalEvicted w"
  by (simp_all add: put_group_def)

lemma world_ok_put_group:
  "world_ok w \<Longrightarrow> gr_id r = g \<Longrightarrow> group_ok (w_stateRevision w) r \<Longrightarrow> world_ok (put_group g r w)"
  by (rule world_ok_put [where r = r and g = g]) auto

section \<open>Propagation keeps the invariant\<close>

definition evicted_copy :: "string \<Rightarrow> gtime \<Rightarrow> int \<Rightarrow> groupMemberRuntime \<Rightarrow> groupMemberRuntime" where
  "evicted_copy err at rv m = touch rv (m\<lparr>gm_evicted := True, gm_evictedAt := at,
     gm_lastError := err, gm_recoverySuccesses := 0\<rparr>)"

lemma evict_first_None:
  "evict_first n err at rv ms = None \<longleftrightarrow> (\<forall>(t, m) \<in> set ms. gm_nodeID m = n \<longrightarrow> gm_evicted m)"
  by (induction n err at rv ms rule: evict_first.induct) (auto simp: Let_def)

lemma evict_first_Some:
  "evict_first n err at rv ms = Some (m', ms') \<Longrightarrow>
     \<exists>xs t m ys. ms = xs @ (t, m) # ys \<and> ms' = xs @ (t, m') # ys \<and> gm_nodeID m = n \<and>
       \<not> gm_evicted m \<and> m' = evicted_copy err at rv m \<and>
       (\<forall>(t, m) \<in> set xs. gm_nodeID m = n \<longrightarrow> gm_evicted m)"
proof (induction n err at rv ms arbitrary: ms' rule: evict_first.induct)
  case (2 n err at rv t m ms)
  show ?case
  proof (cases "gm_nodeID m \<noteq> n \<or> gm_evicted m")
    case True
    with "2.prems" obtain ms0 where ms0: "evict_first n err at rv ms = Some (m', ms0)"
      and ms': "ms' = (t, m) # ms0"
      by auto
    from "2.IH" [OF True ms0] obtain xs t1 m1 ys where
      *: "ms = xs @ (t1, m1) # ys" "ms0 = xs @ (t1, m') # ys" "gm_nodeID m1 = n" "\<not> gm_evicted m1"
        "m' = evicted_copy err at rv m1" "\<forall>(t, m) \<in> set xs. gm_nodeID m = n \<longrightarrow> gm_evicted m"
      by blast
    have "(t, m) # ms = ((t, m) # xs) @ (t1, m1) # ys" "ms' = ((t, m) # xs) @ (t1, m') # ys"
      "\<forall>(t, m) \<in> set ((t, m) # xs). gm_nodeID m = n \<longrightarrow> gm_evicted m"
      using * ms' True by auto
    with * show ?thesis by blast
  next
    case False
    then have "(t, m) # ms = [] @ (t, m) # ms" "ms' = [] @ (t, m') # ms"
      "m' = evicted_copy err at rv m" "gm_nodeID m = n" "\<not> gm_evicted m"
      using "2.prems" by (auto simp: Let_def evicted_copy_def)
    then show ?thesis by fastforce
  qed
qed simp

lemma member_ok_evicted_copy [member_intros]:
  "member_ok c p m \<Longrightarrow> \<not> is_zero_time at \<Longrightarrow> member_ok (c + 1) p (evicted_copy err at c m)"
  by (auto simp: member_ok_def evicted_copy_def touch_def)

lemma evicted_copy_frame [simp]:
  "gm_nodeID (evicted_copy err at rv m) = gm_nodeID m" "gm_tag (evicted_copy err at rv m) = gm_tag m"
  "gm_evicted (evicted_copy err at rv m)" "gm_standby (evicted_copy err at rv m) = gm_standby m"
  "gm_failureHistory (evicted_copy err at rv m) = gm_failureHistory m"
  by (simp_all add: evicted_copy_def touch_def)

lemma members_ok_replace:
  assumes "members_ok c p (xs @ (t, m) # ys)" "c \<le> c'" "member_ok c' p m'" "gm_tag m' = t"
  shows "members_ok c' p (xs @ (t, m') # ys)"
  using assms members_ok_mono [OF assms(1,2)] by (auto simp: members_ok_def)

lemma propagate_group_ok:
  assumes "group_ok c r" "\<not> is_zero_time at" "propagate_group n err at c r = Some (e, r')"
  shows "group_ok (c + 1) r' \<and> gr_id r' = gr_id r"
proof -
  from assms(3) obtain m' ms' where ef: "evict_first n err at c (gr_members r) = Some (m', ms')"
    and r': "r' = r\<lparr>gr_members := ms',
               gr_currentTag := (if gr_currentTag r = gm_tag m' then '''' else gr_currentTag r)\<rparr>"
    by (auto simp: propagate_group_def Let_def split: option.splits)
  from evict_first_Some [OF ef] obtain xs t m ys where
    ms: "gr_members r = xs @ (t, m) # ys" and ms': "ms' = xs @ (t, m') # ys"
    and m': "m' = evicted_copy err at c m"
    by blast
  have mo: "members_ok c (gr_recovery r) (gr_members r)" using assms(1) by (simp add: group_ok_def)
  then have tag: "gm_tag m = t" and ok: "member_ok c (gr_recovery r) m"
    and dist: "distinct (map fst (xs @ (t, m) # ys))"
    by (auto simp: members_ok_def ms)
  have "members_ok (c + 1) (gr_recovery r) ms'"
    unfolding ms' m'
    by (rule members_ok_replace [OF mo [unfolded ms]])
      (simp_all add: tag member_ok_evicted_copy [OF ok assms(2)])
  moreover have "map_of ms' t' = map_of (gr_members r) t'" if "t' \<noteq> t" for t'
    using that by (simp add: ms ms' map_add_def split: option.splits)
  ultimately show ?thesis
    using assms(1) tag by (auto simp: group_ok_def r' current_ok_def m')
qed

definition groups_ok :: "int \<Rightarrow> groups \<Rightarrow> bool" where
  "groups_ok c gs \<longleftrightarrow> (\<forall>(g, r) \<in> set gs. gr_id r = g \<and> group_ok c r)"

lemma groups_ok_mono: "groups_ok c gs \<Longrightarrow> c \<le> c' \<Longrightarrow> groups_ok c' gs"
  by (auto simp: groups_ok_def intro: group_ok_mono)

lemma groups_ok_Cons [simp]:
  "groups_ok c ((g, r) # gs) \<longleftrightarrow> gr_id r = g \<and> group_ok c r \<and> groups_ok c gs"
  by (auto simp: groups_ok_def)

lemma world_ok_groups:
  "world_ok w \<longleftrightarrow> 0 \<le> w_stateRevision w \<and> distinct (map fst (w_groups w)) \<and>
     groups_ok (w_stateRevision w) (w_groups w)"
  by (simp add: world_ok_def groups_ok_def)

lemma propagate_groups_ok:
  assumes "groups_ok c gs" "\<not> is_zero_time at" "propagate_groups n err at c gs = (es, c', gs')"
  shows "c \<le> c' \<and> groups_ok c' gs' \<and> map fst gs' = map fst gs"
  using assms
proof (induction n err at c gs arbitrary: es c' gs' rule: propagate_groups.induct)
  case (2 n err at c g r gs)
  show ?case
  proof (cases "propagate_group n err at c r")
    case None
    with 2 obtain gs1 where "propagate_groups n err at c gs = (es, c', gs1)" "gs' = (g, r) # gs1"
      by (auto split: prod.splits)
    with None 2 show ?thesis by (auto intro: group_ok_mono)
  next
    case (Some er)
    obtain e r' where er: "er = (e, r')" by fastforce
    with Some 2 obtain es1 gs1 where
      rec: "propagate_groups n err at (c + 1) gs = (es1, c', gs1)" and gs': "gs' = (g, r') # gs1"
      by (auto split: prod.splits)
    have r': "group_ok (c + 1) r' \<and> gr_id r' = gr_id r"
      using propagate_group_ok Some er "2.prems" by auto
    have "groups_ok (c + 1) gs" using "2.prems" by (auto intro: groups_ok_mono [of c])
    with "2.IH"(2) [OF Some [unfolded er] refl _ _ rec] "2.prems"(2)
    have "c + 1 \<le> c' \<and> groups_ok c' gs1 \<and> map fst gs1 = map fst gs" by blast
    with r' gs' "2.prems"(1) show ?thesis by (auto intro: group_ok_mono)
  qed
qed auto

lemma propagateEviction_ok:
  assumes "world_ok w" "\<not> is_zero_time now"
  shows "world_ok (propagateEviction n err at now w) \<and>
    w_stateRevision w \<le> w_stateRevision (propagateEviction n err at now w)"
proof -
  obtain es c' gs' where
    *: "propagate_groups n err (if is_zero_time at then now else at) (w_stateRevision w) (w_groups w)
        = (es, c', gs')"
    by (metis prod_cases3)
  have "w_stateRevision w \<le> c' \<and> groups_ok c' gs' \<and> map fst gs' = map fst (w_groups w)"
    by (rule propagate_groups_ok [OF _ _ *]) (use assms in \<open>auto simp: world_ok_groups\<close>)
  with * assms show ?thesis
    by (auto simp: propagateEviction_def Let_def world_ok_groups)
qed

section \<open>Recovery keeps the invariant\<close>

lemma clear_node_ok:
  assumes "\<forall>(t, m) \<in> set ms. gm_tag m = t \<and> member_ok c p m" "clear_node oe n c ms = (l, c', ms')"
  shows "c \<le> c' \<and> (\<forall>(t, m) \<in> set ms'. gm_tag m = t \<and> member_ok c' p m) \<and> map fst ms' = map fst ms"
  using assms
proof (induction oe n c ms arbitrary: l c' ms' rule: clear_node.induct)
  case (2 oe n c t m ms)
  show ?case
  proof (cases "gm_nodeID m \<noteq> n \<or> oe \<and> \<not> gm_evicted m")
    case True
    with 2 obtain ms1 where "clear_node oe n c ms = (l, c', ms1)" "ms' = (t, m) # ms1"
      by (auto split: prod.splits)
    with True 2 show ?thesis by (auto intro: member_ok_mono)
  next
    case False
    with "2.prems" obtain l1 ms1 where rec: "clear_node oe n (c + 1) ms = (l1, c', ms1)"
      and ms': "ms' = (t, touch c (clearMemberEviction m)) # ms1"
      by (auto split: prod.splits)
    have "\<forall>(t, m) \<in> set ms. gm_tag m = t \<and> member_ok (c + 1) p m"
      using "2.prems"(1) by (auto intro: member_ok_mono)
    with "2.IH"(2) [OF False _ rec]
    have "c + 1 \<le> c' \<and> (\<forall>(t, m) \<in> set ms1. gm_tag m = t \<and> member_ok c' p m) \<and> map fst ms1 = map fst ms"
      by blast
    moreover have "member_ok c' p (touch c (clearMemberEviction m))" if "c + 1 \<le> c'"
      using "2.prems"(1) member_ok_touch_clear that by (auto intro: member_ok_mono)
    ultimately show ?thesis using ms' "2.prems"(1)
      by (auto simp: touch_def clearMemberEviction_def)
  qed
qed auto

lemma clear_node_lookup:
  assumes "clear_node oe n c ms = (l, c', ms')" "map_of ms t = Some m"
  shows "\<exists>m'. map_of ms' t = Some m' \<and> gm_nodeID m' = gm_nodeID m \<and>
    (member_usable m \<longrightarrow> member_usable m')"
  using assms
proof (induction oe n c ms arbitrary: l c' ms' rule: clear_node.induct)
  case (2 oe n c t1 m1 ms)
  then show ?case
    by (auto split: prod.splits if_splits
        simp: touch_def clearMemberEviction_def member_usable_def)
qed auto

lemma clear_group_ok:
  assumes "group_ok c r" "clear_node oe n c (gr_members r) = (l, c', ms')"
  shows "c \<le> c' \<and> group_ok c' (r\<lparr>gr_members := ms'\<rparr>)"
proof -
  have "c \<le> c' \<and> (\<forall>(t, m) \<in> set ms'. gm_tag m = t \<and> member_ok c' (gr_recovery r) m)
     \<and> map fst ms' = map fst (gr_members r)"
    by (rule clear_node_ok [OF _ assms(2)]) (use assms(1) in \<open>auto simp: group_ok_def members_ok_def\<close>)
  moreover have "current_ok (r\<lparr>gr_members := ms'\<rparr>)"
    using assms(1) clear_node_lookup [OF assms(2)] by (fastforce simp: group_ok_def current_ok_def)
  ultimately show ?thesis using assms(1) by (auto simp: group_ok_def members_ok_def)
qed

lemma clear_groups_ok:
  assumes "groups_ok c gs" "clear_groups oe n skip c gs = (es, c', gs')"
  shows "c \<le> c' \<and> groups_ok c' gs' \<and> map fst gs' = map fst gs"
  using assms
proof (induction oe n skip c gs arbitrary: es c' gs' rule: clear_groups.induct)
  case (2 oe n skip c g r gs)
  show ?case
  proof (cases "skip (gr_id r)")
    case True
    with "2.prems" obtain gs1 where
      "clear_groups oe n skip c gs = (es, c', gs1)" "gs' = (g, r) # gs1"
      by (auto split: prod.splits)
    with True 2 show ?thesis by (auto intro: group_ok_mono)
  next
    case False
    obtain l c1 ms' where cn: "clear_node oe n c (gr_members r) = (l, c1, ms')"
      by (metis prod_cases3)
    with False "2.prems" obtain es1 gs1 where rec: "clear_groups oe n skip c1 gs = (es1, c', gs1)"
      and gs': "gs' = (g, r\<lparr>gr_members := ms'\<rparr>) # gs1"
      by (auto split: prod.splits)
    have r': "c \<le> c1 \<and> group_ok c1 (r\<lparr>gr_members := ms'\<rparr>)"
      using clear_group_ok cn "2.prems"(1) by auto
    then have "groups_ok c1 gs" using "2.prems"(1) by (auto intro: groups_ok_mono)
    with "2.IH"(2) [OF False cn [symmetric] _ _ _ rec]
    have "c1 \<le> c' \<and> groups_ok c' gs1 \<and> map fst gs1 = map fst gs" by blast
    with r' gs' "2.prems"(1) show ?thesis by (auto intro: group_ok_mono)
  qed
qed auto

lemma recoverEverywhere_ok:
  assumes "world_ok w"
  shows "world_ok (recoverEvictedNodeEverywhere n g w) \<and>
    w_stateRevision w \<le> w_stateRevision (recoverEvictedNodeEverywhere n g w)"
proof -
  obtain es c' gs' where
    *: "clear_groups True n (\<lambda>h. h = g) (w_stateRevision w) (w_groups w) = (es, c', gs')"
    by (metis prod_cases3)
  from clear_groups_ok [OF _ *] assms show ?thesis
    by (auto simp: recoverEvictedNodeEverywhere_def * world_ok_groups)
qed

section \<open>Every operation keeps the invariant\<close>

text \<open>The shape of each preservation fact: well-formed again, and the clock did not go back.\<close>

definition keeps :: "world \<Rightarrow> world \<Rightarrow> bool" where
  "keeps w w' \<longleftrightarrow> world_ok w' \<and> w_stateRevision w \<le> w_stateRevision w'"

named_theorems op_keeps \<open>operations that keep a world well-formed\<close>

lemma keeps_refl: "world_ok w \<Longrightarrow> keeps w w"
  by (simp add: keeps_def)

lemma keeps_trans: "keeps w w' \<Longrightarrow> (world_ok w' \<Longrightarrow> keeps w' w'') \<Longrightarrow> keeps w w''"
  by (auto simp: keeps_def)

lemma keeps_notify [simp]: "keeps w (notifyGroupState e w') = keeps w w'"
  by (simp add: keeps_def world_ok_cong [of "notifyGroupState e w'" w'])

lemma keeps_notify_all [simp]: "keeps w (notify_all es w') = keeps w w'"
  by (simp add: keeps_def world_ok_cong [of "notify_all es w'" w'])

lemma keeps_globalEvicted [simp]: "keeps w (w'\<lparr>w_globalEvicted := x\<rparr>) = keeps w w'"
  by (simp add: keeps_def world_ok_cong [of "w'\<lparr>w_globalEvicted := x\<rparr>" w'])

lemma keeps_put_group:
  "world_ok w \<Longrightarrow> gr_id r = g \<Longrightarrow> group_ok (w_stateRevision w) r \<Longrightarrow> keeps w (put_group g r w)"
  by (simp add: keeps_def world_ok_put_group)

lemma keeps_put_group_stamp:
  "world_ok w \<Longrightarrow> gr_id r = g \<Longrightarrow> group_ok (w_stateRevision w + 1) r \<Longrightarrow>
     keeps w ((put_group g r w)\<lparr>w_stateRevision := w_stateRevision w + 1\<rparr>)"
  by (auto simp: keeps_def intro!: world_ok_put [where r = r and g = g and w = w])

lemma keeps_propagate:
  "keeps w w' \<Longrightarrow> \<not> is_zero_time now \<Longrightarrow> keeps w (propagateEviction n err at now w')"
  using propagateEviction_ok [of w' now n err at] by (auto simp: keeps_def)

lemma keeps_recover: "keeps w w' \<Longrightarrow> keeps w (recoverEvictedNodeEverywhere n g w')"
  using recoverEverywhere_ok [of w' n g] by (auto simp: keeps_def)

lemma MemberAvailable_keeps [op_keeps]:
  assumes "world_ok w"
  shows "keeps w (snd (MemberAvailable g t now w))"
proof (cases "map_of (w_groups w) g")
  case (Some r)
  note r = world_ok_lookup [OF assms Some]
  show ?thesis
  proof (cases "map_of (gr_members r) t")
    case (Some m)
    let ?m = "if gm_evicted m then m else snd (pruneFailures m (gr_window r) now)"
    from r Some have m: "gm_tag m = t" "member_ok (w_stateRevision w) (gr_recovery r) m"
      by (auto dest: group_ok_lookup)
    have "group_ok (w_stateRevision w) (set_member t ?m r)"
      by (rule group_ok_set_member [where m = m])
        (use r Some m in \<open>auto simp: member_usable_def intro: member_ok_prune\<close>)
    with assms r \<open>map_of (w_groups w) g = Some r\<close> Some show ?thesis
      by (simp add: MemberAvailable_def Let_def keeps_put_group)
  qed (use Some assms in \<open>simp add: MemberAvailable_def keeps_refl\<close>)
qed (use assms in \<open>simp add: MemberAvailable_def keeps_refl\<close>)

lemma current_pruned_ok:
  assumes "group_ok c r" "map_of (gr_members r) (gr_currentTag r) = Some m"
  shows "group_ok c (set_member (gr_currentTag r) (snd (pruneFailures m (gr_window r) now)) r)"
  by (rule group_ok_set_member [OF assms])
    (use assms in \<open>auto simp: member_usable_def intro: member_ok_prune dest: group_ok_lookup\<close>)

lemma group_ok_notify_fields [simp]:
  "group_ok c (r\<lparr>gr_currentNotifyPending := b\<rparr>) = group_ok c r"
  "group_ok c (r\<lparr>gr_lastCurrentNotify := at\<rparr>) = group_ok c r"
  "group_ok c (r\<lparr>gr_currentPendingNodeID := n\<rparr>) = group_ok c r"
  by (simp_all add: group_ok_def current_ok_def)

lemma group_ok_deselect: "group_ok c r \<Longrightarrow> group_ok c (r\<lparr>gr_currentTag := ''''\<rparr>)"
  by (simp add: group_ok_def current_ok_def)

lemma group_ok_select:
  "group_ok c r \<Longrightarrow> map_of (gr_members r) t = Some m \<Longrightarrow> member_usable m \<Longrightarrow>
     group_ok c (r\<lparr>gr_currentTag := t\<rparr>)"
  by (simp add: group_ok_def current_ok_def)

lemma CurrentTag_keeps [op_keeps]:
  assumes "world_ok w"
  shows "keeps w (snd (CurrentTag g now w))"
proof (cases "map_of (w_groups w) g")
  case (Some r)
  note r = world_ok_lookup [OF assms Some]
  define okr where "okr = (case map_of (gr_members r) (gr_currentTag r) of
       Some m \<Rightarrow> if member_usable m
         then let m' = snd (pruneFailures m (gr_window r) now)
              in (gm_failureHistory m' = [], set_member (gr_currentTag r) m' r)
         else (False, r)
     | None \<Rightarrow> (False, r))"
  obtain ok r1 where okr1: "okr = (ok, r1)" by fastforce
  have r1: "group_ok (w_stateRevision w) r1 \<and> gr_id r1 = g"
    using r okr1 current_pruned_ok
    by (auto simp: okr_def Let_def split: option.splits if_splits)
  show ?thesis
    using assms r1 unfolding CurrentTag_def
    by (simp add: Some okr_def [symmetric] okr1 Let_def keeps_put_group group_ok_deselect)
qed (use assms in \<open>simp add: CurrentTag_def keeps_refl\<close>)

lemma SetCurrentTag_keeps [op_keeps]:
  assumes "world_ok w"
  shows "keeps w (SetCurrentTag g t now w)"
proof (cases "map_of (w_groups w) g")
  case (Some r)
  note r = world_ok_lookup [OF assms Some]
  let ?refused = "t \<noteq> '''' \<and> (case map_of (gr_members r) t of None \<Rightarrow> True | Some m \<Rightarrow> \<not> member_usable m)"
  show ?thesis
  proof (cases "?refused \<or> gr_currentTag r = t")
    case True
    then have "SetCurrentTag g t now w = w"
      by (auto simp: SetCurrentTag_def Some Let_def)
    with assms show ?thesis by (simp add: keeps_refl)
  next
    case False
    then have "group_ok (w_stateRevision w) (r\<lparr>gr_currentTag := t\<rparr>)"
      using r by (auto intro: group_ok_select group_ok_deselect split: option.splits)
    then have "keeps w (put_group g (r\<lparr>gr_currentTag := t, gr_currentNotifyPending := b,
        gr_currentPendingNodeID := n\<rparr>) w)"
      "keeps w (put_group g (r\<lparr>gr_currentTag := t, gr_lastCurrentNotify := now,
        gr_currentNotifyPending := b\<rparr>) w)" for b n
      using assms r by (simp_all add: keeps_put_group)
    with False show ?thesis
      by (simp add: SetCurrentTag_def Some Let_def keeps_refl [OF assms])
  qed
qed (use assms in \<open>simp add: SetCurrentTag_def keeps_refl\<close>)

lemma member_ok_counted_failure [member_intros]:
  "member_ok c p m \<Longrightarrow> \<not> is_zero_time at \<Longrightarrow> member_ok c p (counted_failure r cause at m)"
  by (auto simp: member_ok_def counted_failure_def Let_def)

lemma counted_failure_frame [simp]:
  "gm_nodeID (counted_failure r cause at m) = gm_nodeID m"
  "gm_tag (counted_failure r cause at m) = gm_tag m"
  "gm_standby (counted_failure r cause at m) = gm_standby m"
  "gm_failureHistory (counted_failure r cause at m) = window_history r at m @ [time_unix at]"
  by (simp_all add: counted_failure_def Let_def)

lemma member_ok_touch: "member_ok c p m \<Longrightarrow> member_ok (c + 1) p (touch c m)"
  by (auto simp: member_ok_def touch_def)

lemma touch_frame [simp]:
  "gm_nodeID (touch c m) = gm_nodeID m" "gm_tag (touch c m) = gm_tag m"
  "gm_evicted (touch c m) = gm_evicted m" "gm_standby (touch c m) = gm_standby m"
  "gm_failureHistory (touch c m) = gm_failureHistory m"
  "gm_evictedAt (touch c m) = gm_evictedAt m" "gm_lastError (touch c m) = gm_lastError m"
  "gm_recoverySuccesses (touch c m) = gm_recoverySuccesses m"
  "gm_appliedProbes (touch c m) = gm_appliedProbes m" "gm_revision (touch c m) = c + 1"
  by (simp_all add: touch_def)

lemma RecordFailure_keeps [op_keeps]:
  assumes "world_ok w" "\<not> is_zero_time at" "\<not> is_zero_time now"
  shows "keeps w (snd (RecordFailure g t cause at now w))"
proof (cases "map_of (w_groups w) g")
  case (Some r)
  note r = world_ok_lookup [OF assms(1) Some] and gr = Some
  show ?thesis
  proof (cases "map_of (gr_members r) t")
    case (Some m)
    let ?c = "w_stateRevision w"
    have m: "gm_tag m = t" "member_ok ?c (gr_recovery r) m" using r Some by (auto dest: group_ok_lookup)
    have same: "keeps w (put_group g (set_member t m' r) w)"
      if "member_ok ?c (gr_recovery r) m'" "gm_tag m' = t" "gm_evicted m' = gm_evicted m"
        "gm_standby m' = gm_standby m" for m'
      by (intro keeps_put_group group_ok_set_member [where m = m])
        (use assms r Some that in \<open>auto simp: member_usable_def\<close>)
    have k1: "keeps w (put_group g (set_member t (m\<lparr>gm_recoverySuccesses := 0\<rparr>) r) w)"
      "keeps w (put_group g (set_member t (m\<lparr>gm_failureHistory := h\<rparr>) r) w)" for h
      by (rule same; use m in \<open>simp add: member_ok_def\<close>)+
    have k2: "keeps w ((put_group g ((set_member t (touch ?c (counted_failure r cause at m)) r)
        \<lparr>gr_currentTag := (if gr_currentTag r = t then '''' else gr_currentTag r)\<rparr>) w)
        \<lparr>w_stateRevision := ?c + 1\<rparr>)"
      by (intro keeps_put_group_stamp group_ok_set_member_deselect [where m = m and c = ?c]
           member_ok_touch member_ok_counted_failure)
        (use assms r Some m in auto)
    show ?thesis
      using k1 k2 assms(3) by (simp add: RecordFailure_def gr Some Let_def keeps_propagate)
  qed (use Some assms in \<open>simp add: RecordFailure_def keeps_refl\<close>)
qed (use assms in \<open>simp add: RecordFailure_def keeps_refl\<close>)

lemma RecordGroupHealthFailure_keeps [op_keeps]:
  assumes "world_ok w" "\<not> is_zero_time at" "\<not> is_zero_time now"
  shows "keeps w (snd (RecordGroupHealthFailure g t pid cause at now w))"
proof (cases "map_of (w_groups w) g")
  case (Some r)
  note r = world_ok_lookup [OF assms(1) Some] and gr = Some
  show ?thesis
  proof (cases "map_of (gr_members r) t")
    case (Some m0)
    obtain dup m where dup: "alreadyAppliedProbe pid m0 = (dup, m)" by fastforce
    then have m: "m = snd (alreadyAppliedProbe pid m0)" by simp
    have "keeps w (put_group g (set_member t m r) w)"
      unfolding m
      by (intro keeps_put_group group_ok_set_member [where m = m0] member_ok_probe)
        (use assms r Some in \<open>auto simp: member_usable_def dest: group_ok_lookup\<close>)
    then have "keeps w (put_group g (set_member t m r) w)"
      "keeps w (snd (RecordFailure g t cause at now (put_group g (set_member t m r) w)))"
      using assms(2,3) RecordFailure_keeps keeps_trans by blast+
    then show ?thesis
      by (simp add: RecordGroupHealthFailure_def gr Some dup Let_def)
  qed (use Some assms in \<open>simp add: RecordGroupHealthFailure_def RecordFailure_keeps\<close>)
qed (use assms in \<open>simp add: RecordGroupHealthFailure_def RecordFailure_keeps\<close>)

lemma RecordHealthSuccess_keeps [op_keeps]:
  assumes "world_ok w"
  shows "keeps w (snd (RecordHealthSuccess g t pid now w))"
proof (cases "map_of (w_groups w) g")
  case (Some r)
  note r = world_ok_lookup [OF assms(1) Some] and gr = Some
  show ?thesis
  proof (cases "map_of (gr_members r) t")
    case (Some m0)
    let ?c = "w_stateRevision w"
    let ?p = "gr_recovery r"
    obtain dup m where dup: "alreadyAppliedProbe pid m0 = (dup, m)" by fastforce
    then have md: "m = snd (alreadyAppliedProbe pid m0)" by simp
    have m0: "gm_tag m0 = t" "member_ok ?c ?p m0" using r Some by (auto dest: group_ok_lookup)
    then have m: "gm_tag m = t" "member_ok ?c ?p m"
      by (simp_all add: md member_ok_probe)
    have same: "keeps w (put_group g (set_member t m' r) w)"
      if "member_ok ?c ?p m'" "gm_tag m' = t" "gm_evicted m' = gm_evicted m0"
        "gm_standby m' = gm_standby m0" for m'
      by (intro keeps_put_group group_ok_set_member [where m = m0])
        (use assms r Some that in \<open>auto simp: member_usable_def\<close>)
    have stamp: "keeps w ((put_group g (set_member t (touch ?c m') r) w)\<lparr>w_stateRevision := ?c + 1\<rparr>)"
      if "member_ok ?c ?p m'" "gm_tag m' = t" "\<not> gm_evicted m'"
        "gm_standby m' = gm_standby m0" for m'
      by (intro keeps_put_group_stamp group_ok_set_member [where m = m0 and c = ?c] member_ok_touch)
        (use assms r Some that in \<open>auto simp: member_usable_def\<close>)
    have k: "keeps w (put_group g (set_member t m r) w)"
      "keeps w (put_group g (set_member t (m\<lparr>gm_recoverySuccesses := 0\<rparr>) r) w)"
      by (rule same; use m in \<open>simp add: member_ok_def md\<close>)+
    have k1: "keeps w (put_group g (set_member t (m\<lparr>gm_recoverySuccesses := gm_recoverySuccesses m + 1\<rparr>) r) w)"
      if "gm_evicted m" "gm_recoverySuccesses m + 1 < rp_SuccessThreshold ?p"
      by (rule same; use m that in \<open>simp add: member_ok_def md\<close>)
    have k2: "keeps w ((put_group g (set_member t (touch ?c (clearMemberEviction
         (m\<lparr>gm_recoverySuccesses := n\<rparr>))) r) w)\<lparr>w_stateRevision := ?c + 1\<rparr>)" for n
      by (rule stamp; use m in \<open>simp add: member_ok_def clearMemberEviction_def md\<close>)
    have k3: "keeps w ((put_group g (set_member t (touch ?c (m\<lparr>gm_failureHistory := [],
         gm_lastError := '''', gm_recoverySuccesses := 0\<rparr>)) r) w)\<lparr>w_stateRevision := ?c + 1\<rparr>)"
      if "\<not> gm_evicted m"
      by (rule stamp; use m that in \<open>simp add: member_ok_def md\<close>)
    show ?thesis
      using k k1 k2 k3
      by (simp add: RecordHealthSuccess_def gr Some dup Let_def keeps_recover)
  qed (use Some assms in \<open>simp add: RecordHealthSuccess_def keeps_refl\<close>)
qed (use assms in \<open>simp add: RecordHealthSuccess_def keeps_refl\<close>)

lemma RestoreGroupMember_keeps [op_keeps]:
  assumes "world_ok w"
  shows "keeps w (snd (RestoreGroupMember g n w))"
proof -
  obtain es c' gs' where
    *: "clear_groups False n (\<lambda>_. False) (w_stateRevision w) (w_groups w) = (es, c', gs')"
    by (metis prod_cases3)
  from clear_groups_ok [OF _ *] assms show ?thesis
    by (auto simp: RestoreGroupMember_def * keeps_def world_ok_groups)
qed

lemma NotifyEvents_keeps [op_keeps]:
  "world_ok w \<Longrightarrow> \<not> is_zero_time now \<Longrightarrow> keeps w (NotifyEvents now es w)"
proof (induction es arbitrary: w)
  case (Cons e es)
  let ?w = "let w1 = notifyGroupState e w in if ev_Evicted e
     then propagateEviction (ev_NodeID e) (ev_LastError e) (ev_EvictedAt e) now w1 else w1"
  have "keeps w ?w"
    using Cons.prems by (auto simp: Let_def intro!: keeps_propagate keeps_refl)
  moreover have "NotifyEvents now (e # es) w = NotifyEvents now es ?w"
    by (simp add: NotifyEvents_def)
  ultimately show ?case
    using Cons.IH Cons.prems(2) keeps_trans by metis
qed (simp add: NotifyEvents_def keeps_refl)

lemma prune_members_ok:
  assumes "\<forall>(t, m) \<in> set ms. gm_tag m = t \<and> member_ok c p m" "prune_members g win now c ms = (es, c', ms')"
  shows "c \<le> c' \<and> (\<forall>(t, m) \<in> set ms'. gm_tag m = t \<and> member_ok c' p m) \<and> map fst ms' = map fst ms"
  using assms
proof (induction g win now c ms arbitrary: es c' ms' rule: prune_members.induct)
  case (2 g win now c t m ms)
  note m = "2.prems"(1)
  obtain pruned m1 where pf: "pruneFailures m win now = (pruned, m1)" by fastforce
  then have m1: "m1 = snd (pruneFailures m win now)" by simp
  show ?case
  proof (cases "gm_evicted m")
    case True
    with "2.prems" obtain ms1 where "prune_members g win now c ms = (es, c', ms1)" "ms' = (t, m) # ms1"
      by (auto split: prod.splits)
    with "2.IH"(1) [OF True _ this(1)] m show ?thesis by (auto intro: member_ok_mono)
  next
    case ev: False
    show ?thesis
    proof (cases pruned)
      case True
      with ev "2.prems" pf obtain es1 ms1 where rec: "prune_members g win now (c + 1) ms = (es1, c', ms1)"
        and ms': "ms' = (t, touch c m1) # ms1"
        by (auto split: prod.splits)
      have "\<forall>(t, m) \<in> set ms. gm_tag m = t \<and> member_ok (c + 1) p m"
        using m by (auto intro: member_ok_mono)
      with "2.IH"(2) [OF ev pf [symmetric] refl True _ rec] have
        "c + 1 \<le> c' \<and> (\<forall>(t, m) \<in> set ms1. gm_tag m = t \<and> member_ok c' p m) \<and> map fst ms1 = map fst ms"
        by blast
      moreover have "member_ok (c + 1) p (touch c m1)"
        using m by (auto simp: m1 intro: member_ok_touch member_ok_prune)
      ultimately show ?thesis using ms' m by (auto simp: m1 intro: member_ok_mono)
    next
      case False
      with ev "2.prems" pf obtain ms1 where rec: "prune_members g win now c ms = (es, c', ms1)"
        and ms': "ms' = (t, m1) # ms1"
        by (auto split: prod.splits)
      from "2.IH"(3) [OF ev pf [symmetric] refl False _ rec] m have
        "c \<le> c' \<and> (\<forall>(t, m) \<in> set ms1. gm_tag m = t \<and> member_ok c' p m) \<and> map fst ms1 = map fst ms"
        by auto
      moreover have "member_ok c p m1"
        using m by (auto simp: m1 intro: member_ok_prune)
      ultimately show ?thesis using ms' m by (auto simp: m1 intro: member_ok_mono)
    qed
  qed
qed auto

lemma prune_members_lookup:
  assumes "prune_members g win now c ms = (es, c', ms')" "map_of ms t = Some m" "member_usable m"
  shows "\<exists>m'. map_of ms' t = Some m' \<and> member_usable m'"
  using assms
proof (induction g win now c ms arbitrary: es c' ms' rule: prune_members.induct)
  case (2 g win now c t1 m1 ms)
  obtain pruned m2 where pf: "pruneFailures m1 win now = (pruned, m2)" by fastforce
  with pruneFailures_pair [OF pf] 2 show ?case
    by (auto split: prod.splits if_splits simp: member_usable_def)
qed auto

lemma snapshot_group_ok:
  assumes "group_ok c r" "snapshotGroupRuntime pr now r c = (s, es, c', r')"
  shows "c \<le> c' \<and> group_ok c' r' \<and> gr_id r' = gr_id r"
proof (cases pr)
  case True
  obtain es1 c1 ms1 where *: "prune_members (gr_id r) (gr_window r) now c (gr_members r) = (es1, c1, ms1)"
    by (metis prod_cases3)
  with assms(2) True have eq: "c' = c1" "r' = r\<lparr>gr_members := ms1\<rparr>"
    by (auto simp: snapshotGroupRuntime_def Let_def)
  have "c \<le> c1 \<and> (\<forall>(t, m) \<in> set ms1. gm_tag m = t \<and> member_ok c1 (gr_recovery r) m)
      \<and> map fst ms1 = map fst (gr_members r)"
    by (rule prune_members_ok [OF _ *]) (use assms(1) in \<open>auto simp: group_ok_def members_ok_def\<close>)
  moreover have "current_ok (r\<lparr>gr_members := ms1\<rparr>)"
    using assms(1) prune_members_lookup [OF *] by (fastforce simp: group_ok_def current_ok_def)
  ultimately show ?thesis using assms(1) eq by (auto simp: group_ok_def members_ok_def)
next
  case False
  with assms show ?thesis by (auto simp: snapshotGroupRuntime_def Let_def)
qed

lemma snapshot_groups_ok:
  assumes "groups_ok c gs" "snapshot_groups pr now c gs = (ss, es, c', gs')"
  shows "c \<le> c' \<and> groups_ok c' gs' \<and> map fst gs' = map fst gs"
  using assms
proof (induction pr now c gs arbitrary: ss es c' gs' rule: snapshot_groups.induct)
  case (2 pr now c g r gs)
  obtain s es1 c1 r1 where one: "snapshotGroupRuntime pr now r c = (s, es1, c1, r1)"
    by (metis prod_cases4)
  obtain ss2 es2 c2 gs2 where rec: "snapshot_groups pr now c1 gs = (ss2, es2, c2, gs2)"
    by (metis prod_cases4)
  have r1: "c \<le> c1 \<and> group_ok c1 r1 \<and> gr_id r1 = gr_id r"
    using snapshot_group_ok one "2.prems"(1) by auto
  then have "groups_ok c1 gs" using "2.prems"(1) by (auto intro: groups_ok_mono)
  with "2.IH" [OF one [symmetric] refl refl refl _ rec] have
    "c1 \<le> c2 \<and> groups_ok c2 gs2 \<and> map fst gs2 = map fst gs" by blast
  with r1 "2.prems" one rec show ?case by (auto intro: group_ok_mono)
qed auto

lemma GroupRuntimeSnapshots_keeps [op_keeps]:
  assumes "world_ok w"
  shows "keeps w (snd (GroupRuntimeSnapshots now w))"
proof -
  obtain ss es c' gs' where
    *: "snapshot_groups True now (w_stateRevision w) (w_groups w) = (ss, es, c', gs')"
    by (metis prod_cases4)
  from snapshot_groups_ok [OF _ *] assms show ?thesis
    by (auto simp: GroupRuntimeSnapshots_def * keeps_def world_ok_groups)
qed

lemma simple_ops_keep [op_keeps]:
  assumes "world_ok w"
  shows "keeps w (Unregister g s w)" "keeps w (SetGroupStateObserver b w)"
    "keeps w (snd (SubscribeStateChanges w))" "keeps w (UnsubscribeStateChanges n w)" "keeps w (Reset w)"
  using assms
  by (auto simp: keeps_def world_ok_def Unregister_def SetGroupStateObserver_def Let_def
      SubscribeStateChanges_def UnsubscribeStateChanges_def Reset_def split: option.splits)

lemma register_member_ok:
  assumes "register_member now (t, i) (marks, c) = (tm, marks', c')" "\<not> is_zero_time now" "0 \<le> c"
  shows "c \<le> c' \<and> fst tm = t \<and> gm_tag (snd tm) = t \<and> member_ok c' p (snd tm)"
  using assms
  by (auto simp: register_member_def Let_def advanceStateRevision_def member_ok_def
      groupProbeRing_def split: if_splits)

lemma register_members_ok:
  assumes "register_members now tis (marks, c) = (ms, marks', c')" "\<not> is_zero_time now" "0 \<le> c"
  shows "c \<le> c' \<and> map fst ms = map fst tis \<and> (\<forall>(t, m) \<in> set ms. gm_tag m = t \<and> member_ok c' p m)"
  using assms
proof (induction tis arbitrary: marks c ms)
  case (Cons ti tis)
  obtain t i where ti: "ti = (t, i)" by fastforce
  obtain tm marks1 c1 where one: "register_member now (t, i) (marks, c) = (tm, marks1, c1)"
    by (metis prod_cases3)
  obtain ms1 where rest: "register_members now tis (marks1, c1) = (ms1, marks', c')"
    and ms: "ms = tm # ms1"
    using Cons.prems one by (auto simp: ti split: prod.splits)
  have tm: "c \<le> c1 \<and> fst tm = t \<and> gm_tag (snd tm) = t \<and> member_ok c1 p (snd tm)"
    by (rule register_member_ok [OF one Cons.prems(2,3)])
  with Cons.IH [OF rest Cons.prems(2)] Cons.prems(3)
  have "c1 \<le> c' \<and> map fst ms1 = map fst tis \<and> (\<forall>(t, m) \<in> set ms1. gm_tag m = t \<and> member_ok c' p m)"
    by auto
  with tm show ?case by (cases tm) (auto simp: ms ti intro: member_ok_mono)
qed auto

lemma NormalizeRecoveryPolicy_pos [simp]: "0 < rp_SuccessThreshold (NormalizeRecoveryPolicy p)"
  by (simp add: NormalizeRecoveryPolicy_def)

lemma effective_pos [simp]: "0 < effective_window d" "0 < effective_threshold n"
  by (auto simp: effective_window_def effective_threshold_def minute_def)

lemma keeps_fold:
  assumes "\<And>x w. world_ok w \<Longrightarrow> keeps w (f x w)" "keeps w0 w"
  shows "keeps w0 (fold f xs w)"
  using assms(2)
proof (induction xs arbitrary: w)
  case (Cons x xs)
  have "keeps w0 (f x w)" using Cons.prems assms(1) keeps_trans by blast
  with Cons.IH show ?case by simp
qed simp

lemma Register_keeps [op_keeps]:
  assumes "world_ok w" "\<not> is_zero_time now" "distinct (map fst tis)"
  shows "keeps w (snd (Register g win thr t tis rp now w))"
proof (cases "g = 0")
  case False
  let ?c = "w_stateRevision w"
  obtain ms marks' c' where rm: "register_members now tis (w_globalEvicted w, ?c) = (ms, marks', c')"
    by (metis prod_cases3)
  define p where "p = (case rp of None \<Rightarrow> DefaultRecoveryPolicy | Some p \<Rightarrow> NormalizeRecoveryPolicy p)"
  define tag where "tag = (case map_of ms t of Some m \<Rightarrow> if member_clean m then t else '''' | None \<Rightarrow> '''')"
  define r where "r = \<lparr>gr_serial = w_nextSerial w, gr_id = g, gr_window = effective_window win,
     gr_threshold = effective_threshold thr, gr_recovery = p, gr_currentTag = tag, gr_members = ms,
     gr_lastCurrentNotify = zero_time, gr_currentNotifyPending = False, gr_currentPendingNodeID = 0\<rparr>"
  define w1 where "w1 = w\<lparr>w_groups := aput g r (w_groups w), w_globalEvicted := marks',
     w_stateRevision := c', w_nextSerial := Suc (w_nextSerial w)\<rparr>"
  have ms: "?c \<le> c' \<and> map fst ms = map fst tis \<and> (\<forall>(t, m) \<in> set ms. gm_tag m = t \<and> member_ok c' p m)"
    by (rule register_members_ok [OF rm]) (use assms in \<open>auto simp: world_ok_def\<close>)
  have "0 < rp_SuccessThreshold p"
    by (simp add: p_def DefaultRecoveryPolicy_def split: option.splits)
  then have "group_ok c' r"
    using ms assms(3)
    by (auto simp: group_ok_def members_ok_def r_def current_ok_def tag_def member_clean_def
        split: option.splits)
  then have w1: "keeps w w1"
    using assms(1) ms
    by (auto simp: keeps_def w1_def intro!: world_ok_put [where w = w and r = r and g = g])
      (simp_all add: r_def)
  let ?f = "\<lambda>(t, _) w. case map_of (gr_members (the_group g w)) t of None \<Rightarrow> w
     | Some m \<Rightarrow> if gm_evicted m
         then propagateEviction (gm_nodeID m) (gm_lastError m) (gm_evictedAt m) now w else w"
  have step: "keeps w0 (?f x w0)" if "world_ok w0" for x w0
    using that assms(2) by (cases x) (auto split: option.splits intro!: keeps_propagate keeps_refl)
  have eq: "snd (Register g win thr t tis rp now w) =
      fold ?f ms (case map_of ms tag of Some m \<Rightarrow> notifyGroupState (current_event g (gm_nodeID m)) w1
         | None \<Rightarrow> if t \<noteq> '''' then notifyGroupState (current_event g 0) w1 else w1)"
    using False unfolding w1_def r_def tag_def p_def by (simp add: Register_def rm Let_def)
  have k: "keeps w (case map_of ms tag of Some m \<Rightarrow> notifyGroupState (current_event g (gm_nodeID m)) w1
         | None \<Rightarrow> if t \<noteq> '''' then notifyGroupState (current_event g 0) w1 else w1)"
    using w1 by (simp split: option.splits)
  show ?thesis unfolding eq by (rule keeps_fold [OF step k])
qed (use assms in \<open>simp add: Register_def keeps_refl\<close>)

lemma settle_member_ok:
  assumes "settle_member thr stale now m = (b, m')" "\<not> is_zero_time now"
  shows "gm_tag m' = gm_tag m" "gm_nodeID m' = gm_nodeID m" "gm_revision m' = gm_revision m"
    "gm_appliedProbes m' = gm_appliedProbes m" "gm_standby m' = gm_standby m"
    "gm_recoverySuccesses m' = gm_recoverySuccesses m \<or> gm_recoverySuccesses m' = 0"
    "gm_evicted m' \<Longrightarrow> \<not> is_zero_time (gm_evictedAt m')"
    "gm_evicted m \<Longrightarrow> gm_evicted m'" "stale \<Longrightarrow> gm_evicted m' \<Longrightarrow> gm_recoverySuccesses m' \<le> 0"
  using assms by (auto simp: settle_member_def Let_def split: if_splits)

text \<open>One reconciled member: it is stamped at most once and obeys the policy now in force.\<close>

lemma reconcile_member_ok:
  assumes "reconcile_member g win thr pc now olds (t, i) (marks, c, es) = (tm, marks', c', es')"
    and "\<And>o'. old_by_node olds (gi_NodeID i) = Some o' \<Longrightarrow> member_ok c p o'"
    and "\<not> is_zero_time now" "0 \<le> c" "\<not> pc \<Longrightarrow> p' = p"
  shows "c \<le> c' \<and> fst tm = t \<and> gm_tag (snd tm) = t \<and> member_ok c' p' (snd tm)"
proof -
  define old where "old = old_by_node olds (gi_NodeID i)"
  define m0 where "m0 = carried_member t i old"
  define c0 where "c0 = (if old = None \<and> gi_Revision i > 0 then advanceStateRevision (gi_Revision i) c else c)"
  define m1 where "m1 = (if gm_nodeID m0 \<in> marks then m0\<lparr>gm_evicted := True\<rparr> else m0)"
  obtain pruned m2 where m2: "pruneFailures m1 win now = (pruned, m2)" by fastforce
  have c0: "c \<le> c0" by (simp add: c0_def advanceStateRevision_def)
  have m0: "gm_tag m0 = t" "gm_revision m0 \<le> c0" "0 \<le> gm_recoverySuccesses m0"
    "gm_appliedProbes m0 = []" "\<not> gm_evicted m0 \<Longrightarrow> gm_recoverySuccesses m0 = 0"
    "gm_recoverySuccesses m0 = 0 \<or> gm_recoverySuccesses m0 < rp_SuccessThreshold p"
    using assms(2,4) c0
    by (auto simp: m0_def carried_member_def old_def [symmetric] c0_def advanceStateRevision_def
        member_ok_def split: option.splits)
  have m2': "gm_tag m2 = t" "gm_revision m2 \<le> c0" "0 \<le> gm_recoverySuccesses m2"
    "gm_appliedProbes m2 = []" "\<not> gm_evicted m2 \<Longrightarrow> gm_recoverySuccesses m2 = 0"
    "gm_recoverySuccesses m2 = 0 \<or> gm_recoverySuccesses m2 < rp_SuccessThreshold p"
    using m0 pruneFailures_pair [OF m2] by (auto simp: m1_def split: if_splits)
  define stale where "stale = (pc \<or> (case old of None \<Rightarrow> False | Some o' \<Rightarrow> gm_tag o' \<noteq> t))"
  obtain newly m5 where m5: "settle_member thr stale now m2 = (newly, m5)" by fastforce
  note s = settle_member_ok [OF m5 assms(3)]
  have ok: "member_ok c0 p' m5"
  proof (cases "gm_evicted m5")
    case True
    then show ?thesis
      using s m2' assms(5) by (cases pc) (auto simp: member_ok_def stale_def groupProbeRing_def)
  next
    case False
    then have "\<not> gm_evicted m2" using s(8) by blast
    then have "gm_recoverySuccesses m5 = 0" using s(6) m2'(5) by auto
    with False show ?thesis using s m2' by (auto simp: member_ok_def groupProbeRing_def)
  qed
  have eq: "reconcile_member g win thr pc now olds (t, i) (marks, c, es) =
    (let marks' = (if newly then insert (gm_nodeID m5) marks else marks)
     in if pruned \<or> newly then ((t, touch c0 m5), (marks', c0 + 1, es @ [state_event g m5 False (c0 + 1)]))
        else ((t, m5), (marks', c0, es)))"
    unfolding reconcile_member_def Let_def prod.case old_def [symmetric] m0_def [symmetric]
      c0_def [symmetric] m1_def [symmetric] m2 stale_def [symmetric] m5
    by (rule refl)
  show ?thesis
    using assms(1) c0 ok member_ok_touch [OF ok] s(1) m2'(1)
    by (auto simp: eq Let_def split: if_splits)
qed

lemma old_by_node_in: "old_by_node ms n = Some m \<Longrightarrow> \<exists>t. (t, m) \<in> set ms \<and> gm_nodeID m = n"
  by (force simp: old_by_node_def dest!: map_of_SomeD)

lemma reconcile_members_ok:
  assumes "reconcile_members g win thr pc now olds tis (marks, c, es) = (ms, marks', c', es')"
    and "\<forall>(t, m) \<in> set olds. member_ok c p m"
    and "\<not> is_zero_time now" "0 \<le> c" "\<not> pc \<Longrightarrow> p' = p"
  shows "c \<le> c' \<and> map fst ms = map fst tis \<and> (\<forall>(t, m) \<in> set ms. gm_tag m = t \<and> member_ok c' p' m)"
  using assms
proof (induction tis arbitrary: marks c es ms)
  case (Cons ti tis)
  obtain t i where ti: "ti = (t, i)" by fastforce
  obtain tm marks1 c1 es1 where
    one: "reconcile_member g win thr pc now olds (t, i) (marks, c, es) = (tm, marks1, c1, es1)"
    by (metis prod_cases4)
  obtain ms1 where
    rest: "reconcile_members g win thr pc now olds tis (marks1, c1, es1) = (ms1, marks', c', es')"
    and ms: "ms = tm # ms1"
    using Cons.prems one by (auto simp: ti split: prod.splits)
  have tm: "c \<le> c1 \<and> fst tm = t \<and> gm_tag (snd tm) = t \<and> member_ok c1 p' (snd tm)"
    by (rule reconcile_member_ok [OF one, where p = p])
      (use Cons.prems in \<open>auto dest: old_by_node_in\<close>)
  then have "\<forall>(t, m) \<in> set olds. member_ok c1 p m" "0 \<le> c1"
    using Cons.prems by (auto intro: member_ok_mono)
  with Cons.IH [OF rest] Cons.prems have
    "c1 \<le> c' \<and> map fst ms1 = map fst tis \<and> (\<forall>(t, m) \<in> set ms1. gm_tag m = t \<and> member_ok c' p' m)"
    by blast
  with tm show ?case by (cases tm) (auto simp: ms ti intro: member_ok_mono)
qed auto

lemma preferred_tag_ok:
  assumes "distinct (map fst ms)"
  shows "preferred_tag n ms = '''' \<or>
    (\<exists>m. map_of ms (preferred_tag n ms) = Some m \<and> member_usable m)"
proof (cases "find (\<lambda>(_, m). gm_nodeID m = n \<and> member_clean m) ms")
  case (Some tm)
  from find_SomeD [OF this] have "tm \<in> set ms" "member_clean (snd tm)"
    by (auto split: prod.splits)
  with assms Some show ?thesis
    by (cases tm) (auto simp: preferred_tag_def member_clean_def map_of_eq_Some_iff)
qed (simp add: preferred_tag_def)

lemma pruneGlobalEvictions_frame [simp]:
  "w_groups (pruneGlobalEvictions ns w) = w_groups w"
  "w_stateRevision (pruneGlobalEvictions ns w) = w_stateRevision w"
  by (simp_all add: pruneGlobalEvictions_def)

lemma ReconcileSilent_keeps [op_keeps]:
  assumes "world_ok w" "\<not> is_zero_time now" "distinct (map fst (ru_Members u))"
  shows "keeps w (snd (ReconcileSilent g u now w))"
proof (cases "map_of (w_groups w) g")
  case (Some r)
  note r = world_ok_lookup [OF assms(1) Some]
  let ?c = "w_stateRevision w"
  let ?new = "NormalizeRecoveryPolicy (ru_Recovery u)"
  let ?prov = "recoveryPolicyProvided (ru_Recovery u)"
  let ?pc = "?prov \<and> ?new \<noteq> gr_recovery r"
  let ?p = "if ?prov then ?new else gr_recovery r"
  let ?win = "effective_window (ru_FailureWindow u)"
  let ?thr = "effective_threshold (ru_FailureThreshold u)"
  obtain ms marks' c' es where
    rm: "reconcile_members g ?win ?thr ?pc now (gr_members r) (ru_Members u)
           (w_globalEvicted w, ?c, []) = (ms, marks', c', es)"
    by (metis prod_cases4)
  have ms: "?c \<le> c' \<and> map fst ms = map fst (ru_Members u) \<and>
      (\<forall>(t, m) \<in> set ms. gm_tag m = t \<and> member_ok c' ?p m)"
    by (rule reconcile_members_ok [OF rm, where p = "gr_recovery r"])
      (use assms r in \<open>auto simp: world_ok_def group_ok_def members_ok_def\<close>)
  have ok: "group_ok c' (r\<lparr>gr_window := ?win, gr_threshold := ?thr, gr_members := ms,
      gr_recovery := ?p, gr_currentTag := preferred_tag n ms\<rparr>)" for n
    using ms assms(3) r preferred_tag_ok [of ms n]
    by (auto simp: group_ok_def members_ok_def current_ok_def)
  show ?thesis
    unfolding keeps_def
    by (rule conjI, rule world_ok_put [OF assms(1) _ ok])
      (use ms r in \<open>simp_all add: ReconcileSilent_def Some Let_def rm\<close>)
qed (use assms in \<open>simp add: ReconcileSilent_def keeps_refl\<close>)

section \<open>Reachable worlds\<close>

lemma run_op_keeps:
  assumes "world_ok w" "\<not> is_zero_time now" "op_ok op"
  shows "keeps w (run_op op now w)"
  using assms by (cases op) (simp_all add: op_keeps)

interpretation group_machine: inductive_invariant initial_world group_step world_ok
proof
  show "world_ok initial_world"
    by (simp add: world_ok_def initial_world_def)
  show "world_ok t" if "world_ok s" "group_step s t" for s t
    using that run_op_keeps by (auto simp: group_step_def keeps_def)
qed

text \<open>The clock contract is stated over steps between well-formed worlds.\<close>

definition ok_step :: "world \<Rightarrow> world \<Rightarrow> bool" where
  "ok_step w w' \<longleftrightarrow> world_ok w \<and> group_step w w'"

interpretation group_clock: monotone_clock ok_step w_stateRevision
proof
  show "w_stateRevision s \<le> w_stateRevision t" if "ok_step s t" for s t
    using that run_op_keeps by (auto simp: ok_step_def group_step_def keeps_def)
qed

end
