(* ===== verification/Group_Properties.thy ===== *)
theory Group_Properties
  imports Group_Invariant
begin

text \<open>
  What the group runtime promises its callers: the selected member is usable, an eviction
  reaches every group that holds the node, recovery needs exactly the configured streak of
  fresh probes, a replayed probe changes nothing, a manual restore clears every group, and
  every durable change outranks what it replaces.
\<close>

section \<open>Reading a member of a world\<close>

definition member_at :: "group_id \<Rightarrow> string \<Rightarrow> world \<Rightarrow> groupMemberRuntime option" where
  "member_at g t w =
     (case map_of (w_groups w) g of None \<Rightarrow> None | Some r \<Rightarrow> map_of (gr_members r) t)"

lemma member_at_notify [simp]:
  "member_at g t (notifyGroupState e w) = member_at g t w"
  "member_at g t (notify_all es w) = member_at g t w"
  by (simp_all add: member_at_def)

lemma member_at_update [simp]:
  "member_at g t (w\<lparr>w_globalEvicted := x\<rparr>) = member_at g t w"
  "member_at g t (w\<lparr>w_stateRevision := c\<rparr>) = member_at g t w"
  by (simp_all add: member_at_def)

lemma member_at_put:
  "map_of (gr_members r) t = Some m0 \<Longrightarrow>
     member_at g t (put_group g (set_member t m r) w) = Some m"
  by (simp add: member_at_def)

lemma group_lookup_notify [simp]:
  "map_of (w_groups (notifyGroupState e w)) = map_of (w_groups w)"
  by simp

section \<open>Selection\<close>

text \<open>C1: in every reachable state of the process, a group that has a current member has one
  that exists, is not on standby and is not evicted.\<close>

theorem selected_member_usable:
  assumes "reaches group_step initial_world w" "map_of (w_groups w) g = Some r"
    and "gr_currentTag r \<noteq> ''''"
  shows "\<exists>m. map_of (gr_members r) (gr_currentTag r) = Some m \<and> \<not> gm_standby m \<and> \<not> gm_evicted m"
proof -
  have "world_ok w" by (rule group_machine.reachable_inv [OF assms(1)])
  with assms(2) have "group_ok (w_stateRevision w) r" by (auto dest: world_ok_lookup)
  with assms(3) show ?thesis by (auto simp: group_ok_def current_ok_def member_usable_def)
qed

section \<open>Replayed probes\<close>

lemma aput_same: "map_of xs k = Some v \<Longrightarrow> aput k v xs = xs"
  by (induction k v xs rule: aput.induct) (auto split: if_splits)

lemma amap_at_same:
  assumes "distinct (map fst xs)" "map_of xs k = Some v"
  shows "amap_at k (\<lambda>_. v) xs = xs"
proof -
  have "(k, v') \<in> set xs \<Longrightarrow> v' = v" for v'
    using assms by (metis map_of_eq_Some_iff option.inject)
  then show ?thesis unfolding amap_at_def by (intro map_idI) auto
qed

lemma put_same_member:
  assumes "world_ok w" "map_of (w_groups w) g = Some r" "map_of (gr_members r) t = Some m"
  shows "put_group g (set_member t m r) w = w"
proof -
  have "set_member t m r = r"
    using assms amap_at_same [of "gr_members r" t m]
    by (auto simp: set_member_def group_ok_def members_ok_def dest: world_ok_lookup)
  with assms(2) show ?thesis by (simp add: put_group_def aput_same)
qed

definition probe_applied :: "string \<Rightarrow> group_id \<Rightarrow> string \<Rightarrow> world \<Rightarrow> bool" where
  "probe_applied p g t w \<longleftrightarrow> p \<noteq> '''' \<and> (\<exists>m. member_at g t w = Some m \<and> p \<in> set (gm_appliedProbes m))"

text \<open>C2: a health measurement whose probe identity is still in the member's ring changes
  nothing, whether it is delivered again as a success or as a failure: the whole process
  state is the same afterwards, and the call reports the member's current verdict.\<close>

theorem replayed_probe_is_noop:
  assumes "world_ok w" "member_at g t w = Some m" "p \<noteq> ''''" "p \<in> set (gm_appliedProbes m)"
  shows "RecordHealthSuccess g t p now w = (\<not> gm_evicted m, w) \<and>
         RecordGroupHealthFailure g t p cause at now w = (gm_evicted m, w)"
proof -
  from assms(2) obtain r where r: "map_of (w_groups w) g = Some r" "map_of (gr_members r) t = Some m"
    by (auto simp: member_at_def split: option.splits)
  have "alreadyAppliedProbe p m = (True, m)" using assms(3,4) by (simp add: alreadyAppliedProbe_def)
  with r put_same_member [OF assms(1) r] show ?thesis
    by (simp add: RecordHealthSuccess_def RecordGroupHealthFailure_def Let_def)
qed

section \<open>Automatic recovery\<close>

fun run_successes :: "group_id \<Rightarrow> string \<Rightarrow> gtime \<Rightarrow> string list \<Rightarrow> world \<Rightarrow> world" where
  "run_successes g t now [] w = w"
| "run_successes g t now (p # ps) w = run_successes g t now ps (snd (RecordHealthSuccess g t p now w))"

text \<open>A member that may count recovery successes at instant \<open>now\<close>.\<close>

definition recovering :: "group_id \<Rightarrow> string \<Rightarrow> gtime \<Rightarrow> int \<Rightarrow> int \<Rightarrow> string list \<Rightarrow> world \<Rightarrow> bool" where
  "recovering g t now need got seen w \<longleftrightarrow> (\<exists>r m. map_of (w_groups w) g = Some r \<and>
     map_of (gr_members r) t = Some m \<and> gm_evicted m \<and> rp_Enabled (gr_recovery r) \<and>
     rp_SuccessThreshold (gr_recovery r) = need \<and> gm_recoverySuccesses m = got \<and>
     rp_Cooldown (gr_recovery r) \<le> time_sub now (gm_evictedAt m) \<and>
     set (gm_appliedProbes m) \<subseteq> set seen)"

lemma set_tl_subset: "set (tl xs) \<subseteq> set xs"
  by (cases xs) auto

text \<open>A probe that is not in the ring only adds itself to it.\<close>

lemma fresh_probe:
  assumes "p \<notin> set (gm_appliedProbes m)"
  obtains ring where "alreadyAppliedProbe p m = (False, m\<lparr>gm_appliedProbes := ring\<rparr>)"
    "set ring \<subseteq> insert p (set (gm_appliedProbes m))"
    "distinct (gm_appliedProbes m) \<longrightarrow> distinct ring"
    "length (gm_appliedProbes m) \<le> groupProbeRing \<longrightarrow> length ring \<le> groupProbeRing"
proof (cases "p = ''''")
  case True
  then show ?thesis
    using that [of "gm_appliedProbes m"] by (auto simp: alreadyAppliedProbe_def)
next
  case False
  let ?ring = "(if length (gm_appliedProbes m) \<ge> groupProbeRing then tl (gm_appliedProbes m)
              else gm_appliedProbes m) @ [p]"
  show ?thesis
    by (rule that [of ?ring])
      (use assms False set_tl_subset [of "gm_appliedProbes m"] in
        \<open>auto simp: alreadyAppliedProbe_def distinct_tl groupProbeRing_def\<close>)
qed

lemma success_on_evicted:
  assumes "map_of (w_groups w) g = Some r" "map_of (gr_members r) t = Some m"
    and "alreadyAppliedProbe p m = (False, m1)" "gm_evicted m1" "rp_Enabled (gr_recovery r)"
    and "\<not> time_sub now (gm_evictedAt m1) < rp_Cooldown (gr_recovery r)"
  shows "RecordHealthSuccess g t p now w =
    (let rv = w_stateRevision w; m2 = m1\<lparr>gm_recoverySuccesses := gm_recoverySuccesses m1 + 1\<rparr>
     in if gm_recoverySuccesses m1 + 1 < rp_SuccessThreshold (gr_recovery r)
        then (False, put_group g (set_member t m2 r) w)
        else (True, recoverEvictedNodeEverywhere (gm_nodeID m1) g
               (notifyGroupState (recovered_event g (gm_nodeID m1) (rv + 1))
                 ((put_group g (set_member t (touch rv (clearMemberEviction m2)) r) w)\<lparr>
                    w_stateRevision := rv + 1,
                    w_globalEvicted := w_globalEvicted w - {gm_nodeID m1}\<rparr>))))"
  unfolding RecordHealthSuccess_def assms(1) option.case assms(2,3) Let_def prod.case
  using assms(4-6) by simp

lemma success_counts:
  assumes "recovering g t now need k seen w" "p \<notin> set seen" "k + 1 < need"
  shows "recovering g t now need (k + 1) (p # seen) (snd (RecordHealthSuccess g t p now w))"
proof -
  from assms(1) obtain r m where r: "map_of (w_groups w) g = Some r" "map_of (gr_members r) t = Some m"
    and m: "gm_evicted m" "rp_Enabled (gr_recovery r)" "rp_SuccessThreshold (gr_recovery r) = need"
      "gm_recoverySuccesses m = k" "rp_Cooldown (gr_recovery r) \<le> time_sub now (gm_evictedAt m)"
      "set (gm_appliedProbes m) \<subseteq> set seen"
    by (auto simp: recovering_def)
  have "p \<notin> set (gm_appliedProbes m)" using m(6) assms(2) by auto
  then obtain ring where ap: "alreadyAppliedProbe p m = (False, m\<lparr>gm_appliedProbes := ring\<rparr>)"
    and ring: "set ring \<subseteq> insert p (set (gm_appliedProbes m))"
    by (rule fresh_probe)
  have "snd (RecordHealthSuccess g t p now w) = put_group g
      (set_member t (m\<lparr>gm_appliedProbes := ring, gm_recoverySuccesses := k + 1\<rparr>) r) w"
    by (subst success_on_evicted [OF r ap]) (use m assms(3) in \<open>simp_all add: Let_def\<close>)
  with r m ring show ?thesis
    by (auto simp: recovering_def)
qed

lemma clear_groups_skip:
  assumes "groups_ok c0 gs" "clear_groups oe n skip c gs = (es, c', gs')" "skip g"
  shows "map_of gs' g = map_of gs g"
  using assms
proof (induction oe n skip c gs arbitrary: es c' gs' rule: clear_groups.induct)
  case (2 oe n skip c h r gs)
  then show ?case by (auto split: prod.splits if_splits)
qed auto

lemma recoverEverywhere_origin:
  assumes "world_ok w"
  shows "member_at g t (recoverEvictedNodeEverywhere n g w) = member_at g t w"
proof -
  obtain es c' gs' where
    *: "clear_groups True n (\<lambda>h. h = g) (w_stateRevision w) (w_groups w) = (es, c', gs')"
    by (metis prod_cases3)
  have "map_of gs' g = map_of (w_groups w) g"
    using clear_groups_skip [OF _ * refl] assms by (auto simp: world_ok_groups)
  then show ?thesis by (simp add: recoverEvictedNodeEverywhere_def * member_at_def)
qed

lemma last_success_recovers:
  assumes "world_ok w" "recovering g t now need k seen w" "p \<notin> set seen" "need \<le> k + 1"
  shows "\<exists>m. member_at g t (snd (RecordHealthSuccess g t p now w)) = Some m \<and> \<not> gm_evicted m \<and>
     gm_failureHistory m = [] \<and> gm_recoverySuccesses m = 0"
proof -
  from assms(2) obtain r m where r: "map_of (w_groups w) g = Some r" "map_of (gr_members r) t = Some m"
    and m: "gm_evicted m" "rp_Enabled (gr_recovery r)" "rp_SuccessThreshold (gr_recovery r) = need"
      "gm_recoverySuccesses m = k" "rp_Cooldown (gr_recovery r) \<le> time_sub now (gm_evictedAt m)"
      "set (gm_appliedProbes m) \<subseteq> set seen"
    by (auto simp: recovering_def)
  have "p \<notin> set (gm_appliedProbes m)" using m(6) assms(3) by auto
  then obtain ring where ap: "alreadyAppliedProbe p m = (False, m\<lparr>gm_appliedProbes := ring\<rparr>)"
    and ring: "distinct (gm_appliedProbes m) \<longrightarrow> distinct ring"
      "length (gm_appliedProbes m) \<le> groupProbeRing \<longrightarrow> length ring \<le> groupProbeRing"
    by (rule fresh_probe)
  let ?m1 = "m\<lparr>gm_appliedProbes := ring, gm_recoverySuccesses := k + 1\<rparr>"
  let ?c = "w_stateRevision w"
  let ?m' = "touch ?c (clearMemberEviction ?m1)"
  let ?w = "(put_group g (set_member t ?m' r) w)\<lparr>w_stateRevision := ?c + 1,
      w_globalEvicted := w_globalEvicted w - {gm_nodeID m}\<rparr>"
  have run: "snd (RecordHealthSuccess g t p now w) = recoverEvictedNodeEverywhere (gm_nodeID m) g
      (notifyGroupState (recovered_event g (gm_nodeID m) (?c + 1)) ?w)"
    by (subst success_on_evicted [OF r ap]) (use m assms(4) in \<open>simp_all add: Let_def\<close>)
  note gr = world_ok_lookup [OF assms(1) r(1)]
  have mem: "gm_tag m = t" "member_ok ?c (gr_recovery r) m" using gr r(2) by (auto dest: group_ok_lookup)
  have clr: "member_ok ?c (gr_recovery r) (clearMemberEviction ?m1)"
    using mem(2) ring by (auto simp: member_ok_def clearMemberEviction_def)
  have "keeps w ((put_group g (set_member t ?m' r) w)\<lparr>w_stateRevision := ?c + 1\<rparr>)"
    by (intro keeps_put_group_stamp group_ok_set_member [where m = m and c = ?c] member_ok_touch clr)
      (use assms(1) gr r mem in \<open>auto simp: member_usable_def clearMemberEviction_def\<close>)
  then have "world_ok ?w" by (auto simp: keeps_def world_ok_def)
  then have "world_ok (notifyGroupState (recovered_event g (gm_nodeID m) (?c + 1)) ?w)"
    by (simp add: world_ok_cong [of "notifyGroupState e ?w" ?w for e])
  then have "member_at g t (snd (RecordHealthSuccess g t p now w)) = Some ?m'"
    unfolding run by (subst recoverEverywhere_origin) (simp_all add: member_at_def r)
  then show ?thesis by (simp add: clearMemberEviction_def)
qed

text \<open>C3: an evicted member whose cooldown has passed is re-admitted after exactly as many
  successful probes as its policy still asks for: after any shorter run of fresh probes it is
  still evicted, after the full run it is alive with an empty failure history. No operator
  action is needed, and no probe may be counted twice.\<close>

theorem recovery_streak:
  assumes "world_ok w" "recovering g t now need k seen w" "0 \<le> k"
    and "distinct ps" "set ps \<inter> set seen = {}" "'''' \<notin> set ps" "int (length ps) = need - k" "ps \<noteq> []"
  shows "(\<forall>j < length ps. \<exists>m. member_at g t (run_successes g t now (take j ps) w) = Some m \<and> gm_evicted m) \<and>
     (\<exists>m. member_at g t (run_successes g t now ps w) = Some m \<and> \<not> gm_evicted m \<and>
        gm_failureHistory m = [] \<and> gm_recoverySuccesses m = 0)"
  using assms
proof (induction ps arbitrary: w k seen)
  case (Cons p ps)
  from Cons.prems(2) have start: "\<exists>m. member_at g t w = Some m \<and> gm_evicted m"
    by (auto simp: recovering_def member_at_def)
  show ?case
  proof (cases ps)
    case Nil
    with Cons.prems have "need \<le> k + 1" "p \<notin> set seen" by auto
    with last_success_recovers [OF Cons.prems(1,2)] start Nil show ?thesis by simp
  next
    case (Cons q qs)
    let ?w = "snd (RecordHealthSuccess g t p now w)"
    have lt: "k + 1 < need" using Cons.prems(7) Cons by simp
    have rec: "recovering g t now need (k + 1) (p # seen) ?w"
      by (rule success_counts) (use Cons.prems(2,5) lt in auto)
    have ok: "world_ok ?w" using RecordHealthSuccess_keeps [OF Cons.prems(1)] by (simp add: keeps_def)
    have "(\<forall>j < length ps. \<exists>m. member_at g t (run_successes g t now (take j ps) ?w) = Some m \<and> gm_evicted m) \<and>
       (\<exists>m. member_at g t (run_successes g t now ps ?w) = Some m \<and> \<not> gm_evicted m \<and>
          gm_failureHistory m = [] \<and> gm_recoverySuccesses m = 0)"
      by (rule Cons.IH [OF ok rec]) (use Cons.prems Cons in auto)
    with start show ?thesis
      by (auto simp: take_Cons' less_Suc_eq_0_disj)
  qed
qed simp

section \<open>Eviction is a fact about a node\<close>

text \<open>
  The members of a node that a group still offers. During a reload a node can stand under
  several tags of one group.
\<close>

definition live_tags :: "node_id \<Rightarrow> members \<Rightarrow> nat" where
  "live_tags n ms = length (filter (\<lambda>(t, m). gm_nodeID m = n \<and> \<not> gm_evicted m) ms)"

lemma live_tags_0: "live_tags n ms = 0 \<longleftrightarrow> (\<forall>(t, m) \<in> set ms. gm_nodeID m = n \<longrightarrow> gm_evicted m)"
  by (auto simp: live_tags_def filter_empty_conv)

lemma live_tags_append [simp]: "live_tags n (xs @ ys) = live_tags n xs + live_tags n ys"
  by (simp add: live_tags_def)

lemma live_tags_simps [simp]:
  "live_tags n [] = 0"
  "live_tags n ((t, m) # ms) = (if gm_nodeID m = n \<and> \<not> gm_evicted m then 1 else 0) + live_tags n ms"
  by (simp_all add: live_tags_def)

lemma evict_first_live_tags:
  assumes "evict_first n err at c ms = Some (m', ms')"
  shows "live_tags n ms = live_tags n ms' + 1"
proof -
  from evict_first_Some [OF assms] obtain xs t m ys where
    "ms = xs @ (t, m) # ys" "ms' = xs @ (t, m') # ys" "gm_nodeID m = n" "\<not> gm_evicted m"
    "m' = evicted_copy err at c m"
    by blast
  then show ?thesis by simp
qed

lemma propagate_group_live_tags:
  "propagate_group n err at c r = None \<Longrightarrow> live_tags n (gr_members r) = 0"
  "propagate_group n err at c r = Some (e, r') \<Longrightarrow>
     live_tags n (gr_members r') = live_tags n (gr_members r) - 1"
  by (auto simp: propagate_group_def evict_first_None Let_def live_tags_0
      dest!: evict_first_live_tags split: option.splits)

lemma propagate_groups_live_tags:
  assumes "propagate_groups n err at c gs = (es, c', gs')"
  shows "map fst gs' = map fst gs \<and> (\<forall>h r. map_of gs h = Some r \<longrightarrow>
    (\<exists>r'. map_of gs' h = Some r' \<and> live_tags n (gr_members r') = live_tags n (gr_members r) - 1))"
  using assms
proof (induction n err at c gs arbitrary: es c' gs' rule: propagate_groups.induct)
  case (2 n err at c g r gs)
  show ?case
  proof (cases "propagate_group n err at c r")
    case None
    with "2.prems" obtain gs1 where "propagate_groups n err at c gs = (es, c', gs1)" "gs' = (g, r) # gs1"
      by (auto split: prod.splits)
    with "2.IH"(1) [OF None] propagate_group_live_tags(1) [OF None] show ?thesis by auto
  next
    case (Some er)
    obtain e r' where er: "er = (e, r')" by fastforce
    with Some "2.prems" obtain es1 gs1 where
      rec: "propagate_groups n err at (c + 1) gs = (es1, c', gs1)" and gs': "gs' = (g, r') # gs1"
      by (auto split: prod.splits)
    with "2.IH"(2) [OF Some [unfolded er] refl rec] propagate_group_live_tags(2) [OF Some [unfolded er]]
    show ?thesis by auto
  qed
qed auto

lemma aput_keys: "map_of gs g = Some r0 \<Longrightarrow> map fst (aput g r gs) = map fst gs"
  by (induction g r gs rule: aput.induct) (auto split: if_splits)

lemma live_tags_set_member:
  assumes "map_of ms t = Some m" "distinct (map fst ms)" "gm_nodeID m = n" "\<not> gm_evicted m"
    and "gm_evicted m'"
  shows "live_tags n (amap_at t (\<lambda>_. m') ms) = live_tags n ms - 1"
  using assms
proof (induction ms)
  case (Cons p ms)
  obtain u v where p: "p = (u, v)" by fastforce
  show ?case
  proof (cases "u = t")
    case True
    with Cons.prems(1,2) p have "v = m" "t \<notin> set (map fst ms)" by auto
    then have "amap_at t (\<lambda>_. m') ms = ms" by (force simp: amap_at_def intro: map_idI)
    with True p \<open>v = m\<close> Cons.prems show ?thesis by (simp add: amap_at_def)
  next
    case False
    with Cons p have "live_tags n (amap_at t (\<lambda>_. m') ms) = live_tags n ms - 1" by simp
    moreover have "0 < live_tags n ms"
      using Cons.prems False p map_of_SomeD [of ms t m] live_tags_0 [of n ms] by fastforce
    ultimately show ?thesis using False p by (auto simp: amap_at_def)
  qed
qed simp

text \<open>
  Counting one failure: what \<open>RecordFailure\<close> does to a member that is not evicted and has
  not failed in this second yet.
\<close>

lemma RecordFailure_counted:
  assumes "map_of (w_groups w) g = Some r" "map_of (gr_members r) t = Some m" "\<not> gm_evicted m"
    and "\<not> (window_history r at m \<noteq> [] \<and> last (window_history r at m) = time_unix at)"
  shows "RecordFailure g t cause at now w =
    (let m2 = counted_failure r cause at m; rv = w_stateRevision w;
         w1 = notifyGroupState (state_event g m2 (gr_currentTag r = t) (rv + 1))
           ((put_group g ((set_member t (touch rv m2) r)\<lparr>gr_currentTag :=
              (if gr_currentTag r = t then '''' else gr_currentTag r)\<rparr>) w)\<lparr>w_stateRevision := rv + 1\<rparr>)
     in (gm_evicted m2,
         if gm_evicted m2
         then propagateEviction (gm_nodeID m2) (gm_lastError m2) (gm_evictedAt m2) now
                (w1\<lparr>w_globalEvicted := insert (gm_nodeID m2) (w_globalEvicted w1)\<rparr>)
         else w1))"
  unfolding RecordFailure_def assms(1) option.case assms(2) Let_def
  using assms(3,4) by auto


section \<open>Manual restore\<close>

definition node_clear :: "node_id \<Rightarrow> groupMemberRuntime \<Rightarrow> bool" where
  "node_clear n m \<longleftrightarrow> (gm_nodeID m = n \<longrightarrow>
     \<not> gm_evicted m \<and> gm_failureHistory m = [] \<and> gm_lastError m = '''' \<and> gm_recoverySuccesses m = 0)"

lemma clear_node_clears:
  assumes "clear_node False n c ms = (l, c', ms')"
  shows "(\<forall>(t, m) \<in> set ms'. node_clear n m) \<and>
    (l = None \<longleftrightarrow> (\<forall>(t, m) \<in> set ms. gm_nodeID m \<noteq> n))"
  using assms
proof (induction "False" n c ms arbitrary: l c' ms' rule: clear_node.induct)
  case (2 n c t m ms)
  then show ?case
    by (auto simp: node_clear_def clearMemberEviction_def split: prod.splits if_splits option.splits)
qed auto

lemma clear_groups_clears:
  assumes "clear_groups False n (\<lambda>_. False) c gs = (es, c', gs')"
  shows "(\<forall>(g, r) \<in> set gs'. \<forall>(t, m) \<in> set (gr_members r). node_clear n m) \<and>
    (es = [] \<longleftrightarrow> (\<forall>(g, r) \<in> set gs. \<forall>(t, m) \<in> set (gr_members r). gm_nodeID m \<noteq> n))"
  using assms
proof (induction "False" n "\<lambda>_::group_id. False" c gs arbitrary: es c' gs' rule: clear_groups.induct)
  case (2 n c g r gs)
  obtain l c1 ms1 where cn: "clear_node False n c (gr_members r) = (l, c1, ms1)" by (metis prod_cases3)
  obtain es1 c2 gs1 where cg: "clear_groups False n (\<lambda>_. False) c1 gs = (es1, c2, gs1)" by (metis prod_cases3)
  from 2 cn cg have IH: "(\<forall>(g, r) \<in> set gs1. \<forall>(t, m) \<in> set (gr_members r). node_clear n m) \<and>
    (es1 = [] \<longleftrightarrow> (\<forall>(g, r) \<in> set gs. \<forall>(t, m) \<in> set (gr_members r). gm_nodeID m \<noteq> n))"
    by auto
  have eq: "es = (case l of None \<Rightarrow> es1 | Some v \<Rightarrow> recovered_event (gr_id r) n v # es1)"
    "gs' = (g, r\<lparr>gr_members := ms1\<rparr>) # gs1"
    using "2.prems" cn cg by auto
  from clear_node_clears [OF cn] IH show ?case
    by (cases l) (auto simp: eq)
qed auto

text \<open>A manual restore is global and reports honestly. For a registered group it fails
  exactly when no group has a member of the node; otherwise afterwards every member of the
  node in every group is clean, and the global mark is gone.\<close>

theorem restore_clears_every_group:
  assumes "map_of (w_groups w) g \<noteq> None"
  shows "w_globalEvicted (snd (RestoreGroupMember g n w)) = w_globalEvicted w - {n} \<and>
    (\<forall>(h, r) \<in> set (w_groups (snd (RestoreGroupMember g n w))). \<forall>(t, m) \<in> set (gr_members r).
       node_clear n m) \<and>
    (fst (RestoreGroupMember g n w) = Some ''group member not found'' \<longleftrightarrow>
       (\<forall>(h, r) \<in> set (w_groups w). \<forall>(t, m) \<in> set (gr_members r). gm_nodeID m \<noteq> n)) \<and>
    fst (RestoreGroupMember g n w) \<in> {None, Some ''group member not found''}"
proof -
  obtain es c' gs' where
    *: "clear_groups False n (\<lambda>_. False) (w_stateRevision w) (w_groups w) = (es, c', gs')"
    by (metis prod_cases3)
  from clear_groups_clears [OF *] assms show ?thesis
    by (auto simp: RestoreGroupMember_def *)
qed

section \<open>Order of the durable changes\<close>

text \<open>The revisions of the state changes handed to the persistence observer between two worlds.\<close>

definition observed_revisions :: "world \<Rightarrow> world \<Rightarrow> int list" where
  "observed_revisions w w' = map (ev_Revision \<circ> snd)
     (filter (\<lambda>(rc, e). rc = Observer \<and> ev_StateChanged e) (drop (length (w_delivered w)) (w_delivered w')))"

definition observer_log :: "GroupStateEvent list \<Rightarrow> int list" where
  "observer_log es = map ev_Revision (filter ev_StateChanged es)"

lemma notify_all_delivered:
  "w_delivered (notify_all es w) = w_delivered w @ concat (map (deliveries w) es)"
  unfolding notify_all_def
proof (induction es arbitrary: w)
  case (Cons e es)
  have "deliveries (notifyGroupState e w) = deliveries w"
    by (rule ext) (simp add: deliveries_def notifyGroupState_def)
  with Cons show ?case by (simp add: notifyGroupState_def)
qed simp

lemma observer_filter_deliveries:
  "w_observer w \<Longrightarrow> map (ev_Revision \<circ> snd) (filter (\<lambda>(rc, e). rc = Observer \<and> ev_StateChanged e)
     (deliveries w e)) = observer_log [e]"
  by (simp add: deliveries_def observer_log_def filter_empty_conv)

lemma observer_filter_concat:
  "w_observer w \<Longrightarrow> map (ev_Revision \<circ> snd) (filter (\<lambda>(rc, e). rc = Observer \<and> ev_StateChanged e)
     (concat (map (deliveries w) es))) = observer_log es"
  using observer_filter_deliveries [of w] by (induction es) (auto simp: observer_log_def)

lemma observed_revisions_notify_all:
  assumes "w_observer w" "w_delivered w1 = w_delivered w" "w_observer w1" "w_subscribers w1 = w_subscribers w"
  shows "observed_revisions w (notify_all es w1) = observer_log es"
  using observer_filter_concat [OF assms(3), of es]
  by (simp add: observed_revisions_def notify_all_delivered assms(2))

lemma propagate_groups_log:
  assumes "propagate_groups n err at c gs = (es, c', gs')"
  shows "sorted_wrt (<) (c # observer_log es) \<and> (\<forall>v \<in> set (observer_log es). v \<le> c') \<and> c \<le> c'"
  using assms
proof (induction n err at c gs arbitrary: es c' gs' rule: propagate_groups.induct)
  case (2 n err at c g r gs)
  show ?case
  proof (cases "propagate_group n err at c r")
    case None
    with 2 show ?thesis by (auto split: prod.splits)
  next
    case (Some er)
    obtain e r' where er: "er = (e, r')" by fastforce
    with Some "2.prems" obtain es1 gs1 where
      rec: "propagate_groups n err at (c + 1) gs = (es1, c', gs1)" and es: "es = e # es1"
      by (auto split: prod.splits)
    have "ev_StateChanged e \<and> ev_Revision e = c + 1"
      using Some er by (auto simp: propagate_group_def state_event_def Let_def split: option.splits)
    with "2.IH"(2) [OF Some [unfolded er] refl rec] show ?thesis
      by (auto simp: es observer_log_def)
  qed
qed (auto simp: observer_log_def)

lemma clear_node_stamp:
  assumes "clear_node oe n c ms = (l, c', ms')"
  shows "c \<le> c' \<and> (\<forall>v. l = Some v \<longrightarrow> c < v \<and> v \<le> c')"
  using assms
proof (induction oe n c ms arbitrary: l c' ms' rule: clear_node.induct)
  case (2 oe n c t m ms)
  then show ?case by (fastforce split: prod.splits if_splits option.splits)
qed auto

lemma clear_groups_log:
  assumes "clear_groups oe n skip c gs = (es, c', gs')"
  shows "sorted_wrt (<) (c # observer_log es) \<and> (\<forall>v \<in> set (observer_log es). v \<le> c') \<and> c \<le> c'"
  using assms
proof (induction oe n skip c gs arbitrary: es c' gs' rule: clear_groups.induct)
  case (2 oe n skip c g r gs)
  show ?case
  proof (cases "skip (gr_id r)")
    case True
    with 2 show ?thesis by (auto split: prod.splits)
  next
    case False
    obtain l c1 ms1 where cn: "clear_node oe n c (gr_members r) = (l, c1, ms1)" by (metis prod_cases3)
    obtain es1 c2 gs1 where cg: "clear_groups oe n skip c1 gs = (es1, c2, gs1)" by (metis prod_cases3)
    have eq: "es = (case l of None \<Rightarrow> es1 | Some v \<Rightarrow> recovered_event (gr_id r) n v # es1)" "c' = c2"
      using "2.prems" False cn cg by auto
    from "2.IH"(2) [OF False cn [symmetric] refl refl cg] clear_node_stamp [OF cn] show ?thesis
      by (cases l) (auto simp: eq observer_log_def recovered_event_def intro: order_less_le_trans)
  qed
qed (auto simp: observer_log_def)

lemma notify_delivered [simp]:
  "w_delivered (notifyGroupState e w) = w_delivered w @ deliveries w e"
  "w_observer (notifyGroupState e w) = w_observer w"
  "w_subscribers (notifyGroupState e w) = w_subscribers w"
  by (simp_all add: notifyGroupState_def)

lemma deliveries_cong:
  "w_observer w' = w_observer w \<Longrightarrow> w_subscribers w' = w_subscribers w \<Longrightarrow> deliveries w' = deliveries w"
  by (rule ext) (simp add: deliveries_def)

text \<open>One announcement followed by the announcements of a propagation.\<close>

lemma observed_one_then:
  assumes "w_observer w" "w_delivered w1 = w_delivered w @ deliveries w e"
    and "w_observer w1" "w_subscribers w1 = w_subscribers w"
  shows "observed_revisions w (notify_all es w1) = observer_log (e # es)"
proof -
  have "deliveries w1 = deliveries w" by (rule deliveries_cong) (use assms in auto)
  then show ?thesis
    using observer_filter_concat [OF assms(1), of "e # es"]
    by (simp add: observed_revisions_def notify_all_delivered assms(2))
qed

lemma put_group_delivered [simp]:
  "w_delivered (put_group g r w) = w_delivered w" "w_observer (put_group g r w) = w_observer w"
  "w_subscribers (put_group g r w) = w_subscribers w"
  by (simp_all add: put_group_def)

definition ordered_after :: "int \<Rightarrow> int list \<Rightarrow> int \<Rightarrow> bool" where
  "ordered_after c vs c' \<longleftrightarrow> sorted_wrt (<) (c # vs) \<and> (\<forall>v \<in> set vs. v \<le> c')"

lemma propagateEviction_observed:
  assumes "w_observer w" "w_delivered w1 = w_delivered w @ deliveries w e"
    and "w_observer w1" "w_subscribers w1 = w_subscribers w"
    and "ev_StateChanged e" "ev_Revision e = w_stateRevision w1" "w_stateRevision w < w_stateRevision w1"
  shows "ordered_after (w_stateRevision w) (observed_revisions w (propagateEviction n err at now w1))
    (w_stateRevision (propagateEviction n err at now w1))"
proof (cases "n = 0")
  case True
  then have "observed_revisions w (propagateEviction n err at now w1) = observer_log [e]"
    using observed_one_then [OF assms(1-4), of "[]"] by (simp add: propagateEviction_def notify_all_def)
  with True assms(5-7) show ?thesis
    by (simp add: ordered_after_def observer_log_def propagateEviction_def)
next
  case False
  obtain es c' gs' where
    *: "propagate_groups n err (if is_zero_time at then now else at) (w_stateRevision w1) (w_groups w1)
        = (es, c', gs')"
    by (metis prod_cases3)
  have "observed_revisions w (notify_all es (w1\<lparr>w_groups := gs', w_stateRevision := c'\<rparr>)) =
      observer_log (e # es)"
    by (rule observed_one_then) (use assms in auto)
  with propagate_groups_log [OF *] assms(5-7) False show ?thesis
    by (auto simp: ordered_after_def propagateEviction_def * Let_def observer_log_def
        intro: order_less_trans)
qed

text \<open>What the persistence observer sees is ordered. While an observer is installed, a
  recorded failure announces its state changes, those of every other group an eviction spreads
  to included, with strictly increasing revisions, all above every revision given out before
  the call. A writer that keeps the larger revision therefore never lets an older snapshot win.\<close>

theorem failure_events_ordered:
  assumes "w_observer w"
  shows "ordered_after (w_stateRevision w)
    (observed_revisions w (snd (RecordFailure g t cause at now w)))
    (w_stateRevision (snd (RecordFailure g t cause at now w)))"
proof (cases "\<exists>r m. map_of (w_groups w) g = Some r \<and> map_of (gr_members r) t = Some m \<and> \<not> gm_evicted m \<and>
    \<not> (window_history r at m \<noteq> [] \<and> last (window_history r at m) = time_unix at)")
  case True
  then obtain r m where r: "map_of (w_groups w) g = Some r" "map_of (gr_members r) t = Some m"
    and m: "\<not> gm_evicted m" "\<not> (window_history r at m \<noteq> [] \<and> last (window_history r at m) = time_unix at)"
    by blast
  let ?c = "w_stateRevision w"
  let ?m = "counted_failure r cause at m"
  define e where "e = state_event g ?m (gr_currentTag r = t) (?c + 1)"
  define w1 where "w1 = notifyGroupState e
           ((put_group g ((set_member t (touch ?c ?m) r)\<lparr>gr_currentTag :=
              (if gr_currentTag r = t then '''' else gr_currentTag r)\<rparr>) w)\<lparr>w_stateRevision := ?c + 1\<rparr>)"
  note eq = RecordFailure_counted [OF r m, of cause now, unfolded Let_def, folded e_def, folded w1_def]
  have w1: "w_delivered w1 = w_delivered w @ deliveries w e" "w_observer w1"
    "w_subscribers w1 = w_subscribers w" "w_stateRevision w1 = ?c + 1"
    using assms by (simp_all add: w1_def deliveries_def)
  have e: "ev_StateChanged e" "ev_Revision e = ?c + 1" by (simp_all add: e_def state_event_def)
  have "observed_revisions w (notify_all [] w1) = observer_log [e]"
    by (rule observed_one_then) (use assms w1 in auto)
  then have one: "ordered_after ?c (observed_revisions w w1) (w_stateRevision w1)"
    using e w1(4) by (simp add: notify_all_def ordered_after_def observer_log_def)
  have all: "ordered_after ?c (observed_revisions w (propagateEviction n err at' now (w1\<lparr>w_globalEvicted := x\<rparr>)))
     (w_stateRevision (propagateEviction n err at' now (w1\<lparr>w_globalEvicted := x\<rparr>)))" for n err at' x
    by (rule propagateEviction_observed [where e = e]) (use assms w1 e in auto)
  show ?thesis using one all by (simp add: eq)
next
  case False
  then have "w_delivered (snd (RecordFailure g t cause at now w)) = w_delivered w"
    by (auto simp: RecordFailure_def Let_def split: option.splits)
  then show ?thesis by (simp add: ordered_after_def observed_revisions_def)
qed

section \<open>The sliding window\<close>

text \<open>
  One failure against any history that is strictly increasing and not newer than the failure: the
  first one in a new second evicts exactly when the seconds of the window, this one included,
  reach the threshold, and a further one in a second already counted neither evicts nor announces
  anything.
\<close>

lemma last_of_window:
  assumes "sorted_wrt (<) (gm_failureHistory m)" "\<forall>ts \<in> set (gm_failureHistory m). ts \<le> time_unix at"
    and "time_unix (at - gr_window r) \<le> time_unix at"
  shows "window_history r at m \<noteq> [] \<and> last (window_history r at m) = time_unix at \<longleftrightarrow>
    time_unix at \<in> set (gm_failureHistory m)"
proof
  let ?wh = "window_history r at m"
  have set_wh: "set ?wh = {ts \<in> set (gm_failureHistory m). time_unix (at - gr_window r) \<le> ts}"
    by (auto simp: window_history_def)
  {
    assume "time_unix at \<in> set (gm_failureHistory m)"
    then have mem: "time_unix at \<in> set ?wh" using assms(3) by (simp add: set_wh)
    then obtain ys y where ys: "?wh = ys @ [y]" by (cases ?wh rule: rev_cases) auto
    have "sorted_wrt (<) (ys @ [y])"
      using assms(1) unfolding ys [symmetric] window_history_def by (rule sorted_wrt_filter)
    then have "\<forall>x \<in> set ys. x < y" by (simp add: sorted_wrt_append)
    moreover have "y \<in> set ?wh" by (simp add: ys)
    then have "y \<le> time_unix at" using assms(2) by (simp add: set_wh)
    ultimately have "y = time_unix at" using mem unfolding ys by force
    then show "?wh \<noteq> [] \<and> last ?wh = time_unix at" by (simp add: ys)
  next
    assume "?wh \<noteq> [] \<and> last ?wh = time_unix at"
    then have "time_unix at \<in> set ?wh" using last_in_set by metis
    then show "time_unix at \<in> set (gm_failureHistory m)" by (simp add: set_wh)
  }
qed

lemma failure_in_window:
  assumes "map_of (w_groups w) g = Some r" "map_of (gr_members r) t = Some m" "\<not> gm_evicted m"
    and "sorted_wrt (<) (gm_failureHistory m)" "\<forall>ts \<in> set (gm_failureHistory m). ts \<le> time_unix at"
    and "time_unix (at - gr_window r) \<le> time_unix at"
  shows "(time_unix at \<notin> set (gm_failureHistory m) \<longrightarrow>
      fst (RecordFailure g t cause at now w) =
        (gr_threshold r \<le> int (card {ts \<in> insert (time_unix at) (set (gm_failureHistory m)).
           time_unix (at - gr_window r) \<le> ts}))) \<and>
    (time_unix at \<in> set (gm_failureHistory m) \<longrightarrow>
      \<not> fst (RecordFailure g t cause at now w) \<and>
      w_delivered (snd (RecordFailure g t cause at now w)) = w_delivered w \<and>
      (window_history r at m = gm_failureHistory m \<longrightarrow>
        member_at g t (snd (RecordFailure g t cause at now w)) = Some m))"
proof -
  let ?h = "gm_failureHistory m"
  let ?wh = "window_history r at m"
  let ?cut = "time_unix (at - gr_window r)"
  have dist: "distinct ?wh" using assms(4) by (simp add: window_history_def strict_sorted_iff)
  have set_wh: "set ?wh = {ts \<in> set ?h. ?cut \<le> ts}" by (auto simp: window_history_def)
  note last_wh = last_of_window [OF assms(4-6)]
  show ?thesis
  proof (cases "time_unix at \<in> set ?h")
    case True
    then have "RecordFailure g t cause at now w = (False, put_group g (set_member t (m\<lparr>gm_failureHistory :=
       ?wh @ drop (length ?wh) ?h\<rparr>) r) w)"
      using assms(1-3) last_wh by (simp add: RecordFailure_def Let_def)
    with True assms(1,2) show ?thesis by (simp add: member_at_def)
  next
    case False
    have "{ts \<in> insert (time_unix at) (set ?h). ?cut \<le> ts} = set (?wh @ [time_unix at])"
      using assms(6) by (auto simp: set_wh)
    moreover have "distinct (?wh @ [time_unix at])" using dist False set_wh by auto
    then have "card (set (?wh @ [time_unix at])) = length (?wh @ [time_unix at])" by (rule distinct_card)
    ultimately have "card {ts \<in> insert (time_unix at) (set ?h). ?cut \<le> ts} = length ?wh + 1"
      by simp
    then show ?thesis
      using RecordFailure_counted [OF assms(1-3), of at cause now] last_wh False assms(3)
      by (simp add: Let_def counted_failure_def)
  qed
qed

text \<open>
  A run of failures of one member, each at its own time, and the distinct seconds of a run that
  lie in the window ending at its last failure.
\<close>

definition run_failures :: "group_id \<Rightarrow> string \<Rightarrow> string option \<Rightarrow> gtime list \<Rightarrow> world \<Rightarrow> world" where
  "run_failures g t cause ats w = fold (\<lambda>at w. snd (RecordFailure g t cause at at w)) ats w"

definition window_seconds :: "duration \<Rightarrow> gtime list \<Rightarrow> int set" where
  "window_seconds d ats = {ts \<in> time_unix ` set ats. time_unix (last ats - d) \<le> ts}"

lemma run_failures_simps [simp]:
  "run_failures g t cause [] w = w"
  "run_failures g t cause (ats @ [at]) w = snd (RecordFailure g t cause at at (run_failures g t cause ats w))"
  by (simp_all add: run_failures_def)

lemma window_seconds_Nil [simp]: "window_seconds d [] = {}"
  by (simp add: window_seconds_def)

text \<open>The member after a run that has not evicted it: its history is the seconds of the window.\<close>

definition counted :: "group_id \<Rightarrow> string \<Rightarrow> duration \<Rightarrow> int \<Rightarrow> gtime list \<Rightarrow> world \<Rightarrow> bool" where
  "counted g t d th ats w \<longleftrightarrow> (\<exists>r m. map_of (w_groups w) g = Some r \<and> gr_window r = d \<and>
     gr_threshold r = th \<and> map_of (gr_members r) t = Some m \<and> \<not> gm_evicted m \<and>
     sorted_wrt (<) (gm_failureHistory m) \<and> set (gm_failureHistory m) = window_seconds d ats \<and>
     int (length (gm_failureHistory m)) < th)"

lemma time_unix_shift: "d mod second = 0 \<Longrightarrow> time_unix (at - d) = time_unix at - d div second"
  by (auto simp: time_unix_def second_def mod_eq_0_iff_dvd elim!: dvdE)

lemma window_seconds_snoc:
  assumes "sorted (ats @ [at])" "d mod second = 0" "0 < d"
  shows "window_seconds d (ats @ [at]) =
      insert (time_unix at) {ts \<in> window_seconds d ats. time_unix (at - d) \<le> ts}"
    and "time_unix at \<in> window_seconds d ats \<Longrightarrow> window_seconds d (ats @ [at]) = window_seconds d ats"
proof -
  have own: "time_unix (at - d) \<le> time_unix at" using assms(3) by (intro time_unix_mono) simp
  have le: "time_unix (last ats - d) \<le> time_unix (at - d)" if "ats \<noteq> []"
    using assms(1) that by (intro time_unix_mono) (simp add: sorted_append)
  show 1: "window_seconds d (ats @ [at]) =
      insert (time_unix at) {ts \<in> window_seconds d ats. time_unix (at - d) \<le> ts}"
    using own le by (cases "ats = []") (auto simp: window_seconds_def)
  assume in_w: "time_unix at \<in> window_seconds d ats"
  then obtain a where a: "a \<in> set ats" "time_unix a = time_unix at" by (auto simp: window_seconds_def)
  have "a \<le> last ats"
    using a(1) assms(1) by (cases ats rule: rev_cases) (auto simp: sorted_append)
  moreover have "last ats \<le> at" using a(1) assms(1) by (cases ats rule: rev_cases) (auto simp: sorted_append)
  ultimately have "time_unix (last ats) = time_unix at"
    using a(2) time_unix_mono by (metis order_antisym)
  then have "time_unix (last ats - d) = time_unix (at - d)" by (simp add: time_unix_shift assms(2))
  with in_w 1 show "window_seconds d (ats @ [at]) = window_seconds d ats"
    by (auto simp: window_seconds_def)
qed

lemma window_seconds_le_last: "sorted (ats @ [at]) \<Longrightarrow> ts \<in> window_seconds d ats \<Longrightarrow> ts \<le> time_unix at"
  by (auto simp: window_seconds_def sorted_append intro: time_unix_mono)

lemma failure_not_evicting:
  assumes "map_of (w_groups w) g = Some r" "map_of (gr_members r) t = Some m" "\<not> gm_evicted m"
    and "\<not> fst (RecordFailure g t cause at now w)"
  shows "\<exists>r' m'. map_of (w_groups (snd (RecordFailure g t cause at now w))) g = Some r' \<and>
    gr_window r' = gr_window r \<and> gr_threshold r' = gr_threshold r \<and>
    map_of (gr_members r') t = Some m' \<and> \<not> gm_evicted m' \<and>
    gm_failureHistory m' =
      (if window_history r at m \<noteq> [] \<and> last (window_history r at m) = time_unix at
       then window_history r at m @ drop (length (window_history r at m)) (gm_failureHistory m)
       else window_history r at m @ [time_unix at])"
proof (cases "window_history r at m \<noteq> [] \<and> last (window_history r at m) = time_unix at")
  case True
  then show ?thesis using assms by (simp add: RecordFailure_def Let_def)
next
  case False
  have "gm_failureHistory (counted_failure r cause at m) = window_history r at m @ [time_unix at]"
    by (simp add: counted_failure_def Let_def)
  then show ?thesis
    unfolding RecordFailure_counted [OF assms(1-3) False] using False assms(4)
    unfolding RecordFailure_counted [OF assms(1-3) False]
    by (auto simp: assms(1,2) Let_def)
qed

lemma propagate_groups_evicted:
  assumes "propagate_groups n err at c gs = (es, c', gs')" "map_of gs g = Some r"
    and "map_of (gr_members r) t = Some m" "gm_evicted m"
  shows "\<exists>r'. map_of gs' g = Some r' \<and> map_of (gr_members r') t = Some m"
  using assms
proof (induction n err at c gs arbitrary: es c' gs' rule: propagate_groups.induct)
  case (2 n err at c h r1 gs)
  show ?case
  proof (cases "propagate_group n err at c r1")
    case None
    with "2.prems"(1) obtain gs1 where "propagate_groups n err at c gs = (es, c', gs1)" "gs' = (h, r1) # gs1"
      by (auto split: prod.splits)
    with "2.IH"(1) [OF None] "2.prems"(2-4) show ?thesis by (auto split: if_splits)
  next
    case (Some er)
    obtain e r' where er: "er = (e, r')" by fastforce
    with Some "2.prems"(1) obtain es1 gs1 where
      rec: "propagate_groups n err at (c + 1) gs = (es1, c', gs1)" and gs': "gs' = (h, r') # gs1"
      by (auto split: prod.splits)
    from Some er obtain m' ms' where ef: "evict_first n err at c (gr_members r1) = Some (m', ms')"
      and ms': "gr_members r' = ms'"
      by (auto simp: propagate_group_def Let_def split: option.splits)
    have kept: "map_of (gr_members r') t = Some m" if "map_of (gr_members r1) t = Some m"
    proof -
      from evict_first_Some [OF ef] obtain xs u m0 ys where
        "gr_members r1 = xs @ (u, m0) # ys" "ms' = xs @ (u, m') # ys" "\<not> gm_evicted m0" by blast
      with that assms(4) show ?thesis by (auto simp: ms' map_add_def split: option.splits if_splits)
    qed
    show ?thesis
      using "2.IH"(2) [OF Some [unfolded er] refl rec] "2.prems"(2-4) kept by (auto simp: gs' split: if_splits)
  qed
qed simp

lemma failure_evicting:
  assumes "map_of (w_groups w) g = Some r" "map_of (gr_members r) t = Some m" "\<not> gm_evicted m"
    and "fst (RecordFailure g t cause at now w)"
  shows "\<exists>m'. member_at g t (snd (RecordFailure g t cause at now w)) = Some m' \<and> gm_evicted m'"
proof -
  have False: "\<not> (window_history r at m \<noteq> [] \<and> last (window_history r at m) = time_unix at)"
    using assms by (auto simp: RecordFailure_def Let_def)
  let ?m = "touch (w_stateRevision w) (counted_failure r cause at m)"
  let ?r = "(set_member t ?m r)\<lparr>gr_currentTag := (if gr_currentTag r = t then '''' else gr_currentTag r)\<rparr>"
  have ev: "gm_evicted ?m" using assms(4) unfolding RecordFailure_counted [OF assms(1-3) False]
    by (simp add: Let_def)
  define es where "es = propagate_groups (gm_nodeID ?m) (gm_lastError ?m)
      (if is_zero_time (gm_evictedAt ?m) then now else gm_evictedAt ?m)
      (w_stateRevision w + 1) (aput g ?r (w_groups w))"
  obtain es1 c' gs' where *: "es = (es1, c', gs')" by (metis prod_cases3)
  have "\<exists>r'. map_of gs' g = Some r' \<and> map_of (gr_members r') t = Some ?m"
    by (rule propagate_groups_evicted [OF * [unfolded es_def] _ _ ev, of g ?r]) (simp_all add: assms(2))
  moreover have "w_groups (snd (RecordFailure g t cause at now w)) \<in> {gs', aput g ?r (w_groups w)}"
    unfolding RecordFailure_counted [OF assms(1-3) False] using ev *
    by (auto simp: Let_def propagateEviction_def es_def)
  ultimately show ?thesis using ev assms(2) by (auto simp: member_at_def)
qed

lemma evicted_stays:
  "member_at g t w = Some m \<Longrightarrow> gm_evicted m \<Longrightarrow>
     \<exists>m'. member_at g t (snd (RecordFailure g t cause at now w)) = Some m' \<and> gm_evicted m'"
  by (auto simp: RecordFailure_def member_at_def split: option.splits)

lemma counted_step:
  assumes "counted g t d th ats w" "sorted (ats @ [at])" "d mod second = 0" "0 < d"
  shows "fst (RecordFailure g t cause at now w) = (th \<le> int (card (window_seconds d (ats @ [at]))))"
    and "\<not> fst (RecordFailure g t cause at now w) \<Longrightarrow>
      counted g t d th (ats @ [at]) (snd (RecordFailure g t cause at now w))"
proof -
  from assms(1) obtain r m where rm: "map_of (w_groups w) g = Some r" "gr_window r = d" "gr_threshold r = th"
    "map_of (gr_members r) t = Some m" "\<not> gm_evicted m" "sorted_wrt (<) (gm_failureHistory m)"
    "set (gm_failureHistory m) = window_seconds d ats" "int (length (gm_failureHistory m)) < th"
    by (auto simp: counted_def)
  let ?h = "gm_failureHistory m"
  have card_h: "card (window_seconds d ats) = length ?h"
    using rm(6) distinct_card [of ?h] by (simp add: strict_sorted_iff rm(7) [symmetric])
  have own: "time_unix (at - d) \<le> time_unix at" using assms(4) by (intro time_unix_mono) simp
  have le: "\<forall>ts \<in> set ?h. ts \<le> time_unix at" using rm(7) window_seconds_le_last [OF assms(2)] by auto
  note one = failure_in_window [OF rm(1,4,5,6) le own [folded rm(2)], of cause now]
  note snoc = window_seconds_snoc [OF assms(2-4)]
  have set_wh: "set (window_history r at m) = {ts \<in> window_seconds d ats. time_unix (at - d) \<le> ts}"
    by (auto simp: window_history_def rm(2,7))
  show 1: "fst (RecordFailure g t cause at now w) = (th \<le> int (card (window_seconds d (ats @ [at]))))"
  proof (cases "time_unix at \<in> set ?h")
    case True
    with one snoc(2) rm(7,8) card_h show ?thesis by simp
  next
    case False
    have "{ts \<in> insert (time_unix at) (set ?h). time_unix (at - d) \<le> ts} = window_seconds d (ats @ [at])"
      unfolding snoc(1) rm(7) using own by auto
    with one False show ?thesis by (simp add: rm(2,3))
  qed
  assume no: "\<not> fst (RecordFailure g t cause at now w)"
  have last_wh: "window_history r at m \<noteq> [] \<and> last (window_history r at m) = time_unix at \<longleftrightarrow>
      time_unix at \<in> set ?h"
    by (rule last_of_window [OF rm(6) le own [folded rm(2)]])
  from failure_not_evicting [OF rm(1,4,5) no] obtain r' m' where
    *: "map_of (w_groups (snd (RecordFailure g t cause at now w))) g = Some r'"
      "gr_window r' = d" "gr_threshold r' = th" "map_of (gr_members r') t = Some m'" "\<not> gm_evicted m'"
      "gm_failureHistory m' = (if time_unix at \<in> set ?h
        then window_history r at m @ drop (length (window_history r at m)) ?h
        else window_history r at m @ [time_unix at])"
    unfolding last_wh rm(2,3) by blast
  have "sorted_wrt (<) (gm_failureHistory m') \<and> set (gm_failureHistory m') = window_seconds d (ats @ [at])"
  proof (cases "time_unix at \<in> set ?h")
    case True
    have "\<forall>ts \<in> set ?h. time_unix (at - d) \<le> ts"
      using snoc(2) True by (auto simp: rm(7) window_seconds_def)
    then have "window_history r at m = ?h" by (simp add: window_history_def rm(2) filter_id_conv)
    with True * rm(6,7) snoc(2) show ?thesis by simp
  next
    case False
    then have "\<forall>ts \<in> set (window_history r at m). ts < time_unix at"
      using le by (auto simp: window_history_def order_less_le)
    moreover have "sorted_wrt (<) (window_history r at m)"
      using rm(6) by (simp add: window_history_def sorted_wrt_filter)
    ultimately show ?thesis using False *(6) set_wh snoc(1) by (simp add: sorted_wrt_append)
  qed
  moreover from this have "card (window_seconds d (ats @ [at])) = length (gm_failureHistory m')"
    using distinct_card [of "gm_failureHistory m'"] by (simp add: strict_sorted_iff)
  ultimately show "counted g t d th (ats @ [at]) (snd (RecordFailure g t cause at now w))"
    using * no 1 by (auto simp: counted_def)
qed


section \<open>Concrete runs\<close>

text \<open>
  Two groups share node 11. Group 1 evicts after two failing seconds in five minutes and
  re-admits after two successes and a minute of cooldown.
\<close>

definition demo_state :: "node_id \<Rightarrow> GroupInitialState" where
  "demo_state n = \<lparr>gi_Standby = False, gi_NodeID = n, gi_FailureHistory = [], gi_Evicted = False,
     gi_LastError = '''', gi_EvictedAt = zero_time, gi_Revision = 0\<rparr>"

definition demo_ops :: "group_op list" where
  "demo_ops = [OpSetObserver True,
     OpRegister 1 (300 * second) 2 ''a'' [(''a'', demo_state 11), (''b'', demo_state 12)]
       (Some \<lparr>rp_Enabled = True, rp_SuccessThreshold = 2, rp_Cooldown = 60 * second\<rparr>),
     OpRegister 2 (300 * second) 2 ''x'' [(''x'', demo_state 11)] None]"

definition demo_world :: world where
  "demo_world = fold (\<lambda>op. run_op op (1000 * second)) demo_ops initial_world"

definition demo_group :: "group_id \<Rightarrow> world \<Rightarrow> groupRuntime" where
  "demo_group g w = the (map_of (w_groups w) g)"

definition demo_member :: "group_id \<Rightarrow> string \<Rightarrow> world \<Rightarrow> groupMemberRuntime" where
  "demo_member g t w = the (member_at g t w)"

text \<open>After a failure at second 1000 and one at second 1010, node 11 is evicted.\<close>

definition demo_failed_once :: world where
  "demo_failed_once = snd (RecordFailure 1 ''a'' (Some ''refused'') (1000 * second) (1000 * second) demo_world)"

definition demo_evicted :: world where
  "demo_evicted = snd (RecordFailure 1 ''a'' (Some ''refused'') (1010 * second) (1010 * second) demo_failed_once)"

lemma reaches_fold:
  assumes "list_all op_ok ops" "\<not> is_zero_time now" "reaches group_step v w"
  shows "reaches group_step v (fold (\<lambda>op. run_op op now) ops w)"
  using assms
proof (induction ops arbitrary: w)
  case (Cons op ops)
  then have "group_step w (run_op op now w)" by (auto simp: group_step_def)
  with Cons show ?case by (auto intro: reaches.intros)
qed simp

lemma demo_reachable: "reaches group_step initial_world demo_world"
  unfolding demo_world_def
  by (rule reaches_fold) (auto simp: demo_ops_def second_def zero_time_def intro: reaches.intros)

lemma reaches_failure:
  "reaches group_step v w \<Longrightarrow> \<not> is_zero_time at \<Longrightarrow> \<not> is_zero_time now \<Longrightarrow>
     reaches group_step v (snd (RecordFailure g t c at now w))"
  by (rule reaches_step, assumption, unfold group_step_def,
      rule exI [of _ "OpRecordFailure g t c at"], rule exI [of _ now]) simp

lemma demo_evicted_reachable: "reaches group_step initial_world demo_evicted"
  unfolding demo_evicted_def demo_failed_once_def
  by (intro reaches_failure demo_reachable) (simp_all add: second_def zero_time_def)

lemma demo_ok: "world_ok demo_world" "world_ok demo_evicted"
  using demo_reachable demo_evicted_reachable by (auto intro: group_machine.reachable_inv)

lemma demo_failed_once_ok: "world_ok demo_failed_once"
  unfolding demo_failed_once_def
  by (rule group_machine.reachable_inv, rule reaches_failure [OF demo_reachable])
    (simp_all add: second_def zero_time_def)

lemma demo_lookups:
  "map_of (w_groups demo_world) 1 = Some (demo_group 1 demo_world)"
  "gr_currentTag (demo_group 1 demo_world) = ''a''"
  "member_at 1 ''a'' demo_failed_once = Some (demo_member 1 ''a'' demo_failed_once)"
  "member_at 1 ''a'' demo_evicted = Some (demo_member 1 ''a'' demo_evicted)"
  by code_simp+

theorem selected_member_usable_witness:
  "\<exists>m. map_of (gr_members (demo_group 1 demo_world)) ''a'' = Some m \<and> \<not> gm_standby m \<and> \<not> gm_evicted m"
  using selected_member_usable [OF demo_reachable demo_lookups(1)] by (simp add: demo_lookups(2))

definition demo_probed :: world where
  "demo_probed = snd (RecordHealthSuccess 1 ''a'' ''p1'' (1100 * second) demo_evicted)"

lemma demo_probed_ok: "world_ok demo_probed"
  using RecordHealthSuccess_keeps [OF demo_ok(2)] by (simp add: demo_probed_def keeps_def)

lemma demo_probed_facts:
  "member_at 1 ''a'' demo_probed = Some (demo_member 1 ''a'' demo_probed)"
  "''p1'' \<in> set (gm_appliedProbes (demo_member 1 ''a'' demo_probed))"
  "gm_evicted (demo_member 1 ''a'' demo_probed)"
  by code_simp+

theorem replayed_probe_is_noop_witness:
  "RecordHealthSuccess 1 ''a'' ''p1'' (1200 * second) demo_probed = (False, demo_probed) \<and>
   RecordGroupHealthFailure 1 ''a'' ''p1'' None (1200 * second) (1200 * second) demo_probed = (True, demo_probed)"
  using replayed_probe_is_noop [OF demo_probed_ok demo_probed_facts(1) _ demo_probed_facts(2),
      where now = "1200 * second" and cause = None and at = "1200 * second"] demo_probed_facts(3)
  by simp

lemma demo_recovering: "recovering 1 ''a'' (1100 * second) 2 0 [] demo_evicted"
proof -
  let ?r = "demo_group 1 demo_evicted" and ?m = "demo_member 1 ''a'' demo_evicted"
  have "map_of (w_groups demo_evicted) 1 = Some ?r" "map_of (gr_members ?r) ''a'' = Some ?m"
    "gm_evicted ?m" "rp_Enabled (gr_recovery ?r)" "rp_SuccessThreshold (gr_recovery ?r) = 2"
    "gm_recoverySuccesses ?m = 0" "rp_Cooldown (gr_recovery ?r) \<le> time_sub (1100 * second) (gm_evictedAt ?m)"
    "gm_appliedProbes ?m = []"
    by code_simp+
  then show ?thesis by (simp add: recovering_def)
qed

theorem recovery_streak_witness:
  "(\<exists>m. member_at 1 ''a'' (run_successes 1 ''a'' (1100 * second) [''p1''] demo_evicted) = Some m \<and> gm_evicted m) \<and>
   (\<exists>m. member_at 1 ''a'' (run_successes 1 ''a'' (1100 * second) [''p1'', ''p2''] demo_evicted) = Some m \<and>
      \<not> gm_evicted m \<and> gm_failureHistory m = [] \<and> gm_recoverySuccesses m = 0)"
proof -
  have "(\<forall>j < length [''p1'', ''p2'']. \<exists>m. member_at 1 ''a''
        (run_successes 1 ''a'' (1100 * second) (take j [''p1'', ''p2'']) demo_evicted) = Some m \<and> gm_evicted m) \<and>
     (\<exists>m. member_at 1 ''a'' (run_successes 1 ''a'' (1100 * second) [''p1'', ''p2''] demo_evicted) = Some m \<and>
        \<not> gm_evicted m \<and> gm_failureHistory m = [] \<and> gm_recoverySuccesses m = 0)"
    by (rule recovery_streak [OF demo_ok(2) demo_recovering]) simp_all
  from conjunct1 [OF this, rule_format, of 1] conjunct2 [OF this] show ?thesis by simp
qed

lemma demo_eviction_facts:
  "\<not> gm_evicted (demo_member 1 ''a'' demo_failed_once)"
  "gm_nodeID (demo_member 1 ''a'' demo_failed_once) = 11"
  "fst (RecordFailure 1 ''a'' (Some ''refused'') (1010 * second) (1010 * second) demo_failed_once)"
  "map_of (w_groups demo_failed_once) 2 = Some (demo_group 2 demo_failed_once)"
  "length (filter (\<lambda>(u, m'). gm_nodeID m' = 11) (gr_members (demo_group 2 demo_failed_once))) = 1"
  by code_simp+


text \<open>
  The window of a reload: group 3 still holds node 11 under its old tag and already under its
  new one. The eviction takes one of the two, the other stays on offer, although the node is
  marked as evicted everywhere.
\<close>

definition demo_reloading :: world where
  "demo_reloading = run_op (OpRegister 3 (300 * second) 2 ''old''
     [(''old'', demo_state 11), (''new'', demo_state 11)] None) (1005 * second) demo_failed_once"

definition demo_reloaded :: world where
  "demo_reloaded = snd (RecordFailure 1 ''a'' (Some ''refused'') (1010 * second) (1010 * second) demo_reloading)"

lemma reload_window_tag_stays_live:
  "reaches group_step initial_world demo_reloaded \<and> 11 \<in> w_globalEvicted demo_reloaded \<and>
   gm_evicted (demo_member 3 ''old'' demo_reloaded) \<and>
   gm_nodeID (demo_member 3 ''new'' demo_reloaded) = 11 \<and>
   \<not> gm_evicted (demo_member 3 ''new'' demo_reloaded)"
proof -
  have once: "reaches group_step initial_world demo_failed_once"
    unfolding demo_failed_once_def
    by (rule reaches_failure [OF demo_reachable]) (simp_all add: second_def zero_time_def)
  have "reaches group_step initial_world demo_reloading"
    using reaches_fold [of "[OpRegister 3 (300 * second) 2 ''old''
        [(''old'', demo_state 11), (''new'', demo_state 11)] None]", OF _ _ once, of "1005 * second"]
    by (simp add: demo_reloading_def second_def zero_time_def)
  then have "reaches group_step initial_world demo_reloaded"
    unfolding demo_reloaded_def by (rule reaches_failure) (simp_all add: second_def zero_time_def)
  moreover have "11 \<in> w_globalEvicted demo_reloaded" "gm_evicted (demo_member 3 ''old'' demo_reloaded)"
    "gm_nodeID (demo_member 3 ''new'' demo_reloaded) = 11"
    "\<not> gm_evicted (demo_member 3 ''new'' demo_reloaded)"
    by code_simp+
  ultimately show ?thesis by blast
qed

lemma demo_restore_facts:
  "map_of (w_groups demo_evicted) 2 \<noteq> None"
  "list_ex (\<lambda>(h, r). list_ex (\<lambda>(u, m). gm_nodeID m = 11) (gr_members r)) (w_groups demo_evicted)"
  by code_simp+

theorem restore_clears_every_group_witness:
  "fst (RestoreGroupMember 2 11 demo_evicted) = None \<and>
   11 \<notin> w_globalEvicted (snd (RestoreGroupMember 2 11 demo_evicted))"
proof -
  note * = restore_clears_every_group [OF demo_restore_facts(1), of 11]
  have "\<not> (\<forall>(h, r) \<in> set (w_groups demo_evicted). \<forall>(t, m) \<in> set (gr_members r). gm_nodeID m \<noteq> 11)"
    using demo_restore_facts(2) by (fastforce simp: list_ex_iff)
  with * show ?thesis by auto
qed

lemma demo_observer: "w_observer demo_failed_once"
  by code_simp

theorem failure_events_ordered_witness:
  "ordered_after (w_stateRevision demo_failed_once) (observed_revisions demo_failed_once demo_evicted)
     (w_stateRevision demo_evicted) \<and> length (observed_revisions demo_failed_once demo_evicted) = 2"
proof
  show "ordered_after (w_stateRevision demo_failed_once) (observed_revisions demo_failed_once demo_evicted)
     (w_stateRevision demo_evicted)"
    unfolding demo_evicted_def by (rule failure_events_ordered [OF demo_observer])
  show "length (observed_revisions demo_failed_once demo_evicted) = 2" by code_simp
qed

lemma demo_window_facts:
  "map_of (gr_members (demo_group 1 demo_world)) ''a'' = Some (demo_member 1 ''a'' demo_world)"
  "\<not> gm_evicted (demo_member 1 ''a'' demo_world)"
  "gm_failureHistory (demo_member 1 ''a'' demo_world) = []"
  "gr_window (demo_group 1 demo_world) = 300 * second"
  "gr_threshold (demo_group 1 demo_world) = 2"
  by code_simp+


text \<open>
  Out of order: a failure at second 1010 is reported first (a dial, stamped on the spot), then one
  at second 1005 (a probe, stamped when it was taken), then another one of second 1010. With a
  threshold of three the member is evicted, for failures in two seconds.
\<close>

definition demo_three :: world where
  "demo_three = run_op (OpRegister 4 (300 * second) 3 ''a'' [(''a'', demo_state 11)] None) (1000 * second) demo_world"

definition demo_dialled :: world where
  "demo_dialled = snd (RecordFailure 4 ''a'' None (1010 * second) (1010 * second) demo_three)"

definition demo_dialled_probed :: world where
  "demo_dialled_probed = snd (RecordFailure 4 ''a'' None (1005 * second) (1010 * second) demo_dialled)"

lemma out_of_order_counts_twice:
  "gm_failureHistory (demo_member 4 ''a'' demo_dialled_probed) = [1010, 1005]"
  "fst (RecordFailure 4 ''a'' None (1010 * second) (1010 * second) demo_dialled_probed)"
  by code_simp+

end
