(* ===== verification/Healer.thy ===== *)
theory Healer
  imports Prelude
begin

text \<open>
  The healing planner of \<open>src/internal/group/healer.go\<close> and the coordinator of
  \<open>src/internal/group/healer_coordinator.go\<close>. The planner is a pure function of the policy,
  the candidates and the clock. The coordinator threads its own state (attempts, budgets,
  round-robin cursor) and the state \<open>'b\<close> of the application behind the interface
  \<open>HealingBackend\<close>, which is a record of functions here. Log and error texts that carry no
  decision are constructors of \<open>heal_error\<close>; \<open>errors.Join\<close> is list append.
\<close>

section \<open>Policy\<close>

datatype refill = PromoteStandby | ProbeQuarantined | RefreshSubscription | CapacityAlert | OtherRefill string

datatype heal_error =
    CapacityOutOfRange
  | UnknownRefill refill
  | DuplicateRefill refill
  | RefillOrder
  | NoClock
  | BadCandidate node_id
  | BackendError string
  | Cancelled

record HealPolicy =
  hp_MinHealthy :: int
  hp_TargetSize :: int
  hp_Execute :: bool
  hp_Refill :: "refill list"

definition refill_order :: "refill \<Rightarrow> int" where
  "refill_order a = (case a of PromoteStandby \<Rightarrow> 0 | ProbeQuarantined \<Rightarrow> 1 | RefreshSubscription \<Rightarrow> 2
     | _ \<Rightarrow> -1)"

fun validate_refill :: "refill list \<Rightarrow> int \<Rightarrow> refill list \<Rightarrow> heal_error option" where
  "validate_refill seen previous [] = None"
| "validate_refill seen previous (a # as) =
     (if a \<noteq> PromoteStandby \<and> a \<noteq> ProbeQuarantined \<and> a \<noteq> RefreshSubscription
      then Some (UnknownRefill a)
      else if a \<in> set seen then Some (DuplicateRefill a)
      else if refill_order a < previous then Some RefillOrder
      else validate_refill (a # seen) (refill_order a) as)"

definition Validate :: "HealPolicy \<Rightarrow> heal_error option" where
  "Validate p =
     (if hp_MinHealthy p < 0 \<or> hp_TargetSize p < 0 \<or> hp_MinHealthy p > hp_TargetSize p \<or>
         hp_TargetSize p > 100000
      then Some CapacityOutOfRange
      else validate_refill [] (-1) (hp_Refill p))"

section \<open>Planning\<close>

record HealCandidate =
  hc_NodeID :: node_id
  hc_Active :: bool
  hc_Status :: string
  hc_Available :: bool
  hc_InitialCheckDone :: bool
  hc_Provisional :: bool
  hc_HealthCheckedAt :: gtime
  hc_RecoveryEnabled :: bool
  hc_RecoveryCooldownEnd :: gtime

record HealInput =
  hi_GroupID :: group_id
  hi_Policy :: HealPolicy
  hi_Candidates :: "HealCandidate list"
  hi_SubscriptionIDs :: "int list"
  hi_Now :: gtime
  hi_MaxHealthAge :: duration

datatype heal_reason =
    SelectFresh | RecheckQuarantined | BelowMinimum | HealthyBelow int int
  | CooldownUntil gtime | ProbeBudget | RefreshBudget | Reported string

record HealAction =
  ha_Kind :: refill
  ha_NodeIDs :: "node_id list"
  ha_RemovedIDs :: "node_id list"
  ha_SubscriptionIDs :: "int list"
  ha_Reason :: heal_reason

record HealPlan =
  pl_GroupID :: group_id
  pl_DryRun :: bool
  pl_Healthy :: int
  pl_Projected :: int
  pl_Deficit :: int
  pl_DesiredIDs :: "node_id list"
  pl_StandbyIDs :: "node_id list"
  pl_Actions :: "HealAction list"

definition empty_plan :: "HealInput \<Rightarrow> HealPlan" where
  "empty_plan i = \<lparr>pl_GroupID = hi_GroupID i, pl_DryRun = (\<not> hp_Execute (hi_Policy i)), pl_Healthy = 0,
     pl_Projected = 0, pl_Deficit = 0, pl_DesiredIDs = [], pl_StandbyIDs = [], pl_Actions = []\<rparr>"

definition blank_action :: "refill \<Rightarrow> heal_reason \<Rightarrow> HealAction" where
  "blank_action k why = \<lparr>ha_Kind = k, ha_NodeIDs = [], ha_RemovedIDs = [], ha_SubscriptionIDs = [],
     ha_Reason = why\<rparr>"

definition uniquePositiveIDs :: "int list \<Rightarrow> int list" where
  "uniquePositiveIDs ids = sort_dedup (filter (\<lambda>i. i > 0) ids)"

definition candidate_healthy :: "gtime \<Rightarrow> duration \<Rightarrow> HealCandidate \<Rightarrow> bool" where
  "candidate_healthy now maxAge n \<longleftrightarrow>
     (let age = time_sub now (hc_HealthCheckedAt n)
      in hc_Status n = ''ALIVE'' \<and> hc_Available n \<and> hc_InitialCheckDone n \<and> \<not> hc_Provisional n \<and>
         \<not> is_zero_time (hc_HealthCheckedAt n) \<and> age \<ge> 0 \<and> age \<le> maxAge)"

fun bad_candidate :: "node_id list \<Rightarrow> HealCandidate list \<Rightarrow> node_id option" where
  "bad_candidate seen [] = None"
| "bad_candidate seen (n # ns) =
     (if hc_NodeID n \<le> 0 \<or> hc_NodeID n \<in> set seen then Some (hc_NodeID n)
      else bad_candidate (hc_NodeID n # seen) ns)"

text \<open>\<open>selected\<close> is a Go set; the list keeps its members without duplicates.\<close>

definition selectNode :: "int \<Rightarrow> HealCandidate \<Rightarrow> node_id list \<Rightarrow> node_id list" where
  "selectNode target n selected =
     (if int (length selected) < target \<and> hc_NodeID n \<notin> set selected
      then selected @ [hc_NodeID n] else selected)"

definition select_all :: "int \<Rightarrow> (HealCandidate \<Rightarrow> bool) \<Rightarrow> HealCandidate list \<Rightarrow> node_id list \<Rightarrow> node_id list"
  where
  "select_all target P ns selected =
     fold (\<lambda>n sel. if P n then selectNode target n sel else sel) ns selected"

text \<open>The three selection passes: healthy members, healthy standbys when short, the rest of the members.\<close>

definition plan_selection :: "HealPolicy \<Rightarrow> (HealCandidate \<Rightarrow> bool) \<Rightarrow> HealCandidate list \<Rightarrow> node_id list" where
  "plan_selection p healthy ns =
     (let target = hp_TargetSize p;
          s1 = select_all target (\<lambda>n. hc_Active n \<and> healthy n) ns [];
          short = (int (length s1) < hp_MinHealthy p);
          canPromote = (PromoteStandby \<in> set (hp_Refill p));
          s2 = (if short \<and> canPromote then select_all target (\<lambda>n. \<not> hc_Active n \<and> healthy n) ns s1 else s1)
      in select_all target hc_Active ns s2)"

definition refill_action :: "HealInput \<Rightarrow> HealCandidate list \<Rightarrow> refill \<Rightarrow> HealAction list" where
  "refill_action i ns a = (case a of
     ProbeQuarantined \<Rightarrow>
       (let ids = map hc_NodeID (filter (\<lambda>n. hc_Status n = ''EVICTED'' \<and> hc_RecoveryEnabled n \<and>
                    \<not> hi_Now i < hc_RecoveryCooldownEnd n) ns)
        in if ids \<noteq> [] then [(blank_action a RecheckQuarantined)\<lparr>ha_NodeIDs := ids\<rparr>] else [])
   | RefreshSubscription \<Rightarrow>
       (let ids = uniquePositiveIDs (hi_SubscriptionIDs i)
        in if ids \<noteq> [] then [(blank_action a BelowMinimum)\<lparr>ha_SubscriptionIDs := ids\<rparr>] else [])
   | _ \<Rightarrow> [])"

definition plan_actions :: "HealInput \<Rightarrow> HealCandidate list \<Rightarrow> node_id list \<Rightarrow> int \<Rightarrow> int \<Rightarrow> HealAction list" where
  "plan_actions i ns selected projected deficit =
     (let added = map hc_NodeID (filter (\<lambda>n. hc_NodeID n \<in> set selected \<and> \<not> hc_Active n) ns);
          removed = map hc_NodeID (filter (\<lambda>n. hc_NodeID n \<notin> set selected \<and> hc_Active n) ns)
      in (if added \<noteq> [] \<or> removed \<noteq> []
          then [(blank_action PromoteStandby SelectFresh)\<lparr>ha_NodeIDs := added, ha_RemovedIDs := removed\<rparr>]
          else [])
       @ (if deficit > 0
          then concat (map (refill_action i ns) (hp_Refill (hi_Policy i)))
               @ [blank_action CapacityAlert (HealthyBelow projected (hp_MinHealthy (hi_Policy i)))]
          else []))"

definition PlanHealing :: "HealInput \<Rightarrow> HealPlan \<times> heal_error option" where
  "PlanHealing i =
     (let p = hi_Policy i; plan = empty_plan i
      in case Validate p of Some e \<Rightarrow> (plan, Some e) | None \<Rightarrow>
         if hp_TargetSize p = 0 then (plan, None)
         else if is_zero_time (hi_Now i) \<or> hi_MaxHealthAge i \<le> 0 then (plan, Some NoClock)
         else let ns = sort_key hc_NodeID (hi_Candidates i)
              in case bad_candidate [] ns of Some n \<Rightarrow> (plan, Some (BadCandidate n)) | None \<Rightarrow>
                 let healthy = candidate_healthy (hi_Now i) (hi_MaxHealthAge i);
                     selected = plan_selection p healthy ns;
                     desired = filter (\<lambda>n. hc_NodeID n \<in> set selected) ns;
                     projected = int (length (filter healthy desired));
                     deficit = max 0 (hp_MinHealthy p - projected)
                 in (plan\<lparr>pl_Healthy := int (length (filter (\<lambda>n. hc_Active n \<and> healthy n) ns)),
                          pl_Projected := projected, pl_Deficit := deficit,
                          pl_DesiredIDs := map hc_NodeID desired,
                          pl_StandbyIDs := map hc_NodeID (filter (\<lambda>n. hc_NodeID n \<notin> set selected) ns),
                          pl_Actions := plan_actions i ns selected projected deficit\<rparr>, None))"

text \<open>\<open>previous = None\<close> is Go's nil slice: no selection was ever made.\<close>

definition CapacitySelection :: "int list \<Rightarrow> int list option \<Rightarrow> int \<Rightarrow> int list" where
  "CapacitySelection candidates previous target =
     (let ids = uniquePositiveIDs candidates
      in if target \<le> 0 then ids
         else case previous of
                None \<Rightarrow> take (nat target) ids
              | Some prev \<Rightarrow> fold (\<lambda>i sel. if i \<in> set ids \<and> int (length sel) < target then sel @ [i] else sel)
                              (uniquePositiveIDs prev) [])"

section \<open>Coordinator\<close>

record HealAudit =
  au_GroupID :: group_id
  au_Status :: string
  au_Action :: HealAction
  au_At :: gtime

datatype run_result = RunOK | RunFailed string | RunDeferred string gtime

record 'b HealingBackend =
  hb_now :: "'b \<Rightarrow> gtime"
  hb_ctxErr :: "'b \<Rightarrow> bool"
  hb_Inputs :: "gtime \<Rightarrow> 'b \<Rightarrow> (string + HealInput list) \<times> 'b"
  hb_Input :: "group_id \<Rightarrow> gtime \<Rightarrow> 'b \<Rightarrow> (string + HealInput) \<times> 'b"
  hb_Apply :: "group_id \<Rightarrow> node_id list \<Rightarrow> 'b \<Rightarrow> run_result \<times> 'b"
  hb_Probe :: "group_id \<Rightarrow> node_id \<Rightarrow> 'b \<Rightarrow> run_result \<times> 'b"
  hb_Refresh :: "group_id \<Rightarrow> int \<Rightarrow> 'b \<Rightarrow> run_result \<times> 'b"
  hb_Audit :: "HealAudit \<Rightarrow> 'b \<Rightarrow> string option \<times> 'b"

datatype attempt_key = KeyGroup group_id | KeyProbe node_id | KeySubscription int

record healAttempt =
  at_next :: gtime
  at_failures :: int

record Healer =
  he_attempts :: "(attempt_key \<times> healAttempt) list"
  he_window :: gtime
  he_probes :: int
  he_refreshes :: int
  he_cursor :: nat

definition NewHealer :: Healer where
  "NewHealer = \<lparr>he_attempts = [], he_window = zero_time, he_probes = 0, he_refreshes = 0, he_cursor = 0\<rparr>"

type_synonym errors = "heal_error list"

definition maxTime :: "gtime \<Rightarrow> gtime \<Rightarrow> gtime" where
  "maxTime a b = (if a > b then a else b)"

definition attempt_of :: "attempt_key \<Rightarrow> Healer \<Rightarrow> healAttempt" where
  "attempt_of k h = (case map_of (he_attempts h) k of Some a \<Rightarrow> a
     | None \<Rightarrow> \<lparr>at_next = zero_time, at_failures = 0\<rparr>)"

definition audit :: "'b HealingBackend \<Rightarrow> group_id \<Rightarrow> string \<Rightarrow> HealAction \<Rightarrow> 'b \<Rightarrow> errors \<times> 'b" where
  "audit be g status act b =
     (case hb_Audit be \<lparr>au_GroupID = g, au_Status = status, au_Action = act, au_At = hb_now be b\<rparr> b of
        (None, b') \<Rightarrow> ([], b') | (Some e, b') \<Rightarrow> ([BackendError e], b'))"

text \<open>Why an attempt is put off; a later check overrides an earlier one, as in the code.\<close>

definition defer_reason :: "gtime \<Rightarrow> healAttempt \<Rightarrow> refill \<Rightarrow> Healer \<Rightarrow> heal_reason option" where
  "defer_reason now prev kind h =
     (let r0 = (if now < at_next prev then Some (CooldownUntil (at_next prev)) else None);
          r1 = (if kind = ProbeQuarantined \<and> he_probes h \<ge> 20 then Some ProbeBudget else r0)
      in if kind = RefreshSubscription \<and> he_refreshes h \<ge> 2 then Some RefreshBudget else r1)"

definition spend_budget :: "refill \<Rightarrow> Healer \<Rightarrow> Healer" where
  "spend_budget kind h = h\<lparr>
     he_probes := (if kind = ProbeQuarantined then he_probes h + 1 else he_probes h),
     he_refreshes := (if kind = RefreshSubscription then he_refreshes h + 1 else he_refreshes h)\<rparr>"

definition base_delay :: "refill \<Rightarrow> duration" where
  "base_delay kind = (if kind = PromoteStandby then 10 * second
     else if kind = RefreshSubscription then 5 * minute else minute)"

definition failure_delay :: "refill \<Rightarrow> int \<Rightarrow> duration" where
  "failure_delay kind failures =
     (let d = base_delay kind * 2 ^ nat (min (failures - 1) 4)
      in if kind = RefreshSubscription \<and> failures \<ge> 3 then 30 * minute else d)"

definition next_attempt :: "refill \<Rightarrow> gtime \<Rightarrow> run_result \<Rightarrow> healAttempt \<Rightarrow> healAttempt" where
  "next_attempt kind now res prev = (case res of
     RunDeferred reason until \<Rightarrow> prev\<lparr>at_next := maxTime (now + base_delay kind) until\<rparr>
   | RunFailed e \<Rightarrow>
       (let failures = at_failures prev + 1
        in \<lparr>at_next = now + min (failure_delay kind failures) (30 * minute), at_failures = failures\<rparr>)
   | RunOK \<Rightarrow> \<lparr>at_next = now + base_delay kind, at_failures = 0\<rparr>)"

definition perform :: "'b HealingBackend \<Rightarrow> group_id \<Rightarrow> attempt_key \<Rightarrow> HealAction \<Rightarrow>
    ('b \<Rightarrow> run_result \<times> 'b) \<Rightarrow> Healer \<Rightarrow> 'b \<Rightarrow> errors \<times> Healer \<times> 'b" where
  "perform be g key act run h b =
     (if hb_ctxErr be b then ([Cancelled], h, b)
      else let now = hb_now be b; prev = attempt_of key h
           in case defer_reason now prev (ha_Kind act) h of
                Some why \<Rightarrow> (let (es, b1) = audit be g ''deferred'' (act\<lparr>ha_Reason := why\<rparr>) b in (es, h, b1))
              | None \<Rightarrow>
                  (let (es, b1) = audit be g ''planned'' act b
                   in if es \<noteq> [] then (es, h, b1)
                      else let h1 = spend_budget (ha_Kind act) h;
                               (res, b2) = run b1;
                               now' = hb_now be b2;
                               h2 = h1\<lparr>he_attempts := aput key (next_attempt (ha_Kind act) now' res prev)
                                          (he_attempts h1)\<rparr>;
                               (status, act', errs) = (case res of
                                   RunDeferred reason until \<Rightarrow> (''deferred'', act\<lparr>ha_Reason := Reported reason\<rparr>, [])
                                 | RunFailed e \<Rightarrow> (''failed'', act\<lparr>ha_Reason := Reported e\<rparr>, [BackendError e])
                                 | RunOK \<Rightarrow> (''succeeded'', act, []));
                               (es2, b3) = audit be g status act' b2
                           in (errs @ es2, h2, b3)))"

definition current_plan :: "'b HealingBackend \<Rightarrow> group_id \<Rightarrow> 'b \<Rightarrow>
    (errors + HealInput \<times> HealPlan) \<times> 'b" where
  "current_plan be g b =
     (case hb_Input be g (hb_now be b) b of
        (Inl e, b1) \<Rightarrow> (Inl [BackendError e], b1)
      | (Inr i, b1) \<Rightarrow> (case PlanHealing i of (p, None) \<Rightarrow> (Inr (i, p), b1) | (p, Some e) \<Rightarrow> (Inl [e], b1)))"

text \<open>One action of stage \<open>kind\<close>. \<open>err\<close> is the loop's error variable, which the probe and
  refresh cases extend and the promotion overwrites.\<close>

fun perform_nodes :: "'b HealingBackend \<Rightarrow> group_id \<Rightarrow> HealAction \<Rightarrow> node_id list \<Rightarrow> errors \<Rightarrow> Healer \<Rightarrow> 'b \<Rightarrow>
    errors \<times> Healer \<times> 'b" where
  "perform_nodes be g act [] err h b = (err, h, b)"
| "perform_nodes be g act (n # ns) err h b =
     (let (es, h1, b1) = perform be g (KeyProbe n) (act\<lparr>ha_NodeIDs := [n]\<rparr>) (hb_Probe be g n) h b
      in perform_nodes be g act ns (err @ es) h1 b1)"

fun perform_subscriptions :: "'b HealingBackend \<Rightarrow> group_id \<Rightarrow> HealAction \<Rightarrow> int list \<Rightarrow> errors \<Rightarrow> Healer \<Rightarrow> 'b \<Rightarrow>
    errors \<times> Healer \<times> 'b" where
  "perform_subscriptions be g act [] err h b = (err, h, b)"
| "perform_subscriptions be g act (n # ns) err h b =
     (let (es, h1, b1) = perform be g (KeySubscription n) (act\<lparr>ha_SubscriptionIDs := [n]\<rparr>) (hb_Refresh be g n) h b
      in perform_subscriptions be g act ns (err @ es) h1 b1)"

fun run_actions :: "'b HealingBackend \<Rightarrow> group_id \<Rightarrow> refill \<Rightarrow> node_id list \<Rightarrow> HealAction list \<Rightarrow> errors \<Rightarrow> errors \<Rightarrow>
    Healer \<Rightarrow> 'b \<Rightarrow> errors \<times> Healer \<times> 'b" where
  "run_actions be g kind desired [] err result h b = (result, h, b)"
| "run_actions be g kind desired (act # acts) err result h b =
     (if ha_Kind act \<noteq> kind then run_actions be g kind desired acts err result h b
      else let (err', h1, b1) =
             (if kind = PromoteStandby
              then perform be g (KeyGroup g) act (hb_Apply be g desired) h b
              else if kind = ProbeQuarantined then perform_nodes be g act (ha_NodeIDs act) err h b
              else if kind = RefreshSubscription then perform_subscriptions be g act (ha_SubscriptionIDs act) err h b
              else (err, h, b))
           in run_actions be g kind desired acts err' (result @ err') h1 b1)"

definition without_promotion :: "HealInput \<Rightarrow> HealInput" where
  "without_promotion i = i\<lparr>hi_Policy := (hi_Policy i)\<lparr>hp_Refill :=
     filter (\<lambda>a. a \<noteq> PromoteStandby) (hp_Refill (hi_Policy i))\<rparr>\<rparr>"

text \<open>The stages: \<open>Inl\<close> ends \<open>runGroup\<close> early with what was joined so far.\<close>

fun run_stages :: "'b HealingBackend \<Rightarrow> group_id \<Rightarrow> refill list \<Rightarrow> errors \<Rightarrow> Healer \<Rightarrow> 'b \<Rightarrow>
    (errors + errors) \<times> Healer \<times> 'b" where
  "run_stages be g [] result h b = (Inr result, h, b)"
| "run_stages be g (kind # kinds) result h b =
     (case current_plan be g b of
        (Inl es, b1) \<Rightarrow> (Inl (result @ es), h, b1)
      | (Inr (i, plan), b1) \<Rightarrow>
          if \<not> hp_Execute (hi_Policy i) then (Inl result, h, b1)
          else if kind = ProbeQuarantined \<or> kind = RefreshSubscription
          then (case PlanHealing (without_promotion i) of
                  (_, Some e) \<Rightarrow> (Inl (result @ [e]), h, b1)
                | (observed, None) \<Rightarrow>
                    (let (result', h1, b2) = run_actions be (hi_GroupID i) kind (pl_DesiredIDs observed)
                                               (pl_Actions observed) [] result h b1
                     in run_stages be g kinds result' h1 b2))
          else (let (result', h1, b2) = run_actions be (hi_GroupID i) kind (pl_DesiredIDs plan)
                                          (pl_Actions plan) [] result h b1
                in run_stages be g kinds result' h1 b2))"

fun audit_dry_run :: "'b HealingBackend \<Rightarrow> group_id \<Rightarrow> HealAction list \<Rightarrow> errors \<Rightarrow> 'b \<Rightarrow> errors \<times> 'b" where
  "audit_dry_run be g [] result b = (result, b)"
| "audit_dry_run be g (act # acts) result b =
     (let (es, b1) = audit be g ''dry_run'' act b in audit_dry_run be g acts (result @ es) b1)"

definition runGroup :: "'b HealingBackend \<Rightarrow> HealInput \<Rightarrow> Healer \<Rightarrow> 'b \<Rightarrow> errors \<times> Healer \<times> 'b" where
  "runGroup be initial h b =
     (case PlanHealing initial of
        (_, Some e) \<Rightarrow> ([e], h, b)
      | (plan, None) \<Rightarrow>
          if pl_DryRun plan
          then (let (es, b1) = audit_dry_run be (hi_GroupID initial) (pl_Actions plan) [] b in (es, h, b1))
          else case run_stages be (hi_GroupID initial)
                 [PromoteStandby, ProbeQuarantined, PromoteStandby, RefreshSubscription] [] h b of
                 (Inl es, h1, b1) \<Rightarrow> (es, h1, b1)
               | (Inr result, h1, b1) \<Rightarrow>
                   (case current_plan be (hi_GroupID initial) b1 of
                      (Inl es, b2) \<Rightarrow> (result @ es, h1, b2)
                    | (Inr (i, final), b2) \<Rightarrow>
                        if hp_Execute (hi_Policy i) \<and> pl_Healthy final < hp_MinHealthy (hi_Policy i)
                        then (let (es, b3) = audit be (hi_GroupID i) ''alert'' (blank_action CapacityAlert
                                 (HealthyBelow (pl_Healthy final) (hp_MinHealthy (hi_Policy i)))) b2
                              in (result @ es, h1, b3))
                        else (result, h1, b2)))"

fun run_groups :: "'b HealingBackend \<Rightarrow> HealInput list \<Rightarrow> errors \<Rightarrow> Healer \<Rightarrow> 'b \<Rightarrow>
    (errors + errors) \<times> Healer \<times> 'b" where
  "run_groups be [] result h b = (Inr result, h, b)"
| "run_groups be (i # is) result h b =
     (if hb_ctxErr be b then (Inl (result @ [Cancelled]), h, b)
      else let (es, h1, b1) = runGroup be i h b in run_groups be is (result @ es) h1 b1)"

definition open_window :: "gtime \<Rightarrow> Healer \<Rightarrow> Healer" where
  "open_window now h =
     (let h1 = (if is_zero_time (he_window h) \<or> time_sub now (he_window h) \<ge> minute
                then h\<lparr>he_window := now, he_probes := 0, he_refreshes := 0\<rparr> else h)
      in h1\<lparr>he_attempts := filter (\<lambda>(_, a). \<not> time_sub now (at_next a) > hour) (he_attempts h1)\<rparr>)"

definition Tick :: "'b HealingBackend \<Rightarrow> Healer \<Rightarrow> 'b \<Rightarrow> errors \<times> Healer \<times> 'b" where
  "Tick be h b =
     (let now = hb_now be b; h1 = open_window now h
      in case hb_Inputs be now b of
           (Inl e, b1) \<Rightarrow> ([BackendError e], h1, b1)
         | (Inr inputs, b1) \<Rightarrow>
             let ordered = sort_key hi_GroupID inputs
             in case run_groups be (rotate (he_cursor h1) ordered) [] h1 b1 of
                  (Inl es, h2, b2) \<Rightarrow> (es, h2, b2)
                | (Inr es, h2, b2) \<Rightarrow>
                    (es, (if ordered \<noteq> [] then h2\<lparr>he_cursor := Suc (he_cursor h2) mod length ordered\<rparr> else h2), b2))"

definition HealingActionAllowed :: "HealInput \<Rightarrow> refill \<Rightarrow> bool" where
  "HealingActionAllowed i a \<longleftrightarrow> hp_Execute (hi_Policy i) \<and> hp_TargetSize (hi_Policy i) > 0 \<and>
     a \<in> set (hp_Refill (hi_Policy i))"

end
