(* ===== verification/Healer_Properties.thy ===== *)
theory Healer_Properties
  imports Healer "HOL-Library.Multiset"
begin

text \<open>
  Correctness of the healing planner and of its coordinator: the shape of a plan, that a
  plan neither churns a healthy pool nor leaves spare healthy nodes unused, that applying a
  plan is a fixed point, and the audit, budget and backoff discipline of the coordinator.
\<close>

section \<open>The selection passes\<close>

named_theorems plan_simps \<open>closed forms of the planner's loops\<close>

abbreviation ids_of :: "(HealCandidate \<Rightarrow> bool) \<Rightarrow> HealCandidate list \<Rightarrow> node_id list" where
  "ids_of P ns \<equiv> map hc_NodeID (filter P ns)"

lemma select_all_Nil [simp]: "select_all t P [] sel = sel"
  by (simp add: select_all_def)

lemma select_all_Cons [simp]:
  "select_all t P (n # ns) sel = select_all t P ns (if P n then selectNode t n sel else sel)"
  by (simp add: select_all_def)

lemma take_Suc_diff: "k < t \<Longrightarrow> x # take (t - Suc k) xs = take (t - k) (x # xs)"
  by (metis Suc_diff_Suc take_Suc_Cons)

lemma select_all_eq:
  assumes "distinct (map hc_NodeID ns)" and "length sel \<le> nat t"
  shows "select_all t P ns sel
    = sel @ take (nat t - length sel) (ids_of (\<lambda>n. P n \<and> hc_NodeID n \<notin> set sel) ns)"
  using assms
proof (induction ns arbitrary: sel)
  case (Cons n ns)
  have fresh: "hc_NodeID m \<noteq> hc_NodeID n" if "m \<in> set ns" for m
    using Cons.prems(1) that by (force simp: image_iff)
  have other: "ids_of (\<lambda>m. P m \<and> hc_NodeID m \<notin> set (sel @ [hc_NodeID n])) ns
      = ids_of (\<lambda>m. P m \<and> hc_NodeID m \<notin> set sel) ns"
    by (intro arg_cong [where f = "map hc_NodeID"] filter_cong) (auto dest: fresh)
  show ?case
  proof (cases "P n \<and> hc_NodeID n \<notin> set sel \<and> length sel < nat t")
    case True
    then have "int (length sel) < t" by linarith
    then have "select_all t P (n # ns) sel = select_all t P ns (sel @ [hc_NodeID n])"
      using True by (simp add: selectNode_def)
    also have "\<dots> = (sel @ [hc_NodeID n]) @ take (nat t - Suc (length sel))
        (ids_of (\<lambda>m. P m \<and> hc_NodeID m \<notin> set sel) ns)"
      using Cons.IH [of "sel @ [hc_NodeID n]"] Cons.prems True other by simp
    finally show ?thesis
      using True by (simp add: take_Suc_diff)
  next
    case False
    then have same: "select_all t P (n # ns) sel = select_all t P ns sel"
      using Cons.prems(2) unfolding select_all_Cons selectNode_def by (auto simp: nat_le_iff zless_nat_eq_int_zless)
    show ?thesis
    proof (cases "length sel < nat t")
      case True
      with False same Cons.IH [of sel] Cons.prems show ?thesis by auto
    next
      case False
      with same Cons.IH [of sel] Cons.prems show ?thesis by simp
    qed
  qed
qed simp

definition selection_ok :: "HealCandidate list \<Rightarrow> int \<Rightarrow> node_id list \<Rightarrow> bool" where
  "selection_ok ns t sel \<longleftrightarrow> distinct sel \<and> set sel \<subseteq> hc_NodeID ` set ns \<and> length sel \<le> nat t"

lemma distinct_ids_of: "distinct (map hc_NodeID ns) \<Longrightarrow> distinct (ids_of P ns)"
  by (simp add: distinct_map_filter)

lemma select_all_ok:
  assumes d: "distinct (map hc_NodeID ns)" and s: "selection_ok ns t sel"
  shows "selection_ok ns t (select_all t P ns sel)"
proof -
  define new where "new = take (nat t - length sel) (ids_of (\<lambda>n. P n \<and> hc_NodeID n \<notin> set sel) ns)"
  have "distinct new"
    unfolding new_def using d by (simp add: distinct_ids_of)
  moreover have "set new \<subseteq> hc_NodeID ` set ns - set sel"
    unfolding new_def by (rule order_trans [OF set_take_subset]) auto
  moreover have "select_all t P ns sel = sel @ new" and "length new \<le> nat t - length sel"
    unfolding new_def using s select_all_eq [OF d, of sel t P] by (auto simp: selection_ok_def)
  ultimately show ?thesis
    using s unfolding selection_ok_def by auto
qed

lemma select_all_mono: "set sel \<subseteq> set (select_all t P ns sel)"
  by (induction ns arbitrary: sel) (force simp: selectNode_def)+

lemma plan_selection_ok:
  assumes "distinct (map hc_NodeID ns)"
  shows "selection_ok ns (hp_TargetSize p) (plan_selection p healthy ns)"
proof -
  have "selection_ok ns (hp_TargetSize p) []" by (simp add: selection_ok_def)
  then show ?thesis
    unfolding plan_selection_def Let_def by (auto intro: select_all_ok assms)
qed

section \<open>Closed form of a plan\<close>

lemma bad_candidate_None:
  "bad_candidate seen ns = None \<longleftrightarrow>
     (\<forall>n \<in> set ns. hc_NodeID n > 0 \<and> hc_NodeID n \<notin> set seen) \<and> distinct (map hc_NodeID ns)"
  by (induction seen ns rule: bad_candidate.induct) (auto simp: not_le image_iff)

definition sorted_candidates :: "HealInput \<Rightarrow> HealCandidate list" where
  "sorted_candidates i = sort_key hc_NodeID (hi_Candidates i)"

abbreviation input_healthy :: "HealInput \<Rightarrow> HealCandidate \<Rightarrow> bool" where
  "input_healthy i \<equiv> candidate_healthy (hi_Now i) (hi_MaxHealthAge i)"

definition input_selected :: "HealInput \<Rightarrow> node_id list" where
  "input_selected i = plan_selection (hi_Policy i) (input_healthy i) (sorted_candidates i)"

definition managed :: "HealInput \<Rightarrow> bool" where
  "managed i \<longleftrightarrow> Validate (hi_Policy i) = None \<and> hp_TargetSize (hi_Policy i) \<noteq> 0 \<and>
     \<not> is_zero_time (hi_Now i) \<and> hi_MaxHealthAge i > 0 \<and>
     (\<forall>n \<in> set (hi_Candidates i). hc_NodeID n > 0) \<and> distinct (map hc_NodeID (hi_Candidates i))"

lemma sorted_candidates_simps [simp]:
  "set (sorted_candidates i) = set (hi_Candidates i)"
  "distinct (map hc_NodeID (sorted_candidates i)) \<longleftrightarrow> distinct (map hc_NodeID (hi_Candidates i))"
proof -
  show "set (sorted_candidates i) = set (hi_Candidates i)"
    by (simp add: sorted_candidates_def)
  have "mset (map hc_NodeID (sorted_candidates i)) = mset (map hc_NodeID (hi_Candidates i))"
    by (simp add: sorted_candidates_def)
  then show "distinct (map hc_NodeID (sorted_candidates i)) \<longleftrightarrow> distinct (map hc_NodeID (hi_Candidates i))"
    by (rule mset_eq_imp_distinct_iff)
qed

lemma PlanHealing_managed:
  assumes "managed i"
  obtains p where "PlanHealing i = (p, None)"
    and "pl_DesiredIDs p = ids_of (\<lambda>n. hc_NodeID n \<in> set (input_selected i)) (sorted_candidates i)"
    and "pl_StandbyIDs p = ids_of (\<lambda>n. hc_NodeID n \<notin> set (input_selected i)) (sorted_candidates i)"
    and "pl_Healthy p = int (length (filter (\<lambda>n. hc_Active n \<and> input_healthy i n) (sorted_candidates i)))"
    and "pl_Projected p = int (length (filter (\<lambda>n. hc_NodeID n \<in> set (input_selected i) \<and> input_healthy i n)
           (sorted_candidates i)))"
    and "pl_Deficit p = max 0 (hp_MinHealthy (hi_Policy i) - pl_Projected p)"
    and "pl_Actions p = plan_actions i (sorted_candidates i) (input_selected i) (pl_Projected p) (pl_Deficit p)"
proof -
  have "bad_candidate [] (sorted_candidates i) = None"
    using assms by (simp add: bad_candidate_None managed_def)
  then show ?thesis
    using assms unfolding managed_def
    by (intro that [of "fst (PlanHealing i)"])
       (simp_all add: PlanHealing_def Let_def sorted_candidates_def input_selected_def conj_commute)
qed

lemma PlanHealing_cases:
  assumes "PlanHealing i = (p, None)"
  shows "managed i \<or> hp_TargetSize (hi_Policy i) = 0 \<and> p = empty_plan i"
proof (cases "hp_TargetSize (hi_Policy i) = 0")
  case False
  with assms have "Validate (hi_Policy i) = None" "\<not> is_zero_time (hi_Now i)" "hi_MaxHealthAge i > 0"
    and "bad_candidate [] (sorted_candidates i) = None"
    by (auto simp: PlanHealing_def Let_def sorted_candidates_def split: option.splits if_splits)
  with False show ?thesis by (auto simp: bad_candidate_None managed_def)
qed (use assms in \<open>auto simp: PlanHealing_def Let_def split: option.splits\<close>)

section \<open>Healthy slots\<close>

text \<open>The slots the first two passes fill; the third pass only adds unhealthy members.\<close>

definition healthy_slots :: "HealPolicy \<Rightarrow> (HealCandidate \<Rightarrow> bool) \<Rightarrow> HealCandidate list \<Rightarrow> node_id list" where
  "healthy_slots p healthy ns =
     (let a = ids_of (\<lambda>n. hc_Active n \<and> healthy n) ns;
          s = ids_of (\<lambda>n. \<not> hc_Active n \<and> healthy n) ns
      in take (nat (hp_TargetSize p))
           (a @ (if int (length a) < hp_MinHealthy p \<and> PromoteStandby \<in> set (hp_Refill p) then s else [])))"

definition capacity_ok :: "HealPolicy \<Rightarrow> bool" where
  "capacity_ok p \<longleftrightarrow> 0 \<le> hp_MinHealthy p \<and> hp_MinHealthy p \<le> hp_TargetSize p"

lemma Validate_capacity: "Validate p = None \<Longrightarrow> capacity_ok p"
  by (auto simp: Validate_def capacity_ok_def split: if_splits)

lemma ids_of_disjoint:
  assumes "distinct (map hc_NodeID ns)" and "\<And>n. P n \<Longrightarrow> \<not> Q n" and "m \<in> set ns" and "P m"
  shows "hc_NodeID m \<notin> set (ids_of Q ns)"
  using assms by (auto simp: distinct_map inj_on_def)

lemma ids_of_iff:
  assumes "distinct (map hc_NodeID ns)" and "m \<in> set ns"
  shows "hc_NodeID m \<in> set (ids_of P ns) \<longleftrightarrow> P m"
  using assms by (auto simp: distinct_map inj_on_def)

lemma plan_selection_eq:
  assumes d: "distinct (map hc_NodeID ns)" and c: "capacity_ok p"
  shows "plan_selection p healthy ns = healthy_slots p healthy ns @
    take (nat (hp_TargetSize p) - length (healthy_slots p healthy ns))
      (ids_of (\<lambda>n. hc_Active n \<and> hc_NodeID n \<notin> set (healthy_slots p healthy ns)) ns)"
proof -
  define t where "t = hp_TargetSize p"
  define a where "a = ids_of (\<lambda>n. hc_Active n \<and> healthy n) ns"
  define s where "s = ids_of (\<lambda>n. \<not> hc_Active n \<and> healthy n) ns"
  have s1: "select_all t (\<lambda>n. hc_Active n \<and> healthy n) ns [] = take (nat t) a"
    by (simp add: select_all_eq [OF d] a_def)
  have short: "int (length (take (nat t) a)) < hp_MinHealthy p \<longleftrightarrow> int (length a) < hp_MinHealthy p"
    using c by (auto simp: capacity_ok_def t_def)
  have s2: "select_all t (\<lambda>n. \<not> hc_Active n \<and> healthy n) ns (take (nat t) a) = take (nat t) (a @ s)"
  proof -
    have "hc_NodeID n \<notin> set (take (nat t) a)" if "n \<in> set ns" "\<not> hc_Active n" for n
      using ids_of_iff [OF d that(1), of "\<lambda>n. hc_Active n \<and> healthy n"] that(2)
      unfolding a_def [symmetric] by (auto dest: in_set_takeD)
    then have "ids_of (\<lambda>n. (\<not> hc_Active n \<and> healthy n) \<and> hc_NodeID n \<notin> set (take (nat t) a)) ns = s"
      unfolding s_def by (intro arg_cong [where f = "map hc_NodeID"] filter_cong) auto
    moreover have "length (take (nat t) a) \<le> nat t" by simp
    ultimately have "select_all t (\<lambda>n. \<not> hc_Active n \<and> healthy n) ns (take (nat t) a)
        = take (nat t) a @ take (nat t - length (take (nat t) a)) s"
      by (simp only: select_all_eq [OF d])
    then show ?thesis by (simp add: min_def split: if_splits)
  qed
  have slots: "plan_selection p healthy ns = select_all t hc_Active ns (healthy_slots p healthy ns)"
    unfolding plan_selection_def healthy_slots_def Let_def t_def [symmetric] a_def [symmetric]
      s_def [symmetric] s1 short by (simp add: s2)
  have "length (healthy_slots p healthy ns) \<le> nat t"
    by (simp add: healthy_slots_def Let_def t_def)
  then show ?thesis
    unfolding slots using select_all_eq [OF d] by (simp add: t_def)
qed

lemma healthy_slots_distinct:
  assumes d: "distinct (map hc_NodeID ns)"
  shows "distinct (healthy_slots p healthy ns)"
    and "x \<in> set (healthy_slots p healthy ns) \<Longrightarrow> x \<in> set (ids_of healthy ns)"
proof -
  have "set (ids_of (\<lambda>n. hc_Active n \<and> healthy n) ns) \<inter> set (ids_of (\<lambda>n. \<not> hc_Active n \<and> healthy n) ns) = {}"
    using d by (auto simp: distinct_map inj_on_def)
  then show "distinct (healthy_slots p healthy ns)"
    unfolding healthy_slots_def Let_def
    by (intro distinct_take) (simp only: distinct_append distinct_ids_of [OF d] split: if_split, simp)
  show "x \<in> set (ids_of healthy ns)" if "x \<in> set (healthy_slots p healthy ns)"
    using that by (auto simp: healthy_slots_def Let_def dest!: in_set_takeD split: if_splits)
qed

lemma selected_healthy_iff:
  assumes d: "distinct (map hc_NodeID ns)" and c: "capacity_ok p" and n: "n \<in> set ns"
  shows "hc_NodeID n \<in> set (plan_selection p healthy ns) \<and> healthy n \<longleftrightarrow>
    hc_NodeID n \<in> set (healthy_slots p healthy ns)" (is "?lhs \<longleftrightarrow> ?rhs")
proof
  define slots where "slots = healthy_slots p healthy ns"
  define t where "t = nat (hp_TargetSize p)"
  assume l: ?lhs
  show ?rhs
  proof (rule ccontr)
    assume no: "\<not> ?rhs"
    have extra: "hc_NodeID n \<in> set (take (t - length slots) (ids_of (\<lambda>n. hc_Active n \<and> hc_NodeID n \<notin> set slots) ns))"
      using l no unfolding plan_selection_eq [OF d c] slots_def t_def by simp
    have "hc_Active n"
      using in_set_takeD [OF extra] ids_of_iff [OF d n, of "\<lambda>n. hc_Active n \<and> hc_NodeID n \<notin> set slots"] by simp
    then have a: "hc_NodeID n \<in> set (ids_of (\<lambda>n. hc_Active n \<and> healthy n) ns)"
      using l n by auto
    have room: "length slots < t"
      using extra by (cases "length slots < t") auto
    have "hc_NodeID n \<in> set slots"
      using a room unfolding slots_def healthy_slots_def Let_def t_def [symmetric]
      by (auto split: if_splits)
    with no show False by (simp add: slots_def)
  qed
next
  assume r: ?rhs
  then have "hc_NodeID n \<in> set (ids_of healthy ns)"
    by (rule healthy_slots_distinct [OF d])
  with r show ?lhs
    unfolding plan_selection_eq [OF d c] using ids_of_iff [OF d n] by simp
qed

lemma length_filter_ids:
  fixes ns :: "HealCandidate list"
  assumes d: "distinct (map hc_NodeID ns)" and s: "distinct sel" and sub: "set sel \<subseteq> hc_NodeID ` set ns"
    and P: "\<And>n. n \<in> set ns \<Longrightarrow> P n \<longleftrightarrow> hc_NodeID n \<in> set sel"
  shows "length (filter P ns) = length sel"
proof -
  have "set (ids_of P ns) = set sel" using P sub by auto
  then have "length (ids_of P ns) = length sel"
    using distinct_ids_of [OF d] s by (metis distinct_card)
  then show ?thesis by simp
qed

lemma projected_eq:
  assumes d: "distinct (map hc_NodeID ns)" and c: "capacity_ok p"
  shows "length (filter (\<lambda>n. hc_NodeID n \<in> set (plan_selection p healthy ns) \<and> healthy n) ns)
    = length (healthy_slots p healthy ns)"
proof (rule length_filter_ids [OF d])
  show "distinct (healthy_slots p healthy ns)"
    by (rule healthy_slots_distinct [OF d])
  show "set (healthy_slots p healthy ns) \<subseteq> hc_NodeID ` set ns"
    by (rule subsetI) (drule healthy_slots_distinct(2) [OF d], auto)
qed (rule selected_healthy_iff [OF d c])

lemma managedD:
  assumes "managed i"
  shows "distinct (map hc_NodeID (sorted_candidates i))" and "capacity_ok (hi_Policy i)"
    and "hp_TargetSize (hi_Policy i) > 0"
  using assms Validate_capacity [of "hi_Policy i"] by (auto simp: managed_def capacity_ok_def)

section \<open>Shape of a plan\<close>

lemma sorted_ids_of: "sorted (map hc_NodeID ns) \<Longrightarrow> sorted (ids_of P ns)"
  by (induction ns) auto

lemma set_desired:
  assumes "managed i" and "PlanHealing i = (p, None)"
  shows "set (pl_DesiredIDs p) = set (input_selected i)"
    and "length (pl_DesiredIDs p) = length (input_selected i)"
    and "distinct (pl_DesiredIDs p)"
proof -
  note d = managedD(1) [OF assms(1)]
  have ok: "selection_ok (sorted_candidates i) (hp_TargetSize (hi_Policy i)) (input_selected i)"
    unfolding input_selected_def by (rule plan_selection_ok [OF d])
  have des: "pl_DesiredIDs p = ids_of (\<lambda>n. hc_NodeID n \<in> set (input_selected i)) (sorted_candidates i)"
    using PlanHealing_managed [OF assms(1)] assms(2) by (metis fst_conv)
  show "set (pl_DesiredIDs p) = set (input_selected i)"
    using ok unfolding des selection_ok_def by auto
  show "distinct (pl_DesiredIDs p)"
    unfolding des by (rule distinct_ids_of [OF d])
  then show "length (pl_DesiredIDs p) = length (input_selected i)"
    using ok \<open>set (pl_DesiredIDs p) = set (input_selected i)\<close> unfolding selection_ok_def
    by (metis distinct_card)
qed

text \<open>C8: whenever planning succeeds on a managed group, the desired members are distinct
  candidates in ascending order, never more than the target size, and the desired and the standby
  members partition the candidates.\<close>

theorem plan_within_capacity:
  assumes "PlanHealing i = (p, None)" and "hp_TargetSize (hi_Policy i) \<noteq> 0"
  shows "sorted (pl_DesiredIDs p) \<and> distinct (pl_DesiredIDs p) \<and>
    int (length (pl_DesiredIDs p)) \<le> hp_TargetSize (hi_Policy i) \<and>
    set (pl_DesiredIDs p) \<union> set (pl_StandbyIDs p) = hc_NodeID ` set (hi_Candidates i) \<and>
    set (pl_DesiredIDs p) \<inter> set (pl_StandbyIDs p) = {}"
proof -
  have m: "managed i" using PlanHealing_cases [OF assms(1)] assms(2) by blast
  note d = managedD [OF m]
  have ok: "selection_ok (sorted_candidates i) (hp_TargetSize (hi_Policy i)) (input_selected i)"
    unfolding input_selected_def by (rule plan_selection_ok [OF d(1)])
  have des: "pl_DesiredIDs p = ids_of (\<lambda>n. hc_NodeID n \<in> set (input_selected i)) (sorted_candidates i)"
    and st: "pl_StandbyIDs p = ids_of (\<lambda>n. hc_NodeID n \<notin> set (input_selected i)) (sorted_candidates i)"
    using PlanHealing_managed [OF m] assms(1) by (metis fst_conv)+
  have "sorted (pl_DesiredIDs p)"
    unfolding des by (rule sorted_ids_of) (simp add: sorted_candidates_def)
  moreover have "int (length (pl_DesiredIDs p)) \<le> hp_TargetSize (hi_Policy i)"
    using ok d(3) set_desired(2) [OF m assms(1)] unfolding selection_ok_def by (simp add: le_nat_iff)
  ultimately show ?thesis
    using set_desired(3) [OF m assms(1)] by (auto simp: des st)
qed

section \<open>Optimality, no churn and convergence\<close>

text \<open>The plan of a managed group, in closed form over \<open>healthy_slots\<close>.\<close>

abbreviation input_slots :: "HealInput \<Rightarrow> node_id list" where
  "input_slots i \<equiv> healthy_slots (hi_Policy i) (input_healthy i) (sorted_candidates i)"

lemma plan_fields:
  assumes m: "managed i" and p: "PlanHealing i = (p, None)"
  shows "pl_DesiredIDs p = ids_of (\<lambda>n. hc_NodeID n \<in> set (input_selected i)) (sorted_candidates i)"
    and "pl_Projected p = int (length (input_slots i))"
    and "pl_Healthy p = int (length (ids_of (\<lambda>n. hc_Active n \<and> input_healthy i n) (sorted_candidates i)))"
    and "pl_Deficit p = max 0 (hp_MinHealthy (hi_Policy i) - pl_Projected p)"
    and "pl_Actions p = plan_actions i (sorted_candidates i) (input_selected i) (pl_Projected p) (pl_Deficit p)"
proof -
  have "pl_Projected p = int (length (filter (\<lambda>n. hc_NodeID n \<in> set (input_selected i) \<and> input_healthy i n)
      (sorted_candidates i)))"
    using PlanHealing_managed [OF m] p by (metis fst_conv)
  then show "pl_Projected p = int (length (input_slots i))"
    unfolding input_selected_def projected_eq [OF managedD(1,2) [OF m]] .
  show "pl_Healthy p = int (length (ids_of (\<lambda>n. hc_Active n \<and> input_healthy i n) (sorted_candidates i)))"
    using PlanHealing_managed [OF m] p by (metis fst_conv length_map)
qed (use PlanHealing_managed [OF m] p in \<open>metis fst_conv\<close>)+

text \<open>Candidates that count as healthy now, whether or not they are members.\<close>

definition healthy_candidates :: "HealInput \<Rightarrow> nat" where
  "healthy_candidates i = length (filter (input_healthy i) (hi_Candidates i))"

lemma healthy_candidates_split:
  "healthy_candidates i = length (ids_of (\<lambda>n. hc_Active n \<and> input_healthy i n) (sorted_candidates i))
     + length (ids_of (\<lambda>n. \<not> hc_Active n \<and> input_healthy i n) (sorted_candidates i))"
proof -
  have "size (filter_mset (input_healthy i) (mset (hi_Candidates i)))
      = size (filter_mset (input_healthy i) (mset (sorted_candidates i)))"
    by (simp add: sorted_candidates_def)
  then have "healthy_candidates i = length (filter (input_healthy i) (sorted_candidates i))"
    by (simp add: healthy_candidates_def flip: mset_filter)
  also have "\<dots> = length (filter hc_Active (filter (input_healthy i) (sorted_candidates i)))
      + length (filter (\<lambda>n. \<not> hc_Active n) (filter (input_healthy i) (sorted_candidates i)))"
    by (rule sum_length_filter_compl [symmetric])
  finally show ?thesis by (simp add: conj_commute)
qed

text \<open>The planner wastes no healthy node. With promotion allowed, a plan reports a deficit
  exactly when the healthy candidates, members and standbys together, are fewer than the
  required minimum; without promotion, exactly when the healthy members are.\<close>

theorem plan_deficit_exact:
  assumes "PlanHealing i = (p, None)" and "hp_TargetSize (hi_Policy i) \<noteq> 0"
  shows "pl_Deficit p > 0 \<longleftrightarrow>
    (if PromoteStandby \<in> set (hp_Refill (hi_Policy i)) then int (healthy_candidates i) else pl_Healthy p)
      < hp_MinHealthy (hi_Policy i)"
proof -
  have m: "managed i" using PlanHealing_cases [OF assms(1)] assms(2) by blast
  note f = plan_fields [OF m assms(1)] and d = managedD [OF m]
  define a where "a = ids_of (\<lambda>n. hc_Active n \<and> input_healthy i n) (sorted_candidates i)"
  define s where "s = ids_of (\<lambda>n. \<not> hc_Active n \<and> input_healthy i n) (sorted_candidates i)"
  have "pl_Deficit p > 0 \<longleftrightarrow> int (length (input_slots i)) < hp_MinHealthy (hi_Policy i)"
    unfolding f(2,4) by linarith
  also have "\<dots> \<longleftrightarrow> int (length a + (if int (length a) < hp_MinHealthy (hi_Policy i) \<and>
      PromoteStandby \<in> set (hp_Refill (hi_Policy i)) then length s else 0)) < hp_MinHealthy (hi_Policy i)"
    unfolding healthy_slots_def Let_def a_def [symmetric] s_def [symmetric]
    using d(2,3) by (simp add: capacity_ok_def min_less_iff_disj nat_less_iff zless_nat_eq_int_zless) linarith
  finally show ?thesis
    unfolding healthy_candidates_split f(3) a_def [symmetric] s_def [symmetric] by auto
qed

lemma slots_of_members:
  assumes "\<not> length (ids_of (\<lambda>n. hc_Active n \<and> healthy n) ns) < nat (hp_MinHealthy p)"
  shows "healthy_slots p healthy ns = take (nat (hp_TargetSize p)) (ids_of (\<lambda>n. hc_Active n \<and> healthy n) ns)"
  using assms unfolding healthy_slots_def Let_def by (auto simp: zless_nat_eq_int_zless)

lemma slots_miss_member:
  assumes n: "n \<in> set ns" "hc_Active n" "healthy n" and out: "hc_NodeID n \<notin> set (healthy_slots p healthy ns)"
  shows "healthy_slots p healthy ns = take (nat (hp_TargetSize p)) (ids_of (\<lambda>n. hc_Active n \<and> healthy n) ns)"
    and "length (healthy_slots p healthy ns) = nat (hp_TargetSize p)"
proof -
  define a where "a = ids_of (\<lambda>n. hc_Active n \<and> healthy n) ns"
  have "hc_NodeID n \<in> set a" using n by (auto simp: a_def)
  then have long: "\<not> length a \<le> nat (hp_TargetSize p)"
    using out unfolding healthy_slots_def Let_def a_def [symmetric] by auto
  then show "healthy_slots p healthy ns = take (nat (hp_TargetSize p)) (ids_of (\<lambda>n. hc_Active n \<and> healthy n) ns)"
    and "length (healthy_slots p healthy ns) = nat (hp_TargetSize p)"
    unfolding healthy_slots_def Let_def a_def [symmetric] by auto
qed

text \<open>C10: a sufficiently healthy pool is not churned. When the healthy members reach the
  minimum, no new node enters the selection; and a healthy member loses its slot only when the
  target is filled entirely with other healthy members.\<close>

theorem plan_no_churn:
  assumes "PlanHealing i = (p, None)" and "hp_TargetSize (hi_Policy i) \<noteq> 0"
  shows "(pl_Healthy p \<ge> hp_MinHealthy (hi_Policy i) \<longrightarrow>
      (\<forall>n \<in> set (hi_Candidates i). hc_NodeID n \<in> set (pl_DesiredIDs p) \<longrightarrow> hc_Active n)) \<and>
    (\<forall>n \<in> set (hi_Candidates i). hc_Active n \<longrightarrow> input_healthy i n \<longrightarrow> hc_NodeID n \<notin> set (pl_DesiredIDs p) \<longrightarrow>
      int (length (pl_DesiredIDs p)) = hp_TargetSize (hi_Policy i) \<and>
      (\<forall>m \<in> set (hi_Candidates i). hc_NodeID m \<in> set (pl_DesiredIDs p) \<longrightarrow> hc_Active m \<and> input_healthy i m))"
proof -
  define ns where "ns = sorted_candidates i"
  have set_ns: "set ns = set (hi_Candidates i)" by (simp add: ns_def)
  define T where "T = nat (hp_TargetSize (hi_Policy i))"
  define a where "a = ids_of (\<lambda>n. hc_Active n \<and> input_healthy i n) ns"
  have m: "managed i" using PlanHealing_cases [OF assms(1)] assms(2) by blast
  note d = managedD [OF m, folded ns_def] and f = plan_fields [OF m assms(1), folded ns_def]
    and des = set_desired [OF m assms(1)]
  have sel: "input_selected i = input_slots i @ take (T - length (input_slots i))
      (ids_of (\<lambda>n. hc_Active n \<and> hc_NodeID n \<notin> set (input_slots i)) ns)"
    unfolding input_selected_def T_def ns_def [symmetric] by (rule plan_selection_eq [OF d(1,2)])
  have memb: "hc_Active n \<and> input_healthy i n" if "n \<in> set ns" "hc_NodeID n \<in> set (take k a)" for n k
    using in_set_takeD [OF that(2)] ids_of_iff [OF d(1) that(1)] by (simp add: a_def)
  have other: "hc_Active n" if "n \<in> set ns" "hc_NodeID n \<in> set (take k (ids_of (\<lambda>n. hc_Active n \<and> Q n) ns))" for n k Q
    using in_set_takeD [OF that(2)] ids_of_iff [OF d(1) that(1), of "\<lambda>n. hc_Active n \<and> Q n"] by simp
  have "hc_Active n" if enough: "pl_Healthy p \<ge> hp_MinHealthy (hi_Policy i)" and n: "n \<in> set ns"
    and in_d: "hc_NodeID n \<in> set (pl_DesiredIDs p)" for n
  proof -
    have "input_slots i = take T a"
      using slots_of_members [of "input_healthy i" ns "hi_Policy i"] enough
      unfolding f(3) T_def a_def ns_def [symmetric] by (auto simp: not_less)
    then consider "hc_NodeID n \<in> set (take T a)"
      | "hc_NodeID n \<in> set (take (T - length (take T a)) (ids_of (\<lambda>n. hc_Active n \<and> hc_NodeID n \<notin> set (take T a)) ns))"
      using in_d unfolding des(1) sel by (metis Un_iff set_append)
    then show ?thesis
      by cases (use memb [OF n] in blast, rule other [OF n])
  qed
  moreover have "int (length (pl_DesiredIDs p)) = hp_TargetSize (hi_Policy i) \<and>
      (\<forall>m \<in> set (hi_Candidates i). hc_NodeID m \<in> set (pl_DesiredIDs p) \<longrightarrow> hc_Active m \<and> input_healthy i m)"
    if n: "n \<in> set ns" "hc_Active n" "input_healthy i n" and out: "hc_NodeID n \<notin> set (pl_DesiredIDs p)" for n
  proof -
    have "hc_NodeID n \<notin> set (input_slots i)" using out unfolding des(1) sel by simp
    note full = slots_miss_member [OF n this [folded ns_def], folded T_def, folded a_def, unfolded ns_def]
    have sel': "input_selected i = take T a" unfolding sel full(2) by (simp add: full(1))
    have "length (take T a) = T" using full by metis
    then have "int (length (pl_DesiredIDs p)) = hp_TargetSize (hi_Policy i)"
      unfolding des sel' using d(3) by (simp only: T_def)
    moreover have "\<forall>m \<in> set (hi_Candidates i). hc_NodeID m \<in> set (pl_DesiredIDs p) \<longrightarrow> hc_Active m \<and> input_healthy i m"
      unfolding des(1) sel' set_ns [symmetric] by (intro ballI impI) (rule memb)
    ultimately show ?thesis by (rule conjI)
  qed
  ultimately show ?thesis
    unfolding set_ns by (metis (no_types, lifting))
qed

text \<open>What publishing a selection does to the evidence of the next cycle: membership changes, health does not.\<close>

definition apply_selection :: "node_id list \<Rightarrow> HealInput \<Rightarrow> HealInput" where
  "apply_selection sel i = i\<lparr>hi_Candidates :=
     map (\<lambda>n. n\<lparr>hc_Active := (hc_NodeID n \<in> set sel)\<rparr>) (hi_Candidates i)\<rparr>"

lemma sort_key_map: "(\<And>x. f (g x) = f x) \<Longrightarrow> sort_key f (map g xs) = map g (sort_key f xs)"
proof (induction xs)
  case (Cons x xs)
  have "insort_key f (g x) (map g ys) = map g (insort_key f x ys)" for ys
    by (induction ys) (auto simp: Cons.prems)
  with Cons show ?case by simp
qed simp

lemma apply_selection_simps [simp]:
  "hi_Policy (apply_selection sel i) = hi_Policy i"
  "hi_Now (apply_selection sel i) = hi_Now i"
  "hi_MaxHealthAge (apply_selection sel i) = hi_MaxHealthAge i"
  "sorted_candidates (apply_selection sel i)
     = map (\<lambda>n. n\<lparr>hc_Active := (hc_NodeID n \<in> set sel)\<rparr>) (sorted_candidates i)"
  by (simp_all add: apply_selection_def sorted_candidates_def sort_key_map)

lemma candidate_healthy_active [simp]: "candidate_healthy t a (n\<lparr>hc_Active := b\<rparr>) = candidate_healthy t a n"
  by (simp add: candidate_healthy_def)

lemma managed_apply_selection: "managed i \<Longrightarrow> managed (apply_selection sel i)"
  by (auto simp: managed_def apply_selection_def o_def)

text \<open>A selection, once the membership, selects itself.\<close>

lemma slots_fixed:
  assumes d: "distinct (map hc_NodeID ns)" and c: "capacity_ok p"
    and ns': "ns' = map (\<lambda>n. n\<lparr>hc_Active := (hc_NodeID n \<in> set (plan_selection p healthy ns))\<rparr>) ns"
    and h: "\<And>n b. healthy (n\<lparr>hc_Active := b\<rparr>) = healthy n"
  shows "healthy_slots p healthy ns' = ids_of (\<lambda>n. hc_NodeID n \<in> set (healthy_slots p healthy ns)) ns"
    and "length (healthy_slots p healthy ns') = length (healthy_slots p healthy ns)"
proof -
  define sl where "sl = healthy_slots p healthy ns"
  define T where "T = nat (hp_TargetSize p)"
  have a': "ids_of (\<lambda>n. hc_Active n \<and> healthy n) ns' = ids_of (\<lambda>n. hc_NodeID n \<in> set sl) ns"
    unfolding ns' filter_map map_map o_def h sl_def
    by (intro map_cong filter_cong) (simp_all add: selected_healthy_iff [OF d c])
  have sub: "set sl \<subseteq> hc_NodeID ` set ns"
    unfolding sl_def by (rule subsetI) (drule healthy_slots_distinct(2) [OF d], auto)
  have len: "length (ids_of (\<lambda>n. hc_NodeID n \<in> set sl) ns) = length sl"
    using length_filter_ids [OF d _ sub] healthy_slots_distinct(1) [OF d] by (simp add: sl_def)
  have le: "length sl \<le> T" by (simp add: sl_def T_def healthy_slots_def Let_def)
  have none: "ids_of (\<lambda>n. \<not> hc_Active n \<and> healthy n) ns' = []"
    if short: "int (length sl) < hp_MinHealthy p" and can: "PromoteStandby \<in> set (hp_Refill p)"
  proof -
    define a where "a = ids_of (\<lambda>n. hc_Active n \<and> healthy n) ns"
    define s where "s = ids_of (\<lambda>n. \<not> hc_Active n \<and> healthy n) ns"
    have "length sl < T" using short c by (auto simp: T_def capacity_ok_def)
    moreover have "int (length a) < hp_MinHealthy p"
      using short c can unfolding sl_def healthy_slots_def Let_def a_def [symmetric]
      by (auto simp: capacity_ok_def min_def split: if_splits)
    ultimately have "sl = a @ s"
      using can unfolding sl_def healthy_slots_def Let_def a_def [symmetric] s_def [symmetric] T_def [symmetric]
      by (auto simp: min_def split: if_splits)
    then have "hc_NodeID n \<in> set sl" if "n \<in> set ns" "healthy n" for n
      using that by (cases "hc_Active n") (auto simp: a_def s_def)
    then have "hc_NodeID n \<in> set (plan_selection p healthy ns)" if "n \<in> set ns" "healthy n" for n
      using that selected_healthy_iff [OF d c that(1), of healthy] by (simp add: sl_def)
    then show ?thesis unfolding ns' by (auto simp: filter_empty_conv h)
  qed
  show "healthy_slots p healthy ns' = ids_of (\<lambda>n. hc_NodeID n \<in> set (healthy_slots p healthy ns)) ns"
    using none len le unfolding healthy_slots_def [of p healthy ns'] Let_def a' sl_def [symmetric] T_def [symmetric]
    by auto
  then show "length (healthy_slots p healthy ns') = length (healthy_slots p healthy ns)"
    using len by (simp add: sl_def)
qed

lemma selection_fixed:
  assumes d: "distinct (map hc_NodeID ns)" and c: "capacity_ok p"
    and ns': "ns' = map (\<lambda>n. n\<lparr>hc_Active := (hc_NodeID n \<in> set (plan_selection p healthy ns))\<rparr>) ns"
    and h: "\<And>n b. healthy (n\<lparr>hc_Active := b\<rparr>) = healthy n"
  shows "set (plan_selection p healthy ns') = set (plan_selection p healthy ns)"
proof -
  define sel where "sel = plan_selection p healthy ns"
  define sl where "sl = healthy_slots p healthy ns"
  have d': "distinct (map hc_NodeID ns')" using d by (simp add: ns' o_def)
  have ok: "selection_ok ns (hp_TargetSize p) sel"
    unfolding sel_def by (rule plan_selection_ok [OF d])
  have sl_sub: "set sl \<subseteq> set sel"
    unfolding sel_def sl_def plan_selection_eq [OF d c] by simp
  have slots': "set (healthy_slots p healthy ns') = set sl" "length (healthy_slots p healthy ns') = length sl"
    using slots_fixed [OF d c ns' h] sl_sub ok by (auto simp: sl_def selection_ok_def)
  have rest: "ids_of (\<lambda>n. hc_Active n \<and> hc_NodeID n \<notin> set sl) ns' = ids_of (\<lambda>n. hc_NodeID n \<in> set sel - set sl) ns"
    by (simp add: ns' filter_map o_def sel_def)
  have set_rest: "set (ids_of (\<lambda>n. hc_NodeID n \<in> set sel - set sl) ns) = set sel - set sl"
    using ok by (auto simp: selection_ok_def)
  have "length (ids_of (\<lambda>n. hc_NodeID n \<in> set sel - set sl) ns) = length sel - length sl"
    using distinct_card [OF distinct_ids_of [OF d]] set_rest ok sl_sub
      healthy_slots_distinct(1) [OF d, of p healthy, folded sl_def]
    by (metis List.finite_set card_Diff_subset distinct_card selection_ok_def)
  then have "length (ids_of (\<lambda>n. hc_NodeID n \<in> set sel - set sl) ns) \<le> nat (hp_TargetSize p) - length sl"
    using ok by (auto simp: selection_ok_def)
  then have "set (plan_selection p healthy ns') = set sl \<union> (set sel - set sl)"
    unfolding plan_selection_eq [OF d' c] slots' rest by (simp only: set_append slots' set_rest take_all)
  with sl_sub show ?thesis by (auto simp: sel_def)
qed

lemma plan_actions_no_promotion:
  assumes "ids_of (\<lambda>n. hc_NodeID n \<in> set sel \<and> \<not> hc_Active n) ns = []"
    and "ids_of (\<lambda>n. hc_NodeID n \<notin> set sel \<and> hc_Active n) ns = []"
  shows "\<forall>a \<in> set (plan_actions i ns sel x y). ha_Kind a \<noteq> PromoteStandby"
proof -
  have "\<forall>a \<in> set (refill_action i ns k). ha_Kind a \<noteq> PromoteStandby" for k
    by (cases k) (auto simp: refill_action_def blank_action_def Let_def)
  then show ?thesis
    unfolding plan_actions_def Let_def assms by (auto simp: blank_action_def)
qed

text \<open>Healing converges in one step. When the planned selection becomes the membership
  and health does not change, planning again keeps that selection, sees as healthy what the plan
  had projected, and asks for no further promotion.\<close>

theorem plan_converges:
  assumes "PlanHealing i = (p, None)"
  shows "\<exists>q. PlanHealing (apply_selection (pl_DesiredIDs p) i) = (q, None) \<and>
    pl_DesiredIDs q = pl_DesiredIDs p \<and> pl_Healthy q = pl_Projected p \<and> pl_Projected q = pl_Projected p \<and>
    (\<forall>a \<in> set (pl_Actions q). ha_Kind a \<noteq> PromoteStandby)"
proof (cases "managed i")
  case False
  then have t: "hp_TargetSize (hi_Policy i) = 0" "p = empty_plan i" using PlanHealing_cases [OF assms] by auto
  then have "PlanHealing (apply_selection (pl_DesiredIDs p) i) = (empty_plan (apply_selection (pl_DesiredIDs p) i), None)"
    using assms by (auto simp: PlanHealing_def Let_def split: option.splits)
  with t show ?thesis by (simp add: empty_plan_def)
next
  case True
  define j where "j = apply_selection (pl_DesiredIDs p) i"
  have mj: "managed j" unfolding j_def by (rule managed_apply_selection [OF True])
  then obtain q where q: "PlanHealing j = (q, None)" by (rule PlanHealing_managed)
  note d = managedD [OF True] and fp = plan_fields [OF True assms] and fq = plan_fields [OF mj q]
    and sel = set_desired(1) [OF True assms]
  define ns' where "ns' = map (\<lambda>n. n\<lparr>hc_Active := (hc_NodeID n \<in> set (input_selected i))\<rparr>) (sorted_candidates i)"
  have ns: "sorted_candidates j = ns'" and pol: "hi_Policy j = hi_Policy i" "hi_Now j = hi_Now i"
      "hi_MaxHealthAge j = hi_MaxHealthAge i"
    unfolding j_def by (simp_all add: ns'_def sel)
  have sel_j: "set (input_selected j) = set (input_selected i)"
    unfolding input_selected_def ns pol
    by (rule selection_fixed [OF d(1,2)]) (simp_all add: ns'_def input_selected_def)
  have slots: "length (input_slots j) = length (input_slots i)"
    unfolding ns pol by (rule slots_fixed(2) [OF d(1,2)]) (simp_all add: ns'_def input_selected_def)
  have "pl_DesiredIDs q = pl_DesiredIDs p"
    unfolding fq(1) fp(1) ns sel_j by (simp add: ns'_def filter_map o_def)
  moreover have "pl_Projected q = pl_Projected p"
    unfolding fq(2) fp(2) using slots by simp
  moreover have "pl_Healthy q = pl_Projected p"
    unfolding fq(3) fp(2) projected_eq [OF d(1,2), symmetric] ns pol
    by (simp add: ns'_def filter_map o_def input_selected_def)
  moreover have "\<forall>a \<in> set (pl_Actions q). ha_Kind a \<noteq> PromoteStandby"
    unfolding fq(5) by (rule plan_actions_no_promotion) (auto simp: sel_j ns ns'_def filter_empty_conv)
  ultimately show ?thesis using q unfolding j_def by blast
qed

section \<open>The coordinator\<close>

text \<open>
  What a relation between the coordinator and its backend has to satisfy to survive a whole
  cycle: the read-only calls and the audits keep it, and each of the three guarded actions
  does. The lemmas carry it through the loops of \<open>healer_coordinator.go\<close>.
\<close>

locale healer_cycle =
  fixes be :: "'b HealingBackend" and inv :: "Healer \<Rightarrow> 'b \<Rightarrow> bool"
  assumes inputs_inv: "inv h b \<Longrightarrow> hb_Inputs be t b = (r, b') \<Longrightarrow> inv h b'"
    and input_inv: "inv h b \<Longrightarrow> hb_Input be g t b = (r', b') \<Longrightarrow> inv h b'"
    and audit_inv: "inv h b \<Longrightarrow> hb_Audit be a b = (r'', b') \<Longrightarrow> inv h b'"
    and cursor_inv: "inv h b \<Longrightarrow> inv (h\<lparr>he_cursor := c\<rparr>) b"
    and promote_inv: "inv h b \<Longrightarrow> ha_Kind act = PromoteStandby \<Longrightarrow>
      perform be g (KeyGroup g) act (hb_Apply be g ids) h b = (es, h', b') \<Longrightarrow> inv h' b'"
    and probe_inv: "inv h b \<Longrightarrow> ha_Kind act = ProbeQuarantined \<Longrightarrow> ha_NodeIDs act = [n] \<Longrightarrow>
      perform be g (KeyProbe n) act (hb_Probe be g n) h b = (es, h', b') \<Longrightarrow> inv h' b'"
    and refresh_inv: "inv h b \<Longrightarrow> ha_Kind act = RefreshSubscription \<Longrightarrow> ha_SubscriptionIDs act = [s] \<Longrightarrow>
      perform be g (KeySubscription s) act (hb_Refresh be g s) h b = (es, h', b') \<Longrightarrow> inv h' b'"
begin

lemma coordinator_audit: "inv h b \<Longrightarrow> audit be g st act b = (es, b') \<Longrightarrow> inv h b'"
  unfolding audit_def by (auto split: prod.splits option.splits intro: audit_inv)

lemma cycle_plan: "inv h b \<Longrightarrow> current_plan be g b = (r, b') \<Longrightarrow> inv h b'"
  unfolding current_plan_def by (auto split: prod.splits sum.splits option.splits intro: input_inv)

lemma cycle_nodes:
  "inv h b \<Longrightarrow> ha_Kind act = ProbeQuarantined \<Longrightarrow> perform_nodes be g act ns err h b = (es, h', b') \<Longrightarrow> inv h' b'"
proof (induction ns arbitrary: err h b)
  case (Cons n ns)
  obtain e h1 b1 where one: "perform be g (KeyProbe n) (act\<lparr>ha_NodeIDs := [n]\<rparr>) (hb_Probe be g n) h b = (e, h1, b1)"
    by (rule prod_cases3)
  have "inv h1 b1"
    by (rule probe_inv [OF Cons.prems(1) _ _ one]) (simp_all add: Cons.prems(2))
  with Cons.prems one show ?case by (intro Cons.IH) auto
qed simp

lemma cycle_subscriptions:
  "inv h b \<Longrightarrow> ha_Kind act = RefreshSubscription \<Longrightarrow> perform_subscriptions be g act ns err h b = (es, h', b') \<Longrightarrow>
   inv h' b'"
proof (induction ns arbitrary: err h b)
  case (Cons n ns)
  obtain e h1 b1 where one:
      "perform be g (KeySubscription n) (act\<lparr>ha_SubscriptionIDs := [n]\<rparr>) (hb_Refresh be g n) h b = (e, h1, b1)"
    by (rule prod_cases3)
  have "inv h1 b1"
    by (rule refresh_inv [OF Cons.prems(1) _ _ one]) (simp_all add: Cons.prems(2))
  with Cons.prems one show ?case by (intro Cons.IH) auto
qed simp

lemma cycle_actions:
  assumes "inv h b" and "run_actions be g k ids acts err res h b = (es, h', b')"
  shows "inv h' b'"
  using assms
proof (induction acts arbitrary: err res h b)
  case (Cons act acts)
  show ?case
  proof (cases "ha_Kind act = k")
    case True
    obtain err1 h1 b1 where one: "(if k = PromoteStandby then perform be g (KeyGroup g) act (hb_Apply be g ids) h b
        else if k = ProbeQuarantined then perform_nodes be g act (ha_NodeIDs act) err h b
        else if k = RefreshSubscription then perform_subscriptions be g act (ha_SubscriptionIDs act) err h b
        else (err, h, b)) = (err1, h1, b1)"
      by (metis prod_cases3)
    then have "inv h1 b1"
      using Cons.prems(1) True
      by (auto split: if_splits intro: promote_inv cycle_nodes cycle_subscriptions)
    moreover have "run_actions be g k ids acts err1 (res @ err1) h1 b1 = (es, h', b')"
      using Cons.prems(2) True one by simp
    ultimately show ?thesis by (rule Cons.IH)
  next
    case False
    with Cons show ?thesis by simp
  qed
qed simp

lemma cycle_stages:
  assumes "inv h b" and "run_stages be g ks res h b = (r, h', b')"
  shows "inv h' b'"
  using assms
proof (induction ks arbitrary: res h b)
  case (Cons k ks)
  obtain r1 b1 where plan: "current_plan be g b = (r1, b1)" by fastforce
  have i1: "inv h b1" by (rule cycle_plan [OF Cons.prems(1) plan])
  have step: "inv h' b'" if "run_stages be g ks (fst y) (fst (snd y)) (snd (snd y)) = (r, h', b')"
    "run_actions be gg k ids acts [] res h b1 = y" for y gg ids acts
    using Cons.IH [OF _ that(1)] cycle_actions [OF i1, of gg k ids acts] that(2) by (cases y) auto
  show ?case
    using Cons.prems(2) i1 step
    by (auto simp: plan case_prod_beta split: sum.splits option.splits if_splits)
qed simp

lemma cycle_dry_run: "inv h b \<Longrightarrow> audit_dry_run be g acts res b = (es, b') \<Longrightarrow> inv h b'"
  by (induction acts arbitrary: res b) (auto split: prod.splits intro: coordinator_audit)

lemma cycle_group:
  assumes inv: "inv h b" and run: "runGroup be i h b = (es, h', b')"
  shows "inv h' b'"
proof -
  obtain p e where p: "PlanHealing i = (p, e)" by fastforce
  obtain es0 b0 where dry: "audit_dry_run be (hi_GroupID i) (pl_Actions p) [] b = (es0, b0)" by fastforce
  have i0: "inv h b0" by (rule cycle_dry_run [OF inv dry])
  obtain r h1 b1 where st: "run_stages be (hi_GroupID i)
      [PromoteStandby, ProbeQuarantined, PromoteStandby, RefreshSubscription] [] h b = (r, h1, b1)"
    by (rule prod_cases3)
  have i1: "inv h1 b1" by (rule cycle_stages [OF inv st])
  obtain r2 b2 where plan: "current_plan be (hi_GroupID i) b1 = (r2, b2)" by fastforce
  have i2: "inv h1 b2" by (rule cycle_plan [OF i1 plan])
  have i3: "inv h1 (snd (audit be g st act b2))" for g st act
    by (rule coordinator_audit [OF i2 prod.collapse [symmetric]])
  show ?thesis
    using run inv i0 i1 i2 i3 unfolding runGroup_def p
    by (auto simp: dry st plan case_prod_beta simp del: run_stages.simps split: option.splits sum.splits if_splits)
qed

lemma cycle_groups: "inv h b \<Longrightarrow> run_groups be is res h b = (r, h', b') \<Longrightarrow> inv h' b'"
proof (induction "is" arbitrary: res h b)
  case (Cons i "is")
  obtain e h1 b1 where g: "runGroup be i h b = (e, h1, b1)" by (rule prod_cases3)
  have "inv h1 b1" by (rule cycle_group [OF Cons.prems(1) g])
  with Cons g show ?case by (auto split: if_splits)
qed simp

theorem cycle_Tick:
  assumes "inv (open_window (hb_now be b) h) b" and "Tick be h b = (es, h', b')"
  shows "inv h' b'"
  using assms unfolding Tick_def Let_def
  by (auto split: prod.splits sum.splits if_splits dest: inputs_inv cycle_groups intro: cursor_inv)

end

text \<open>The two ways \<open>perform\<close> can go: the action is not run, or it is run after its planned audit was stored.\<close>

lemma perform_cases:
  assumes "perform be g key act run h b = (es, h', b')"
  obtains (kept) "h' = h" and "b' = b \<or> (\<exists>st a. b' = snd (audit be g st a b))"
  | (ran) b1 res b2 st a at where "\<not> hb_ctxErr be b"
      and "defer_reason (hb_now be b) (attempt_of key h) (ha_Kind act) h = None"
      and "audit be g ''planned'' act b = ([], b1)" and "run b1 = (res, b2)"
      and "h' = (spend_budget (ha_Kind act) h)\<lparr>he_attempts := at\<rparr>" and "b' = snd (audit be g st a b2)"
proof -
  obtain es1 b1 where pl: "audit be g ''planned'' act b = (es1, b1)" by fastforce
  obtain res b2 where run: "run b1 = (res, b2)" by fastforce
  show ?thesis
  proof (cases "hb_ctxErr be b \<or> defer_reason (hb_now be b) (attempt_of key h) (ha_Kind act) h \<noteq> None \<or> es1 \<noteq> []")
    case True
    have "h' = h \<and> (b' = b \<or> (\<exists>st a. b' = snd (audit be g st a b)))"
    proof (cases "defer_reason (hb_now be b) (attempt_of key h) (ha_Kind act) h")
      case None
      with True assms show ?thesis
        unfolding perform_def Let_def by (auto simp: pl split: if_splits) (metis snd_conv pl)
    next
      case (Some why)
      with assms show ?thesis
        unfolding perform_def Let_def by (auto simp: case_prod_beta split: if_splits)
    qed
    then show ?thesis using kept by blast
  next
    case False
    then show ?thesis
      using assms pl run unfolding perform_def Let_def
      by (cases res; intro ran [of b1 res b2]) (auto simp: case_prod_beta)
  qed
qed

section \<open>Recorded runs\<close>

text \<open>A backend that writes down every call with an effect, newest first, around any backend.\<close>

datatype heal_event =
    Audited HealAudit bool
  | Applied group_id "node_id list"
  | Probed group_id node_id
  | Refreshed group_id int

definition recorded :: "'b HealingBackend \<Rightarrow> ('b \<times> heal_event list) HealingBackend" where
  "recorded be = \<lparr>
     hb_now = \<lambda>(b, tr). hb_now be b,
     hb_ctxErr = \<lambda>(b, tr). hb_ctxErr be b,
     hb_Inputs = \<lambda>t (b, tr). (let (r, b') = hb_Inputs be t b in (r, b', tr)),
     hb_Input = \<lambda>g t (b, tr). (let (r, b') = hb_Input be g t b in (r, b', tr)),
     hb_Apply = \<lambda>g ids (b, tr). (let (r, b') = hb_Apply be g ids b in (r, b', Applied g ids # tr)),
     hb_Probe = \<lambda>g n (b, tr). (let (r, b') = hb_Probe be g n b in (r, b', Probed g n # tr)),
     hb_Refresh = \<lambda>g s (b, tr). (let (r, b') = hb_Refresh be g s b in (r, b', Refreshed g s # tr)),
     hb_Audit = \<lambda>a (b, tr). (let (r, b') = hb_Audit be a b in (r, b', Audited a (r = None) # tr))\<rparr>"

definition planned_for :: "group_id \<Rightarrow> (HealAction \<Rightarrow> bool) \<Rightarrow> heal_event list \<Rightarrow> bool" where
  "planned_for g P tr = (case tr of
     Audited a ok # _ \<Rightarrow> ok \<and> au_GroupID a = g \<and> au_Status a = ''planned'' \<and> P (au_Action a)
   | _ \<Rightarrow> False)"

fun authorized :: "heal_event list \<Rightarrow> bool" where
  "authorized [] = True"
| "authorized (Audited a ok # tr) = authorized tr"
| "authorized (Applied g ids # tr) = (planned_for g (\<lambda>a. ha_Kind a = PromoteStandby) tr \<and> authorized tr)"
| "authorized (Probed g n # tr) =
     (planned_for g (\<lambda>a. ha_Kind a = ProbeQuarantined \<and> ha_NodeIDs a = [n]) tr \<and> authorized tr)"
| "authorized (Refreshed g s # tr) =
     (planned_for g (\<lambda>a. ha_Kind a = RefreshSubscription \<and> ha_SubscriptionIDs a = [s]) tr \<and> authorized tr)"

definition probe_calls :: "heal_event list \<Rightarrow> int" where
  "probe_calls tr = int (length (filter (\<lambda>e. case e of Probed _ _ \<Rightarrow> True | _ \<Rightarrow> False) tr))"

definition refresh_calls :: "heal_event list \<Rightarrow> int" where
  "refresh_calls tr = int (length (filter (\<lambda>e. case e of Refreshed _ _ \<Rightarrow> True | _ \<Rightarrow> False) tr))"

lemma call_counts [simp]:
  "probe_calls [] = 0" "refresh_calls [] = 0"
  "probe_calls (Audited a ok # tr) = probe_calls tr" "refresh_calls (Audited a ok # tr) = refresh_calls tr"
  "probe_calls (Applied g ids # tr) = probe_calls tr" "refresh_calls (Applied g ids # tr) = refresh_calls tr"
  "probe_calls (Probed g n # tr) = probe_calls tr + 1" "refresh_calls (Probed g n # tr) = refresh_calls tr"
  "probe_calls (Refreshed g n # tr) = probe_calls tr" "refresh_calls (Refreshed g n # tr) = refresh_calls tr + 1"
  by (simp_all add: probe_calls_def refresh_calls_def)

definition within_budget :: "Healer \<Rightarrow> bool" where
  "within_budget h \<longleftrightarrow> 0 \<le> he_probes h \<and> he_probes h \<le> 20 \<and> 0 \<le> he_refreshes h \<and> he_refreshes h \<le> 2"

text \<open>The relation between coordinator and record that survives a cycle: \<open>p\<close> and \<open>r\<close> are
  what was already spent in the window when the recording started.\<close>

definition recorded_inv :: "int \<Rightarrow> int \<Rightarrow> Healer \<Rightarrow> 'b \<times> heal_event list \<Rightarrow> bool" where
  "recorded_inv p r h s \<longleftrightarrow> authorized (snd s) \<and> within_budget h \<and>
     probe_calls (snd s) = he_probes h - p \<and> refresh_calls (snd s) = he_refreshes h - r"

lemma defer_reason_budget:
  "defer_reason now prev kind h = None \<Longrightarrow> within_budget h \<Longrightarrow> within_budget (spend_budget kind h)"
  by (auto simp: defer_reason_def spend_budget_def within_budget_def Let_def split: if_splits)

lemma recorded_audit:
  assumes "audit (recorded be) g st act s = (es, s')"
  obtains ok b where "s' = (b, Audited \<lparr>au_GroupID = g, au_Status = st, au_Action = act, au_At = hb_now be (fst s)\<rparr> ok # snd s)"
    and "es = [] \<longleftrightarrow> ok"
  using assms unfolding audit_def recorded_def by (cases s) (auto split: prod.splits option.splits)

lemma recorded_inv_audit:
  "recorded_inv p r h s \<Longrightarrow> audit (recorded be) g st act s = (es, s') \<Longrightarrow> recorded_inv p r h s'"
  by (erule recorded_audit) (auto simp: recorded_inv_def)

lemma recorded_perform:
  assumes inv: "recorded_inv p r h s"
    and run: "perform (recorded be) g key act call h s = (es, h', s')"
    and call: "\<And>s1 res s2. call s1 = (res, s2) \<Longrightarrow> \<exists>b. s2 = (b, ev # snd s1)"
    and ev: "\<And>tr. authorized tr \<Longrightarrow> planned_for g (\<lambda>a. a = act) tr \<Longrightarrow> authorized (ev # tr)"
    and cnt: "\<And>tr. probe_calls (ev # tr) = probe_calls tr + (if ha_Kind act = ProbeQuarantined then 1 else 0)"
      "\<And>tr. refresh_calls (ev # tr) = refresh_calls tr + (if ha_Kind act = RefreshSubscription then 1 else 0)"
  shows "recorded_inv p r h' s'"
  using run
proof (cases rule: perform_cases)
  case kept
  have "recorded_inv p r h (snd (audit (recorded be) g st a s))" for st a
    by (rule recorded_inv_audit [OF inv prod.collapse [symmetric]])
  then show ?thesis using kept inv by blast
next
  case (ran s1 res s2 st a at)
  obtain b1 A where s1: "s1 = (b1, Audited A True # snd s)" and A: "au_GroupID A = g" "au_Status A = ''planned''" "au_Action A = act"
    by (rule recorded_audit [OF ran(3)]) simp
  obtain b2 where s2: "s2 = (b2, ev # Audited A True # snd s)" using call [OF ran(4)] s1 by auto
  have "authorized (ev # Audited A True # snd s)"
    using inv by (intro ev) (auto simp: A planned_for_def recorded_inv_def)
  moreover have "within_budget h'"
    using inv defer_reason_budget [OF ran(2)] unfolding ran(5) by (simp add: recorded_inv_def within_budget_def)
  ultimately have "recorded_inv p r h' s2"
    using inv unfolding recorded_inv_def s2 ran(5) by (simp add: cnt spend_budget_def)
  then show ?thesis
    unfolding ran(6) by (rule recorded_inv_audit [OF _ prod.collapse [symmetric]])
qed

lemma planned_for_weaken: "planned_for g (\<lambda>a. a = act) tr \<Longrightarrow> P act \<Longrightarrow> planned_for g P tr"
  by (auto simp: planned_for_def split: list.splits heal_event.splits)

lemma recorded_calls:
  "hb_Apply (recorded be) g ids s = (res, s') \<Longrightarrow> \<exists>b. s' = (b, Applied g ids # snd s)"
  "hb_Probe (recorded be) g n s = (res, s') \<Longrightarrow> \<exists>b. s' = (b, Probed g n # snd s)"
  "hb_Refresh (recorded be) g n s = (res, s') \<Longrightarrow> \<exists>b. s' = (b, Refreshed g n # snd s)"
  by (cases s; auto simp: recorded_def split: prod.splits)+

lemma recorded_reads:
  "hb_Inputs (recorded be) t s = (r', s') \<Longrightarrow> \<exists>b. s' = (b, snd s)"
  "hb_Input (recorded be) g t s = (r'', s') \<Longrightarrow> \<exists>b. s' = (b, snd s)"
  "hb_Audit (recorded be) a s = (res, s') \<Longrightarrow> \<exists>b. s' = (b, Audited a (res = None) # snd s)"
  by (cases s; auto simp: recorded_def split: prod.splits)+

interpretation recorded_cycle: healer_cycle "recorded be" "recorded_inv p r"
proof unfold_locales
  fix h s g act and es :: errors and h' s' ids
  assume a: "recorded_inv p r h s" "ha_Kind act = PromoteStandby"
    "perform (recorded be) g (KeyGroup g) act (hb_Apply (recorded be) g ids) h s = (es, h', s')"
  show "recorded_inv p r h' s'"
    by (rule recorded_perform [OF a(1,3) recorded_calls(1)]) (auto simp: a(2) elim: planned_for_weaken)
next
  fix h s g act n and es :: errors and h' s'
  assume a: "recorded_inv p r h s" "ha_Kind act = ProbeQuarantined" "ha_NodeIDs act = [n]"
    "perform (recorded be) g (KeyProbe n) act (hb_Probe (recorded be) g n) h s = (es, h', s')"
  show "recorded_inv p r h' s'"
    by (rule recorded_perform [OF a(1,4) recorded_calls(2)]) (auto simp: a(2,3) elim: planned_for_weaken)
next
  fix h s g act n and es :: errors and h' s'
  assume a: "recorded_inv p r h s" "ha_Kind act = RefreshSubscription" "ha_SubscriptionIDs act = [n]"
    "perform (recorded be) g (KeySubscription n) act (hb_Refresh (recorded be) g n) h s = (es, h', s')"
  show "recorded_inv p r h' s'"
    by (rule recorded_perform [OF a(1,4) recorded_calls(3)]) (auto simp: a(2,3) elim: planned_for_weaken)
qed (auto simp: recorded_inv_def within_budget_def dest!: recorded_reads)

lemma within_budget_open_window: "within_budget h \<Longrightarrow> within_budget (open_window now h)"
  by (auto simp: within_budget_def open_window_def Let_def)

lemma recorded_Tick:
  assumes "within_budget h" and "Tick (recorded be) h (b, []) = (es, h', (b', tr))"
  shows "recorded_inv (he_probes (open_window (hb_now be b) h)) (he_refreshes (open_window (hb_now be b) h)) h' (b', tr)"
proof (rule recorded_cycle.cycle_Tick [OF _ assms(2)])
  have "hb_now (recorded be) (b, []) = hb_now be b" by (simp add: recorded_def)
  then show "recorded_inv (he_probes (open_window (hb_now be b) h)) (he_refreshes (open_window (hb_now be b) h))
      (open_window (hb_now (recorded be) (b, [])) h) (b, [])"
    using within_budget_open_window [OF assms(1)] by (simp add: recorded_inv_def)
qed

text \<open>No unrecorded external action. In one cycle against any backend, every selection
  applied, every node probed and every subscription refreshed directly follows a stored
  ``planned'' audit entry of the same group for exactly that action.\<close>

theorem actions_audited:
  assumes "within_budget h" and "Tick (recorded be) h (b, []) = (es, h', (b', tr))"
  shows "authorized tr"
  using recorded_Tick [OF assms] by (simp add: recorded_inv_def)

text \<open>C13: the global budgets hold. In one cycle against any backend the coordinator makes
  exactly as many probe and refresh calls as it adds to its window counters, and the counters stay
  within 20 probes and 2 refreshes per window, from cycle to cycle.\<close>

theorem budgets_respected:
  assumes "within_budget h" and "Tick (recorded be) h (b, []) = (es, h', (b', tr))"
  shows "within_budget h' \<and>
    probe_calls tr = he_probes h' - he_probes (open_window (hb_now be b) h) \<and>
    refresh_calls tr = he_refreshes h' - he_refreshes (open_window (hb_now be b) h) \<and>
    probe_calls tr \<le> 20 \<and> refresh_calls tr \<le> 2"
  using recorded_Tick [OF assms] within_budget_open_window [OF assms(1), of "hb_now be b"]
  by (simp add: recorded_inv_def within_budget_def)

section \<open>Backoff, dry run and traffic slots\<close>

lemma failure_delay_bounds:
  assumes "1 \<le> f"
  shows "base_delay k \<le> min (failure_delay k f) (30 * minute)"
proof -
  have "(1::int) \<le> 2 ^ nat (min (f - 1) 4)" by simp
  then have "base_delay k * 1 \<le> base_delay k * 2 ^ nat (min (f - 1) 4)"
    by (intro mult_left_mono) (simp_all add: base_delay_def time_defs)
  moreover have "base_delay k \<le> 30 * minute" by (simp add: base_delay_def time_defs)
  ultimately show ?thesis by (auto simp: failure_delay_def Let_def)
qed

lemma perform_blocked:
  assumes "hb_now be b < at_next (attempt_of key h)"
  shows "perform be g key act run h b = perform be g key act run' h b"
proof -
  have "defer_reason (hb_now be b) (attempt_of key h) (ha_Kind act) h \<noteq> None"
    using assms by (simp add: defer_reason_def Let_def)
  then show ?thesis by (auto simp: perform_def Let_def)
qed

text \<open>A failed action backs off. After an action that was admitted fails, its failure count
  grows by one, the next attempt is at least its base delay and at most 30 minutes away, and until
  then an attempt under the same key never reaches the backend, whatever action it would run.\<close>

theorem failed_action_backs_off:
  assumes "\<not> hb_ctxErr be b"
    and "defer_reason (hb_now be b) (attempt_of key h) (ha_Kind act) h = None"
    and "audit be g ''planned'' act b = ([], b1)" and "run b1 = (RunFailed e, b2)"
    and "0 \<le> at_failures (attempt_of key h)"
    and "perform be g key act run h b = (es, h', b')"
  shows "at_failures (attempt_of key h') = at_failures (attempt_of key h) + 1 \<and>
    hb_now be b2 + base_delay (ha_Kind act) \<le> at_next (attempt_of key h') \<and>
    at_next (attempt_of key h') \<le> hb_now be b2 + 30 * minute \<and>
    (\<forall>b3 act' run1 run2. hb_now be b3 < at_next (attempt_of key h') \<longrightarrow>
       perform be g key act' run1 h' b3 = perform be g key act' run2 h' b3)"
proof -
  have "attempt_of key h' = next_attempt (ha_Kind act) (hb_now be b2) (RunFailed e) (attempt_of key h)"
    using assms by (auto simp: perform_def Let_def attempt_of_def case_prod_beta)
  then show ?thesis
    using assms(5) failure_delay_bounds [of "at_failures (attempt_of key h) + 1" "ha_Kind act"]
    by (auto simp: next_attempt_def Let_def intro: perform_blocked)
qed

lemma dry_run_trace:
  assumes "audit_dry_run (recorded be) g acts res s = (es, s')"
  shows "\<forall>ev \<in> set (snd s'). ev \<in> set (snd s) \<or> (\<exists>a ok. ev = Audited a ok \<and> au_Status a = ''dry_run'')"
  using assms
proof (induction acts arbitrary: res s)
  case (Cons act acts)
  obtain e s1 where a: "audit (recorded be) g ''dry_run'' act s = (e, s1)" by (rule prod.exhaust)
  then obtain ok b where "s1 = (b, Audited \<lparr>au_GroupID = g, au_Status = ''dry_run'', au_Action = act,
      au_At = hb_now be (fst s)\<rparr> ok # snd s)"
    by (rule recorded_audit)
  then show ?case using Cons.IH [of "res @ e" s1] Cons.prems a by fastforce
qed simp

text \<open>A dry run only writes audits. For a group whose policy does not execute, a run leaves the
  coordinator unchanged and its only calls with an effect are ``dry_run'' audit entries.\<close>

theorem dry_run_only_audits:
  assumes "\<not> hp_Execute (hi_Policy i)" and "runGroup (recorded be) i h (b, []) = (es, h', (b', tr))"
  shows "h' = h \<and> (\<forall>ev \<in> set tr. \<exists>a ok. ev = Audited a ok \<and> au_Status a = ''dry_run'')"
proof -
  obtain p e where p: "PlanHealing i = (p, e)" by fastforce
  then have "pl_DryRun p"
    using assms(1) by (auto simp: PlanHealing_def empty_plan_def Let_def split: option.splits if_splits)
  then show ?thesis
    using assms(2) dry_run_trace [of be "hi_GroupID i" "pl_Actions p" "[]" "(b, [])"] unfolding runGroup_def p
    by (auto split: option.splits prod.splits)
qed

lemma capacity_fold:
  "fold (\<lambda>i sel. if i \<in> A \<and> int (length sel) < t then sel @ [i] else sel) xs acc
     = acc @ take (nat t - length acc) (filter (\<lambda>i. i \<in> A) xs)"
proof (induction xs arbitrary: acc)
  case (Cons x xs)
  show ?case
  proof (cases "x \<in> A \<and> length acc < nat t")
    case True
    then have "int (length acc) < t" by linarith
    with True show ?thesis by (simp add: Cons.IH take_Suc_diff)
  next
    case False
    then have "\<not> (x \<in> A \<and> int (length acc) < t)" by auto
    with False show ?thesis by (auto simp: Cons.IH)
  qed
qed simp

lemma CapacitySelection_eq:
  assumes "0 < t"
  shows "CapacitySelection c prev t = take (nat t) (case prev of None \<Rightarrow> uniquePositiveIDs c
     | Some ids \<Rightarrow> filter (\<lambda>i. i \<in> set (uniquePositiveIDs c)) (uniquePositiveIDs ids))"
  using assms by (auto simp: CapacitySelection_def capacity_fold Let_def split: option.split)

lemma sort_dedup_id: "sorted xs \<Longrightarrow> distinct xs \<Longrightarrow> sort_dedup xs = xs"
  by (simp add: sort_dedup_def sorted_sort_id remdups_adj_distinct)

text \<open>Traffic slots are stable. With a positive target, the selected slots are candidates,
  distinct, in ascending order and at most the target many; a later selection never admits a node
  that was not selected before, and selecting again changes nothing.\<close>

theorem capacity_selection_stable:
  assumes "0 < t"
  shows "sorted (CapacitySelection c prev t) \<and> distinct (CapacitySelection c prev t) \<and>
    int (length (CapacitySelection c prev t)) \<le> t \<and> set (CapacitySelection c prev t) \<subseteq> set c \<and>
    set (CapacitySelection c (Some ids) t) \<subseteq> set ids \<and>
    CapacitySelection c (Some (CapacitySelection c prev t)) t = CapacitySelection c prev t"
proof -
  define s where "s = CapacitySelection c prev t"
  have base: "sorted s" "distinct s" "length s \<le> nat t" "set s \<subseteq> set (uniquePositiveIDs c)"
    unfolding s_def CapacitySelection_eq [OF assms]
    by (auto simp: uniquePositiveIDs_def sorted_wrt_filter sorted_wrt_take split: option.split dest!: in_set_takeD)
  have pos: "\<forall>x \<in> set s. 0 < x" using base(4) by (auto simp: uniquePositiveIDs_def)
  then have "uniquePositiveIDs s = s" using base by (simp add: uniquePositiveIDs_def sort_dedup_id)
  moreover have "filter (\<lambda>i. i \<in> set (uniquePositiveIDs c)) s = s"
    using base(4) by (intro filter_all_in) auto
  ultimately have again: "CapacitySelection c (Some s) t = s"
    using base(3) by (simp add: CapacitySelection_eq [OF assms])
  have "set (CapacitySelection c (Some ids) t) \<subseteq> set ids"
    by (auto simp: CapacitySelection_eq [OF assms] uniquePositiveIDs_def dest!: in_set_takeD)
  moreover have "set s \<subseteq> set c" using base(4) by (auto simp: uniquePositiveIDs_def)
  moreover have "int (length s) \<le> t" using base(3) assms by (simp add: le_nat_iff)
  ultimately show ?thesis using base again unfolding s_def by blast
qed

section \<open>A concrete group\<close>

definition demo_candidate :: "node_id \<Rightarrow> bool \<Rightarrow> string \<Rightarrow> gtime \<Rightarrow> HealCandidate" where
  "demo_candidate n act st at = \<lparr>hc_NodeID = n, hc_Active = act, hc_Status = st, hc_Available = (st = ''ALIVE''),
     hc_InitialCheckDone = True, hc_Provisional = False, hc_HealthCheckedAt = at,
     hc_RecoveryEnabled = True, hc_RecoveryCooldownEnd = 0\<rparr>"

definition demo_input :: "bool \<Rightarrow> HealInput" where
  "demo_input ex = \<lparr>hi_GroupID = 7,
     hi_Policy = \<lparr>hp_MinHealthy = 3, hp_TargetSize = 3, hp_Execute = ex,
       hp_Refill = [PromoteStandby, ProbeQuarantined, RefreshSubscription]\<rparr>,
     hi_Candidates = [demo_candidate 3 False ''ALIVE'' 900, demo_candidate 1 True ''ALIVE'' 950,
       demo_candidate 2 True ''EVICTED'' 100, demo_candidate 4 False ''ALIVE'' 1],
     hi_SubscriptionIDs = [5, 5], hi_Now = 1000, hi_MaxHealthAge = 500\<rparr>"

text \<open>The application never changes: probes fail, everything else succeeds.\<close>

definition demo_backend :: "unit HealingBackend" where
  "demo_backend = \<lparr>hb_now = \<lambda>_. 1000, hb_ctxErr = \<lambda>_. False,
     hb_Inputs = \<lambda>_ b. (Inr [demo_input True], b), hb_Input = \<lambda>_ _ b. (Inr (demo_input True), b),
     hb_Apply = \<lambda>_ _ b. (RunOK, b), hb_Probe = \<lambda>_ _ b. (RunFailed ''unreachable'', b),
     hb_Refresh = \<lambda>_ _ b. (RunOK, b), hb_Audit = \<lambda>_ b. (None, b)\<rparr>"

definition demo_plan :: HealPlan where
  "demo_plan = fst (PlanHealing (demo_input True))"

lemma demo_plan_eq: "PlanHealing (demo_input True) = (demo_plan, None)"
  by code_simp

lemma demo_desired: "pl_DesiredIDs demo_plan = [1, 2, 3]"
  by code_simp

theorem plan_within_capacity_witness:
  "int (length (pl_DesiredIDs demo_plan)) \<le> 3 \<and> set (pl_DesiredIDs demo_plan) \<inter> set (pl_StandbyIDs demo_plan) = {}"
  using plan_within_capacity [OF demo_plan_eq] by (simp add: demo_input_def)

theorem plan_deficit_exact_witness: "pl_Deficit demo_plan > 0 \<and> healthy_candidates (demo_input True) < 3"
proof -
  have "pl_Deficit demo_plan > 0" by code_simp
  with plan_deficit_exact [OF demo_plan_eq] show ?thesis by (simp add: demo_input_def)
qed

definition demo_calm :: HealInput where
  "demo_calm = (demo_input True)\<lparr>hi_Policy := \<lparr>hp_MinHealthy = 1, hp_TargetSize = 2, hp_Execute = True,
     hp_Refill = [PromoteStandby]\<rparr>\<rparr>"

lemma demo_calm_plan: "PlanHealing demo_calm = (fst (PlanHealing demo_calm), None)"
  "pl_Healthy (fst (PlanHealing demo_calm)) = 1" "pl_DesiredIDs (fst (PlanHealing demo_calm)) = [1, 2]"
  by code_simp+

theorem plan_no_churn_witness:
  "filter (\<lambda>n. hc_NodeID n \<in> {1, 2} \<and> \<not> hc_Active n) (hi_Candidates demo_calm) = []"
proof -
  have t: "hp_TargetSize (hi_Policy demo_calm) \<noteq> 0" "hp_MinHealthy (hi_Policy demo_calm) = 1"
    by (simp_all add: demo_calm_def)
  show ?thesis
    using conjunct1 [OF plan_no_churn [OF demo_calm_plan(1) t(1)]]
    unfolding demo_calm_plan(2,3) t(2) list.set filter_empty_conv by blast
qed

theorem plan_converges_witness:
  "\<exists>q. PlanHealing (apply_selection [1, 2, 3] (demo_input True)) = (q, None) \<and> pl_DesiredIDs q = [1, 2, 3] \<and>
     filter (\<lambda>a. ha_Kind a = PromoteStandby) (pl_Actions q) = []"
  using plan_converges [OF demo_plan_eq] by (auto simp: demo_desired filter_empty_conv)

definition demo_tick :: "errors \<times> Healer \<times> unit \<times> heal_event list" where
  "demo_tick = Tick (recorded demo_backend) NewHealer ((), [])"

definition demo_trace :: "heal_event list" where
  "demo_trace = snd (snd (snd demo_tick))"

lemma demo_tick_eq:
  "Tick (recorded demo_backend) NewHealer ((), []) = (fst demo_tick, fst (snd demo_tick), ((), demo_trace))"
  by (simp add: demo_tick_def demo_trace_def prod_eq_iff)

lemma demo_calls: "probe_calls demo_trace = 1" "refresh_calls demo_trace = 1"
  "within_budget NewHealer"
  by code_simp+

theorem actions_audited_witness: "authorized demo_trace \<and> probe_calls demo_trace = 1"
  using actions_audited [OF demo_calls(3) demo_tick_eq] demo_calls by simp

theorem budgets_respected_witness: "within_budget (fst (snd demo_tick)) \<and> he_refreshes (fst (snd demo_tick)) = 1"
proof -
  have "he_refreshes (open_window (hb_now demo_backend ()) NewHealer) = 0" by code_simp
  then show ?thesis using budgets_respected [OF demo_calls(3) demo_tick_eq] by (simp add: demo_calls)
qed

definition demo_probe :: HealAction where
  "demo_probe = (blank_action ProbeQuarantined RecheckQuarantined)\<lparr>ha_NodeIDs := [2]\<rparr>"

definition demo_after :: Healer where
  "demo_after = fst (snd (perform demo_backend 7 (KeyProbe 2) demo_probe (hb_Probe demo_backend 7 2) NewHealer ()))"

theorem failed_action_backs_off_witness:
  "1000 + minute \<le> at_next (attempt_of (KeyProbe 2) demo_after)"
proof -
  have facts: "\<not> hb_ctxErr demo_backend ()"
    "defer_reason (hb_now demo_backend ()) (attempt_of (KeyProbe 2) NewHealer) (ha_Kind demo_probe) NewHealer = None"
    "audit demo_backend 7 ''planned'' demo_probe () = ([], ())"
    "hb_Probe demo_backend 7 2 () = (RunFailed ''unreachable'', ())"
    "0 \<le> at_failures (attempt_of (KeyProbe 2) NewHealer)"
    by code_simp+
  have eq: "perform demo_backend 7 (KeyProbe 2) demo_probe (hb_Probe demo_backend 7 2) NewHealer ()
      = ([BackendError ''unreachable''], demo_after, ())"
    by code_simp
  have "hb_now demo_backend () + base_delay (ha_Kind demo_probe) = 1000 + minute" by code_simp
  with failed_action_backs_off [OF facts eq] show ?thesis by simp
qed

theorem dry_run_only_audits_witness:
  "filter (\<lambda>ev. case ev of Audited a ok \<Rightarrow> au_Status a \<noteq> ''dry_run'' | _ \<Rightarrow> True)
     (snd (snd (snd (runGroup (recorded demo_backend) (demo_input False) NewHealer ((), []))))) = []"
proof -
  have "\<not> hp_Execute (hi_Policy (demo_input False))" by code_simp
  then have "\<forall>ev \<in> set (snd (snd (snd (runGroup (recorded demo_backend) (demo_input False) NewHealer ((), []))))).
      \<exists>a ok. ev = Audited a ok \<and> au_Status a = ''dry_run''"
    using dry_run_only_audits [of "demo_input False" demo_backend NewHealer "()"] by (metis prod.collapse)
  then show ?thesis by (force simp: filter_empty_conv split: heal_event.split)
qed

theorem capacity_selection_stable_witness:
  "set (CapacitySelection [3, 1, 2] (Some [2, 9]) 2) \<subseteq> {2, 9} \<and>
   CapacitySelection [3, 1, 2] (Some (CapacitySelection [3, 1, 2] None 2)) 2 = CapacitySelection [3, 1, 2] None 2"
  using capacity_selection_stable [of 2 "[3, 1, 2]" None "[2, 9]"] by simp

end
