(* ===== verification/Go_Strings.thy ===== *)
theory Go_Strings
  imports Main
begin

text \<open>
  The part of Go's \<open>strings\<close>, \<open>strconv\<close> and \<open>net/netip\<close> the components use. A Go string is a
  list of bytes. \<open>TrimSpace\<close>, \<open>ToLower\<close> and \<open>EqualFold\<close> act on ASCII bytes and keep every other
  byte, which is what Go does for every text without cased or blank non-ASCII characters (in
  particular for the Chinese names in the alias tables). \<open>EqualFold\<close> is only used against
  literals without the letters \<open>k\<close> and \<open>s\<close>, where it has no non-ASCII case pairs.
\<close>

section \<open>Case and blanks\<close>

definition is_space :: "char \<Rightarrow> bool" where
  "is_space c \<longleftrightarrow> c \<in> {CHR '' '', CHR 0x09, CHR 0x0A, CHR 0x0B, CHR 0x0C, CHR 0x0D}"

definition trim_space :: "string \<Rightarrow> string" where
  "trim_space s = rev (dropWhile is_space (rev (dropWhile is_space s)))"

definition lower_char :: "char \<Rightarrow> char" where
  "lower_char c = (let n = of_char c :: nat in if 65 \<le> n \<and> n \<le> 90 then char_of (n + 32) else c)"

definition to_lower :: "string \<Rightarrow> string" where
  "to_lower = map lower_char"

definition equal_fold :: "string \<Rightarrow> string \<Rightarrow> bool" where
  "equal_fold s t \<longleftrightarrow> to_lower s = to_lower t"

lemma lower_char_idem [simp]: "lower_char (lower_char c) = lower_char c"
  by (simp add: lower_char_def Let_def)

lemma to_lower_idem [simp]: "to_lower (to_lower s) = to_lower s"
  by (simp add: to_lower_def)

lemma to_lower_append [simp]: "to_lower (s @ t) = to_lower s @ to_lower t"
  by (simp add: to_lower_def)

lemma length_to_lower [simp]: "length (to_lower s) = length s"
  by (simp add: to_lower_def)

lemma to_lower_Nil [simp]: "to_lower [] = []" "to_lower s = [] \<longleftrightarrow> s = []"
  by (simp_all add: to_lower_def)

lemma dropWhile_idem: "dropWhile P (dropWhile P xs) = dropWhile P xs"
  by (induction xs) auto

lemma trim_space_idem [simp]: "trim_space (trim_space s) = trim_space s"
proof -
  have "dropWhile is_space (rev (dropWhile is_space (rev t))) = rev (dropWhile is_space (rev t))"
    if "dropWhile is_space t = t" for t
  proof (cases "rev (dropWhile is_space (rev t))")
    case (Cons c cs)
    then have "dropWhile is_space (rev t) \<noteq> []" by auto
    then obtain us where "rev t = us @ dropWhile is_space (rev t)"
      by (metis takeWhile_dropWhile_id)
    then have "t = (c # cs) @ rev us" using Cons by (metis rev_append rev_rev_ident)
    then have "\<not> is_space c" using that by (auto dest: arg_cong [where f = hd] split: if_splits)
         (metis append_Cons dropWhile_eq_Cons_conv list.sel(1) list.inject self_append_conv)
    then show ?thesis using Cons by simp
  next
    case Nil
    then show ?thesis by (simp only: dropWhile.simps)
  qed
  then show ?thesis
    by (simp add: trim_space_def dropWhile_idem)
qed

section \<open>Numbers\<close>

fun decimal :: "nat \<Rightarrow> string" where
  "decimal n = (if n < 10 then [char_of (48 + n)] else decimal (n div 10) @ [char_of (48 + n mod 10)])"

declare decimal.simps [simp del]

definition format_int :: "int \<Rightarrow> string" where
  "format_int i = (if i < 0 then CHR ''-'' # decimal (nat (- i)) else decimal (nat i))"

definition digits_value :: "string \<Rightarrow> nat" where
  "digits_value = foldl (\<lambda>v c. v * 10 + (of_char c - 48)) 0"

definition is_digit :: "char \<Rightarrow> bool" where
  "is_digit c \<longleftrightarrow> (let n = of_char c :: nat in 48 \<le> n \<and> n \<le> 57)"

lemma of_char_digit: "d < 10 \<Longrightarrow> of_char (char_of (48 + d) :: char) = (48 + d :: nat)"
  by (simp add: of_char_of)

lemma digits_value_decimal [simp]: "digits_value (decimal n) = n"
proof (induction n rule: less_induct)
  case (less n)
  show ?case
  proof (cases "n < 10")
    case True
    then show ?thesis by (simp add: decimal.simps [of n] digits_value_def of_char_of)
  next
    case False
    then have "digits_value (decimal (n div 10)) = n div 10" by (intro less) simp
    with False show ?thesis
      by (simp add: decimal.simps [of n] digits_value_def of_char_of)
  qed
qed

lemma decimal_inject [simp]: "decimal m = decimal n \<longleftrightarrow> m = n"
  by (metis digits_value_decimal)

lemma decimal_not_Nil [simp]: "decimal n \<noteq> []"
  by (subst decimal.simps) simp

lemma decimal_digits: "c \<in> set (decimal n) \<Longrightarrow> is_digit c"
proof (induction n rule: less_induct)
  case (less n)
  show ?case
  proof (cases "n < 10")
    case True
    with less.prems show ?thesis by (simp add: decimal.simps [of n] is_digit_def of_char_of)
  next
    case False
    then have "c \<in> set (decimal (n div 10)) \<or> c = char_of (48 + n mod 10)"
      using less.prems by (subst (asm) decimal.simps) auto
    with less.IH [of "n div 10"] False show ?thesis
      by (auto simp: is_digit_def of_char_of)
  qed
qed

lemma format_int_inject [simp]: "format_int i = format_int j \<longleftrightarrow> i = j"
proof -
  have minus: "CHR ''-'' \<notin> set (decimal n)" for n
    using decimal_digits [of "CHR ''-''" n] by (auto simp: is_digit_def)
  have "CHR ''-'' # decimal m \<noteq> decimal n" for m n
    using minus [of n] by (metis list.set_intros(1))
  then show ?thesis by (auto simp: format_int_def dest: not_sym)
qed

section \<open>Addresses\<close>

text \<open>\<open>netip.ParseAddr\<close>, as far as the question whether it returns an error.\<close>

definition hex_digit :: "char \<Rightarrow> bool" where
  "hex_digit c \<longleftrightarrow> (let n = of_char c :: nat in 48 \<le> n \<and> n \<le> 57 \<or> 97 \<le> n \<and> n \<le> 102 \<or> 65 \<le> n \<and> n \<le> 70)"

text \<open>\<open>parseIPv4Fields\<close>: \<open>pos\<close> octets are finished, the current one has \<open>digLen\<close> digits and value \<open>val\<close>.\<close>

fun ipv4_fields :: "nat \<Rightarrow> nat \<Rightarrow> nat \<Rightarrow> string \<Rightarrow> bool" where
  "ipv4_fields pos digLen val [] \<longleftrightarrow> pos = 3 \<and> digLen > 0"
| "ipv4_fields pos digLen val (c # cs) \<longleftrightarrow>
     (if is_digit c
      then \<not> (digLen = 1 \<and> val = 0) \<and> val * 10 + (of_char c - 48) \<le> 255 \<and>
           ipv4_fields pos (Suc digLen) (val * 10 + (of_char c - 48)) cs
      else c = CHR ''.'' \<and> digLen > 0 \<and> cs \<noteq> [] \<and> pos \<noteq> 3 \<and> ipv4_fields (Suc pos) 0 0 cs)"

text \<open>The loop of \<open>parseIPv6\<close> over groups: \<open>i\<close> bytes are filled, \<open>e\<close> says an ellipsis was seen.
  The result is what is left, the bytes filled and the ellipsis; \<open>None\<close> is an error.\<close>

function (sequential) ipv6_groups :: "nat \<Rightarrow> bool \<Rightarrow> string \<Rightarrow> (string \<times> nat \<times> bool) option" where
  "ipv6_groups i e s =
     (if i \<ge> 16 then Some (s, i, e)
      else let off = length (takeWhile hex_digit s); rest = drop off s
           in if off = 0 \<or> off > 4 then None
              else if rest \<noteq> [] \<and> hd rest = CHR ''.''
              then (if \<not> e \<and> i \<noteq> 12 \<or> i + 4 > 16 \<or> \<not> ipv4_fields 0 0 0 s then None else Some ([], i + 4, e))
              else (case rest of [] \<Rightarrow> Some ([], i + 2, e)
                    | c # r \<Rightarrow>
                        if c \<noteq> CHR '':'' \<or> r = [] then None
                        else if hd r = CHR '':''
                        then (if e then None else if tl r = [] then Some ([], i + 2, True) else ipv6_groups (i + 2) True (tl r))
                        else ipv6_groups (i + 2) e r))"
  by pat_completeness auto
termination
  by (relation "measure (\<lambda>(i, e, s). 16 - i)") auto

declare ipv6_groups.simps [simp del]
lemmas ipv6_groups_code [code] = ipv6_groups.simps

definition ipv6_ok :: "string \<Rightarrow> bool" where
  "ipv6_ok str =
     (let s = takeWhile (\<lambda>c. c \<noteq> CHR ''%'') str;
          zoned = (CHR ''%'' \<in> set str);
          start = (take 2 s = ''::'')
      in \<not> (zoned \<and> length s + 1 = length str) \<and>
         (if start \<and> length s = 2 then True
          else case ipv6_groups 0 start (if start then drop 2 s else s) of
                 None \<Rightarrow> False
               | Some (left, i, e) \<Rightarrow> left = [] \<and> (if i < 16 then e else \<not> e)))"

definition ParseAddr_ok :: "string \<Rightarrow> bool" where
  "ParseAddr_ok s = (case find (\<lambda>c. c = CHR ''.'' \<or> c = CHR '':'' \<or> c = CHR ''%'') s of
     None \<Rightarrow> False
   | Some c \<Rightarrow> if c = CHR ''.'' then ipv4_fields 0 0 0 s else if c = CHR '':'' then ipv6_ok s else False)"

lemma ParseAddr_examples:
  "ParseAddr_ok ''203.0.113.1''" "\<not> ParseAddr_ok ''example.com''" "\<not> ParseAddr_ok ''1.2.3''"
  "\<not> ParseAddr_ok ''01.2.3.4''" "ParseAddr_ok ''2001:db8::1''" "ParseAddr_ok ''::ffff:1.2.3.4''"
  "\<not> ParseAddr_ok ''1:2:3:4:5:6:7:8:9''" "\<not> ParseAddr_ok ''fe80::1%''" "ParseAddr_ok ''::''"
  "\<not> ParseAddr_ok ''''" "\<not> ParseAddr_ok ''1::2::3''" "ParseAddr_ok ''fe80::1%eth0''"
  by code_simp+

end
