(* ===== verification/Region.thy ===== *)
theory Region
  imports Prelude Go_Strings
begin

text \<open>
  Country codes, their aliases and the versioned region buckets of
  \<open>src/internal/noderegion/region.go\<close>. The list of supported regions with their English and
  Chinese names comes from \<open>golang.org/x/text\<close>, which is not part of the repository: it is the
  argument of \<open>build_tables\<close>, the package's \<open>init\<close>. Every other function takes the tables.
\<close>

record country =
  rc_code :: string
  rc_isCountry :: bool
  rc_english :: string
  rc_hans :: string
  rc_hant :: string

record region_tables =
  rt_names :: "(string \<times> string) list"
  rt_aliases :: "(string \<times> string) list"

definition Other :: string where "Other = ''other''"
definition CurrentVersion :: int where "CurrentVersion = 2"

definition special_aliases :: "(string \<times> string) list" where
  "special_aliases =
    [(''uk'', ''gb''),
     (''usa'', ''us''),
     ([CHR 0xE4, CHR 0xB8, CHR 0xAD, CHR 0xE5, CHR 0x9B, CHR 0xBD], ''cn''),
     ([CHR 0xE4, CHR 0xB8, CHR 0xAD, CHR 0xE5, CHR 0x9C, CHR 0x8B], ''cn''),
     ([CHR 0xE9, CHR 0xA6, CHR 0x99, CHR 0xE6, CHR 0xB8, CHR 0xAF], ''hk''),
     ([CHR 0xE5, CHR 0x8F, CHR 0xB0, CHR 0xE6, CHR 0xB9, CHR 0xBE], ''tw''),
     ([CHR 0xE5, CHR 0x8F, CHR 0xB0, CHR 0xE7, CHR 0x81, CHR 0xA3], ''tw''),
     ([CHR 0xE6, CHR 0xBE, CHR 0xB3, CHR 0xE9, CHR 0x97, CHR 0xA8], ''mo''),
     ([CHR 0xE6, CHR 0xBE, CHR 0xB3, CHR 0xE9, CHR 0x96, CHR 0x80], ''mo''),
     ([CHR 0xE9, CHR 0x9F, CHR 0xA9, CHR 0xE5, CHR 0x9B, CHR 0xBD], ''kr''),
     ([CHR 0xE9, CHR 0x9F, CHR 0x93, CHR 0xE5, CHR 0x9C, CHR 0x8B], ''kr''),
     ([CHR 0xE8, CHR 0x8B, CHR 0xB1, CHR 0xE5, CHR 0x9B, CHR 0xBD], ''gb''),
     ([CHR 0xE8, CHR 0x8B, CHR 0xB1, CHR 0xE5, CHR 0x9C, CHR 0x8B], ''gb'')]"

definition put_nonempty :: "string \<Rightarrow> string \<Rightarrow> (string \<times> string) list \<Rightarrow> (string \<times> string) list" where
  "put_nonempty k v m = (if k = [] then m else aput k v m)"

definition add_region :: "country \<Rightarrow> region_tables \<Rightarrow> region_tables" where
  "add_region r t =
     (let code = to_lower (rc_code r)
      in if length code \<noteq> 2 \<or> \<not> rc_isCountry r \<or> trim_space (rc_english r) = [] then t
         else t\<lparr>rt_names := aput code (rc_english r) (rt_names t),
                rt_aliases := put_nonempty (rc_hant r) code (put_nonempty (rc_hans r) code
                  (aput (to_lower (rc_english r)) code (aput code code (rt_aliases t))))\<rparr>)"

definition build_tables :: "country list \<Rightarrow> region_tables" where
  "build_tables supported =
     (let t = fold add_region supported \<lparr>rt_names = [], rt_aliases = []\<rparr>
      in t\<lparr>rt_aliases := fold (\<lambda>(a, c). aput a c) special_aliases (rt_aliases t)\<rparr>)"

definition table_get :: "(string \<times> string) list \<Rightarrow> string \<Rightarrow> string" where
  "table_get m k = (case map_of m k of Some v \<Rightarrow> v | None \<Rightarrow> [])"

text \<open>Two regional indicator symbols, U+1F1E6 to U+1F1FF, four bytes each in UTF-8.\<close>

definition indicator :: "char \<Rightarrow> bool" where
  "indicator c \<longleftrightarrow> (let n = of_char c :: nat in 0xA6 \<le> n \<and> n \<le> 0xBF)"

definition indicator_letter :: "char \<Rightarrow> char" where
  "indicator_letter c = char_of (97 + (of_char c - 0xA6) :: nat)"

definition flag_letters :: "string \<Rightarrow> string" where
  "flag_letters v =
     (if length v = 8 \<and> take 3 v = [CHR 0xF0, CHR 0x9F, CHR 0x87] \<and>
         take 3 (drop 4 v) = [CHR 0xF0, CHR 0x9F, CHR 0x87] \<and> indicator (v ! 3) \<and> indicator (v ! 7)
      then [indicator_letter (v ! 3), indicator_letter (v ! 7)] else v)"

definition Normalize :: "region_tables \<Rightarrow> string \<Rightarrow> string" where
  "Normalize t value =
     (let v = to_lower (trim_space value)
      in if v = [] then [] else table_get (rt_aliases t) (flag_letters v))"

definition Valid :: "region_tables \<Rightarrow> string \<Rightarrow> bool" where
  "Valid t code \<longleftrightarrow> map_of (rt_names t) code \<noteq> None"

definition Name :: "region_tables \<Rightarrow> string \<Rightarrow> string" where
  "Name t code = (if code = Other then ''Other''
     else let name = table_get (rt_names t) (Normalize t code) in if name \<noteq> [] then name else ''Unknown'')"

definition IsOther :: "region_tables \<Rightarrow> string \<Rightarrow> bool" where
  "IsOther t code =
     (let c = Normalize t code
      in c \<noteq> [] \<and> c \<notin> {''jp'', ''kr'', ''us'', ''hk'', ''tw''})"

definition Legacy :: "string \<Rightarrow> string" where
  "Legacy value = (let v = to_lower (trim_space value) in if v = [] then Other else v)"

definition Matches :: "region_tables \<Rightarrow> string \<Rightarrow> string list \<Rightarrow> bool \<Rightarrow> int \<Rightarrow> bool" where
  "Matches t value regions includeUnknown version =
     (if version < CurrentVersion then list_ex (\<lambda>c. Legacy c = Legacy value) regions
      else let code = Normalize t value
           in if code = [] then includeUnknown
              else list_ex (\<lambda>c. equal_fold (trim_space c) Other \<and> IsOther t code \<or> Normalize t c = code) regions)"

section \<open>Properties\<close>

text \<open>Codes produced by the tables are canonical: normalising a normal form changes nothing.\<close>

definition canonical :: "region_tables \<Rightarrow> bool" where
  "canonical t \<longleftrightarrow> (\<forall>c \<in> snd ` set (rt_aliases t). c \<noteq> [] \<longrightarrow> Normalize t c = c)"

lemma table_get_in: "table_get m k \<noteq> [] \<Longrightarrow> table_get m k \<in> snd ` set m"
  by (force simp: table_get_def split: option.splits dest: map_of_SomeD)

lemma Normalize_idem: "canonical t \<Longrightarrow> Normalize t (Normalize t v) = Normalize t v"
proof (cases "Normalize t v = []")
  case False
  assume "canonical t"
  moreover have "Normalize t v \<in> snd ` set (rt_aliases t)"
    using False table_get_in unfolding Normalize_def Let_def by (auto split: if_splits)
  ultimately show ?thesis using False by (auto simp: canonical_def)
qed (simp add: Normalize_def trim_space_def)

definition common_regions :: "string list" where
  "common_regions = [''jp'', ''kr'', ''us'', ''hk'', ''tw'']"

definition demo_countries :: "country list" where
  "demo_countries = map (\<lambda>(c, e). \<lparr>rc_code = c, rc_isCountry = True, rc_english = e, rc_hans = [], rc_hant = []\<rparr>)
     [(''US'', ''United States''), (''JP'', ''Japan''), (''KR'', ''South Korea''), (''HK'', ''Hong Kong SAR China''),
      (''TW'', ''Taiwan''), (''GB'', ''United Kingdom''), (''CN'', ''China''), (''MO'', ''Macao SAR China'')]"

definition demo_regions :: region_tables where
  "demo_regions = \<lparr>rt_names = [(''us'', ''United States''), (''jp'', ''Japan''), (''kr'', ''South Korea''), (''hk'', ''Hong Kong SAR China''), (''tw'', ''Taiwan''), (''gb'', ''United Kingdom''), (''cn'', ''China''), (''mo'', ''Macao SAR China'')],
     rt_aliases = [(''us'', ''us''),
       (''united states'', ''us''),
       (''jp'', ''jp''),
       (''japan'', ''jp''),
       (''kr'', ''kr''),
       (''south korea'', ''kr''),
       (''hk'', ''hk''),
       (''hong kong sar china'', ''hk''),
       (''tw'', ''tw''),
       (''taiwan'', ''tw''),
       (''gb'', ''gb''),
       (''united kingdom'', ''gb''),
       (''cn'', ''cn''),
       (''china'', ''cn''),
       (''mo'', ''mo''),
       (''macao sar china'', ''mo''),
       (''uk'', ''gb''),
       (''usa'', ''us''),
       ([CHR 0xE4, CHR 0xB8, CHR 0xAD, CHR 0xE5, CHR 0x9B, CHR 0xBD], ''cn''),
       ([CHR 0xE4, CHR 0xB8, CHR 0xAD, CHR 0xE5, CHR 0x9C, CHR 0x8B], ''cn''),
       ([CHR 0xE9, CHR 0xA6, CHR 0x99, CHR 0xE6, CHR 0xB8, CHR 0xAF], ''hk''),
       ([CHR 0xE5, CHR 0x8F, CHR 0xB0, CHR 0xE6, CHR 0xB9, CHR 0xBE], ''tw''),
       ([CHR 0xE5, CHR 0x8F, CHR 0xB0, CHR 0xE7, CHR 0x81, CHR 0xA3], ''tw''),
       ([CHR 0xE6, CHR 0xBE, CHR 0xB3, CHR 0xE9, CHR 0x97, CHR 0xA8], ''mo''),
       ([CHR 0xE6, CHR 0xBE, CHR 0xB3, CHR 0xE9, CHR 0x96, CHR 0x80], ''mo''),
       ([CHR 0xE9, CHR 0x9F, CHR 0xA9, CHR 0xE5, CHR 0x9B, CHR 0xBD], ''kr''),
       ([CHR 0xE9, CHR 0x9F, CHR 0x93, CHR 0xE5, CHR 0x9C, CHR 0x8B], ''kr''),
       ([CHR 0xE8, CHR 0x8B, CHR 0xB1, CHR 0xE5, CHR 0x9B, CHR 0xBD], ''gb''),
       ([CHR 0xE8, CHR 0x8B, CHR 0xB1, CHR 0xE5, CHR 0x9C, CHR 0x8B], ''gb'')]\<rparr>"

lemma demo_regions_built: "build_tables demo_countries = demo_regions"
  by code_simp

lemma demo_tables:
  "canonical demo_regions"
  "\<forall>c \<in> set common_regions. Normalize demo_regions c = c"
  "Normalize demo_regions '' UK '' = ''gb''"
  "Normalize demo_regions [CHR 0xE4, CHR 0xB8, CHR 0xAD, CHR 0xE5, CHR 0x9B, CHR 0xBD] = ''cn''"
  "Normalize demo_regions
     [CHR 0xF0, CHR 0x9F, CHR 0x87, CHR 0xAF, CHR 0xF0, CHR 0x9F, CHR 0x87, CHR 0xB5] = ''jp''"
  "Normalize demo_regions ''other'' = []"
  by code_simp+

text \<open>The version 2 region buckets partition the known countries. When the tables normalise
  the common countries and \<open>other\<close> as documented, a node whose region is known matches exactly one
  of the buckets jp, kr, us, hk, tw and other; a node of unknown region matches a selection exactly
  when unknown regions are included.\<close>

theorem region_buckets_partition:
  assumes "canonical t" and "\<forall>c \<in> set common_regions. Normalize t c = c" and "Normalize t Other = []"
    and "CurrentVersion \<le> ver"
  shows "(Normalize t value \<noteq> [] \<longrightarrow>
      length (filter (\<lambda>b. Matches t value [b] unk ver) (Other # common_regions)) = 1) \<and>
    (Normalize t value = [] \<longrightarrow> Matches t value bs unk ver = unk)"
proof -
  have one: "Matches t value [b] unk ver \<longleftrightarrow>
      (if b = Other then Normalize t value \<notin> set common_regions else Normalize t value = b)"
    if "b \<in> set (Other # common_regions)" and known: "Normalize t value \<noteq> []" for b
  proof -
    have "IsOther t (Normalize t value) \<longleftrightarrow> Normalize t value \<notin> set common_regions"
      using known Normalize_idem [OF assms(1)] by (simp add: IsOther_def common_regions_def Let_def)
    moreover have "equal_fold (trim_space b) Other \<longleftrightarrow> b = Other"
      using that(1) by (elim set_ConsD [elim_format]) (auto simp: common_regions_def Other_def equal_fold_def to_lower_def
          trim_space_def is_space_def lower_char_def)
    ultimately show ?thesis
      using that assms(2,3,4) by (auto simp: Matches_def Let_def)
  qed
  have "length (filter (\<lambda>b. Matches t value [b] unk ver) (Other # common_regions)) = 1"
    if known: "Normalize t value \<noteq> []"
    using one [OF _ known] by (simp add: common_regions_def Other_def)
  then show ?thesis using assms(4) by (simp add: Matches_def Let_def)
qed

theorem region_buckets_partition_witness:
  "length (filter (\<lambda>b. Matches demo_regions ''United Kingdom'' [b] False 2) (Other # common_regions)) = 1"
proof -
  have "Normalize demo_regions ''United Kingdom'' \<noteq> []"
    "Normalize demo_regions Other = []" "CurrentVersion \<le> 2" by code_simp+
  with region_buckets_partition [OF demo_tables(1,2)] show ?thesis by blast
qed

end
