(* ===== verification/Membership.thy ===== *)
theory Membership
  imports Region
begin

text \<open>
  The membership predicate of \<open>src/internal/nodeselect/filter.go\<close> and its group adapter
  \<open>src/internal/groupmember/filter.go\<close>. \<open>config.GroupPoolConfig\<close> and \<open>config.NodeConfig\<close>
  contribute the fields the predicate reads. The compiled \<open>Filter\<close> holds Go sets as lists.
\<close>

record Node =
  nd_ID :: node_id
  nd_Region :: string
  nd_Tags :: "string list"

record Spec =
  sp_Enabled :: bool
  sp_Regions :: "string list"
  sp_ExcludeRegions :: "string list"
  sp_RegionRuleVersion :: int
  sp_IncludeUnknownRegion :: bool
  sp_RequireRegion :: bool
  sp_ExplicitIDs :: "node_id list"
  sp_ExcludedIDs :: "node_id list"
  sp_TagWhitelist :: "int list"
  sp_TagBlacklist :: "int list"
  sp_TagMatch :: string

datatype reason = group_disabled | explicitly_excluded | explicitly_included | unknown_region
  | region_mismatch | region_excluded | tag_blacklisted | tag_whitelist_mismatch | rules_matched

record Decision =
  de_Allowed :: bool
  de_Reason :: reason

record Filter =
  fi_spec :: Spec
  fi_explicit :: "node_id list"
  fi_excluded :: "node_id list"
  fi_whitelist :: "string list"
  fi_blacklist :: "string list"

definition resolve :: "(int \<times> string) list \<Rightarrow> int \<Rightarrow> string" where
  "resolve tagNames i = (case map_of tagNames i of
     Some name \<Rightarrow> if name \<noteq> [] then name else CHR 0x00 # ''unresolved-tag-'' @ format_int i
   | None \<Rightarrow> CHR 0x00 # ''unresolved-tag-'' @ format_int i)"

definition New :: "Spec \<Rightarrow> (int \<times> string) list \<Rightarrow> Filter" where
  "New spec tagNames = \<lparr>fi_spec = spec, fi_explicit = sp_ExplicitIDs spec, fi_excluded = sp_ExcludedIDs spec,
     fi_whitelist = map (resolve tagNames) (sp_TagWhitelist spec),
     fi_blacklist = map (resolve tagNames) (sp_TagBlacklist spec)\<rparr>"

definition deny :: "reason \<Rightarrow> Decision" where
  "deny r = \<lparr>de_Allowed = False, de_Reason = r\<rparr>"

definition allow :: "reason \<Rightarrow> Decision" where
  "allow r = \<lparr>de_Allowed = True, de_Reason = r\<rparr>"

definition matched_tags :: "string list \<Rightarrow> Node \<Rightarrow> nat" where
  "matched_tags whitelist n = length (filter (\<lambda>tag. tag \<in> set (nd_Tags n)) whitelist)"

definition Explain :: "region_tables \<Rightarrow> Filter \<Rightarrow> Node \<Rightarrow> Decision" where
  "Explain t f n =
     (let s = fi_spec f; matched = matched_tags (fi_whitelist f) n
      in if \<not> sp_Enabled s then deny group_disabled
         else if nd_ID n \<in> set (fi_excluded f) then deny explicitly_excluded
         else if nd_ID n \<in> set (fi_explicit f) then allow explicitly_included
         else if (sp_RequireRegion s \<or> sp_Regions s \<noteq> []) \<and>
            \<not> Matches t (nd_Region n) (sp_Regions s) (sp_IncludeUnknownRegion s) (sp_RegionRuleVersion s)
         then deny (if Normalize t (nd_Region n) = [] then unknown_region else region_mismatch)
         else if Matches t (nd_Region n) (sp_ExcludeRegions s) False (sp_RegionRuleVersion s) then deny region_excluded
         else if list_ex (\<lambda>tag. tag \<in> set (fi_blacklist f)) (nd_Tags n) then deny tag_blacklisted
         else if fi_whitelist f \<noteq> [] \<and>
            (matched = 0 \<or> equal_fold (sp_TagMatch s) ''all'' \<and> matched \<noteq> length (fi_whitelist f))
         then deny tag_whitelist_mismatch
         else allow rules_matched)"

definition Allow :: "region_tables \<Rightarrow> Filter \<Rightarrow> Node \<Rightarrow> bool" where
  "Allow t f n = de_Allowed (Explain t f n)"

section \<open>The group adapter\<close>

record GroupPoolConfig =
  gp_Enabled :: bool
  gp_Regions :: "string list"
  gp_ExcludeRegions :: "string list"
  gp_RegionRuleVersion :: int
  gp_IncludeUnknownRegion :: bool
  gp_ExplicitNodeIDs :: "node_id list"
  gp_ExcludedNodeIDs :: "node_id list"
  gp_TagWhitelist :: "int list"
  gp_TagBlacklist :: "int list"
  gp_TagFilterMatch :: string

definition NewFilter :: "GroupPoolConfig \<Rightarrow> (int \<times> string) list \<Rightarrow> Filter" where
  "NewFilter g tagNames = New \<lparr>sp_Enabled = gp_Enabled g, sp_Regions = gp_Regions g,
     sp_ExcludeRegions = gp_ExcludeRegions g, sp_RegionRuleVersion = gp_RegionRuleVersion g,
     sp_IncludeUnknownRegion = gp_IncludeUnknownRegion g, sp_RequireRegion = True,
     sp_ExplicitIDs = gp_ExplicitNodeIDs g, sp_ExcludedIDs = gp_ExcludedNodeIDs g,
     sp_TagWhitelist = gp_TagWhitelist g, sp_TagBlacklist = gp_TagBlacklist g,
     sp_TagMatch = gp_TagFilterMatch g\<rparr> tagNames"

text \<open>\<open>cfg = None\<close> is the nil configuration; the outer option distinguishes Go's nil result from an
  empty list, which the reload path compares.\<close>

definition Nodes :: "region_tables \<Rightarrow> Node list option \<Rightarrow> GroupPoolConfig \<Rightarrow> (int \<times> string) list \<Rightarrow> Node list option" where
  "Nodes t cfg g tagNames = (case cfg of None \<Rightarrow> None
     | Some nodes \<Rightarrow> if \<not> gp_Enabled g then None else Some (filter (Allow t (NewFilter g tagNames)) nodes))"

definition NormalizeRegion :: "string \<Rightarrow> string" where
  "NormalizeRegion region = Legacy region"

section \<open>The declarative rule\<close>

text \<open>What the documentation promises, over tag identifiers instead of resolved names.\<close>

definition carries :: "(int \<times> string) list \<Rightarrow> Node \<Rightarrow> int \<Rightarrow> bool" where
  "carries tagNames n i = (case map_of tagNames i of Some name \<Rightarrow> name \<noteq> [] \<and> name \<in> set (nd_Tags n) | None \<Rightarrow> False)"

definition region_rule :: "region_tables \<Rightarrow> Spec \<Rightarrow> Node \<Rightarrow> bool" where
  "region_rule t s n \<longleftrightarrow>
     ((sp_RequireRegion s \<or> sp_Regions s \<noteq> []) \<longrightarrow>
        Matches t (nd_Region n) (sp_Regions s) (sp_IncludeUnknownRegion s) (sp_RegionRuleVersion s)) \<and>
     \<not> Matches t (nd_Region n) (sp_ExcludeRegions s) False (sp_RegionRuleVersion s)"

definition tag_rule :: "(int \<times> string) list \<Rightarrow> Spec \<Rightarrow> Node \<Rightarrow> bool" where
  "tag_rule tagNames s n \<longleftrightarrow> \<not> list_ex (carries tagNames n) (sp_TagBlacklist s) \<and>
     (sp_TagWhitelist s = [] \<or>
      (if equal_fold (sp_TagMatch s) ''all'' then list_all (carries tagNames n) (sp_TagWhitelist s)
       else list_ex (carries tagNames n) (sp_TagWhitelist s)))"

text \<open>Tag names as the tag store admits them: none starts with a NUL byte.\<close>

definition plain_tags :: "Node \<Rightarrow> bool" where
  "plain_tags n \<longleftrightarrow> list_all (\<lambda>tag. tag = [] \<or> hd tag \<noteq> CHR 0x00) (nd_Tags n)"

lemma resolve_carries:
  "plain_tags n \<Longrightarrow> resolve tagNames i \<in> set (nd_Tags n) \<longleftrightarrow> carries tagNames n i"
  by (auto simp: plain_tags_def list_all_iff resolve_def carries_def split: option.splits)

lemma matched_tags_resolve:
  assumes "plain_tags n"
  shows "matched_tags (map (resolve tagNames) ids) n = length (filter (carries tagNames n) ids)"
  using resolve_carries [OF assms] by (simp add: matched_tags_def filter_map o_def)

lemma length_filter_eq_iff: "length (filter P xs) = length xs \<longleftrightarrow> list_all P xs"
  by (metis (full_types) filter_all_in length_filter_lt less_irrefl list_all_iff)

lemma whitelist_rule:
  assumes "plain_tags n"
  shows "\<not> (map (resolve tagNames) ids \<noteq> [] \<and>
      (matched_tags (map (resolve tagNames) ids) n = 0 \<or>
       b \<and> matched_tags (map (resolve tagNames) ids) n \<noteq> length (map (resolve tagNames) ids))) \<longleftrightarrow>
    (ids = [] \<or> (if b then list_all (carries tagNames n) ids else list_ex (carries tagNames n) ids))"
proof (cases "ids = []")
  case False
  then show ?thesis
    unfolding matched_tags_resolve [OF assms] length_map length_filter_eq_iff
    by (cases ids) (auto simp: filter_empty_conv list_ex_iff list_all_iff)
qed simp

lemma blacklist_rule:
  assumes "plain_tags n"
  shows "list_ex (\<lambda>tag. tag \<in> set (map (resolve tagNames) ids)) (nd_Tags n) \<longleftrightarrow> list_ex (carries tagNames n) ids"
  unfolding list_ex_iff using resolve_carries [OF assms] by auto

lemma Allow_iff:
  assumes "plain_tags n"
  shows "Allow t (New s tagNames) n \<longleftrightarrow>
    sp_Enabled s \<and> nd_ID n \<notin> set (sp_ExcludedIDs s) \<and>
    (nd_ID n \<in> set (sp_ExplicitIDs s) \<or> region_rule t s n \<and> tag_rule tagNames s n)"
proof -
  note w = whitelist_rule [OF assms, of tagNames "sp_TagWhitelist s" "equal_fold (sp_TagMatch s) ''all''"]
  show ?thesis
    unfolding Allow_def Explain_def New_def Let_def Filter.simps blacklist_rule [OF assms] region_rule_def tag_rule_def
      w [symmetric]
    by (auto simp: deny_def allow_def simp del: map_is_Nil_conv length_map)
qed

text \<open>C18: the compiled filter decides exactly the documented rule. The members of an enabled group
  are, in configuration order, the nodes that are not excluded and are listed explicitly or satisfy
  the group's region and tag rules: no tag of its blacklist, and some tag of its whitelist, or all of
  them when the group asks for all, if it has a whitelist. A tag identifier that resolves to no name
  matches no node, neither as a whitelist nor as a blacklist entry. A disabled group yields the nil
  result. (No tag of a node starts with a NUL byte; the tag store admits no such name.)\<close>

theorem membership_rule:
  assumes "list_all plain_tags nodes"
  shows "Nodes t (Some nodes) g tagNames =
    (if gp_Enabled g
     then Some (filter (\<lambda>n. nd_ID n \<notin> set (gp_ExcludedNodeIDs g) \<and>
            (nd_ID n \<in> set (gp_ExplicitNodeIDs g) \<or>
             Matches t (nd_Region n) (gp_Regions g) (gp_IncludeUnknownRegion g) (gp_RegionRuleVersion g) \<and>
             \<not> Matches t (nd_Region n) (gp_ExcludeRegions g) False (gp_RegionRuleVersion g) \<and>
             \<not> list_ex (carries tagNames n) (gp_TagBlacklist g) \<and>
             (gp_TagWhitelist g = [] \<or>
              (if equal_fold (gp_TagFilterMatch g) ''all'' then list_all (carries tagNames n) (gp_TagWhitelist g)
               else list_ex (carries tagNames n) (gp_TagWhitelist g))))) nodes)
     else None)"
proof -
  have "Allow t (NewFilter g tagNames) n \<longleftrightarrow> gp_Enabled g \<and> nd_ID n \<notin> set (gp_ExcludedNodeIDs g) \<and>
      (nd_ID n \<in> set (gp_ExplicitNodeIDs g) \<or>
       Matches t (nd_Region n) (gp_Regions g) (gp_IncludeUnknownRegion g) (gp_RegionRuleVersion g) \<and>
       \<not> Matches t (nd_Region n) (gp_ExcludeRegions g) False (gp_RegionRuleVersion g) \<and>
       \<not> list_ex (carries tagNames n) (gp_TagBlacklist g) \<and>
       (gp_TagWhitelist g = [] \<or>
        (if equal_fold (gp_TagFilterMatch g) ''all'' then list_all (carries tagNames n) (gp_TagWhitelist g)
         else list_ex (carries tagNames n) (gp_TagWhitelist g))))" if "n \<in> set nodes" for n
  proof -
    have plain: "plain_tags n" using that assms by (simp add: list_all_iff)
    show ?thesis unfolding NewFilter_def Allow_iff [OF plain] by (auto simp: region_rule_def tag_rule_def)
  qed
  then show ?thesis
    by (auto simp: Nodes_def intro!: filter_cong)
qed

definition demo_pool :: GroupPoolConfig where
  "demo_pool = \<lparr>gp_Enabled = True, gp_Regions = [''jp'', ''other''], gp_ExcludeRegions = [''gb''],
     gp_RegionRuleVersion = 2, gp_IncludeUnknownRegion = False, gp_ExplicitNodeIDs = [4], gp_ExcludedNodeIDs = [1],
     gp_TagWhitelist = [10, 11], gp_TagBlacklist = [99], gp_TagFilterMatch = ''any''\<rparr>"

definition demo_nodes :: "Node list" where
  "demo_nodes = map (\<lambda>(i, r, ts). \<lparr>nd_ID = i, nd_Region = r, nd_Tags = ts\<rparr>)
     [(1, ''jp'', [''fast'']), (2, ''JP'', [''fast'']), (3, ''jp'', []), (4, ''us'', []), (5, ''gb'', [''fast'']),
      (6, ''cn'', [''fast''])]"

theorem membership_rule_witness:
  "map nd_ID (the (Nodes demo_regions (Some demo_nodes) demo_pool [(10, ''fast'')])) = [2, 4, 6]"
proof -
  have "list_all plain_tags demo_nodes" by code_simp
  note rule = membership_rule [OF this, of demo_regions demo_pool "[(10, ''fast'')]"]
  show ?thesis unfolding rule by code_simp
qed

end
