(* ===== verification/Location.thy ===== *)
theory Location
  imports Region
begin

text \<open>
  Landing locations: \<open>src/internal/nodeloc/state.go\<close> and \<open>nodeloc.go\<close>. \<open>Decide\<close> is the pure
  decision the repository commits in one transaction. The embedded structs \<open>Token\<close> and
  \<open>Evidence\<close> are fields. Reasons are the strings the code uses.
\<close>

datatype Source = SourceLegacy | SourceGeoIPExit | SourceExitProbe | SourceManual | OtherSource string

record Loc =
  lo_ISO :: string
  lo_Country :: string
  lo_Source :: Source
  lo_Known :: bool
  lo_CheckedAt :: gtime

record Token =
  tk_Identity :: string
  tk_Revision :: int

record Evidence =
  ec_Current :: Loc
  ec_Candidate :: Loc
  ec_Confirmations :: int

record LocState =
  ls_Token :: Token
  ls_Evidence :: Evidence
  ls_BeforeProbe :: Evidence
  ls_LastProbeID :: string
  ls_LastStartedAt :: gtime
  ls_LastSource :: Source
  ls_LastSucceeded :: bool

record Change =
  ch_Location :: Loc
  ch_Changed :: bool
  ch_MembershipChanged :: bool
  ch_Applied :: bool
  ch_Reason :: string

record Observation =
  ob_Token :: Token
  ob_ProbeID :: string
  ob_StartedAt :: gtime
  ob_CheckedAt :: gtime
  ob_IP :: string
  ob_Source :: Source
  ob_Succeeded :: bool
  ob_ISO :: string
  ob_Country :: string

definition empty_loc :: Loc where
  "empty_loc = \<lparr>lo_ISO = [], lo_Country = [], lo_Source = OtherSource [], lo_Known = False, lo_CheckedAt = zero_time\<rparr>"

definition sourcePriority :: "Source \<Rightarrow> int" where
  "sourcePriority s = (case s of SourceManual \<Rightarrow> 3 | SourceExitProbe \<Rightarrow> 2 | SourceGeoIPExit \<Rightarrow> 1 | _ \<Rightarrow> 0)"

definition ValidISO :: "region_tables \<Rightarrow> string \<Rightarrow> bool" where
  "ValidISO t code = Valid t code"

text \<open>The early returns of \<open>Decide\<close>, in the order of the code.\<close>

definition obs_success :: "region_tables \<Rightarrow> Observation \<Rightarrow> bool" where
  "obs_success t obs \<longleftrightarrow> ob_Succeeded obs \<and> ValidISO t (Normalize t (ob_ISO obs)) \<and>
     (ob_Source obs = SourceManual \<or> ParseAddr_ok (trim_space (ob_IP obs)))"

definition rejection :: "region_tables \<Rightarrow> LocState \<Rightarrow> Observation \<Rightarrow> string option" where
  "rejection t st obs =
     (if tk_Identity (ob_Token obs) = [] \<or> tk_Identity (ob_Token obs) \<noteq> tk_Identity (ls_Token st) \<or>
         tk_Revision (ob_Token obs) \<noteq> tk_Revision (ls_Token st) then Some ''identity_changed''
      else if ob_ProbeID obs = [] \<or> is_zero_time (ob_StartedAt obs) \<or> ob_CheckedAt obs < ob_StartedAt obs
      then Some ''invalid_observation''
      else if sourcePriority (ob_Source obs) = 0 then Some ''unsupported_source''
      else if ob_StartedAt obs < ls_LastStartedAt st then Some ''older_observation''
      else if ob_ProbeID obs = ls_LastProbeID st then
        (if ob_StartedAt obs \<noteq> ls_LastStartedAt st then Some ''invalid_replay''
         else if sourcePriority (ob_Source obs) < sourcePriority (ls_LastSource st) \<or>
            sourcePriority (ob_Source obs) = sourcePriority (ls_LastSource st) \<and>
              (ls_LastSucceeded st \<or> \<not> obs_success t obs)
         then Some ''duplicate_observation'' else None)
      else None)"

definition next_loc :: "region_tables \<Rightarrow> Observation \<Rightarrow> Loc \<Rightarrow> Loc" where
  "next_loc t obs cur =
     (let code = Normalize t (ob_ISO obs); country = trim_space (ob_Country obs)
      in \<lparr>lo_ISO = code, lo_Country = (if code = lo_ISO cur \<and> country = [] then lo_Country cur else country),
          lo_Source = ob_Source obs, lo_Known = True, lo_CheckedAt = ob_CheckedAt obs\<rparr>)"

definition settle :: "Evidence \<Rightarrow> Loc \<Rightarrow> Evidence" where
  "settle e l = e\<lparr>ec_Current := l, ec_Candidate := empty_loc, ec_Confirmations := 0\<rparr>"

text \<open>What an accepted observation does to the evidence, with the reason.\<close>

definition weigh :: "region_tables \<Rightarrow> Observation \<Rightarrow> Evidence \<Rightarrow> Evidence \<times> string" where
  "weigh t obs e =
     (let cur = ec_Current e; cleared = e\<lparr>ec_Candidate := empty_loc, ec_Confirmations := 0\<rparr>
      in if \<not> obs_success t obs then (cleared, ''failed_or_unclassified'')
         else if lo_Source cur = SourceManual \<and> ob_Source obs \<noteq> SourceManual then (cleared, ''manual_override'')
         else let nxt = next_loc t obs cur
              in if \<not> lo_Known cur \<or> lo_Source cur = SourceLegacy \<or> lo_ISO nxt = lo_ISO cur \<or> ob_Source obs = SourceManual
                 then (settle e nxt, ''accepted'')
                 else let n = (if lo_ISO nxt \<noteq> lo_ISO (ec_Candidate e) then 0 else ec_Confirmations e) + 1
                      in if n \<ge> 2 then (settle e nxt, ''confirmed'')
                         else (e\<lparr>ec_Candidate := nxt, ec_Confirmations := n\<rparr>, ''awaiting_confirmation''))"

definition Decide :: "region_tables \<Rightarrow> LocState \<Rightarrow> Observation \<Rightarrow> LocState \<times> Change" where
  "Decide t st obs =
     (let before = ec_Current (ls_Evidence st)
      in case rejection t st obs of
           Some why \<Rightarrow> (st, \<lparr>ch_Location = before, ch_Changed = False, ch_MembershipChanged = False,
                            ch_Applied = False, ch_Reason = why\<rparr>)
         | None \<Rightarrow>
             let st1 = (if ob_ProbeID obs = ls_LastProbeID st then st\<lparr>ls_Evidence := ls_BeforeProbe st\<rparr>
                        else st\<lparr>ls_BeforeProbe := ls_Evidence st\<rparr>);
                 (e, why) = weigh t obs (ls_Evidence st1);
                 st2 = st1\<lparr>ls_Evidence := e, ls_LastProbeID := ob_ProbeID obs, ls_LastStartedAt := ob_StartedAt obs,
                           ls_LastSource := ob_Source obs, ls_LastSucceeded := obs_success t obs\<rparr>;
                 cur = ec_Current e
             in (st2, \<lparr>ch_Location = cur,
                  ch_Changed = (lo_ISO before \<noteq> lo_ISO cur \<or> lo_Country before \<noteq> lo_Country cur \<or>
                                lo_Known before \<noteq> lo_Known cur),
                  ch_MembershipChanged = (lo_ISO before \<noteq> lo_ISO cur \<or> lo_Known before \<noteq> lo_Known cur),
                  ch_Applied = True, ch_Reason = why\<rparr>))"

section \<open>Properties\<close>



abbreviation current :: "LocState \<Rightarrow> Loc" where
  "current st \<equiv> ec_Current (ls_Evidence st)"

text \<open>An observation that passes every guard, with its evidence base.\<close>

definition base_evidence :: "LocState \<Rightarrow> Observation \<Rightarrow> Evidence" where
  "base_evidence st obs = (if ob_ProbeID obs = ls_LastProbeID st then ls_BeforeProbe st else ls_Evidence st)"

lemma Decide_rejected: "rejection t st obs = Some why \<Longrightarrow> fst (Decide t st obs) = st"
  by (simp add: Decide_def)

lemma Decide_accepted:
  assumes "rejection t st obs = None"
  shows "ls_Evidence (fst (Decide t st obs)) = fst (weigh t obs (base_evidence st obs))"
    and "ls_BeforeProbe (fst (Decide t st obs)) = base_evidence st obs"
    and "ls_LastProbeID (fst (Decide t st obs)) = ob_ProbeID obs"
    and "ls_LastStartedAt (fst (Decide t st obs)) = ob_StartedAt obs"
    and "ls_LastSource (fst (Decide t st obs)) = ob_Source obs"
    and "ls_LastSucceeded (fst (Decide t st obs)) = obs_success t obs"
    and "ls_Token (fst (Decide t st obs)) = ls_Token st"
  using assms by (simp_all add: Decide_def base_evidence_def Let_def case_prod_beta)

lemma weigh_failed: "\<not> obs_success t obs \<Longrightarrow> ec_Current (fst (weigh t obs e)) = ec_Current e"
  by (simp add: weigh_def Let_def)

lemma rejection_None:
  assumes "rejection t st obs = None"
  shows "ob_Token obs = ls_Token st" and "ls_LastStartedAt st \<le> ob_StartedAt obs"
    and "ob_ProbeID obs = ls_LastProbeID st \<Longrightarrow>
      sourcePriority (ls_LastSource st) \<le> sourcePriority (ob_Source obs) \<and>
      (sourcePriority (ls_LastSource st) = sourcePriority (ob_Source obs) \<longrightarrow> \<not> ls_LastSucceeded st \<and> obs_success t obs)"
  using assms by (auto simp: rejection_def split: if_splits)

text \<open>Only matching evidence moves a node. If a decision changes the accepted location, the
  observation carries the node's identity and revision, is not older than the last one, and either
  succeeded or is a higher-priority classification of the last probe, in which case the location is
  the one accepted before that probe.\<close>

theorem location_change_justified:
  assumes "current (fst (Decide t st obs)) \<noteq> current st"
  shows "ob_Token obs = ls_Token st \<and> ls_LastStartedAt st \<le> ob_StartedAt obs \<and>
    (obs_success t obs \<or>
     ob_ProbeID obs = ls_LastProbeID st \<and> sourcePriority (ls_LastSource st) < sourcePriority (ob_Source obs) \<and>
     current (fst (Decide t st obs)) = ec_Current (ls_BeforeProbe st))"
proof (cases "rejection t st obs")
  case (Some why)
  with assms Decide_rejected [OF Some] show ?thesis by simp
next
  case None
  note r = rejection_None [OF None]
  show ?thesis
  proof (cases "obs_success t obs")
    case False
    then have cur: "current (fst (Decide t st obs)) = ec_Current (base_evidence st obs)"
      by (simp add: Decide_accepted(1) [OF None] weigh_failed)
    with assms have same: "ob_ProbeID obs = ls_LastProbeID st" by (auto simp: base_evidence_def split: if_splits)
    with cur r False show ?thesis by (auto simp: base_evidence_def)
  qed (use r in simp)
qed

text \<open>A location that automatic evidence can only replace after a confirmation.\<close>

definition settled_at :: "string \<Rightarrow> LocState \<Rightarrow> bool" where
  "settled_at c st \<longleftrightarrow> lo_Known (current st) \<and> lo_ISO (current st) = c \<and>
     lo_Source (current st) \<noteq> SourceLegacy \<and> lo_Source (current st) \<noteq> SourceManual"

text \<open>
  The verdict of a probe is the country its last accepted classification saw, or none if that
  classification failed; a reclassification of the same probe replaces its verdict. The country the
  probes agree on is the one that two verdicts in a row last named, \<open>c\<close> as long as no two did.
\<close>

definition verdict :: "region_tables \<Rightarrow> Observation \<Rightarrow> string option" where
  "verdict t obs = (if obs_success t obs then Some (Normalize t (ob_ISO obs)) else None)"

fun verdicts :: "region_tables \<Rightarrow> LocState \<Rightarrow> string option list \<Rightarrow> Observation list \<Rightarrow> string option list" where
  "verdicts t st vs [] = vs"
| "verdicts t st vs (obs # os) =
     (if rejection t st obs \<noteq> None then verdicts t st vs os
      else verdicts t (fst (Decide t st obs))
             ((if ob_ProbeID obs = ls_LastProbeID st then butlast vs else vs) @ [verdict t obs]) os)"

fun agreed :: "string \<Rightarrow> string option list \<Rightarrow> string" where
  "agreed c (v # w # vs) = agreed (if v = w \<and> v \<noteq> None then the v else c) (w # vs)"
| "agreed c vs = c"

definition run_observations :: "region_tables \<Rightarrow> Observation list \<Rightarrow> LocState \<Rightarrow> LocState" where
  "run_observations t os st = fold (\<lambda>obs s. fst (Decide t s obs)) os st"

lemma agreed_snoc:
  "agreed c (vs @ [v]) = (if vs \<noteq> [] \<and> last vs = v \<and> v \<noteq> None then the v else agreed c vs)"
  by (induction c vs rule: agreed.induct) auto

text \<open>The evidence that a list of verdicts leaves: the agreed country, and the last verdict as the candidate
  when it names another one.\<close>

definition evidence_of :: "string \<Rightarrow> string option list \<Rightarrow> Evidence \<Rightarrow> bool" where
  "evidence_of c vs e \<longleftrightarrow> lo_Known (ec_Current e) \<and> lo_Source (ec_Current e) \<noteq> SourceLegacy \<and>
     lo_Source (ec_Current e) \<noteq> SourceManual \<and> lo_ISO (ec_Current e) = agreed c vs \<and>
     (if vs \<noteq> [] \<and> last vs \<noteq> None \<and> last vs \<noteq> Some (agreed c vs)
      then last vs = Some (lo_ISO (ec_Candidate e)) \<and> ec_Confirmations e = 1 else ec_Confirmations e = 0)"

lemma weigh_evidence:
  assumes "evidence_of c vs e" and "ob_Source obs \<noteq> SourceManual" "ob_Source obs \<noteq> SourceLegacy"
  shows "evidence_of c (vs @ [verdict t obs]) (fst (weigh t obs e))"
proof (cases "obs_success t obs")
  case False
  then show ?thesis using assms by (simp add: evidence_of_def verdict_def weigh_def agreed_snoc Let_def)
next
  case True
  let ?d = "Normalize t (ob_ISO obs)"
  have iso: "lo_ISO (next_loc t obs (ec_Current e)) = ?d" "lo_Known (next_loc t obs (ec_Current e))"
    "lo_Source (next_loc t obs (ec_Current e)) = ob_Source obs"
    by (simp_all add: next_loc_def Let_def)
  have v: "verdict t obs = Some ?d" using True by (simp add: verdict_def)
  show ?thesis
    using assms True iso unfolding evidence_of_def v agreed_snoc weigh_def settle_def Let_def
    by (cases "vs = []"; cases "last vs") (auto split: if_splits)
qed

text \<open>C20: a relocation needs two consecutive independent probes that agree. Start at a settled location
  (known, from an automatic source) with no candidate pending, and report any observations of automatic
  sources, accepted or rejected, successful or not, several of one probe or not, none of them of the
  probe that came last before. Then the country of the node is the one that two probes in a row last
  agreed on, each probe taken by its last accepted classification, and the old one as long as no two
  did. So one probe never moves the node, a failed probe in between starts the count again, and a
  reclassification of a probe neither confirms it nor counts beside it.\<close>

theorem relocation_confirmed:
  assumes "settled_at c st" and "ec_Confirmations (ls_Evidence st) = 0"
    and "\<forall>obs \<in> set os. ob_Source obs \<noteq> SourceManual \<and> ob_ProbeID obs \<noteq> ls_LastProbeID st"
  shows "lo_ISO (current (run_observations t os st)) = agreed c (verdicts t st [] os)"
proof -
  define same where "same vs s \<longleftrightarrow> evidence_of c vs (ls_Evidence s) \<and>
    (if vs = [] then \<forall>obs \<in> set os. ob_ProbeID obs \<noteq> ls_LastProbeID s else evidence_of c (butlast vs) (ls_BeforeProbe s))" for vs and s :: LocState
  have "\<exists>e. evidence_of c (verdicts t s vs xs) e \<and> ls_Evidence (run_observations t xs s) = e"
    if "same vs s" "set xs \<subseteq> set os" for vs s xs
    using that
  proof (induction xs arbitrary: vs s)
    case Nil
    then show ?case by (simp add: same_def run_observations_def)
  next
    case (Cons obs xs)
    show ?case
    proof (cases "rejection t s obs")
      case (Some why)
      then show ?thesis using Cons by (simp add: run_observations_def Decide_rejected)
    next
      case None
      note acc = Decide_accepted [OF None]
      have src: "ob_Source obs \<noteq> SourceManual" "ob_Source obs \<noteq> SourceLegacy"
        using Cons.prems(2) assms(3) None by (auto simp: rejection_def sourcePriority_def split: if_splits)
      let ?vs = "if ob_ProbeID obs = ls_LastProbeID s then butlast vs else vs"
      have base: "evidence_of c ?vs (base_evidence s obs)"
        using Cons.prems by (auto simp: same_def base_evidence_def split: if_splits)
      have "same (?vs @ [verdict t obs]) (fst (Decide t s obs))"
        using weigh_evidence [OF base src] base by (simp add: same_def acc)
      from Cons.IH [OF this] Cons.prems(2) None show ?thesis by (simp add: run_observations_def)
    qed
  qed
  moreover have "same [] st" using assms by (auto simp: same_def evidence_of_def settled_at_def)
  ultimately show ?thesis by (fastforce simp: evidence_of_def)
qed

text \<open>A failed reclassification reverts the location. When a probe moved a node from an unknown to
  a known location and a higher-priority classification of the same probe fails, the node's
  location is unknown again, although the failed observation says nothing about the location.\<close>

theorem failed_reclassification_reverts:
  assumes "\<not> lo_Known (current st)" and "lo_Source (current st) \<noteq> SourceManual"
    and "ob_ProbeID obs \<noteq> ls_LastProbeID st" and "rejection t st obs = None" and "obs_success t obs"
    and "ob_Source obs = SourceGeoIPExit" and "st1 = fst (Decide t st obs)"
    and "failed = obs\<lparr>ob_Source := SourceExitProbe, ob_Succeeded := False\<rparr>"
  shows "lo_Known (current st1) \<and> ch_Applied (snd (Decide t st1 failed)) \<and>
    ch_MembershipChanged (snd (Decide t st1 failed)) \<and> \<not> lo_Known (current (fst (Decide t st1 failed)))"
proof -
  note a = Decide_accepted [OF assms(4), folded assms(7)]
  have known: "lo_Known (current st1)"
    using assms(1-6) unfolding a(1) by (simp add: base_evidence_def weigh_def next_loc_def settle_def Let_def)
  have fields: "ob_ProbeID failed = ob_ProbeID obs" "ob_StartedAt failed = ob_StartedAt obs" "ob_Source failed = SourceExitProbe"
      "ob_CheckedAt failed = ob_CheckedAt obs" "ob_Token failed = ob_Token obs" "\<not> obs_success t failed"
    by (simp_all add: assms(8) obs_success_def)
  have ok: "rejection t st1 failed = None"
    using assms(4) unfolding rejection_def fields a
    by (simp add: assms(6) sourcePriority_def split: if_splits)
  have "current (fst (Decide t st1 failed)) = current st"
    unfolding Decide_accepted(1) [OF ok] using fields assms(3)
    by (simp add: base_evidence_def a weigh_failed)
  moreover have "ch_Applied (snd (Decide t st1 failed))"
    "ch_MembershipChanged (snd (Decide t st1 failed)) \<longleftrightarrow>
       lo_ISO (current st1) \<noteq> lo_ISO (current (fst (Decide t st1 failed))) \<or>
       lo_Known (current st1) \<noteq> lo_Known (current (fst (Decide t st1 failed)))"
    using ok by (simp_all add: Decide_def Let_def case_prod_beta)
  ultimately show ?thesis using known assms(1) by simp
qed

section \<open>A concrete node\<close>

definition demo_obs :: "string \<Rightarrow> int \<Rightarrow> string \<Rightarrow> Source \<Rightarrow> Observation" where
  "demo_obs pid at code src = \<lparr>ob_Token = \<lparr>tk_Identity = ''node'', tk_Revision = 1\<rparr>, ob_ProbeID = pid,
     ob_StartedAt = at, ob_CheckedAt = at + 1, ob_IP = ''203.0.113.1'', ob_Source = src, ob_Succeeded = True,
     ob_ISO = code, ob_Country = code\<rparr>"

definition no_evidence :: Evidence where
  "no_evidence = \<lparr>ec_Current = empty_loc, ec_Candidate = empty_loc, ec_Confirmations = 0\<rparr>"

definition demo_fresh :: LocState where
  "demo_fresh = \<lparr>ls_Token = \<lparr>tk_Identity = ''node'', tk_Revision = 1\<rparr>, ls_Evidence = no_evidence,
     ls_BeforeProbe = no_evidence, ls_LastProbeID = [], ls_LastStartedAt = zero_time, ls_LastSource = OtherSource [],
     ls_LastSucceeded = False\<rparr>"

definition demo_hk :: LocState where
  "demo_hk = fst (Decide demo_regions demo_fresh (demo_obs ''first'' 1 ''HK'' SourceGeoIPExit))"

definition demo_pending :: LocState where
  "demo_pending = fst (Decide demo_regions demo_hk (demo_obs ''second'' 3 ''JP'' SourceGeoIPExit))"

theorem location_change_justified_witness:
  "obs_success demo_regions (demo_obs ''first'' 1 ''HK'' SourceGeoIPExit)"
proof -
  have "current (fst (Decide demo_regions demo_fresh (demo_obs ''first'' 1 ''HK'' SourceGeoIPExit))) \<noteq> current demo_fresh"
    "ob_ProbeID (demo_obs ''first'' 1 ''HK'' SourceGeoIPExit) \<noteq> ls_LastProbeID demo_fresh"
    by code_simp+
  with location_change_justified show ?thesis by blast
qed

definition demo_sightings :: "Observation list" where
  "demo_sightings = [demo_obs ''second'' 3 ''JP'' SourceGeoIPExit, demo_obs ''second'' 3 ''JP'' SourceExitProbe,
     (demo_obs ''third'' 5 ''JP'' SourceExitProbe)\<lparr>ob_Succeeded := False\<rparr>, demo_obs ''fourth'' 7 ''JP'' SourceExitProbe]"

theorem relocation_confirmed_witness:
  "lo_ISO (current (run_observations demo_regions demo_sightings demo_hk)) = ''hk'' \<and>
   lo_ISO (current (run_observations demo_regions (demo_sightings @ [demo_obs ''fifth'' 9 ''JP'' SourceGeoIPExit]) demo_hk)) = ''jp''"
proof -
  let ?more = "demo_sightings @ [demo_obs ''fifth'' 9 ''JP'' SourceGeoIPExit]"
  have settled: "settled_at ''hk'' demo_hk" "ec_Confirmations (ls_Evidence demo_hk) = 0" by code_simp+
  have "list_all (\<lambda>obs. ob_Source obs \<noteq> SourceManual \<and> ob_ProbeID obs \<noteq> ls_LastProbeID demo_hk) ?more" by code_simp
  then have os: "\<forall>obs \<in> set demo_sightings. ob_Source obs \<noteq> SourceManual \<and> ob_ProbeID obs \<noteq> ls_LastProbeID demo_hk"
    "\<forall>obs \<in> set ?more. ob_Source obs \<noteq> SourceManual \<and> ob_ProbeID obs \<noteq> ls_LastProbeID demo_hk"
    by (simp_all add: list_all_iff)
  have "agreed ''hk'' (verdicts demo_regions demo_hk [] demo_sightings) = ''hk''"
    "agreed ''hk'' (verdicts demo_regions demo_hk [] ?more) = ''jp''"
    by code_simp+
  with relocation_confirmed [OF settled os(1), of demo_regions] relocation_confirmed [OF settled os(2), of demo_regions]
  show ?thesis by metis
qed

theorem failed_reclassification_reverts_witness:
  "lo_Known (current demo_hk) \<and>
   \<not> lo_Known (current (fst (Decide demo_regions demo_hk
       ((demo_obs ''first'' 1 ''HK'' SourceGeoIPExit)\<lparr>ob_Source := SourceExitProbe, ob_Succeeded := False\<rparr>))))"
proof -
  have "\<not> lo_Known (current demo_fresh)" "lo_Source (current demo_fresh) \<noteq> SourceManual"
    "ob_ProbeID (demo_obs ''first'' 1 ''HK'' SourceGeoIPExit) \<noteq> ls_LastProbeID demo_fresh"
    "rejection demo_regions demo_fresh (demo_obs ''first'' 1 ''HK'' SourceGeoIPExit) = None"
    "obs_success demo_regions (demo_obs ''first'' 1 ''HK'' SourceGeoIPExit)"
    "ob_Source (demo_obs ''first'' 1 ''HK'' SourceGeoIPExit) = SourceGeoIPExit"
    by code_simp+
  note facts = this
  show ?thesis
    using failed_reclassification_reverts [OF facts demo_hk_def refl] by simp
qed

end
