(* ===== verification/Runtime_Nodes.thy ===== *)
theory Runtime_Nodes
  imports Prelude Go_Strings "HOL-Library.Word"
begin

text \<open>
  Which stored nodes enter the runtime (\<open>src/internal/runtimenodes/runtimenodes.go\<close>) and the tags
  their outbounds carry (\<open>src/internal/runtimetag/tag.go\<close>). The two database queries of \<open>Load\<close> are
  its arguments, each with its error.
\<close>

section \<open>Runtime tags\<close>

datatype tag_error = ZeroVersion | ShortDigest | NotHexadecimal string

definition InitialVersion :: "64 word" where "InitialVersion = 1"

text \<open>The text after the last colon, the whole text when there is none.\<close>

definition after_last_colon :: "string \<Rightarrow> string" where
  "after_last_colon s = rev (takeWhile (\<lambda>c. c \<noteq> CHR '':'') (rev s))"

definition lower_hex :: "char \<Rightarrow> bool" where
  "lower_hex c \<longleftrightarrow> (let n = of_char c :: nat in 48 \<le> n \<and> n \<le> 57 \<or> 97 \<le> n \<and> n \<le> 102)"

definition Format :: "string \<Rightarrow> 64 word \<Rightarrow> tag_error + string" where
  "Format nodeKey version =
     (if version = 0 then Inl ZeroVersion
      else let digest = after_last_colon nodeKey
           in if length digest < 16 then Inl ShortDigest
              else let d = to_lower (take 16 digest)
                   in if list_all lower_hex d then Inr (d @ ''@v'' @ decimal (unat version))
                      else Inl (NotHexadecimal d))"

definition tag_digest :: "string \<Rightarrow> string" where
  "tag_digest nodeKey = to_lower (take 16 (after_last_colon nodeKey))"

lemma Format_Inr:
  "Format k v = Inr s \<longleftrightarrow> v \<noteq> 0 \<and> 16 \<le> length (after_last_colon k) \<and> list_all lower_hex (tag_digest k) \<and>
     s = tag_digest k @ ''@v'' @ decimal (unat v)"
  by (auto simp: Format_def tag_digest_def Let_def)

text \<open>C22: runtime tags identify node and generation. Formatting succeeds exactly for a nonzero
  version and a key whose digest starts with 16 hexadecimal characters, and two keys and versions
  that get the same tag have the same 16-character digest and the same version.\<close>

theorem runtime_tag_identifies:
  "((\<exists>s. Format k v = Inr s) \<longleftrightarrow>
      v \<noteq> 0 \<and> 16 \<le> length (after_last_colon k) \<and> list_all lower_hex (tag_digest k)) \<and>
   (Format k v = Inr s \<and> Format k' v' = Inr s \<longrightarrow> tag_digest k = tag_digest k' \<and> v = v')"
proof -
  have len: "length (tag_digest k) = 16" if "16 \<le> length (after_last_colon k)" for k
    using that by (simp add: tag_digest_def)
  show ?thesis
    by (auto simp: Format_Inr word_unat_eq_iff dest!: len)
qed

theorem runtime_tag_identifies_witness:
  "Format ''v1:0123456789ABCDEF1111'' 9 = Inr ''0123456789abcdef@v9'' \<and>
   Format ''raw-v1:0123456789abcdef22'' 9 = Inr ''0123456789abcdef@v9'' \<and>
   tag_digest ''v1:0123456789ABCDEF1111'' = tag_digest ''raw-v1:0123456789abcdef22''"
proof -
  have "Format ''v1:0123456789ABCDEF1111'' 9 = Inr ''0123456789abcdef@v9''"
    "Format ''raw-v1:0123456789abcdef22'' 9 = Inr ''0123456789abcdef@v9''" by code_simp+
  with runtime_tag_identifies [of _ _ "''0123456789abcdef@v9''"] show ?thesis by blast
qed

section \<open>Runtime admission\<close>

record store_node =
  sn_ID :: node_id
  sn_Name :: string
  sn_URI :: string
  sn_Port :: "16 word"
  sn_Username :: string
  sn_Password :: string
  sn_Source :: string
  sn_Region :: string
  sn_Country :: string
  sn_Tags :: "string list"
  sn_IdentityHash :: string
  sn_CanonicalJSON :: string
  sn_Enabled :: bool

record NodeConfig =
  nc_ID :: node_id
  nc_Name :: string
  nc_URI :: string
  nc_Port :: "16 word"
  nc_Username :: string
  nc_Password :: string
  nc_Source :: string
  nc_Region :: string
  nc_Country :: string
  nc_Tags :: "string list"
  nc_IdentityHash :: string
  nc_CanonicalJSON :: string

definition IdentityKey :: "store_node \<Rightarrow> string" where
  "IdentityKey n = (if sn_IdentityHash n \<noteq> [] then sn_IdentityHash n else trim_space (sn_URI n))"

definition nodeConfig :: "store_node \<Rightarrow> NodeConfig" where
  "nodeConfig n = \<lparr>nc_ID = sn_ID n, nc_Name = sn_Name n, nc_URI = sn_URI n, nc_Port = sn_Port n,
     nc_Username = sn_Username n, nc_Password = sn_Password n, nc_Source = sn_Source n, nc_Region = sn_Region n,
     nc_Country = sn_Country n, nc_Tags = sn_Tags n, nc_IdentityHash = sn_IdentityHash n,
     nc_CanonicalJSON = sn_CanonicalJSON n\<rparr>"

definition Convert :: "store_node list \<Rightarrow> NodeConfig list" where
  "Convert nodes = map nodeConfig nodes"

text \<open>\<open>seen\<close> is a Go set, updated in place by \<open>convert\<close>.\<close>

definition convert :: "store_node \<Rightarrow> string list \<Rightarrow> NodeConfig option \<times> string list" where
  "convert n seen =
     (let uri = trim_space (sn_URI n); key = IdentityKey n
      in if \<not> sn_Enabled n \<or> uri = [] then (None, seen)
         else if key \<in> set seen then (None, seen)
         else (Some (nodeConfig (n\<lparr>sn_URI := uri\<rparr>)), key # seen))"

fun convert_all :: "store_node list \<Rightarrow> string list \<Rightarrow> NodeConfig list \<times> string list" where
  "convert_all [] seen = ([], seen)"
| "convert_all (n # ns) seen =
     (let (c, seen1) = convert n seen; (rest, seen2) = convert_all ns seen1
      in (case c of Some x \<Rightarrow> x # rest | None \<Rightarrow> rest, seen2))"

definition NodeSourceSubscription :: string where "NodeSourceSubscription = ''subscription''"

definition Load :: "string + store_node list \<Rightarrow> string + store_node list \<Rightarrow> string + NodeConfig list" where
  "Load regularRows subscriptionRows =
     (case regularRows of Inl e \<Rightarrow> Inl (''list runtime nodes: '' @ e) | Inr regular \<Rightarrow>
        (case subscriptionRows of Inl e \<Rightarrow> Inl (''list effective subscription nodes: '' @ e) | Inr subs \<Rightarrow>
           let (a, seen) = convert_all (filter (\<lambda>n. sn_Source n \<noteq> NodeSourceSubscription) regular) [];
               (b, _) = convert_all subs seen
           in Inr (a @ b)))"

text \<open>The rows that may enter, in the order the code visits them.\<close>

definition eligible :: "store_node \<Rightarrow> bool" where
  "eligible n \<longleftrightarrow> sn_Enabled n \<and> trim_space (sn_URI n) \<noteq> []"

definition config_key :: "NodeConfig \<Rightarrow> string" where
  "config_key c = (if nc_IdentityHash c \<noteq> [] then nc_IdentityHash c else nc_URI c)"

fun first_by_key :: "string list \<Rightarrow> store_node list \<Rightarrow> store_node list" where
  "first_by_key seen [] = []"
| "first_by_key seen (n # ns) =
     (if eligible n \<and> IdentityKey n \<notin> set seen then n # first_by_key (IdentityKey n # seen) ns
      else first_by_key seen ns)"

definition runtime_config :: "store_node \<Rightarrow> NodeConfig" where
  "runtime_config n = nodeConfig (n\<lparr>sn_URI := trim_space (sn_URI n)\<rparr>)"

lemma convert_all_eq: "fst (convert_all ns seen) = map runtime_config (first_by_key seen ns)"
  by (induction ns arbitrary: seen)
     (auto simp: convert_def eligible_def runtime_config_def Let_def case_prod_beta split: option.split)

lemma convert_all_append:
  "fst (convert_all (xs @ ys) seen) = fst (convert_all xs seen) @ fst (convert_all ys (snd (convert_all xs seen)))"
  by (induction xs arbitrary: seen) (auto simp: Let_def case_prod_beta split: option.split)

lemma first_by_key_subset:
  "n \<in> set (first_by_key seen ns) \<Longrightarrow> n \<in> set ns \<and> eligible n \<and> IdentityKey n \<notin> set seen"
proof (induction ns arbitrary: seen)
  case (Cons m ms)
  then show ?case
    using Cons.IH [of "IdentityKey m # seen"] Cons.IH [of seen] by (auto split: if_splits)
qed simp

lemma first_by_key_distinct: "distinct (map IdentityKey (first_by_key seen ns))"
  by (induction ns arbitrary: seen) (auto dest!: first_by_key_subset)

lemma first_by_key_complete:
  "n \<in> set ns \<Longrightarrow> eligible n \<Longrightarrow> IdentityKey n \<notin> set seen \<Longrightarrow>
   \<exists>m \<in> set (first_by_key seen ns). IdentityKey m = IdentityKey n"
proof (induction ns arbitrary: seen)
  case (Cons m ms)
  show ?case
  proof (cases "eligible m \<and> IdentityKey m \<notin> set seen \<and> IdentityKey m \<noteq> IdentityKey n")
    case True
    with Cons.prems Cons.IH [of "IdentityKey m # seen"] show ?thesis by auto
  next
    case False
    with Cons.prems Cons.IH [of seen] show ?thesis by auto
  qed
qed simp

lemma config_key_runtime: "eligible n \<Longrightarrow> config_key (runtime_config n) = IdentityKey n"
  by (simp add: config_key_def runtime_config_def nodeConfig_def IdentityKey_def)

definition runtime_rows :: "store_node list \<Rightarrow> store_node list \<Rightarrow> store_node list" where
  "runtime_rows regular subs = filter (\<lambda>n. sn_Source n \<noteq> NodeSourceSubscription) regular @ subs"

lemma Load_eq: "Load (Inr regular) (Inr subs) = Inr (map runtime_config (first_by_key [] (runtime_rows regular subs)))"
  unfolding runtime_rows_def convert_all_eq [symmetric] convert_all_append
  by (simp add: Load_def case_prod_beta Let_def)

text \<open>The runtime holds exactly the nodes it should. When both queries succeed, the loaded nodes
  have pairwise different identities; each is an enabled row with a nonblank URI that either is no
  subscription node or comes from an enabled subscription; every such row's identity is loaded; and
  for each identity the first such row wins.\<close>

theorem runtime_admission:
  assumes "Load (Inr regular) (Inr subs) = Inr cs"
  shows "distinct (map config_key cs) \<and>
    (\<forall>c \<in> set cs. \<exists>n \<in> set (runtime_rows regular subs). eligible n \<and> c = runtime_config n \<and>
       find (\<lambda>m. eligible m \<and> IdentityKey m = config_key c) (runtime_rows regular subs) = Some n) \<and>
    (\<forall>n \<in> set (runtime_rows regular subs). eligible n \<longrightarrow> IdentityKey n \<in> config_key ` set cs)"
proof -
  define rows where "rows = runtime_rows regular subs"
  have cs: "cs = map runtime_config (first_by_key [] rows)"
    using assms by (simp add: Load_eq rows_def)
  have keys: "map config_key cs = map IdentityKey (first_by_key [] rows)"
    unfolding cs by (auto simp: config_key_runtime dest!: first_by_key_subset)
  have first: "find (\<lambda>m. eligible m \<and> IdentityKey m = IdentityKey n) rows = Some n" if "n \<in> set (first_by_key seen rows)" for seen n rows
    using that by (induction rows arbitrary: seen) (auto split: if_splits dest: first_by_key_subset)
  have "\<exists>n \<in> set rows. eligible n \<and> c = runtime_config n \<and>
      find (\<lambda>m. eligible m \<and> IdentityKey m = config_key c) rows = Some n" if "c \<in> set cs" for c
    using that first first_by_key_subset unfolding cs by (fastforce simp: config_key_runtime)
  moreover have "IdentityKey n \<in> config_key ` set cs" if "n \<in> set rows" "eligible n" for n
  proof -
    have "IdentityKey n \<in> set (map IdentityKey (first_by_key [] rows))"
      using first_by_key_complete [OF that, of "[]"] by simp (metis image_eqI)
    then show ?thesis unfolding keys [symmetric] by simp
  qed
  ultimately show ?thesis
    using first_by_key_distinct [of "[]" rows] unfolding keys [symmetric] rows_def [symmetric] by blast
qed

definition demo_row :: "node_id \<Rightarrow> string \<Rightarrow> string \<Rightarrow> bool \<Rightarrow> store_node" where
  "demo_row i uri src en = \<lparr>sn_ID = i, sn_Name = ''n'', sn_URI = uri, sn_Port = 443, sn_Username = [], sn_Password = [],
     sn_Source = src, sn_Region = [], sn_Country = [], sn_Tags = [], sn_IdentityHash = [], sn_CanonicalJSON = [],
     sn_Enabled = en\<rparr>"

definition demo_rows :: "store_node list" where
  "demo_rows = [demo_row 1 '' ss://a'' ''manual'' True, demo_row 2 ''ss://b'' ''subscription'' True,
     demo_row 3 ''ss://c'' ''manual'' False]"

theorem runtime_admission_witness:
  "distinct (map config_key (projr (Load (Inr demo_rows) (Inr [demo_row 4 ''ss://a'' ''subscription'' True,
     demo_row 5 ''ss://d'' ''subscription'' True])))) \<and>
   map nc_ID (projr (Load (Inr demo_rows) (Inr [demo_row 4 ''ss://a'' ''subscription'' True,
     demo_row 5 ''ss://d'' ''subscription'' True]))) = [1, 5]"
  (is "distinct (map config_key (projr ?l)) \<and> _")
proof -
  have ids: "map nc_ID (projr ?l) = [1, 5]" by code_simp
  have "?l = Inr (projr ?l)" by (simp add: Load_eq)
  from runtime_admission [OF this] ids show ?thesis by blast
qed

end
