(* ===== verification/Facts.thy ===== *)
theory Facts
  imports Region
begin

text \<open>
  Node facts and tag rules: \<open>src/internal/nodefacts/\<close> (\<open>fact.go\<close>, \<open>schema.go\<close>, \<open>condition.go\<close>,
  \<open>evaluate.go\<close>). Error texts are constructors of \<open>rule_error\<close>. A JSON operand (\<open>any\<close>) is an
  \<open>operand\<close>; a float is seen through the only two conversions the code applies to it, the
  truncation \<open>int64(x)\<close> and the shortest decimal rendering \<open>FormatFloat(x, 'f', -1, 64)\<close>. The regular
  expression engine, \<open>ParseFloat\<close> and the JSON codec are fields of \<open>rule_lib\<close>. The display metadata
  of a field (label, group, unit, enum key, source) is left out.
\<close>

section \<open>Facts (fact.go)\<close>

record 'a Fact =
  fa_Value :: 'a
  fa_Known :: bool
  fa_CheckedAt :: gtime

definition Known :: "'a \<Rightarrow> 'a Fact" where
  "Known v = \<lparr>fa_Value = v, fa_Known = True, fa_CheckedAt = zero_time\<rparr>"

definition KnownAt :: "'a \<Rightarrow> gtime \<Rightarrow> 'a Fact" where
  "KnownAt v t = \<lparr>fa_Value = v, fa_Known = True, fa_CheckedAt = t\<rparr>"

definition Unknown :: "'a \<Rightarrow> 'a Fact" where
  "Unknown zero = \<lparr>fa_Value = zero, fa_Known = False, fa_CheckedAt = zero_time\<rparr>"

datatype Kind = KindString | KindEnum | KindInt | KindBool | KindSet | NoKind

record Value =
  va_Kind :: Kind
  va_Known :: bool
  va_CheckedAt :: gtime
  va_Str :: string
  va_Num :: int
  va_Bool :: bool
  va_Set :: "string list"

definition zero_value :: Value where
  "zero_value = \<lparr>va_Kind = NoKind, va_Known = False, va_CheckedAt = zero_time, va_Str = [], va_Num = 0,
     va_Bool = False, va_Set = []\<rparr>"

definition erased :: "Kind \<Rightarrow> 'a Fact \<Rightarrow> Value" where
  "erased k f = zero_value\<lparr>va_Kind := k, va_Known := fa_Known f, va_CheckedAt := fa_CheckedAt f\<rparr>"

definition StringValue :: "string Fact \<Rightarrow> Value" where "StringValue f = (erased KindString f)\<lparr>va_Str := fa_Value f\<rparr>"
definition EnumValue :: "string Fact \<Rightarrow> Value" where "EnumValue f = (erased KindEnum f)\<lparr>va_Str := fa_Value f\<rparr>"
definition IntValue :: "int Fact \<Rightarrow> Value" where "IntValue f = (erased KindInt f)\<lparr>va_Num := fa_Value f\<rparr>"
definition BoolValue :: "bool Fact \<Rightarrow> Value" where "BoolValue f = (erased KindBool f)\<lparr>va_Bool := fa_Value f\<rparr>"
definition SetValue :: "string list Fact \<Rightarrow> Value" where "SetValue f = (erased KindSet f)\<lparr>va_Set := fa_Value f\<rparr>"

definition Aged :: "Value \<Rightarrow> duration \<Rightarrow> gtime \<Rightarrow> Value" where
  "Aged v maxAge now =
     (if \<not> va_Known v \<or> maxAge \<le> 0 \<or> is_zero_time (va_CheckedAt v) then v
      else if time_sub now (va_CheckedAt v) > maxAge then v\<lparr>va_Known := False\<rparr> else v)"

fun join :: "string \<Rightarrow> string list \<Rightarrow> string" where
  "join sep [] = []"
| "join sep [x] = x"
| "join sep (x # y # ys) = x @ sep @ join sep (y # ys)"

definition format_bool :: "bool \<Rightarrow> string" where
  "format_bool b = (if b then ''true'' else ''false'')"

definition Display :: "Value \<Rightarrow> string" where
  "Display v = (if \<not> va_Known v then ''-''
     else case va_Kind v of KindInt \<Rightarrow> format_int (va_Num v) | KindBool \<Rightarrow> format_bool (va_Bool v)
       | KindSet \<Rightarrow> (if va_Set v = [] then ''[]'' else join '', '' (va_Set v)) | _ \<Rightarrow> va_Str v)"

record NodeFacts =
  nf_NodeID :: node_id
  nf_Name :: string
  nf_Region :: string
  nf_Values :: "(string \<times> Value) list"

definition NewNodeFacts :: "node_id \<Rightarrow> string \<Rightarrow> string \<Rightarrow> NodeFacts" where
  "NewNodeFacts n name region = \<lparr>nf_NodeID = n, nf_Name = name, nf_Region = region, nf_Values = []\<rparr>"

definition fact_value :: "NodeFacts \<Rightarrow> string \<Rightarrow> Value" where
  "fact_value f field = (case map_of (nf_Values f) field of Some v \<Rightarrow> v | None \<Rightarrow> zero_value)"

definition set_fact :: "string \<Rightarrow> Value \<Rightarrow> NodeFacts \<Rightarrow> NodeFacts" where
  "set_fact field v f = (if field = [] then f else f\<lparr>nf_Values := aput field v (nf_Values f)\<rparr>)"

section \<open>Operators and the field registry (schema.go)\<close>

datatype Operator = OpEq | OpNe | OpIn | OpNotIn | OpContains | OpNotContains | OpGt | OpGte | OpLt | OpLte
  | OpBetween | OpRegex | OpIsUnknown | OpIsKnown | OtherOp string

datatype Arity = ArityOne | ArityMany | ArityTwo | ArityNone

definition operatorDefs :: "(Operator \<times> Arity) list" where
  "operatorDefs = [(OpEq, ArityOne), (OpNe, ArityOne), (OpIn, ArityMany), (OpNotIn, ArityMany), (OpContains, ArityOne),
     (OpNotContains, ArityOne), (OpGt, ArityOne), (OpGte, ArityOne), (OpLt, ArityOne), (OpLte, ArityOne),
     (OpBetween, ArityTwo), (OpRegex, ArityOne), (OpIsUnknown, ArityNone), (OpIsKnown, ArityNone)]"

definition OperatorArity :: "Operator \<Rightarrow> Arity option" where
  "OperatorArity op = map_of operatorDefs op"

record Field =
  fd_Name :: string
  fd_Kind :: Kind
  fd_Operators :: "Operator list"
  fd_SupportsMaxAge :: bool

record Registry =
  rg_fields :: "(string \<times> Field) list"
  rg_order :: "string list"

definition NewRegistry :: Registry where
  "NewRegistry = \<lparr>rg_fields = [], rg_order = []\<rparr>"

definition OperatorsForKind :: "Kind \<Rightarrow> Operator list" where
  "OperatorsForKind k = (case k of
     KindInt \<Rightarrow> [OpEq, OpNe, OpGt, OpGte, OpLt, OpLte, OpBetween, OpIn, OpNotIn, OpIsKnown, OpIsUnknown]
   | KindBool \<Rightarrow> [OpEq, OpNe, OpIsKnown, OpIsUnknown]
   | KindEnum \<Rightarrow> [OpEq, OpNe, OpIn, OpNotIn, OpIsKnown, OpIsUnknown]
   | KindSet \<Rightarrow> [OpContains, OpNotContains, OpIn, OpNotIn, OpIsKnown, OpIsUnknown]
   | _ \<Rightarrow> [OpEq, OpNe, OpIn, OpNotIn, OpContains, OpNotContains, OpRegex, OpIsKnown, OpIsUnknown])"

definition Register_field :: "Field \<Rightarrow> Registry \<Rightarrow> Registry" where
  "Register_field f r =
     (if fd_Name f = [] then r
      else let f1 = (if fd_Operators f = [] then f\<lparr>fd_Operators := OperatorsForKind (fd_Kind f)\<rparr> else f)
           in r\<lparr>rg_order := (if map_of (rg_fields r) (fd_Name f) = None then rg_order r @ [fd_Name f] else rg_order r),
                rg_fields := aput (fd_Name f) f1 (rg_fields r)\<rparr>)"

definition lookup_field :: "Registry \<Rightarrow> string \<Rightarrow> Field option" where
  "lookup_field r name = map_of (rg_fields r) name"

definition Fields :: "Registry \<Rightarrow> Field list" where
  "Fields r = List.map_filter (lookup_field r) (rg_order r)"

definition SupportsOperator :: "Field \<Rightarrow> Operator \<Rightarrow> bool" where
  "SupportsOperator f op \<longleftrightarrow> op \<in> set (fd_Operators f)"

definition plain_field :: "string \<times> Kind \<times> bool \<Rightarrow> Field" where
  "plain_field = (\<lambda>(n, k, aged). \<lparr>fd_Name = n, fd_Kind = k, fd_Operators = [], fd_SupportsMaxAge = aged\<rparr>)"

definition register_fields :: "(string \<times> Kind \<times> bool) list \<Rightarrow> Registry \<Rightarrow> Registry" where
  "register_fields = fold (\<lambda>f. Register_field (plain_field f))"

definition registerBasicFields :: "Registry \<Rightarrow> Registry" where
  "registerBasicFields = register_fields
    [(''node.name'', KindString, False), (''node.region'', KindEnum, False), (''node.country'', KindString, False),
     (''node.protocol'', KindEnum, False), (''node.port'', KindInt, False), (''node.enabled'', KindBool, False),
     (''node.source'', KindEnum, False), (''tags.manual'', KindSet, False), (''node.subscription_ids'', KindSet, False),
     (''node.subscription_names'', KindSet, False)]"

definition registerPerformanceFields :: "Registry \<Rightarrow> Registry" where
  "registerPerformanceFields = register_fields
    [(''latency_ms'', KindInt, True), (''available'', KindBool, True), (''blacklisted'', KindBool, False),
     (''failure_count'', KindInt, False), (''success_count'', KindInt, False), (''speed_bps'', KindInt, True),
     (''speed_peak_bps'', KindInt, True)]"

definition registerIPFields :: "Registry \<Rightarrow> Registry" where
  "registerIPFields = register_fields
    [(''exit_country_code'', KindEnum, True), (''exit_ip_family'', KindEnum, True), (''unlock.ip.pure'', KindBool, True),
     (''unlock.ip.risk_level'', KindEnum, True), (''unlock.ip.ip_type'', KindString, True),
     (''unlock.ip.usage_type'', KindString, True), (''unlock.ip.fraud_score'', KindInt, True),
     (''unlock.ip.asn'', KindString, True), (''unlock.ip.org'', KindString, True)]"

definition registerUnlockFields :: "Registry \<Rightarrow> Registry" where
  "registerUnlockFields = register_fields
    [(''unlock.unlocked_count'', KindInt, True), (''unlock.unlocked_providers'', KindSet, True)]"

definition registerDiagnosticFields :: "Registry \<Rightarrow> Registry" where
  "registerDiagnosticFields = register_fields
    [(''unlock.state'', KindString, True), (''speed.status'', KindString, True), (''ipq.statuses'', KindSet, True)]"

definition UnlockField :: "string \<Rightarrow> string \<Rightarrow> string" where
  "UnlockField provider attribute = ''unlock.'' @ provider @ ''.'' @ attribute"

definition IPQualityField :: "string \<Rightarrow> string \<Rightarrow> string" where
  "IPQualityField provider attribute = ''ipq.'' @ provider @ ''.'' @ attribute"

definition ReducedIPQualityField :: "string \<Rightarrow> string \<Rightarrow> string" where
  "ReducedIPQualityField reduction attribute = ''ipq.'' @ reduction @ ''.'' @ attribute"

definition WithUnlockProviders :: "string list \<Rightarrow> Registry \<Rightarrow> Registry" where
  "WithUnlockProviders = fold (\<lambda>p. register_fields
     [(UnlockField p ''status'', KindEnum, True), (UnlockField p ''region'', KindString, True),
      (UnlockField p ''detail'', KindString, True)])"

definition ip_quality_provider :: "string \<Rightarrow> (string \<times> Kind \<times> bool) list" where
  "ip_quality_provider p =
     (IPQualityField p ''fraud_score'', KindInt, True)
     # map (\<lambda>a. (IPQualityField p a, KindBool, True)) [''is_residential'', ''proxy'', ''hosting'', ''mobile'', ''is_broadcast'']
     @ map (\<lambda>a. (IPQualityField p a, KindString, True)) [''asn'', ''org'', ''isp'']
     @ [(IPQualityField p ''country_code'', KindEnum, True)]"

definition ip_quality_reductions :: "(string \<times> Kind \<times> bool) list" where
  "ip_quality_reductions = (''ipq.max.fraud_score'', KindInt, True)
     # concat (map (\<lambda>a. [(ReducedIPQualityField ''any'' a, KindBool, True), (ReducedIPQualityField ''all'' a, KindBool, True)])
         [''is_residential'', ''is_broadcast'', ''proxy'', ''hosting''])"

definition WithIPQualityProviders :: "string list \<Rightarrow> Registry \<Rightarrow> Registry" where
  "WithIPQualityProviders ps r =
     (let r1 = fold (\<lambda>p. register_fields (ip_quality_provider p)) ps r
      in if ps = [] then r1 else register_fields ip_quality_reductions r1)"

text \<open>The options are applied in the order given; each is one of the two functions above.\<close>

definition DefaultRegistry :: "(Registry \<Rightarrow> Registry) list \<Rightarrow> Registry" where
  "DefaultRegistry options = fold (\<lambda>f. f) options (registerDiagnosticFields (registerUnlockFields (registerIPFields
     (registerPerformanceFields (registerBasicFields NewRegistry)))))"

end
