(* ===== verification/Rules.thy ===== *)
theory Rules
  imports Facts
begin

text \<open>
  The rule language over node facts: validation (\<open>src/internal/nodefacts/condition.go\<close>) and
  evaluation (\<open>evaluate.go\<close>). A \<open>Condition\<close> is the recursive struct; \<open>Match\<close> and \<open>Op\<close> are
  datatypes whose last constructor holds any other text, so that the empty string is
  \<open>OtherMatch []\<close> and \<open>OtherOp []\<close>.
\<close>

section \<open>Operands\<close>

datatype operand =
    ONil
  | OInt int
  | OFloat int string
  | ONumber "int option" "int option" string
  | OText string
  | OBool bool
  | OOther

text \<open>\<open>ONumber i f s\<close> is a \<open>json.Number\<close> with text \<open>s\<close>, its \<open>Int64\<close> and its truncated \<open>Float64\<close>
  results; \<open>OOther\<close> any other dynamic type (an object or an array).\<close>

datatype rule_error =
    BadRegionVersion int | RuleTooLarge | RuleNotEncodable string | TooDeep | TooMany | MissingField | LeafWithChildren string
  | UnknownMatch string | GroupWithField string | EmptyGroup | InChild nat rule_error | UnknownField string | UnknownOperator
  | UnsupportedOperator string Operator | NegativeAge string | AgeNotSupported string | UnexpectedOperand Operator
  | MissingOperand string | ExtraOperands string | NeedsTwoBounds string | NeedsValues string | TooManyValues string
  | NotAnInteger string | NotABoolean string | NotText string | RegexNotAllowed string | RegexTooLong | RegexInvalid
  | BoundsNotInteger string | BoundsNotText string | ParseFailed string

record 'c rule_lib =
  rl_compiles :: "string \<Rightarrow> bool"
  rl_matches :: "string \<Rightarrow> string \<Rightarrow> bool"
  rl_parseFloat :: "string \<Rightarrow> int option"
  rl_runes :: "string \<Rightarrow> nat"
  rl_encoded :: "'c \<Rightarrow> string + nat"
  rl_unmarshal :: "string \<Rightarrow> string + 'c"

definition int64_range :: "int \<Rightarrow> bool" where
  "int64_range i \<longleftrightarrow> - (2 ^ 63) \<le> i \<and> i < 2 ^ 63"

text \<open>\<open>strconv.ParseInt(s, 10, 64)\<close>.\<close>

definition ParseInt :: "string \<Rightarrow> int option" where
  "ParseInt s =
     (let (neg, ds) = (case s of c # cs \<Rightarrow> if c = CHR ''-'' then (True, cs) else if c = CHR ''+'' then (False, cs) else (False, s)
                       | [] \<Rightarrow> (False, []));
          v = (if neg then - int (digits_value ds) else int (digits_value ds))
      in if ds = [] \<or> \<not> list_all is_digit ds \<or> \<not> int64_range v then None else Some v)"

definition ParseBool :: "string \<Rightarrow> bool option" where
  "ParseBool s = (if s \<in> {''1'', ''t'', ''T'', ''true'', ''TRUE'', ''True''} then Some True
     else if s \<in> {''0'', ''f'', ''F'', ''false'', ''FALSE'', ''False''} then Some False else None)"

definition operandInt :: "'c rule_lib \<Rightarrow> operand \<Rightarrow> int option" where
  "operandInt lib x = (case x of
     OInt i \<Rightarrow> Some i
   | OFloat i _ \<Rightarrow> Some i
   | ONumber (Some i) _ _ \<Rightarrow> Some i
   | ONumber None f _ \<Rightarrow> f
   | OText s \<Rightarrow> (case ParseInt (trim_space s) of Some i \<Rightarrow> Some i | None \<Rightarrow> rl_parseFloat lib (trim_space s))
   | _ \<Rightarrow> None)"

definition operandBool :: "'c rule_lib \<Rightarrow> operand \<Rightarrow> bool option" where
  "operandBool lib x = (case x of
     OBool b \<Rightarrow> Some b
   | OText s \<Rightarrow> ParseBool (trim_space s)
   | _ \<Rightarrow> map_option (\<lambda>i. i \<noteq> 0) (operandInt lib x))"

definition operandString :: "operand \<Rightarrow> string option" where
  "operandString x = (case x of
     OText s \<Rightarrow> Some s | OBool b \<Rightarrow> Some (format_bool b) | ONumber _ _ s \<Rightarrow> Some s | OFloat _ s \<Rightarrow> Some s
   | OInt i \<Rightarrow> Some (format_int i) | _ \<Rightarrow> None)"

section \<open>Conditions\<close>

datatype Match = MatchAll | MatchAny | MatchNone | OtherMatch string

datatype Condition = Condition
  (cd_RegionVersion: int) (cd_Match: Match) (cd_Children: "Condition list") (cd_FieldName: string) (cd_Op: Operator)
  (cd_Value: operand) (cd_Values: "operand list") (cd_MaxAgeSeconds: int) (cd_Negate: bool)

record Limits =
  li_MaxConditions :: int
  li_MaxDepth :: int
  li_MaxValueItems :: int
  li_MaxRegexLength :: int
  li_MaxRuleBytes :: int

definition DefaultLimits :: Limits where
  "DefaultLimits = \<lparr>li_MaxConditions = 50, li_MaxDepth = 3, li_MaxValueItems = 100, li_MaxRegexLength = 200,
     li_MaxRuleBytes = 16384\<rparr>"

definition IsGroup :: "Condition \<Rightarrow> bool" where
  "IsGroup c \<longleftrightarrow> cd_Match c \<noteq> OtherMatch []"

definition IsLeaf :: "Condition \<Rightarrow> bool" where
  "IsLeaf c \<longleftrightarrow> cd_Match c = OtherMatch [] \<and> cd_FieldName c \<noteq> []"

definition IsEmpty :: "Condition \<Rightarrow> bool" where
  "IsEmpty c \<longleftrightarrow> cd_Match c = OtherMatch [] \<and> cd_FieldName c = [] \<and> cd_Op c = OtherOp [] \<and> cd_Children c = []"

definition empty_condition :: Condition where
  "empty_condition = Condition 0 (OtherMatch []) [] [] (OtherOp []) ONil [] 0 False"

definition ParseRule :: "Condition rule_lib \<Rightarrow> string \<Rightarrow> rule_error + Condition" where
  "ParseRule lib data = (if trim_space data = [] then Inr empty_condition
     else case rl_unmarshal lib data of Inl e \<Rightarrow> Inl (ParseFailed e) | Inr c \<Rightarrow> Inr c)"

fun collectFields :: "Condition \<Rightarrow> string list" and collect_children :: "Condition list \<Rightarrow> string list" where
  "collectFields (Condition rv mt cs f op v vs age neg) = (if f \<noteq> [] then [f] else []) @ collect_children cs"
| "collect_children [] = []"
| "collect_children (c # cs) = collectFields c @ collect_children cs"

section \<open>Validation\<close>

definition validateOperand :: "Condition rule_lib \<Rightarrow> Field \<Rightarrow> Operator \<Rightarrow> operand \<Rightarrow> rule_error option" where
  "validateOperand lib f op x =
     (let bad = (case fd_Kind f of
          KindInt \<Rightarrow> if operandInt lib x = None then Some (NotAnInteger (fd_Name f)) else None
        | KindBool \<Rightarrow> if operandBool lib x = None then Some (NotABoolean (fd_Name f)) else None
        | _ \<Rightarrow> if operandString x = None then Some (NotText (fd_Name f)) else None)
      in case bad of Some e \<Rightarrow> Some e
         | None \<Rightarrow> if op = OpRegex \<and> fd_Kind f \<noteq> KindString \<and> fd_Kind f \<noteq> KindEnum \<and> fd_Kind f \<noteq> KindSet
                   then Some (RegexNotAllowed (fd_Name f)) else None)"

fun validate_operands :: "Condition rule_lib \<Rightarrow> Field \<Rightarrow> Operator \<Rightarrow> operand list \<Rightarrow> rule_error option" where
  "validate_operands lib f op [] = None"
| "validate_operands lib f op (x # xs) =
     (case validateOperand lib f op x of Some e \<Rightarrow> Some e | None \<Rightarrow> validate_operands lib f op xs)"

definition validateArity :: "Condition rule_lib \<Rightarrow> Limits \<Rightarrow> Field \<Rightarrow> Arity \<Rightarrow> Condition \<Rightarrow> rule_error option" where
  "validateArity lib lim f ar c = (case ar of
     ArityNone \<Rightarrow> if cd_Value c \<noteq> ONil \<or> cd_Values c \<noteq> [] then Some (UnexpectedOperand (cd_Op c)) else None
   | ArityOne \<Rightarrow> if cd_Value c = ONil then Some (MissingOperand (cd_FieldName c))
       else if cd_Values c \<noteq> [] then Some (ExtraOperands (cd_FieldName c))
       else validateOperand lib f (cd_Op c) (cd_Value c)
   | ArityTwo \<Rightarrow> if length (cd_Values c) \<noteq> 2 then Some (NeedsTwoBounds (cd_FieldName c))
       else validate_operands lib f (cd_Op c) (cd_Values c)
   | ArityMany \<Rightarrow> if cd_Values c = [] then Some (NeedsValues (cd_FieldName c))
       else if li_MaxValueItems lim > 0 \<and> int (length (cd_Values c)) > li_MaxValueItems lim
       then Some (TooManyValues (cd_FieldName c))
       else validate_operands lib f (cd_Op c) (cd_Values c))"

definition validateRegex :: "Condition rule_lib \<Rightarrow> Limits \<Rightarrow> operand \<Rightarrow> rule_error option" where
  "validateRegex lib lim x = (case operandString x of None \<Rightarrow> Some (NotText [])
     | Some pattern \<Rightarrow> if li_MaxRegexLength lim > 0 \<and> int (rl_runes lib pattern) > li_MaxRegexLength lim then Some RegexTooLong
         else if \<not> rl_compiles lib pattern then Some RegexInvalid else None)"

definition validateLeaf :: "Condition rule_lib \<Rightarrow> Registry \<Rightarrow> Limits \<Rightarrow> Condition \<Rightarrow> rule_error option" where
  "validateLeaf lib reg lim c = (case lookup_field reg (cd_FieldName c) of
     None \<Rightarrow> Some (UnknownField (cd_FieldName c))
   | Some f \<Rightarrow> (case OperatorArity (cd_Op c) of
       None \<Rightarrow> Some UnknownOperator
     | Some ar \<Rightarrow>
         if \<not> SupportsOperator f (cd_Op c) then Some (UnsupportedOperator (cd_FieldName c) (cd_Op c))
         else if cd_MaxAgeSeconds c < 0 then Some (NegativeAge (cd_FieldName c))
         else if cd_MaxAgeSeconds c > 0 \<and> \<not> fd_SupportsMaxAge f then Some (AgeNotSupported (cd_FieldName c))
         else case validateArity lib lim f ar c of Some e \<Rightarrow> Some e
              | None \<Rightarrow> if cd_Op c = OpRegex then validateRegex lib lim (cd_Value c) else None))"

text \<open>\<open>validate\<close> threads the condition counter; the result is the error, if any, and the counter.\<close>

fun validate :: "Condition rule_lib \<Rightarrow> Registry \<Rightarrow> Limits \<Rightarrow> int \<Rightarrow> int \<Rightarrow> Condition \<Rightarrow> rule_error option \<times> int"
  and validate_children :: "Condition rule_lib \<Rightarrow> Registry \<Rightarrow> Limits \<Rightarrow> int \<Rightarrow> int \<Rightarrow> nat \<Rightarrow> Condition list \<Rightarrow> rule_error option \<times> int"
  where
  "validate lib reg lim depth count (Condition rv mt cs f op v vs age neg) =
     (let count1 = count + 1
      in if li_MaxDepth lim > 0 \<and> depth > li_MaxDepth lim then (Some TooDeep, count)
         else if li_MaxConditions lim > 0 \<and> count1 > li_MaxConditions lim then (Some TooMany, count1)
         else if mt \<noteq> OtherMatch [] then
           (case mt of OtherMatch m \<Rightarrow> (Some (UnknownMatch m), count1)
            | _ \<Rightarrow> if f \<noteq> [] \<or> op \<noteq> OtherOp [] then (Some (GroupWithField f), count1)
                   else if cs = [] then (Some EmptyGroup, count1)
                   else validate_children lib reg lim (depth + 1) count1 1 cs)
         else if f = [] then (Some MissingField, count1)
         else if cs \<noteq> [] then (Some (LeafWithChildren f), count1)
         else (validateLeaf lib reg lim (Condition rv mt cs f op v vs age neg), count1))"
| "validate_children lib reg lim depth count i [] = (None, count)"
| "validate_children lib reg lim depth count i (c # cs) =
     (case validate lib reg lim depth count c of
        (Some e, n) \<Rightarrow> (Some (InChild i e), n)
      | (None, n) \<Rightarrow> validate_children lib reg lim depth n (Suc i) cs)"

definition ValidateRule :: "Condition rule_lib \<Rightarrow> Registry \<Rightarrow> Limits \<Rightarrow> Condition \<Rightarrow> rule_error option" where
  "ValidateRule lib reg lim c =
     (if cd_RegionVersion c < 0 \<or> cd_RegionVersion c > 2 then Some (BadRegionVersion (cd_RegionVersion c))
      else if IsEmpty c then None
      else let size = (if li_MaxRuleBytes lim > 0 then
             (case rl_encoded lib c of Inl e \<Rightarrow> Some (RuleNotEncodable e)
              | Inr n \<Rightarrow> if int n > li_MaxRuleBytes lim then Some RuleTooLarge else None) else None)
           in case size of Some e \<Rightarrow> Some e | None \<Rightarrow> fst (validate lib reg lim 1 0 c))"

section \<open>Evaluation\<close>

fun str_less :: "string \<Rightarrow> string \<Rightarrow> bool" where
  "str_less [] ys = (ys \<noteq> [])"
| "str_less (x # xs) [] = False"
| "str_less (x # xs) (y # ys) =
     (if (of_char x :: nat) < of_char y then True else if x = y then str_less xs ys else False)"

fun contains_text :: "string \<Rightarrow> string \<Rightarrow> bool" where
  "contains_text [] needle = (needle = [])"
| "contains_text (c # cs) needle = (take (length needle) (c # cs) = needle \<or> contains_text cs needle)"

definition containsFoldText :: "string \<Rightarrow> string \<Rightarrow> bool" where
  "containsFoldText haystack needle = contains_text (to_lower haystack) (to_lower needle)"

definition containsFold :: "string list \<Rightarrow> string \<Rightarrow> bool" where
  "containsFold values wanted = list_ex (\<lambda>v. equal_fold v wanted) values"

type_synonym verdict = "rule_error + bool"

definition compareInt :: "Condition rule_lib \<Rightarrow> int \<Rightarrow> Condition \<Rightarrow> verdict" where
  "compareInt lib actual c =
     (if cd_Op c = OpIn \<or> cd_Op c = OpNotIn
      then Inr (list_ex (\<lambda>x. operandInt lib x = Some actual) (cd_Values c) = (cd_Op c = OpIn))
      else if cd_Op c = OpBetween
      then (case cd_Values c of
              [a, b] \<Rightarrow> (case (operandInt lib a, operandInt lib b) of
                 (Some low, Some high) \<Rightarrow>
                   (if low > high then Inr (actual \<ge> high \<and> actual \<le> low) else Inr (actual \<ge> low \<and> actual \<le> high))
               | _ \<Rightarrow> Inl (BoundsNotInteger (cd_FieldName c)))
            | _ \<Rightarrow> Inl (NeedsTwoBounds (cd_FieldName c)))
      else case operandInt lib (cd_Value c) of
             None \<Rightarrow> Inl (NotAnInteger (cd_FieldName c))
           | Some wanted \<Rightarrow> (case cd_Op c of
               OpEq \<Rightarrow> Inr (actual = wanted) | OpNe \<Rightarrow> Inr (actual \<noteq> wanted) | OpGt \<Rightarrow> Inr (actual > wanted)
             | OpGte \<Rightarrow> Inr (actual \<ge> wanted) | OpLt \<Rightarrow> Inr (actual < wanted) | OpLte \<Rightarrow> Inr (actual \<le> wanted)
             | _ \<Rightarrow> Inl (UnsupportedOperator (cd_FieldName c) (cd_Op c))))"

definition compareBool :: "Condition rule_lib \<Rightarrow> bool \<Rightarrow> Condition \<Rightarrow> verdict" where
  "compareBool lib actual c = (case operandBool lib (cd_Value c) of
     None \<Rightarrow> Inl (NotABoolean (cd_FieldName c))
   | Some wanted \<Rightarrow> (case cd_Op c of OpEq \<Rightarrow> Inr (actual = wanted) | OpNe \<Rightarrow> Inr (actual \<noteq> wanted)
       | _ \<Rightarrow> Inl (UnsupportedOperator (cd_FieldName c) (cd_Op c))))"

definition compareSet :: "string list \<Rightarrow> Condition \<Rightarrow> verdict" where
  "compareSet actual c =
     (if cd_Op c = OpContains \<or> cd_Op c = OpNotContains
      then (case operandString (cd_Value c) of
              None \<Rightarrow> Inl (NotText (cd_FieldName c))
            | Some wanted \<Rightarrow> Inr (containsFold actual wanted = (cd_Op c = OpContains)))
      else if cd_Op c = OpIn \<or> cd_Op c = OpNotIn
      then Inr (list_ex (\<lambda>x. case operandString x of Some w \<Rightarrow> containsFold actual w | None \<Rightarrow> False) (cd_Values c)
                = (cd_Op c = OpIn))
      else Inl (UnsupportedOperator (cd_FieldName c) (cd_Op c)))"

definition compareString :: "Condition rule_lib \<Rightarrow> string \<Rightarrow> Condition \<Rightarrow> verdict" where
  "compareString lib actual c =
     (if cd_Op c = OpIn \<or> cd_Op c = OpNotIn
      then Inr (list_ex (\<lambda>x. case operandString x of Some w \<Rightarrow> equal_fold w actual | None \<Rightarrow> False) (cd_Values c)
                = (cd_Op c = OpIn))
      else if cd_Op c = OpBetween
      then (case cd_Values c of
              [a, b] \<Rightarrow> (case (operandString a, operandString b) of
                 (Some low, Some high) \<Rightarrow>
                   (let (l, h) = (if str_less high low then (high, low) else (low, high))
                    in Inr (\<not> str_less actual l \<and> \<not> str_less h actual))
               | _ \<Rightarrow> Inl (BoundsNotText (cd_FieldName c)))
            | _ \<Rightarrow> Inl (NeedsTwoBounds (cd_FieldName c)))
      else case operandString (cd_Value c) of
             None \<Rightarrow> Inl (NotText (cd_FieldName c))
           | Some wanted \<Rightarrow> (case cd_Op c of
               OpEq \<Rightarrow> Inr (equal_fold actual wanted) | OpNe \<Rightarrow> Inr (\<not> equal_fold actual wanted)
             | OpContains \<Rightarrow> Inr (containsFoldText actual wanted)
             | OpNotContains \<Rightarrow> Inr (\<not> containsFoldText actual wanted)
             | OpRegex \<Rightarrow> (if rl_compiles lib wanted then Inr (rl_matches lib wanted actual) else Inl RegexInvalid)
             | OpGt \<Rightarrow> Inr (str_less wanted actual) | OpGte \<Rightarrow> Inr (\<not> str_less actual wanted)
             | OpLt \<Rightarrow> Inr (str_less actual wanted) | OpLte \<Rightarrow> Inr (\<not> str_less wanted actual)
             | _ \<Rightarrow> Inl (UnsupportedOperator (cd_FieldName c) (cd_Op c))))"

definition compare :: "Condition rule_lib \<Rightarrow> Value \<Rightarrow> Condition \<Rightarrow> verdict" where
  "compare lib v c = (case va_Kind v of
     KindInt \<Rightarrow> compareInt lib (va_Num v) c | KindBool \<Rightarrow> compareBool lib (va_Bool v) c
   | KindSet \<Rightarrow> compareSet (va_Set v) c | _ \<Rightarrow> compareString lib (va_Str v) c)"

definition region_operand :: "region_tables \<Rightarrow> Value \<Rightarrow> operand \<Rightarrow> bool" where
  "region_operand t v x = (case x of OText s \<Rightarrow> Matches t (va_Str v) [s] False 2 | _ \<Rightarrow> False)"

definition compareRegion :: "region_tables \<Rightarrow> Condition rule_lib \<Rightarrow> Value \<Rightarrow> Condition \<Rightarrow> verdict" where
  "compareRegion t lib v c = (case cd_Op c of
     OpEq \<Rightarrow> Inr (region_operand t v (cd_Value c))
   | OpNe \<Rightarrow> Inr (\<not> region_operand t v (cd_Value c))
   | OpIn \<Rightarrow> Inr (list_ex (region_operand t v) (cd_Values c))
   | OpNotIn \<Rightarrow> Inr (\<not> list_ex (region_operand t v) (cd_Values c))
   | _ \<Rightarrow> compare lib v c)"

definition FieldNodeRegion :: string where "FieldNodeRegion = ''node.region''"
definition fieldNodeRegionLegacy :: string where "fieldNodeRegionLegacy = ''_legacy.node.region''"

definition leaf_value :: "int \<Rightarrow> NodeFacts \<Rightarrow> gtime \<Rightarrow> Condition \<Rightarrow> Value" where
  "leaf_value ver facts now c =
     (let v = fact_value facts (if cd_FieldName c = FieldNodeRegion \<and> ver = 1 then fieldNodeRegionLegacy else cd_FieldName c)
      in if cd_MaxAgeSeconds c > 0 then Aged v (wrap64 (cd_MaxAgeSeconds c * second)) now else v)"

text \<open>\<open>evaluateLeaf\<close> at region version \<open>ver\<close>, which the callers write into the condition first.\<close>

definition evaluateLeaf :: "region_tables \<Rightarrow> Condition rule_lib \<Rightarrow> int \<Rightarrow> NodeFacts \<Rightarrow> gtime \<Rightarrow> Condition \<Rightarrow> verdict" where
  "evaluateLeaf t lib ver facts now c =
     (let v = leaf_value ver facts now c
      in if cd_Op c = OpIsUnknown then Inr (cd_Negate c \<noteq> (\<not> va_Known v))
         else if cd_Op c = OpIsKnown then Inr (cd_Negate c \<noteq> va_Known v)
         else if \<not> va_Known v then Inr False
         else case (if cd_FieldName c = FieldNodeRegion \<and> ver \<noteq> 1 then compareRegion t lib v c else compare lib v c) of
                Inl e \<Rightarrow> Inl e | Inr m \<Rightarrow> Inr (cd_Negate c \<noteq> m))"

text \<open>\<open>evaluateTruth\<close>: the answer is matched and known. The loop over the children keeps \<open>unknown\<close>.\<close>

fun evaluateTruth :: "region_tables \<Rightarrow> Condition rule_lib \<Rightarrow> NodeFacts \<Rightarrow> gtime \<Rightarrow> Condition \<Rightarrow> rule_error + bool \<times> bool"
  and truth_children :: "region_tables \<Rightarrow> Condition rule_lib \<Rightarrow> NodeFacts \<Rightarrow> gtime \<Rightarrow> Match \<Rightarrow> bool \<Rightarrow> Condition list \<Rightarrow>
    rule_error + bool \<times> bool" where
  "evaluateTruth t lib facts now (Condition rv mt cs f op v vs age neg) =
     (let c = Condition rv mt cs f op v vs age neg
      in if mt = OtherMatch []
         then if op \<noteq> OpIsKnown \<and> op \<noteq> OpIsUnknown \<and> \<not> va_Known (leaf_value 2 facts now c) then Inr (False, False)
              else (case evaluateLeaf t lib 2 facts now c of Inl e \<Rightarrow> Inl e | Inr m \<Rightarrow> Inr (m, True))
         else truth_children t lib facts now mt False cs)"
| "truth_children t lib facts now mt unknown [] =
     (case mt of OtherMatch m \<Rightarrow> Inl (UnknownMatch m)
      | _ \<Rightarrow> if unknown then Inr (False, False) else Inr (mt \<noteq> MatchAny, True))"
| "truth_children t lib facts now mt unknown (c # cs) =
     (case evaluateTruth t lib facts now c of
        Inl e \<Rightarrow> Inl e
      | Inr (m, known) \<Rightarrow>
          if \<not> known then truth_children t lib facts now mt True cs
          else if mt = MatchAll \<and> \<not> m then Inr (False, True)
          else if mt = MatchAny \<and> m then Inr (True, True)
          else if mt = MatchNone \<and> m then Inr (False, True)
          else truth_children t lib facts now mt unknown cs)"

text \<open>The version 1 evaluator: \<open>Evaluate\<close> on a condition of region version 1, whose children
  inherit that version.\<close>

fun evaluate_v1 :: "region_tables \<Rightarrow> Condition rule_lib \<Rightarrow> NodeFacts \<Rightarrow> gtime \<Rightarrow> Condition \<Rightarrow> verdict"
  and evaluateGroup :: "region_tables \<Rightarrow> Condition rule_lib \<Rightarrow> NodeFacts \<Rightarrow> gtime \<Rightarrow> Match \<Rightarrow> Condition list \<Rightarrow> verdict" where
  "evaluate_v1 t lib facts now (Condition rv mt cs f op v vs age neg) =
     (let c = Condition rv mt cs f op v vs age neg
      in if IsEmpty c then Inr False
         else if mt \<noteq> OtherMatch [] then evaluateGroup t lib facts now mt cs
         else evaluateLeaf t lib 1 facts now c)"
| "evaluateGroup t lib facts now mt [] =
     (case mt of OtherMatch m \<Rightarrow> Inl (UnknownMatch m) | _ \<Rightarrow> Inr (mt \<noteq> MatchAny))"
| "evaluateGroup t lib facts now mt (c # cs) =
     (case mt of OtherMatch m \<Rightarrow> Inl (UnknownMatch m)
      | _ \<Rightarrow> (case evaluate_v1 t lib facts now c of
                Inl e \<Rightarrow> Inl e
              | Inr m \<Rightarrow> if mt = MatchAll then (if m then evaluateGroup t lib facts now mt cs else Inr False)
                         else if m then Inr (mt = MatchAny) else evaluateGroup t lib facts now mt cs))"

definition Evaluate :: "region_tables \<Rightarrow> Condition rule_lib \<Rightarrow> Condition \<Rightarrow> NodeFacts \<Rightarrow> gtime \<Rightarrow> verdict" where
  "Evaluate t lib c facts now =
     (if IsEmpty c then Inr False
      else if cd_RegionVersion c \<noteq> 1
      then (case evaluateTruth t lib facts now c of Inl e \<Rightarrow> Inl e | Inr (m, known) \<Rightarrow> Inr (m \<and> known))
      else evaluate_v1 t lib facts now c)"

end
