(* ===== verification/Rules_Properties.thy ===== *)
theory Rules_Properties
  imports Rules
begin

text \<open>
  Correctness of the rule language: a rule that passed validation never fails at evaluation,
  evaluation is three-valued logic over facts that may be unknown, and more facts never
  revoke a match.
\<close>

section \<open>Three-valued semantics\<close>

datatype truth = TT | FF | UU

definition of_bool3 :: "bool \<Rightarrow> truth" where
  "of_bool3 b = (if b then TT else FF)"

fun combine :: "Match \<Rightarrow> truth list \<Rightarrow> truth" where
  "combine MatchAll ts = (if FF \<in> set ts then FF else if UU \<in> set ts then UU else TT)"
| "combine MatchAny ts = (if TT \<in> set ts then TT else if UU \<in> set ts then UU else FF)"
| "combine MatchNone ts = (if TT \<in> set ts then FF else if UU \<in> set ts then UU else TT)"
| "combine (OtherMatch m) ts = UU"

definition leaf3 :: "region_tables \<Rightarrow> Condition rule_lib \<Rightarrow> NodeFacts \<Rightarrow> gtime \<Rightarrow> Condition \<Rightarrow> truth" where
  "leaf3 t lib facts now c =
     (if cd_Op c \<noteq> OpIsKnown \<and> cd_Op c \<noteq> OpIsUnknown \<and> \<not> va_Known (leaf_value 2 facts now c) then UU
      else case evaluateLeaf t lib 2 facts now c of Inl e \<Rightarrow> UU | Inr b \<Rightarrow> of_bool3 b)"

fun eval3 :: "region_tables \<Rightarrow> Condition rule_lib \<Rightarrow> NodeFacts \<Rightarrow> gtime \<Rightarrow> Condition \<Rightarrow> truth" where
  "eval3 t lib facts now (Condition rv mt cs f op v vs age neg) =
     (if mt = OtherMatch [] then leaf3 t lib facts now (Condition rv mt cs f op v vs age neg)
      else combine mt (map (eval3 t lib facts now) cs))"

text \<open>No leaf fails on these facts and every combinator is one of the three.\<close>

fun error_free :: "region_tables \<Rightarrow> Condition rule_lib \<Rightarrow> NodeFacts \<Rightarrow> gtime \<Rightarrow> Condition \<Rightarrow> bool" where
  "error_free t lib facts now (Condition rv mt cs f op v vs age neg) =
     (if mt = OtherMatch [] then \<exists>b. evaluateLeaf t lib 2 facts now (Condition rv mt cs f op v vs age neg) = Inr b
      else mt \<in> {MatchAll, MatchAny, MatchNone} \<and> list_all (error_free t lib facts now) cs)"

definition verdict3 :: "truth \<Rightarrow> bool \<times> bool" where
  "verdict3 x = (x = TT, x \<noteq> UU)"

lemma verdict3_simps [simp]: "verdict3 TT = (True, True)" "verdict3 FF = (False, True)" "verdict3 UU = (False, False)"
  by (simp_all add: verdict3_def)

text \<open>The loop over the children computes the combination, given that the unknowns seen so far are counted in.\<close>

lemma truth_children_combine:
  assumes "\<And>c. c \<in> set cs \<Longrightarrow> evaluateTruth t lib facts now c = Inr (verdict3 (eval3 t lib facts now c))"
    and "mt \<in> {MatchAll, MatchAny, MatchNone}"
  shows "truth_children t lib facts now mt unknown cs
    = Inr (verdict3 (combine mt ((if unknown then [UU] else []) @ map (eval3 t lib facts now) cs)))"
  using assms
proof (induction cs arbitrary: unknown)
  case (Cons c cs)
  have IH: "truth_children t lib facts now mt u cs
      = Inr (verdict3 (combine mt ((if u then [UU] else []) @ map (eval3 t lib facts now) cs)))" for u
    using Cons by simp
  have c: "evaluateTruth t lib facts now c = Inr (verdict3 (eval3 t lib facts now c))"
    using Cons.prems by simp
  show ?case
    using Cons.prems(2) by (cases "eval3 t lib facts now c") (auto simp: c IH)
qed auto

lemma evaluateTruth_kleene:
  "error_free t lib facts now c \<Longrightarrow> evaluateTruth t lib facts now c = Inr (verdict3 (eval3 t lib facts now c))"
proof (induction c)
  case (Condition rv mt cs f op v vs age neg)
  show ?case
  proof (cases "mt = OtherMatch []")
    case True
    with Condition.prems show ?thesis
      by (auto simp: leaf3_def of_bool3_def Let_def split: sum.splits)
  next
    case False
    with Condition.prems have mt: "mt \<in> {MatchAll, MatchAny, MatchNone}" and ok: "\<forall>c \<in> set cs. error_free t lib facts now c"
      by (auto simp: list_all_iff)
    have "truth_children t lib facts now mt False cs = Inr (verdict3 (combine mt (map (eval3 t lib facts now) cs)))"
      using truth_children_combine [of cs t lib facts now mt False] Condition.IH ok mt by simp
    with False show ?thesis by simp
  qed
qed

section \<open>Validated rules are well typed\<close>

definition default_operators :: "Registry \<Rightarrow> bool" where
  "default_operators reg \<longleftrightarrow> (\<forall>(n, f) \<in> set (rg_fields reg). fd_Operators f = OperatorsForKind (fd_Kind f))"

lemma default_operators_lookup:
  "default_operators reg \<Longrightarrow> lookup_field reg n = Some f \<Longrightarrow> fd_Operators f = OperatorsForKind (fd_Kind f)"
  by (auto simp: default_operators_def lookup_field_def dest!: map_of_SomeD)

lemma default_operators_register:
  "default_operators reg \<Longrightarrow> fd_Operators f = [] \<Longrightarrow> default_operators (Register_field f reg)"
  using set_aput [of "fd_Name f" "f\<lparr>fd_Operators := OperatorsForKind (fd_Kind f)\<rparr>" "rg_fields reg"]
  by (fastforce simp: Register_field_def default_operators_def Let_def)

lemma default_operators_fields: "default_operators reg \<Longrightarrow> default_operators (register_fields fs reg)"
proof (induction fs arbitrary: reg)
  case (Cons f fs)
  have "fd_Operators (plain_field f) = []" by (cases f) (simp add: plain_field_def)
  with Cons show ?case by (simp add: register_fields_def default_operators_register)
qed (simp add: register_fields_def)

lemma default_operators_unlock: "default_operators reg \<Longrightarrow> default_operators (WithUnlockProviders ps reg)"
  unfolding WithUnlockProviders_def by (induction ps arbitrary: reg) (auto intro: default_operators_fields)

lemma default_operators_quality: "default_operators reg \<Longrightarrow> default_operators (WithIPQualityProviders ps reg)"
proof -
  have "default_operators reg \<Longrightarrow> default_operators (fold (\<lambda>p. register_fields (ip_quality_provider p)) ps reg)" for reg
    by (induction ps arbitrary: reg) (auto intro: default_operators_fields)
  then show "default_operators reg \<Longrightarrow> default_operators (WithIPQualityProviders ps reg)"
    by (auto simp: WithIPQualityProviders_def Let_def intro: default_operators_fields)
qed

definition app_registry :: "string list \<Rightarrow> string list \<Rightarrow> Registry" where
  "app_registry unlock quality = DefaultRegistry [WithUnlockProviders unlock, WithIPQualityProviders quality]"

lemma default_operators_app: "default_operators (app_registry unlock quality)"
proof -
  have "default_operators NewRegistry" by (simp add: default_operators_def NewRegistry_def)
  then show ?thesis
    by (simp add: app_registry_def DefaultRegistry_def registerBasicFields_def registerPerformanceFields_def
        registerIPFields_def registerUnlockFields_def registerDiagnosticFields_def default_operators_fields
        default_operators_unlock default_operators_quality)
qed

text \<open>Facts as the loader writes them: a known fact has the kind its field is registered with, and the
  legacy region fact the kind of the region field.\<close>

definition facts_typed :: "Registry \<Rightarrow> NodeFacts \<Rightarrow> bool" where
  "facts_typed reg facts \<longleftrightarrow> (\<forall>(n, f) \<in> set (rg_fields reg).
     (va_Known (fact_value facts n) \<longrightarrow> va_Kind (fact_value facts n) = fd_Kind f) \<and>
     (n = FieldNodeRegion \<and> va_Known (fact_value facts fieldNodeRegionLegacy) \<longrightarrow>
        va_Kind (fact_value facts fieldNodeRegionLegacy) = fd_Kind f))"

lemma Aged_kind: "va_Kind (Aged v a now) = va_Kind v" "va_Known (Aged v a now) \<Longrightarrow> va_Known v"
  by (auto simp: Aged_def split: if_splits)

lemma leaf_value_typed:
  assumes "facts_typed reg facts" and "lookup_field reg (cd_FieldName c) = Some f" and "va_Known (leaf_value ver facts now c)"
  shows "va_Kind (leaf_value ver facts now c) = fd_Kind f"
proof -
  have mem: "(cd_FieldName c, f) \<in> set (rg_fields reg)"
    using assms(2) by (auto simp: lookup_field_def dest: map_of_SomeD)
  define n where "n = (if cd_FieldName c = FieldNodeRegion \<and> ver = 1 then fieldNodeRegionLegacy else cd_FieldName c)"
  have both: "(va_Known (fact_value facts (cd_FieldName c)) \<longrightarrow> va_Kind (fact_value facts (cd_FieldName c)) = fd_Kind f) \<and>
      (cd_FieldName c = FieldNodeRegion \<and> va_Known (fact_value facts fieldNodeRegionLegacy) \<longrightarrow>
         va_Kind (fact_value facts fieldNodeRegionLegacy) = fd_Kind f)"
    using bspec [OF assms(1) [unfolded facts_typed_def] mem] unfolding prod.case .
  have typed: "va_Known (fact_value facts n) \<Longrightarrow> va_Kind (fact_value facts n) = fd_Kind f"
    unfolding n_def using both by metis
  have v: "leaf_value ver facts now c = (if cd_MaxAgeSeconds c > 0
      then Aged (fact_value facts n) (wrap64 (cd_MaxAgeSeconds c * second)) now else fact_value facts n)"
    by (simp add: leaf_value_def n_def)
  show ?thesis
    using assms(3) typed unfolding v
    by (cases "cd_MaxAgeSeconds c > 0") (auto simp: Aged_kind(1) dest: Aged_kind(2))
qed

lemma validate_operands_all:
  "validate_operands lib f op xs = None \<Longrightarrow> x \<in> set xs \<Longrightarrow> validateOperand lib f op x = None"
  by (induction xs) (auto split: option.splits)

lemma validateOperand_types:
  assumes "validateOperand lib f op x = None"
  shows "fd_Kind f = KindInt \<Longrightarrow> \<exists>i. operandInt lib x = Some i"
    and "fd_Kind f = KindBool \<Longrightarrow> \<exists>b. operandBool lib x = Some b"
    and "fd_Kind f \<noteq> KindInt \<Longrightarrow> fd_Kind f \<noteq> KindBool \<Longrightarrow> \<exists>s. operandString x = Some s"
  using assms by (auto simp: validateOperand_def Let_def split: Kind.splits if_splits)

text \<open>One lemma per kind of value: an operand list that validated lets the comparison succeed.\<close>

lemma compareInt_ok:
  assumes "cd_Op c \<in> set (OperatorsForKind KindInt)" "cd_Op c \<noteq> OpIsKnown" "cd_Op c \<noteq> OpIsUnknown"
    and "fd_Kind f = KindInt" "OperatorArity (cd_Op c) = Some ar" "validateArity lib lim f ar c = None"
  shows "\<exists>b. compareInt lib n c = Inr b"
proof (cases "cd_Op c = OpBetween")
  case True
  with assms have two: "length (cd_Values c) = 2" and each: "\<And>x. x \<in> set (cd_Values c) \<Longrightarrow> \<exists>i. operandInt lib x = Some i"
    by (auto simp: OperatorArity_def operatorDefs_def validateArity_def split: if_splits
        dest: validate_operands_all validateOperand_types(1))
  from two obtain a b where "cd_Values c = [a, b]" by (auto simp: length_Suc_conv numeral_2_eq_2)
  with each [of a] each [of b] True show ?thesis by (auto simp: compareInt_def)
next
  case False
  show ?thesis
  proof (cases "cd_Op c = OpIn \<or> cd_Op c = OpNotIn")
    case no_set: False
    then have "validateOperand lib f (cd_Op c) (cd_Value c) = None"
      using assms(1-3,5,6) False
      by (auto simp: OperatorsForKind_def OperatorArity_def operatorDefs_def validateArity_def split: if_splits)
    then obtain i where "operandInt lib (cd_Value c) = Some i" using validateOperand_types(1) assms(4) by blast
    with assms(1-3) False no_set show ?thesis
      by (auto simp: compareInt_def OperatorsForKind_def)
  qed (simp add: compareInt_def)
qed

lemma compareBool_ok:
  assumes "cd_Op c \<in> set (OperatorsForKind KindBool)" "cd_Op c \<noteq> OpIsKnown" "cd_Op c \<noteq> OpIsUnknown"
    and "fd_Kind f = KindBool" "OperatorArity (cd_Op c) = Some ar" "validateArity lib lim f ar c = None"
  shows "\<exists>b. compareBool lib n c = Inr b"
proof -
  have "validateOperand lib f (cd_Op c) (cd_Value c) = None"
    using assms(1-3,5,6)
    by (auto simp: OperatorsForKind_def OperatorArity_def operatorDefs_def validateArity_def split: if_splits)
  then obtain i where "operandBool lib (cd_Value c) = Some i" using validateOperand_types(2) assms(4) by blast
  with assms(1-3) show ?thesis by (auto simp: compareBool_def OperatorsForKind_def)
qed

lemma compareSet_ok:
  assumes "cd_Op c \<in> set (OperatorsForKind KindSet)" "cd_Op c \<noteq> OpIsKnown" "cd_Op c \<noteq> OpIsUnknown"
    and "fd_Kind f = KindSet" "OperatorArity (cd_Op c) = Some ar" "validateArity lib lim f ar c = None"
  shows "\<exists>b. compareSet n c = Inr b"
proof (cases "cd_Op c = OpIn \<or> cd_Op c = OpNotIn")
  case False
  then have "validateOperand lib f (cd_Op c) (cd_Value c) = None"
    using assms(1-3,5,6)
    by (auto simp: OperatorsForKind_def OperatorArity_def operatorDefs_def validateArity_def split: if_splits)
  then obtain s where "operandString (cd_Value c) = Some s" using validateOperand_types(3) assms(4) by force
  with assms(1-3) False show ?thesis by (auto simp: compareSet_def OperatorsForKind_def)
qed (auto simp: compareSet_def)

lemma compareString_ok:
  assumes "cd_Op c \<in> set (OperatorsForKind KindString) \<union> set (OperatorsForKind KindEnum)"
    "cd_Op c \<noteq> OpIsKnown" "cd_Op c \<noteq> OpIsUnknown"
    and "fd_Kind f \<noteq> KindInt" "fd_Kind f \<noteq> KindBool" "OperatorArity (cd_Op c) = Some ar" "validateArity lib lim f ar c = None"
    and "cd_Op c = OpRegex \<Longrightarrow> validateRegex lib lim (cd_Value c) = None"
  shows "\<exists>b. compareString lib n c = Inr b"
proof (cases "cd_Op c = OpIn \<or> cd_Op c = OpNotIn")
  case False
  then have "validateOperand lib f (cd_Op c) (cd_Value c) = None"
    using assms(1-3,6,7)
    by (auto simp: OperatorsForKind_def OperatorArity_def operatorDefs_def validateArity_def split: if_splits)
  then obtain s where "operandString (cd_Value c) = Some s" using validateOperand_types(3) assms(4,5) by blast
  with assms(1-3,8) False show ?thesis
    by (auto simp: compareString_def OperatorsForKind_def validateRegex_def split: if_splits)
qed (auto simp: compareString_def)

lemma compare_ok:
  assumes leaf: "validateLeaf lib reg lim c = None" and ops: "default_operators reg"
    and ok: "cd_Op c \<noteq> OpIsKnown" "cd_Op c \<noteq> OpIsUnknown"
    and kind: "\<And>f. lookup_field reg (cd_FieldName c) = Some f \<Longrightarrow> va_Kind v = fd_Kind f"
  shows "\<exists>b. compare lib v c = Inr b"
proof -
  from leaf obtain f ar where f: "lookup_field reg (cd_FieldName c) = Some f" and ar: "OperatorArity (cd_Op c) = Some ar"
      and sup: "SupportsOperator f (cd_Op c)" and vals: "validateArity lib lim f ar c = None"
      and rex: "cd_Op c = OpRegex \<Longrightarrow> validateRegex lib lim (cd_Value c) = None"
    by (auto simp: validateLeaf_def split: option.splits if_splits)
  have op: "cd_Op c \<in> set (OperatorsForKind (fd_Kind f))"
    using sup default_operators_lookup [OF ops f] by (simp add: SupportsOperator_def)
  show ?thesis
  proof (cases "fd_Kind f")
    case KindInt
    with op show ?thesis
      using compareInt_ok [OF _ ok KindInt ar vals] kind [OF f] by (auto simp: compare_def)
  next
    case KindBool
    with op show ?thesis
      using compareBool_ok [OF _ ok KindBool ar vals] kind [OF f] by (auto simp: compare_def)
  next
    case KindSet
    with op show ?thesis
      using compareSet_ok [OF _ ok KindSet ar vals] kind [OF f] by (auto simp: compare_def)
  qed (use op compareString_ok [OF _ ok _ _ ar vals rex] kind [OF f] in \<open>auto simp: compare_def OperatorsForKind_def\<close>)
qed

lemma evaluateLeaf_ok:
  assumes "validateLeaf lib reg lim c = None" and "default_operators reg" and "facts_typed reg facts"
  shows "\<exists>b. evaluateLeaf t lib ver facts now c = Inr b"
proof (cases "cd_Op c = OpIsKnown \<or> cd_Op c = OpIsUnknown \<or> \<not> va_Known (leaf_value ver facts now c)")
  case True
  then show ?thesis by (auto simp: evaluateLeaf_def Let_def)
next
  case False
  then have "\<exists>b. compare lib (leaf_value ver facts now c) c = Inr b"
    using leaf_value_typed [OF assms(3)] by (intro compare_ok [OF assms(1,2)]) auto
  then have "\<exists>b. (if cd_FieldName c = FieldNodeRegion \<and> ver \<noteq> 1
      then compareRegion t lib (leaf_value ver facts now c) c else compare lib (leaf_value ver facts now c) c) = Inr b"
    by (auto simp: compareRegion_def split: Operator.split)
  then show ?thesis by (force simp: evaluateLeaf_def Let_def)
qed

text \<open>The shape validation enforces.\<close>

fun valid_tree :: "Condition rule_lib \<Rightarrow> Registry \<Rightarrow> Limits \<Rightarrow> Condition \<Rightarrow> bool" where
  "valid_tree lib reg lim (Condition rv mt cs f op v vs age neg) =
     (if mt = OtherMatch [] then f \<noteq> [] \<and> validateLeaf lib reg lim (Condition rv mt cs f op v vs age neg) = None
      else mt \<in> {MatchAll, MatchAny, MatchNone} \<and> list_all (valid_tree lib reg lim) cs)"

lemma validate_valid_tree:
  "fst (validate lib reg lim depth count c) = None \<Longrightarrow> valid_tree lib reg lim c"
  "fst (validate_children lib reg lim depth count i cs) = None \<Longrightarrow> list_all (valid_tree lib reg lim) cs"
proof (induction lib reg lim depth count c and lib reg lim depth count i cs rule: validate_validate_children.induct)
  case (1 lib reg lim depth count rv mt cs f op v vs age neg)
  then show ?case
    by (cases mt) (auto simp: Let_def split: if_splits)
next
  case (3 lib reg lim depth count i c cs)
  then show ?case by (auto split: prod.splits option.splits)
qed simp

lemma valid_tree_error_free:
  assumes "default_operators reg" and "facts_typed reg facts"
  shows "valid_tree lib reg lim c \<Longrightarrow> error_free t lib facts now c"
proof (induction c)
  case (Condition rv mt cs f op v vs age neg)
  then show ?case
    using evaluateLeaf_ok [OF _ assms] by (auto simp: list_all_iff split: if_splits)
qed

lemma valid_tree_v1:
  assumes "default_operators reg" and "facts_typed reg facts"
  shows "valid_tree lib reg lim c \<Longrightarrow> \<exists>b. evaluate_v1 t lib facts now c = Inr b"
proof (induction c)
  case (Condition rv mt cs f op v vs age neg)
  show ?case
  proof (cases "mt = OtherMatch []")
    case True
    with Condition.prems show ?thesis
      using evaluateLeaf_ok [OF _ assms] by (auto simp: Let_def)
  next
    case False
    with Condition.prems have mt: "mt \<in> {MatchAll, MatchAny, MatchNone}" and cs: "\<forall>c \<in> set cs. \<exists>b. evaluate_v1 t lib facts now c = Inr b"
      using Condition.IH by (auto simp: list_all_iff)
    have "\<exists>b. evaluateGroup t lib facts now mt cs = Inr b"
      using cs mt by (induction cs) auto
    with False show ?thesis by (auto simp: Let_def IsEmpty_def)
  qed
qed

lemma ValidateRule_tree: "ValidateRule lib reg lim c = None \<Longrightarrow> \<not> IsEmpty c \<Longrightarrow> valid_tree lib reg lim c"
  by (auto simp: ValidateRule_def Let_def split: if_splits option.splits sum.splits intro: validate_valid_tree(1))

lemma IsEmpty_leaf: "IsEmpty c \<Longrightarrow> \<not> valid_tree lib reg lim c"
  by (cases c) (simp add: IsEmpty_def)

text \<open>C24: a rule that passed validation never fails at evaluation. For every registry the
  application builds, every set of facts with the registered kinds and every time, evaluating a
  validated rule returns an answer and no error, for both region rule versions.\<close>

theorem validated_rule_evaluates:
  assumes "ValidateRule lib (app_registry unlock quality) lim c = None"
    and "facts_typed (app_registry unlock quality) facts"
  shows "\<exists>b. Evaluate t lib c facts now = Inr b"
proof (cases "IsEmpty c")
  case False
  note tree = ValidateRule_tree [OF assms(1) False]
  note typed = default_operators_app assms(2)
  from evaluateTruth_kleene [OF valid_tree_error_free [OF typed tree]] valid_tree_v1 [OF typed tree] False
  show ?thesis by (cases "cd_RegionVersion c = 1") (auto simp: Evaluate_def verdict3_def split: prod.split)
qed (auto simp: Evaluate_def)

text \<open>C25: evaluation is three-valued logic. For a validated rule of the current region version, the
  answer is yes exactly when the rule is true in Kleene's logic over its leaves, where a leaf whose
  fact is unknown or too old is neither true nor false.\<close>

theorem evaluation_is_kleene:
  assumes "ValidateRule lib (app_registry unlock quality) lim c = None" and "\<not> IsEmpty c"
    and "facts_typed (app_registry unlock quality) facts" and "cd_RegionVersion c \<noteq> 1"
  shows "Evaluate t lib c facts now = Inr (eval3 t lib facts now c = TT)"
proof -
  note typed = default_operators_app assms(3)
  from evaluateTruth_kleene [OF valid_tree_error_free [OF typed ValidateRule_tree [OF assms(1,2)]]] assms(2,4)
  show ?thesis by (auto simp: Evaluate_def verdict3_def)
qed

section \<open>More facts never revoke a match\<close>

text \<open>\<open>facts'\<close> knows at least what \<open>facts\<close> knows.\<close>

definition extends_facts :: "NodeFacts \<Rightarrow> NodeFacts \<Rightarrow> bool" where
  "extends_facts facts facts' \<longleftrightarrow> (\<forall>n. va_Known (fact_value facts n) \<longrightarrow> fact_value facts' n = fact_value facts n)"

fun asks_known :: "Condition \<Rightarrow> bool" where
  "asks_known (Condition rv mt cs f op v vs age neg) =
     (if mt = OtherMatch [] then op = OpIsKnown \<or> op = OpIsUnknown else list_ex asks_known cs)"

definition less_known :: "truth \<Rightarrow> truth \<Rightarrow> bool" where
  "less_known x y \<longleftrightarrow> x = UU \<or> x = y"

lemma combine_mono: "list_all2 less_known xs ys \<Longrightarrow> less_known (combine mt xs) (combine mt ys)"
proof -
  assume rel: "list_all2 less_known xs ys"
  have keep: "x \<in> set ys" if "x \<in> set xs" "x \<noteq> UU" for x
    using rel that by (auto simp: less_known_def list_all2_conv_all_nth in_set_conv_nth) (metis)
  have origin: "x \<in> set xs \<or> UU \<in> set xs" if "x \<in> set ys" for x
    using rel that by (auto simp: less_known_def list_all2_conv_all_nth in_set_conv_nth)
  show "less_known (combine mt xs) (combine mt ys)"
    using keep [of TT] keep [of FF] origin [of TT] origin [of FF] origin [of UU]
    by (cases mt) (auto simp: less_known_def)
qed

lemma leaf_value_extends:
  assumes "extends_facts facts facts'" and "va_Known (leaf_value ver facts now c)"
  shows "leaf_value ver facts' now c = leaf_value ver facts now c"
proof -
  define n where "n = (if cd_FieldName c = FieldNodeRegion \<and> ver = 1 then fieldNodeRegionLegacy else cd_FieldName c)"
  have "va_Known (fact_value facts n)"
    using assms(2) unfolding leaf_value_def Let_def n_def [symmetric] by (auto split: if_splits dest: Aged_kind(2))
  with assms(1) have "fact_value facts' n = fact_value facts n" by (simp add: extends_facts_def)
  then show ?thesis by (simp add: leaf_value_def n_def)
qed

lemma leaf3_mono:
  assumes "extends_facts facts facts'" and "cd_Op c \<noteq> OpIsKnown" and "cd_Op c \<noteq> OpIsUnknown"
  shows "less_known (leaf3 t lib facts now c) (leaf3 t lib facts' now c)"
proof (cases "va_Known (leaf_value 2 facts now c)")
  case True
  have "leaf_value 2 facts' now c = leaf_value 2 facts now c" by (rule leaf_value_extends [OF assms(1) True])
  then have "leaf3 t lib facts' now c = leaf3 t lib facts now c"
    by (simp add: leaf3_def evaluateLeaf_def)
  then show ?thesis by (simp add: less_known_def)
next
  case False
  with assms(2,3) show ?thesis by (simp add: leaf3_def less_known_def)
qed

lemma eval3_mono:
  assumes "extends_facts facts facts'"
  shows "\<not> asks_known c \<Longrightarrow> less_known (eval3 t lib facts now c) (eval3 t lib facts' now c)"
proof (induction c)
  case (Condition rv mt cs f op v vs age neg)
  show ?case
  proof (cases "mt = OtherMatch []")
    case True
    with Condition.prems leaf3_mono [OF assms] show ?thesis by simp
  next
    case False
    with Condition have "list_all2 less_known (map (eval3 t lib facts now) cs) (map (eval3 t lib facts' now) cs)"
      by (auto simp: list_all2_conv_all_nth list_ex_iff)
    with False show ?thesis by (simp add: combine_mono)
  qed
qed

text \<open>An unmeasured node never drifts into a tag. If a validated rule of the current region version
  that does not itself ask whether a fact is known matches a node, it still matches when further
  facts about the node become known; so a match never rests on a missing measurement.\<close>

theorem match_never_rests_on_unknown:
  assumes "ValidateRule lib (app_registry unlock quality) lim c = None" and "\<not> asks_known c" and "cd_RegionVersion c \<noteq> 1"
    and "facts_typed (app_registry unlock quality) facts" and "facts_typed (app_registry unlock quality) facts'"
    and "extends_facts facts facts'" and "Evaluate t lib c facts now = Inr True"
  shows "Evaluate t lib c facts' now = Inr True"
proof -
  have ne: "\<not> IsEmpty c" using assms(7) by (auto simp: Evaluate_def)
  note tree = ValidateRule_tree [OF assms(1) ne]
  note k = evaluateTruth_kleene [OF valid_tree_error_free [OF default_operators_app _ tree]]
  have "eval3 t lib facts now c = TT"
    using assms(3,7) ne k [OF assms(4), of t now] by (auto simp: Evaluate_def verdict3_def split: if_splits)
  then have "eval3 t lib facts' now c = TT"
    using eval3_mono [OF assms(6,2), of t lib now] by (simp add: less_known_def)
  then show ?thesis
    using assms(3) ne k [OF assms(5), of t now] by (simp add: Evaluate_def verdict3_def)
qed

section \<open>A concrete rule\<close>

definition demo_lib :: "Condition rule_lib" where
  "demo_lib = \<lparr>rl_compiles = \<lambda>_. True, rl_matches = \<lambda>p s. contains_text s p, rl_parseFloat = \<lambda>_. None, rl_runes = length,
     rl_encoded = \<lambda>_. Inr 100, rl_unmarshal = \<lambda>_. Inl ''no codec''\<rparr>"

definition demo_leaf :: "string \<Rightarrow> Operator \<Rightarrow> operand \<Rightarrow> operand list \<Rightarrow> int \<Rightarrow> Condition" where
  "demo_leaf f op v vs age = Condition 0 (OtherMatch []) [] f op v vs age False"

text \<open>Fast, landing in Japan, and no blacklisted mark or slow peak.\<close>

definition demo_rule :: Condition where
  "demo_rule = Condition 2 MatchAll
     [demo_leaf ''latency_ms'' OpLt (OInt 200) [] 3600, demo_leaf ''node.region'' OpIn ONil [OText ''jp''] 0,
      Condition 0 MatchNone [demo_leaf ''blacklisted'' OpEq (OBool True) [] 0] [] (OtherOp []) ONil [] 0 False]
     [] (OtherOp []) ONil [] 0 False"

definition demo_facts :: NodeFacts where
  "demo_facts = set_fact ''blacklisted'' (BoolValue (Known False)) (set_fact ''node.region'' (EnumValue (Known ''JP''))
     (set_fact ''latency_ms'' (IntValue (KnownAt 80 (5 * second))) (NewNodeFacts 1 ''n'' ''jp'')))"

definition demo_facts2 :: NodeFacts where
  "demo_facts2 = set_fact ''speed_bps'' (IntValue (KnownAt 9 (6 * second))) demo_facts"

lemma demo_rule_valid: "ValidateRule demo_lib (app_registry [''netflix''] []) DefaultLimits demo_rule = None"
  by code_simp

lemma demo_typed: "facts_typed (app_registry [''netflix''] []) demo_facts" "facts_typed (app_registry [''netflix''] []) demo_facts2"
  by code_simp+

lemma demo_match: "Evaluate demo_regions demo_lib demo_rule demo_facts (10 * second) = Inr True"
  "Evaluate demo_regions demo_lib demo_rule demo_facts (9999 * second) = Inr False"
  by code_simp+

lemma demo_shape: "\<not> IsEmpty demo_rule" "cd_RegionVersion demo_rule \<noteq> 1" "\<not> asks_known demo_rule"
  by code_simp+

theorem validated_rule_evaluates_witness: "\<exists>b. Evaluate demo_regions demo_lib demo_rule demo_facts 0 = Inr b"
  by (rule validated_rule_evaluates [OF demo_rule_valid demo_typed(1)])

theorem evaluation_is_kleene_witness: "eval3 demo_regions demo_lib demo_facts (10 * second) demo_rule = TT"
  using evaluation_is_kleene [OF demo_rule_valid demo_shape(1) demo_typed(1) demo_shape(2), of demo_regions "10 * second"]
    demo_match by simp

lemma demo_extends: "extends_facts demo_facts demo_facts2"
proof -
  have "\<not> va_Known (fact_value demo_facts ''speed_bps'')" by code_simp
  then show ?thesis
    unfolding extends_facts_def demo_facts2_def
    by (auto simp: fact_value_def set_fact_def split: option.splits)
qed

theorem match_never_rests_on_unknown_witness:
  "Evaluate demo_regions demo_lib demo_rule demo_facts2 (10 * second) = Inr True"
  by (rule match_never_rests_on_unknown [OF demo_rule_valid demo_shape(3,2) demo_typed demo_extends demo_match(1)])

end
