(* ===== verification/Tags.thy ===== *)
theory Tags
  imports Rules "HOL-Library.Product_Lexorder" "HOL-Library.Multiset"
begin

text \<open>
  From matched rules to tag assignments: \<open>src/internal/nodetag/model.go\<close> and \<open>resolver.go\<close>.
  \<open>sort.Slice\<close> is \<open>sort_key\<close> on the key the comparison orders by; the keys of different tags differ,
  so the result does not depend on the sort being stable. A stored tag contributes the fields
  \<open>CompileRules\<close> reads.
\<close>

record TagMeta =
  tm_TagID :: int
  tm_Name :: string
  tm_MutexGroupID :: int
  tm_Priority :: int

record Rule =
  ru_Meta :: TagMeta
  ru_Version :: int
  ru_Condition :: Condition

datatype shadow_reason = ReasonLowerPriority | ReasonManualOccupiesGroup

record ShadowNote =
  sh_TagID :: int
  sh_TagName :: string
  sh_MutexGroupID :: int
  sh_Reason :: shadow_reason
  sh_WinnerTagID :: int
  sh_WinnerTagName :: string

record TagDecision =
  td_NodeID :: node_id
  td_TagIDs :: "int list"
  td_RuleVersions :: "int list"
  td_Shadowed :: "ShadowNote list"

record NodeAutoTagAssignment =
  aa_NodeID :: node_id
  aa_TagIDs :: "int list"
  aa_RuleVersions :: "int list"

definition Assignment :: "TagDecision \<Rightarrow> NodeAutoTagAssignment" where
  "Assignment d = \<lparr>aa_NodeID = td_NodeID d, aa_TagIDs = td_TagIDs d, aa_RuleVersions = td_RuleVersions d\<rparr>"

section \<open>Compiling stored tags\<close>

record store_tag =
  st_ID :: int
  st_Name :: string
  st_MutexGroupID :: int
  st_Priority :: int
  st_AutoEnabled :: bool
  st_RuleJSON :: string
  st_RuleVersion :: int

definition tag_meta :: "store_tag \<Rightarrow> TagMeta" where
  "tag_meta s = \<lparr>tm_TagID = st_ID s, tm_Name = st_Name s, tm_MutexGroupID = st_MutexGroupID s, tm_Priority = st_Priority s\<rparr>"

fun CompileRules :: "Condition rule_lib \<Rightarrow> store_tag list \<Rightarrow> Rule list \<times> (int \<times> TagMeta) list \<times> int list \<Rightarrow>
    Rule list \<times> (int \<times> TagMeta) list \<times> int list" where
  "CompileRules lib [] acc = acc"
| "CompileRules lib (s # ss) (rules, meta, skipped) =
     (let meta1 = aput (st_ID s) (tag_meta s) meta
      in if \<not> st_AutoEnabled s \<or> st_RuleJSON s = [] then CompileRules lib ss (rules, meta1, skipped)
         else case ParseRule lib (st_RuleJSON s) of
                Inl e \<Rightarrow> CompileRules lib ss (rules, meta1, skipped @ [st_ID s])
              | Inr c \<Rightarrow> if IsEmpty c then CompileRules lib ss (rules, meta1, skipped)
                  else CompileRules lib ss
                    (rules @ [\<lparr>ru_Meta = tag_meta s, ru_Version = st_RuleVersion s, ru_Condition = c\<rparr>], meta1, skipped))"

section \<open>The resolver\<close>

abbreviation rule_tag :: "Rule \<Rightarrow> int" where "rule_tag r \<equiv> tm_TagID (ru_Meta r)"
abbreviation rule_mutex :: "Rule \<Rightarrow> int" where "rule_mutex r \<equiv> tm_MutexGroupID (ru_Meta r)"

definition precedence :: "Rule \<Rightarrow> int \<times> int" where
  "precedence r = (- tm_Priority (ru_Meta r), rule_tag r)"

text \<open>Groups a manual assignment holds; the first manual tag of a group holds it.\<close>

definition occupy_manual :: "(int \<times> TagMeta) list \<Rightarrow> int \<Rightarrow> (int \<times> TagMeta) list \<Rightarrow> (int \<times> TagMeta) list" where
  "occupy_manual meta tagID occ = (case map_of meta tagID of
     None \<Rightarrow> occ
   | Some m \<Rightarrow> if tm_MutexGroupID m = 0 \<or> map_of occ (tm_MutexGroupID m) \<noteq> None then occ
               else aput (tm_MutexGroupID m) m occ)"

record resolve_state =
  re_occupants :: "(int \<times> TagMeta) list"
  re_assigned :: "(int \<times> int) list"
  re_shadowed :: "ShadowNote list"

definition resolve_rule :: "int list \<Rightarrow> Rule \<Rightarrow> resolve_state \<Rightarrow> resolve_state" where
  "resolve_rule manualGroups r s =
     (if rule_mutex r = 0 then s\<lparr>re_assigned := re_assigned s @ [(rule_tag r, ru_Version r)]\<rparr>
      else case map_of (re_occupants s) (rule_mutex r) of
             Some winner \<Rightarrow> s\<lparr>re_shadowed := re_shadowed s @
               [\<lparr>sh_TagID = rule_tag r, sh_TagName = tm_Name (ru_Meta r), sh_MutexGroupID = rule_mutex r,
                 sh_Reason = (if rule_mutex r \<in> set manualGroups then ReasonManualOccupiesGroup else ReasonLowerPriority),
                 sh_WinnerTagID = tm_TagID winner, sh_WinnerTagName = tm_Name winner\<rparr>]\<rparr>
           | None \<Rightarrow> s\<lparr>re_occupants := aput (rule_mutex r) (ru_Meta r) (re_occupants s),
                       re_assigned := re_assigned s @ [(rule_tag r, ru_Version r)]\<rparr>)"

definition sortByTagID :: "(int \<times> int) list \<Rightarrow> (int \<times> int) list" where
  "sortByTagID = sort_key fst"

definition Resolve :: "node_id \<Rightarrow> Rule list \<Rightarrow> int list \<Rightarrow> (int \<times> TagMeta) list \<Rightarrow> TagDecision" where
  "Resolve nodeID matched manualTagIDs meta =
     (let ordered = sort_key precedence matched;
          manual = fold (occupy_manual meta) manualTagIDs [];
          s = fold (resolve_rule (map fst manual)) ordered \<lparr>re_occupants = manual, re_assigned = [], re_shadowed = []\<rparr>;
          assigned = sortByTagID (re_assigned s)
      in \<lparr>td_NodeID = nodeID, td_TagIDs = map fst assigned, td_RuleVersions = map snd assigned,
          td_Shadowed = sort_key sh_TagID (re_shadowed s)\<rparr>)"

section \<open>Properties\<close>

text \<open>What the loop assigns: the rules outside every mutex group, and the first rule of every group
  that no manual tag holds.\<close>

fun winners :: "int list \<Rightarrow> Rule list \<Rightarrow> Rule list" where
  "winners taken [] = []"
| "winners taken (r # rs) =
     (if rule_mutex r = 0 then r # winners taken rs
      else if rule_mutex r \<in> set taken then winners taken rs
      else r # winners (rule_mutex r # taken) rs)"

lemma winners_cong:
  assumes "set taken = set taken'"
  shows "winners taken rs = winners taken' rs"
  using assms
proof (induction rs arbitrary: taken taken')
  case (Cons r rs)
  have "set (rule_mutex r # taken) = set (rule_mutex r # taken')" using Cons.prems by simp
  note more = Cons.IH [OF this] and same = Cons.IH [OF Cons.prems]
  show ?case unfolding winners.simps more same Cons.prems ..
qed simp

lemma resolve_rule_branches:
  "rule_mutex r = 0 \<Longrightarrow> resolve_rule mg r s = s\<lparr>re_assigned := re_assigned s @ [(rule_tag r, ru_Version r)]\<rparr>"
  "rule_mutex r \<noteq> 0 \<Longrightarrow> rule_mutex r \<in> set (map fst (re_occupants s)) \<Longrightarrow>
     re_assigned (resolve_rule mg r s) = re_assigned s \<and> re_occupants (resolve_rule mg r s) = re_occupants s"
  "rule_mutex r \<noteq> 0 \<Longrightarrow> rule_mutex r \<notin> set (map fst (re_occupants s)) \<Longrightarrow>
     re_assigned (resolve_rule mg r s) = re_assigned s @ [(rule_tag r, ru_Version r)] \<and>
     re_occupants (resolve_rule mg r s) = aput (rule_mutex r) (ru_Meta r) (re_occupants s)"
proof -
  have dom: "k \<in> set (map fst m) \<longleftrightarrow> (\<exists>v. map_of m k = Some v)" for k and m :: "(int \<times> TagMeta) list"
    using map_of_eq_None_iff [of m k] by (cases "map_of m k") auto
  show "rule_mutex r = 0 \<Longrightarrow> resolve_rule mg r s = s\<lparr>re_assigned := re_assigned s @ [(rule_tag r, ru_Version r)]\<rparr>"
    by (simp add: resolve_rule_def)
  show "rule_mutex r \<noteq> 0 \<Longrightarrow> rule_mutex r \<in> set (map fst (re_occupants s)) \<Longrightarrow>
     re_assigned (resolve_rule mg r s) = re_assigned s \<and> re_occupants (resolve_rule mg r s) = re_occupants s"
    unfolding dom by (auto simp: resolve_rule_def)
  show "rule_mutex r \<noteq> 0 \<Longrightarrow> rule_mutex r \<notin> set (map fst (re_occupants s)) \<Longrightarrow>
     re_assigned (resolve_rule mg r s) = re_assigned s @ [(rule_tag r, ru_Version r)] \<and>
     re_occupants (resolve_rule mg r s) = aput (rule_mutex r) (ru_Meta r) (re_occupants s)"
    unfolding dom by (auto simp: resolve_rule_def split: option.split)
qed

lemma resolve_loop:
  "re_assigned (fold (resolve_rule mg) rs s)
     = re_assigned s @ map (\<lambda>r. (rule_tag r, ru_Version r)) (winners (map fst (re_occupants s)) rs)"
proof (induction rs arbitrary: s)
  case (Cons r rs)
  consider (free) "rule_mutex r = 0" | (taken) "rule_mutex r \<noteq> 0" "rule_mutex r \<in> set (map fst (re_occupants s))"
    | (first) "rule_mutex r \<noteq> 0" "rule_mutex r \<notin> set (map fst (re_occupants s))" by blast
  then show ?case
  proof cases
    case free
    then show ?thesis by (simp add: Cons.IH resolve_rule_branches(1))
  next
    case taken
    then show ?thesis using resolve_rule_branches(2) [OF taken, of mg] by (simp add: Cons.IH)
  next
    case first
    have "winners (map fst (aput (rule_mutex r) (ru_Meta r) (re_occupants s))) rs
        = winners (rule_mutex r # map fst (re_occupants s)) rs"
      by (rule winners_cong) simp
    then show ?thesis using resolve_rule_branches(3) [OF first, of mg] first by (simp add: Cons.IH)
  qed
qed simp

lemma winners_iff:
  assumes "sorted (map precedence rs)" and "distinct (map precedence rs)"
  shows "r \<in> set (winners taken rs) \<longleftrightarrow> r \<in> set rs \<and> (rule_mutex r = 0 \<or>
    rule_mutex r \<notin> set taken \<and> (\<forall>q \<in> set rs. rule_mutex q = rule_mutex r \<longrightarrow> precedence r \<le> precedence q))"
  using assms
proof (induction rs arbitrary: taken)
  case (Cons x xs)
  have le: "precedence x \<le> precedence q" "precedence x \<noteq> precedence q" if "q \<in> set xs" for q
    using Cons.prems that by auto
  have worse: "\<not> precedence q \<le> precedence x" if "q \<in> set xs" for q
    using le [OF that] by auto
  have IH: "r \<in> set (winners tk xs) \<longleftrightarrow> r \<in> set xs \<and> (rule_mutex r = 0 \<or>
      rule_mutex r \<notin> set tk \<and> (\<forall>q \<in> set xs. rule_mutex q = rule_mutex r \<longrightarrow> precedence r \<le> precedence q))" for tk
    using Cons by simp
  show ?case
  proof (cases "r = x")
    case True
    then have "r \<notin> set xs" using le by auto
    then have "r \<notin> set (winners tk xs)" for tk using IH by blast
    with True le show ?thesis by auto
  next
    case False
    then show ?thesis using worse by (auto simp: IH)
  qed
qed simp

lemma map_of_fst: "(map_of m k \<noteq> None) = (k \<in> set (map fst m))"
  by (simp add: map_of_eq_None_iff)

lemma occupy_manual_groups:
  "set (map fst (fold (occupy_manual meta) ids occ)) = set (map fst occ) \<union>
     {tm_MutexGroupID m | m. \<exists>i \<in> set ids. map_of meta i = Some m \<and> tm_MutexGroupID m \<noteq> 0}"
proof (induction ids arbitrary: occ)
  case (Cons i ids)
  have "set (map fst (occupy_manual meta i occ)) = set (map fst occ) \<union>
      {tm_MutexGroupID m | m. map_of meta i = Some m \<and> tm_MutexGroupID m \<noteq> 0}"
    unfolding occupy_manual_def map_of_fst by (auto split: option.splits)
  then show ?case unfolding fold_simps comp_apply Cons.IH by auto
qed auto

definition manual_groups :: "(int \<times> TagMeta) list \<Rightarrow> int list \<Rightarrow> int set" where
  "manual_groups meta ids = {tm_MutexGroupID m | m. \<exists>i \<in> set ids. map_of meta i = Some m \<and> tm_MutexGroupID m \<noteq> 0}"

lemma precedence_tag: "precedence q = precedence r \<Longrightarrow> rule_tag q = rule_tag r"
  by (simp add: precedence_def)

lemma distinct_precedence: "distinct (map rule_tag rs) \<Longrightarrow> distinct (map precedence rs)"
  by (auto simp: distinct_map inj_on_def dest: precedence_tag)

lemma sorted_rules:
  assumes "distinct (map rule_tag rs)"
  shows "sorted (map precedence (sort_key precedence rs))" and "distinct (map precedence (sort_key precedence rs))"
proof -
  have "mset (map precedence (sort_key precedence rs)) = mset (map precedence rs)" by simp
  then show "distinct (map precedence (sort_key precedence rs))"
    using distinct_precedence [OF assms] mset_eq_imp_distinct_iff by metis
qed simp

lemma td_TagIDs_eq:
  "set (td_TagIDs (Resolve n matched ids meta)) =
     rule_tag ` set (winners (map fst (fold (occupy_manual meta) ids [])) (sort_key precedence matched))"
  by (simp add: Resolve_def Let_def resolve_loop sortByTagID_def image_image)

text \<open>C27: the resolver assigns exactly the right tags. Among matched rules of different tags, a tag is
  assigned iff its rule is in no mutex group, or no manual tag of the node holds its group and no
  matched rule of the group takes precedence (higher priority, then lower tag identifier).\<close>

theorem resolver_assigns_winners:
  assumes "distinct (map rule_tag matched)" and "r \<in> set matched"
  shows "rule_tag r \<in> set (td_TagIDs (Resolve n matched ids meta)) \<longleftrightarrow>
    rule_mutex r = 0 \<or> rule_mutex r \<notin> manual_groups meta ids \<and>
      (\<forall>q \<in> set matched. rule_mutex q = rule_mutex r \<longrightarrow> precedence r \<le> precedence q)"
proof -
  define W where "W = winners (map fst (fold (occupy_manual meta) ids [])) (sort_key precedence matched)"
  have groups: "set (map fst (fold (occupy_manual meta) ids [])) = manual_groups meta ids"
    by (simp add: occupy_manual_groups manual_groups_def del: set_map)
  have W: "q \<in> set W \<longleftrightarrow> q \<in> set matched \<and> (rule_mutex q = 0 \<or> rule_mutex q \<notin> manual_groups meta ids \<and>
      (\<forall>p \<in> set matched. rule_mutex p = rule_mutex q \<longrightarrow> precedence q \<le> precedence p))" for q
    unfolding W_def winners_iff [OF sorted_rules [OF assms(1)]] groups by simp
  have "rule_tag r \<in> rule_tag ` set W \<longleftrightarrow> r \<in> set W"
    using assms W by (auto simp: distinct_map inj_on_def)
  then show ?thesis
    unfolding td_TagIDs_eq W_def [symmetric] W using assms(2) by simp
qed

lemma filter_single: "distinct xs \<Longrightarrow> k \<in> set xs \<Longrightarrow> filter (\<lambda>x. x = k) xs = [k]"
proof (induction xs)
  case (Cons x xs)
  then have "filter (\<lambda>y. y = x) xs = []" by (auto simp: filter_empty_conv)
  with Cons show ?case by auto
qed simp

text \<open>Resolution is independent of order. Rules of different tags in any order give the same
  decision, and the assigned tags come out in ascending order, aligned with their rule versions.\<close>

theorem resolver_order_independent:
  assumes "distinct (map rule_tag matched)" and "mset matched = mset matched'"
  shows "Resolve n matched ids meta = Resolve n matched' ids meta \<and>
    sorted (td_TagIDs (Resolve n matched ids meta)) \<and>
    length (td_TagIDs (Resolve n matched ids meta)) = length (td_RuleVersions (Resolve n matched ids meta))"
proof -
  have inj: "inj_on precedence (set matched)"
    using distinct_precedence [OF assms(1)] by (simp add: distinct_map)
  have "sort_key precedence matched' = sort_key precedence matched"
  proof (rule properties_for_sort_key)
    show "mset (sort_key precedence matched) = mset matched'" using assms(2) by simp
    fix k assume "k \<in> set (sort_key precedence matched)"
    then have k: "k \<in> set matched" by simp
    have single: "filter (\<lambda>x. precedence k = precedence x) xs = [k]" if "mset xs = mset matched" for xs
    proof -
      have "\<forall>x \<in> set xs. precedence k = precedence x \<longleftrightarrow> x = k"
        using inj k that by (metis inj_onD mset_eq_setD)
      then have "filter (\<lambda>x. precedence k = precedence x) xs = filter (\<lambda>x. x = k) xs" by (intro filter_cong) auto
      moreover have "distinct xs" using assms(1) that by (metis distinct_map mset_eq_imp_distinct_iff)
      ultimately show ?thesis
        using k that filter_single [of xs k] by (metis mset_eq_setD)
    qed
    show "filter (\<lambda>x. precedence k = precedence x) (sort_key precedence matched)
        = filter (\<lambda>x. precedence k = precedence x) matched'"
      using single [of "sort_key precedence matched"] single [of matched'] assms(2) by simp
  qed simp
  then show ?thesis
    by (simp add: Resolve_def Let_def sortByTagID_def)
qed

section \<open>A concrete node\<close>

definition demo_tag_rule :: "int \<Rightarrow> int \<Rightarrow> int \<Rightarrow> Rule" where
  "demo_tag_rule i g p = \<lparr>ru_Meta = \<lparr>tm_TagID = i, tm_Name = format_int i, tm_MutexGroupID = g, tm_Priority = p\<rparr>,
     ru_Version = 1, ru_Condition = empty_condition\<rparr>"

definition demo_matched :: "Rule list" where
  "demo_matched = [demo_tag_rule 5 1 10, demo_tag_rule 3 1 20, demo_tag_rule 4 1 20, demo_tag_rule 9 0 0, demo_tag_rule 2 7 99]"

definition demo_meta :: "(int \<times> TagMeta) list" where
  "demo_meta = [(8, ru_Meta (demo_tag_rule 8 7 0))]"

lemma demo_resolution: "td_TagIDs (Resolve 1 demo_matched [8] demo_meta) = [3, 9]" "distinct (map rule_tag demo_matched)"
  "demo_tag_rule 3 1 20 \<in> set demo_matched" "rule_mutex (demo_tag_rule 3 1 20) \<noteq> 0"
  by code_simp+

theorem resolver_assigns_winners_witness: "rule_mutex (demo_tag_rule 3 1 20) \<notin> manual_groups demo_meta [8]"
proof -
  have "rule_tag (demo_tag_rule 3 1 20) \<in> set (td_TagIDs (Resolve 1 demo_matched [8] demo_meta))"
    unfolding demo_resolution(1) by (simp add: demo_tag_rule_def)
  with resolver_assigns_winners [OF demo_resolution(2,3)] demo_resolution(4) show ?thesis by blast
qed

theorem resolver_order_independent_witness:
  "Resolve 1 demo_matched [8] demo_meta = Resolve 1 (rev demo_matched) [8] demo_meta"
  using resolver_order_independent [OF demo_resolution(2), of "rev demo_matched"] by simp

end
