(* ===== verification/Journal.thy ===== *)
theory Journal
  imports Prelude
begin

text \<open>
  The health event journal of \<open>src/internal/store/health_events.go\<close> and the versioned group state
  row of \<open>src/internal/store/sqlite.go\<close>. The database is a record of the tables these functions
  touch: the events in sequence order, the \<open>AUTOINCREMENT\<close> counter, the cursors and the group node
  states, with the groups and nodes the foreign keys refer to. Each function has the effect of
  its SQL text; timestamps are compared as instants (the fixed-width text form the code stores
  orders the same way). A transaction that fails leaves the database as it was, so a failing
  database appears to a caller as an error and an unchanged record.
\<close>

record HealthEvent =
  jv_Seq :: int
  jv_NodeID :: node_id
  jv_IdentityToken :: string
  jv_IdentityRevision :: int
  jv_Tag :: string
  jv_ProbeID :: string
  jv_Success :: bool
  jv_LatencyMs :: int
  jv_Error :: string
  jv_CheckedAt :: gtime
  jv_RecordedAt :: gtime

record GroupNodeState =
  gn_GroupID :: group_id
  gn_NodeID :: node_id
  gn_FailureHistory :: "int list"
  gn_Evicted :: bool
  gn_LastError :: string
  gn_EvictedAt :: gtime
  gn_UpdatedAt :: gtime
  gn_Revision :: int

record HealthEventJournalStats =
  js_Count :: int
  js_MinSeq :: int
  js_MaxSeq :: int
  js_OldestRecordedAt :: gtime

record journal_db =
  db_events :: "HealthEvent list"
  db_lastSeq :: int
  db_cursors :: "(string \<times> int) list"
  db_states :: "((group_id \<times> node_id) \<times> GroupNodeState) list"
  db_groups :: "group_id list"
  db_nodes :: "node_id list"

datatype store_error = JournalFull | ForeignKey | DatabaseError

definition HealthEventJournalLimit :: nat where "HealthEventJournalLimit = 8192"

definition AppendHealthEvent :: "gtime \<Rightarrow> HealthEvent \<Rightarrow> journal_db \<Rightarrow> (store_error + int) \<times> journal_db" where
  "AppendHealthEvent now ev db =
     (if length (db_events db) \<ge> HealthEventJournalLimit then (Inl JournalFull, db)
      else let seq = db_lastSeq db + 1;
               row = ev\<lparr>jv_Seq := seq,
                        jv_RecordedAt := (if is_zero_time (jv_RecordedAt ev) then now else jv_RecordedAt ev)\<rparr>
           in (Inr seq, db\<lparr>db_events := db_events db @ [row], db_lastSeq := seq\<rparr>))"

definition ListHealthEventsAfter :: "int \<Rightarrow> int \<Rightarrow> journal_db \<Rightarrow> HealthEvent list" where
  "ListHealthEventsAfter after limit db =
     (let n = (if limit \<le> 0 \<or> limit > 512 then 512 else limit)
      in take (nat n) (filter (\<lambda>e. jv_Seq e > after) (db_events db)))"

definition MaxHealthEventSeq :: "journal_db \<Rightarrow> int" where
  "MaxHealthEventSeq db = (if db_events db = [] then 0 else Max (jv_Seq ` set (db_events db)))"

definition JournalStats :: "journal_db \<Rightarrow> HealthEventJournalStats" where
  "JournalStats db = \<lparr>js_Count = int (length (db_events db)),
     js_MinSeq = (if db_events db = [] then 0 else Min (jv_Seq ` set (db_events db))),
     js_MaxSeq = MaxHealthEventSeq db,
     js_OldestRecordedAt = (if db_events db = [] then zero_time else Min (jv_RecordedAt ` set (db_events db)))\<rparr>"

definition GetHealthEventCursor :: "string \<Rightarrow> journal_db \<Rightarrow> int option" where
  "GetHealthEventCursor consumer db = map_of (db_cursors db) consumer"

definition PutHealthEventCursor :: "string \<Rightarrow> int \<Rightarrow> journal_db \<Rightarrow> journal_db" where
  "PutHealthEventCursor consumer seq db =
     (let old = map_of (db_cursors db) consumer;
          new = (case old of None \<Rightarrow> seq | Some o' \<Rightarrow> if seq > o' then seq else o')
      in db\<lparr>db_cursors := aput consumer new (db_cursors db)\<rparr>)"

text \<open>The instant that reading back the text of \<open>formatTime\<close> gives: the format has whole seconds.\<close>

definition formatTime :: "gtime \<Rightarrow> gtime" where
  "formatTime t = second * (t div second)"

definition stored_state :: "gtime \<Rightarrow> GroupNodeState \<Rightarrow> GroupNodeState" where
  "stored_state now st = st\<lparr>gn_EvictedAt := formatTime (gn_EvictedAt st), gn_UpdatedAt := formatTime now\<rparr>"

lemma stored_state_key [simp]:
  "gn_GroupID (stored_state now st) = gn_GroupID st" "gn_NodeID (stored_state now st) = gn_NodeID st"
  "gn_Revision (stored_state now st) = gn_Revision st"
  by (simp_all add: stored_state_def)

definition UpsertGroupNodeState :: "gtime \<Rightarrow> GroupNodeState \<Rightarrow> journal_db \<Rightarrow> store_error option \<times> journal_db" where
  "UpsertGroupNodeState now st db =
     (let key = (gn_GroupID st, gn_NodeID st); row = stored_state now st
      in if gn_GroupID st \<notin> set (db_groups db) \<or> gn_NodeID st \<notin> set (db_nodes db) then (Some ForeignKey, db)
         else case map_of (db_states db) key of
                None \<Rightarrow> (None, db\<lparr>db_states := aput key row (db_states db)\<rparr>)
              | Some stored \<Rightarrow>
                  if gn_Revision st = 0 \<or> gn_Revision st \<ge> gn_Revision stored
                  then (None, db\<lparr>db_states := aput key row (db_states db)\<rparr>)
                  else (None, db))"

definition ClearGroupNodeState :: "group_id \<Rightarrow> node_id \<Rightarrow> journal_db \<Rightarrow> journal_db" where
  "ClearGroupNodeState g n db = db\<lparr>db_states := adel (g, n) (db_states db)\<rparr>"

text \<open>A row whose group or node is gone is dropped; any other error would abort the transaction.\<close>

definition upsert_states :: "gtime \<Rightarrow> GroupNodeState list \<Rightarrow> journal_db \<Rightarrow> journal_db" where
  "upsert_states now states db = fold (\<lambda>st d. snd (UpsertGroupNodeState now st d)) states db"

definition AdvanceHealthCursorWithState ::
  "gtime \<Rightarrow> string \<Rightarrow> int \<Rightarrow> GroupNodeState list \<Rightarrow> journal_db \<Rightarrow> journal_db" where
  "AdvanceHealthCursorWithState now consumer seq states db =
     (let db1 = upsert_states now states db
      in if consumer = [] \<or> seq \<le> 0 then db1 else PutHealthEventCursor consumer seq db1)"

text \<open>The slowest active cursor; a consumer without a row counts as 0.\<close>

definition active_floor :: "string list \<Rightarrow> journal_db \<Rightarrow> int" where
  "active_floor active db =
     Min (set (map (\<lambda>c. case map_of (db_cursors db) c of None \<Rightarrow> 0 | Some s \<Rightarrow> s) active))"

definition prunable :: "gtime \<Rightarrow> string list \<Rightarrow> journal_db \<Rightarrow> HealthEvent \<Rightarrow> bool" where
  "prunable olderThan active db e \<longleftrightarrow>
     jv_RecordedAt e < olderThan \<and> (active = [] \<or> jv_Seq e \<le> active_floor active db)"

definition PruneHealthEvents :: "gtime \<Rightarrow> string list \<Rightarrow> journal_db \<Rightarrow> int \<times> journal_db" where
  "PruneHealthEvents olderThan active db =
     (let kept = filter (\<lambda>e. \<not> prunable olderThan active db e) (db_events db)
      in (int (length (db_events db)) - int (length kept), db\<lparr>db_events := kept\<rparr>))"

section \<open>Well-formed journals\<close>

definition journal_ok :: "journal_db \<Rightarrow> bool" where
  "journal_ok db \<longleftrightarrow> sorted_wrt (<) (map jv_Seq (db_events db)) \<and>
     (\<forall>e \<in> set (db_events db). 0 < jv_Seq e \<and> jv_Seq e \<le> db_lastSeq db) \<and> 0 \<le> db_lastSeq db \<and>
     length (db_events db) \<le> HealthEventJournalLimit"

named_theorems journal_keeps \<open>operations that keep a journal well formed\<close>

lemma append_ok [journal_keeps]: "journal_ok db \<Longrightarrow> journal_ok (snd (AppendHealthEvent now ev db))"
  by (auto simp: journal_ok_def AppendHealthEvent_def Let_def sorted_wrt_append)

lemma sorted_wrt_map_filter: "sorted_wrt R (map f xs) \<Longrightarrow> sorted_wrt R (map f (filter P xs))"
  by (induction xs) auto

lemma prune_ok [journal_keeps]: "journal_ok db \<Longrightarrow> journal_ok (snd (PruneHealthEvents olderThan active db))"
  by (auto simp: journal_ok_def PruneHealthEvents_def Let_def sorted_wrt_map_filter
      intro: order_trans [OF length_filter_le])

lemma upsert_fields [simp]:
  "db_events (snd (UpsertGroupNodeState now st db)) = db_events db"
  "db_lastSeq (snd (UpsertGroupNodeState now st db)) = db_lastSeq db"
  "db_cursors (snd (UpsertGroupNodeState now st db)) = db_cursors db"
  "db_groups (snd (UpsertGroupNodeState now st db)) = db_groups db"
  "db_nodes (snd (UpsertGroupNodeState now st db)) = db_nodes db"
  by (auto simp: UpsertGroupNodeState_def Let_def split: option.splits)

lemma upsert_states_fields [simp]:
  "db_events (upsert_states now sts db) = db_events db"
  "db_lastSeq (upsert_states now sts db) = db_lastSeq db"
  "db_cursors (upsert_states now sts db) = db_cursors db"
  by (induction sts arbitrary: db) (auto simp: upsert_states_def)

lemma advance_fields [simp]:
  "db_events (AdvanceHealthCursorWithState now c s sts db) = db_events db"
  "db_lastSeq (AdvanceHealthCursorWithState now c s sts db) = db_lastSeq db"
  by (auto simp: AdvanceHealthCursorWithState_def PutHealthEventCursor_def Let_def)

lemma advance_cursors:
  "map_of (db_cursors (AdvanceHealthCursorWithState now c s sts db)) k =
     (if k = c \<and> c \<noteq> [] \<and> 0 < s
      then Some (case map_of (db_cursors db) c of None \<Rightarrow> s | Some p \<Rightarrow> max s p) else map_of (db_cursors db) k)"
  by (auto simp: AdvanceHealthCursorWithState_def PutHealthEventCursor_def Let_def split: option.splits)

lemma advance_ok [journal_keeps]: "journal_ok db \<Longrightarrow> journal_ok (AdvanceHealthCursorWithState now c s sts db)"
  by (simp add: journal_ok_def)

section \<open>Versioned group states\<close>

text \<open>Both writers of a row stamp their snapshot with a revision. \<open>newest\<close> is the row that should win.\<close>

definition row_key :: "GroupNodeState \<Rightarrow> group_id \<times> node_id" where
  "row_key st = (gn_GroupID st, gn_NodeID st)"

definition newer :: "GroupNodeState \<Rightarrow> GroupNodeState option \<Rightarrow> GroupNodeState option" where
  "newer st old = (case old of None \<Rightarrow> Some st | Some o' \<Rightarrow> if gn_Revision st \<ge> gn_Revision o' then Some st else Some o')"

lemma upsert_states_row:
  assumes "\<forall>st \<in> set sts. row_key st = k \<and> 0 < gn_Revision st"
    and "fst k \<in> set (db_groups db)" and "snd k \<in> set (db_nodes db)"
  shows "map_of (db_states (upsert_states now sts db)) k
    = fold newer (map (stored_state now) sts) (map_of (db_states db) k)"
  using assms
proof (induction sts arbitrary: db)
  case (Cons st sts)
  have st: "map_of (db_states (snd (UpsertGroupNodeState now st db))) k
      = newer (stored_state now st) (map_of (db_states db) k)"
    using Cons.prems by (auto simp: UpsertGroupNodeState_def newer_def row_key_def Let_def split: option.splits)
  have "map_of (db_states (upsert_states now sts (snd (UpsertGroupNodeState now st db)))) k
      = fold newer (map (stored_state now) sts) (newer (stored_state now st) (map_of (db_states db) k))"
    using Cons.IH [of "snd (UpsertGroupNodeState now st db)"] Cons.prems by (simp add: st)
  then show ?case by (simp add: upsert_states_def)
qed (simp add: upsert_states_def)

lemma newer_fold:
  assumes "fold newer sts acc = Some r"
  shows "(r \<in> set sts \<or> acc = Some r) \<and> (\<forall>st \<in> set sts. gn_Revision st \<le> gn_Revision r) \<and>
    (\<forall>a. acc = Some a \<longrightarrow> gn_Revision a \<le> gn_Revision r)"
  using assms
proof (induction sts arbitrary: acc)
  case (Cons st sts)
  from Cons.IH [of "newer st acc"] Cons.prems show ?case
    by (cases acc) (auto simp: newer_def split: if_splits)
qed auto

lemma newer_fold_Some: "sts \<noteq> [] \<Longrightarrow> \<exists>r. fold newer sts acc = Some r"
proof (induction sts arbitrary: acc)
  case (Cons st sts)
  have "\<exists>a. newer st acc = Some a" by (auto simp: newer_def split: option.split)
  then show ?case using Cons.IH [of "newer st acc"] by (cases sts) auto
qed simp

text \<open>The newest group state wins, whatever the order of the writers. Versioned writes of one
  existing group and node, with different revisions, leave the same row in every order: the one with
  the highest revision, so a stalled writer cannot bring back an eviction that was cleared.\<close>

theorem versioned_writes_converge:
  assumes "\<forall>st \<in> set sts. row_key st = k \<and> 0 < gn_Revision st" and "distinct (map gn_Revision sts)"
    and "fst k \<in> set (db_groups db)" and "snd k \<in> set (db_nodes db)" and "map_of (db_states db) k = None"
    and "set sts' = set sts" and "sts \<noteq> []"
  shows "\<exists>r \<in> set sts. (\<forall>st \<in> set sts. gn_Revision st \<le> gn_Revision r) \<and>
    map_of (db_states (upsert_states now sts db)) k = Some (stored_state now r) \<and>
    map_of (db_states (upsert_states now sts' db)) k = Some (stored_state now r)"
proof -
  define stamp where "stamp = stored_state now"
  have result: "\<exists>r \<in> set sts. (\<forall>st \<in> set sts. gn_Revision st \<le> gn_Revision r) \<and>
      map_of (db_states (upsert_states now xs db)) k = Some (stamp r)" if xs: "set xs = set sts" for xs
  proof -
    have row: "map_of (db_states (upsert_states now xs db)) k = fold newer (map stamp xs) None"
      using upsert_states_row [of xs k db now] assms(1,3,4,5) xs by (simp add: stamp_def)
    have "map stamp xs \<noteq> []" using xs assms(7) by auto
    then obtain r where r: "fold newer (map stamp xs) None = Some r" using newer_fold_Some by blast
    from newer_fold [OF r] obtain q where "q \<in> set xs" "r = stamp q" by auto
    moreover from this newer_fold [OF r] have "\<forall>st \<in> set xs. gn_Revision st \<le> gn_Revision q"
      by (auto simp: stamp_def)
    ultimately show ?thesis using row r xs by auto
  qed
  obtain r where r: "r \<in> set sts" "\<forall>st \<in> set sts. gn_Revision st \<le> gn_Revision r"
      "map_of (db_states (upsert_states now sts db)) k = Some (stamp r)" using result [of sts] by auto
  obtain q where q: "q \<in> set sts" "\<forall>st \<in> set sts. gn_Revision st \<le> gn_Revision q"
      "map_of (db_states (upsert_states now sts' db)) k = Some (stamp q)" using result [OF assms(6)] by auto
  have "gn_Revision q = gn_Revision r" using r(1,2) q(1,2) by (simp add: antisym)
  then have "q = r" using r(1) q(1) assms(2) by (auto simp: distinct_map inj_on_def)
  with r q show ?thesis by (auto simp: stamp_def)
qed

definition demo_db :: journal_db where
  "demo_db = \<lparr>db_events = [], db_lastSeq = 0, db_cursors = [], db_states = [], db_groups = [1], db_nodes = [5]\<rparr>"

definition demo_member_state :: "bool \<Rightarrow> int \<Rightarrow> GroupNodeState" where
  "demo_member_state evicted rv = \<lparr>gn_GroupID = 1, gn_NodeID = 5, gn_FailureHistory = [], gn_Evicted = evicted,
     gn_LastError = [], gn_EvictedAt = zero_time, gn_UpdatedAt = zero_time, gn_Revision = rv\<rparr>"

theorem versioned_writes_converge_witness:
  "map_of (db_states (upsert_states 9 [demo_member_state False 2, demo_member_state True 1] demo_db)) (1, 5)
     = Some (stored_state 9 (demo_member_state False 2))"
proof -
  let ?s = "[demo_member_state True 1, demo_member_state False 2]"
  have "\<exists>r \<in> set ?s. (\<forall>st \<in> set ?s. gn_Revision st \<le> gn_Revision r) \<and>
      map_of (db_states (upsert_states 9 ?s demo_db)) (1, 5) = Some (stored_state 9 r) \<and>
      map_of (db_states (upsert_states 9 [demo_member_state False 2, demo_member_state True 1] demo_db)) (1, 5) = Some (stored_state 9 r)"
    by (rule versioned_writes_converge) (auto simp: demo_member_state_def demo_db_def row_key_def)
  then show ?thesis by (auto simp: demo_member_state_def stored_state_def)
qed

end
