(* ===== verification/Health_Hub.thy ===== *)
theory Health_Hub
  imports Journal
begin

text \<open>
  Delivery of health events: \<open>src/internal/monitor/health_event_hub.go\<close> and
  \<open>health_event_prune.go\<close>. A subscription is a record of the struct's fields, its channel
  \<open>wake\<close> a flag (it has capacity one and sends never block). The callback is a function on the
  consumer's own state \<open>'w\<close>. \<open>journal\<close> is \<open>None\<close> when no store is configured. One call of
  \<open>step\<close> is one transition; the database errors it may meet are its argument \<open>faults\<close>. The hub's
  locks make each of its functions one transition. Logging and context deadlines are left out.
\<close>

definition healthEventReadBatch :: nat where "healthEventReadBatch = 64"
definition healthEventConsumedRetention :: duration where "healthEventConsumedRetention = 5 * minute"
definition healthEventRetention :: duration where "healthEventRetention = 30 * minute"
definition healthEventPressureThreshold :: int where
  "healthEventPressureThreshold = int (HealthEventJournalLimit * 3 div 4)"
definition healthEventInlineLimit :: nat where "healthEventInlineLimit = 1024"

record HealthResultEvent =
  hr_Tag :: string
  hr_NodeID :: node_id
  hr_Success :: bool
  hr_Latency :: duration
  hr_Error :: string
  hr_ProbeID :: string
  hr_Seq :: int
  hr_CheckedAt :: gtime
  hr_SnapshotOnly :: bool

definition healthResultEvent :: "HealthEvent \<Rightarrow> HealthResultEvent" where
  "healthResultEvent e = \<lparr>hr_Tag = jv_Tag e, hr_NodeID = jv_NodeID e, hr_Success = jv_Success e,
     hr_Latency = wrap64 (jv_LatencyMs e * millisecond), hr_Error = jv_Error e, hr_ProbeID = jv_ProbeID e,
     hr_Seq = jv_Seq e, hr_CheckedAt = jv_CheckedAt e, hr_SnapshotOnly = False\<rparr>"

definition refresh_event :: "gtime \<Rightarrow> HealthResultEvent" where
  "refresh_event now = \<lparr>hr_Tag = [], hr_NodeID = 0, hr_Success = False, hr_Latency = 0, hr_Error = [],
     hr_ProbeID = [], hr_Seq = 0, hr_CheckedAt = now, hr_SnapshotOnly = True\<rparr>"

type_synonym 'w callback = "HealthResultEvent \<Rightarrow> 'w \<Rightarrow> GroupNodeState list \<times> 'w"

record healthEventSubscription =
  su_tags :: "string list"
  su_nodeIDs :: "node_id list"
  su_global :: bool
  su_consumer :: string
  su_cursor :: int
  su_pendingCursor :: int
  su_dirty :: bool
  su_refresh :: bool
  su_cursorBlocked :: bool
  su_pendingStates :: "GroupNodeState list"
  su_inline :: "HealthResultEvent list"
  su_closed :: bool
  su_delivered :: int
  su_gaps :: int
  su_dropped :: int
  su_readFailures :: int
  su_cursorFailures :: int
  su_retryScheduled :: bool
  su_wake :: bool

record faults =
  fl_get :: bool
  fl_tail :: bool
  fl_put :: bool
  fl_read :: bool
  fl_commit :: bool

definition no_faults :: faults where
  "no_faults = \<lparr>fl_get = False, fl_tail = False, fl_put = False, fl_read = False, fl_commit = False\<rparr>"

section \<open>Opening a subscription\<close>

definition blank_subscription :: "string list \<Rightarrow> node_id list \<Rightarrow> bool \<Rightarrow> string \<Rightarrow> healthEventSubscription" where
  "blank_subscription tags nodeIDs global consumer = \<lparr>su_tags = filter (\<lambda>t. t \<noteq> []) tags,
     su_nodeIDs = filter (\<lambda>n. n \<noteq> 0) nodeIDs, su_global = global, su_consumer = consumer, su_cursor = 0,
     su_pendingCursor = 0, su_dirty = False, su_refresh = False, su_cursorBlocked = False, su_pendingStates = [],
     su_inline = [], su_closed = False, su_delivered = 0, su_gaps = 0, su_dropped = 0, su_readFailures = 0,
     su_cursorFailures = 0, su_retryScheduled = False, su_wake = False\<rparr>"

definition initCursor :: "faults \<Rightarrow> healthEventSubscription \<Rightarrow> journal_db option \<Rightarrow>
    healthEventSubscription \<times> journal_db option" where
  "initCursor fl s journal = (case journal of None \<Rightarrow> (s, None)
     | Some db \<Rightarrow>
         (case (if su_consumer s \<noteq> [] \<and> \<not> fl_get fl then GetHealthEventCursor (su_consumer s) db else None) of
            Some seq \<Rightarrow> (s\<lparr>su_cursor := seq\<rparr>, Some db)
          | None \<Rightarrow>
              if fl_tail fl then (s, Some db)
              else let tail = MaxHealthEventSeq db
                   in (s\<lparr>su_cursor := tail\<rparr>,
                       Some (if su_consumer s \<noteq> [] \<and> \<not> fl_put fl then PutHealthEventCursor (su_consumer s) tail db else db))))"

definition newHealthEventSubscription :: "faults \<Rightarrow> string list \<Rightarrow> node_id list \<Rightarrow> bool \<Rightarrow> string \<Rightarrow> journal_db option \<Rightarrow>
    healthEventSubscription \<times> journal_db option" where
  "newHealthEventSubscription fl tags nodeIDs global consumer journal =
     initCursor fl (blank_subscription tags nodeIDs global consumer) journal"

section \<open>Notification\<close>

definition wakeup :: "healthEventSubscription \<Rightarrow> healthEventSubscription" where
  "wakeup s = s\<lparr>su_wake := True\<rparr>"

definition notify :: "bool \<Rightarrow> HealthResultEvent \<Rightarrow> healthEventSubscription \<Rightarrow> healthEventSubscription" where
  "notify hasJournal ev s =
     (if su_closed s then s
      else if hr_SnapshotOnly ev then wakeup (s\<lparr>su_refresh := True\<rparr>)
      else if hr_Seq ev > 0 \<and> hasJournal then wakeup (s\<lparr>su_dirty := True\<rparr>)
      else if length (su_inline s) \<ge> healthEventInlineLimit then s\<lparr>su_dropped := su_dropped s + 1\<rparr>
      else wakeup (s\<lparr>su_inline := su_inline s @ [ev]\<rparr>))"

definition scheduleRetry :: "healthEventSubscription \<Rightarrow> healthEventSubscription" where
  "scheduleRetry s = (if su_closed s \<or> su_retryScheduled s then s else s\<lparr>su_retryScheduled := True\<rparr>)"

text \<open>The timer of \<open>scheduleRetry\<close> fires.\<close>

definition retry_fires :: "healthEventSubscription \<Rightarrow> healthEventSubscription" where
  "retry_fires s = (let s1 = s\<lparr>su_retryScheduled := False\<rparr> in if su_closed s then s1 else wakeup s1)"

definition close_subscription :: "healthEventSubscription \<Rightarrow> healthEventSubscription" where
  "close_subscription s = (if su_closed s then s else s\<lparr>su_closed := True, su_inline := []\<rparr>)"

section \<open>Delivery\<close>

definition state_key :: "GroupNodeState \<Rightarrow> group_id \<times> node_id" where
  "state_key st = (gn_GroupID st, gn_NodeID st)"

fun replace_state :: "GroupNodeState \<Rightarrow> GroupNodeState list \<Rightarrow> GroupNodeState list" where
  "replace_state st [] = [st]"
| "replace_state st (p # ps) = (if state_key p = state_key st then st # ps else p # replace_state st ps)"

definition recordStates :: "GroupNodeState list \<Rightarrow> healthEventSubscription \<Rightarrow> healthEventSubscription" where
  "recordStates states s = s\<lparr>su_pendingStates := fold replace_state states (su_pendingStates s)\<rparr>"

definition restoreStates :: "GroupNodeState list \<Rightarrow> healthEventSubscription \<Rightarrow> healthEventSubscription" where
  "restoreStates states s = s\<lparr>su_pendingStates := fold (\<lambda>st ps.
     if state_key st \<in> state_key ` set ps then ps else ps @ [st]) states (su_pendingStates s)\<rparr>"

definition matches :: "healthEventSubscription \<Rightarrow> HealthEvent \<Rightarrow> bool" where
  "matches s e \<longleftrightarrow> su_global s \<or> jv_Tag e \<in> set (su_tags s) \<or> jv_NodeID e \<noteq> 0 \<and> jv_NodeID e \<in> set (su_nodeIDs s)"

definition deliver :: "'w callback \<Rightarrow> HealthResultEvent \<Rightarrow> healthEventSubscription \<times> 'w \<Rightarrow> healthEventSubscription \<times> 'w" where
  "deliver cb ev = (\<lambda>(s, w). let (states, w') = cb ev w; s1 = recordStates states s
                             in (s1\<lparr>su_delivered := su_delivered s1 + 1\<rparr>, w'))"

definition popInline :: "healthEventSubscription \<Rightarrow> (HealthResultEvent \<times> healthEventSubscription) option" where
  "popInline s = (if su_closed s then None
     else case su_inline s of [] \<Rightarrow> None | ev # evs \<Rightarrow> Some (ev, s\<lparr>su_inline := evs\<rparr>))"

definition takeRefresh :: "healthEventSubscription \<Rightarrow> bool \<times> healthEventSubscription" where
  "takeRefresh s = (if su_closed s \<or> \<not> su_refresh s then (False, s) else (True, s\<lparr>su_refresh := False\<rparr>))"

definition flushCursor :: "faults \<Rightarrow> gtime \<Rightarrow> healthEventSubscription \<Rightarrow> journal_db option \<Rightarrow>
    bool \<times> healthEventSubscription \<times> journal_db option" where
  "flushCursor fl now s journal =
     (let pending = su_pendingCursor s; states = su_pendingStates s
      in if su_closed s \<or> su_consumer s = [] \<or> pending = 0 \<and> states = [] then (False, s, journal)
         else let s1 = s\<lparr>su_pendingStates := []\<rparr>
              in case journal of
                   None \<Rightarrow> (False, s1, None)
                 | Some db \<Rightarrow>
                     if fl_commit fl
                     then (let s2 = restoreStates states s1
                           in (False, scheduleRetry (s2\<lparr>su_cursorFailures := su_cursorFailures s2 + 1,
                                                         su_cursorBlocked := True\<rparr>), Some db))
                     else (True, s1\<lparr>su_pendingCursor := (if su_pendingCursor s1 = pending then 0 else su_pendingCursor s1),
                                    su_cursorBlocked := False\<rparr>,
                           Some (AdvanceHealthCursorWithState now (su_consumer s) pending states db)))"

text \<open>The loop of \<open>readJournal\<close> over one batch; the flag says that it ran to the end.\<close>

definition advance_to :: "int \<Rightarrow> healthEventSubscription \<Rightarrow> healthEventSubscription" where
  "advance_to seq s = (if seq > su_cursor s
     then s\<lparr>su_cursor := seq, su_pendingCursor := (if su_consumer s \<noteq> [] then seq else su_pendingCursor s)\<rparr> else s)"

fun consume :: "'w callback \<Rightarrow> HealthEvent list \<Rightarrow> healthEventSubscription \<times> 'w \<Rightarrow> bool \<times> healthEventSubscription \<times> 'w" where
  "consume cb [] sw = (True, sw)"
| "consume cb (e # es) (s, w) =
     (if su_closed s then (False, s, w)
      else let s1 = (if jv_Seq e > su_cursor s + 1 then s\<lparr>su_gaps := su_gaps s + 1\<rparr> else s);
               (s2, w2) = (if matches s1 e then deliver cb (healthResultEvent e) (s1, w) else (s1, w))
           in consume cb es (advance_to (jv_Seq e) s2, w2))"

definition readJournal :: "faults \<Rightarrow> 'w callback \<Rightarrow> journal_db option \<Rightarrow> healthEventSubscription \<times> 'w \<Rightarrow>
    bool \<times> healthEventSubscription \<times> 'w" where
  "readJournal fl cb journal = (\<lambda>(s, w). case journal of None \<Rightarrow> (False, s, w)
     | Some db \<Rightarrow>
         if su_closed s \<or> \<not> su_dirty s \<or> su_cursorBlocked s then (False, s, w)
         else let s1 = s\<lparr>su_dirty := False\<rparr>
              in if fl_read fl
                 then (False, scheduleRetry (s1\<lparr>su_readFailures := su_readFailures s1 + 1, su_dirty := True\<rparr>), w)
                 else let events = ListHealthEventsAfter (su_cursor s) (int healthEventReadBatch) db
                      in if events = [] then (False, s1, w)
                         else let (finished, s2, w2) = consume cb events (s1, w)
                              in if \<not> finished then (False, s2, w2)
                                 else if length events = healthEventReadBatch then (True, s2\<lparr>su_dirty := True\<rparr>, w2)
                                 else (False, s2, w2))"

type_synonym 'w delivery = "healthEventSubscription \<times> 'w \<times> journal_db option"

definition step :: "faults \<Rightarrow> 'w callback \<Rightarrow> gtime \<Rightarrow> 'w delivery \<Rightarrow> bool \<times> 'w delivery" where
  "step fl cb now = (\<lambda>(s, w, journal).
     if su_cursorBlocked s
     then (let (_, s1, j1) = flushCursor fl now s journal in (\<not> su_cursorBlocked s1, s1, w, j1))
     else case popInline s of
            Some (ev, s1) \<Rightarrow> (let (s2, w2) = deliver cb ev (s1, w) in (True, s2, w2, journal))
          | None \<Rightarrow>
              let (more, s1, w1) = readJournal fl cb journal (s, w);
                  (flushed, s2, j2) = flushCursor fl now s1 journal
              in if more \<or> flushed then (True, s2, w1, j2)
                 else let (refresh, s3) = takeRefresh s2
                      in if refresh then (let (s4, w4) = deliver cb (refresh_event now) (s3, w1) in (True, s4, w4, j2))
                         else (False, s3, w1, j2))"

text \<open>The body of \<open>run\<close> for one wakeup, \<open>for s.step() {}\<close>, with fuel: \<open>None\<close> when it runs out.
  The \<open>k\<close>-th step meets the faults \<open>fl k\<close> at the time \<open>now k\<close>.\<close>

fun run_steps :: "nat \<Rightarrow> nat \<Rightarrow> (nat \<Rightarrow> faults) \<Rightarrow> 'w callback \<Rightarrow> (nat \<Rightarrow> gtime) \<Rightarrow> 'w delivery \<Rightarrow> 'w delivery option" where
  "run_steps 0 k fl cb now d = None"
| "run_steps (Suc n) k fl cb now d =
     (case step (fl k) cb (now k) d of (True, d') \<Rightarrow> run_steps n (Suc k) fl cb now d' | (False, d') \<Rightarrow> Some d')"

end
