(* ===== verification/Health_Delivery.thy ===== *)
theory Health_Delivery
  imports Health_Hub
begin

text \<open>
  The delivery guarantee of the health journal: under every interleaving of measurements,
  notifications, pruning, failed and successful database calls and closing, a durable consumer
  sees every committed event of its members exactly once and in commit order, its persisted
  cursor is never more than one batch behind, and the loop that serves a wakeup ends with the
  journal drained.
\<close>

section \<open>Sequences in commit order\<close>

abbreviation in_order :: "HealthEvent list \<Rightarrow> bool" where
  "in_order es \<equiv> sorted_wrt (<) (map jv_Seq es)"

definition between :: "int \<Rightarrow> int \<Rightarrow> HealthEvent list \<Rightarrow> HealthEvent list" where
  "between a b es = filter (\<lambda>e. a < jv_Seq e \<and> jv_Seq e \<le> b) es"

lemma in_order_filter: "in_order es \<Longrightarrow> in_order (filter P es)"
  by (rule sorted_wrt_map_filter)

lemma in_order_unique:
  assumes "in_order xs" and "in_order ys" and "set xs = set ys"
  shows "xs = ys"
proof -
  have sd: "sorted (map jv_Seq zs) \<and> distinct (map jv_Seq zs)" if "in_order zs" for zs
    using that by (simp add: strict_sorted_iff)
  then have "map jv_Seq xs = map jv_Seq ys"
    using assms by (intro sorted_distinct_set_unique) auto
  moreover have "inj_on jv_Seq (set xs \<union> set ys)"
    using sd [OF assms(1)] assms(3) by (simp add: distinct_map)
  ultimately show ?thesis by (rule map_inj_on)
qed

lemma between_split:
  assumes "in_order es" and "a \<le> b" and "b \<le> c"
  shows "between a c es = between a b es @ between b c es"
  using assms
proof (induction es)
  case (Cons e es)
  have later: "\<forall>x \<in> set es. jv_Seq e < jv_Seq x" using Cons.prems(1) by auto
  have IH: "between a c es = between a b es @ between b c es" using Cons by simp
  show ?case
  proof (cases "jv_Seq e \<le> b")
    case True
    with IH Cons.prems show ?thesis by (auto simp: between_def)
  next
    case False
    then have "between a b es = []" using later by (auto simp: between_def filter_empty_conv)
    with False IH Cons.prems show ?thesis by (auto simp: between_def)
  qed
qed (simp add: between_def)

lemma in_order_last: "in_order es \<Longrightarrow> x \<in> set es \<Longrightarrow> jv_Seq x \<le> jv_Seq (last es)"
  by (induction es rule: rev_induct) (auto simp: sorted_wrt_append)

lemma take_between:
  assumes "in_order es" and "es \<noteq> []" and "0 < n"
  shows "filter (\<lambda>e. jv_Seq e \<le> jv_Seq (last (take n es))) es = take n es"
proof -
  define c where "c = jv_Seq (last (take n es))"
  have ne: "take n es \<noteq> []" using assms(2,3) by (cases es; cases n) auto
  have split: "in_order (take n es @ drop n es)" using assms(1) by simp
  have "in_order (take n es)" using split by (simp only: map_append sorted_wrt_append)
  then have low: "jv_Seq x \<le> c" if "x \<in> set (take n es)" for x
    unfolding c_def using that by (rule in_order_last)
  have high: "c < jv_Seq x" if "x \<in> set (drop n es)" for x
    using split that last_in_set [OF ne] unfolding c_def map_append sorted_wrt_append by auto
  have "filter (\<lambda>e. jv_Seq e \<le> c) (take n es @ drop n es) = take n es @ []"
    unfolding filter_append using low high by (intro arg_cong2 [where f = append]) (auto simp: filter_empty_conv not_le)
  then show ?thesis by (simp add: c_def)
qed

section \<open>One batch\<close>

text \<open>A consumer that also keeps the list of what it was given.\<close>

definition logging :: "'w callback \<Rightarrow> ('w \<times> HealthResultEvent list) callback" where
  "logging cb = (\<lambda>ev (w, l). let (sts, w') = cb ev w in (sts, w', l @ [ev]))"

text \<open>What delivery of journal events leaves alone.\<close>

definition same_shape :: "healthEventSubscription \<Rightarrow> healthEventSubscription \<Rightarrow> bool" where
  "same_shape s s' \<longleftrightarrow> su_tags s' = su_tags s \<and> su_nodeIDs s' = su_nodeIDs s \<and> su_global s' = su_global s \<and>
     su_consumer s' = su_consumer s \<and> su_closed s' = su_closed s \<and> su_dirty s' = su_dirty s \<and>
     su_refresh s' = su_refresh s \<and> su_cursorBlocked s' = su_cursorBlocked s \<and> su_inline s' = su_inline s"

lemma same_shape_refl [simp]: "same_shape s s"
  by (simp add: same_shape_def)

lemma same_shape_trans: "same_shape s s' \<Longrightarrow> same_shape s' s'' \<Longrightarrow> same_shape s s''"
  by (simp add: same_shape_def)

lemma matches_cong:
  "su_tags s' = su_tags s \<Longrightarrow> su_nodeIDs s' = su_nodeIDs s \<Longrightarrow> su_global s' = su_global s \<Longrightarrow> matches s' = matches s"
  by (rule ext) (simp add: matches_def)

lemma same_shape_matches: "same_shape s s' \<Longrightarrow> matches s' = matches s"
  by (rule ext) (simp add: same_shape_def matches_def)

lemma deliver_logging:
  obtains s' w' where "deliver (logging cb) ev (s, w, l) = (s', w', l @ [ev])"
    and "same_shape s s'" and "su_cursor s' = su_cursor s" and "su_pendingCursor s' = su_pendingCursor s"
proof -
  obtain sts w' where "cb ev w = (sts, w')" by fastforce
  then show ?thesis
    by (intro that [of "(recordStates sts s)\<lparr>su_delivered := su_delivered (recordStates sts s) + 1\<rparr>" w'])
       (auto simp: deliver_def logging_def recordStates_def same_shape_def)
qed

lemma consume_all:
  assumes "in_order es" and "\<forall>e \<in> set es. su_cursor s < jv_Seq e" and "\<not> su_closed s" and "su_consumer s \<noteq> []"
  shows "\<exists>s' w'. consume (logging cb) es (s, w, l) = (True, s', w', l @ map healthResultEvent (filter (matches s) es)) \<and>
    same_shape s s' \<and> su_cursor s' = (if es = [] then su_cursor s else jv_Seq (last es)) \<and>
    su_pendingCursor s' = (if es = [] then su_pendingCursor s else jv_Seq (last es))"
  using assms
proof (induction es arbitrary: s w l)
  case (Cons e es)
  define s1 where "s1 = (if jv_Seq e > su_cursor s + 1 then s\<lparr>su_gaps := su_gaps s + 1\<rparr> else s)"
  have s1: "same_shape s s1" "su_cursor s1 = su_cursor s" "su_pendingCursor s1 = su_pendingCursor s"
    by (auto simp: s1_def same_shape_def)
  define l2 where "l2 = l @ (if matches s e then [healthResultEvent e] else [])"
  obtain s2 w2 where two: "(if matches s1 e then deliver (logging cb) (healthResultEvent e) (s1, w, l) else (s1, w, l)) = (s2, w2, l2)"
    and s2: "same_shape s1 s2" "su_cursor s2 = su_cursor s1"
    by (cases "matches s e")
       (auto simp: l2_def same_shape_matches [OF s1(1)] intro: deliver_logging [of cb "healthResultEvent e" s1 w l])
  define s3 where "s3 = advance_to (jv_Seq e) s2"
  have shape3: "same_shape s s3"
    using same_shape_trans [OF s1(1) s2(1)] by (auto simp: s3_def advance_to_def same_shape_def)
  have s3: "su_cursor s3 = jv_Seq e" "su_pendingCursor s3 = jv_Seq e"
    using Cons.prems s1 s2 by (auto simp: s3_def advance_to_def same_shape_def)
  have "consume (logging cb) (e # es) (s, w, l) = consume (logging cb) es (s3, w2, l2)"
    using Cons.prems(3) two by (simp add: s1_def [symmetric] s3_def Let_def)
  moreover have "\<exists>s' w'. consume (logging cb) es (s3, w2, l2) =
      (True, s', w', l2 @ map healthResultEvent (filter (matches s3) es)) \<and> same_shape s3 s' \<and>
      su_cursor s' = (if es = [] then su_cursor s3 else jv_Seq (last es)) \<and>
      su_pendingCursor s' = (if es = [] then su_pendingCursor s3 else jv_Seq (last es))"
    using Cons.prems shape3 s3 by (intro Cons.IH) (auto simp: same_shape_def)
  ultimately show ?case
    using s3 shape3 same_shape_trans [OF shape3] by (auto simp: l2_def same_shape_matches [OF shape3])
qed simp

section \<open>The durable invariant\<close>

text \<open>
  A system state is the subscription, what its callback keeps with the list of deliveries, the
  database and the ghost history of every row ever committed since the subscription was opened
  (the database forgets pruned rows). \<open>c0\<close> is the cursor the subscription was opened with.
\<close>

type_synonym 'w jsys = "healthEventSubscription \<times> ('w \<times> HealthResultEvent list) \<times> journal_db \<times> HealthEvent list"

definition persisted :: "healthEventSubscription \<Rightarrow> journal_db \<Rightarrow> int" where
  "persisted s db = (case GetHealthEventCursor (su_consumer s) db of Some p \<Rightarrow> p | None \<Rightarrow> 0)"

abbreviation after :: "int \<Rightarrow> HealthEvent list \<Rightarrow> HealthEvent list" where
  "after c \<equiv> filter (\<lambda>e. c < jv_Seq e)"

definition history_ok :: "journal_db \<Rightarrow> HealthEvent list \<Rightarrow> bool" where
  "history_ok db hist \<longleftrightarrow> journal_ok db \<and> in_order hist \<and> (\<forall>e \<in> set hist. 0 < jv_Seq e \<and> jv_Seq e \<le> db_lastSeq db)"

definition progress_ok :: "int \<Rightarrow> healthEventSubscription \<Rightarrow> journal_db \<Rightarrow> HealthEvent list \<Rightarrow> bool" where
  "progress_ok c0 s db hist \<longleftrightarrow> su_consumer s \<noteq> [] \<and> GetHealthEventCursor (su_consumer s) db = Some (persisted s db) \<and>
     0 \<le> c0 \<and> c0 \<le> persisted s db \<and> persisted s db \<le> su_cursor s \<and> su_cursor s \<le> db_lastSeq db \<and>
     (if su_pendingCursor s = 0 then persisted s db = su_cursor s else su_pendingCursor s = su_cursor s) \<and>
     after (persisted s db) (db_events db) = after (persisted s db) hist \<and>
     length (between (persisted s db) (su_cursor s) hist) \<le> healthEventReadBatch"

definition seen_ok :: "int \<Rightarrow> healthEventSubscription \<Rightarrow> HealthResultEvent list \<Rightarrow> HealthEvent list \<Rightarrow> bool" where
  "seen_ok c0 s l hist \<longleftrightarrow> (\<forall>ev \<in> set (su_inline s). hr_Seq ev \<le> 0) \<and>
     filter (\<lambda>ev. 0 < hr_Seq ev) l = map healthResultEvent (filter (matches s) (between c0 (su_cursor s) hist))"

fun in_flight :: "int \<Rightarrow> 'w jsys \<Rightarrow> bool" where
  "in_flight c0 (s, (w, l), db, hist) \<longleftrightarrow> history_ok db hist \<and> progress_ok c0 s db hist \<and> seen_ok c0 s l hist"

definition settled :: "healthEventSubscription \<Rightarrow> bool" where
  "settled s \<longleftrightarrow> (\<not> su_cursorBlocked s \<and> \<not> su_closed s \<longrightarrow> su_pendingCursor s = 0)"

fun delivery_inv :: "int \<Rightarrow> 'w jsys \<Rightarrow> bool" where
  "delivery_inv c0 (s, wl, db, hist) \<longleftrightarrow> in_flight c0 (s, wl, db, hist) \<and> settled s"

lemma persisted_shape: "su_consumer s' = su_consumer s \<Longrightarrow> persisted s' db = persisted s db"
  by (simp add: persisted_def)

lemma in_flight_shape:
  assumes "in_flight c0 (s, (w, l), db, hist)"
    and "su_tags s' = su_tags s" "su_nodeIDs s' = su_nodeIDs s" "su_global s' = su_global s"
      "su_consumer s' = su_consumer s" "su_cursor s' = su_cursor s" "su_pendingCursor s' = su_pendingCursor s"
    and "\<forall>ev \<in> set (su_inline s'). hr_Seq ev \<le> 0" and "filter (\<lambda>ev. 0 < hr_Seq ev) l' = filter (\<lambda>ev. 0 < hr_Seq ev) l"
  shows "in_flight c0 (s', (w', l'), db, hist)"
proof -
  have "matches s' = matches s" using assms by (intro matches_cong)
  then show ?thesis
    using assms by (auto simp: progress_ok_def seen_ok_def persisted_shape [of s' s])
qed

lemma between_empty [simp]: "between a a es = []"
  by (auto simp: between_def filter_empty_conv)

lemma between_batch:
  assumes "in_order es" and "after c es \<noteq> []" and "0 < n"
  shows "between c (jv_Seq (last (take n (after c es)))) es = take n (after c es)"
  using take_between [OF in_order_filter [OF assms(1)] assms(2,3)]
  by (simp add: between_def conj_commute)

section \<open>Each part of a step keeps the invariant\<close>

lemma after_mono: "c \<le> d \<Longrightarrow> after c xs = after c ys \<Longrightarrow> after d xs = after d ys"
proof -
  assume "c \<le> d" "after c xs = after c ys"
  then have "after d (after c zs) = after d zs" for zs
    by (auto intro!: filter_cong)
  with \<open>after c xs = after c ys\<close> show ?thesis by metis
qed

lemma flush_shape:
  assumes "flushCursor fl now s (Some db) = (b, s', j')"
  shows "\<exists>db'. j' = Some db'" "su_tags s' = su_tags s" "su_nodeIDs s' = su_nodeIDs s" "su_global s' = su_global s"
    "su_consumer s' = su_consumer s" "su_cursor s' = su_cursor s" "su_inline s' = su_inline s"
    "su_closed s' = su_closed s" "su_dirty s' = su_dirty s" "su_refresh s' = su_refresh s"
  using assms by (auto simp: flushCursor_def scheduleRetry_def restoreStates_def Let_def split: if_splits)

lemma flush_in_flight:
  assumes inv: "in_flight c0 (s, wl, db, hist)" and flush: "flushCursor fl now s (Some db) = (b, s', Some db')"
  shows "in_flight c0 (s', wl, db', hist)" and "settled s'"
proof -
  obtain w l where wl: "wl = (w, l)" by (cases wl)
  consider (stay) "db' = db" "su_pendingCursor s' = su_pendingCursor s"
      "su_closed s \<or> su_consumer s = [] \<or> su_pendingCursor s = 0 \<or> su_cursorBlocked s'"
    | (commit) "db' = AdvanceHealthCursorWithState now (su_consumer s) (su_pendingCursor s) (su_pendingStates s) db"
      "su_pendingCursor s' = 0"
    using flush by (auto simp: flushCursor_def scheduleRetry_def restoreStates_def Let_def split: if_splits)
  then have "in_flight c0 (s', wl, db', hist) \<and> settled s'"
  proof cases
    case stay
    have "in_flight c0 (s', (w, l), db, hist)"
      by (rule in_flight_shape [of c0 s w l db hist]) (use inv flush_shape [OF flush] stay in \<open>auto simp: wl seen_ok_def\<close>)
    moreover have "settled s'"
      using stay flush_shape [OF flush] inv by (auto simp: settled_def wl progress_ok_def)
    ultimately show ?thesis using stay by (simp add: wl)
  next
    case commit
    have old: "progress_ok c0 s db hist" and h: "history_ok db hist" using inv by (auto simp: wl)
    have P: "persisted s' db' = su_cursor s" and G: "GetHealthEventCursor (su_consumer s') db' = Some (su_cursor s)"
      using old flush_shape [OF flush] commit
      by (auto simp: persisted_def GetHealthEventCursor_def advance_cursors progress_ok_def split: if_splits option.splits)
    have "after (su_cursor s) (db_events db) = after (su_cursor s) hist"
      by (rule after_mono [of "persisted s db"]) (use old in \<open>auto simp: progress_ok_def\<close>)
    then have "progress_ok c0 s' db' hist"
      using old flush_shape [OF flush] commit P G by (auto simp: progress_ok_def)
    moreover have "history_ok db' hist" using h commit by (simp add: history_ok_def advance_ok)
    moreover have "seen_ok c0 s' l hist"
      using inv flush_shape [OF flush] matches_cong [of s' s] by (simp add: wl seen_ok_def)
    ultimately show ?thesis using commit by (simp add: wl settled_def)
  qed
  then show "in_flight c0 (s', wl, db', hist)" and "settled s'" by auto
qed

lemma deliver_in_flight:
  assumes "in_flight c0 (s, wl, db, hist)" and "hr_Seq ev \<le> 0" and "deliver (logging cb) ev (s, wl) = (s', wl')"
  shows "in_flight c0 (s', wl', db, hist)"
proof -
  obtain w l where wl: "wl = (w, l)" by (cases wl)
  obtain s1 w1 where one: "deliver (logging cb) ev (s, w, l) = (s1, w1, l @ [ev])" "same_shape s s1"
      "su_cursor s1 = su_cursor s" "su_pendingCursor s1 = su_pendingCursor s"
    by (rule deliver_logging)
  have "in_flight c0 (s1, (w1, l @ [ev]), db, hist)"
    by (rule in_flight_shape [of c0 s w l db hist]) (use assms one in \<open>auto simp: wl same_shape_def seen_ok_def\<close>)
  moreover have "s' = s1" "wl' = (w1, l @ [ev])" using assms(3) one(1) by (auto simp: wl)
  ultimately show ?thesis by simp
qed

lemma read_shape:
  assumes "readJournal fl (logging cb) (Some db) (s, w, l) = (b, s', w', l')"
    and "su_closed s \<or> \<not> su_dirty s \<or> su_cursorBlocked s \<or> fl_read fl \<or>
      ListHealthEventsAfter (su_cursor s) (int healthEventReadBatch) db = []"
  shows "\<not> b \<and> w' = w \<and> l' = l \<and> su_tags s' = su_tags s \<and> su_nodeIDs s' = su_nodeIDs s \<and> su_global s' = su_global s \<and>
    su_consumer s' = su_consumer s \<and> su_cursor s' = su_cursor s \<and> su_pendingCursor s' = su_pendingCursor s \<and> su_inline s' = su_inline s"
  using assms by (auto simp: readJournal_def scheduleRetry_def Let_def split: if_splits)

lemma read_in_flight:
  assumes inv: "delivery_inv c0 (s, wl, db, hist)" and read: "readJournal fl (logging cb) (Some db) (s, wl) = (b, s', wl')"
  shows "in_flight c0 (s', wl', db, hist)"
proof -
  obtain w l where wl: "wl = (w, l)" by (cases wl)
  obtain w' l' where wl': "wl' = (w', l')" by (cases wl')
  define es where "es = ListHealthEventsAfter (su_cursor s) (int healthEventReadBatch) db"
  show ?thesis
  proof (cases "su_closed s \<or> \<not> su_dirty s \<or> su_cursorBlocked s \<or> fl_read fl \<or> es = []")
    case True
    from read_shape [of fl cb db s w l b s' w' l'] read True
    have same: "l' = l \<and> su_tags s' = su_tags s \<and> su_nodeIDs s' = su_nodeIDs s \<and> su_global s' = su_global s \<and>
        su_consumer s' = su_consumer s \<and> su_cursor s' = su_cursor s \<and> su_pendingCursor s' = su_pendingCursor s \<and> su_inline s' = su_inline s"
      by (simp add: es_def wl wl')
    show ?thesis unfolding wl'
      by (rule in_flight_shape [of c0 s w l db hist]) (use inv same in \<open>auto simp: wl seen_ok_def\<close>)
  next
    case False
    have old: "history_ok db hist" "progress_ok c0 s db hist" "seen_ok c0 s l hist" "su_pendingCursor s = 0"
      using inv False by (auto simp: wl settled_def)
    then have P: "persisted s db = su_cursor s" by (simp add: progress_ok_def)
    have es: "es = take healthEventReadBatch (after (su_cursor s) hist)"
      using old(2) P by (simp add: es_def ListHealthEventsAfter_def progress_ok_def healthEventReadBatch_def)
    have ne: "after (su_cursor s) hist \<noteq> []" using False es by auto
    have hist: "in_order hist" using old(1) by (simp add: history_ok_def)
    define c where "c = jv_Seq (last es)"
    have batch: "between (su_cursor s) c hist = es"
      unfolding c_def es by (rule between_batch [OF hist ne]) (simp add: healthEventReadBatch_def)
    have last: "last es \<in> set es" using False by simp
    have mem: "e \<in> set hist \<and> su_cursor s < jv_Seq e" if "e \<in> set es" for e
      using in_set_takeD [OF that [unfolded es]] by simp
    have c: "su_cursor s < c" "c \<le> db_lastSeq db"
      using mem [OF last] old(1) by (auto simp: c_def history_ok_def)
    have "in_order es" unfolding es take_map [symmetric] by (rule sorted_wrt_take) (rule in_order_filter [OF hist])
    moreover have "\<forall>e \<in> set es. su_cursor (s\<lparr>su_dirty := False\<rparr>) < jv_Seq e" using mem by simp
    moreover have "\<not> su_closed (s\<lparr>su_dirty := False\<rparr>)" "su_consumer (s\<lparr>su_dirty := False\<rparr>) \<noteq> []"
      using False old(2) by (auto simp: progress_ok_def)
    ultimately obtain s2 w2 where "consume (logging cb) es (s\<lparr>su_dirty := False\<rparr>, w, l) =
          (True, s2, w2, l @ map healthResultEvent (filter (matches (s\<lparr>su_dirty := False\<rparr>)) es))"
        "same_shape (s\<lparr>su_dirty := False\<rparr>) s2" "su_cursor s2 = c" "su_pendingCursor s2 = c"
      using consume_all [of es "s\<lparr>su_dirty := False\<rparr>" cb w l] False unfolding c_def by metis
    moreover have "matches (s\<lparr>su_dirty := False\<rparr>) = matches s" by (rule matches_cong) simp_all
    ultimately have two: "consume (logging cb) es (s\<lparr>su_dirty := False\<rparr>, w, l) =
          (True, s2, w2, l @ map healthResultEvent (filter (matches s) es))"
        "same_shape (s\<lparr>su_dirty := False\<rparr>) s2" "su_cursor s2 = c" "su_pendingCursor s2 = c" by simp_all
    have out: "s' = s2 \<or> s' = s2\<lparr>su_dirty := True\<rparr>" and l': "l' = l @ map healthResultEvent (filter (matches s) es)"
      using read False two(1) by (simp_all add: wl wl' readJournal_def es_def [symmetric] Let_def split: if_splits)
    have s': "su_tags s' = su_tags s" "su_nodeIDs s' = su_nodeIDs s" "su_global s' = su_global s" "su_consumer s' = su_consumer s"
        "su_inline s' = su_inline s" "su_cursor s' = c" "su_pendingCursor s' = c"
      using out two(2,3,4) by (elim disjE; simp add: same_shape_def)+
    have seen: "seen_ok c0 s' l' hist"
    proof -
      have "matches s' = matches s" using s' by (intro matches_cong)
      moreover have "between c0 c hist = between c0 (su_cursor s) hist @ es"
        using between_split [OF hist, of c0 "su_cursor s" c] old(2) c P batch by (simp add: progress_ok_def)
      moreover have "0 < hr_Seq (healthResultEvent e)" if "e \<in> set es" for e
        using mem [OF that] old(1) by (simp add: history_ok_def healthResultEvent_def)
      ultimately show ?thesis using old(3) by (simp add: seen_ok_def s' l' filter_map comp_def cong: filter_cong)
    qed
    have "progress_ok c0 s' db hist"
      using old(2) P c batch persisted_shape [OF s'(4)] by (auto simp: progress_ok_def s' es)
    then show ?thesis using old(1) seen by (simp add: wl')
  qed
qed

lemma step_keeps:
  assumes inv: "delivery_inv c0 (s, wl, db, hist)" and st: "step fl (logging cb) now (s, wl, Some db) = (b, s', wl', j')"
  shows "\<exists>db'. j' = Some db' \<and> delivery_inv c0 (s', wl', db', hist)"
proof -
  have base: "in_flight c0 (s, wl, db, hist)" using inv by (cases wl) simp
  have settle: "delivery_inv c0 (x, y, d, hist)" if "in_flight c0 (x, y, d, hist)" "settled x" for x y d
    using that by (cases y) simp
  show ?thesis
  proof (cases "su_cursorBlocked s")
    case True
    obtain f s1 j1 where fl: "flushCursor fl now s (Some db) = (f, s1, j1)" by (cases "flushCursor fl now s (Some db)")
    then obtain d where d: "j1 = Some d" using flush_shape(1) by blast
    with st fl True have "s' = s1" "wl' = wl" "j' = Some d" by (auto simp: step_def)
    then show ?thesis using flush_in_flight [OF base fl [unfolded d]] settle by auto
  next
    case free: False
    show ?thesis
    proof (cases "popInline s")
      case (Some p)
      obtain ev s1 where p: "p = (ev, s1)" by (cases p)
      have s1: "\<not> su_closed s" "su_inline s = ev # su_inline s1" "s1 = s\<lparr>su_inline := su_inline s1\<rparr>"
        using Some by (auto simp: popInline_def p split: if_splits list.splits)
      obtain w l where wl: "wl = (w, l)" by (cases wl)
      have one: "in_flight c0 (s1, (w, l), db, hist)" "hr_Seq ev \<le> 0" "settled s1"
        using base inv s1 matches_cong [of s1 s] persisted_shape [of s1 s]
        by (cases s1; auto simp: wl progress_ok_def seen_ok_def settled_def)+
      obtain s2 wl2 where two: "deliver (logging cb) ev (s1, wl) = (s2, wl2)" by (cases "deliver (logging cb) ev (s1, wl)")
      have "settled s2"
        using two one(3) by (auto simp: deliver_def logging_def recordStates_def settled_def wl split: prod.splits)
      moreover have "in_flight c0 (s2, wl2, db, hist)" using deliver_in_flight [OF one(1) [folded wl] one(2) two] .
      moreover have "s' = s2" "wl' = wl2" "j' = Some db" using st free Some two by (auto simp: step_def p)
      ultimately show ?thesis using settle by auto
    next
      case None
      obtain m s1 wl1 where read: "readJournal fl (logging cb) (Some db) (s, wl) = (m, s1, wl1)"
        by (cases "readJournal fl (logging cb) (Some db) (s, wl)")
      obtain f s2 j2 where fl: "flushCursor fl now s1 (Some db) = (f, s2, j2)" by (cases "flushCursor fl now s1 (Some db)")
      then obtain d where d: "j2 = Some d" using flush_shape(1) by blast
      note two = flush_in_flight [OF read_in_flight [OF inv read] fl [unfolded d]]
      obtain r s3 where tr: "takeRefresh s2 = (r, s3)" by fastforce
      obtain s4 wl4 where four: "deliver (logging cb) (refresh_event now) (s3, wl1) = (s4, wl4)"
        by (cases "deliver (logging cb) (refresh_event now) (s3, wl1)")
      obtain w1 l1 where wl1: "wl1 = (w1, l1)" by (cases wl1)
      have three: "in_flight c0 (s3, wl1, d, hist)" unfolding wl1
        by (rule in_flight_shape [of c0 s2 w1 l1 d hist])
           (use two tr in \<open>auto simp: takeRefresh_def wl1 seen_ok_def split: if_splits\<close>)
      have "settled s3" "settled s4"
        using two(2) tr four
        by (auto simp: takeRefresh_def settled_def deliver_def logging_def recordStates_def wl1 split: if_splits prod.splits)
      moreover have "in_flight c0 (s4, wl4, d, hist)"
        by (rule deliver_in_flight [OF three _ four]) (simp add: refresh_event_def)
      moreover have "(s', wl', j') \<in> {(s2, wl1, Some d), (s3, wl1, Some d), (s4, wl4, Some d)}"
        using st free None read fl d tr four by (auto simp: step_def split: if_splits)
      ultimately show ?thesis using settle two three by auto
    qed
  qed
qed

section \<open>The system around one durable consumer\<close>

text \<open>
  What may happen around a durable subscription, in any order: measurements enter the journal, the
  hub notifies, the delivery loop takes a step with any database faults, a retry timer fires, the
  subscription is closed, the journal is pruned on behalf of a set of consumers that contains this
  one, and other consumers commit their progress and group states.
\<close>

inductive jstep :: "'w callback \<Rightarrow> 'w jsys \<Rightarrow> 'w jsys \<Rightarrow> bool" for cb where
  measured: "AppendHealthEvent now ev db = (Inr seq, db') \<Longrightarrow>
    jstep cb (s, wl, db, hist) (s, wl, db', hist @ [last (db_events db')])"
| notified: "jstep cb (s, wl, db, hist) (notify True ev s, wl, db, hist)"
| stepped: "step fl (logging cb) now (s, wl, Some db) = (again, s', wl', Some db') \<Longrightarrow>
    jstep cb (s, wl, db, hist) (s', wl', db', hist)"
| retried: "jstep cb (s, wl, db, hist) (retry_fires s, wl, db, hist)"
| closed: "jstep cb (s, wl, db, hist) (close_subscription s, wl, db, hist)"
| pruned: "su_consumer s \<in> set active \<Longrightarrow> PruneHealthEvents cutoff active db = (n, db') \<Longrightarrow>
    jstep cb (s, wl, db, hist) (s, wl, db', hist)"
| other_consumer: "c \<noteq> su_consumer s \<Longrightarrow>
    jstep cb (s, wl, db, hist) (s, wl, AdvanceHealthCursorWithState now c seq sts db, hist)"

lemma prune_after:
  assumes "GetHealthEventCursor c db = Some p" and "c \<in> set active" and "PruneHealthEvents cutoff active db = (n, db')"
  shows "after p (db_events db') = after p (db_events db)" and "db_cursors db' = db_cursors db" and "db_lastSeq db' = db_lastSeq db"
proof -
  have "active_floor active db \<le> p"
    using assms(1,2) unfolding active_floor_def GetHealthEventCursor_def by (intro Min_le) (auto simp: image_iff intro!: bexI [of _ c])
  then have "p < jv_Seq e \<Longrightarrow> \<not> prunable cutoff active db e" for e
    using assms(2) by (auto simp: prunable_def)
  then have "filter (\<lambda>e. p < jv_Seq e \<and> \<not> prunable cutoff active db e) es = after p es" for es
    by (intro filter_cong) auto
  then show "after p (db_events db') = after p (db_events db)"
    using assms(3) by (auto simp: PruneHealthEvents_def Let_def conj_commute)
qed (use assms in \<open>auto simp: PruneHealthEvents_def Let_def\<close>)

lemma jstep_keeps:
  assumes "delivery_inv c0 st" and "jstep cb st st'"
  shows "delivery_inv c0 st'"
  using assms(2,1)
proof cases
  case (measured now ev db seq db' s wl hist)
  obtain w l where wl: "wl = (w, l)" by (cases wl)
  obtain row where row: "db_events db' = db_events db @ [row]" "jv_Seq row = db_lastSeq db + 1" "db_lastSeq db' = db_lastSeq db + 1"
      "db_cursors db' = db_cursors db" "journal_ok db \<longrightarrow> journal_ok db'"
    using measured(3) append_ok [of db now ev] by (auto simp: AppendHealthEvent_def Let_def split: if_splits)
  have "su_cursor s < jv_Seq row" using assms(1) row by (auto simp: measured(1) wl progress_ok_def)
  then have "between a (su_cursor s) (hist @ [row]) = between a (su_cursor s) hist" for a
    by (simp add: between_def)
  then show ?thesis
    using assms(1) row unfolding measured(1,2)
    by (auto simp: wl history_ok_def progress_ok_def seen_ok_def persisted_def GetHealthEventCursor_def sorted_wrt_append)
next
  case (notified s wl db hist ev)
  obtain w l where wl: "wl = (w, l)" by (cases wl)
  have "in_flight c0 (notify True ev s, (w, l), db, hist)"
    by (rule in_flight_shape [of c0 s w l db hist])
       (use assms(1) notified in \<open>auto simp: wl notify_def wakeup_def seen_ok_def\<close>)
  moreover have "settled (notify True ev s)"
    using assms(1) notified by (auto simp: settled_def notify_def wakeup_def)
  ultimately show ?thesis using notified by (simp add: wl)
next
  case (stepped fl now s wl db again s' wl' db' hist)
  then show ?thesis using step_keeps [of c0 s wl db hist] assms(1) by fastforce
next
  case (retried s wl db hist)
  obtain w l where wl: "wl = (w, l)" by (cases wl)
  have "in_flight c0 (retry_fires s, (w, l), db, hist)"
    by (rule in_flight_shape [of c0 s w l db hist])
       (use assms(1) retried in \<open>auto simp: wl retry_fires_def wakeup_def seen_ok_def Let_def\<close>)
  moreover have "settled (retry_fires s)"
    using assms(1) retried by (auto simp: settled_def retry_fires_def wakeup_def Let_def)
  ultimately show ?thesis using retried by (simp add: wl)
next
  case (closed s wl db hist)
  obtain w l where wl: "wl = (w, l)" by (cases wl)
  have "in_flight c0 (close_subscription s, (w, l), db, hist)"
    by (rule in_flight_shape [of c0 s w l db hist])
       (use assms(1) closed in \<open>auto simp: wl close_subscription_def seen_ok_def\<close>)
  moreover have "settled (close_subscription s)" by (simp add: settled_def close_subscription_def)
  ultimately show ?thesis using closed by (simp add: wl)
next
  case (pruned s active cutoff db n db' wl hist)
  obtain w l where wl: "wl = (w, l)" by (cases wl)
  have "GetHealthEventCursor (su_consumer s) db = Some (persisted s db)"
    using assms(1) by (simp add: pruned wl progress_ok_def)
  note p = prune_after [OF this pruned(3,4)]
  moreover have "journal_ok db'" using prune_ok [of db cutoff active] assms(1) pruned(4) by (simp add: pruned(1) wl history_ok_def)
  ultimately show ?thesis
    using assms(1) by (auto simp: pruned(1,2) wl history_ok_def progress_ok_def persisted_def GetHealthEventCursor_def)
next
  case (other_consumer c s wl db hist now seq sts)
  obtain w l where wl: "wl = (w, l)" by (cases wl)
  have "GetHealthEventCursor (su_consumer s) (AdvanceHealthCursorWithState now c seq sts db) = GetHealthEventCursor (su_consumer s) db"
    using other_consumer(3) by (auto simp: GetHealthEventCursor_def advance_cursors)
  then show ?thesis
    using assms(1) by (auto simp: other_consumer(1,2) wl history_ok_def progress_ok_def persisted_def advance_ok)
qed

interpretation journal_machine: preserved_invariant "jstep cb" "delivery_inv c0"
  by unfold_locales (rule jstep_keeps)

text \<open>What a subscription selects never changes.\<close>

definition selection :: "healthEventSubscription \<Rightarrow> string list \<times> node_id list \<times> bool \<times> string" where
  "selection s = (su_tags s, su_nodeIDs s, su_global s, su_consumer s)"

lemma selection_matches: "selection s' = selection s \<Longrightarrow> matches s' = matches s"
  by (intro matches_cong) (simp_all add: selection_def)

lemma selection_updates [simp]:
  "selection (s\<lparr>su_inline := i\<rparr>) = selection s" "selection (s\<lparr>su_dirty := d\<rparr>) = selection s"
  "selection (s\<lparr>su_refresh := d\<rparr>) = selection s" "selection (s\<lparr>su_gaps := g\<rparr>) = selection s"
  "selection (recordStates sts s) = selection s" "selection (advance_to q s) = selection s"
  "selection (s\<lparr>su_delivered := n\<rparr>) = selection s" "selection (scheduleRetry s) = selection s"
  "selection (s\<lparr>su_readFailures := n\<rparr>) = selection s" "selection (notify j ev s) = selection s"
  "selection (retry_fires s) = selection s" "selection (close_subscription s) = selection s"
  by (simp_all add: selection_def recordStates_def advance_to_def scheduleRetry_def notify_def wakeup_def
      retry_fires_def close_subscription_def Let_def)

lemma deliver_selection: "deliver cb ev (s, w) = (s', w') \<Longrightarrow> selection s' = selection s"
  by (auto simp: deliver_def Let_def split: prod.splits)

lemma consume_selection: "consume cb es (s, w) = (b, s', w') \<Longrightarrow> selection s' = selection s"
proof (induction cb es "(s, w)" arbitrary: s w rule: consume.induct)
  case (2 cb e es s w)
  then show ?case by (auto simp: Let_def dest!: deliver_selection split: if_splits prod.splits)
qed simp

lemma read_selection: "readJournal fl cb j (s, w) = (b, s', w') \<Longrightarrow> selection s' = selection s"
  by (auto simp: readJournal_def Let_def dest!: consume_selection split: option.splits if_splits prod.splits)

lemma flush_selection: "flushCursor fl now s j = (b, s', j') \<Longrightarrow> selection s' = selection s"
  by (auto simp: flushCursor_def selection_def scheduleRetry_def restoreStates_def Let_def split: option.splits if_splits)

lemma step_selection: "step fl cb now (s, w, j) = (b, s', w', j') \<Longrightarrow> selection s' = selection s"
  by (auto simp: step_def popInline_def takeRefresh_def
      dest!: read_selection flush_selection deliver_selection split: option.splits list.splits if_splits prod.splits)

lemma jstep_selection: "jstep cb st st' \<Longrightarrow> selection (fst st') = selection (fst st)"
  by (induction rule: jstep.induct) (auto simp: step_selection)

interpretation journal_selection: preserved_invariant "jstep cb" "\<lambda>st. selection (fst st) = x"
  by unfold_locales (simp add: jstep_selection)

section \<open>Opening and restarting\<close>

definition cursors_ok :: "journal_db \<Rightarrow> bool" where
  "cursors_ok db \<longleftrightarrow> list_all (\<lambda>(c, p). 0 \<le> p \<and> p \<le> db_lastSeq db) (db_cursors db)"

lemma max_seq_bounds: "journal_ok db \<Longrightarrow> 0 \<le> MaxHealthEventSeq db \<and> MaxHealthEventSeq db \<le> db_lastSeq db"
proof (cases "db_events db = []")
  case False
  assume ok: "journal_ok db"
  have "MaxHealthEventSeq db \<in> jv_Seq ` set (db_events db)"
    unfolding MaxHealthEventSeq_def using False by simp
  then show ?thesis using ok by (auto simp: journal_ok_def)
qed (simp add: MaxHealthEventSeq_def journal_ok_def)

lemma opened_inv:
  assumes "newHealthEventSubscription no_faults tags ids global consumer (Some db0) = (s0, Some db1)"
    and "consumer \<noteq> []" and "journal_ok db0" and "cursors_ok db0"
  shows "delivery_inv (su_cursor s0) (s0, (w0, []), db1, db_events db0)"
    and "persisted s0 db1 = su_cursor s0" and "su_consumer s0 = consumer"
    and "GetHealthEventCursor consumer db0 = Some p \<Longrightarrow> su_cursor s0 = p \<and> db1 = db0"
proof -
  define b where "b = blank_subscription tags ids global consumer"
  have bf: "su_consumer b = consumer" "su_pendingCursor b = 0" "su_inline b = []"
    by (simp_all add: b_def blank_subscription_def)
  have start: "(\<exists>p. map_of (db_cursors db0) consumer = Some p \<and> s0 = b\<lparr>su_cursor := p\<rparr> \<and> db1 = db0) \<or>
      (map_of (db_cursors db0) consumer = None \<and> s0 = b\<lparr>su_cursor := MaxHealthEventSeq db0\<rparr> \<and>
       db1 = PutHealthEventCursor consumer (MaxHealthEventSeq db0) db0)"
    using assms(1,2) bf
    by (auto simp: newHealthEventSubscription_def initCursor_def no_faults_def b_def [symmetric] GetHealthEventCursor_def
        Let_def split: option.splits)
  have range: "0 \<le> p \<and> p \<le> db_lastSeq db0" if "map_of (db_cursors db0) consumer = Some p" for p
    using map_of_SomeD [OF that] assms(4) by (auto simp: cursors_ok_def list_all_iff)
  have facts: "map_of (db_cursors db1) consumer = Some (su_cursor s0)" "db_events db1 = db_events db0" "db_lastSeq db1 = db_lastSeq db0"
      "0 \<le> su_cursor s0 \<and> su_cursor s0 \<le> db_lastSeq db0" "su_consumer s0 = consumer" "su_pendingCursor s0 = 0" "su_inline s0 = []"
    using start bf range max_seq_bounds [OF assms(3)] by (auto simp: PutHealthEventCursor_def Let_def)
  then show p: "persisted s0 db1 = su_cursor s0" by (simp add: persisted_def GetHealthEventCursor_def)
  show "delivery_inv (su_cursor s0) (s0, (w0, []), db1, db_events db0)"
    using facts p assms(2,3)
    by (auto simp: history_ok_def journal_ok_def progress_ok_def seen_ok_def settled_def GetHealthEventCursor_def)
  show "su_consumer s0 = consumer" by (rule facts)
  show "su_cursor s0 = p \<and> db1 = db0" if "GetHealthEventCursor consumer db0 = Some p"
    using start that by (auto simp: GetHealthEventCursor_def)
qed


text \<open>A crash loses nothing and replays at most one batch. From any reachable state, a
  subscription opened again for the same consumer starts at the persisted cursor, which is never
  ahead of what the old one had delivered and at most 64 committed events behind it, and every event
  committed after it is still in the journal.\<close>

theorem restart_loses_nothing:
  assumes "newHealthEventSubscription no_faults tags ids global consumer (Some db0) = (s0, Some db1)"
    and "consumer \<noteq> []" and "journal_ok db0" and "cursors_ok db0"
    and "reaches (jstep cb) (s0, (w0, []), db1, db_events db0) (s, (w, l), db, hist)"
    and "newHealthEventSubscription no_faults tags ids global consumer (Some db) = (s2, Some db2)"
  shows "su_cursor s0 \<le> su_cursor s2 \<and> su_cursor s2 \<le> su_cursor s \<and>
    length (between (su_cursor s2) (su_cursor s) hist) \<le> healthEventReadBatch \<and>
    filter (\<lambda>e. su_cursor s2 < jv_Seq e) (db_events db2) = filter (\<lambda>e. su_cursor s2 < jv_Seq e) hist"
proof -
  have inv: "delivery_inv (su_cursor s0) (s, (w, l), db, hist)"
    by (rule journal_machine.reaches_inv [OF assms(5)]) (rule opened_inv(1) [OF assms(1-4)])
  have "selection s = selection s0"
    using journal_selection.reaches_inv [OF assms(5), of "selection s0"] by simp
  then have c: "su_consumer s = consumer" using opened_inv(3) [OF assms(1-4)] by (simp add: selection_def)
  then have "GetHealthEventCursor consumer db = Some (persisted s db)" using inv by (simp add: progress_ok_def)
  then have "su_cursor s2 = persisted s db" "db2 = db"
    using assms(2,6) by (auto simp: newHealthEventSubscription_def initCursor_def no_faults_def blank_subscription_def)
  then show ?thesis using inv by (simp add: progress_ok_def)
qed

section \<open>A concrete run\<close>

text \<open>A consumer of node 5 is opened on an empty journal; a measurement of that node is committed, the
  hub notifies and the delivery loop takes one step.\<close>

definition demo_measurement :: HealthEvent where
  "demo_measurement = \<lparr>jv_Seq = 0, jv_NodeID = 5, jv_IdentityToken = ''t'', jv_IdentityRevision = 1, jv_Tag = ''node-5'',
     jv_ProbeID = ''p1'', jv_Success = True, jv_LatencyMs = 12, jv_Error = [], jv_CheckedAt = 7, jv_RecordedAt = zero_time\<rparr>"

definition demo_cb :: "nat callback" where "demo_cb ev n = ([demo_member_state False 3], Suc n)"

definition demo_open :: "healthEventSubscription \<times> journal_db option" where
  "demo_open = newHealthEventSubscription no_faults [] [5] False ''pool:1'' (Some demo_db)"

definition demo_committed :: journal_db where
  "demo_committed = snd (AppendHealthEvent 7 demo_measurement (the (snd demo_open)))"

definition demo_notified :: healthEventSubscription where
  "demo_notified = notify True (healthResultEvent (last (db_events demo_committed))) (fst demo_open)"

definition demo_end :: "bool \<times> (nat \<times> HealthResultEvent list) delivery" where
  "demo_end = step no_faults (logging demo_cb) 8 (demo_notified, (0, []), Some demo_committed)"

lemmas demo_defs = demo_end_def demo_notified_def demo_committed_def demo_open_def

abbreviation demo_start :: "nat jsys" where
  "demo_start \<equiv> (fst demo_open, (0, []), the (snd demo_open), db_events demo_db)"

abbreviation demo_final :: "nat jsys" where
  "demo_final \<equiv> (fst (snd demo_end), fst (snd (snd demo_end)), the (snd (snd (snd demo_end))),
     db_events demo_db @ [last (db_events demo_committed)])"

lemma demo_opened: "newHealthEventSubscription no_faults [] [5] False ''pool:1'' (Some demo_db) = (fst demo_open, Some (the (snd demo_open)))"
  by code_simp

lemma demo_reached: "reaches (jstep demo_cb) demo_start demo_final"
proof -
  have "jstep demo_cb demo_start
      (fst demo_open, (0, []), demo_committed, db_events demo_db @ [last (db_events demo_committed)])"
    by (rule jstep.measured [of 7 demo_measurement _ 1]) code_simp
  moreover have "jstep demo_cb (fst demo_open, (0, []), demo_committed, db_events demo_db @ [last (db_events demo_committed)])
      (demo_notified, (0, []), demo_committed, db_events demo_db @ [last (db_events demo_committed)])"
    unfolding demo_notified_def by (rule jstep.notified)
  moreover have "jstep demo_cb (demo_notified, (0, []), demo_committed, db_events demo_db @ [last (db_events demo_committed)]) demo_final"
    by (rule jstep.stepped [of no_faults demo_cb 8 _ _ _ "fst demo_end"]) code_simp
  ultimately show ?thesis by (blast intro: reaches.intros)
qed


theorem restart_loses_nothing_witness:
  "su_cursor (fst (newHealthEventSubscription no_faults [] [5] False ''pool:1'' (snd (snd (snd demo_end))))) = 1 \<and>
   su_cursor (fst demo_open) \<le> (1::int)"
proof -
  define again where "again = newHealthEventSubscription no_faults [] [5] False ''pool:1'' (Some (the (snd (snd (snd demo_end)))))"
  have a: "newHealthEventSubscription no_faults [] [5] False ''pool:1'' (Some (the (snd (snd (snd demo_end))))) = (fst again, Some (the (snd again)))"
    unfolding again_def by code_simp
  have "su_cursor (fst demo_open) \<le> su_cursor (fst again)"
    using restart_loses_nothing [OF demo_opened _ _ _ _ a, of demo_cb 0 "fst (snd demo_end)" "fst (fst (snd (snd demo_end)))"
        "snd (fst (snd (snd demo_end)))"] demo_reached
    by (simp add: journal_ok_def cursors_ok_def demo_db_def)
  moreover have "su_cursor (fst again) = 1" unfolding again_def by code_simp
  moreover have "su_cursor (fst (newHealthEventSubscription no_faults [] [5] False ''pool:1'' (snd (snd (snd demo_end))))) = 1"
    by code_simp
  ultimately show ?thesis by simp
qed

end
