(* ===== verification/Health_Wakeup.thy ===== *)
theory Health_Wakeup
  imports Health_Delivery
begin

text \<open>
  The loop that serves one wakeup of a subscription, \<open>for s.step() {}\<close> of
  \<open>src/internal/monitor/health_event_hub.go\<close>: a measure that every step which asks for another one
  lowers, whatever the database does, and what the loop leaves behind when the database works.
\<close>

section \<open>A measure for the loop\<close>

definition rows_left :: "healthEventSubscription \<Rightarrow> journal_db option \<Rightarrow> nat" where
  "rows_left s journal = (case journal of None \<Rightarrow> 0 | Some db \<Rightarrow> length (after (su_cursor s) (db_events db)))"

definition unsaved :: "healthEventSubscription \<Rightarrow> bool" where
  "unsaved s \<longleftrightarrow> su_pendingCursor s \<noteq> 0 \<or> su_pendingStates s \<noteq> []"

definition work_left :: "healthEventSubscription \<Rightarrow> journal_db option \<Rightarrow> nat" where
  "work_left s journal = 4 * (length (su_inline s) + rows_left s journal + of_bool (su_refresh s)) +
     2 * of_bool (unsaved s) + of_bool (su_cursorBlocked s)"

lemma after_length_mono: "c \<le> d \<Longrightarrow> length (after d es) \<le> length (after c es)"
  by (induction es) auto

lemma after_length_less: "c < d \<Longrightarrow> e \<in> set es \<Longrightarrow> jv_Seq e = d \<Longrightarrow> length (after d es) < length (after c es)"
  by (induction es) (auto simp: less_Suc_eq_le after_length_mono)

lemma rows_left_cong: "su_cursor s' = su_cursor s \<Longrightarrow> rows_left s' j = rows_left s j"
  by (cases j) (simp_all add: rows_left_def)

lemma deliver_fields:
  assumes "deliver cb ev (s, w) = (s', w')"
  shows "su_inline s' = su_inline s" "su_cursor s' = su_cursor s" "su_refresh s' = su_refresh s"
    "su_cursorBlocked s' = su_cursorBlocked s" "su_dirty s' = su_dirty s" "su_closed s' = su_closed s"
    "su_pendingCursor s' = su_pendingCursor s"
  using assms by (auto simp: deliver_def recordStates_def Let_def split: prod.splits)

lemma consume_fields:
  assumes "consume cb es (s, w) = (b, s', w')"
  shows "su_inline s' = su_inline s \<and> su_refresh s' = su_refresh s \<and> su_cursorBlocked s' = su_cursorBlocked s \<and>
    su_dirty s' = su_dirty s \<and> su_closed s' = su_closed s \<and> su_cursor s \<le> su_cursor s' \<and>
    (\<not> su_closed s \<longrightarrow> b) \<and> (b \<longrightarrow> list_all (\<lambda>e. jv_Seq e \<le> su_cursor s') es)"
  using assms
proof (induction es arbitrary: s w)
  case (Cons e es)
  show ?case
  proof (cases "su_closed s")
    case False
    define s1 where "s1 = (if jv_Seq e > su_cursor s + 1 then s\<lparr>su_gaps := su_gaps s + 1\<rparr> else s)"
    obtain s2 w2 where two: "(if matches s1 e then deliver cb (healthResultEvent e) (s1, w) else (s1, w)) = (s2, w2)"
      by (cases "if matches s1 e then deliver cb (healthResultEvent e) (s1, w) else (s1, w)")
    have f: "su_inline s2 = su_inline s" "su_cursor s2 = su_cursor s" "su_refresh s2 = su_refresh s"
        "su_cursorBlocked s2 = su_cursorBlocked s" "su_dirty s2 = su_dirty s" "su_closed s2 = su_closed s"
      using two deliver_fields [of cb "healthResultEvent e" s1 w s2 w2] by (auto simp: s1_def split: if_splits)
    have "consume cb es (advance_to (jv_Seq e) s2, w2) = (b, s', w')"
      using Cons.prems two False by (simp add: s1_def [symmetric] Let_def)
    from Cons.IH [OF this] f show ?thesis by (auto simp: advance_to_def split: if_splits)
  qed (use Cons.prems in auto)
qed auto

lemma read_fields:
  assumes "readJournal fl cb j (s, w) = (b, s', w')"
  shows "su_inline s' = su_inline s" "su_refresh s' = su_refresh s" "su_cursorBlocked s' = su_cursorBlocked s"
    "su_closed s' = su_closed s" "su_cursor s \<le> su_cursor s'"
  using assms
  by (auto simp: readJournal_def scheduleRetry_def Let_def dest!: consume_fields split: option.splits if_splits prod.splits)

lemma listed_after: "e \<in> set (ListHealthEventsAfter c n db) \<Longrightarrow> e \<in> set (db_events db) \<and> c < jv_Seq e"
  by (auto simp: ListHealthEventsAfter_def Let_def dest!: in_set_takeD)

text \<open>A read either leaves the unsaved progress as it was or lowers the number of rows to read.\<close>

lemma read_rows:
  assumes read: "readJournal fl cb j (s, w) = (b, s', w')"
  shows "rows_left s' j \<le> rows_left s j" and "rows_left s' j < rows_left s j \<or> \<not> b \<and> unsaved s' = unsaved s"
proof -
  show "rows_left s' j \<le> rows_left s j"
    using read_fields(5) [OF read] by (auto simp: rows_left_def after_length_mono split: option.split)
  show "rows_left s' j < rows_left s j \<or> \<not> b \<and> unsaved s' = unsaved s"
  proof (cases j)
    case (Some db)
    define es where "es = ListHealthEventsAfter (su_cursor s) (int healthEventReadBatch) db"
    show ?thesis
    proof (cases "su_closed s \<or> \<not> su_dirty s \<or> su_cursorBlocked s \<or> fl_read fl \<or> es = []")
      case True
      then show ?thesis using read Some
        by (auto simp: readJournal_def es_def [symmetric] unsaved_def scheduleRetry_def Let_def split: if_splits)
    next
      case False
      then obtain e es' where es: "es = e # es'" by (cases es) auto
      obtain f s2 w2 where two: "consume cb es (s\<lparr>su_dirty := False\<rparr>, w) = (f, s2, w2)"
        by (cases "consume cb es (s\<lparr>su_dirty := False\<rparr>, w)")
      have "su_cursor s' = su_cursor s2"
        using read Some False two by (simp add: readJournal_def es_def [symmetric] Let_def split: if_splits) auto
      moreover have "jv_Seq e \<le> su_cursor s2"
        using consume_fields [OF two] False by (simp add: es)
      moreover have "e \<in> set (db_events db)" "su_cursor s < jv_Seq e"
        using listed_after [of e "su_cursor s" "int healthEventReadBatch" db] by (simp_all add: es_def [symmetric] es)
      ultimately show ?thesis
        using after_length_less [of "su_cursor s" "jv_Seq e" e "db_events db"] after_length_mono [of "jv_Seq e" "su_cursor s2" "db_events db"]
        by (auto simp: rows_left_def Some)
    qed
  qed (use read in \<open>auto simp: readJournal_def\<close>)
qed

lemma flush_work:
  assumes "flushCursor fl now s j = (b, s', j')"
  shows "rows_left s' j' = rows_left s j" "b \<longrightarrow> unsaved s \<and> \<not> unsaved s' \<and> \<not> su_cursorBlocked s'"
    "unsaved s' \<longrightarrow> unsaved s" "su_inline s' = su_inline s" "su_refresh s' = su_refresh s"
    "\<not> b \<longrightarrow> su_cursorBlocked s' = su_cursorBlocked s \<or> su_cursorBlocked s'"
  using assms
  by (auto simp: flushCursor_def rows_left_def unsaved_def restoreStates_def scheduleRetry_def Let_def split: option.splits if_splits)

lemma step_lowers:
  assumes st: "step fl cb now (s, w, j) = (True, s', w', j')"
  shows "work_left s' j' < work_left s j"
proof (cases "su_cursorBlocked s")
  case True
  obtain f s1 j1 where fl: "flushCursor fl now s j = (f, s1, j1)" by (cases "flushCursor fl now s j")
  then have "s' = s1" "j' = j1" "\<not> su_cursorBlocked s1" using st True by (auto simp: step_def)
  then show ?thesis using flush_work [OF fl] True by (auto simp: work_left_def)
next
  case free: False
  show ?thesis
  proof (cases "popInline s")
    case (Some p)
    obtain ev s1 where p: "p = (ev, s1)" by (cases p)
    have s1: "length (su_inline s) = Suc (length (su_inline s1))" "su_cursor s1 = su_cursor s" "su_refresh s1 = su_refresh s"
        "su_cursorBlocked s1 = su_cursorBlocked s"
      using Some by (auto simp: popInline_def p split: if_splits list.splits)
    obtain s2 w2 where two: "deliver cb ev (s1, w) = (s2, w2)" by (cases "deliver cb ev (s1, w)")
    have "s' = s2" "j' = j" using st free Some two by (auto simp: step_def p)
    moreover have "rows_left s2 j = rows_left s j" by (rule rows_left_cong) (simp add: deliver_fields(2) [OF two] s1(2))
    ultimately show ?thesis using deliver_fields(1,3,4) [OF two] s1 by (auto simp: work_left_def)
  next
    case None
    obtain m s1 w1 where read: "readJournal fl cb j (s, w) = (m, s1, w1)" by (cases "readJournal fl cb j (s, w)")
    obtain f s2 j2 where fl: "flushCursor fl now s1 j = (f, s2, j2)" by (cases "flushCursor fl now s1 j")
    obtain r s3 where tr: "takeRefresh s2 = (r, s3)" by (cases "takeRefresh s2")
    obtain s4 w4 where four: "deliver cb (refresh_event now) (s3, w1) = (s4, w4)" by (cases "deliver cb (refresh_event now) (s3, w1)")
    note two = read_fields(1-3) [OF read] read_rows [OF read] flush_work [OF fl]
    show ?thesis
    proof (cases "m \<or> f")
      case True
      then have "s' = s2" "j' = j2" using st free None read fl by (auto simp: step_def)
      then show ?thesis using two True by (auto simp: work_left_def)
    next
      case False
      then have r: "r" "s' = s4" "j' = j2" using st free None read fl tr four by (auto simp: step_def split: if_splits)
      have "su_refresh s2" "su_inline s3 = su_inline s2" "su_cursor s3 = su_cursor s2" "\<not> su_refresh s3"
        using tr r(1) by (auto simp: takeRefresh_def split: if_splits)
      moreover have "rows_left s4 j2 = rows_left s2 j2"
        by (rule rows_left_cong) (simp add: deliver_fields(2) [OF four] calculation)
      ultimately have "rows_left s4 j2 \<le> rows_left s j" "su_inline s4 = su_inline s" "su_refresh s" "\<not> su_refresh s4"
        using deliver_fields [OF four] two by auto
      then show ?thesis using free r by (auto simp: work_left_def)
    qed
  qed
qed

lemma run_ends_bound: "work_left s j < n \<Longrightarrow> \<exists>d. run_steps n k fl cb now (s, w, j) = Some d"
proof (induction n arbitrary: k s w j)
  case (Suc n)
  obtain b s' w' j' where st: "step (fl k) cb (now k) (s, w, j) = (b, s', w', j')" by (cases "step (fl k) cb (now k) (s, w, j)")
  show ?case
  proof (cases b)
    case True
    then have "work_left s' j' < n" using step_lowers [of "fl k" cb "now k" s w j s' w' j'] st Suc.prems by simp
    then show ?thesis using Suc.IH [of s' j' "Suc k" w'] st True by simp
  qed (simp add: st)
qed simp

lemmas run_ends = run_ends_bound [OF lessI]

text \<open>Serving a wakeup ends. Whatever the database answers at each step, whatever the callback
  does and whatever state the subscription is in, the loop stops after at most as many steps as its
  queued events, unread rows and unsaved progress allow.\<close>

theorem wakeup_terminates:
  "\<exists>d. run_steps (Suc (work_left s journal)) k fl cb now (s, w, journal) = Some d"
  by (rule run_ends)

section \<open>What the loop leaves behind\<close>

definition ready :: "healthEventSubscription \<Rightarrow> journal_db \<Rightarrow> bool" where
  "ready s db \<longleftrightarrow> \<not> su_closed s \<and> su_consumer s \<noteq> [] \<and> (su_cursorBlocked s \<longrightarrow> unsaved s) \<and>
     (su_dirty s \<or> after (su_cursor s) (db_events db) = [])"

definition drained :: "healthEventSubscription \<Rightarrow> journal_db \<Rightarrow> bool" where
  "drained s db \<longleftrightarrow> after (su_cursor s) (db_events db) = [] \<and> su_inline s = [] \<and> \<not> su_refresh s \<and>
     \<not> unsaved s \<and> \<not> su_cursorBlocked s"

lemma read_ready:
  assumes "ready s db" and "\<not> su_cursorBlocked s" and read: "readJournal no_faults cb (Some db) (s, w) = (m, s1, w1)"
  shows "ready s1 db" and "\<not> m \<Longrightarrow> after (su_cursor s1) (db_events db) = []"
proof -
  define es where "es = ListHealthEventsAfter (su_cursor s) (int healthEventReadBatch) db"
  have es: "es = take healthEventReadBatch (after (su_cursor s) (db_events db))"
    by (simp add: es_def ListHealthEventsAfter_def healthEventReadBatch_def)
  have rest: "\<not> su_closed s1" "\<not> su_cursorBlocked s1" "su_consumer s1 \<noteq> []"
    using assms(1,2) read_fields(3,4) [OF read] read_selection [OF read] by (auto simp: ready_def selection_def)
  have "(su_dirty s1 \<or> after (su_cursor s1) (db_events db) = []) \<and> (\<not> m \<longrightarrow> after (su_cursor s1) (db_events db) = [])"
  proof (cases "su_dirty s \<and> es \<noteq> []")
    case False
    then have "after (su_cursor s) (db_events db) = []"
      using assms(1) es by (auto simp: ready_def healthEventReadBatch_def)
    moreover have "su_cursor s1 = su_cursor s"
      using False assms(1,2) read by (auto simp: readJournal_def es_def [symmetric] ready_def no_faults_def Let_def split: if_splits)
    ultimately show ?thesis by simp
  next
    case True
    obtain f s2 w2 where two: "consume cb es (s\<lparr>su_dirty := False\<rparr>, w) = (f, s2, w2)"
      by (cases "consume cb es (s\<lparr>su_dirty := False\<rparr>, w)")
    note f = consume_fields [OF two]
    have out: "if length es = healthEventReadBatch then m \<and> s1 = s2\<lparr>su_dirty := True\<rparr> else \<not> m \<and> s1 = s2"
      using read two f True assms(1,2) by (auto simp: readJournal_def es_def [symmetric] ready_def no_faults_def Let_def split: if_splits)
    have "after (su_cursor s2) (db_events db) = []" if "length es \<noteq> healthEventReadBatch"
    proof -
      have "set es = set (after (su_cursor s) (db_events db))" using that unfolding es by auto
      then show ?thesis using f assms(1) by (auto simp: filter_empty_conv list_all_iff ready_def not_less)
    qed
    then show ?thesis using out by (auto split: if_splits)
  qed
  then show "ready s1 db" and "\<not> m \<Longrightarrow> after (su_cursor s1) (db_events db) = []"
    using rest by (auto simp: ready_def)
qed

lemma flush_ready:
  assumes "ready s db" and "flushCursor no_faults now s (Some db) = (f, s', j')"
  shows "\<exists>db'. j' = Some db' \<and> db_events db' = db_events db" and "\<not> unsaved s' \<and> (f \<or> \<not> unsaved s \<and> s' = s)"
    and "su_cursorBlocked s' \<longrightarrow> unsaved s'" and "su_closed s' = su_closed s" "su_consumer s' = su_consumer s"
    "su_dirty s' = su_dirty s" "su_cursor s' = su_cursor s"
  using assms by (auto simp: flushCursor_def ready_def unsaved_def no_faults_def Let_def split: if_splits)

lemma step_ready:
  assumes ready: "ready s db" and st: "step no_faults cb now (s, w, Some db) = (b, s', w', j')"
  shows "\<exists>db'. j' = Some db' \<and> db_events db' = db_events db \<and> ready s' db' \<and> (\<not> b \<longrightarrow> drained s' db')"
proof -
  have flushed: "\<exists>d. j1 = Some d \<and> db_events d = db_events db \<and> ready s1 d \<and> \<not> su_cursorBlocked s1 \<and> \<not> unsaved s1"
    if "ready s0 db" "flushCursor no_faults now s0 (Some db) = (f, s1, j1)" for f s0 s1 j1
    using that flush_ready [OF that] by (auto simp: ready_def)
  show ?thesis
  proof (cases "su_cursorBlocked s")
    case True
    obtain f s1 j1 where fl: "flushCursor no_faults now s (Some db) = (f, s1, j1)" by (cases "flushCursor no_faults now s (Some db)")
    then have "b = (\<not> su_cursorBlocked s1)" "s' = s1" "j' = j1" using st True by (auto simp: step_def)
    then show ?thesis using flushed [OF ready fl] by auto
  next
    case free: False
    show ?thesis
    proof (cases "popInline s")
      case (Some p)
      obtain ev s1 where p: "p = (ev, s1)" by (cases p)
      have s1: "ready s1 db" "\<not> su_cursorBlocked s1" using Some ready free
        by (auto simp: popInline_def p ready_def split: if_splits list.splits)
      obtain s2 w2 where two: "deliver cb ev (s1, w) = (s2, w2)" by (cases "deliver cb ev (s1, w)")
      have "b" "s' = s2" "j' = Some db" using st free Some two by (auto simp: step_def p)
      then show ?thesis using deliver_fields [OF two] deliver_selection [OF two] s1 by (simp add: ready_def selection_def)
    next
      case None
      then have inline: "su_inline s = []" using ready by (auto simp: popInline_def ready_def split: list.splits)
      obtain m s1 w1 where read: "readJournal no_faults cb (Some db) (s, w) = (m, s1, w1)" by (cases "readJournal no_faults cb (Some db) (s, w)")
      obtain f s2 j2 where fl: "flushCursor no_faults now s1 (Some db) = (f, s2, j2)" by (cases "flushCursor no_faults now s1 (Some db)")
      note r = read_ready [OF ready free read]
      obtain d where d: "j2 = Some d" "db_events d = db_events db" "ready s2 d" "\<not> su_cursorBlocked s2" "\<not> unsaved s2"
        using flushed [OF r(1) fl] by auto
      obtain t s3 where tr: "takeRefresh s2 = (t, s3)" by (cases "takeRefresh s2")
      obtain s4 w4 where four: "deliver cb (refresh_event now) (s3, w1) = (s4, w4)" by (cases "deliver cb (refresh_event now) (s3, w1)")
      have s3: "ready s3 d" "\<not> su_cursorBlocked s3" "\<not> t \<longrightarrow> s3 = s2 \<and> \<not> su_refresh s2"
        using tr d(3,4) by (auto simp: takeRefresh_def ready_def split: if_splits)
      have s4: "ready s4 d"
        using deliver_fields [OF four] deliver_selection [OF four] s3 by (simp add: ready_def selection_def)
      have "su_inline s2 = []" "su_cursor s2 = su_cursor s1"
        using inline read_fields(1) [OF read] flush_work(4) [OF fl] flush_ready(7) [OF r(1) fl] by auto
      then have last: "\<not> m \<Longrightarrow> \<not> su_refresh s2 \<Longrightarrow> drained s2 d" using r(2) d by (simp add: drained_def)
      show ?thesis
      proof (cases "m \<or> f \<or> t")
        case True
        then have "b" "j' = j2" "s' = s2 \<or> s' = s4" using st free None read fl tr four by (auto simp: step_def split: if_splits)
        then show ?thesis using d s4 by auto
      next
        case False
        then have "\<not> b" "j' = j2" "s' = s2" using st free None read fl tr s3(3) by (auto simp: step_def split: if_splits)
        then show ?thesis using d last s3(3) False by auto
      qed
    qed
  qed
qed

lemma run_drains:
  assumes "ready s db" and "run_steps n k (\<lambda>_. no_faults) cb now (s, w, Some db) = Some (s', w', j')"
  shows "\<exists>db'. j' = Some db' \<and> db_events db' = db_events db \<and> drained s' db'"
  using assms
proof (induction n arbitrary: k s w db)
  case (Suc n)
  obtain b s1 w1 j1 where st: "step no_faults cb (now k) (s, w, Some db) = (b, s1, w1, j1)"
    by (cases "step no_faults cb (now k) (s, w, Some db)")
  from step_ready [OF Suc.prems(1) st] obtain d
    where d: "j1 = Some d" "db_events d = db_events db" "ready s1 d" "\<not> b \<longrightarrow> drained s1 d" by blast
  show ?case
  proof (cases b)
    case True
    then show ?thesis using Suc.IH [of s1 d "Suc k" w1] Suc.prems(2) st d by simp
  qed (use Suc.prems(2) st d in auto)
qed simp



end
