(* ===== verification/Hub_Index.thy ===== *)
theory Hub_Index
  imports Health_Hub "HOL-Library.List_Lexorder" "HOL-Library.Char_ord"
begin

text \<open>
  The health event hub of \<open>src/internal/monitor/health_event_hub.go\<close>: the registered subscriptions
  with their indexes by tag and by node, registration, removal, publication, closing, the statistics
  of \<open>stats\<close>, and the journal pruning of \<open>health_event_prune.go\<close>. Sets of subscription ids are lists;
  the id counter is a natural number (the 64-bit counter of the code does not wrap in practice).
  Statistics are ordered by consumer; entries of the same consumer keep their visiting order, one of
  the orders \<open>sort.Slice\<close> may give.
\<close>

record healthEventHub =
  hu_nextID :: nat
  hu_byID :: "(nat \<times> healthEventSubscription) list"
  hu_global :: "nat list"
  hu_byTag :: "(string \<times> nat list) list"
  hu_byNodeID :: "(node_id \<times> nat list) list"
  hu_rejected :: int
  hu_pressurePrunes :: int
  hu_prunedEvents :: int

definition newHealthEventHub :: healthEventHub where
  "newHealthEventHub = \<lparr>hu_nextID = 0, hu_byID = [], hu_global = [], hu_byTag = [], hu_byNodeID = [],
     hu_rejected = 0, hu_pressurePrunes = 0, hu_prunedEvents = 0\<rparr>"

definition durableConsumers :: "healthEventHub \<Rightarrow> string list" where
  "durableConsumers h = sort (map su_consumer (filter (\<lambda>s. su_consumer s \<noteq> []) (map snd (hu_byID h))))"

definition sortedTags :: "healthEventSubscription \<Rightarrow> string list" where
  "sortedTags s = sort (remdups (su_tags s))"

definition sortedNodeIDs :: "healthEventSubscription \<Rightarrow> node_id list" where
  "sortedNodeIDs s = sort (remdups (su_nodeIDs s))"

section \<open>An index: keys to sets of subscription ids\<close>

definition index_at :: "'k \<Rightarrow> ('k \<times> nat list) list \<Rightarrow> nat list" where
  "index_at k ix = (case map_of ix k of None \<Rightarrow> [] | Some ids \<Rightarrow> ids)"

definition index_add :: "nat \<Rightarrow> 'k \<Rightarrow> ('k \<times> nat list) list \<Rightarrow> ('k \<times> nat list) list" where
  "index_add i k ix = aput k (List.insert i (index_at k ix)) ix"

definition index_remove :: "nat \<Rightarrow> 'k \<Rightarrow> ('k \<times> nat list) list \<Rightarrow> ('k \<times> nat list) list" where
  "index_remove i k ix = (let ids = filter (\<lambda>j. j \<noteq> i) (index_at k ix)
     in if ids = [] then adel k ix else aput k ids ix)"

section \<open>Operations\<close>

definition register :: "faults \<Rightarrow> string \<Rightarrow> string list \<Rightarrow> node_id list \<Rightarrow> bool \<Rightarrow> healthEventHub \<Rightarrow> journal_db option \<Rightarrow>
    nat \<times> healthEventHub \<times> journal_db option" where
  "register fl consumer tags nodeIDs global h journal =
     (let (s, j1) = newHealthEventSubscription fl tags nodeIDs global consumer journal;
          i = hu_nextID h + 1
      in (i, h\<lparr>hu_nextID := i, hu_byID := aput i s (hu_byID h),
               hu_global := (if global then List.insert i (hu_global h) else hu_global h),
               hu_byTag := fold (index_add i) (sortedTags s) (hu_byTag h),
               hu_byNodeID := fold (index_add i) (sortedNodeIDs s) (hu_byNodeID h)\<rparr>, j1))"

text \<open>\<open>subscribeAs\<close> with no callback registers nothing.\<close>

definition subscribeAs :: "faults \<Rightarrow> bool \<Rightarrow> string \<Rightarrow> string list \<Rightarrow> node_id list \<Rightarrow> bool \<Rightarrow> healthEventHub \<Rightarrow> journal_db option \<Rightarrow>
    nat option \<times> healthEventHub \<times> journal_db option" where
  "subscribeAs fl hasCallback consumer tags nodeIDs global h journal =
     (if \<not> hasCallback then (None, h, journal)
      else let (i, h1, j1) = register fl consumer tags nodeIDs global h journal in (Some i, h1, j1))"

text \<open>The subscriptions that leave the hub are closed; they are part of the result.\<close>

definition unsubscribe :: "nat \<Rightarrow> healthEventHub \<Rightarrow> healthEventSubscription option \<times> healthEventHub" where
  "unsubscribe i h = (case map_of (hu_byID h) i of None \<Rightarrow> (None, h)
     | Some s \<Rightarrow> (Some (close_subscription s), h\<lparr>hu_byID := adel i (hu_byID h), hu_global := filter (\<lambda>j. j \<noteq> i) (hu_global h),
                   hu_byTag := fold (index_remove i) (sortedTags s) (hu_byTag h),
                   hu_byNodeID := fold (index_remove i) (sortedNodeIDs s) (hu_byNodeID h)\<rparr>))"

definition match :: "HealthResultEvent \<Rightarrow> healthEventHub \<Rightarrow> nat list" where
  "match ev h = filter (\<lambda>i. map_of (hu_byID h) i \<noteq> None)
     (remdups (hu_global h @ index_at (hr_Tag ev) (hu_byTag h) @
               (if hr_NodeID ev \<noteq> 0 then index_at (hr_NodeID ev) (hu_byNodeID h) else [])))"

definition notify_each :: "bool \<Rightarrow> HealthResultEvent \<Rightarrow> nat list \<Rightarrow> healthEventHub \<Rightarrow> healthEventHub" where
  "notify_each hasJournal ev ids h = h\<lparr>hu_byID := fold (\<lambda>i. amap_at i (notify hasJournal ev)) ids (hu_byID h)\<rparr>"

definition publish :: "bool \<Rightarrow> HealthResultEvent \<Rightarrow> healthEventHub \<Rightarrow> healthEventHub" where
  "publish hasJournal ev h = notify_each hasJournal ev (match ev h) h"

definition broadcast :: "bool \<Rightarrow> HealthResultEvent \<Rightarrow> healthEventHub \<Rightarrow> healthEventHub" where
  "broadcast hasJournal ev h = notify_each hasJournal ev (map fst (hu_byID h)) h"

definition close_hub :: "healthEventHub \<Rightarrow> healthEventSubscription list \<times> healthEventHub" where
  "close_hub h = (map (close_subscription \<circ> snd) (hu_byID h),
     h\<lparr>hu_byID := [], hu_global := [], hu_byTag := [], hu_byNodeID := []\<rparr>)"

section \<open>Pruning\<close>

definition prune :: "bool \<Rightarrow> bool \<Rightarrow> gtime \<Rightarrow> bool \<Rightarrow> healthEventHub \<Rightarrow> journal_db option \<Rightarrow>
    (store_error + int) \<times> healthEventHub \<times> journal_db option" where
  "prune statsFail pruneFail now ageSweep h journal = (case journal of None \<Rightarrow> (Inr 0, h, None)
     | Some db \<Rightarrow>
         if statsFail then (Inl DatabaseError, h, Some db)
         else let stats = JournalStats db; pressure = js_Count stats \<ge> healthEventPressureThreshold
              in if js_Count stats = 0 \<or> \<not> pressure \<and> \<not> ageSweep then (Inr 0, h, Some db)
                 else let consumers = durableConsumers h;
                          window = (if pressure then 0 else if consumers = [] then healthEventRetention
                                    else healthEventConsumedRetention)
                      in if pruneFail then (Inl DatabaseError, h, Some db)
                         else let (removed, db1) = PruneHealthEvents (now - window) consumers db
                              in (Inr removed,
                                  h\<lparr>hu_prunedEvents := hu_prunedEvents h + removed,
                                    hu_pressurePrunes := hu_pressurePrunes h + (if pressure \<and> removed > 0 then 1 else 0)\<rparr>,
                                  Some db1))"

section \<open>Statistics\<close>

record HealthEventConsumerStats =
  cs_Consumer :: string
  cs_Cursor :: int
  cs_PendingCursor :: int
  cs_Delivered :: int
  cs_Gaps :: int
  cs_Dropped :: int
  cs_ReadFailures :: int
  cs_CursorFailures :: int
  cs_Backlog :: int

record HealthEventStats =
  es_PressureThreshold :: int
  es_PressurePrunes :: int
  es_PrunedEvents :: int
  es_Capacity :: int
  es_Count :: int
  es_MaxSeq :: int
  es_Backlog :: int
  es_OldestAgeSeconds :: int
  es_RejectedMeasurements :: int
  es_Consumers :: "HealthEventConsumerStats list"

definition consumer_stats :: "int \<Rightarrow> healthEventSubscription \<Rightarrow> HealthEventConsumerStats" where
  "consumer_stats maxSeq s = \<lparr>cs_Consumer = su_consumer s, cs_Cursor = su_cursor s, cs_PendingCursor = su_pendingCursor s,
     cs_Delivered = su_delivered s, cs_Gaps = su_gaps s, cs_Dropped = su_dropped s, cs_ReadFailures = su_readFailures s,
     cs_CursorFailures = su_cursorFailures s, cs_Backlog = max 0 (maxSeq - su_cursor s)\<rparr>"

definition slowest_cursor :: "HealthEventJournalStats \<Rightarrow> healthEventSubscription list \<Rightarrow> int" where
  "slowest_cursor js subs =
     (let durable = filter (\<lambda>s. su_consumer s \<noteq> []) subs;
          slowest = fold (\<lambda>s m. if su_cursor s < m then su_cursor s else m) durable (js_MaxSeq js)
      in if durable = [] then js_MinSeq js - 1 else slowest)"

definition stats :: "bool \<Rightarrow> gtime \<Rightarrow> healthEventHub \<Rightarrow> journal_db option \<Rightarrow> store_error + HealthEventStats" where
  "stats statsFail now h journal =
     (if statsFail \<and> journal \<noteq> None then Inl DatabaseError
      else let js = (case journal of None \<Rightarrow> \<lparr>js_Count = 0, js_MinSeq = 0, js_MaxSeq = 0, js_OldestRecordedAt = zero_time\<rparr>
                     | Some db \<Rightarrow> JournalStats db);
               subs = map snd (hu_byID h);
               slowest = max 0 (slowest_cursor js subs)
           in Inr \<lparr>es_PressureThreshold = healthEventPressureThreshold, es_PressurePrunes = hu_pressurePrunes h,
                   es_PrunedEvents = hu_prunedEvents h, es_Capacity = int HealthEventJournalLimit,
                   es_Count = js_Count js, es_MaxSeq = js_MaxSeq js, es_Backlog = max 0 (js_MaxSeq js - slowest),
                   es_OldestAgeSeconds = (if is_zero_time (js_OldestRecordedAt js) then 0
                      else let d = time_sub now (js_OldestRecordedAt js) in sgn d * (\<bar>d\<bar> div second)),
                   es_RejectedMeasurements = hu_rejected h,
                   es_Consumers = sort_key cs_Consumer (map (consumer_stats (js_MaxSeq js)) subs)\<rparr>)"

end
