(* ===== verification/Hub_Properties.thy ===== *)
theory Hub_Properties
  imports Hub_Index Health_Delivery
begin

text \<open>
  The hub's indexes agree with a scan of all subscriptions, so publishing an event wakes exactly the
  subscriptions that select it; pruning keeps every row a registered durable consumer still owes.
\<close>

section \<open>The contract of an index\<close>

text \<open>
  An index of ids by key, with a lookup. \<open>add\<close> puts one id under a key and \<open>remove\<close> takes it out.
  What the hub needs is the effect of doing this for all the keys of one subscription.
\<close>

locale id_index =
  fixes at :: "'k \<Rightarrow> 'ix \<Rightarrow> nat list" and add :: "nat \<Rightarrow> 'k \<Rightarrow> 'ix \<Rightarrow> 'ix" and remove :: "nat \<Rightarrow> 'k \<Rightarrow> 'ix \<Rightarrow> 'ix"
  assumes at_add: "set (at k (add i k' ix)) = (if k = k' then insert i (set (at k ix)) else set (at k ix))"
    and at_remove: "set (at k (remove i k' ix)) = (if k = k' then set (at k ix) - {i} else set (at k ix))"
begin

lemma at_add_all: "set (at k (fold (add i) ks ix)) = (if k \<in> set ks then insert i (set (at k ix)) else set (at k ix))"
  by (induction ks arbitrary: ix) (auto simp: at_add)

lemma at_remove_all: "set (at k (fold (remove i) ks ix)) = (if k \<in> set ks then set (at k ix) - {i} else set (at k ix))"
  by (induction ks arbitrary: ix) (auto simp: at_remove)

end

interpretation hub_ix: id_index index_at index_add index_remove
  by unfold_locales
     (auto simp: index_at_def index_add_def index_remove_def Let_def filter_empty_conv split: option.splits if_splits)

section \<open>The hub's invariant\<close>

definition indexed :: "(healthEventSubscription \<Rightarrow> 'k list) \<Rightarrow> ('k \<times> nat list) list \<Rightarrow> (nat \<times> healthEventSubscription) list \<Rightarrow> bool" where
  "indexed keys ix subs \<longleftrightarrow> (\<forall>k i. i \<in> set (index_at k ix) \<longleftrightarrow> (\<exists>s. map_of subs i = Some s \<and> k \<in> set (keys s)))"

definition hub_ok :: "healthEventHub \<Rightarrow> bool" where
  "hub_ok h \<longleftrightarrow> (\<forall>i. i \<in> set (hu_global h) \<longleftrightarrow> (\<exists>s. map_of (hu_byID h) i = Some s \<and> su_global s)) \<and>
     indexed su_tags (hu_byTag h) (hu_byID h) \<and> indexed su_nodeIDs (hu_byNodeID h) (hu_byID h) \<and>
     (\<forall>i s. map_of (hu_byID h) i = Some s \<longrightarrow> i \<le> hu_nextID h)"

lemma indexed_add:
  assumes "indexed keys ix subs" and "map_of subs i = None" and "set ks = set (keys s)"
  shows "indexed keys (fold (index_add i) ks ix) (aput i s subs)"
  using assms by (auto simp: indexed_def hub_ix.at_add_all)

lemma indexed_remove:
  assumes "indexed keys ix subs" and "map_of subs i = Some s" and "set ks = set (keys s)"
  shows "indexed keys (fold (index_remove i) ks ix) (adel i subs)"
  using assms by (auto simp: indexed_def hub_ix.at_remove_all)

text \<open>Updates of the subscriptions themselves that keep what they select.\<close>

definition same_keys :: "(nat \<times> healthEventSubscription) list \<Rightarrow> (nat \<times> healthEventSubscription) list \<Rightarrow> bool" where
  "same_keys subs subs' \<longleftrightarrow> (\<forall>i. map_option selection (map_of subs' i) = map_option selection (map_of subs i))"

lemma hub_ok_same_keys:
  assumes "hub_ok h" and "same_keys (hu_byID h) subs"
  shows "hub_ok (h\<lparr>hu_byID := subs\<rparr>)"
proof -
  have eq: "(\<exists>s. map_of subs i = Some s \<and> P (selection s)) \<longleftrightarrow> (\<exists>s. map_of (hu_byID h) i = Some s \<and> P (selection s))" for i P
  proof -
    have "map_option selection (map_of subs i) = map_option selection (map_of (hu_byID h) i)"
      using assms(2) by (simp add: same_keys_def)
    then show ?thesis by (cases "map_of subs i"; cases "map_of (hu_byID h) i") auto
  qed
  show ?thesis
    using assms(1) eq [where P = "\<lambda>(_, _, g, _). g"] eq [where P = "\<lambda>(t, _). _ \<in> set t"] eq [where P = "\<lambda>(_, n, _). _ \<in> set n"]
      eq [where P = "\<lambda>_. True"]
    by (simp add: hub_ok_def indexed_def selection_def)
qed

lemma same_keys_fold:
  "(\<And>s. selection (f s) = selection s) \<Longrightarrow> same_keys subs (fold (\<lambda>i. amap_at i f) ids subs)"
proof (induction ids arbitrary: subs)
  case (Cons i ids)
  have "same_keys subs (amap_at i f subs)" using Cons.prems by (auto simp: same_keys_def option.map_comp comp_def)
  with Cons.IH [OF Cons.prems, of "amap_at i f subs"] show ?case by (simp add: same_keys_def)
qed (simp add: same_keys_def)

lemma newSub_selection:
  "newHealthEventSubscription fl tags ids g c j = (s, j') \<Longrightarrow> selection s = selection (blank_subscription tags ids g c)"
  by (auto simp: newHealthEventSubscription_def initCursor_def selection_def Let_def split: option.splits if_splits)

lemma register_ok:
  assumes "hub_ok h" and "register fl c tags ids g h j = (i, h', j')"
  shows "hub_ok h'"
proof -
  obtain s j1 where new: "newHealthEventSubscription fl tags ids g c j = (s, j1)"
    by (cases "newHealthEventSubscription fl tags ids g c j")
  have free: "map_of (hu_byID h) (hu_nextID h + 1) = None"
    using assms(1) by (cases "map_of (hu_byID h) (hu_nextID h + 1)") (auto simp: hub_ok_def)
  have g: "su_global s = g" using newSub_selection [OF new] by (simp add: selection_def blank_subscription_def)
  have "indexed su_tags (fold (index_add i) (sortedTags s) (hu_byTag h)) (aput i s (hu_byID h))"
    and "indexed su_nodeIDs (fold (index_add i) (sortedNodeIDs s) (hu_byNodeID h)) (aput i s (hu_byID h))"
    if "i = hu_nextID h + 1" for i
    using assms(1) free that by (auto intro!: indexed_add simp: hub_ok_def sortedTags_def sortedNodeIDs_def)
  then show ?thesis
    using assms free g new by (auto simp: hub_ok_def register_def Let_def le_SucI split: if_splits)
qed

lemma unsubscribe_ok:
  assumes "hub_ok h" and "unsubscribe i h = (c, h')"
  shows "hub_ok h'"
proof (cases "map_of (hu_byID h) i")
  case (Some s)
  have "indexed su_tags (fold (index_remove i) (sortedTags s) (hu_byTag h)) (adel i (hu_byID h))"
    and "indexed su_nodeIDs (fold (index_remove i) (sortedNodeIDs s) (hu_byNodeID h)) (adel i (hu_byID h))"
    using assms(1) Some by (auto intro!: indexed_remove simp: hub_ok_def sortedTags_def sortedNodeIDs_def)
  then show ?thesis using assms Some by (auto simp: hub_ok_def unsubscribe_def split: if_splits)
qed (use assms in \<open>simp add: unsubscribe_def\<close>)

lemma notify_each_ok: "hub_ok h \<Longrightarrow> hub_ok (notify_each j ev ids h)"
  unfolding notify_each_def by (intro hub_ok_same_keys same_keys_fold) simp_all

section \<open>Runs of the hub\<close>

inductive hub_step :: "'w callback \<Rightarrow> healthEventHub \<Rightarrow> healthEventHub \<Rightarrow> bool" for cb where
  registered: "register fl c tags ids g h j = (i, h', j') \<Longrightarrow> hub_step cb h h'"
| unsubscribed: "unsubscribe i h = (s, h') \<Longrightarrow> hub_step cb h h'"
| published: "hub_step cb h (publish j ev h)"
| broadcasted: "hub_step cb h (broadcast j ev h)"
| hub_closed: "hub_step cb h (snd (close_hub h))"
| hub_pruned: "prune sf pf now sweep h j = (r, h', j') \<Longrightarrow> hub_step cb h h'"
| loop_step: "map_of (hu_byID h) i = Some s \<Longrightarrow> step fl cb now (s, w, j) = (b, s', w', j') \<Longrightarrow>
    hub_step cb h (h\<lparr>hu_byID := amap_at i (\<lambda>_. s') (hu_byID h)\<rparr>)"
| retry: "hub_step cb h (h\<lparr>hu_byID := amap_at i retry_fires (hu_byID h)\<rparr>)"

lemma hub_step_ok: "hub_step cb h h' \<Longrightarrow> hub_ok h \<Longrightarrow> hub_ok h'"
proof (induction rule: hub_step.induct)
  case (loop_step h i s fl now w j b s' w' j')
  have "same_keys (hu_byID h) (amap_at i (\<lambda>_. s') (hu_byID h))"
    using step_selection [OF loop_step(2)] loop_step(1) by (auto simp: same_keys_def)
  then show ?case using loop_step hub_ok_same_keys by simp
next
  case (retry h i)
  have "same_keys (hu_byID h) (amap_at i retry_fires (hu_byID h))" using same_keys_fold [of retry_fires "hu_byID h" "[i]"] by simp
  then show ?case using retry hub_ok_same_keys by simp
next
  case (hub_pruned sf pf now sweep h j r h' j')
  have "hu_byID h' = hu_byID h" "hu_global h' = hu_global h" "hu_byTag h' = hu_byTag h" "hu_byNodeID h' = hu_byNodeID h"
      "hu_nextID h' = hu_nextID h"
    using hub_pruned(1) by (auto simp: prune_def Let_def split: option.splits if_splits prod.splits)
  then show ?case using hub_pruned by (simp add: hub_ok_def)
next
  case (hub_closed h)
  then show ?case by (simp add: close_hub_def hub_ok_def indexed_def index_at_def)
qed (auto intro: register_ok unsubscribe_ok simp: publish_def broadcast_def notify_each_ok)

interpretation hub_machine: inductive_invariant newHealthEventHub "hub_step cb" hub_ok
proof unfold_locales
  show "hub_ok newHealthEventHub" by (simp add: hub_ok_def newHealthEventHub_def indexed_def index_at_def)
qed (rule hub_step_ok)

section \<open>Publication\<close>

lemma match_iff:
  assumes "hub_ok h"
  shows "i \<in> set (match (healthResultEvent e) h) \<longleftrightarrow> (\<exists>s. map_of (hu_byID h) i = Some s \<and> matches s e)"
proof -
  have "i \<in> set (hu_global h) \<longleftrightarrow> (\<exists>s. map_of (hu_byID h) i = Some s \<and> su_global s)"
    "i \<in> set (index_at (jv_Tag e) (hu_byTag h)) \<longleftrightarrow> (\<exists>s. map_of (hu_byID h) i = Some s \<and> jv_Tag e \<in> set (su_tags s))"
    "i \<in> set (index_at (jv_NodeID e) (hu_byNodeID h)) \<longleftrightarrow> (\<exists>s. map_of (hu_byID h) i = Some s \<and> jv_NodeID e \<in> set (su_nodeIDs s))"
    using assms by (auto simp: hub_ok_def indexed_def)
  then show ?thesis
    by (cases "map_of (hu_byID h) i") (auto simp: match_def matches_def healthResultEvent_def)
qed

lemma distinct_match: "distinct (match ev h)"
  by (simp add: match_def)

lemma map_of_notify_fold:
  "distinct ids \<Longrightarrow> map_of (fold (\<lambda>i. amap_at i f) ids subs) k = (if k \<in> set ids then map_option f (map_of subs k) else map_of subs k)"
  by (induction ids arbitrary: subs) auto

text \<open>Publishing through the indexes is publishing by a scan. After any history of
  registrations, removals, deliveries and closing, publishing the event of a journal row notifies
  each registered subscription whose own filter selects that row, exactly once, and no other.\<close>

theorem publish_reaches_selected:
  assumes "reaches (hub_step cb) newHealthEventHub h"
  shows "map_of (hu_byID (publish j (healthResultEvent e) h)) i =
    map_option (\<lambda>s. if matches s e then notify j (healthResultEvent e) s else s) (map_of (hu_byID h) i)"
proof -
  have "hub_ok h" using assms by (rule hub_machine.reachable_inv)
  from match_iff [OF this, of i e] show ?thesis
    by (cases "map_of (hu_byID h) i") (auto simp: publish_def notify_each_def map_of_notify_fold distinct_match)
qed

definition demo_hub :: healthEventHub where
  "demo_hub = fst (snd (register no_faults ''pool:1'' [''node-5''] [5] False newHealthEventHub (Some demo_db)))"

lemma demo_hub_reached: "reaches (hub_step demo_cb) newHealthEventHub demo_hub"
proof -
  obtain i h j where r: "register no_faults ''pool:1'' [''node-5''] [5] False newHealthEventHub (Some demo_db) = (i, h, j)"
    by (cases "register no_faults ''pool:1'' [''node-5''] [5] False newHealthEventHub (Some demo_db)")
  then have "demo_hub = h" by (simp add: demo_hub_def)
  moreover have "hub_step demo_cb newHealthEventHub h" using r by (rule hub_step.registered)
  ultimately show ?thesis by (blast intro: reaches.intros)
qed

theorem publish_reaches_selected_witness:
  "map_option su_dirty (map_of (hu_byID (publish True (healthResultEvent (last (db_events demo_committed))) demo_hub)) 1) = Some True"
  unfolding publish_reaches_selected [OF demo_hub_reached] by code_simp

section \<open>Pruning a journal for the hub\<close>

text \<open>Pruning never takes a row that a registered durable consumer has yet to acknowledge, and
  under pressure it takes every older row that all of them have acknowledged. A row stays when it
  is beyond the persisted cursor of some registered durable consumer (a consumer without a persisted
  cursor holds every row); when the journal is at the pressure threshold, the rows left are exactly
  those recorded at or after the present instant or beyond the slowest persisted cursor.\<close>

theorem prune_keeps_debt:
  assumes "prune sf pf now sweep h (Some db) = (r, h', Some db')"
  shows "(map_of (hu_byID h) i = Some s \<and> su_consumer s \<noteq> [] \<and> e \<in> set (db_events db) \<and> persisted s db < jv_Seq e
      \<longrightarrow> e \<in> set (db_events db')) \<and>
    (r \<noteq> Inl DatabaseError \<and> durableConsumers h \<noteq> [] \<and> healthEventPressureThreshold \<le> int (length (db_events db))
      \<longrightarrow> db_events db' = filter (\<lambda>e. now \<le> jv_RecordedAt e \<or> active_floor (durableConsumers h) db < jv_Seq e) (db_events db))"
proof (intro conjI impI; (elim conjE)?)
  assume a: "map_of (hu_byID h) i = Some s" "su_consumer s \<noteq> []" "e \<in> set (db_events db)" "persisted s db < jv_Seq e"
  have c: "su_consumer s \<in> set (durableConsumers h)"
    using map_of_SomeD [OF a(1)] a(2) by (force simp: durableConsumers_def)
  then have "active_floor (durableConsumers h) db \<le> persisted s db"
    unfolding active_floor_def persisted_def GetHealthEventCursor_def
    by (intro Min_le) (auto simp: image_iff intro!: bexI [of _ "su_consumer s"] split: option.splits)
  then have "\<not> prunable t (durableConsumers h) db e" for t using a(4) c by (auto simp: prunable_def)
  then show "e \<in> set (db_events db')"
    using assms a(3) by (auto simp: prune_def PruneHealthEvents_def Let_def split: if_splits)
next
  assume "r \<noteq> Inl DatabaseError" "durableConsumers h \<noteq> []" "healthEventPressureThreshold \<le> int (length (db_events db))"
  then show "db_events db' = filter (\<lambda>e. now \<le> jv_RecordedAt e \<or> active_floor (durableConsumers h) db < jv_Seq e) (db_events db)"
    using assms by (auto simp: prune_def PruneHealthEvents_def prunable_def JournalStats_def Let_def not_less not_le
        intro!: filter_cong split: if_splits)
qed

lemma prune_store: "snd (snd (prune sf pf now sweep h (Some db))) \<noteq> None"
  by (simp add: prune_def Let_def split: prod.split)

text \<open>An age sweep long after the event was recorded, when the consumer has not read it yet.\<close>

definition demo_pruned :: "(store_error + int) \<times> healthEventHub \<times> journal_db option" where
  "demo_pruned = prune False False (10 * hour) True demo_hub (Some demo_committed)"

theorem prune_keeps_debt_witness:
  "last (db_events demo_committed) \<in> set (db_events (the (snd (snd demo_pruned))))"
proof -
  have "snd (snd demo_pruned) = Some (the (snd (snd demo_pruned)))" unfolding demo_pruned_def by (simp add: prune_store)
  then have p: "prune False False (10 * hour) True demo_hub (Some demo_committed) =
      (fst demo_pruned, fst (snd demo_pruned), Some (the (snd (snd demo_pruned))))"
    unfolding demo_pruned_def by (metis prod.collapse)
  have "map_of (hu_byID demo_hub) 1 = Some (the (map_of (hu_byID demo_hub) 1))" by code_simp
  moreover have "su_consumer (the (map_of (hu_byID demo_hub) 1)) \<noteq> []" by code_simp
  moreover have "last (db_events demo_committed) \<in> set (db_events demo_committed)" by code_simp
  moreover have "persisted (the (map_of (hu_byID demo_hub) 1)) demo_committed < jv_Seq (last (db_events demo_committed))" by code_simp
  ultimately show ?thesis
    using prune_keeps_debt [where i = 1 and s = "the (map_of (hu_byID demo_hub) 1)" and e = "last (db_events demo_committed)", OF p]
    by simp
qed

end
