(* ===== verification/Pool_Shared.thy ===== *)
theory Pool_Shared
  imports Prelude
begin

text \<open>
  The member state that all pools share, \<open>src/internal/outbound/pool/shared_state.go\<close>, with the
  owner count kept by \<open>memberRuntime\<close> of \<open>pool.go\<close>. The store is a heap of states with a table from
  tags to addresses. Calls on the attached monitor entry are collected as a list in call order;
  without an attached entry there are none.
\<close>

datatype entry_call =
    EntryFailure string string
  | EntrySuccess string
  | EntryBlacklist gtime
  | EntryClearBlacklist
  | EntryIncActive
  | EntryDecActive
  | EntryAddTraffic int int

record sharedMemberState =
  sh_failures :: "gtime list"
  sh_blacklisted :: bool
  sh_blacklistedUntil :: gtime
  sh_entry :: "nat option"
  sh_active :: int
  sh_totalUpload :: int
  sh_totalDownload :: int
  sh_owners :: int

definition blank_shared :: sharedMemberState where
  "blank_shared = \<lparr>sh_failures = [], sh_blacklisted = False, sh_blacklistedUntil = zero_time, sh_entry = None,
     sh_active = 0, sh_totalUpload = 0, sh_totalDownload = 0, sh_owners = 0\<rparr>"

record sharedStateStore =
  ss_byTag :: "(string \<times> nat) list"
  ss_heap :: "nat \<Rightarrow> sharedMemberState"
  ss_next :: nat

definition acquireSharedState :: "string \<Rightarrow> sharedStateStore \<Rightarrow> nat \<times> sharedStateStore" where
  "acquireSharedState tag ss = (case map_of (ss_byTag ss) tag of Some a \<Rightarrow> (a, ss)
     | None \<Rightarrow> let a = ss_next ss
               in (a, ss\<lparr>ss_byTag := aput tag a (ss_byTag ss), ss_heap := (ss_heap ss)(a := blank_shared), ss_next := a + 1\<rparr>))"

definition lookupSharedState :: "string \<Rightarrow> sharedStateStore \<Rightarrow> nat option" where
  "lookupSharedState tag ss = map_of (ss_byTag ss) tag"

definition ResetSharedStateStore :: "sharedStateStore \<Rightarrow> sharedStateStore" where
  "ResetSharedStateStore ss = ss\<lparr>ss_byTag := []\<rparr>"

definition activeCount :: "sharedMemberState \<Rightarrow> int" where "activeCount s = sh_active s"

definition ActiveConnections :: "sharedStateStore \<Rightarrow> int" where
  "ActiveConnections ss = sum_list (map (\<lambda>(_, a). activeCount (ss_heap ss a)) (ss_byTag ss))"

definition attachEntry :: "nat option \<Rightarrow> sharedMemberState \<Rightarrow> sharedMemberState" where
  "attachEntry e s = (case e of None \<Rightarrow> s | Some _ \<Rightarrow> s\<lparr>sh_entry := e\<rparr>)"

text \<open>The calls reach the entry only when one is attached.\<close>

definition to_entry :: "sharedMemberState \<Rightarrow> entry_call list \<Rightarrow> entry_call list" where
  "to_entry s cs = (if sh_entry s = None then [] else cs)"

definition recordFailure :: "gtime \<Rightarrow> string \<Rightarrow> int \<Rightarrow> duration \<Rightarrow> duration \<Rightarrow> string \<Rightarrow> sharedMemberState \<Rightarrow>
    (int \<times> bool \<times> gtime) \<times> sharedMemberState \<times> entry_call list" where
  "recordFailure now cause threshold duration window destination s =
     (let appended = sh_failures s @ [now];
          kept = (if window > 0 then filter (\<lambda>t. t > now - window) appended else appended);
          count = int (length kept);
          triggered = (count \<ge> threshold);
          until = (if triggered then now + duration else zero_time);
          s1 = (if triggered then s\<lparr>sh_failures := [], sh_blacklisted := True, sh_blacklistedUntil := until\<rparr>
                else s\<lparr>sh_failures := kept\<rparr>)
      in ((count, triggered, until), s1,
          to_entry s1 (EntryFailure cause destination # (if triggered then [EntryBlacklist until] else []))))"

definition recordSuccess :: "string \<Rightarrow> sharedMemberState \<Rightarrow> entry_call list" where
  "recordSuccess destination s = to_entry s [EntrySuccess destination]"

definition recordEstablishedSuccess :: "sharedMemberState \<Rightarrow> sharedMemberState" where
  "recordEstablishedSuccess s = s\<lparr>sh_failures := []\<rparr>"

definition isBlacklisted :: "gtime \<Rightarrow> sharedMemberState \<Rightarrow> bool \<times> sharedMemberState \<times> entry_call list" where
  "isBlacklisted now s =
     (let expired = (sh_blacklisted s \<and> now > sh_blacklistedUntil s);
          s1 = (if expired then s\<lparr>sh_blacklisted := False, sh_blacklistedUntil := zero_time\<rparr> else s)
      in (sh_blacklisted s1, s1, if expired then to_entry s1 [EntryClearBlacklist] else []))"

definition forceRelease :: "sharedMemberState \<Rightarrow> sharedMemberState \<times> entry_call list" where
  "forceRelease s = (let s1 = s\<lparr>sh_failures := [], sh_blacklisted := False, sh_blacklistedUntil := zero_time\<rparr>
     in (s1, to_entry s1 [EntryClearBlacklist]))"

definition incActive :: "sharedMemberState \<Rightarrow> sharedMemberState \<times> entry_call list" where
  "incActive s = (s\<lparr>sh_active := sh_active s + 1\<rparr>, to_entry s [EntryIncActive])"

definition decActive :: "sharedMemberState \<Rightarrow> sharedMemberState \<times> entry_call list" where
  "decActive s = (s\<lparr>sh_active := sh_active s - 1\<rparr>, to_entry s [EntryDecActive])"

definition addTraffic :: "int \<Rightarrow> int \<Rightarrow> sharedMemberState \<Rightarrow> sharedMemberState \<times> entry_call list" where
  "addTraffic upload download s =
     (let s1 = (if upload > 0 then s\<lparr>sh_totalUpload := sh_totalUpload s + upload\<rparr> else s);
          s2 = (if download > 0 then s1\<lparr>sh_totalDownload := sh_totalDownload s1 + download\<rparr> else s1)
      in (s2, to_entry s2 [EntryAddTraffic upload download]))"

definition put_shared :: "nat \<Rightarrow> sharedMemberState \<Rightarrow> sharedStateStore \<Rightarrow> sharedStateStore" where
  "put_shared a s ss = ss\<lparr>ss_heap := (ss_heap ss)(a := s)\<rparr>"

definition releaseSharedMember :: "string \<Rightarrow> sharedStateStore \<Rightarrow> sharedStateStore \<times> entry_call list" where
  "releaseSharedMember tag ss = (case lookupSharedState tag ss of None \<Rightarrow> (ss, [])
     | Some a \<Rightarrow> let (s1, cs) = forceRelease (ss_heap ss a) in (put_shared a s1 ss, cs))"

section \<open>Owners\<close>

record memberRuntime =
  rt_outbound :: "nat option"
  rt_shared :: "nat option"
  rt_snapshotRefs :: int
  rt_operations :: int
  rt_retired :: bool
  rt_released :: bool

definition newMemberRuntime :: "nat option \<Rightarrow> nat option \<Rightarrow> sharedStateStore \<Rightarrow> memberRuntime \<times> sharedStateStore" where
  "newMemberRuntime detour shared ss =
     (\<lparr>rt_outbound = detour, rt_shared = shared, rt_snapshotRefs = 0, rt_operations = 0, rt_retired = False, rt_released = False\<rparr>,
      case shared of None \<Rightarrow> ss
      | Some a \<Rightarrow> put_shared a ((ss_heap ss a)\<lparr>sh_owners := sh_owners (ss_heap ss a) + 1\<rparr>) ss)"

definition releaseOwner :: "string \<Rightarrow> memberRuntime \<Rightarrow> sharedStateStore \<Rightarrow> memberRuntime \<times> sharedStateStore" where
  "releaseOwner tag r ss = (case rt_shared r of None \<Rightarrow> (r, ss)
     | Some a \<Rightarrow>
         if rt_released r then (r, ss)
         else let s1 = (ss_heap ss a)\<lparr>sh_owners := sh_owners (ss_heap ss a) - 1\<rparr>; ss1 = put_shared a s1 ss
              in (r\<lparr>rt_released := True\<rparr>,
                  if sh_owners s1 = 0 \<and> map_of (ss_byTag ss1) tag = Some a then ss1\<lparr>ss_byTag := adel tag (ss_byTag ss1)\<rparr> else ss1))"

definition Drained :: "sharedStateStore \<Rightarrow> memberRuntime \<Rightarrow> nat option \<Rightarrow> bool" where
  "Drained ss r shared \<longleftrightarrow> rt_snapshotRefs r = 0 \<and> rt_operations r = 0 \<and>
     (case shared of None \<Rightarrow> True | Some a \<Rightarrow> activeCount (ss_heap ss a) = 0)"

section \<open>The passive blacklist\<close>

lemma recordFailure_quiet:
  assumes "0 < window" and "int (length (filter (\<lambda>x. now - window < x) (sh_failures s @ [now]))) < threshold"
  shows "fst (snd (recordFailure now c threshold d window dst s)) = s\<lparr>sh_failures := filter (\<lambda>x. now - window < x) (sh_failures s @ [now])\<rparr>"
  using assms by (simp add: recordFailure_def Let_def)

lemma recordFailure_blacklists:
  assumes "0 < window" and "threshold \<le> int (length (filter (\<lambda>x. now - window < x) (sh_failures s @ [now])))"
  shows "fst (recordFailure now c threshold d window dst s) =
      (int (length (filter (\<lambda>x. now - window < x) (sh_failures s @ [now]))), True, now + d)"
    and "fst (snd (recordFailure now c threshold d window dst s)) =
      s\<lparr>sh_failures := [], sh_blacklisted := True, sh_blacklistedUntil := now + d\<rparr>"
  using assms by (simp_all add: recordFailure_def Let_def)

lemma blacklist_expires:
  "fst (isBlacklisted now s) \<longleftrightarrow> sh_blacklisted s \<and> now \<le> sh_blacklistedUntil s"
  by (auto simp: isBlacklisted_def Let_def)

lemma isBlacklisted_stable:
  "isBlacklisted now s = (b, s1, cs) \<Longrightarrow> isBlacklisted now s1 = (b, s1, [])"
  by (auto simp: isBlacklisted_def Let_def split: if_splits)

lemma release_ends_blacklist: "\<not> fst (isBlacklisted now (fst (forceRelease s)))"
  by (simp add: isBlacklisted_def forceRelease_def Let_def)

end
