(* ===== verification/Pool_Snapshot.thy ===== *)
theory Pool_Snapshot
  imports Pool_Shared Group_Runtime Go_Strings "HOL-Library.List_Lexorder" "HOL-Library.Char_ord"
begin

text \<open>
  Publication of pool snapshots, \<open>src/internal/outbound/pool/pool.go\<close>: which members a snapshot
  offers for TCP and UDP, in which order, and the index maps beside them. Pointers are numbers: a
  member reference is an address in a heap of \<open>MemberRef\<close> records. A slice is an array identity with
  its elements (every slice here starts at offset 0), so that the sharing tests of the code, which
  compare addresses, are kept. What the pool reads of the monitor is a record of functions.
\<close>

record MemberMeta =
  mm_NodeID :: node_id
  mm_Name :: string
  mm_URI :: string
  mm_Mode :: string
  mm_ListenAddress :: string
  mm_Port :: nat
  mm_Region :: string
  mm_Country :: string

definition zero_meta :: MemberMeta where
  "zero_meta = \<lparr>mm_NodeID = 0, mm_Name = [], mm_URI = [], mm_Mode = [], mm_ListenAddress = [], mm_Port = 0,
     mm_Region = [], mm_Country = []\<rparr>"

type_synonym mref = nat

record MemberRef =
  mr_outbound :: "nat option"
  mr_tag :: string
  mr_shared :: "nat option"
  mr_meta :: MemberMeta
  mr_latencyMs :: int

type_synonym heap = "mref \<Rightarrow> MemberRef"
type_synonym slice = "nat \<times> mref list"
type_synonym index = "mref \<Rightarrow> nat option"

record PoolSnapshot =
  ps_Version :: nat
  ps_mode :: string
  ps_Members :: slice
  ps_tcpMembers :: slice
  ps_udpMembers :: slice
  ps_allMembers :: slice
  ps_memberIndex :: index
  ps_tcpIndex :: index
  ps_udpIndex :: index

definition modeSequential :: string where "modeSequential = ''sequential''"
definition modeRandom :: string where "modeRandom = ''random''"
definition modeBalance :: string where "modeBalance = ''balance''"
definition modeBalanceP2C :: string where "modeBalanceP2C = ''balance_p2c''"
definition modeFixed :: string where "modeFixed = ''fixed''"
definition modeLowestLatency :: string where "modeLowestLatency = ''lowest_latency''"

text \<open>The mode part of \<open>normalizeOptions\<close>.\<close>

definition normalize_mode :: "string \<Rightarrow> string" where
  "normalize_mode m = (let l = to_lower m
     in if l \<in> {modeRandom, modeBalance, modeBalanceP2C, modeFixed, modeLowestLatency} then l else modeSequential)"

section \<open>Slices\<close>

definition sameCandidateSlice :: "slice \<Rightarrow> slice \<Rightarrow> bool" where
  "sameCandidateSlice l r \<longleftrightarrow> length (snd l) = length (snd r) \<and> (snd l = [] \<or> fst l = fst r)"

text \<open>\<open>fresh\<close> is the array a copy would be allocated at.\<close>

definition snapshotSubset :: "nat \<Rightarrow> slice \<Rightarrow> slice \<Rightarrow> nat \<Rightarrow> bool \<Rightarrow> slice" where
  "snapshotSubset fresh current al i keep =
     (if sameCandidateSlice current al then if keep then current else (fresh, take i (snd al))
      else if keep then (fst current, snd current @ [snd al ! i]) else current)"

fun index_from :: "nat \<Rightarrow> mref list \<Rightarrow> index \<Rightarrow> index" where
  "index_from i [] ix = ix"
| "index_from i (m # ms) ix = index_from (Suc i) ms (ix(m \<mapsto> i))"

definition snapshotMemberIndex :: "mref list \<Rightarrow> index" where
  "snapshotMemberIndex members = index_from 0 members (\<lambda>_. None)"

definition snapshotNetworkIndex :: "slice \<Rightarrow> slice \<Rightarrow> index \<Rightarrow> slice \<times> index" where
  "snapshotNetworkIndex members existing ix =
     (if snd members = snd existing then (existing, ix) else (members, snapshotMemberIndex (snd members)))"

section \<open>Eligibility\<close>

record MonitorSnapshot =
  sn_LastLatencyMs :: int
  sn_RoutingEligible :: bool
  sn_Provisional :: bool
  sn_InitialCheckDone :: bool

record monitor_view =
  mv_probeConfigured :: bool
  mv_forTag :: "string \<Rightarrow> MonitorSnapshot option"
  mv_forNodeID :: "node_id \<Rightarrow> MonitorSnapshot option"

record pool_config =
  pc_GroupID :: group_id
  pc_MonitorObserverOnly :: bool
  pc_Metadata :: "(string \<times> MemberMeta) list"
  pc_mode :: string
  pc_networks :: "nat \<Rightarrow> string list"

definition memberMeta :: "pool_config \<Rightarrow> MemberRef \<Rightarrow> MemberMeta" where
  "memberMeta cfg m = (if mr_meta m \<noteq> zero_meta then mr_meta m
     else case map_of (pc_Metadata cfg) (mr_tag m) of None \<Rightarrow> zero_meta | Some meta \<Rightarrow> meta)"

definition monitor_snapshot :: "pool_config \<Rightarrow> monitor_view \<Rightarrow> MemberRef \<Rightarrow> MonitorSnapshot option" where
  "monitor_snapshot cfg mon m = (let n = mm_NodeID (memberMeta cfg m)
     in if pc_MonitorObserverOnly cfg \<and> n \<noteq> 0 then mv_forNodeID mon n else mv_forTag mon (mr_tag m))"

text \<open>What publication reads and writes: the members' latencies, the shared states and the group
  runtime, with the calls made on monitor entries.\<close>

record pool_world =
  pw_members :: heap
  pw_shared :: sharedStateStore
  pw_group :: world
  pw_calls :: "entry_call list"

definition shared_blacklisted :: "gtime \<Rightarrow> nat option \<Rightarrow> pool_world \<Rightarrow> bool \<times> pool_world" where
  "shared_blacklisted now sh w = (case sh of None \<Rightarrow> (False, w)
     | Some a \<Rightarrow> let (b, s1, cs) = isBlacklisted now (ss_heap (pw_shared w) a)
                 in (b, w\<lparr>pw_shared := put_shared a s1 (pw_shared w), pw_calls := pw_calls w @ cs\<rparr>))"

definition memberAvailableForSnapshot :: "pool_config \<Rightarrow> monitor_view option \<Rightarrow> gtime \<Rightarrow> mref \<Rightarrow> pool_world \<Rightarrow> bool \<times> pool_world" where
  "memberAvailableForSnapshot cfg mon now r w =
     (let m = pw_members w r;
          g = pc_GroupID cfg;
          snap = (case mon of None \<Rightarrow> None | Some mv \<Rightarrow> monitor_snapshot cfg mv m);
          w1 = (case snap of None \<Rightarrow> w
                | Some sn \<Rightarrow> w\<lparr>pw_members := (pw_members w)(r := m\<lparr>mr_latencyMs := sn_LastLatencyMs sn\<rparr>)\<rparr>)
      in if (case mon of None \<Rightarrow> False | Some mv \<Rightarrow> (g \<noteq> 0 \<or> mv_probeConfigured mv) \<and>
               (case snap of None \<Rightarrow> True | Some sn \<Rightarrow> \<not> sn_RoutingEligible sn)) then (False, w1)
         else if g \<noteq> 0 \<and> (case snap of None \<Rightarrow> False | Some sn \<Rightarrow> sn_Provisional sn)
         then (if MemberNotEvicted g (mr_tag m) (pw_group w1)
               then (let (b, w2) = shared_blacklisted now (mr_shared m) w1 in (\<not> b, w2)) else (False, w1))
         else if g \<noteq> 0
         then (let (ok, gw) = MemberAvailable g (mr_tag m) now (pw_group w1); w2 = w1\<lparr>pw_group := gw\<rparr>
               in if ok then (let (b, w3) = shared_blacklisted now (mr_shared m) w2 in (\<not> b, w3)) else (False, w2))
         else (let (b, w2) = shared_blacklisted now (mr_shared m) w1 in (\<not> b, w2)))"

fun eligibility :: "pool_config \<Rightarrow> monitor_view option \<Rightarrow> gtime \<Rightarrow> mref list \<Rightarrow> pool_world \<Rightarrow> bool list \<times> pool_world" where
  "eligibility cfg mon now [] w = ([], w)"
| "eligibility cfg mon now (r # rs) w =
     (let (b, w1) = memberAvailableForSnapshot cfg mon now r w;
          (bs, w2) = eligibility cfg mon now rs w1
      in (b # bs, w2))"

definition member_networks :: "pool_config \<Rightarrow> MemberRef \<Rightarrow> string list" where
  "member_networks cfg m = (case mr_outbound m of None \<Rightarrow> [''tcp'', ''udp''] | Some o' \<Rightarrow> pc_networks cfg o')"

section \<open>Ordering by latency\<close>

definition latencyMemberLess :: "pool_config \<Rightarrow> MemberRef \<Rightarrow> MemberRef \<Rightarrow> bool" where
  "latencyMemberLess cfg l r =
     (let lk = mr_latencyMs l > 0; rk = mr_latencyMs r > 0;
          li = mm_NodeID (memberMeta cfg l); ri = mm_NodeID (memberMeta cfg r)
      in if lk \<noteq> rk then lk
         else if lk \<and> mr_latencyMs l \<noteq> mr_latencyMs r then mr_latencyMs l < mr_latencyMs r
         else if li \<noteq> ri then li < ri
         else mr_tag l < mr_tag r)"

text \<open>\<open>sort.SliceStable\<close> with that comparison.\<close>

fun insert_by :: "('a \<Rightarrow> 'a \<Rightarrow> bool) \<Rightarrow> 'a \<Rightarrow> 'a list \<Rightarrow> 'a list" where
  "insert_by lt x [] = [x]"
| "insert_by lt x (y # ys) = (if lt y x then y # insert_by lt x ys else x # y # ys)"

definition stable_sort :: "('a \<Rightarrow> 'a \<Rightarrow> bool) \<Rightarrow> 'a list \<Rightarrow> 'a list" where
  "stable_sort lt xs = foldr (insert_by lt) xs []"

section \<open>Publication\<close>

text \<open>The loop over the topology that narrows one view, given which members to keep.\<close>

fun narrow :: "nat \<Rightarrow> slice \<Rightarrow> nat \<Rightarrow> bool list \<Rightarrow> slice \<Rightarrow> slice" where
  "narrow fresh al i [] current = current"
| "narrow fresh al i (b # bs) current = narrow fresh al (Suc i) bs (snapshotSubset fresh current al i b)"

definition build_snapshot :: "pool_config \<Rightarrow> nat \<Rightarrow> heap \<Rightarrow> mref list \<Rightarrow> bool list \<Rightarrow> PoolSnapshot" where
  "build_snapshot cfg version h members elig =
     (let al = (0, members);
          on = (\<lambda>net. map2 (\<lambda>b r. b \<and> net \<in> set (member_networks cfg (h r))) elig members);
          ms = narrow 1 al 0 elig al;
          tcp = narrow 2 al 0 (on ''tcp'') al;
          udp = narrow 3 al 0 (on ''udp'') al;
          lt = (\<lambda>l r. latencyMemberLess cfg (h l) (h r));
          tcp1 = (if pc_mode cfg = modeLowestLatency then (4, stable_sort lt (snd tcp)) else tcp);
          udp1 = (if pc_mode cfg = modeLowestLatency then (5, stable_sort lt (snd udp)) else udp);
          mix = snapshotMemberIndex (snd ms);
          (tcp2, tix) = snapshotNetworkIndex tcp1 ms mix;
          (udp2, uix) = snapshotNetworkIndex udp1 tcp2 tix;
          (udp3, uix3) = (if snd udp2 = snd ms then (ms, mix) else (udp2, uix))
      in \<lparr>ps_Version = version, ps_mode = pc_mode cfg, ps_Members = ms, ps_tcpMembers = tcp2, ps_udpMembers = udp3,
          ps_allMembers = al, ps_memberIndex = mix, ps_tcpIndex = tix, ps_udpIndex = uix3\<rparr>)"

definition publishSnapshotLocked :: "pool_config \<Rightarrow> monitor_view option \<Rightarrow> gtime \<Rightarrow> PoolSnapshot option \<Rightarrow> mref list \<Rightarrow> pool_world \<Rightarrow>
    PoolSnapshot \<times> pool_world" where
  "publishSnapshotLocked cfg mon now previous members w =
     (let version = (case previous of None \<Rightarrow> 1 | Some p \<Rightarrow> ps_Version p + 1);
          (elig, w1) = eligibility cfg mon now members w
      in (build_snapshot cfg version (pw_members w1) members elig, w1))"

end
