(* ===== verification/Pool_Views.thy ===== *)
theory Pool_Views
  imports Pool_Snapshot "HOL-Library.Multiset"
begin

text \<open>
  What a published pool snapshot offers: its views, built with shared slices, are the plain
  selection of the usable members per network; under the lowest-latency policy they are sorted; the
  index maps point into the views; and a member is offered exactly when monitor, group runtime and
  blacklist agree.
\<close>

section \<open>Narrowing a shared slice\<close>

definition kept :: "'a list \<Rightarrow> bool list \<Rightarrow> 'a list" where
  "kept xs bs = map fst (filter snd (zip xs bs))"

lemma kept_simps [simp]:
  "kept [] bs = []" "kept xs [] = []" "kept (x # xs) (b # bs) = (if b then x # kept xs bs else kept xs bs)"
  by (simp_all add: kept_def)

lemma kept_append: "length xs = length bs \<Longrightarrow> kept (xs @ ys) (bs @ cs) = kept xs bs @ kept ys cs"
  by (simp add: kept_def)

lemma length_kept: "length (kept xs bs) \<le> length bs"
  by (induction xs bs rule: list_induct2') auto

lemma length_kept_all: "length xs = length bs \<Longrightarrow> length (kept xs bs) = length bs \<longleftrightarrow> list_all id bs"
proof (induction xs bs rule: list_induct2)
  case (Cons x xs b bs)
  then show ?case using length_kept [of xs bs] by auto
qed simp

lemma kept_all: "length xs = length bs \<Longrightarrow> list_all id bs \<Longrightarrow> kept xs bs = xs"
  by (induction xs bs rule: list_induct2) auto

lemma set_kept: "set (kept xs bs) \<subseteq> set xs"
  by (auto simp: kept_def dest: set_zip_leftD)

lemma kept_map2: "kept xs (map f xs) = filter f xs"
  by (induction xs) auto

text \<open>The state of the loop after the first \<open>i\<close> members: still the shared topology when all were kept,
  and otherwise an array of its own that is shorter than the topology.\<close>

definition narrowed :: "nat \<Rightarrow> mref list \<Rightarrow> bool list \<Rightarrow> slice \<Rightarrow> bool" where
  "narrowed fresh al bs cur \<longleftrightarrow>
     cur = (if list_all id bs then (0, al) else (fresh, kept (take (length bs) al) bs))"

lemma snapshotSubset_narrowed:
  assumes "narrowed fresh al bs cur" and "length bs < length al" and "fresh \<noteq> 0"
  shows "narrowed fresh al (bs @ [b]) (snapshotSubset fresh cur (0, al) (length bs) b)"
proof -
  define i where "i = length bs"
  have tk: "take (Suc i) al = take i al @ [al ! i]" using assms(2) by (simp add: i_def take_Suc_conv_app_nth)
  have len: "length (take i al) = length bs" using assms(2) by (simp add: i_def)
  show ?thesis
  proof (cases "list_all id bs")
    case True
    then have cur: "cur = (0, al)" using assms(1) by (simp add: narrowed_def)
    have "kept (take i al) bs = take i al" using kept_all [OF len True] .
    then show ?thesis using True tk len cur
      by (cases b) (simp_all add: narrowed_def snapshotSubset_def sameCandidateSlice_def kept_append i_def)
  next
    case False
    then have cur: "cur = (fresh, kept (take i al) bs)" using assms(1) by (simp add: narrowed_def i_def)
    have "length (kept (take i al) bs) \<le> length bs" by (rule length_kept)
    then have "\<not> sameCandidateSlice cur (0, al)" using assms(2) by (simp add: cur sameCandidateSlice_def)
    then show ?thesis using False tk len
      by (cases b) (simp_all add: narrowed_def snapshotSubset_def cur kept_append i_def)
  qed
qed

lemma narrow_narrowed:
  "narrowed fresh al bs cur \<Longrightarrow> length bs + length cs = length al \<Longrightarrow> fresh \<noteq> 0 \<Longrightarrow>
     narrowed fresh al (bs @ cs) (narrow fresh (0, al) (length bs) cs cur)"
proof (induction cs arbitrary: bs cur)
  case (Cons c cs)
  have "narrowed fresh al (bs @ [c]) (snapshotSubset fresh cur (0, al) (length bs) c)"
    using Cons.prems by (intro snapshotSubset_narrowed) auto
  from Cons.IH [OF this] Cons.prems show ?case by simp
qed simp

lemma narrow_kept:
  assumes "length bs = length al" and "fresh \<noteq> 0"
  shows "snd (narrow fresh (0, al) 0 bs (0, al)) = kept al bs"
proof -
  have "narrowed fresh al bs (narrow fresh (0, al) 0 bs (0, al))"
    using narrow_narrowed [of fresh al "[]" "(0, al)" bs] assms by (simp add: narrowed_def)
  then show ?thesis using assms kept_all [of al bs] by (auto simp: narrowed_def)
qed

section \<open>Indexes and sorting\<close>

lemma index_from_sound:
  "index_from i ms ix m = Some j \<Longrightarrow> (i \<le> j \<and> j < i + length ms \<and> ms ! (j - i) = m) \<or> (m \<notin> set ms \<and> ix m = Some j)"
proof (induction ms arbitrary: i ix)
  case (Cons a ms)
  have "index_from (Suc i) ms (ix(a \<mapsto> i)) m = Some j" using Cons.prems by simp
  from Cons.IH [OF this]
  consider (later) "Suc i \<le> j" "j < Suc i + length ms" "ms ! (j - Suc i) = m"
    | (here) "m \<notin> set ms" "(ix(a \<mapsto> i)) m = Some j" by blast
  then show ?case
  proof cases
    case later
    then have "j - i = Suc (j - Suc i)" by simp
    then show ?thesis using later by simp
  next
    case here
    then show ?thesis by (cases "m = a") auto
  qed
qed simp

lemma index_from_complete: "m \<in> set ms \<Longrightarrow> index_from i ms ix m \<noteq> None"
proof (induction ms arbitrary: i ix)
  case (Cons a ms)
  have "index_from i ms ix m \<noteq> None" if "ix m \<noteq> None" for i ms ix
    using that by (induction ms arbitrary: i ix) auto
  then show ?case using Cons by (cases "m \<in> set ms") auto
qed simp

definition index_ok :: "index \<Rightarrow> mref list \<Rightarrow> bool" where
  "index_ok ix ms \<longleftrightarrow> (\<forall>m i. ix m = Some i \<longrightarrow> i < length ms \<and> ms ! i = m) \<and> (\<forall>m \<in> set ms. ix m \<noteq> None)"

lemma snapshotMemberIndex_ok: "index_ok (snapshotMemberIndex ms) ms"
  using index_from_sound [of 0 ms "\<lambda>_. None"] index_from_complete [of _ ms 0 "\<lambda>_. None"]
  by (fastforce simp: index_ok_def snapshotMemberIndex_def)

lemma networkIndex_ok:
  assumes "snapshotNetworkIndex ms ex ix = (s, jx)" and "index_ok ix (snd ex)"
  shows "snd s = snd ms \<and> index_ok jx (snd s)"
  using assms by (auto simp: snapshotNetworkIndex_def snapshotMemberIndex_ok split: if_splits)

lemma mset_insert_by: "mset (insert_by lt x xs) = add_mset x (mset xs)"
  by (induction xs) auto

lemma mset_stable_sort: "mset (stable_sort lt xs) = mset xs"
  by (induction xs) (auto simp: stable_sort_def mset_insert_by)

locale weak_order =
  fixes lt :: "'a \<Rightarrow> 'a \<Rightarrow> bool"
  assumes lt_asym: "lt x y \<Longrightarrow> \<not> lt y x"
    and lt_neg_trans: "\<not> lt y x \<Longrightarrow> \<not> lt z y \<Longrightarrow> \<not> lt z x"
begin

lemma insert_by_sorted:
  "sorted_wrt (\<lambda>a b. \<not> lt b a) xs \<Longrightarrow> sorted_wrt (\<lambda>a b. \<not> lt b a) (insert_by lt x xs)"
proof (induction xs)
  case (Cons y ys)
  have ms: "set (insert_by lt x ys) = insert x (set ys)"
    by (metis mset_insert_by set_mset_add_mset_insert set_mset_mset)
  show ?case
  proof (cases "lt y x")
    case True
    then show ?thesis using Cons ms lt_asym by auto
  next
    case False
    then show ?thesis using Cons.prems lt_neg_trans by auto
  qed
qed simp

lemma stable_sort_sorted: "sorted_wrt (\<lambda>a b. \<not> lt b a) (stable_sort lt xs)"
  by (induction xs) (auto simp: stable_sort_def insert_by_sorted)

end

interpretation latency_order: weak_order "\<lambda>l r. latencyMemberLess cfg (h l) (h r)"
  by unfold_locales (auto simp: latencyMemberLess_def Let_def split: if_splits)

section \<open>Which members are offered\<close>

text \<open>The decision for one member, read off a state without changing it.\<close>

definition routable :: "pool_config \<Rightarrow> monitor_view option \<Rightarrow> gtime \<Rightarrow> pool_world \<Rightarrow> mref \<Rightarrow> bool" where
  "routable cfg mon now w r =
     (let m = pw_members w r; g = pc_GroupID cfg;
          snap = (case mon of None \<Rightarrow> None | Some mv \<Rightarrow> monitor_snapshot cfg mv m)
      in (case mon of None \<Rightarrow> True | Some mv \<Rightarrow> g = 0 \<and> \<not> mv_probeConfigured mv \<or>
            (case snap of None \<Rightarrow> False | Some sn \<Rightarrow> sn_RoutingEligible sn)) \<and>
         (g = 0 \<or> (if (case snap of None \<Rightarrow> False | Some sn \<Rightarrow> sn_Provisional sn)
                   then MemberNotEvicted g (mr_tag m) (pw_group w)
                   else fst (MemberAvailable g (mr_tag m) now (pw_group w)))) \<and>
         (case mr_shared m of None \<Rightarrow> True | Some a \<Rightarrow> \<not> fst (isBlacklisted now (ss_heap (pw_shared w) a))))"

text \<open>States that answer the same questions.\<close>

definition same_answers :: "gtime \<Rightarrow> pool_world \<Rightarrow> pool_world \<Rightarrow> bool" where
  "same_answers now w w' \<longleftrightarrow>
     (\<forall>r. mr_tag (pw_members w' r) = mr_tag (pw_members w r) \<and> mr_shared (pw_members w' r) = mr_shared (pw_members w r) \<and>
          mr_meta (pw_members w' r) = mr_meta (pw_members w r) \<and> mr_outbound (pw_members w' r) = mr_outbound (pw_members w r)) \<and>
     (\<forall>g t. MemberNotEvicted g t (pw_group w') = MemberNotEvicted g t (pw_group w) \<and>
            fst (MemberAvailable g t now (pw_group w')) = fst (MemberAvailable g t now (pw_group w))) \<and>
     (\<forall>a. fst (isBlacklisted now (ss_heap (pw_shared w') a)) = fst (isBlacklisted now (ss_heap (pw_shared w) a)))"

lemma same_answers_refl: "same_answers now w w"
  by (simp add: same_answers_def)

lemma same_answers_trans: "same_answers now w w' \<Longrightarrow> same_answers now w' w'' \<Longrightarrow> same_answers now w w''"
  by (simp add: same_answers_def)

lemma routable_cong:
  assumes "same_answers now w w'"
  shows "routable cfg mon now w' r = routable cfg mon now w r"
proof -
  have "memberMeta cfg (pw_members w' r) = memberMeta cfg (pw_members w r)"
    using assms by (simp add: same_answers_def memberMeta_def)
  then have "monitor_snapshot cfg mv (pw_members w' r) = monitor_snapshot cfg mv (pw_members w r)" for mv
    using assms by (simp add: same_answers_def monitor_snapshot_def Let_def)
  then show ?thesis using assms by (simp add: same_answers_def routable_def Let_def cong: option.case_cong)
qed

lemma pruneFailures_idem: "snd (pruneFailures (snd (pruneFailures m win now)) win now) = snd (pruneFailures m win now)"
  by (simp add: pruneFailures_def Let_def)

lemma MemberAvailable_answers:
  assumes "MemberAvailable g t now w = (b, w')"
  shows "MemberNotEvicted g' t' w' = MemberNotEvicted g' t' w"
    and "fst (MemberAvailable g' t' now w') = fst (MemberAvailable g' t' now w)"
proof -
  have "MemberNotEvicted g' t' w' = MemberNotEvicted g' t' w \<and>
      fst (MemberAvailable g' t' now w') = fst (MemberAvailable g' t' now w)"
  proof (cases "map_of (w_groups w) g")
    case None
    then show ?thesis using assms by (simp add: MemberAvailable_def)
  next
    case (Some r)
    show ?thesis
    proof (cases "map_of (gr_members r) t")
      case None
      then show ?thesis using assms Some by (simp add: MemberAvailable_def)
    next
      case (Some m)
      define m' where "m' = (if gm_evicted m then m else snd (pruneFailures m (gr_window r) now))"
      have same: "gm_evicted m' = gm_evicted m" "gm_standby m' = gm_standby m"
          "gm_evicted m \<or> snd (pruneFailures m' (gr_window r) now) = m'"
        by (auto simp: m'_def pruneFailures_def Let_def)
      have w': "w' = put_group g (set_member t m' r) w"
        using assms Some \<open>map_of (w_groups w) g = Some r\<close> by (simp add: MemberAvailable_def m'_def Let_def)
      have evicted: "m' = m" if "gm_evicted m" using that by (simp add: m'_def)
      have pruned: "m' = snd (pruneFailures m (gr_window r) now)" if "\<not> gm_evicted m" using that by (simp add: m'_def)
      show ?thesis
        using Some \<open>map_of (w_groups w) g = Some r\<close> same evicted pruned
        by (cases "gm_evicted m")
           (auto simp: w' MemberNotEvicted_def MemberAvailable_def put_group_def set_member_def member_usable_def Let_def
             split: option.split)
    qed
  qed
  then show "MemberNotEvicted g' t' w' = MemberNotEvicted g' t' w"
    and "fst (MemberAvailable g' t' now w') = fst (MemberAvailable g' t' now w)" by auto
qed

lemma shared_blacklisted_answers:
  assumes "shared_blacklisted now sh w = (b, w')"
  shows "same_answers now w w'" and "b = (case sh of None \<Rightarrow> False | Some a \<Rightarrow> fst (isBlacklisted now (ss_heap (pw_shared w) a)))"
proof -
  have "same_answers now w w' \<and> b = (case sh of None \<Rightarrow> False | Some a \<Rightarrow> fst (isBlacklisted now (ss_heap (pw_shared w) a)))"
  proof (cases sh)
    case None
    then show ?thesis using assms by (simp add: shared_blacklisted_def same_answers_refl)
  next
    case (Some a)
    obtain b' s1 cs where bl: "isBlacklisted now (ss_heap (pw_shared w) a) = (b', s1, cs)"
      by (cases "isBlacklisted now (ss_heap (pw_shared w) a)")
    then show ?thesis using assms Some isBlacklisted_stable [OF bl]
      by (auto simp: shared_blacklisted_def same_answers_def put_shared_def split: if_splits)
  qed
  then show "same_answers now w w'" and "b = (case sh of None \<Rightarrow> False | Some a \<Rightarrow> fst (isBlacklisted now (ss_heap (pw_shared w) a)))"
    by auto
qed

lemma available_routable:
  assumes "memberAvailableForSnapshot cfg mon now r w = (b, w')"
  shows "b = routable cfg mon now w r" and "same_answers now w w'"
proof -
  define m where "m = pw_members w r"
  define snap where "snap = (case mon of None \<Rightarrow> None | Some mv \<Rightarrow> monitor_snapshot cfg mv m)"
  define w1 where "w1 = (case snap of None \<Rightarrow> w
    | Some sn \<Rightarrow> w\<lparr>pw_members := (pw_members w)(r := m\<lparr>mr_latencyMs := sn_LastLatencyMs sn\<rparr>)\<rparr>)"
  have w1: "same_answers now w w1" "pw_group w1 = pw_group w" "pw_shared w1 = pw_shared w"
    by (auto simp: w1_def same_answers_def m_def split: option.split)
  obtain ok gw where gav: "MemberAvailable (pc_GroupID cfg) (mr_tag m) now (pw_group w1) = (ok, gw)" by fastforce
  have w2: "same_answers now w1 (w1\<lparr>pw_group := gw\<rparr>)"
    using MemberAvailable_answers [OF gav] by (simp add: same_answers_def)
  obtain b1 u1 where sb1: "shared_blacklisted now (mr_shared m) w1 = (b1, u1)" by fastforce
  obtain b2 u2 where sb2: "shared_blacklisted now (mr_shared m) (w1\<lparr>pw_group := gw\<rparr>) = (b2, u2)" by fastforce
  note u = shared_blacklisted_answers [OF sb1] shared_blacklisted_answers [OF sb2]
  define g where "g = pc_GroupID cfg"
  define gate where "gate = (case mon of None \<Rightarrow> False | Some mv \<Rightarrow> (g \<noteq> 0 \<or> mv_probeConfigured mv) \<and>
    (case snap of None \<Rightarrow> True | Some sn \<Rightarrow> \<not> sn_RoutingEligible sn))"
  define prov where "prov = (case snap of None \<Rightarrow> False | Some sn \<Rightarrow> sn_Provisional sn)"
  have eq: "memberAvailableForSnapshot cfg mon now r w =
      (if gate then (False, w1)
       else if g \<noteq> 0 \<and> prov then if MemberNotEvicted g (mr_tag m) (pw_group w1) then (\<not> b1, u1) else (False, w1)
       else if g \<noteq> 0 then if ok then (\<not> b2, u2) else (False, w1\<lparr>pw_group := gw\<rparr>)
       else (\<not> b1, u1))"
    using gav sb1 sb2
    unfolding memberAvailableForSnapshot_def Let_def m_def [symmetric] snap_def [symmetric] w1_def [symmetric]
      g_def [symmetric] gate_def [symmetric] prov_def [symmetric] by simp
  have gate: "gate \<longleftrightarrow> \<not> (case mon of None \<Rightarrow> True | Some mv \<Rightarrow> g = 0 \<and> \<not> mv_probeConfigured mv \<or>
      (case snap of None \<Rightarrow> False | Some sn \<Rightarrow> sn_RoutingEligible sn))"
    by (auto simp: gate_def split: option.split)
  have bl: "b1 = (\<not> (case mr_shared m of None \<Rightarrow> True | Some a \<Rightarrow> \<not> fst (isBlacklisted now (ss_heap (pw_shared w) a))))" "b2 = b1"
    using u(2,4) w1(3) by (auto split: option.split)
  have rt: "routable cfg mon now w r \<longleftrightarrow> \<not> gate \<and>
      (g = 0 \<or> (if prov then MemberNotEvicted g (mr_tag m) (pw_group w1) else ok)) \<and> \<not> b1"
    unfolding routable_def Let_def m_def [symmetric] snap_def [symmetric] g_def [symmetric] prov_def [symmetric] gate bl(1)
    using gav w1(2) by (simp add: g_def)
  have "w' \<in> {w1, u1, w1\<lparr>pw_group := gw\<rparr>, u2}" using assms unfolding eq by (auto split: if_splits)
  then show "same_answers now w w'"
    using same_answers_trans [OF w1(1)] same_answers_trans [OF same_answers_trans [OF w1(1) w2]] u w1(1) w2 by auto
  show "b = routable cfg mon now w r"
    using assms bl(2) unfolding eq rt by (auto split: if_splits)
qed

lemma eligibility_routable:
  assumes "eligibility cfg mon now rs w = (bs, w')"
  shows "bs = map (routable cfg mon now w) rs" and "same_answers now w w'"
proof -
  have "bs = map (routable cfg mon now w) rs \<and> same_answers now w w'"
    using assms
  proof (induction rs arbitrary: w bs w')
    case (Cons r rs)
    obtain b w1 where one: "memberAvailableForSnapshot cfg mon now r w = (b, w1)" by fastforce
    obtain cs w2 where two: "eligibility cfg mon now rs w1 = (cs, w2)" by fastforce
    note a = available_routable [OF one]
    from Cons.IH [OF two] have "cs = map (routable cfg mon now w1) rs" "same_answers now w1 w2" by auto
    then show ?case using Cons.prems one two a same_answers_trans [OF a(2)] routable_cong [OF a(2)] by auto
  qed (simp add: same_answers_refl)
  then show "bs = map (routable cfg mon now w) rs" and "same_answers now w w'" by auto
qed

section \<open>The published snapshot\<close>

definition view_of :: "pool_config \<Rightarrow> heap \<Rightarrow> string \<Rightarrow> (mref \<Rightarrow> bool) \<Rightarrow> mref list \<Rightarrow> mref list" where
  "view_of cfg h net ok members =
     (let vs = filter (\<lambda>r. ok r \<and> net \<in> set (member_networks cfg (h r))) members
      in if pc_mode cfg = modeLowestLatency then stable_sort (\<lambda>l r. latencyMemberLess cfg (h l) (h r)) vs else vs)"

lemma map2_map: "map2 f (map g xs) xs = map (\<lambda>x. f (g x) x) xs"
  by (induction xs) auto

lemma build_snapshot_views:
  assumes snap_def: "snap = build_snapshot cfg v h members (map ok members)"
  shows "snd (ps_Members snap) = filter ok members"
    and "snd (ps_tcpMembers snap) = view_of cfg h ''tcp'' ok members"
    and "snd (ps_udpMembers snap) = view_of cfg h ''udp'' ok members"
    and "index_ok (ps_memberIndex snap) (snd (ps_Members snap))"
    and "index_ok (ps_tcpIndex snap) (snd (ps_tcpMembers snap))"
    and "index_ok (ps_udpIndex snap) (snd (ps_udpMembers snap))"
proof -
  define al where "al = (0::nat, members)"
  define on where "on = (\<lambda>net. map2 (\<lambda>b r. b \<and> net \<in> set (member_networks cfg (h r))) (map ok members) members)"
  have on: "on net = map (\<lambda>r. ok r \<and> net \<in> set (member_networks cfg (h r))) members" for net
    by (simp add: on_def map2_map)
  define lt where "lt = (\<lambda>l r. latencyMemberLess cfg (h l) (h r))"
  define ms where "ms = narrow 1 al 0 (map ok members) al"
  define tcp where "tcp = narrow 2 al 0 (on ''tcp'') al"
  define udp where "udp = narrow 3 al 0 (on ''udp'') al"
  define tcp1 where "tcp1 = (if pc_mode cfg = modeLowestLatency then (4, stable_sort lt (snd tcp)) else tcp)"
  define udp1 where "udp1 = (if pc_mode cfg = modeLowestLatency then (5, stable_sort lt (snd udp)) else udp)"
  have base: "snd ms = filter ok members" "snd tcp1 = view_of cfg h ''tcp'' ok members" "snd udp1 = view_of cfg h ''udp'' ok members"
    by (simp_all add: ms_def tcp1_def udp1_def tcp_def udp_def al_def on narrow_kept kept_map2 view_of_def lt_def Let_def)
  define mix where "mix = snapshotMemberIndex (snd ms)"
  have mix: "index_ok mix (snd ms)" by (simp add: mix_def snapshotMemberIndex_ok)
  obtain tcp2 tix where t: "snapshotNetworkIndex tcp1 ms mix = (tcp2, tix)" by fastforce
  obtain udp2 uix where u: "snapshotNetworkIndex udp1 tcp2 tix = (udp2, uix)" by fastforce
  note T = networkIndex_ok [OF t mix]
  note U = networkIndex_ok [OF u conjunct2 [OF T]]
  have snap: "snap = \<lparr>ps_Version = v, ps_mode = pc_mode cfg, ps_Members = ms, ps_tcpMembers = tcp2,
      ps_udpMembers = (if snd udp2 = snd ms then ms else udp2), ps_allMembers = al, ps_memberIndex = mix, ps_tcpIndex = tix,
      ps_udpIndex = (if snd udp2 = snd ms then mix else uix)\<rparr>"
    unfolding snap_def build_snapshot_def Let_def al_def [symmetric] on_def [symmetric] ms_def [symmetric] tcp_def [symmetric]
      udp_def [symmetric] lt_def [symmetric] tcp1_def [symmetric] udp1_def [symmetric] mix_def [symmetric]
    by (simp add: t u)
  show "snd (ps_Members snap) = filter ok members" "snd (ps_tcpMembers snap) = view_of cfg h ''tcp'' ok members"
    "snd (ps_udpMembers snap) = view_of cfg h ''udp'' ok members" "index_ok (ps_memberIndex snap) (snd (ps_Members snap))"
    "index_ok (ps_tcpIndex snap) (snd (ps_tcpMembers snap))" "index_ok (ps_udpIndex snap) (snd (ps_udpMembers snap))"
    using base mix T U by (auto simp: snap)
qed

text \<open>Slices of one snapshot that share an array have the same elements.\<close>

lemma narrow_array:
  assumes "length bs = length al" and "fresh \<noteq> 0"
  shows "narrow fresh (0, al) 0 bs (0, al) \<in> {(0, al), (fresh, kept al bs)}"
  using narrow_narrowed [of fresh al "[]" "(0, al)" bs] assms by (auto simp: narrowed_def)

lemma network_index_slice: "fst (snapshotNetworkIndex ms ex ix) \<in> {ms, ex}"
  by (simp add: snapshotNetworkIndex_def)

lemma build_snapshot_arrays:
  assumes snap_def: "snap = build_snapshot cfg v h members (map ok members)"
  shows "\<exists>content. \<forall>s \<in> {ps_Members snap, ps_tcpMembers snap, ps_udpMembers snap}. snd s = content (fst s)"
proof -
  define al where "al = (0::nat, members)"
  define on where "on = (\<lambda>net. map2 (\<lambda>b r. b \<and> net \<in> set (member_networks cfg (h r))) (map ok members) members)"
  define lt where "lt = (\<lambda>l r. latencyMemberLess cfg (h l) (h r))"
  define ms where "ms = narrow 1 al 0 (map ok members) al"
  define tcp where "tcp = narrow 2 al 0 (on ''tcp'') al"
  define udp where "udp = narrow 3 al 0 (on ''udp'') al"
  define tcp1 where "tcp1 = (if pc_mode cfg = modeLowestLatency then (4, stable_sort lt (snd tcp)) else tcp)"
  define udp1 where "udp1 = (if pc_mode cfg = modeLowestLatency then (5, stable_sort lt (snd udp)) else udp)"
  define content where "content = (\<lambda>i::nat. if i = 0 then members else if i = 1 then kept members (map ok members)
    else if i = 2 then kept members (on ''tcp'') else if i = 3 then kept members (on ''udp'')
    else if i = 4 then stable_sort lt (snd tcp) else stable_sort lt (snd udp))"
  have "ms \<in> {(0, members), (1, kept members (map ok members))}" "tcp \<in> {(0, members), (2, kept members (on ''tcp''))}"
      "udp \<in> {(0, members), (3, kept members (on ''udp''))}"
    unfolding ms_def tcp_def udp_def al_def by (rule narrow_array; simp add: on_def)+
  then have c: "snd ms = content (fst ms)" "snd tcp = content (fst tcp)" "snd udp = content (fst udp)"
    by (elim insertE emptyE; simp add: content_def)+
  have "content 4 = stable_sort lt (snd tcp)" "content 5 = stable_sort lt (snd udp)" by (simp_all add: content_def)
  then have base: "\<forall>s \<in> {ms, tcp1, udp1}. snd s = content (fst s)"
    using c by (simp add: tcp1_def udp1_def)
  obtain tcp2 tix where t: "snapshotNetworkIndex tcp1 ms (snapshotMemberIndex (snd ms)) = (tcp2, tix)" by fastforce
  obtain udp2 uix where u: "snapshotNetworkIndex udp1 tcp2 tix = (udp2, uix)" by fastforce
  have "tcp2 \<in> {tcp1, ms}" "udp2 \<in> {udp1, tcp2}"
    using network_index_slice [of tcp1 ms "snapshotMemberIndex (snd ms)"] network_index_slice [of udp1 tcp2 tix] by (simp_all add: t u)
  moreover have "ps_Members snap = ms \<and> ps_tcpMembers snap = tcp2 \<and> ps_udpMembers snap \<in> {udp2, ms}"
    unfolding snap_def build_snapshot_def Let_def al_def [symmetric] on_def [symmetric] ms_def [symmetric] tcp_def [symmetric]
      udp_def [symmetric] lt_def [symmetric] tcp1_def [symmetric] udp1_def [symmetric]
    by (simp add: t u)
  ultimately show ?thesis using base by (intro exI [of _ content]) auto
qed

lemma set_view_of: "r \<in> set (view_of cfg h net ok members) \<longleftrightarrow> r \<in> set members \<and> ok r \<and> net \<in> set (member_networks cfg (h r))"
proof -
  have "set (stable_sort lt xs) = set xs" for lt and xs :: "mref list"
    by (metis mset_stable_sort set_mset_mset)
  then show ?thesis by (auto simp: view_of_def Let_def)
qed

text \<open>C36: a snapshot offers exactly the members that may carry traffic, in the order of the policy. A
  member is in the TCP view when it is in the topology, its outbound carries TCP, the monitor finds
  it eligible where it has a say, its group finds it available and it is not blacklisted; likewise for
  UDP. Under the lowest-latency policy no member stands behind a slower one, otherwise the views keep
  the order of the topology, and the index maps locate every member of their view.\<close>

theorem snapshot_offers_usable_members:
  assumes "publishSnapshotLocked cfg mon now previous members w = (snap, w')"
  shows "snd (ps_tcpMembers snap) = view_of cfg (pw_members w') ''tcp'' (routable cfg mon now w) members \<and>
    snd (ps_udpMembers snap) = view_of cfg (pw_members w') ''udp'' (routable cfg mon now w) members \<and>
    (r \<in> set (snd (ps_tcpMembers snap)) \<longleftrightarrow>
       r \<in> set members \<and> routable cfg mon now w r \<and> ''tcp'' \<in> set (member_networks cfg (pw_members w r))) \<and>
    (pc_mode cfg = modeLowestLatency \<longrightarrow>
       sorted_wrt (\<lambda>a b. \<not> latencyMemberLess cfg (pw_members w' b) (pw_members w' a)) (snd (ps_tcpMembers snap))) \<and>
    index_ok (ps_tcpIndex snap) (snd (ps_tcpMembers snap)) \<and> index_ok (ps_udpIndex snap) (snd (ps_udpMembers snap))"
proof -
  obtain bs where el: "eligibility cfg mon now members w = (bs, w')"
    and snap: "snap = build_snapshot cfg (case previous of None \<Rightarrow> 1 | Some p \<Rightarrow> ps_Version p + 1) (pw_members w') members bs"
    using assms by (auto simp: publishSnapshotLocked_def Let_def split: prod.splits)
  note e = eligibility_routable [OF el]
  note v = build_snapshot_views [OF snap [unfolded e(1)]]
  have "member_networks cfg (pw_members w' r) = member_networks cfg (pw_members w r)"
    using e(2) by (simp add: same_answers_def member_networks_def)
  moreover have "pc_mode cfg = modeLowestLatency \<Longrightarrow>
      sorted_wrt (\<lambda>a b. \<not> latencyMemberLess cfg (pw_members w' b) (pw_members w' a)) (view_of cfg (pw_members w') ''tcp'' (routable cfg mon now w) members)"
    using latency_order.stable_sort_sorted [of cfg "pw_members w'"] by (simp add: view_of_def Let_def)
  ultimately show ?thesis using v by (simp add: set_view_of)
qed


section \<open>A concrete pool\<close>

text \<open>Three members of the base pool; the monitor finds the first two eligible, the third has no evidence.
  The first is slower than the second.\<close>

definition demo_heap :: heap where
  "demo_heap r = \<lparr>mr_outbound = Some r, mr_tag = (if r = 1 then ''m1'' else if r = 2 then ''m2'' else ''m3''), mr_shared = Some r,
     mr_meta = zero_meta\<lparr>mm_NodeID := int r\<rparr>, mr_latencyMs = -1\<rparr>"

definition demo_pool_config :: "string \<Rightarrow> pool_config" where
  "demo_pool_config mode = \<lparr>pc_GroupID = 0, pc_MonitorObserverOnly = False, pc_Metadata = [], pc_mode = mode,
     pc_networks = (\<lambda>_. [''tcp''])\<rparr>"

definition demo_monitor :: monitor_view where
  "demo_monitor = \<lparr>mv_probeConfigured = True,
     mv_forTag = (\<lambda>t. if t = ''m1'' then Some \<lparr>sn_LastLatencyMs = 90, sn_RoutingEligible = True, sn_Provisional = False, sn_InitialCheckDone = True\<rparr>
        else if t = ''m2'' then Some \<lparr>sn_LastLatencyMs = 40, sn_RoutingEligible = True, sn_Provisional = False, sn_InitialCheckDone = True\<rparr>
        else None),
     mv_forNodeID = (\<lambda>_. None)\<rparr>"

definition demo_pool_world :: pool_world where
  "demo_pool_world = \<lparr>pw_members = demo_heap, pw_shared = \<lparr>ss_byTag = [], ss_heap = (\<lambda>_. blank_shared), ss_next = 9\<rparr>,
     pw_group = initial_world, pw_calls = []\<rparr>"

definition demo_published :: "PoolSnapshot \<times> pool_world" where
  "demo_published = publishSnapshotLocked (demo_pool_config modeLowestLatency) (Some demo_monitor) 5 None [1, 2, 3] demo_pool_world"

theorem snapshot_offers_usable_members_witness:
  "snd (ps_tcpMembers (fst demo_published)) = [2, 1] \<and>
   snd (ps_tcpMembers (fst demo_published)) = view_of (demo_pool_config modeLowestLatency) (pw_members (snd demo_published)) ''tcp''
     (routable (demo_pool_config modeLowestLatency) (Some demo_monitor) 5 demo_pool_world) [1, 2, 3]"
proof
  show "snd (ps_tcpMembers (fst demo_published)) = [2, 1]" by code_simp
  have "publishSnapshotLocked (demo_pool_config modeLowestLatency) (Some demo_monitor) 5 None [1, 2, 3] demo_pool_world =
      (fst demo_published, snd demo_published)" by (simp add: demo_published_def)
  from snapshot_offers_usable_members [OF this]
  show "snd (ps_tcpMembers (fst demo_published)) = view_of (demo_pool_config modeLowestLatency) (pw_members (snd demo_published)) ''tcp''
     (routable (demo_pool_config modeLowestLatency) (Some demo_monitor) 5 demo_pool_world) [1, 2, 3]" by blast
qed

end
