(* ===== verification/Pool_Selection.thy ===== *)
theory Pool_Selection
  imports Pool_Views "HOL-Library.Word"
begin

text \<open>
  The data path of a pool, \<open>src/internal/outbound/pool/pool.go\<close>: the selection policies over a
  snapshot, the attempt cursor and the dial loop of \<open>DialContext\<close> and \<open>ListenPacket\<close>. The counters
  keep their widths. Random words of the two-choice policy, the selector and the dial of an outbound
  are external and appear as arguments.
\<close>

unbundle bit_operations_syntax

record data_path =
  dp_rrCounter :: "32 word"
  dp_randomState :: "64 word"
  dp_currentMember :: "mref option"
  dp_modeAtomic :: "string option"
  dp_mode :: string

definition dataPathMode :: "data_path \<Rightarrow> PoolSnapshot \<Rightarrow> string" where
  "dataPathMode dp snap = (if ps_mode snap \<noteq> [] then ps_mode snap
     else case dp_modeAtomic dp of Some m \<Rightarrow> m | None \<Rightarrow> dp_mode dp)"

definition nextRandom :: "64 word \<Rightarrow> 64 word" where
  "nextRandom old =
     (let a = old XOR push_bit 13 old; b = a XOR drop_bit 7 a; c = b XOR push_bit 17 b
      in if c = 0 then 0x9e3779b97f4a7c15 else c)"

section \<open>Policies\<close>

fun balance_loop :: "(mref \<Rightarrow> int) \<Rightarrow> nat \<Rightarrow> nat \<Rightarrow> int \<Rightarrow> mref list \<Rightarrow> nat" where
  "balance_loop active i selected minActive [] = selected"
| "balance_loop active i selected minActive (m # ms) =
     (if active m = 0 then i
      else if i = 0 \<or> active m < minActive then balance_loop active (Suc i) i (active m) ms
      else balance_loop active (Suc i) selected minActive ms)"

definition twoChoiceIndex :: "(mref \<Rightarrow> int) \<Rightarrow> mref list \<Rightarrow> 64 word \<Rightarrow> nat" where
  "twoChoiceIndex active cs random =
     (if length cs = 1 then 0
      else let first = unat (ucast random :: 32 word) mod length cs;
               second0 = unat (drop_bit 32 random) mod (length cs - 1);
               second = (if second0 \<ge> first then second0 + 1 else second0)
           in if active (cs ! second) < active (cs ! first) then second else first)"

fun first_position :: "nat \<Rightarrow> mref option \<Rightarrow> mref list \<Rightarrow> nat option" where
  "first_position i p [] = None"
| "first_position i p (m # ms) = (if p = Some m then Some i else first_position (Suc i) p ms)"

text \<open>The index of a caller's own list: the first occurrence of a member counts.\<close>

definition own_index :: "mref list \<Rightarrow> index" where
  "own_index cs = (\<lambda>m. first_position 0 (Some m) cs)"

definition candidate_index :: "PoolSnapshot \<Rightarrow> slice \<Rightarrow> index" where
  "candidate_index snap cs =
     (if sameCandidateSlice cs (ps_tcpMembers snap) then ps_tcpIndex snap
      else if sameCandidateSlice cs (ps_udpMembers snap) then ps_udpIndex snap
      else if sameCandidateSlice cs (ps_Members snap) then ps_memberIndex snap
      else own_index (snd cs))"

fun fixed_walk :: "mref list \<Rightarrow> index \<Rightarrow> nat \<Rightarrow> nat list \<Rightarrow> nat" where
  "fixed_walk al ix prev [] = 0"
| "fixed_walk al ix prev (offset # offsets) =
     (case ix (al ! ((prev + offset) mod length al)) of Some i \<Rightarrow> i | None \<Rightarrow> fixed_walk al ix prev offsets)"

definition nextFixedIndex :: "PoolSnapshot \<Rightarrow> slice \<Rightarrow> mref option \<Rightarrow> nat" where
  "nextFixedIndex snap cs previous =
     (let al = snd (ps_allMembers snap)
      in case first_position 0 previous al of None \<Rightarrow> 0
         | Some prev \<Rightarrow> fixed_walk al (candidate_index snap cs) prev [1..<length al + 1])"

definition points_at :: "index \<Rightarrow> mref \<Rightarrow> mref list \<Rightarrow> nat option" where
  "points_at ix m cs = (case ix m of None \<Rightarrow> None | Some i \<Rightarrow> if i < length cs \<and> cs ! i = m then Some i else None)"

definition current_index :: "PoolSnapshot \<Rightarrow> mref option \<Rightarrow> mref list \<Rightarrow> nat option" where
  "current_index snap current cs = (case current of None \<Rightarrow> None
     | Some m \<Rightarrow> (case points_at (ps_memberIndex snap) m cs of Some i \<Rightarrow> Some i
         | None \<Rightarrow> (case points_at (ps_tcpIndex snap) m cs of Some i \<Rightarrow> Some i
             | None \<Rightarrow> points_at (ps_udpIndex snap) m cs)))"

definition selectionIndex :: "(mref \<Rightarrow> int) \<Rightarrow> 64 word \<Rightarrow> PoolSnapshot \<Rightarrow> slice \<Rightarrow> data_path \<Rightarrow> nat \<times> data_path" where
  "selectionIndex active random snap cs dp =
     (let mode = dataPathMode dp snap; n = length (snd cs)
      in if mode = modeRandom
         then (let r = nextRandom (dp_randomState dp) in (unat r mod n, dp\<lparr>dp_randomState := r\<rparr>))
         else if mode = modeBalance then (balance_loop active 0 0 0 (snd cs), dp)
         else if mode = modeBalanceP2C then (twoChoiceIndex active (snd cs) random, dp)
         else if mode = modeFixed \<or> mode = modeLowestLatency
         then (case current_index snap (dp_currentMember dp) (snd cs) of Some i \<Rightarrow> (i, dp)
               | None \<Rightarrow> (if mode = modeLowestLatency then 0 else nextFixedIndex snap cs (dp_currentMember dp), dp))
         else (unat (dp_rrCounter dp) mod n, dp\<lparr>dp_rrCounter := dp_rrCounter dp + 1\<rparr>))"

fun best_latency :: "pool_config \<Rightarrow> heap \<Rightarrow> mref list \<Rightarrow> nat \<Rightarrow> nat list \<Rightarrow> nat" where
  "best_latency cfg h cs best [] = best"
| "best_latency cfg h cs best (i # is) =
     best_latency cfg h cs (if latencyMemberLess cfg (h (cs ! i)) (h (cs ! best)) then i else best) is"

definition selectMember :: "pool_config \<Rightarrow> heap \<Rightarrow> (mref \<Rightarrow> int) \<Rightarrow> 64 word \<Rightarrow> PoolSnapshot \<Rightarrow> slice \<Rightarrow> data_path \<Rightarrow> mref \<times> data_path" where
  "selectMember cfg h active random snap cs dp =
     (if dataPathMode dp snap = modeLowestLatency \<and> \<not> sameCandidateSlice cs (ps_tcpMembers snap) \<and>
         \<not> sameCandidateSlice cs (ps_udpMembers snap)
      then (case dp_currentMember dp of
              Some c \<Rightarrow> if c \<in> set (snd cs) then (c, dp) else (snd cs ! best_latency cfg h (snd cs) 0 [1..<length (snd cs)], dp)
            | None \<Rightarrow> (snd cs ! best_latency cfg h (snd cs) 0 [1..<length (snd cs)], dp))
      else let (i, dp1) = selectionIndex active random snap cs dp in (snd cs ! i, dp1))"

section \<open>Attempts\<close>

record attemptCursor =
  ac_members :: "mref list"
  ac_start :: nat
  ac_used :: nat

definition cursor_next :: "attemptCursor \<Rightarrow> (mref \<times> attemptCursor) option" where
  "cursor_next c = (if ac_used c \<ge> length (ac_members c) then None
     else Some (ac_members c ! ((ac_start c + ac_used c) mod length (ac_members c)), c\<lparr>ac_used := ac_used c + 1\<rparr>))"

definition newAttemptCursor :: "(mref \<Rightarrow> int) \<Rightarrow> 64 word \<Rightarrow> PoolSnapshot \<Rightarrow> string \<Rightarrow> data_path \<Rightarrow>
    (string + attemptCursor) \<times> data_path" where
  "newAttemptCursor active random snap network dp =
     (let ms = (if network = ''udp'' then ps_udpMembers snap else ps_tcpMembers snap)
      in if snd ms = [] then (Inl ''no healthy proxy available'', dp)
         else let (i, dp1) = selectionIndex active random snap ms dp
              in (Inr \<lparr>ac_members = snd ms, ac_start = i, ac_used = 0\<rparr>, dp1))"

section \<open>What the policies choose\<close>

definition least_at :: "(mref \<Rightarrow> int) \<Rightarrow> mref list \<Rightarrow> nat \<Rightarrow> bool" where
  "least_at active xs k \<longleftrightarrow> k < length xs \<and> (\<forall>j < length xs. active (xs ! k) \<le> active (xs ! j)) \<and>
     (\<forall>j < k. active (xs ! k) < active (xs ! j))"

lemma least_at_snoc:
  assumes "least_at active ps k"
  shows "least_at active (ps @ [m]) (if active m < active (ps ! k) then length ps else k)"
  using assms by (auto simp: least_at_def nth_append less_Suc_eq)

lemma balance_loop_least:
  assumes "\<forall>m. 0 \<le> active m" and "\<forall>m \<in> set ps. active m \<noteq> 0"
    and "ps \<noteq> [] \<longrightarrow> least_at active ps sel \<and> minA = active (ps ! sel)" and "ps @ ms \<noteq> []"
  shows "least_at active (ps @ ms) (balance_loop active (length ps) sel minA ms)"
  using assms
proof (induction ms arbitrary: ps sel minA)
  case Nil
  then show ?case by simp
next
  case (Cons m ms)
  show ?case
  proof (cases "active m = 0")
    case True
    have "0 < active (ps ! j)" if "j < length ps" for j
      using Cons.prems(1,2) nth_mem [OF that] by (metis order_le_less)
    then show ?thesis using True Cons.prems(1) by (auto simp: least_at_def nth_append)
  next
    case False
    define sel' where "sel' = (if ps = [] \<or> active m < minA then length ps else sel)"
    define min' where "min' = (if ps = [] \<or> active m < minA then active m else minA)"
    have inv: "least_at active (ps @ [m]) sel' \<and> min' = active ((ps @ [m]) ! sel')"
    proof (cases "ps = []")
      case True
      then show ?thesis by (simp add: least_at_def sel'_def min'_def)
    next
      case ne: False
      then have l: "least_at active ps sel" "minA = active (ps ! sel)" using Cons.prems(3) by auto
      then show ?thesis using least_at_snoc [OF l(1), of m] ne by (auto simp: sel'_def min'_def nth_append least_at_def)
    qed
    have "least_at active ((ps @ [m]) @ ms) (balance_loop active (length (ps @ [m])) sel' min' ms)"
      by (rule Cons.IH) (use Cons.prems False inv in auto)
    moreover have "balance_loop active (length ps) sel minA (m # ms) = balance_loop active (length (ps @ [m])) sel' min' ms"
      using False by (auto simp: sel'_def min'_def)
    ultimately show ?thesis by simp
  qed
qed

lemma twoChoice_two:
  assumes "2 \<le> length cs"
  shows "\<exists>j. j \<noteq> twoChoiceIndex active cs random \<and> j < length cs \<and> twoChoiceIndex active cs random < length cs \<and>
    active (cs ! twoChoiceIndex active cs random) \<le> active (cs ! j)"
proof -
  define first where "first = unat (ucast random :: 32 word) mod length cs"
  define second0 where "second0 = unat (drop_bit 32 random) mod (length cs - 1)"
  define second where "second = (if second0 \<ge> first then second0 + 1 else second0)"
  have "first < length cs" "second0 < length cs - 1" using assms by (auto simp: first_def second0_def intro!: mod_less_divisor)
  then have b: "first < length cs" "second < length cs" "second \<noteq> first" by (auto simp: second_def)
  have "twoChoiceIndex active cs random = (if active (cs ! second) < active (cs ! first) then second else first)"
    using assms unfolding twoChoiceIndex_def Let_def first_def [symmetric] second0_def [symmetric] second_def [symmetric] by simp
  then show ?thesis using b by (cases "active (cs ! second) < active (cs ! first)") (auto intro: exI [of _ first] exI [of _ second])
qed

lemma twoChoice_range: "cs \<noteq> [] \<Longrightarrow> twoChoiceIndex active cs random < length cs"
  using twoChoice_two [of cs active random] by (cases cs; cases "tl cs") (auto simp: twoChoiceIndex_def)

lemma first_position_Some:
  "first_position i p ms = Some k \<Longrightarrow> i \<le> k \<and> k < i + length ms \<and> p = Some (ms ! (k - i))"
proof (induction ms arbitrary: i)
  case (Cons m ms)
  show ?case
  proof (cases "p = Some m")
    case False
    with Cons.prems have "first_position (Suc i) p ms = Some k" by simp
    from Cons.IH [OF this] have "Suc i \<le> k" "k < Suc i + length ms" "p = Some (ms ! (k - Suc i))" by auto
    moreover from this have "k - i = Suc (k - Suc i)" by simp
    ultimately show ?thesis by simp
  qed (use Cons.prems in auto)
qed simp

lemma first_position_mem: "m \<in> set ms \<Longrightarrow> \<exists>k. first_position i (Some m) ms = Some k"
  by (induction ms arbitrary: i) auto

lemma own_index_ok: "index_ok (own_index cs) cs"
  using first_position_Some [of 0 _ cs] first_position_mem [of _ cs 0] by (fastforce simp: index_ok_def own_index_def)

lemma points_at_Some: "points_at ix m cs = Some i \<Longrightarrow> i < length cs \<and> cs ! i = m"
  by (auto simp: points_at_def split: option.splits if_splits)

lemma points_at_mem: "index_ok ix cs \<Longrightarrow> m \<in> set cs \<Longrightarrow> points_at ix m cs \<noteq> None"
  by (fastforce simp: index_ok_def points_at_def split: option.splits)

lemma index_ok_None: "index_ok ix cs \<Longrightarrow> m \<notin> set cs \<Longrightarrow> ix m = None"
proof (cases "ix m")
  case (Some i)
  moreover assume "index_ok ix cs" "m \<notin> set cs"
  ultimately show ?thesis using nth_mem [of i cs] by (auto simp: index_ok_def)
qed

text \<open>From the previous member on, the walk takes the first candidate in topology order.\<close>

lemma fixed_walk_find:
  assumes "index_ok ix cs"
  shows "fixed_walk al ix prev os = (case find (\<lambda>k. al ! ((prev + k) mod length al) \<in> set cs) os of
    None \<Rightarrow> 0 | Some k \<Rightarrow> the (ix (al ! ((prev + k) mod length al))))"
proof (induction os)
  case (Cons k os)
  show ?case
  proof (cases "al ! ((prev + k) mod length al) \<in> set cs")
    case True
    then obtain i where "ix (al ! ((prev + k) mod length al)) = Some i" using assms by (auto simp: index_ok_def)
    then show ?thesis using True by simp
  next
    case False
    then show ?thesis using Cons.IH index_ok_None [OF assms False] by simp
  qed
qed simp

text \<open>The member that follows a given one in the topology, among the candidates.\<close>

definition next_after :: "mref list \<Rightarrow> mref list \<Rightarrow> nat \<Rightarrow> mref option" where
  "next_after al cs prev = map_option (\<lambda>k. al ! ((prev + k) mod length al))
     (find (\<lambda>k. al ! ((prev + k) mod length al) \<in> set cs) [1..<length al + 1])"

lemma fixed_walk_next:
  assumes "index_ok ix cs" and "cs \<noteq> []"
  shows "fixed_walk al ix prev [1..<length al + 1] < length cs"
    and "next_after al cs prev = Some m \<Longrightarrow> cs ! fixed_walk al ix prev [1..<length al + 1] = m"
proof -
  have hit: "the (ix x) < length cs \<and> cs ! the (ix x) = x" if "x \<in> set cs" for x
  proof -
    from that assms(1) obtain i where "ix x = Some i" by (auto simp: index_ok_def)
    then show ?thesis using assms(1) by (simp add: index_ok_def)
  qed
  show "fixed_walk al ix prev [1..<length al + 1] < length cs"
    unfolding fixed_walk_find [OF assms(1)] using hit find_SomeD assms(2) by (fastforce split: option.split)
  show "cs ! fixed_walk al ix prev [1..<length al + 1] = m" if "next_after al cs prev = Some m"
  proof -
    from that obtain k where k: "find (\<lambda>k. al ! ((prev + k) mod length al) \<in> set cs) [1..<length al + 1] = Some k"
        "m = al ! ((prev + k) mod length al)" by (auto simp: next_after_def)
    then show ?thesis unfolding fixed_walk_find [OF assms(1)] using hit find_SomeD [OF k(1)] by simp
  qed
qed

section \<open>Selection over a published snapshot\<close>

lemma published_build:
  assumes "publishSnapshotLocked cfg mon now previous members w = (snap, w')"
  obtains v where "snap = build_snapshot cfg v (pw_members w') members (map (routable cfg mon now w) members)"
proof -
  obtain bs where el: "eligibility cfg mon now members w = (bs, w')"
    and snap: "snap = build_snapshot cfg (case previous of None \<Rightarrow> 1 | Some p \<Rightarrow> ps_Version p + 1) (pw_members w') members bs"
    using assms by (auto simp: publishSnapshotLocked_def Let_def split: prod.splits)
  show ?thesis using that snap unfolding eligibility_routable(1) [OF el] by blast
qed

lemma candidate_index_ok:
  assumes snap: "snap = build_snapshot cfg v h members (map ok members)" and "cs \<in> {ps_tcpMembers snap, ps_udpMembers snap}"
  shows "index_ok (candidate_index snap cs) (snd cs)"
proof -
  obtain content where content: "\<forall>s \<in> {ps_Members snap, ps_tcpMembers snap, ps_udpMembers snap}. snd s = content (fst s)"
    using build_snapshot_arrays [OF snap] by blast
  have same: "snd cs = snd s" if "sameCandidateSlice cs s" "s \<in> {ps_Members snap, ps_tcpMembers snap, ps_udpMembers snap}" for s
    using that assms(2) content by (auto simp: sameCandidateSlice_def)
  show ?thesis
    using build_snapshot_views(4-6) [OF snap] same own_index_ok [of "snd cs"] by (auto simp: candidate_index_def)
qed

lemma current_index_Some: "current_index snap (Some m) cs = Some i \<Longrightarrow> i < length cs \<and> cs ! i = m"
  by (auto simp: current_index_def dest: points_at_Some split: option.splits)

lemma current_index_mem:
  assumes snap: "snap = build_snapshot cfg v h members (map ok members)" and "cs \<in> {ps_tcpMembers snap, ps_udpMembers snap}"
    and "m \<in> set (snd cs)"
  shows "\<exists>i. current_index snap (Some m) (snd cs) = Some i"
proof -
  have "points_at (ps_tcpIndex snap) m (snd cs) \<noteq> None \<or> points_at (ps_udpIndex snap) m (snd cs) \<noteq> None"
    using assms(2,3) build_snapshot_views(5,6) [OF snap] points_at_mem by blast
  then show ?thesis by (auto simp: current_index_def split: option.split)
qed

lemma current_index_None: "m \<notin> set cs \<Longrightarrow> current_index snap (Some m) cs = None"
  using current_index_Some [of snap m cs] nth_mem by (cases "current_index snap (Some m) cs") force+

lemma selection_range:
  assumes "snap = build_snapshot cfg v h members (map ok members)" and "cs \<in> {ps_tcpMembers snap, ps_udpMembers snap}"
    and "snd cs \<noteq> []" and "\<forall>m. 0 \<le> active m" and "selectionIndex active random snap cs dp = (i, dp')"
  shows "i < length (snd cs)"
proof -
  have bal: "balance_loop active 0 0 0 (snd cs) < length (snd cs)"
    using balance_loop_least [of active "[]" 0 0 "snd cs"] assms(3,4) by (simp add: least_at_def)
  have fixed: "nextFixedIndex snap cs p < length (snd cs)" for p
    using fixed_walk_next(1) [OF candidate_index_ok [OF assms(1,2)] assms(3)] assms(3)
    by (auto simp: nextFixedIndex_def Let_def split: option.split)
  have cur: "current_index snap c (snd cs) = Some k \<Longrightarrow> k < length (snd cs)" for c k
    using current_index_Some [of snap _ "snd cs" k] by (cases c) (auto simp: current_index_def)
  show ?thesis
    using assms(3,5) bal fixed cur twoChoice_range [of "snd cs" active random]
    by (auto simp: selectionIndex_def Let_def split: if_splits option.splits)
qed


text \<open>With the faster member as the current one, lowest latency stays with it.\<close>

definition demo_path :: data_path where
  "demo_path = \<lparr>dp_rrCounter = 0, dp_randomState = 1, dp_currentMember = Some 1, dp_modeAtomic = None, dp_mode = modeLowestLatency\<rparr>"


end
