(* ===== verification/Pool_Dial.thy ===== *)
theory Pool_Dial
  imports Pool_Selection
begin

text \<open>
  The dial loop of a pool, \<open>DialContext\<close> and \<open>ListenPacket\<close> of \<open>src/internal/outbound/pool/pool.go\<close>, with
  what one attempt does to the shared state, the group runtime and the current member. The
  environment of a dial gives, per attempt, the outcome of the outbound's own dial, the error of the
  caller's context afterwards and the time. Timers a failure sets and the rebuild it asks for are
  events; a rebuild publishes a new snapshot and does not touch the one a dial holds.
\<close>

datatype pool_event = RebuildNow | ExpiryIn duration

record dial_config =
  dc_pool :: pool_config
  dc_subscribed :: bool
  dc_failureThreshold :: int
  dc_optThreshold :: int
  dc_failureWindow :: duration
  dc_optWindow :: duration
  dc_blacklistDuration :: duration
  dc_selector :: "(string \<Rightarrow> bool) option"

record dial_world =
  dw_pool :: pool_world
  dw_path :: data_path
  dw_waitForInitialLatency :: bool
  dw_events :: "pool_event list"
  dw_operations :: "mref \<Rightarrow> int"

datatype dial_outcome = Connected | Failed string bool

record dial_env =
  de_dial :: "nat \<Rightarrow> mref \<Rightarrow> dial_outcome"
  de_ctxErr :: "nat \<Rightarrow> string option"
  de_now :: "nat \<Rightarrow> gtime"

datatype dial_error = NoHealthyProxy | AllFailed string | ContextError string

definition on_shared :: "(sharedMemberState \<Rightarrow> sharedMemberState \<times> entry_call list) \<Rightarrow> mref \<Rightarrow> pool_world \<Rightarrow> pool_world" where
  "on_shared f r w = (case mr_shared (pw_members w r) of None \<Rightarrow> w
     | Some a \<Rightarrow> let (s1, cs) = f (ss_heap (pw_shared w) a)
                 in w\<lparr>pw_shared := put_shared a s1 (pw_shared w), pw_calls := pw_calls w @ cs\<rparr>)"

definition pool_incActive :: "mref \<Rightarrow> pool_world \<Rightarrow> pool_world" where "pool_incActive = on_shared incActive"
definition pool_decActive :: "mref \<Rightarrow> pool_world \<Rightarrow> pool_world" where "pool_decActive = on_shared decActive"

definition member_active :: "pool_world \<Rightarrow> mref \<Rightarrow> int" where
  "member_active w r = (case mr_shared (pw_members w r) of None \<Rightarrow> 0 | Some a \<Rightarrow> activeCount (ss_heap (pw_shared w) a))"

definition currentFailureThreshold :: "dial_config \<Rightarrow> int" where
  "currentFailureThreshold dc =
     (let t = (if dc_failureThreshold dc \<le> 0 then dc_optThreshold dc else dc_failureThreshold dc) in if t \<le> 0 then 3 else t)"

definition currentFailureWindow :: "dial_config \<Rightarrow> duration" where
  "currentFailureWindow dc = (if dc_failureWindow dc \<le> 0 then dc_optWindow dc else dc_failureWindow dc)"

definition scheduleExpiryRebuild :: "duration \<Rightarrow> pool_event list" where
  "scheduleExpiryRebuild d = (if d \<le> 0 then [] else [ExpiryIn (d + millisecond)])"

definition dialFailureAttributable :: "string option \<Rightarrow> bool \<Rightarrow> bool" where
  "dialFailureAttributable ctxErr isContextError \<longleftrightarrow> \<not> (ctxErr \<noteq> None \<and> isContextError)"

definition pool_recordFailure :: "dial_config \<Rightarrow> gtime \<Rightarrow> mref \<Rightarrow> string \<Rightarrow> string \<Rightarrow> pool_world \<Rightarrow> pool_event list \<times> pool_world" where
  "pool_recordFailure dc now r cause destination w =
     (let g = pc_GroupID (dc_pool dc); tag = mr_tag (pw_members w r)
      in if g \<noteq> 0
         then let (evicted, gw) = RecordFailure g tag (Some cause) now now (pw_group w);
                  w1 = on_shared (\<lambda>s. (s, to_entry s [EntryFailure cause destination])) r (w\<lparr>pw_group := gw\<rparr>)
              in ((if dc_subscribed dc then [] else [RebuildNow]) @ scheduleExpiryRebuild (currentFailureWindow dc), w1)
         else case mr_shared (pw_members w r) of None \<Rightarrow> ([], w)
              | Some a \<Rightarrow>
                  let ((failures, blacklisted, until), s1, cs) =
                        recordFailure now cause (currentFailureThreshold dc) (dc_blacklistDuration dc) (currentFailureWindow dc)
                          destination (ss_heap (pw_shared w) a)
                  in (if blacklisted then RebuildNow # scheduleExpiryRebuild (time_sub until now) else [],
                      w\<lparr>pw_shared := put_shared a s1 (pw_shared w), pw_calls := pw_calls w @ cs\<rparr>))"

definition pool_recordSuccess :: "mref \<Rightarrow> string \<Rightarrow> pool_world \<Rightarrow> pool_world" where
  "pool_recordSuccess r destination = on_shared (\<lambda>s. (s, recordSuccess destination s)) r"

definition recordEstablishedIOError :: "dial_config \<Rightarrow> gtime \<Rightarrow> mref \<Rightarrow> string \<Rightarrow> string \<Rightarrow> pool_world \<Rightarrow> pool_event list \<times> pool_world" where
  "recordEstablishedIOError dc now r cause destination w =
     (if pc_GroupID (dc_pool dc) = 0 then pool_recordFailure dc now r cause destination w
      else ([], on_shared (\<lambda>s. (s, to_entry s [EntryFailure cause destination])) r w))"

section \<open>One attempt\<close>

text \<open>\<open>dialSelected\<close> and \<open>listenPacketSelected\<close>.\<close>

definition dialSelected :: "dial_config \<Rightarrow> dial_env \<Rightarrow> nat \<Rightarrow> mref \<Rightarrow> dial_world \<Rightarrow> dial_outcome \<times> dial_world" where
  "dialSelected dc env k r d =
     (let tag = mr_tag (pw_members (dw_pool d) r)
      in if (case dc_selector dc of None \<Rightarrow> False | Some accepts \<Rightarrow> \<not> accepts tag)
         then (Failed (''selector rejected member: '' @ tag) False, d)
         else (de_dial env k r,
               d\<lparr>dw_waitForInitialLatency := False,
                 dw_path := (dw_path d)\<lparr>dp_currentMember := Some r\<rparr>,
                 dw_pool := (dw_pool d)\<lparr>pw_group := SetCurrentTag (pc_GroupID (dc_pool dc)) tag (de_now env k) (pw_group (dw_pool d))\<rparr>\<rparr>))"

definition wrapConn :: "mref \<Rightarrow> dial_world \<Rightarrow> dial_world" where
  "wrapConn r d = d\<lparr>dw_operations := (dw_operations d)(r := dw_operations d r + 1)\<rparr>"

text \<open>Closing a connection runs its release function once.\<close>

definition close_conn :: "mref \<Rightarrow> dial_world \<Rightarrow> dial_world" where
  "close_conn r d = d\<lparr>dw_pool := pool_decActive r (dw_pool d),
     dw_operations := (dw_operations d)(r := dw_operations d r - 1)\<rparr>"

text \<open>The part of the loop after a failed attempt.\<close>

definition attempt_failed :: "dial_config \<Rightarrow> dial_env \<Rightarrow> string \<Rightarrow> nat \<Rightarrow> mref \<Rightarrow> string \<Rightarrow> bool \<Rightarrow> dial_world \<Rightarrow> dial_world" where
  "attempt_failed dc env dst k r e isctx d =
     (let d1 = d\<lparr>dw_pool := pool_decActive r (dw_pool d)\<rparr>
      in if dialFailureAttributable (de_ctxErr env k) isctx
         then let (evs, w) = pool_recordFailure dc (de_now env k) r e dst (dw_pool d1)
              in d1\<lparr>dw_pool := w, dw_events := dw_events d1 @ evs\<rparr>
         else d1)"

text \<open>The loop; the second component lists the members that were dialled.\<close>

function dial_loop :: "dial_config \<Rightarrow> dial_env \<Rightarrow> string \<Rightarrow> nat \<Rightarrow> string option \<Rightarrow> attemptCursor \<Rightarrow> dial_world \<Rightarrow>
    (dial_error + mref) \<times> mref list \<times> dial_world" where
  "dial_loop dc env dst k err c d = (case cursor_next c of
     None \<Rightarrow> (Inl (case err of None \<Rightarrow> NoHealthyProxy | Some e \<Rightarrow> AllFailed e), [], d)
   | Some (r, c1) \<Rightarrow>
       let d1 = d\<lparr>dw_pool := pool_incActive r (dw_pool d)\<rparr>;
           (res, d2) = dialSelected dc env k r d1
       in case res of
            Connected \<Rightarrow> (Inr r, [r], wrapConn r (d2\<lparr>dw_pool := pool_recordSuccess r dst (dw_pool d2)\<rparr>))
          | Failed e isctx \<Rightarrow>
              let d3 = attempt_failed dc env dst k r e isctx d2
              in case de_ctxErr env k of
                   Some ce \<Rightarrow> (Inl (ContextError ce), [r], d3)
                 | None \<Rightarrow> let (out, rs, d4) = dial_loop dc env dst (Suc k) (Some e) c1 d3 in (out, r # rs, d4))"
  by pat_completeness auto
termination
  by (relation "measure (\<lambda>(_, _, _, _, _, c, _). length (ac_members c) - ac_used c)")
     (auto simp: cursor_next_def split: if_splits)

declare dial_loop.simps [simp del]

definition DialContext :: "dial_config \<Rightarrow> dial_env \<Rightarrow> 64 word \<Rightarrow> PoolSnapshot \<Rightarrow> string \<Rightarrow> string \<Rightarrow> dial_world \<Rightarrow>
    (dial_error + mref) \<times> mref list \<times> dial_world" where
  "DialContext dc env random snap network dst d =
     (case newAttemptCursor (member_active (dw_pool d)) random snap network (dw_path d) of
        (Inl _, dp) \<Rightarrow> (Inl NoHealthyProxy, [], d\<lparr>dw_path := dp\<rparr>)
      | (Inr c, dp) \<Rightarrow> dial_loop dc env dst 0 None c (d\<lparr>dw_path := dp\<rparr>))"

definition ListenPacket :: "dial_config \<Rightarrow> dial_env \<Rightarrow> 64 word \<Rightarrow> PoolSnapshot \<Rightarrow> string \<Rightarrow> dial_world \<Rightarrow>
    (dial_error + mref) \<times> mref list \<times> dial_world" where
  "ListenPacket dc env random snap dst d = DialContext dc env random snap ''udp'' dst d"

section \<open>Each attempt leaves the counters balanced\<close>

definition active_at :: "dial_world \<Rightarrow> nat \<Rightarrow> int" where
  "active_at d a = sh_active (ss_heap (pw_shared (dw_pool d)) a)"

definition holds :: "dial_world \<Rightarrow> mref \<Rightarrow> nat \<Rightarrow> int" where
  "holds d r a = of_bool (mr_shared (pw_members (dw_pool d) r) = Some a)"

lemma on_shared_frame [simp]:
  "pw_members (on_shared f r w) = pw_members w" "pw_group (on_shared f r w) = pw_group w"
  by (auto simp: on_shared_def split: option.splits prod.splits)

lemma on_shared_active:
  "sh_active (ss_heap (pw_shared (on_shared f r w)) a) =
     (if mr_shared (pw_members w r) = Some a then sh_active (fst (f (ss_heap (pw_shared w) a))) else sh_active (ss_heap (pw_shared w) a))"
  by (auto simp: on_shared_def put_shared_def split: option.splits prod.splits)

lemma recordFailure_active: "sh_active (fst (snd (recordFailure now c t dur win dst s))) = sh_active s"
  by (simp add: recordFailure_def Let_def)

lemma pool_recordFailure_frame:
  assumes "pool_recordFailure dc now r cause dst w = (evs, w')"
  shows "pw_members w' = pw_members w" and "sh_active (ss_heap (pw_shared w') a) = sh_active (ss_heap (pw_shared w) a)"
proof -
  have "pw_members w' = pw_members w \<and> sh_active (ss_heap (pw_shared w') a) = sh_active (ss_heap (pw_shared w) a)"
  proof (cases "pc_GroupID (dc_pool dc) = 0")
    case True
    show ?thesis
    proof (cases "mr_shared (pw_members w r)")
      case None
      then show ?thesis using assms True by (simp add: pool_recordFailure_def)
    next
      case (Some b)
      obtain p s1 cs where rf: "recordFailure now cause (currentFailureThreshold dc) (dc_blacklistDuration dc) (currentFailureWindow dc)
          dst (ss_heap (pw_shared w) b) = (p, s1, cs)"
        by (cases "recordFailure now cause (currentFailureThreshold dc) (dc_blacklistDuration dc) (currentFailureWindow dc)
          dst (ss_heap (pw_shared w) b)")
      have "sh_active s1 = sh_active (ss_heap (pw_shared w) b)" using recordFailure_active [of now cause] rf by (metis fst_conv snd_conv)
      then show ?thesis using assms True Some rf by (cases p) (auto simp: pool_recordFailure_def put_shared_def)
    qed
  next
    case False
    then show ?thesis using assms
      by (auto simp: pool_recordFailure_def Let_def on_shared_active split: prod.splits)
  qed
  then show "pw_members w' = pw_members w" and "sh_active (ss_heap (pw_shared w') a) = sh_active (ss_heap (pw_shared w) a)" by auto
qed

lemma dialSelected_frame:
  assumes "dialSelected dc env k r d = (res, d')"
  shows "pw_members (dw_pool d') = pw_members (dw_pool d)" and "active_at d' a = active_at d a"
  using assms by (auto simp: dialSelected_def Let_def active_at_def split: if_splits)

lemma attempt_failed_frame:
  "pw_members (dw_pool (attempt_failed dc env dst k r e isctx d)) = pw_members (dw_pool d)"
  "active_at (attempt_failed dc env dst k r e isctx d) a = active_at d a - holds d r a"
proof -
  obtain evs w where rf: "pool_recordFailure dc (de_now env k) r e dst (pool_decActive r (dw_pool d)) = (evs, w)"
    by (cases "pool_recordFailure dc (de_now env k) r e dst (pool_decActive r (dw_pool d))")
  note f = pool_recordFailure_frame [OF rf]
  show "pw_members (dw_pool (attempt_failed dc env dst k r e isctx d)) = pw_members (dw_pool d)"
    using f(1) rf by (simp add: attempt_failed_def Let_def pool_decActive_def)
  show "active_at (attempt_failed dc env dst k r e isctx d) a = active_at d a - holds d r a"
    using f(2) [of a] rf
    by (simp add: attempt_failed_def Let_def active_at_def pool_decActive_def on_shared_active holds_def decActive_def)
qed

lemma inc_active: "active_at (d\<lparr>dw_pool := pool_incActive r (dw_pool d)\<rparr>) a = active_at d a + holds d r a"
  by (simp add: active_at_def pool_incActive_def on_shared_active holds_def incActive_def)

section \<open>What the loop does\<close>

definition attempt_at :: "attemptCursor \<Rightarrow> nat \<Rightarrow> mref" where
  "attempt_at c j = ac_members c ! ((ac_start c + j) mod length (ac_members c))"

definition connects :: "dial_config \<Rightarrow> dial_env \<Rightarrow> heap \<Rightarrow> nat \<Rightarrow> mref \<Rightarrow> bool" where
  "connects dc env h j r \<longleftrightarrow> (case dc_selector dc of None \<Rightarrow> True | Some accepts \<Rightarrow> accepts (mr_tag (h r))) \<and> de_dial env j r = Connected"

lemma dialSelected_connects:
  "fst (dialSelected dc env k r d) = Connected \<longleftrightarrow> connects dc env (pw_members (dw_pool d)) k r"
  by (auto simp: dialSelected_def connects_def Let_def split: option.splits)

lemma cursor_next_cases:
  "cursor_next c = (if ac_used c < length (ac_members c) then Some (attempt_at c (ac_used c), c\<lparr>ac_used := ac_used c + 1\<rparr>) else None)"
  by (simp add: cursor_next_def attempt_at_def)

lemma dial_loop_spec:
  assumes "dial_loop dc env dst k err c d = (out, tried, d')" and "k = ac_used c"
  shows "(\<exists>m. tried = take m (map (attempt_at c) [k..<length (ac_members c)])) \<and>
    (\<forall>a. active_at d' a = active_at d a + (case out of Inl _ \<Rightarrow> 0 | Inr r \<Rightarrow> holds d r a)) \<and>
    ((\<forall>j. de_ctxErr env j = None) \<longrightarrow>
       (case find (\<lambda>j. connects dc env (pw_members (dw_pool d)) j (attempt_at c j)) [k..<length (ac_members c)] of
          Some j \<Rightarrow> out = Inr (attempt_at c j)
        | None \<Rightarrow> (\<exists>e. out = Inl e) \<and> tried = map (attempt_at c) [k..<length (ac_members c)]))"
  using assms
proof (induction "length (ac_members c) - k" arbitrary: k err c d out tried d' rule: less_induct)
  case (less k c err d out tried d')
  show ?case
  proof (cases "k < length (ac_members c)")
    case False
    then have "cursor_next c = None" using less.prems(2) by (simp add: cursor_next_cases)
    then show ?thesis using less.prems(1) False unfolding dial_loop.simps [of dc env dst k err c d] by auto
  next
    case True
    define c1 where "c1 = c\<lparr>ac_used := k + 1\<rparr>"
    define r where "r = attempt_at c k"
    define d1 where "d1 = d\<lparr>dw_pool := pool_incActive r (dw_pool d)\<rparr>"
    obtain res d2 where two: "dialSelected dc env k r d1 = (res, d2)" by (cases "dialSelected dc env k r d1")
    have next1: "cursor_next c = Some (r, c1)" using True less.prems(2) by (simp add: cursor_next_cases r_def c1_def)
    have up: "[k..<length (ac_members c)] = k # [Suc k..<length (ac_members c)]" using True by (simp add: upt_conv_Cons)
    have mem: "pw_members (dw_pool d1) = pw_members (dw_pool d)" "pw_members (dw_pool d2) = pw_members (dw_pool d)"
      using dialSelected_frame(1) [OF two] by (simp_all add: d1_def pool_incActive_def)
    have act2: "active_at d2 a = active_at d a + holds d r a" for a
      using dialSelected_frame(2) [OF two] inc_active [of r d a] by (simp add: d1_def)
    have con: "res = Connected \<longleftrightarrow> connects dc env (pw_members (dw_pool d)) k r"
      using dialSelected_connects [of dc env k r d1] two mem(1) by simp
    have at1: "attempt_at c1 = attempt_at c" by (rule ext) (simp add: attempt_at_def c1_def)
    note loop = less.prems(1) [unfolded dial_loop.simps [of dc env dst k err c d] next1 option.case prod.case d1_def [symmetric] Let_def two]
    show ?thesis
    proof (cases res)
      case Connected
      have "active_at (wrapConn r (d2\<lparr>dw_pool := pool_recordSuccess r dst (dw_pool d2)\<rparr>)) a = active_at d2 a" for a
        by (simp add: wrapConn_def active_at_def pool_recordSuccess_def on_shared_active)
      then show ?thesis using loop Connected con act2
        by (auto simp: up r_def intro!: exI [of _ 1])
    next
      case (Failed e isctx)
      define d3 where "d3 = attempt_failed dc env dst k r e isctx d2"
      have act3: "active_at d3 a = active_at d a" and mem3: "pw_members (dw_pool d3) = pw_members (dw_pool d)" for a
        using act2 [of a] mem(2) by (simp_all add: d3_def attempt_failed_frame holds_def)
      show ?thesis
      proof (cases "de_ctxErr env k")
        case (Some ce)
        then have "out = Inl (ContextError ce)" "tried = [r]" "d' = d3" using loop Failed by (simp_all add: d3_def)
        moreover from this have "\<exists>m. tried = take m (map (attempt_at c) [k..<length (ac_members c)])"
          by (intro exI [of _ 1]) (simp add: up r_def)
        moreover have "\<not> (\<forall>j. de_ctxErr env j = None)" using Some by auto
        ultimately show ?thesis using act3 by auto
      next
        case None
        obtain out' rs d4 where rec: "dial_loop dc env dst (Suc k) (Some e) c1 d3 = (out', rs, d4)"
          by (cases "dial_loop dc env dst (Suc k) (Some e) c1 d3")
        then have res': "out = out'" "tried = r # rs" "d' = d4" using loop Failed None by (simp_all add: d3_def [symmetric])
        have IH: "(\<exists>m. rs = take m (map (attempt_at c1) [Suc k..<length (ac_members c1)])) \<and>
            (\<forall>a. active_at d4 a = active_at d3 a + (case out' of Inl _ \<Rightarrow> 0 | Inr r \<Rightarrow> holds d3 r a)) \<and>
            ((\<forall>j. de_ctxErr env j = None) \<longrightarrow>
               (case find (\<lambda>j. connects dc env (pw_members (dw_pool d3)) j (attempt_at c1 j)) [Suc k..<length (ac_members c1)] of
                  Some j \<Rightarrow> out' = Inr (attempt_at c1 j)
                | None \<Rightarrow> (\<exists>e. out' = Inl e) \<and> rs = map (attempt_at c1) [Suc k..<length (ac_members c1)]))"
          by (rule less.hyps [OF _ rec]) (use True in \<open>auto simp: c1_def\<close>)
        have len: "length (ac_members c1) = length (ac_members c)" by (simp add: c1_def)
        have no: "\<not> connects dc env (pw_members (dw_pool d)) k (attempt_at c k)" using con Failed by (simp add: r_def)
        have h: "holds d3 x a = holds d x a" for x a by (simp add: holds_def mem3)
        from IH obtain m where "rs = take m (map (attempt_at c) [Suc k..<length (ac_members c)])" by (auto simp: at1 len)
        then have "tried = take (Suc m) (map (attempt_at c) [k..<length (ac_members c)])" by (simp add: res' up r_def)
        then have pre: "\<exists>m. tried = take m (map (attempt_at c) [k..<length (ac_members c)])" by blast
        have skip: "find (\<lambda>j. connects dc env (pw_members (dw_pool d)) j (attempt_at c j)) [k..<length (ac_members c)] =
            find (\<lambda>j. connects dc env (pw_members (dw_pool d)) j (attempt_at c j)) [Suc k..<length (ac_members c)]"
          using no by (simp add: up)
        have all: "tried = map (attempt_at c) [k..<length (ac_members c)]" if "rs = map (attempt_at c) [Suc k..<length (ac_members c)]"
          using that by (simp add: res' up r_def)
        note IH2 = conjunct2 [OF IH, unfolded at1 len mem3 act3 h]
        show ?thesis
        proof (intro conjI pre)
          show "\<forall>a. active_at d' a = active_at d a + (case out of Inl _ \<Rightarrow> 0 | Inr r \<Rightarrow> holds d r a)" using IH2 by (simp add: res')
        next
          show "(\<forall>j. de_ctxErr env j = None) \<longrightarrow>
             (case find (\<lambda>j. connects dc env (pw_members (dw_pool d)) j (attempt_at c j)) [k..<length (ac_members c)] of
                Some j \<Rightarrow> out = Inr (attempt_at c j)
              | None \<Rightarrow> (\<exists>e. out = Inl e) \<and> tried = map (attempt_at c) [k..<length (ac_members c)])"
            unfolding skip using IH2 all by (auto simp: res'(1) split: option.splits)
        qed
      qed
    qed
  qed
qed

text \<open>C38: a dial gives every eligible member one chance, in order, and keeps the load counters exact.
  The members dialled are a prefix of the eligible view, taken round from the selected one, without
  repetition of a position. The active count of a member changes only for the member whose connection
  is returned, by one. When the caller's context stays live, the connection returned is that of the
  first member in this order that accepts it, and an error is returned only after all have failed.\<close>

theorem dial_tries_each_member_once:
  assumes "newAttemptCursor (member_active (dw_pool d)) random snap network (dw_path d) = (Inr c, dp)"
    and "DialContext dc env random snap network dst d = (out, tried, d')"
  shows "ac_members c = snd (if network = ''udp'' then ps_udpMembers snap else ps_tcpMembers snap) \<and>
    (\<exists>m. tried = take m (map (attempt_at c) [0..<length (ac_members c)])) \<and>
    active_at d' a = active_at d a + (case out of Inl _ \<Rightarrow> 0 | Inr r \<Rightarrow> holds d r a) \<and>
    ((\<forall>j. de_ctxErr env j = None) \<longrightarrow>
       (case find (\<lambda>j. connects dc env (pw_members (dw_pool d)) j (attempt_at c j)) [0..<length (ac_members c)] of
          Some j \<Rightarrow> out = Inr (attempt_at c j)
        | None \<Rightarrow> (\<exists>e. out = Inl e) \<and> tried = map (attempt_at c) [0..<length (ac_members c)]))"
proof -
  have c: "ac_used c = 0" "ac_members c = snd (if network = ''udp'' then ps_udpMembers snap else ps_tcpMembers snap)"
    using assms(1) by (auto simp: newAttemptCursor_def Let_def split: if_splits prod.splits)
  have loop: "dial_loop dc env dst 0 None c (d\<lparr>dw_path := dp\<rparr>) = (out, tried, d')"
    using assms by (simp add: DialContext_def)
  have same: "active_at (d\<lparr>dw_path := dp\<rparr>) = active_at d" "holds (d\<lparr>dw_path := dp\<rparr>) = holds d"
    by (intro ext; simp add: active_at_def holds_def)+
  show ?thesis using dial_loop_spec [OF loop] c unfolding same by simp
qed

text \<open>The first member dialled fails, the second connects.\<close>

definition demo_dial_config :: dial_config where
  "demo_dial_config = \<lparr>dc_pool = demo_pool_config modeLowestLatency, dc_subscribed = False, dc_failureThreshold = 3, dc_optThreshold = 3,
     dc_failureWindow = 0, dc_optWindow = 60 * second, dc_blacklistDuration = hour, dc_selector = None\<rparr>"

definition demo_env :: dial_env where
  "demo_env = \<lparr>de_dial = (\<lambda>k r. if k = 0 then Failed ''refused'' False else Connected), de_ctxErr = (\<lambda>_. None), de_now = (\<lambda>_. 8)\<rparr>"

definition demo_dial_world :: dial_world where
  "demo_dial_world = \<lparr>dw_pool = snd demo_published, dw_path = demo_path\<lparr>dp_currentMember := None\<rparr>, dw_waitForInitialLatency = True,
     dw_events = [], dw_operations = (\<lambda>_. 0)\<rparr>"

definition demo_dial :: "(dial_error + mref) \<times> mref list \<times> dial_world" where
  "demo_dial = DialContext demo_dial_config demo_env 5 (fst demo_published) ''tcp'' ''host:80'' demo_dial_world"

definition demo_cursor :: attemptCursor where
  "demo_cursor = \<lparr>ac_members = [2, 1], ac_start = 0, ac_used = 0\<rparr>"

theorem dial_tries_each_member_once_witness: "fst demo_dial = Inr 1 \<and> active_at (snd (snd demo_dial)) 1 = 1"
proof -
  have cur: "newAttemptCursor (member_active (dw_pool demo_dial_world)) 5 (fst demo_published) ''tcp'' (dw_path demo_dial_world) =
      (Inr demo_cursor, dw_path demo_dial_world)" by code_simp
  have dial: "DialContext demo_dial_config demo_env 5 (fst demo_published) ''tcp'' ''host:80'' demo_dial_world =
      (fst demo_dial, fst (snd demo_dial), snd (snd demo_dial))" by (simp add: demo_dial_def)
  note ok = dial_tries_each_member_once [OF cur dial, of 1]
  have env: "\<forall>j. de_ctxErr demo_env j = None" by (simp add: demo_env_def)
  have "find (\<lambda>j. connects demo_dial_config demo_env (pw_members (dw_pool demo_dial_world)) j (attempt_at demo_cursor j))
      [0..<length (ac_members demo_cursor)] = Some 1" by code_simp
  then have out: "fst demo_dial = Inr (attempt_at demo_cursor 1)"
    using ok [THEN conjunct2, THEN conjunct2, THEN conjunct2, THEN mp, OF env] by simp
  have "attempt_at demo_cursor 1 = 1" by code_simp
  moreover have "holds demo_dial_world 1 1 = 1" "active_at demo_dial_world 1 = 0" by code_simp+
  ultimately show ?thesis using ok out by simp
qed

end
