(* ===== verification/Pool_Pinning.thy ===== *)
theory Pool_Pinning
  imports Prelude
begin

text \<open>
  The protocol that keeps a pool snapshot alive while dials use it: \<open>acquireSnapshot\<close>,
  \<open>releaseSnapshotReader\<close>, \<open>releaseSnapshotMembers\<close> and the hand-over in \<open>publishSnapshotLocked\<close> of
  \<open>src/internal/outbound/pool/pool.go\<close>. The readers share only atomic variables, so each atomic
  operation is a step of its own and the steps of any number of readers and of the publisher that
  retires the snapshot interleave freely. The state is that of one snapshot.
\<close>

text \<open>Where a reader stands: it has not loaded the snapshot; it has loaded it; it has counted itself; it
  holds it; it is about to discount itself; it has, and remembers whether the count became zero.\<close>

datatype reader = Away | Loaded | Counted | Pinned | Leaving | Left bool

text \<open>The publisher: before the hand-over; \<open>accepting\<close> cleared; new snapshot stored; count examined.\<close>

datatype publisher = Serving | Refusing | Replaced | Retired

record pin_state =
  pn_accepting :: bool
  pn_readers :: int
  pn_released :: bool
  pn_threads :: "reader list"
  pn_publisher :: publisher

definition pin_start :: "nat \<Rightarrow> pin_state" where
  "pin_start n = \<lparr>pn_accepting = True, pn_readers = 0, pn_released = False, pn_threads = replicate n Away, pn_publisher = Serving\<rparr>"

definition move :: "nat \<Rightarrow> reader \<Rightarrow> pin_state \<Rightarrow> pin_state" where
  "move i r p = p\<lparr>pn_threads := (pn_threads p)[i := r]\<rparr>"

text \<open>\<open>at p i r\<close>: reader \<open>i\<close> exists and stands at \<open>r\<close>.\<close>

definition at :: "pin_state \<Rightarrow> nat \<Rightarrow> reader \<Rightarrow> bool" where
  "at p i r \<longleftrightarrow> i < length (pn_threads p) \<and> pn_threads p ! i = r"

inductive pin_step :: "pin_state \<Rightarrow> pin_state \<Rightarrow> bool" where
  load: "at p i Away \<Longrightarrow> pn_publisher p \<in> {Serving, Refusing} \<Longrightarrow> pin_step p (move i Loaded p)"
| count_in: "at p i Loaded \<Longrightarrow> pin_step p (move i Counted (p\<lparr>pn_readers := pn_readers p + 1\<rparr>))"
| accepted: "at p i Counted \<Longrightarrow> pn_accepting p \<Longrightarrow> pin_step p (move i Pinned p)"
| refused: "at p i Counted \<Longrightarrow> \<not> pn_accepting p \<Longrightarrow> pin_step p (move i Leaving p)"
| finished: "at p i Pinned \<Longrightarrow> pin_step p (move i Leaving p)"
| count_out: "at p i Leaving \<Longrightarrow>
    pin_step p (move i (Left (pn_readers p - 1 = 0)) (p\<lparr>pn_readers := pn_readers p - 1\<rparr>))"
| not_last: "at p i (Left False) \<Longrightarrow> pin_step p (move i Away p)"
| last_serving: "at p i (Left True) \<Longrightarrow> pn_accepting p \<Longrightarrow> pin_step p (move i Away p)"
| last_retired: "at p i (Left True) \<Longrightarrow> \<not> pn_accepting p \<Longrightarrow> pin_step p (move i Away (p\<lparr>pn_released := True\<rparr>))"
| refuse: "pn_publisher p = Serving \<Longrightarrow> pin_step p (p\<lparr>pn_accepting := False, pn_publisher := Refusing\<rparr>)"
| replace: "pn_publisher p = Refusing \<Longrightarrow> pin_step p (p\<lparr>pn_publisher := Replaced\<rparr>)"
| retire: "pn_publisher p = Replaced \<Longrightarrow>
    pin_step p (p\<lparr>pn_publisher := Retired, pn_released := (pn_released p \<or> pn_readers p = 0)\<rparr>)"

inductive_cases pin_stepE: "pin_step p q"

section \<open>Counting readers\<close>

definition counted :: "reader \<Rightarrow> bool" where
  "counted r \<longleftrightarrow> r \<in> {Counted, Pinned, Leaving}"

definition in_count :: "reader list \<Rightarrow> int" where
  "in_count ts = int (length (filter counted ts))"

lemma in_count_update:
  "i < length ts \<Longrightarrow> in_count (ts[i := r]) = in_count ts - of_bool (counted (ts ! i)) + of_bool (counted r)"
proof (induction ts arbitrary: i)
  case (Cons t ts)
  then show ?case by (cases i) (auto simp: in_count_def)
qed simp

lemma in_count_pos: "i < length ts \<Longrightarrow> counted (ts ! i) \<Longrightarrow> 0 < in_count ts"
  by (auto simp: in_count_def filter_empty_conv)

lemma in_count_witness: "in_count ts \<noteq> 0 \<Longrightarrow> \<exists>i < length ts. counted (ts ! i)"
  by (auto simp: in_count_def filter_empty_conv in_set_conv_nth)

text \<open>Someone will still look: a counted reader, or one that saw the count become zero.\<close>

definition pending :: "pin_state \<Rightarrow> bool" where
  "pending p \<longleftrightarrow> in_count (pn_threads p) \<noteq> 0 \<or> Left True \<in> set (pn_threads p)"

definition pin_ok :: "pin_state \<Rightarrow> bool" where
  "pin_ok p \<longleftrightarrow> pn_readers p = in_count (pn_threads p) \<and> (pn_accepting p \<longleftrightarrow> pn_publisher p = Serving) \<and>
     (pn_released p \<longrightarrow> \<not> pn_accepting p) \<and> (pn_publisher p = Retired \<longrightarrow> pn_released p \<or> pending p)"

lemma counted_simps [simp]:
  "\<not> counted Away" "\<not> counted Loaded" "counted Counted" "counted Pinned" "counted Leaving" "\<not> counted (Left b)"
  by (simp_all add: counted_def)

lemma count_move: "at p i r \<Longrightarrow> in_count (pn_threads (move i r' p)) = in_count (pn_threads p) - of_bool (counted r) + of_bool (counted r')"
  by (auto simp: at_def move_def in_count_update)

lemma move_fields [simp]:
  "pn_accepting (move i r p) = pn_accepting p" "pn_readers (move i r p) = pn_readers p"
  "pn_released (move i r p) = pn_released p" "pn_publisher (move i r p) = pn_publisher p"
  by (simp_all add: move_def)

lemma pending_move:
  assumes "at p i r" and "pending p" and "r = Left True \<Longrightarrow> in_count (pn_threads p) \<noteq> 0"
    and "counted r \<Longrightarrow> counted r' \<or> r' = Left True \<or> in_count (pn_threads p) \<noteq> 1"
  shows "pending (move i r' p)"
proof -
  have i: "i < length (pn_threads p)" "pn_threads p ! i = r" using assms(1) by (auto simp: at_def)
  have keep: "Left True \<in> set ((pn_threads p)[i := r'])" if "Left True \<in> set (pn_threads p)" "r \<noteq> Left True"
  proof -
    from that(1) obtain j where j: "j < length (pn_threads p)" "pn_threads p ! j = Left True" by (auto simp: in_set_conv_nth)
    then have "(pn_threads p)[i := r'] ! j = Left True" using i that(2) by (cases "i = j") auto
    then show ?thesis using j(1) by (metis length_list_update nth_mem)
  qed
  have new: "Left True \<in> set ((pn_threads p)[i := r'])" if "r' = Left True"
    using that i(1) by (simp add: set_update_memI)
  have "0 \<le> in_count (pn_threads p)" by (simp add: in_count_def)
  then show ?thesis
    using assms count_move [OF assms(1), of r'] keep new in_count_pos [of i "pn_threads p"] i
    by (cases "r = Left True") (auto simp: pending_def move_def)
qed

lemma at_readers [simp]: "at (p\<lparr>pn_readers := x\<rparr>) i r = at p i r" "at (p\<lparr>pn_released := y\<rparr>) i r = at p i r"
  by (simp_all add: at_def)

lemma pending_readers [simp]: "pending (p\<lparr>pn_readers := x\<rparr>) = pending p"
  by (simp add: pending_def)

lemma in_count_nonneg [simp]: "0 \<le> in_count ts"
  by (simp add: in_count_def)

lemma pin_step_ok:
  assumes "pin_step p q" and "pin_ok p"
  shows "pin_ok q"
  using assms
proof (induction rule: pin_step.induct)
  case (load p i)
  then show ?case using count_move [of p i Away Loaded] by (auto simp: pin_ok_def)
next
  case (count_in p i)
  have c: "in_count (pn_threads (move i Counted (p\<lparr>pn_readers := pn_readers p + 1\<rparr>))) = in_count (pn_threads p) + 1"
    using count_move [of "p\<lparr>pn_readers := pn_readers p + 1\<rparr>" i Loaded Counted] count_in(1) by simp
  have "0 \<le> in_count (pn_threads p)" by simp
  then have "pending (move i Counted (p\<lparr>pn_readers := pn_readers p + 1\<rparr>))" unfolding pending_def c by linarith
  then show ?case using count_in(2) c by (auto simp: pin_ok_def)
next
  case (accepted p i)
  then show ?case using count_move [of p i Counted Pinned] pending_move [of p i Counted Pinned] by (auto simp: pin_ok_def)
next
  case (refused p i)
  then show ?case using count_move [of p i Counted Leaving] pending_move [of p i Counted Leaving] by (auto simp: pin_ok_def)
next
  case (finished p i)
  then show ?case using count_move [of p i Pinned Leaving] pending_move [of p i Pinned Leaving] by (auto simp: pin_ok_def)
next
  case (count_out p i)
  let ?r = "Left (pn_readers p - 1 = 0)" let ?p = "p\<lparr>pn_readers := pn_readers p - 1\<rparr>"
  have "in_count (pn_threads (move i ?r ?p)) = in_count (pn_threads p) - 1"
    using count_move [of ?p i Leaving ?r] count_out(1) by simp
  moreover have "pending p \<Longrightarrow> pending (move i ?r ?p)"
    using pending_move [of ?p i Leaving ?r] count_out by (auto simp: pin_ok_def)
  ultimately show ?case using count_out(2) by (auto simp: pin_ok_def)
next
  case (not_last p i)
  then show ?case using count_move [of p i "Left False" Away] pending_move [of p i "Left False" Away] by (auto simp: pin_ok_def)
next
  case (last_serving p i)
  then show ?case using count_move [of p i "Left True" Away] by (auto simp: pin_ok_def)
next
  case (last_retired p i)
  then show ?case using count_move [of "p\<lparr>pn_released := True\<rparr>" i "Left True" Away] by (auto simp: pin_ok_def)
next
  case (retire p)
  then show ?case by (auto simp: pin_ok_def pending_def)
qed (auto simp: pin_ok_def)

interpretation pinning: inductive_invariant "pin_start n" pin_step pin_ok
proof unfold_locales
  show "pin_ok (pin_start n)"
    by (simp add: pin_ok_def pin_start_def in_count_def)
qed (rule pin_step_ok)

text \<open>
  The runs in which the publisher does not close the snapshot while a leaving dial stands between
  discounting the last reader and reading \<open>accepting\<close>.
\<close>

definition apart_step :: "pin_state \<Rightarrow> pin_state \<Rightarrow> bool" where
  "apart_step p q \<longleftrightarrow> pin_step p q \<and> (pn_accepting p \<and> \<not> pn_accepting q \<longrightarrow> Left True \<notin> set (pn_threads p))"

definition held :: "pin_state \<Rightarrow> bool" where
  "held p \<longleftrightarrow> (\<exists>i. at p i Pinned)"

definition apart_ok :: "pin_state \<Rightarrow> bool" where
  "apart_ok p \<longleftrightarrow> pin_ok p \<and> (\<not> pn_accepting p \<and> (pn_released p \<or> Left True \<in> set (pn_threads p)) \<longrightarrow> \<not> held p)"

lemma held_counted: "held p \<Longrightarrow> in_count (pn_threads p) \<noteq> 0"
  using in_count_pos by (fastforce simp: held_def at_def)

lemma held_move: "r \<noteq> Pinned \<Longrightarrow> held (move i r p) \<Longrightarrow> held p"
  by (auto simp: held_def at_def move_def) (metis nth_list_update_eq nth_list_update_neq)

lemma left_move: "r \<noteq> Left True \<Longrightarrow> Left True \<in> set (pn_threads (move i r p)) \<Longrightarrow> Left True \<in> set (pn_threads p)"
  using set_update_subset_insert [of "pn_threads p" i r] by (auto simp: move_def)

lemma held_fields [simp]:
  "held (p\<lparr>pn_readers := x\<rparr>) = held p" "held (p\<lparr>pn_released := y\<rparr>) = held p"
  "held (p\<lparr>pn_accepting := z, pn_publisher := u\<rparr>) = held p" "held (p\<lparr>pn_publisher := u\<rparr>) = held p"
  "held (p\<lparr>pn_publisher := u, pn_released := y\<rparr>) = held p"
  by (simp_all add: held_def at_def)

lemma move_threads: "pn_threads (move i r (p\<lparr>pn_readers := x\<rparr>)) = pn_threads (move i r p)"
  "pn_threads (move i r (p\<lparr>pn_released := y\<rparr>)) = pn_threads (move i r p)"
  by (simp_all add: move_def)

lemma moved_safe:
  assumes "apart_ok p" and "r \<noteq> Pinned" "r \<noteq> Left True" and "\<not> pn_accepting p"
    and "pn_released p \<or> Left True \<in> set (pn_threads (move i r p))"
  shows "\<not> held (move i r p) \<and> \<not> held (move i r (p\<lparr>pn_readers := x\<rparr>))"
proof -
  have "\<not> held p" using assms left_move [OF assms(3), of i p] by (auto simp: apart_ok_def)
  then show ?thesis using held_move [OF assms(2), of i p] held_move [OF assms(2), of i "p\<lparr>pn_readers := x\<rparr>"] by auto
qed

lemma apart_step_ok:
  assumes step: "apart_step p q" and ok: "apart_ok p"
  shows "apart_ok q"
proof -
  have pin: "pin_step p q" "pin_ok p" using step ok by (simp_all add: apart_step_def apart_ok_def)
  have "\<not> held q" if "\<not> pn_accepting q" "pn_released q \<or> Left True \<in> set (pn_threads q)"
    using pin(1)
  proof cases
    case (count_out i)
    show ?thesis
    proof (cases "pn_readers p - 1 = 0")
      case True
      then have "in_count (pn_threads q) = 0"
        using count_move [of "p\<lparr>pn_readers := pn_readers p - 1\<rparr>" i Leaving "Left True"] count_out pin(2)
        by (simp add: pin_ok_def)
      then show ?thesis using held_counted by blast
    next
      case False
      then show ?thesis using that count_out moved_safe [OF ok, of "Left False" i "pn_readers p - 1"] by (simp add: move_threads)
    qed
  next
    case refuse
    have "Left True \<notin> set (pn_threads p)" "\<not> pn_released p" using step pin(2) refuse by (auto simp: apart_step_def pin_ok_def)
    then show ?thesis using that refuse by simp
  next
    case retire
    then show ?thesis using that ok pin(2) held_counted [of p] by (auto simp: apart_ok_def pin_ok_def)
  next
    case (last_retired i)
    then have "Left True \<in> set (pn_threads p)" by (metis at_def nth_mem)
    then show ?thesis using ok last_retired held_move [of Away i p] held_move [of Away i "p\<lparr>pn_released := True\<rparr>"]
      by (auto simp: apart_ok_def)
  next
    case replace
    then show ?thesis using that ok by (simp add: apart_ok_def)
  next
    case (count_in i)
    then show ?thesis using that moved_safe [OF ok, of Counted i "pn_readers p + 1"] by (simp add: move_threads)
  qed (use that in \<open>simp_all add: moved_safe [OF ok]\<close>)
  then show ?thesis using pin_step_ok [OF pin] by (auto simp: apart_ok_def)
qed

interpretation apart: inductive_invariant "pin_start n" apart_step apart_ok
proof unfold_locales
  have "\<not> held (pin_start n)" by (auto simp: held_def at_def pin_start_def)
  then show "apart_ok (pin_start n)" using pinning.reachable_inv [OF reaches_refl] by (simp add: apart_ok_def)
qed (rule apart_step_ok)

text \<open>C11: the life of a snapshot. In every interleaving of any number of dials with the publisher that
  replaces the snapshot, each atomic operation a step of its own: the reader count is exact; a snapshot
  that still accepts dials has not been released; once it is retired and every dial has left it, it
  has been released, so that retired members can drain. And in every such interleaving in which the
  publisher does not close the snapshot just between the two steps of a leaving dial that discounts the
  last reader and then reads \<open>accepting\<close>, no dial ever holds a snapshot whose members are
  released. (In that window it can happen: C16.)\<close>

theorem retired_snapshot_is_released:
  assumes "reaches pin_step (pin_start n) p"
  shows "pn_readers p = in_count (pn_threads p) \<and> (pn_accepting p \<longrightarrow> \<not> pn_released p) \<and>
    (pn_publisher p = Retired \<and> set (pn_threads p) \<subseteq> {Away, Loaded} \<longrightarrow> pn_released p) \<and>
    (reaches apart_step (pin_start n) p \<longrightarrow> pn_released p \<longrightarrow> (\<forall>i. \<not> at p i Pinned))"
proof -
  have ok: "pin_ok p" using assms by (rule pinning.reachable_inv)
  have "\<not> pending p" if away: "set (pn_threads p) \<subseteq> {Away, Loaded}"
  proof -
    have "\<not> counted (pn_threads p ! i)" if "i < length (pn_threads p)" for i
      using away nth_mem [OF that] by auto
    then show ?thesis using in_count_witness [of "pn_threads p"] away by (auto simp: pending_def)
  qed
  moreover have "\<forall>i. \<not> at p i Pinned" if "reaches apart_step (pin_start n) p" "pn_released p"
    using apart.reachable_inv [OF that(1)] that(2) by (auto simp: apart_ok_def pin_ok_def held_def)
  ultimately show ?thesis using ok by (auto simp: pin_ok_def)
qed

text \<open>A run: one dial loads, counts itself, holds the snapshot while it is replaced and leaves.\<close>

definition demo_pins :: "pin_state list" where
  "demo_pins = (let a = pin_start 1; b = move 0 Loaded a; c = move 0 Counted (b\<lparr>pn_readers := 1\<rparr>); d = move 0 Pinned c;
     e = d\<lparr>pn_accepting := False, pn_publisher := Refusing\<rparr>; f = e\<lparr>pn_publisher := Replaced\<rparr>; g = f\<lparr>pn_publisher := Retired\<rparr>;
     h = move 0 Leaving g; i = move 0 (Left True) (h\<lparr>pn_readers := 0\<rparr>); j = move 0 Away (i\<lparr>pn_released := True\<rparr>)
     in [a, b, c, d, e, f, g, h, i, j])"

lemma reaches_via: "reaches pin_step s p \<Longrightarrow> pin_step p q' \<Longrightarrow> q' = q \<Longrightarrow> reaches pin_step s q"
  by (auto intro: reaches_step)

lemma apart_via:
  "reaches apart_step s p \<Longrightarrow> pin_step p q' \<Longrightarrow> q' = q \<Longrightarrow> \<not> pn_accepting p \<or> pn_accepting q \<or> Left True \<notin> set (pn_threads p) \<Longrightarrow>
     reaches apart_step s q"
  by (rule reaches_step) (auto simp: apart_step_def)

lemma apart_reaches: "reaches apart_step s p \<Longrightarrow> reaches pin_step s p"
  by (induction rule: reaches.induct) (auto intro: reaches.intros simp: apart_step_def)

lemma demo_pins_apart: "reaches apart_step (pin_start 1) (demo_pins ! 9)"
proof -
  have z: "reaches apart_step (pin_start 1) (demo_pins ! 0)" by (simp add: demo_pins_def Let_def reaches_refl)
  have r1: "reaches apart_step (pin_start 1) (demo_pins ! 1)"
    by (rule apart_via [OF z pin_step.load [of "demo_pins ! 0" 0]]) code_simp+
  have r2: "reaches apart_step (pin_start 1) (demo_pins ! 2)"
    by (rule apart_via [OF r1 pin_step.count_in [of "demo_pins ! 1" 0]]) code_simp+
  have r3: "reaches apart_step (pin_start 1) (demo_pins ! 3)"
    by (rule apart_via [OF r2 pin_step.accepted [of "demo_pins ! 2" 0]]) code_simp+
  have r4: "reaches apart_step (pin_start 1) (demo_pins ! 4)"
    by (rule apart_via [OF r3 pin_step.refuse [of "demo_pins ! 3"]]) code_simp+
  have r5: "reaches apart_step (pin_start 1) (demo_pins ! 5)"
    by (rule apart_via [OF r4 pin_step.replace [of "demo_pins ! 4"]]) code_simp+
  have r6: "reaches apart_step (pin_start 1) (demo_pins ! 6)"
    by (rule apart_via [OF r5 pin_step.retire [of "demo_pins ! 5"]]) code_simp+
  have r7: "reaches apart_step (pin_start 1) (demo_pins ! 7)"
    by (rule apart_via [OF r6 pin_step.finished [of "demo_pins ! 6" 0]]) code_simp+
  have r8: "reaches apart_step (pin_start 1) (demo_pins ! 8)"
    by (rule apart_via [OF r7 pin_step.count_out [of "demo_pins ! 7" 0]]) code_simp+
  have r9: "reaches apart_step (pin_start 1) (demo_pins ! 9)"
    by (rule apart_via [OF r8 pin_step.last_retired [of "demo_pins ! 8" 0]]) code_simp+
  show ?thesis by (rule r9)
qed

theorem retired_snapshot_is_released_witness: "pn_released (demo_pins ! 9) \<and> \<not> at (demo_pins ! 9) 0 Pinned"
proof -
  have "pn_publisher (demo_pins ! 9) = Retired" "set (pn_threads (demo_pins ! 9)) \<subseteq> {Away, Loaded}" by code_simp+
  then show ?thesis using retired_snapshot_is_released [OF apart_reaches [OF demo_pins_apart]] demo_pins_apart by blast
qed

section \<open>A snapshot released while a dial holds it\<close>

text \<open>
  \<open>releaseSnapshotReader\<close> reads \<open>accepting\<close> after it has discounted its reader. Between the two, another
  dial may take the snapshot while it still accepts, and the publisher may then close it: the first
  dial, whose count was zero, releases the members although the second dial holds the snapshot.
\<close>

definition demo_race :: "pin_state list" where
  "demo_race = (let a = pin_start 2; b = move 0 Loaded a; c = move 0 Counted (b\<lparr>pn_readers := 1\<rparr>); d = move 0 Pinned c;
     e = move 0 Leaving d; f = move 0 (Left True) (e\<lparr>pn_readers := 0\<rparr>);
     g = move 1 Loaded f; h = move 1 Counted (g\<lparr>pn_readers := 1\<rparr>); i = move 1 Pinned h;
     j = i\<lparr>pn_accepting := False, pn_publisher := Refusing\<rparr>; k = move 0 Away (j\<lparr>pn_released := True\<rparr>)
     in [a, b, c, d, e, f, g, h, i, j, k])"

text \<open>C16: a snapshot can be released while a dial holds it. With two dials there is a run after which the
  members of the snapshot are released and the second dial is still using it.\<close>

theorem pinned_snapshot_can_be_released:
  "\<exists>p. reaches pin_step (pin_start 2) p \<and> pn_released p \<and> at p 1 Pinned"
proof -
  have z: "reaches pin_step (pin_start 2) (demo_race ! 0)" by (simp add: demo_race_def Let_def reaches_refl)
  have r1: "reaches pin_step (pin_start 2) (demo_race ! 1)"
    by (rule reaches_via [OF z pin_step.load [of "demo_race ! 0" 0]]) code_simp+
  have r2: "reaches pin_step (pin_start 2) (demo_race ! 2)"
    by (rule reaches_via [OF r1 pin_step.count_in [of "demo_race ! 1" 0]]) code_simp+
  have r3: "reaches pin_step (pin_start 2) (demo_race ! 3)"
    by (rule reaches_via [OF r2 pin_step.accepted [of "demo_race ! 2" 0]]) code_simp+
  have r4: "reaches pin_step (pin_start 2) (demo_race ! 4)"
    by (rule reaches_via [OF r3 pin_step.finished [of "demo_race ! 3" 0]]) code_simp+
  have r5: "reaches pin_step (pin_start 2) (demo_race ! 5)"
    by (rule reaches_via [OF r4 pin_step.count_out [of "demo_race ! 4" 0]]) code_simp+
  have r6: "reaches pin_step (pin_start 2) (demo_race ! 6)"
    by (rule reaches_via [OF r5 pin_step.load [of "demo_race ! 5" 1]]) code_simp+
  have r7: "reaches pin_step (pin_start 2) (demo_race ! 7)"
    by (rule reaches_via [OF r6 pin_step.count_in [of "demo_race ! 6" 1]]) code_simp+
  have r8: "reaches pin_step (pin_start 2) (demo_race ! 8)"
    by (rule reaches_via [OF r7 pin_step.accepted [of "demo_race ! 7" 1]]) code_simp+
  have r9: "reaches pin_step (pin_start 2) (demo_race ! 9)"
    by (rule reaches_via [OF r8 pin_step.refuse [of "demo_race ! 8"]]) code_simp+
  have r10: "reaches pin_step (pin_start 2) (demo_race ! 10)"
    by (rule reaches_via [OF r9 pin_step.last_retired [of "demo_race ! 9" 0]]) code_simp+
  have "pn_released (demo_race ! 10) \<and> at (demo_race ! 10) 1 Pinned" by code_simp
  with r10 show ?thesis by blast
qed

end
