(* ===== verification/Probe.thy ===== *)
theory Probe
  imports Location Journal
begin

text \<open>
  Measurement events and their application, \<open>src/internal/probe/applier.go\<close>, with the store functions
  it calls: the probe receipts of \<open>src/internal/store/sqlite_probe.go\<close>, node locations
  (\<open>sqlite_location.go\<close>, \<open>landing_probe.go\<close>), the diagnostic upserts of \<open>sqlite.go\<close> and the health
  journal. A JSON column is represented by what decoding it gives, \<open>None\<close> for text that does not
  decode. The columns of a quality or unlock report that are only copied are one text value. The
  digest of an event is an argument. A transaction that returns an error changes nothing.
\<close>

datatype ProbeKind = Latency | Speed | Landing | Quality | Unlock | Health | OtherKind string
datatype Origin = HealthProbe | ManualDiagnostic | StartupExit | UnlockCheck | OtherOrigin string

record HealthResult =
  he_Tag :: string
  he_Success :: bool
  he_Latency :: duration
  he_Error :: string

record NodeDetectionResult =
  nd_NodeID :: node_id
  nd_TaskID :: string
  nd_LatencyStatus :: string
  nd_LatencyMs :: "int option"
  nd_LatencyError :: string
  nd_LatencyCheckedAt :: gtime
  nd_SpeedStatus :: string
  nd_AverageBytesPerSecond :: "int option"
  nd_PeakBytesPerSecond :: "int option"
  nd_BytesDownloaded :: int
  nd_SpeedDurationMs :: int
  nd_SpeedError :: string
  nd_SpeedCheckedAt :: gtime
  nd_ExitIP :: string
  nd_ExitIPFamily :: string
  nd_ExitCountry :: string
  nd_ExitCountryCode :: string
  nd_ExitIPStatus :: string
  nd_ExitIPError :: string
  nd_ExitIPCheckedAt :: gtime
  nd_UpdatedAt :: gtime

record NodeIPQualityResult =
  qu_NodeID :: node_id
  qu_TaskID :: string
  qu_Provider :: string
  qu_Report :: string
  qu_CheckedAt :: gtime
  qu_UpdatedAt :: gtime

record UnlockResult =
  un_NodeID :: node_id
  un_Report :: string
  un_CheckedAt :: gtime
  un_UpdatedAt :: gtime

record Result =
  re_NodeID :: node_id
  re_Kind :: ProbeKind
  re_Origin :: Origin
  re_Observation :: Observation
  re_Detection :: "NodeDetectionResult option"
  re_Quality :: "NodeIPQualityResult option"
  re_Unlock :: "UnlockResult option"
  re_Health :: "HealthResult option"

definition no_change :: Change where
  "no_change = \<lparr>ch_Location = empty_loc, ch_Changed = False, ch_MembershipChanged = False, ch_Applied = False, ch_Reason = []\<rparr>"

record Outcome =
  ot_ReceiptID :: string
  ot_Event :: Result
  ot_Applied :: bool
  ot_Reason :: string
  ot_Location :: Change
  ot_Seq :: int

record ProbeReceipt =
  pr_NodeID :: node_id
  pr_Stream :: string
  pr_EventID :: string
  pr_Revision :: int
  pr_StartedAt :: gtime
  pr_Result :: "Outcome option"
  pr_Pending :: bool

record location_row =
  lr_State :: "LocState option"
  lr_Revision :: int
  lr_Identity :: string
  lr_Region :: string
  lr_Country :: string

record probe_db =
  pd_journal :: journal_db
  pd_locations :: "(node_id \<times> location_row) list"
  pd_receipts :: "((node_id \<times> string) \<times> ProbeReceipt) list"
  pd_detection :: "(node_id \<times> NodeDetectionResult) list"
  pd_quality :: "((node_id \<times> string) \<times> NodeIPQualityResult) list"
  pd_unlock :: "(node_id \<times> UnlockResult) list"

datatype apply_error = StoreUnavailable | InvalidEvent string | NoLocation | UndecodableLocation | UndecodableReceipt | StoreError store_error

section \<open>Store functions\<close>

definition GetNodeLocation :: "region_tables \<Rightarrow> node_id \<Rightarrow> probe_db \<Rightarrow> apply_error + LocState" where
  "GetNodeLocation t n db = (case map_of (pd_locations db) n of None \<Rightarrow> Inl NoLocation
     | Some row \<Rightarrow> (case lr_State row of None \<Rightarrow> Inl UndecodableLocation
         | Some st \<Rightarrow>
             let st1 = st\<lparr>ls_Token := \<lparr>tk_Identity = lr_Identity row, tk_Revision = lr_Revision row\<rparr>\<rparr>;
                 iso = to_lower (trim_space (lr_Region row))
             in Inr (if lo_Source (ec_Current (ls_Evidence st1)) = OtherSource []
                     then st1\<lparr>ls_Evidence := (ls_Evidence st1)\<lparr>ec_Current :=
                            \<lparr>lo_ISO = iso, lo_Country = trim_space (lr_Country row), lo_Source = SourceLegacy,
                             lo_Known = ValidISO t (Normalize t iso), lo_CheckedAt = zero_time\<rparr>\<rparr>\<rparr>
                     else st1)))"

definition ApplyNodeLocation :: "region_tables \<Rightarrow> node_id \<Rightarrow> Observation \<Rightarrow> probe_db \<Rightarrow> (apply_error + Change) \<times> probe_db" where
  "ApplyNodeLocation t n obs db = (case GetNodeLocation t n db of Inl e \<Rightarrow> (Inl e, db)
     | Inr st \<Rightarrow>
         let (nxt, ch) = Decide t st obs
         in if \<not> ch_Applied ch then (Inr ch, db)
            else (Inr ch, db\<lparr>pd_locations := amap_at n (\<lambda>row. row\<lparr>lr_State := Some nxt,
                    lr_Region := (if ch_Changed ch then lo_ISO (ch_Location ch) else lr_Region row),
                    lr_Country := (if ch_Changed ch then lo_Country (ch_Location ch) else lr_Country row)\<rparr>) (pd_locations db)\<rparr>))"

definition keep_if :: "bool \<Rightarrow> 'a \<Rightarrow> 'a \<Rightarrow> 'a" where "keep_if b old new = (if b then old else new)"

definition merge_detection :: "NodeDetectionResult \<Rightarrow> NodeDetectionResult \<Rightarrow> NodeDetectionResult" where
  "merge_detection old new =
     (let l = (nd_LatencyStatus new = ''untested''); s = (nd_SpeedStatus new = ''untested''); x = (nd_ExitIPStatus new = ''untested'')
      in new\<lparr>nd_LatencyStatus := keep_if l (nd_LatencyStatus old) (nd_LatencyStatus new),
             nd_LatencyMs := keep_if l (nd_LatencyMs old) (nd_LatencyMs new),
             nd_LatencyError := keep_if l (nd_LatencyError old) (nd_LatencyError new),
             nd_LatencyCheckedAt := keep_if l (nd_LatencyCheckedAt old) (nd_LatencyCheckedAt new),
             nd_SpeedStatus := keep_if s (nd_SpeedStatus old) (nd_SpeedStatus new),
             nd_AverageBytesPerSecond := keep_if s (nd_AverageBytesPerSecond old) (nd_AverageBytesPerSecond new),
             nd_PeakBytesPerSecond := keep_if s (nd_PeakBytesPerSecond old) (nd_PeakBytesPerSecond new),
             nd_BytesDownloaded := keep_if s (nd_BytesDownloaded old) (nd_BytesDownloaded new),
             nd_SpeedDurationMs := keep_if s (nd_SpeedDurationMs old) (nd_SpeedDurationMs new),
             nd_SpeedError := keep_if s (nd_SpeedError old) (nd_SpeedError new),
             nd_SpeedCheckedAt := keep_if s (nd_SpeedCheckedAt old) (nd_SpeedCheckedAt new),
             nd_ExitIP := keep_if x (nd_ExitIP old) (nd_ExitIP new),
             nd_ExitIPFamily := keep_if x (nd_ExitIPFamily old) (nd_ExitIPFamily new),
             nd_ExitCountry := keep_if x (nd_ExitCountry old) (nd_ExitCountry new),
             nd_ExitCountryCode := keep_if x (nd_ExitCountryCode old) (nd_ExitCountryCode new),
             nd_ExitIPStatus := keep_if x (nd_ExitIPStatus old) (nd_ExitIPStatus new),
             nd_ExitIPError := keep_if x (nd_ExitIPError old) (nd_ExitIPError new),
             nd_ExitIPCheckedAt := keep_if x (nd_ExitIPCheckedAt old) (nd_ExitIPCheckedAt new)\<rparr>)"

text \<open>The foreign key on the node is the journal's table of nodes.\<close>

definition UpsertNodeDetectionResult :: "gtime \<Rightarrow> NodeDetectionResult \<Rightarrow> probe_db \<Rightarrow> (apply_error + unit) \<times> probe_db" where
  "UpsertNodeDetectionResult now r db =
     (let row = r\<lparr>nd_LatencyCheckedAt := formatTime (nd_LatencyCheckedAt r), nd_SpeedCheckedAt := formatTime (nd_SpeedCheckedAt r),
                 nd_ExitIPCheckedAt := formatTime (nd_ExitIPCheckedAt r), nd_UpdatedAt := formatTime now\<rparr>
      in if nd_NodeID r \<notin> set (db_nodes (pd_journal db)) then (Inl (StoreError ForeignKey), db)
         else (Inr (), db\<lparr>pd_detection := aput (nd_NodeID r)
                (case map_of (pd_detection db) (nd_NodeID r) of None \<Rightarrow> row | Some old \<Rightarrow> merge_detection old row) (pd_detection db)\<rparr>))"

definition UpsertNodeIPQualityResult :: "gtime \<Rightarrow> NodeIPQualityResult \<Rightarrow> probe_db \<Rightarrow> (apply_error + unit) \<times> probe_db" where
  "UpsertNodeIPQualityResult now r db =
     (if qu_NodeID r \<notin> set (db_nodes (pd_journal db)) then (Inl (StoreError ForeignKey), db)
      else (Inr (), db\<lparr>pd_quality := aput (qu_NodeID r, qu_Provider r) (r\<lparr>qu_CheckedAt := formatTime (qu_CheckedAt r), qu_UpdatedAt := formatTime now\<rparr>) (pd_quality db)\<rparr>))"

definition UpsertUnlockResult :: "gtime \<Rightarrow> UnlockResult \<Rightarrow> probe_db \<Rightarrow> (apply_error + unit) \<times> probe_db" where
  "UpsertUnlockResult now r db =
     (if un_NodeID r \<notin> set (db_nodes (pd_journal db)) then (Inl (StoreError ForeignKey), db)
      else (Inr (), db\<lparr>pd_unlock := aput (un_NodeID r)
             (r\<lparr>un_CheckedAt := formatTime (if is_zero_time (un_CheckedAt r) then now else un_CheckedAt r), un_UpdatedAt := formatTime now\<rparr>) (pd_unlock db)\<rparr>))"

definition ApplyLandingResult :: "region_tables \<Rightarrow> gtime \<Rightarrow> Observation \<Rightarrow> NodeDetectionResult \<Rightarrow> probe_db \<Rightarrow>
    (apply_error + Change) \<times> probe_db" where
  "ApplyLandingResult t now obs r db =
     (let o1 = obs\<lparr>ob_Succeeded := (nd_ExitIPStatus r = ''success''), ob_IP := nd_ExitIP r, ob_ISO := nd_ExitCountryCode r,
                   ob_Country := nd_ExitCountry r, ob_CheckedAt := nd_ExitIPCheckedAt r\<rparr>
      in case ApplyNodeLocation t (nd_NodeID r) o1 db of
           (Inl e, _) \<Rightarrow> (Inl e, db)
         | (Inr ch, db1) \<Rightarrow>
             if \<not> ch_Applied ch then (Inr ch, db1)
             else (case UpsertNodeDetectionResult now r db1 of (Inl e, _) \<Rightarrow> (Inl e, db) | (Inr _, db2) \<Rightarrow> (Inr ch, db2)))"

definition GetProbeReceipt :: "node_id \<Rightarrow> string \<Rightarrow> probe_db \<Rightarrow> ProbeReceipt option" where
  "GetProbeReceipt n stream db = map_of (pd_receipts db) (n, stream)"

definition PutProbeReceipt :: "ProbeReceipt \<Rightarrow> probe_db \<Rightarrow> probe_db" where
  "PutProbeReceipt r db = db\<lparr>pd_receipts := aput (pr_NodeID r, pr_Stream r) r (pd_receipts db)\<rparr>"

text \<open>\<open>fault\<close> is the error of the database, if the statement fails; then no row changes.\<close>

definition AcknowledgeProbeReceipt :: "string option \<Rightarrow> node_id \<Rightarrow> string \<Rightarrow> string \<Rightarrow> probe_db \<Rightarrow> string option \<times> probe_db" where
  "AcknowledgeProbeReceipt fault n stream eventID db = (case fault of Some e \<Rightarrow> (Some e, db)
     | None \<Rightarrow> (None, db\<lparr>pd_receipts :=
         amap_at (n, stream) (\<lambda>r. if pr_EventID r = eventID then r\<lparr>pr_Pending := False\<rparr> else r) (pd_receipts db)\<rparr>))"

section \<open>Events\<close>

definition kind_name :: "ProbeKind \<Rightarrow> string" where
  "kind_name k = (case k of Latency \<Rightarrow> ''latency'' | Speed \<Rightarrow> ''speed'' | Landing \<Rightarrow> ''landing'' | Quality \<Rightarrow> ''quality''
     | Unlock \<Rightarrow> ''unlock'' | Health \<Rightarrow> ''health'' | OtherKind s \<Rightarrow> s)"

definition Stream :: "Result \<Rightarrow> string" where
  "Stream r = (case (re_Kind r, re_Quality r) of
     (Quality, Some q) \<Rightarrow> ''quality:'' @ to_lower (trim_space (qu_Provider q)) | (k, _) \<Rightarrow> kind_name k)"

definition untouched :: "string \<Rightarrow> bool" where "untouched s \<longleftrightarrow> s = [] \<or> s = ''untested''"

definition payload_error :: "Result \<Rightarrow> string option" where
  "payload_error r = (case re_Kind r of
     Health \<Rightarrow> (case re_Health r of None \<Rightarrow> Some ''health events require health probe origin''
         | Some h \<Rightarrow> if re_Origin r \<noteq> HealthProbe \<or> he_Tag h = [] then Some ''health events require health probe origin'' else None)
   | Quality \<Rightarrow> (case re_Quality r of None \<Rightarrow> Some ''invalid quality payload''
         | Some q \<Rightarrow> if re_Origin r \<noteq> ManualDiagnostic \<or> qu_NodeID q \<noteq> re_NodeID r \<or> trim_space (qu_Provider q) = []
                     then Some ''invalid quality payload'' else None)
   | Unlock \<Rightarrow> (case re_Unlock r of None \<Rightarrow> Some ''invalid unlock payload''
         | Some u \<Rightarrow> if re_Origin r \<noteq> ManualDiagnostic \<and> re_Origin r \<noteq> UnlockCheck \<or> un_NodeID u \<noteq> re_NodeID r
                     then Some ''invalid unlock payload'' else None)
   | OtherKind _ \<Rightarrow> Some ''invalid probe kind''
   | k \<Rightarrow> (case re_Detection r of None \<Rightarrow> Some ''invalid detection payload''
         | Some d \<Rightarrow>
             if nd_NodeID d \<noteq> re_NodeID r then Some ''invalid detection payload''
             else if k \<noteq> Landing \<and> re_Origin r \<noteq> ManualDiagnostic then Some ''manual diagnostics require manual origin''
             else if k = Landing \<and> ob_Source (re_Observation r) \<noteq> SourceGeoIPExit \<and> ob_Source (re_Observation r) \<noteq> SourceExitProbe
             then Some ''landing requires exit evidence''
             else if k \<noteq> Latency \<and> \<not> untouched (nd_LatencyStatus d) \<or> k \<noteq> Speed \<and> \<not> untouched (nd_SpeedStatus d) \<or>
                     k \<noteq> Landing \<and> \<not> untouched (nd_ExitIPStatus d)
             then Some ''detection event writes another stream'' else None))"

definition payloads :: "Result \<Rightarrow> nat" where
  "payloads r = of_bool (re_Detection r \<noteq> None) + of_bool (re_Quality r \<noteq> None) + of_bool (re_Unlock r \<noteq> None) + of_bool (re_Health r \<noteq> None)"

definition validate_result :: "Result \<Rightarrow> string option" where
  "validate_result r =
     (let ob = re_Observation r
      in if re_NodeID r \<le> 0 \<or> tk_Identity (ob_Token ob) = [] \<or> tk_Revision (ob_Token ob) \<le> 0 \<or> ob_ProbeID ob = [] \<or>
            is_zero_time (ob_StartedAt ob) \<or> ob_CheckedAt ob < ob_StartedAt ob then Some ''invalid probe identity or time''
         else if re_Origin r \<notin> {HealthProbe, ManualDiagnostic, StartupExit, UnlockCheck} then Some ''invalid probe origin''
         else if re_Origin r = HealthProbe \<and> re_Kind r \<noteq> Health \<or> re_Origin r = StartupExit \<and> re_Kind r \<noteq> Landing \<or>
                 re_Origin r = UnlockCheck \<and> re_Kind r \<noteq> Unlock then Some ''probe origin cannot publish this kind''
         else if payloads r \<noteq> 1 then Some ''probe event must contain exactly one payload''
         else payload_error r)"

section \<open>Application\<close>

definition health_row :: "LocState \<Rightarrow> Result \<Rightarrow> HealthResult \<Rightarrow> HealthEvent" where
  "health_row cur r h = \<lparr>jv_Seq = 0, jv_NodeID = re_NodeID r, jv_IdentityToken = tk_Identity (ls_Token cur),
     jv_IdentityRevision = tk_Revision (ls_Token cur), jv_Tag = he_Tag h, jv_ProbeID = ob_ProbeID (re_Observation r),
     jv_Success = he_Success h, jv_LatencyMs = sgn (he_Latency h) * (\<bar>he_Latency h\<bar> div millisecond), jv_Error = he_Error h,
     jv_CheckedAt = ob_CheckedAt (re_Observation r), jv_RecordedAt = zero_time\<rparr>"

text \<open>The switch over the kind: the facts are written and the outcome gets its location or sequence
  number. A landing that is not applied ends the transaction with its own reason.\<close>

definition write_facts :: "region_tables \<Rightarrow> gtime \<Rightarrow> LocState \<Rightarrow> Outcome \<Rightarrow> probe_db \<Rightarrow> (apply_error + bool \<times> Outcome) \<times> probe_db" where
  "write_facts t now cur out db =
     (let r = ot_Event out
      in case (re_Kind r, re_Detection r, re_Quality r, re_Unlock r, re_Health r) of
           (Landing, Some d, _, _, _) \<Rightarrow>
             (case ApplyLandingResult t now (re_Observation r) d db of
                (Inl e, db1) \<Rightarrow> (Inl e, db1)
              | (Inr ch, db1) \<Rightarrow>
                  if ch_Applied ch then (Inr (True, out\<lparr>ot_Location := ch\<rparr>), db1)
                  else (Inr (False, out\<lparr>ot_Location := ch, ot_Reason := ch_Reason ch\<rparr>), db1))
         | (Latency, Some d, _, _, _) \<Rightarrow>
             (case UpsertNodeDetectionResult now d db of (Inl e, db1) \<Rightarrow> (Inl e, db1) | (Inr _, db1) \<Rightarrow> (Inr (True, out), db1))
         | (Speed, Some d, _, _, _) \<Rightarrow>
             (case UpsertNodeDetectionResult now d db of (Inl e, db1) \<Rightarrow> (Inl e, db1) | (Inr _, db1) \<Rightarrow> (Inr (True, out), db1))
         | (Quality, _, Some q, _, _) \<Rightarrow>
             (case UpsertNodeIPQualityResult now q db of (Inl e, db1) \<Rightarrow> (Inl e, db1) | (Inr _, db1) \<Rightarrow> (Inr (True, out), db1))
         | (Unlock, _, _, Some u, _) \<Rightarrow>
             (case UpsertUnlockResult now u db of (Inl e, db1) \<Rightarrow> (Inl e, db1) | (Inr _, db1) \<Rightarrow> (Inr (True, out), db1))
         | (Health, _, _, _, Some h) \<Rightarrow>
             (case AppendHealthEvent now (health_row cur r h) (pd_journal db) of
                (Inl e, j) \<Rightarrow> (Inl (StoreError e), db\<lparr>pd_journal := j\<rparr>)
              | (Inr seq, j) \<Rightarrow> (Inr (True, out\<lparr>ot_Seq := seq\<rparr>), db\<lparr>pd_journal := j\<rparr>))
         | _ \<Rightarrow> (Inr (True, out), db))"

definition apply_tx :: "region_tables \<Rightarrow> gtime \<Rightarrow> Outcome \<Rightarrow> probe_db \<Rightarrow> (apply_error + Outcome) \<times> probe_db" where
  "apply_tx t now out db =
     (let ev = ot_Event out; ob = re_Observation ev
      in case GetNodeLocation t (re_NodeID ev) db of Inl e \<Rightarrow> (Inl e, db)
         | Inr cur \<Rightarrow>
             if ls_Token cur \<noteq> ob_Token ob then (Inr (out\<lparr>ot_Reason := ''obsolete_identity''\<rparr>), db)
             else let write = (case write_facts t now cur out db of
                        (Inl e, _) \<Rightarrow> (Inl e, db)
                      | (Inr (False, out1), db1) \<Rightarrow> (Inr out1, db1)
                      | (Inr (True, out1), db1) \<Rightarrow>
                          let out2 = out1\<lparr>ot_Applied := True, ot_Reason := ''applied''\<rparr>
                          in (Inr out2, PutProbeReceipt \<lparr>pr_NodeID = re_NodeID ev, pr_Stream = Stream ev, pr_EventID = ot_ReceiptID out,
                                pr_Revision = tk_Revision (ls_Token cur), pr_StartedAt = ob_StartedAt ob, pr_Result = Some out2,
                                pr_Pending = True\<rparr> db1))
                  in case GetProbeReceipt (re_NodeID ev) (Stream ev) db of
                       Some prev \<Rightarrow>
                         if pr_Revision prev = tk_Revision (ls_Token cur) \<and> re_Kind ev \<noteq> Landing
                         then (case pr_Result prev of None \<Rightarrow> (Inl UndecodableReceipt, db)
                               | Some prior \<Rightarrow>
                                   if ob_ProbeID (re_Observation (ot_Event prior)) = ob_ProbeID ob then (Inr (out\<lparr>ot_Reason := ''duplicate''\<rparr>), db)
                                   else if ob_StartedAt ob < pr_StartedAt prev then (Inr (out\<lparr>ot_Reason := ''older_probe''\<rparr>), db)
                                   else write)
                         else write
                     | None \<Rightarrow> write)"

definition Apply :: "region_tables \<Rightarrow> (Result \<Rightarrow> string) \<Rightarrow> gtime \<Rightarrow> Result \<Rightarrow> probe_db option \<Rightarrow> (apply_error + Outcome) \<times> probe_db option" where
  "Apply t digest now ev dbo = (case dbo of None \<Rightarrow> (Inl StoreUnavailable, None)
     | Some db \<Rightarrow> (case validate_result ev of Some e \<Rightarrow> (Inl (InvalidEvent e), Some db)
         | None \<Rightarrow>
             (case apply_tx t now \<lparr>ot_ReceiptID = digest ev, ot_Event = ev, ot_Applied = False, ot_Reason = [], ot_Location = no_change, ot_Seq = 0\<rparr> db of
                (Inl e, _) \<Rightarrow> (Inl e, Some db)
              | (Inr out, db1) \<Rightarrow> (Inr out, Some db1))))"

definition Acknowledge :: "string option \<Rightarrow> Outcome \<Rightarrow> probe_db \<Rightarrow> string option \<times> probe_db" where
  "Acknowledge fault out db = AcknowledgeProbeReceipt fault (re_NodeID (ot_Event out)) (Stream (ot_Event out)) (ot_ReceiptID out) db"

text \<open>An exit measurement enters through the same path, with the other streams marked untested.\<close>

definition landing_part :: "NodeDetectionResult \<Rightarrow> NodeDetectionResult" where
  "landing_part r = \<lparr>nd_NodeID = nd_NodeID r, nd_TaskID = nd_TaskID r, nd_LatencyStatus = ''untested'', nd_LatencyMs = None,
     nd_LatencyError = [], nd_LatencyCheckedAt = zero_time, nd_SpeedStatus = ''untested'', nd_AverageBytesPerSecond = None,
     nd_PeakBytesPerSecond = None, nd_BytesDownloaded = 0, nd_SpeedDurationMs = 0, nd_SpeedError = [], nd_SpeedCheckedAt = zero_time,
     nd_ExitIP = nd_ExitIP r, nd_ExitIPFamily = nd_ExitIPFamily r, nd_ExitCountry = nd_ExitCountry r,
     nd_ExitCountryCode = nd_ExitCountryCode r, nd_ExitIPStatus = nd_ExitIPStatus r, nd_ExitIPError = nd_ExitIPError r,
     nd_ExitIPCheckedAt = nd_ExitIPCheckedAt r, nd_UpdatedAt = zero_time\<rparr>"

definition ApplyLanding :: "region_tables \<Rightarrow> (Result \<Rightarrow> string) \<Rightarrow> gtime \<Rightarrow> Observation \<Rightarrow> NodeDetectionResult option \<Rightarrow> Origin \<Rightarrow>
    probe_db option \<Rightarrow> (apply_error + Change) \<times> probe_db option" where
  "ApplyLanding t digest now obs result origin dbo = (case result of
     None \<Rightarrow> (Inl (InvalidEvent ''missing landing result''), dbo)
   | Some r \<Rightarrow>
       let ev = \<lparr>re_NodeID = nd_NodeID r, re_Kind = Landing, re_Origin = origin,
                 re_Observation = obs\<lparr>ob_CheckedAt := nd_ExitIPCheckedAt r\<rparr>, re_Detection = Some (landing_part r),
                 re_Quality = None, re_Unlock = None, re_Health = None\<rparr>
       in case Apply t digest now ev dbo of (Inl e, dbo1) \<Rightarrow> (Inl e, dbo1) | (Inr out, dbo1) \<Rightarrow> (Inr (ot_Location out), dbo1))"

text \<open>The rows the pending query returns are in the order of the database engine (\<open>ORDER BY\<close> over
  the stored text), an argument here. The limit of the caller is 1000.\<close>

definition ListPendingProbeReceipts :: "(ProbeReceipt list \<Rightarrow> ProbeReceipt list) \<Rightarrow> int \<Rightarrow> probe_db \<Rightarrow> ProbeReceipt list" where
  "ListPendingProbeReceipts order limit db =
     (let n = (if limit \<le> 0 \<or> limit > 1000 then 1000 else limit)
      in take (nat n) (order (filter pr_Pending (map snd (pd_receipts db)))))"

text \<open>The faults of the database during the projection of one receipt: reading the latest receipt, reading
  the location, acknowledging.\<close>

record reconcile_faults =
  rf_Receipt :: bool
  rf_Location :: bool
  rf_Ack :: "string option"

text \<open>The projection of one listed receipt. A consumer is a function from the outcome to its error, if
  any; the calls made are the second component, the failure of the row the first.\<close>

definition reconcile_row :: "region_tables \<Rightarrow> (ProbeReceipt \<Rightarrow> reconcile_faults) \<Rightarrow> (Outcome \<Rightarrow> string option) \<Rightarrow> ProbeReceipt \<Rightarrow>
    probe_db \<Rightarrow> bool \<times> Outcome list \<times> probe_db" where
  "reconcile_row t faults consume receipt db =
     (if rf_Receipt (faults receipt) then (True, [], db)
      else case GetProbeReceipt (pr_NodeID receipt) (pr_Stream receipt) db of
        None \<Rightarrow> (False, [], db)
      | Some latest \<Rightarrow>
          if pr_EventID latest \<noteq> pr_EventID receipt then (False, [], db)
          else case pr_Result receipt of None \<Rightarrow> (True, [], db)
               | Some out \<Rightarrow>
                   let ack = (\<lambda>calls. let (e, db1) = Acknowledge (rf_Ack (faults receipt)) out db in (e \<noteq> None, calls, db1))
                   in if rf_Location (faults receipt) then (True, [], db)
                   else (case GetNodeLocation t (pr_NodeID receipt) db of Inl _ \<Rightarrow> (True, [], db)
                   | Inr cur \<Rightarrow>
                       if ls_Token cur \<noteq> ob_Token (re_Observation (ot_Event out)) then ack []
                       else case consume out of Some _ \<Rightarrow> (True, [out], db) | None \<Rightarrow> ack [out]))"

text \<open>\<open>quits\<close> tells after how many rows the context is found cancelled.\<close>

fun reconcile_rows :: "region_tables \<Rightarrow> (ProbeReceipt \<Rightarrow> reconcile_faults) \<Rightarrow> (Outcome \<Rightarrow> string option) \<Rightarrow> (nat \<Rightarrow> bool) \<Rightarrow> nat \<Rightarrow>
    ProbeReceipt list \<Rightarrow> probe_db \<Rightarrow> nat \<times> Outcome list \<times> probe_db" where
  "reconcile_rows t faults consume quits i [] db = (0, [], db)"
| "reconcile_rows t faults consume quits i (r # rs) db =
     (if quits i then (1, [], db)
      else let (failed, calls, db1) = reconcile_row t faults consume r db;
               (n, more_calls, db2) = reconcile_rows t faults consume quits (Suc i) rs db1
           in (of_bool failed + n, calls @ more_calls, db2))"

text \<open>\<open>listed\<close> is false when the pending receipts cannot be read: that error is all there is.\<close>

definition Reconcile :: "region_tables \<Rightarrow> (ProbeReceipt list \<Rightarrow> ProbeReceipt list) \<Rightarrow> bool \<Rightarrow> (ProbeReceipt \<Rightarrow> reconcile_faults) \<Rightarrow>
    (Outcome \<Rightarrow> string option) \<Rightarrow> (nat \<Rightarrow> bool) \<Rightarrow> probe_db \<Rightarrow> nat \<times> Outcome list \<times> probe_db" where
  "Reconcile t order listed faults consume quits db =
     (if \<not> listed then (1, [], db)
      else reconcile_rows t faults consume quits 0 (ListPendingProbeReceipts order 1000 db) db)"

end
