(* ===== verification/Monitor.thy ===== *)
theory Monitor
  imports Hub_Index Probe
begin

text \<open>
  The monitor's registry of nodes and their health: \<open>src/internal/monitor/node_registry.go\<close>,
  \<open>health_applier.go\<close> and the entry, snapshot and schedule parts of \<open>manager.go\<close>. Entries are objects
  that both indexes and callers share, so they live in a store and the indexes hold addresses. The
  callbacks of an entry are represented by whether they are set. The identity hash of a node address is
  an argument (\<open>None\<close>: the address does not parse). The debug log stream and the traffic speeds
  (floating point) are left out. The reload generation is a natural number. Against the literal
  \<open>strict\<close> the comparison of \<open>NormalizeStartupAvailabilityPolicy\<close> folds ASCII letters.
\<close>

record NodeInfo =
  in_NodeID :: node_id
  in_Tag :: string
  in_Name :: string
  in_URI :: string
  in_Mode :: string
  in_ListenAddress :: string
  in_Port :: int
  in_Region :: string
  in_Country :: string

record TimelineEvent =
  te_Time :: gtime
  te_Success :: bool
  te_LatencyMs :: int
  te_Error :: string
  te_Destination :: string

record entry =
  en_healthReceiptID :: string
  en_healthReceiptAt :: gtime
  en_info :: NodeInfo
  en_failure :: int
  en_success :: int
  en_timeline :: "TimelineEvent list"
  en_blacklist :: bool
  en_until :: gtime
  en_lastError :: string
  en_lastFail :: gtime
  en_lastOK :: gtime
  en_lastProbe :: duration
  en_lastHealthCheck :: gtime
  en_active :: int
  en_totalUpload :: int
  en_totalDownload :: int
  en_probe :: bool
  en_release :: bool
  en_dialer :: bool
  en_initialCheckDone :: bool
  en_available :: bool
  en_healthSource :: string
  en_healthUpdatedAt :: gtime
  en_reloadGen :: nat

definition empty_info :: NodeInfo where
  "empty_info = \<lparr>in_NodeID = 0, in_Tag = [], in_Name = [], in_URI = [], in_Mode = [], in_ListenAddress = [], in_Port = 0,
     in_Region = [], in_Country = []\<rparr>"

definition new_entry :: entry where
  "new_entry = \<lparr>en_healthReceiptID = [], en_healthReceiptAt = zero_time, en_info = empty_info, en_failure = 0, en_success = 0,
     en_timeline = [], en_blacklist = False, en_until = zero_time, en_lastError = [], en_lastFail = zero_time,
     en_lastOK = zero_time, en_lastProbe = 0, en_lastHealthCheck = zero_time, en_active = 0, en_totalUpload = 0,
     en_totalDownload = 0, en_probe = False, en_release = False, en_dialer = False, en_initialCheckDone = False,
     en_available = False, en_healthSource = ''none'', en_healthUpdatedAt = zero_time, en_reloadGen = 0\<rparr>"

section \<open>Entry operations\<close>

definition maxTimelineSize :: nat where "maxTimelineSize = 20"

definition appendTimelineLocked :: "gtime \<Rightarrow> bool \<Rightarrow> int \<Rightarrow> string \<Rightarrow> string \<Rightarrow> entry \<Rightarrow> entry" where
  "appendTimelineLocked now ok ms err dst e =
     (let ev = \<lparr>te_Time = now, te_Success = ok, te_LatencyMs = ms, te_Error = err, te_Destination = dst\<rparr>;
          tl = en_timeline e
      in e\<lparr>en_timeline := (if length tl \<ge> maxTimelineSize then List.tl tl @ [ev] else tl @ [ev])\<rparr>)"

definition milliseconds :: "duration \<Rightarrow> int" where
  "milliseconds d = sgn d * (\<bar>d\<bar> div millisecond)"

definition entry_recordFailure :: "gtime \<Rightarrow> string \<Rightarrow> string \<Rightarrow> entry \<Rightarrow> entry" where
  "entry_recordFailure now err dst e =
     appendTimelineLocked now False 0 err dst (e\<lparr>en_failure := en_failure e + 1, en_lastError := err, en_lastFail := now\<rparr>)"

definition entry_recordSuccess :: "gtime \<Rightarrow> string \<Rightarrow> entry \<Rightarrow> entry" where
  "entry_recordSuccess now dst e = appendTimelineLocked now True 0 [] dst (e\<lparr>en_success := en_success e + 1, en_lastOK := now\<rparr>)"

definition recordSuccessWithLatency :: "gtime \<Rightarrow> duration \<Rightarrow> entry \<Rightarrow> entry" where
  "recordSuccessWithLatency now latency e =
     (let e1 = e\<lparr>en_success := en_success e + 1, en_lastOK := now, en_lastProbe := latency, en_available := True,
                 en_initialCheckDone := True, en_healthSource := ''runtime'', en_healthUpdatedAt := now\<rparr>;
          ms = milliseconds latency
      in appendTimelineLocked now True (if ms = 0 \<and> latency > 0 then 1 else ms) [] [] e1)"

definition blacklistUntil :: "gtime \<Rightarrow> entry \<Rightarrow> entry" where
  "blacklistUntil t e = e\<lparr>en_blacklist := True, en_until := t\<rparr>"

definition clearBlacklist :: "entry \<Rightarrow> entry" where
  "clearBlacklist e = e\<lparr>en_blacklist := False, en_until := zero_time\<rparr>"

definition entry_incActive :: "entry \<Rightarrow> entry" where "entry_incActive e = e\<lparr>en_active := en_active e + 1\<rparr>"
definition entry_decActive :: "entry \<Rightarrow> entry" where "entry_decActive e = e\<lparr>en_active := en_active e - 1\<rparr>"
definition setProbe :: "bool \<Rightarrow> entry \<Rightarrow> entry" where "setProbe fn e = e\<lparr>en_probe := fn\<rparr>"
definition setRelease :: "bool \<Rightarrow> entry \<Rightarrow> entry" where "setRelease fn e = e\<lparr>en_release := fn\<rparr>"
definition setDialer :: "bool \<Rightarrow> entry \<Rightarrow> entry" where "setDialer fn e = e\<lparr>en_dialer := fn\<rparr>"

definition MarkInitialCheckDone :: "bool \<Rightarrow> entry \<Rightarrow> entry" where
  "MarkInitialCheckDone available e = e\<lparr>en_initialCheckDone := True, en_available := available\<rparr>"

definition AddTraffic :: "int \<Rightarrow> int \<Rightarrow> entry \<Rightarrow> entry" where
  "AddTraffic up down e = e\<lparr>en_totalUpload := (if up > 0 then wrap64 (en_totalUpload e + up) else en_totalUpload e),
     en_totalDownload := (if down > 0 then wrap64 (en_totalDownload e + down) else en_totalDownload e)\<rparr>"

definition SetTraffic :: "int \<Rightarrow> int \<Rightarrow> entry \<Rightarrow> entry" where
  "SetTraffic up down e = e\<lparr>en_totalUpload := up, en_totalDownload := down\<rparr>"

section \<open>The registry\<close>

record nodeRegistry =
  rg_store :: "nat \<Rightarrow> entry"
  rg_next :: nat
  rg_byTag :: "(string \<times> nat) list"
  rg_byID :: "(node_id \<times> nat) list"
  rg_reload :: nat

definition newNodeRegistry :: nodeRegistry where
  "newNodeRegistry = \<lparr>rg_store = (\<lambda>_. new_entry), rg_next = 0, rg_byTag = [], rg_byID = [], rg_reload = 0\<rparr>"

definition update_entry :: "nat \<Rightarrow> (entry \<Rightarrow> entry) \<Rightarrow> nodeRegistry \<Rightarrow> nodeRegistry" where
  "update_entry a f r = r\<lparr>rg_store := (rg_store r)(a := f (rg_store r a))\<rparr>"

definition registry_tags :: "nodeRegistry \<Rightarrow> string list" where "registry_tags r = map fst (rg_byTag r)"
definition registry_entries :: "nodeRegistry \<Rightarrow> nat list" where "registry_entries r = map snd (rg_byTag r)"
definition registry_count :: "nodeRegistry \<Rightarrow> nat" where "registry_count r = length (rg_byTag r)"
definition byTagEntry :: "string \<Rightarrow> nodeRegistry \<Rightarrow> nat option" where "byTagEntry tag r = map_of (rg_byTag r) tag"

definition byNodeID :: "node_id \<Rightarrow> nodeRegistry \<Rightarrow> nat option" where
  "byNodeID n r = (if n = 0 then None else map_of (rg_byID r) n)"

definition beginReload :: "nodeRegistry \<Rightarrow> nodeRegistry" where
  "beginReload r = r\<lparr>rg_reload := rg_reload r + 1\<rparr>"

text \<open>\<open>delete(r.byID, n)\<close> guarded by ownership, as four operations do it.\<close>

definition drop_id :: "node_id \<Rightarrow> nat \<Rightarrow> nodeRegistry \<Rightarrow> nodeRegistry" where
  "drop_id n a r = (if n \<noteq> 0 \<and> map_of (rg_byID r) n = Some a then r\<lparr>rg_byID := adel n (rg_byID r)\<rparr> else r)"

definition claim_id :: "node_id \<Rightarrow> nat \<Rightarrow> nodeRegistry \<Rightarrow> nodeRegistry" where
  "claim_id n a r = (if n \<noteq> 0 then r\<lparr>rg_byID := aput n a (rg_byID r)\<rparr> else r)"

definition sweep_one :: "string \<times> nat \<Rightarrow> nodeRegistry \<Rightarrow> nodeRegistry" where
  "sweep_one = (\<lambda>(tag, a) r.
     if en_reloadGen (rg_store r a) = rg_reload r then r
     else drop_id (in_NodeID (en_info (rg_store r a))) a (r\<lparr>rg_byTag := adel tag (rg_byTag r)\<rparr>))"

definition sweepStale :: "nodeRegistry \<Rightarrow> nodeRegistry" where
  "sweepStale r = fold sweep_one (rg_byTag r) r"

definition registry_clear :: "nodeRegistry \<Rightarrow> nodeRegistry" where
  "registry_clear r = r\<lparr>rg_byTag := [], rg_byID := []\<rparr>"

definition reown :: "NodeInfo \<Rightarrow> nat \<Rightarrow> nodeRegistry \<Rightarrow> nodeRegistry" where
  "reown info a r =
     (let old = in_NodeID (en_info (rg_store r a));
          r1 = update_entry a (\<lambda>e. e\<lparr>en_info := info, en_reloadGen := rg_reload r\<rparr>) r;
          r2 = (if old \<noteq> in_NodeID info then drop_id old a r1 else r1)
      in claim_id (in_NodeID info) a r2)"

definition registry_register :: "NodeInfo \<Rightarrow> nodeRegistry \<Rightarrow> nat \<times> nodeRegistry" where
  "registry_register info r = (case map_of (rg_byTag r) (in_Tag info) of
     None \<Rightarrow> let a = rg_next r;
                 r1 = r\<lparr>rg_store := (rg_store r)(a := new_entry\<lparr>en_info := info, en_reloadGen := rg_reload r\<rparr>), rg_next := a + 1,
                        rg_byTag := aput (in_Tag info) a (rg_byTag r)\<rparr>
             in (a, claim_id (in_NodeID info) a r1)
   | Some a \<Rightarrow> (a, reown info a r))"

definition identityChanged :: "(string \<Rightarrow> string option) \<Rightarrow> string \<Rightarrow> string \<Rightarrow> bool" where
  "identityChanged uri_hash old new \<longleftrightarrow> old \<noteq> [] \<and> old \<noteq> new \<and>
     (uri_hash old = None \<or> uri_hash new = None \<or> uri_hash old \<noteq> uri_hash new)"

text \<open>What a migration does to the entry it moves.\<close>

definition new_generation :: "string \<Rightarrow> string \<Rightarrow> entry \<Rightarrow> entry" where
  "new_generation oldTag tag e =
     (if oldTag \<noteq> [] \<and> oldTag \<noteq> tag
      then e\<lparr>en_initialCheckDone := False, en_available := False, en_lastHealthCheck := zero_time,
             en_healthSource := (if en_healthSource e \<noteq> ''none'' then ''previous_generation'' else en_healthSource e)\<rparr>
      else e)"

definition forget_health :: "bool \<Rightarrow> entry \<Rightarrow> entry" where
  "forget_health changed e =
     (if changed
      then e\<lparr>en_failure := 0, en_success := 0, en_blacklist := False, en_available := False, en_initialCheckDone := False,
             en_until := zero_time, en_lastFail := zero_time, en_lastOK := zero_time, en_lastHealthCheck := zero_time,
             en_healthUpdatedAt := zero_time, en_lastError := [], en_healthSource := ''none'', en_lastProbe := 0\<rparr>
      else e)"

definition migrated :: "(string \<Rightarrow> string option) \<Rightarrow> nat \<Rightarrow> string \<Rightarrow> NodeInfo \<Rightarrow> entry \<Rightarrow> entry" where
  "migrated uri_hash gen oldTag info e =
     forget_health (identityChanged uri_hash (in_URI (en_info e)) (in_URI info))
       (new_generation oldTag (in_Tag info) (e\<lparr>en_info := info, en_reloadGen := gen\<rparr>))"

definition registry_migrate :: "(string \<Rightarrow> string option) \<Rightarrow> node_id \<Rightarrow> NodeInfo \<Rightarrow> nodeRegistry \<Rightarrow> nat \<times> nodeRegistry" where
  "registry_migrate uri_hash n info r = (case map_of (rg_byTag r) (in_Tag info) of
     Some a \<Rightarrow> (a, reown info a r)
   | None \<Rightarrow>
       let (a, oldTag, r1) = (case map_of (rg_byID r) n of
             Some a \<Rightarrow> (let t = in_Tag (en_info (rg_store r a)) in (a, t, r\<lparr>rg_byTag := adel t (rg_byTag r)\<rparr>))
           | None \<Rightarrow> (rg_next r, [], r\<lparr>rg_store := (rg_store r)(rg_next r := new_entry), rg_next := rg_next r + 1\<rparr>));
           r2 = update_entry a (migrated uri_hash (rg_reload r) oldTag info) r1;
           r3 = r2\<lparr>rg_byTag := aput (in_Tag info) a (rg_byTag r2)\<rparr>;
           r4 = (if n \<noteq> in_NodeID info then drop_id n a r3 else r3)
       in (a, claim_id (in_NodeID info) a r4))"

definition registry_unregister :: "string \<Rightarrow> nodeRegistry \<Rightarrow> nodeRegistry" where
  "registry_unregister tag r = (case map_of (rg_byTag r) tag of None \<Rightarrow> r
     | Some a \<Rightarrow>
         let info = en_info (rg_store r a)
         in if in_Tag info = tag then drop_id (in_NodeID info) a (r\<lparr>rg_byTag := adel tag (rg_byTag r)\<rparr>) else r)"

section \<open>Snapshots\<close>

record NodeSnapshot =
  ns_Info :: NodeInfo
  ns_FailureCount :: int
  ns_SuccessCount :: int
  ns_Blacklisted :: bool
  ns_BlacklistedUntil :: gtime
  ns_ActiveConnections :: int
  ns_LastError :: string
  ns_LastFailure :: gtime
  ns_LastSuccess :: gtime
  ns_LastProbeLatency :: duration
  ns_LastLatencyMs :: int
  ns_Available :: bool
  ns_InitialCheckDone :: bool
  ns_Provisional :: bool
  ns_RoutingEligible :: bool
  ns_HealthSource :: string
  ns_HealthUpdatedAt :: gtime
  ns_HealthCheckedAt :: gtime
  ns_TotalUpload :: int
  ns_TotalDownload :: int
  ns_Timeline :: "TimelineEvent list"

definition latency_ms :: "entry \<Rightarrow> int" where
  "latency_ms e = (if en_lastProbe e > 0 then (let ms = milliseconds (en_lastProbe e) in if ms = 0 then 1 else ms) else -1)"

definition entry_snapshot :: "entry \<Rightarrow> NodeSnapshot" where
  "entry_snapshot e = \<lparr>ns_Info = en_info e, ns_FailureCount = en_failure e, ns_SuccessCount = en_success e,
     ns_Blacklisted = en_blacklist e, ns_BlacklistedUntil = en_until e, ns_ActiveConnections = en_active e,
     ns_LastError = en_lastError e, ns_LastFailure = en_lastFail e, ns_LastSuccess = en_lastOK e,
     ns_LastProbeLatency = en_lastProbe e, ns_LastLatencyMs = latency_ms e, ns_Available = en_available e,
     ns_InitialCheckDone = en_initialCheckDone e, ns_Provisional = False, ns_RoutingEligible = False,
     ns_HealthSource = en_healthSource e, ns_HealthUpdatedAt = en_healthUpdatedAt e, ns_HealthCheckedAt = en_lastHealthCheck e,
     ns_TotalUpload = en_totalUpload e, ns_TotalDownload = en_totalDownload e, ns_Timeline = en_timeline e\<rparr>"

definition StartupAvailabilityStrict :: string where "StartupAvailabilityStrict = ''strict''"
definition StartupAvailabilityOptimistic :: string where "StartupAvailabilityOptimistic = ''optimistic''"

definition NormalizeStartupAvailabilityPolicy :: "string \<Rightarrow> string" where
  "NormalizeStartupAvailabilityPolicy p =
     (if equal_fold (trim_space p) StartupAvailabilityStrict then StartupAvailabilityStrict else StartupAvailabilityOptimistic)"

definition decorateSnapshot :: "string \<Rightarrow> NodeSnapshot \<Rightarrow> NodeSnapshot" where
  "decorateSnapshot policy s =
     (let prov = \<not> ns_InitialCheckDone s \<and> policy = StartupAvailabilityOptimistic \<and> \<not> ns_Blacklisted s
      in s\<lparr>ns_Provisional := prov,
           ns_RoutingEligible := (\<not> ns_Blacklisted s \<and> (ns_InitialCheckDone s \<and> ns_Available s \<or> prov)),
           ns_HealthSource := (if ns_HealthSource s = [] then ''none'' else ns_HealthSource s)\<rparr>)"

section \<open>The manager\<close>

record groupHealthSchedule =
  gs_tags :: "string list"
  gs_nodeIDs :: "node_id list"
  gs_interval :: duration
  gs_token :: nat

text \<open>\<open>ma_store\<close> is both the journal and the applier's database: \<open>SetProbeStore\<close> sets them together.\<close>

record Manager =
  ma_registry :: nodeRegistry
  ma_hub :: healthEventHub
  ma_store :: "probe_db option"
  ma_probeEpoch :: gtime
  ma_target :: "string option"
  ma_startupPolicy :: string
  ma_healthInterval :: duration
  ma_healthStarted :: bool
  ma_groupSchedules :: "(group_id \<times> groupHealthSchedule) list"
  ma_groupScheduleNext :: nat

definition on_registry :: "(nodeRegistry \<Rightarrow> nodeRegistry) \<Rightarrow> Manager \<Rightarrow> Manager" where
  "on_registry f m = m\<lparr>ma_registry := f (ma_registry m)\<rparr>"

definition SnapshotForTag :: "Manager \<Rightarrow> string \<Rightarrow> NodeSnapshot option" where
  "SnapshotForTag m tag = map_option (\<lambda>a. decorateSnapshot (ma_startupPolicy m) (entry_snapshot (rg_store (ma_registry m) a)))
     (byTagEntry tag (ma_registry m))"

definition SnapshotForNodeID :: "Manager \<Rightarrow> node_id \<Rightarrow> NodeSnapshot option" where
  "SnapshotForNodeID m n = map_option (\<lambda>a. decorateSnapshot (ma_startupPolicy m) (entry_snapshot (rg_store (ma_registry m) a)))
     (byNodeID n (ma_registry m))"

definition snapshot_before :: "NodeSnapshot \<Rightarrow> NodeSnapshot \<Rightarrow> bool" where
  "snapshot_before s t =
     (let i = ns_LastLatencyMs s; j = ns_LastLatencyMs t
      in if i < 0 \<and> j < 0 then in_Name (ns_Info s) < in_Name (ns_Info t)
         else if i < 0 then False else if j < 0 then True
         else if i = j then in_Name (ns_Info s) < in_Name (ns_Info t) else i < j)"

fun insert_snapshot :: "NodeSnapshot \<Rightarrow> NodeSnapshot list \<Rightarrow> NodeSnapshot list" where
  "insert_snapshot s [] = [s]"
| "insert_snapshot s (t # ts) = (if snapshot_before t s then t # insert_snapshot s ts else s # t # ts)"

text \<open>\<open>sort.Slice\<close> is not stable; the insertion sort gives one of the orders it may give.\<close>

definition SnapshotFiltered :: "bool \<Rightarrow> Manager \<Rightarrow> NodeSnapshot list" where
  "SnapshotFiltered onlyAvailable m =
     foldr insert_snapshot
       (filter (\<lambda>s. \<not> (onlyAvailable \<and> ns_InitialCheckDone s \<and> \<not> ns_Available s))
         (map (\<lambda>a. decorateSnapshot (ma_startupPolicy m) (entry_snapshot (rg_store (ma_registry m) a))) (registry_entries (ma_registry m)))) []"

definition refresh_all :: "gtime \<Rightarrow> Manager \<Rightarrow> Manager" where
  "refresh_all now m = m\<lparr>ma_hub := broadcast (ma_store m \<noteq> None) (refresh_event now) (ma_hub m)\<rparr>"

definition SetStartupAvailabilityPolicy :: "gtime \<Rightarrow> string \<Rightarrow> Manager \<Rightarrow> Manager" where
  "SetStartupAvailabilityPolicy now policy m =
     (let p = NormalizeStartupAvailabilityPolicy policy; m1 = m\<lparr>ma_startupPolicy := p\<rparr>
      in if ma_startupPolicy m \<noteq> [] \<and> ma_startupPolicy m \<noteq> p then refresh_all now m1 else m1)"

definition UpdateNodeLocation :: "node_id \<Rightarrow> string \<Rightarrow> string \<Rightarrow> Manager \<Rightarrow> Manager" where
  "UpdateNodeLocation n region country =
     on_registry (\<lambda>r. fold (\<lambda>a. update_entry a (\<lambda>e. if in_NodeID (en_info e) = n
         then e\<lparr>en_info := (en_info e)\<lparr>in_Region := to_lower (trim_space region), in_Country := trim_space country\<rparr>\<rparr> else e))
       (registry_entries r) r)"

record PersistedHealthState =
  ph_FailureCount :: int
  ph_SuccessCount :: int
  ph_Blacklisted :: bool
  ph_BlacklistedUntil :: gtime
  ph_LastError :: string
  ph_LastFailure :: gtime
  ph_LastSuccess :: gtime
  ph_LastLatencyMs :: int
  ph_Available :: bool
  ph_TotalUpload :: int
  ph_TotalDownload :: int
  ph_UpdatedAt :: gtime

definition restore_entry :: "gtime \<Rightarrow> PersistedHealthState \<Rightarrow> entry \<Rightarrow> entry" where
  "restore_entry now st e = e\<lparr>en_failure := ph_FailureCount st, en_success := ph_SuccessCount st,
     en_blacklist := (ph_Blacklisted st \<and> (is_zero_time (ph_BlacklistedUntil st) \<or> ph_BlacklistedUntil st > now)),
     en_until := ph_BlacklistedUntil st, en_lastError := ph_LastError st, en_lastFail := ph_LastFailure st,
     en_lastOK := ph_LastSuccess st,
     en_lastProbe := (if ph_LastLatencyMs st > 0 then wrap64 (ph_LastLatencyMs st * millisecond) else en_lastProbe e),
     en_available := ph_Available st, en_initialCheckDone := False, en_healthSource := ''persisted'',
     en_healthUpdatedAt := ph_UpdatedAt st, en_totalUpload := ph_TotalUpload st, en_totalDownload := ph_TotalDownload st\<rparr>"

definition RestorePersistedHealth :: "gtime \<Rightarrow> (node_id \<times> PersistedHealthState) list \<Rightarrow> Manager \<Rightarrow> nat \<times> Manager" where
  "RestorePersistedHealth now states m =
     (let found = filter (\<lambda>(n, _). byNodeID n (ma_registry m) \<noteq> None) states;
          m1 = on_registry (fold (\<lambda>(n, st) r. case byNodeID n r of None \<Rightarrow> r | Some a \<Rightarrow> update_entry a (restore_entry now st) r) states) m
      in (length found, if found = [] then m1 else refresh_all now m1))"

section \<open>Schedules\<close>

definition RegisterGroupHealthSchedule :: "group_id \<Rightarrow> string list \<Rightarrow> duration \<Rightarrow> Manager \<Rightarrow> nat option \<times> Manager" where
  "RegisterGroupHealthSchedule g tags interval m =
     (if g = 0 \<or> interval \<le> 0 then (None, m)
      else let token = ma_groupScheduleNext m + 1
           in (Some token, m\<lparr>ma_groupScheduleNext := token, ma_groupSchedules := aput g
                 \<lparr>gs_tags = filter (\<lambda>t. t \<noteq> []) tags, gs_nodeIDs = [], gs_interval = interval, gs_token = token\<rparr> (ma_groupSchedules m)\<rparr>))"

definition RegisterGroupHealthScheduleByNodeID :: "group_id \<Rightarrow> node_id list \<Rightarrow> duration \<Rightarrow> Manager \<Rightarrow> nat option \<times> Manager" where
  "RegisterGroupHealthScheduleByNodeID g ids interval m =
     (if g = 0 \<or> interval \<le> 0 then (None, m)
      else let token = ma_groupScheduleNext m + 1
           in (Some token, m\<lparr>ma_groupScheduleNext := token, ma_groupSchedules := aput g
                 \<lparr>gs_tags = [], gs_nodeIDs = filter (\<lambda>n. n \<noteq> 0) ids, gs_interval = interval, gs_token = token\<rparr> (ma_groupSchedules m)\<rparr>))"

text \<open>The function both registrations return: it removes the schedule it installed, not a later one.\<close>

definition unregister_schedule :: "group_id \<Rightarrow> nat option \<Rightarrow> Manager \<Rightarrow> Manager" where
  "unregister_schedule g token m = (case (token, map_of (ma_groupSchedules m) g) of
     (Some t, Some s) \<Rightarrow> if gs_token s = t then m\<lparr>ma_groupSchedules := adel g (ma_groupSchedules m)\<rparr> else m
   | _ \<Rightarrow> m)"

definition StartPeriodicHealthCheck :: "duration \<Rightarrow> Manager \<Rightarrow> Manager" where
  "StartPeriodicHealthCheck interval m =
     m\<lparr>ma_healthInterval := (if interval \<le> 0 then 2 * hour else interval), ma_healthStarted := True\<rparr>"

definition SetHealthCheckInterval :: "duration \<Rightarrow> Manager \<Rightarrow> Manager" where
  "SetHealthCheckInterval d m = (if d \<le> 0 then m else m\<lparr>ma_healthInterval := d\<rparr>)"

record probeScheduleSnapshot =
  ps_started :: bool
  ps_base :: duration
  ps_byTag :: "(string \<times> duration) list"
  ps_byNodeID :: "(node_id \<times> duration) list"

definition lower_to :: "duration \<Rightarrow> 'k \<Rightarrow> ('k \<times> duration) list \<Rightarrow> ('k \<times> duration) list" where
  "lower_to d k xs = (let c = (case map_of xs k of None \<Rightarrow> 0 | Some c \<Rightarrow> c) in if c = 0 \<or> d < c then aput k d xs else xs)"

definition add_schedule :: "groupHealthSchedule \<Rightarrow> probeScheduleSnapshot \<Rightarrow> probeScheduleSnapshot" where
  "add_schedule s p = (if gs_interval s \<le> 0 then p
     else p\<lparr>ps_byTag := fold (lower_to (gs_interval s)) (gs_tags s) (ps_byTag p),
            ps_byNodeID := fold (lower_to (gs_interval s)) (gs_nodeIDs s) (ps_byNodeID p)\<rparr>)"

definition schedule_snapshot :: "Manager \<Rightarrow> probeScheduleSnapshot" where
  "schedule_snapshot m = fold (add_schedule \<circ> snd) (ma_groupSchedules m)
     \<lparr>ps_started = ma_healthStarted m, ps_base = (if ma_healthInterval m \<le> 0 then 2 * hour else ma_healthInterval m),
      ps_byTag = [], ps_byNodeID = []\<rparr>"

definition lookup_duration :: "'k \<Rightarrow> ('k \<times> duration) list \<Rightarrow> duration" where
  "lookup_duration k xs = (case map_of xs k of None \<Rightarrow> 0 | Some d \<Rightarrow> d)"

definition intervalFor :: "probeScheduleSnapshot \<Rightarrow> string \<Rightarrow> node_id \<Rightarrow> duration" where
  "intervalFor s tag n =
     (let i0 = ps_base s; c = lookup_duration tag (ps_byTag s); i1 = (if c > 0 \<and> c < i0 then c else i0);
          d = lookup_duration n (ps_byNodeID s)
      in if d > 0 \<and> d < i1 then d else i1)"

definition probeDue :: "Manager \<Rightarrow> string \<Rightarrow> node_id \<Rightarrow> gtime \<Rightarrow> gtime \<Rightarrow> bool" where
  "probeDue m tag n lastCheck now \<longleftrightarrow>
     is_zero_time lastCheck \<or> now \<ge> lastCheck + intervalFor (schedule_snapshot m) tag n"

definition due_at :: "probeScheduleSnapshot \<Rightarrow> gtime \<Rightarrow> entry \<Rightarrow> gtime" where
  "due_at s now e = (if is_zero_time (en_lastHealthCheck e) then now
     else en_lastHealthCheck e + intervalFor s (in_Tag (en_info e)) (in_NodeID (en_info e)))"

fun earliest_due :: "probeScheduleSnapshot \<Rightarrow> gtime \<Rightarrow> gtime option \<Rightarrow> entry list \<Rightarrow> gtime option" where
  "earliest_due s now found [] = found"
| "earliest_due s now found (e # es) =
     (if \<not> en_probe e then earliest_due s now found es
      else let due = due_at s now e
           in earliest_due s now (case found of None \<Rightarrow> Some due | Some t \<Rightarrow> if due < t then Some due else Some t) es)"

definition nextProbeDelay :: "Manager \<Rightarrow> gtime \<Rightarrow> duration option" where
  "nextProbeDelay m now =
     (let s = schedule_snapshot m; r = ma_registry m
      in if ma_target m = None \<or> \<not> ps_started s then None
         else case earliest_due s now None (map (rg_store r) (registry_entries r)) of
                None \<Rightarrow> None | Some t \<Rightarrow> Some (max 0 (time_sub t now)))"

section \<open>Health results\<close>

text \<open>\<open>BeginLandingProbe\<close> and \<open>Applier.Begin\<close>. \<open>identity\<close> is the identity hash of an address, with the
  fallback for an address that does not parse; \<open>pid\<close> is the fresh probe identifier.\<close>

definition BeginLandingProbe :: "region_tables \<Rightarrow> (string \<Rightarrow> string) \<Rightarrow> gtime \<Rightarrow> string \<Rightarrow> node_id \<Rightarrow> string \<Rightarrow> probe_db \<Rightarrow>
    string + Observation" where
  "BeginLandingProbe t identity now pid n uri db = (case GetNodeLocation t n db of
     Inl _ \<Rightarrow> Inl ''read node location''
   | Inr st \<Rightarrow>
       if tk_Identity (ls_Token st) \<noteq> identity uri then Inl ''outbound identity changed''
       else Inr \<lparr>ob_Token = ls_Token st, ob_ProbeID = pid, ob_StartedAt = now, ob_CheckedAt = zero_time, ob_IP = [],
                 ob_Source = SourceGeoIPExit, ob_Succeeded = False, ob_ISO = [], ob_Country = []\<rparr>)"

definition Begin_probe :: "region_tables \<Rightarrow> (string \<Rightarrow> string) \<Rightarrow> gtime \<Rightarrow> string \<Rightarrow> node_id \<Rightarrow> string \<Rightarrow> Origin \<Rightarrow> ProbeKind \<Rightarrow>
    probe_db \<Rightarrow> string + Result" where
  "Begin_probe t identity now pid n uri origin kind db = (case BeginLandingProbe t identity now pid n uri db of
     Inl e \<Rightarrow> Inl e
   | Inr ob \<Rightarrow> Inr \<lparr>re_NodeID = n, re_Kind = kind, re_Origin = origin, re_Observation = ob, re_Detection = None,
                     re_Quality = None, re_Unlock = None, re_Health = None\<rparr>)"

text \<open>A ticket is \<open>None\<close> when no store is set.\<close>

definition beginHealthResult :: "region_tables \<Rightarrow> (string \<Rightarrow> string) \<Rightarrow> gtime \<Rightarrow> string \<Rightarrow> nat \<Rightarrow> Manager \<Rightarrow> string + Result option" where
  "beginHealthResult t identity now pid a m = (case ma_store m of None \<Rightarrow> Inr None
     | Some db \<Rightarrow>
         let info = en_info (rg_store (ma_registry m) a)
         in if in_NodeID info \<le> 0 then Inl ''health node has no persisted identity''
            else case Begin_probe t identity now pid (in_NodeID info) (in_URI info) HealthProbe Health db of
                   Inl e \<Rightarrow> Inl e
                 | Inr ev \<Rightarrow> Inr (Some (ev\<lparr>re_Health := Some \<lparr>he_Tag = in_Tag info, he_Success = False, he_Latency = 0, he_Error = []\<rparr>\<rparr>)))"

definition PublishHealthResult :: "HealthResultEvent \<Rightarrow> Manager \<Rightarrow> Manager" where
  "PublishHealthResult ev m = m\<lparr>ma_hub := publish (ma_store m \<noteq> None) ev (ma_hub m)\<rparr>"

definition project_entry :: "gtime \<Rightarrow> string \<Rightarrow> duration \<Rightarrow> string option \<Rightarrow> gtime \<Rightarrow> entry \<Rightarrow> entry" where
  "project_entry now dst latency probeErr checkedAt e = (case probeErr of
     Some err \<Rightarrow> (entry_recordFailure now err dst e)\<lparr>en_available := False, en_initialCheckDone := True, en_lastProbe := 0,
        en_lastHealthCheck := checkedAt, en_healthSource := ''runtime'', en_healthUpdatedAt := checkedAt\<rparr>
   | None \<Rightarrow> (recordSuccessWithLatency now latency e)\<lparr>en_lastHealthCheck := checkedAt, en_healthSource := ''runtime'',
        en_healthUpdatedAt := checkedAt\<rparr>)"

definition projectHealthResult :: "gtime \<Rightarrow> nat \<Rightarrow> duration \<Rightarrow> string option \<Rightarrow> gtime \<Rightarrow> int \<Rightarrow> string \<Rightarrow> Manager \<Rightarrow> Manager" where
  "projectHealthResult now a latency probeErr checkedAt0 seq pid m =
     (let checkedAt = (if is_zero_time checkedAt0 then now else checkedAt0);
          dst = (case ma_target m of None \<Rightarrow> [] | Some d \<Rightarrow> d);
          m1 = on_registry (update_entry a (project_entry now dst latency probeErr checkedAt)) m;
          info = en_info (rg_store (ma_registry m1) a)
      in PublishHealthResult \<lparr>hr_Tag = in_Tag info, hr_NodeID = in_NodeID info, hr_Success = (probeErr = None), hr_Latency = latency,
           hr_Error = (case probeErr of None \<Rightarrow> [] | Some e \<Rightarrow> e), hr_ProbeID = pid, hr_Seq = seq, hr_CheckedAt = checkedAt,
           hr_SnapshotOnly = False\<rparr> m1)"

definition ProjectHealthOutcome :: "gtime \<Rightarrow> Outcome \<Rightarrow> Manager \<Rightarrow> string option \<times> Manager" where
  "ProjectHealthOutcome now out m =
     (let ev = ot_Event out; ob = re_Observation ev
      in case re_Health ev of None \<Rightarrow> (Some ''invalid health projection'', m)
         | Some h \<Rightarrow>
             if re_Kind ev \<noteq> Health \<or> re_Origin ev \<noteq> HealthProbe then (Some ''invalid health projection'', m)
             else if ob_StartedAt ob < ma_probeEpoch m then (None, m)
             else case byTagEntry (he_Tag h) (ma_registry m) of None \<Rightarrow> (None, m)
                  | Some a \<Rightarrow>
                      if byNodeID (re_NodeID ev) (ma_registry m) \<noteq> Some a then (None, m)
                      else let e = rg_store (ma_registry m) a
                           in if in_NodeID (en_info e) \<noteq> re_NodeID ev \<or> in_Tag (en_info e) \<noteq> he_Tag h \<or>
                                 ot_ReceiptID out = en_healthReceiptID e \<or> \<not> ob_CheckedAt ob > en_healthReceiptAt e then (None, m)
                              else let m1 = projectHealthResult now a (he_Latency h) (if he_Success h then None else Some (he_Error h))
                                              (ob_CheckedAt ob) (ot_Seq out) (ob_ProbeID ob) m
                                   in (None, on_registry (update_entry a (\<lambda>e. e\<lparr>en_healthReceiptID := ot_ReceiptID out,
                                         en_healthReceiptAt := ob_CheckedAt ob\<rparr>)) m1))"

text \<open>\<open>ackFault\<close> is the error of the acknowledgement, if it fails: the fact is committed and projected by then.\<close>

definition commitHealthResult :: "region_tables \<Rightarrow> (Result \<Rightarrow> string) \<Rightarrow> gtime \<Rightarrow> string option \<Rightarrow> nat \<Rightarrow> Result option \<Rightarrow> duration \<Rightarrow> string option \<Rightarrow>
    gtime \<Rightarrow> Manager \<Rightarrow> string option \<times> Manager" where
  "commitHealthResult t digest now ackFault a ticket latency probeErr checkedAt m = (case ticket of
     None \<Rightarrow> (None, projectHealthResult now a latency probeErr checkedAt 0 [] m)
   | Some tk \<Rightarrow>
       let tag = (case re_Health tk of None \<Rightarrow> [] | Some h \<Rightarrow> he_Tag h);
           ev = tk\<lparr>re_Observation := (re_Observation tk)\<lparr>ob_CheckedAt := checkedAt\<rparr>,
                   re_Health := Some \<lparr>he_Tag = tag, he_Success = (probeErr = None), he_Latency = latency,
                                      he_Error = (case probeErr of None \<Rightarrow> [] | Some e \<Rightarrow> e)\<rparr>\<rparr>
       in case Apply t digest now ev (ma_store m) of
            (Inl e, st) \<Rightarrow> (Some ''apply health result'',
               (m\<lparr>ma_store := st\<rparr>)\<lparr>ma_hub := (if e = StoreError JournalFull then (ma_hub m)\<lparr>hu_rejected := hu_rejected (ma_hub m) + 1\<rparr> else ma_hub m)\<rparr>)
          | (Inr out, st) \<Rightarrow>
              let m1 = m\<lparr>ma_store := st\<rparr>
              in if \<not> ot_Applied out then (Some (''health result rejected: '' @ ot_Reason out), m1)
                 else (case ProjectHealthOutcome now out m1 of
                         (Some e, m2) \<Rightarrow> (Some e, m2)
                       | (None, m2) \<Rightarrow> (case ma_store m2 of None \<Rightarrow> (Some ''store unavailable'', m2)
                             | Some db2 \<Rightarrow> let (e, db3) = Acknowledge ackFault out db2 in (e, m2\<lparr>ma_store := Some db3\<rparr>))))"

end
