(* ===== verification/Monitor_Registry.thy ===== *)
theory Monitor_Registry
  imports Monitor
begin

text \<open>
  The two indexes of the node registry stay consistent under every operation: a tag leads to the entry
  that carries it, and a node identifier leads to an entry of that node which is registered under its
  own tag.
\<close>

abbreviation tag_of :: "nodeRegistry \<Rightarrow> nat \<Rightarrow> string" where
  "tag_of r a \<equiv> in_Tag (en_info (rg_store r a))"

abbreviation node_of :: "nodeRegistry \<Rightarrow> nat \<Rightarrow> node_id" where
  "node_of r a \<equiv> in_NodeID (en_info (rg_store r a))"

definition tags_ok :: "nodeRegistry \<Rightarrow> bool" where
  "tags_ok r \<longleftrightarrow> (\<forall>t a. map_of (rg_byTag r) t = Some a \<longrightarrow> a < rg_next r \<and> tag_of r a = t)"

definition ids_ok :: "nodeRegistry \<Rightarrow> bool" where
  "ids_ok r \<longleftrightarrow> (\<forall>n a. map_of (rg_byID r) n = Some a \<longrightarrow>
     n \<noteq> 0 \<and> node_of r a = n \<and> map_of (rg_byTag r) (tag_of r a) = Some a)"

definition registry_ok :: "nodeRegistry \<Rightarrow> bool" where
  "registry_ok r \<longleftrightarrow> distinct (map fst (rg_byTag r)) \<and> tags_ok r \<and> ids_ok r"

named_theorems registry_simps \<open>fields of a registry after the guarded index updates\<close>

lemma drop_id_fields [registry_simps]:
  "rg_store (drop_id n a r) = rg_store r" "rg_next (drop_id n a r) = rg_next r"
  "rg_byTag (drop_id n a r) = rg_byTag r" "rg_reload (drop_id n a r) = rg_reload r"
  "map_of (rg_byID (drop_id n a r)) k = (if k = n \<and> n \<noteq> 0 \<and> map_of (rg_byID r) n = Some a then None else map_of (rg_byID r) k)"
  by (simp_all add: drop_id_def)

lemma claim_id_fields [registry_simps]:
  "rg_store (claim_id n a r) = rg_store r" "rg_next (claim_id n a r) = rg_next r"
  "rg_byTag (claim_id n a r) = rg_byTag r" "rg_reload (claim_id n a r) = rg_reload r"
  "map_of (rg_byID (claim_id n a r)) k = (if k = n \<and> n \<noteq> 0 then Some a else map_of (rg_byID r) k)"
  by (simp_all add: claim_id_def)

lemma update_entry_fields [registry_simps]:
  "rg_store (update_entry a f r) = (rg_store r)(a := f (rg_store r a))" "rg_next (update_entry a f r) = rg_next r"
  "rg_byTag (update_entry a f r) = rg_byTag r" "rg_reload (update_entry a f r) = rg_reload r"
  "rg_byID (update_entry a f r) = rg_byID r"
  by (simp_all add: update_entry_def)

lemma migrated_info [simp]: "en_info (migrated uri_hash gen oldTag info e) = info"
  by (simp add: migrated_def forget_health_def new_generation_def)

lemma registry_okD:
  assumes "registry_ok r"
  shows "map_of (rg_byTag r) t = Some a \<Longrightarrow> a < rg_next r \<and> tag_of r a = t"
    "map_of (rg_byID r) n = Some a \<Longrightarrow> n \<noteq> 0 \<and> node_of r a = n \<and> map_of (rg_byTag r) (tag_of r a) = Some a"
  using assms by (auto simp: registry_ok_def tags_ok_def ids_ok_def simp del: map_of_eq_Some_iff)

lemma registry_ok_distinct: "registry_ok r \<Longrightarrow> distinct (map fst (rg_byTag r))"
  by (simp add: registry_ok_def)

lemma registry_okI:
  assumes "distinct (map fst (rg_byTag r))"
    and "\<And>t a. map_of (rg_byTag r) t = Some a \<Longrightarrow> a < rg_next r \<and> tag_of r a = t"
    and "\<And>n a. map_of (rg_byID r) n = Some a \<Longrightarrow> n \<noteq> 0 \<and> node_of r a = n \<and> map_of (rg_byTag r) (tag_of r a) = Some a"
  shows "registry_ok r"
  unfolding registry_ok_def tags_ok_def ids_ok_def using assms by blast

lemma fresh_address:
  assumes "registry_ok r"
  shows "map_of (rg_byTag r) t \<noteq> Some (rg_next r)" "map_of (rg_byID r) n \<noteq> Some (rg_next r)"
  using registry_okD(1) [OF assms] registry_okD(2) [OF assms] by blast+

lemma reown_ok:
  assumes ok: "registry_ok r" and a: "map_of (rg_byTag r) (in_Tag info) = Some a"
  shows "registry_ok (reown info a r)"
proof (rule registry_okI)
  show "distinct (map fst (rg_byTag (reown info a r)))"
    using registry_ok_distinct [OF ok] by (simp add: reown_def registry_simps Let_def)
  note d = registry_okD(1) [OF ok] registry_okD(2) [OF ok]
  show "b < rg_next (reown info a r) \<and> tag_of (reown info a r) b = t" if "map_of (rg_byTag (reown info a r)) t = Some b" for t b
    using that d(1) [of t b] d(1) [OF a] by (auto simp: reown_def registry_simps Let_def)
  show "n \<noteq> 0 \<and> node_of (reown info a r) b = n \<and> map_of (rg_byTag (reown info a r)) (tag_of (reown info a r) b) = Some b"
    if "map_of (rg_byID (reown info a r)) n = Some b" for n b
    using that d(1) [OF a] d(2) [of n b] a by (auto simp: reown_def registry_simps Let_def split: if_splits)
qed

lemma registry_register_ok:
  assumes ok: "registry_ok r"
  shows "registry_ok (snd (registry_register info r))"
proof (cases "map_of (rg_byTag r) (in_Tag info)")
  case (Some a)
  then show ?thesis by (simp add: registry_register_def reown_ok [OF ok])
next
  case None
  note d = registry_okD(1) [OF ok] registry_okD(2) [OF ok] and f = fresh_address [OF ok]
  show ?thesis
  proof (rule registry_okI)
    show "distinct (map fst (rg_byTag (snd (registry_register info r))))"
      using registry_ok_distinct [OF ok] None by (simp add: registry_register_def registry_simps Let_def)
    show "b < rg_next (snd (registry_register info r)) \<and> tag_of (snd (registry_register info r)) b = t"
      if "map_of (rg_byTag (snd (registry_register info r))) t = Some b" for t b
      using that d(1) [of t b] f(1) [of t] None by (auto simp: registry_register_def registry_simps Let_def split: if_splits)
    show "n \<noteq> 0 \<and> node_of (snd (registry_register info r)) b = n \<and>
        map_of (rg_byTag (snd (registry_register info r))) (tag_of (snd (registry_register info r)) b) = Some b"
      if "map_of (rg_byID (snd (registry_register info r))) n = Some b" for n b
      using that d(2) [of n b] f(2) [of n] None by (auto simp: registry_register_def registry_simps Let_def split: if_splits)
  qed
qed

lemma retire_ok:
  assumes ok: "registry_ok r" and a: "map_of (rg_byTag r) tag = Some a"
  shows "registry_ok (drop_id (node_of r a) a (r\<lparr>rg_byTag := adel tag (rg_byTag r)\<rparr>))"
proof (rule registry_okI)
  note d = registry_okD(1) [OF ok] registry_okD(2) [OF ok]
  let ?r = "drop_id (node_of r a) a (r\<lparr>rg_byTag := adel tag (rg_byTag r)\<rparr>)"
  show "distinct (map fst (rg_byTag ?r))" using registry_ok_distinct [OF ok] by (simp add: registry_simps)
  show "b < rg_next ?r \<and> tag_of ?r b = t" if "map_of (rg_byTag ?r) t = Some b" for t b
    using that d(1) [of t b] by (auto simp: registry_simps split: if_splits)
  show "n \<noteq> 0 \<and> node_of ?r b = n \<and> map_of (rg_byTag ?r) (tag_of ?r b) = Some b" if "map_of (rg_byID ?r) n = Some b" for n b
    using that d(2) [of n b] a by (auto simp: registry_simps split: if_splits)
qed

lemma unregister_ok: "registry_ok r \<Longrightarrow> registry_ok (registry_unregister tag r)"
  by (cases "map_of (rg_byTag r) tag") (simp_all add: registry_unregister_def Let_def retire_ok)

lemma sweep_one_ok: "registry_ok r \<Longrightarrow> map_of (rg_byTag r) tag = Some a \<Longrightarrow> registry_ok (sweep_one (tag, a) r)"
  by (simp add: sweep_one_def retire_ok)

lemma sweep_one_fields:
  "rg_store (sweep_one p r) = rg_store r" "rg_next (sweep_one p r) = rg_next r" "rg_reload (sweep_one p r) = rg_reload r"
  "fst p \<noteq> t \<Longrightarrow> map_of (rg_byTag (sweep_one p r)) t = map_of (rg_byTag r) t"
  by (auto simp: sweep_one_def registry_simps split: prod.splits)

lemma sweep_all_ok:
  assumes "registry_ok r" and "distinct (map fst xs)" and "\<forall>(t, a) \<in> set xs. map_of (rg_byTag r) t = Some a"
  shows "registry_ok (fold sweep_one xs r)"
  using assms
proof (induction xs arbitrary: r)
  case (Cons p xs)
  obtain t a where p: "p = (t, a)" by (cases p)
  have "registry_ok (sweep_one p r)" using Cons.prems p sweep_one_ok by auto
  moreover have "\<forall>(u, b) \<in> set xs. map_of (rg_byTag (sweep_one p r)) u = Some b"
  proof (intro ballI, clarify)
    fix u b assume u: "(u, b) \<in> set xs"
    then have "u \<noteq> t" using Cons.prems(2) by (force simp: p)
    then show "map_of (rg_byTag (sweep_one p r)) u = Some b"
      using Cons.prems(3) u by (auto simp: sweep_one_fields(4) p)
  qed
  ultimately show ?case using Cons.IH [of "sweep_one p r"] Cons.prems(2) by simp
qed simp

lemma sweepStale_ok: "registry_ok r \<Longrightarrow> registry_ok (sweepStale r)"
  unfolding sweepStale_def by (rule sweep_all_ok) (auto simp: registry_ok_def)

lemma migrate_new_ok:
  assumes ok: "registry_ok r" and none: "map_of (rg_byTag r) (in_Tag info) = None" and id: "map_of (rg_byID r) n = None"
  shows "registry_ok (snd (registry_migrate uri_hash n info r))"
proof (rule registry_okI)
  note d = registry_okD(1) [OF ok] registry_okD(2) [OF ok] and f = fresh_address [OF ok]
  let ?r = "snd (registry_migrate uri_hash n info r)"
  note defs = registry_migrate_def registry_simps Let_def none id
  show "distinct (map fst (rg_byTag ?r))" using registry_ok_distinct [OF ok] by (simp add: defs)
  show "b < rg_next ?r \<and> tag_of ?r b = t" if "map_of (rg_byTag ?r) t = Some b" for t b
    using that d(1) [of t b] f(1) [of t] by (auto simp: defs split: if_splits)
  show "k \<noteq> 0 \<and> node_of ?r b = k \<and> map_of (rg_byTag ?r) (tag_of ?r b) = Some b" if "map_of (rg_byID ?r) k = Some b" for k b
    using that d(2) [of k b] f(2) [of k] by (auto simp: defs split: if_splits)
qed

lemma migrate_move_ok:
  assumes ok: "registry_ok r" and none: "map_of (rg_byTag r) (in_Tag info) = None" and id: "map_of (rg_byID r) n = Some a"
  shows "registry_ok (snd (registry_migrate uri_hash n info r))"
proof (rule registry_okI)
  note d = registry_okD(1) [OF ok] registry_okD(2) [OF ok]
  let ?r = "snd (registry_migrate uri_hash n info r)"
  note defs = registry_migrate_def registry_simps Let_def none id
  show "distinct (map fst (rg_byTag ?r))" using registry_ok_distinct [OF ok] by (simp add: defs)
  show "b < rg_next ?r \<and> tag_of ?r b = t" if "map_of (rg_byTag ?r) t = Some b" for t b
    using that d(1) [of t b] d(2) [OF id] d(1) [of "tag_of r a" a] by (auto simp: defs split: if_splits)
  show "k \<noteq> 0 \<and> node_of ?r b = k \<and> map_of (rg_byTag ?r) (tag_of ?r b) = Some b" if "map_of (rg_byID ?r) k = Some b" for k b
    using that d(2) [of k b] d(2) [OF id] by (auto simp: defs none split: if_splits)
qed

lemma migrate_ok: "registry_ok r \<Longrightarrow> registry_ok (snd (registry_migrate uri_hash n info r))"
  using migrate_new_ok migrate_move_ok reown_ok
  by (cases "map_of (rg_byTag r) (in_Tag info)"; cases "map_of (rg_byID r) n") (simp_all add: registry_migrate_def)

text \<open>Every other method of an entry keeps the node and the tag of its info.\<close>

definition keeps_identity :: "(entry \<Rightarrow> entry) \<Rightarrow> bool" where
  "keeps_identity f \<longleftrightarrow> (\<forall>e. in_NodeID (en_info (f e)) = in_NodeID (en_info e) \<and> in_Tag (en_info (f e)) = in_Tag (en_info e))"

lemma update_entry_ok:
  assumes ok: "registry_ok r" and f: "keeps_identity f"
  shows "registry_ok (update_entry a f r)"
proof -
  have same: "tag_of (update_entry a f r) b = tag_of r b" "node_of (update_entry a f r) b = node_of r b" for b
    using f by (simp_all add: registry_simps keeps_identity_def)
  show ?thesis
  proof (rule registry_okI, unfold same update_entry_fields(2,3,5))
    show "distinct (map fst (rg_byTag r))" by (rule registry_ok_distinct [OF ok])
  qed (use registry_okD [OF ok] in blast)+
qed

lemma clear_ok: "registry_ok (registry_clear r)"
  by (simp add: registry_ok_def tags_ok_def ids_ok_def registry_clear_def)

lemma beginReload_ok: "registry_ok r \<Longrightarrow> registry_ok (beginReload r)"
  by (simp add: registry_ok_def tags_ok_def ids_ok_def beginReload_def)

inductive registry_step :: "nodeRegistry \<Rightarrow> nodeRegistry \<Rightarrow> bool" where
  step_register: "registry_step r (snd (registry_register info r))"
| step_migrate: "registry_step r (snd (registry_migrate uri_hash n info r))"
| step_unregister: "registry_step r (registry_unregister tag r)"
| step_reload: "registry_step r (beginReload r)"
| step_sweep: "registry_step r (sweepStale r)"
| step_clear: "registry_step r (registry_clear r)"
| step_entry: "keeps_identity f \<Longrightarrow> registry_step r (update_entry a f r)"

interpretation indexes: inductive_invariant newNodeRegistry registry_step registry_ok
proof unfold_locales
  show "registry_ok t" if "registry_ok s" "registry_step s t" for s t
    using that(2,1)
    by cases (simp_all add: registry_register_ok migrate_ok unregister_ok beginReload_ok sweepStale_ok clear_ok update_entry_ok)
  show "registry_ok newNodeRegistry" by (simp add: registry_ok_def tags_ok_def ids_ok_def newNodeRegistry_def)
qed

text \<open>C5: the registry's indexes agree. In every reachable registry a tag leads to an entry that carries
  this tag, and a node identifier leads to an entry of that node which its own tag leads to as well; so
  the snapshot by node identifier is the snapshot by the tag of that entry.\<close>

theorem registry_indexes_agree:
  assumes "reaches registry_step newNodeRegistry r"
  shows "(\<forall>tag a. byTagEntry tag r = Some a \<longrightarrow> in_Tag (en_info (rg_store r a)) = tag) \<and>
    (\<forall>n a. byNodeID n r = Some a \<longrightarrow> in_NodeID (en_info (rg_store r a)) = n \<and>
       byTagEntry (in_Tag (en_info (rg_store r a))) r = Some a) \<and>
    (\<forall>n a m. byNodeID n r = Some a \<longrightarrow> ma_registry m = r \<longrightarrow>
       SnapshotForNodeID m n = SnapshotForTag m (in_Tag (en_info (rg_store r a))))"
proof -
  note ok = indexes.reachable_inv [OF assms]
  have tags: "byTagEntry tag r = Some a \<Longrightarrow> tag_of r a = tag" for tag a
    using registry_okD(1) [OF ok] by (simp add: byTagEntry_def)
  have ids: "byNodeID n r = Some a \<Longrightarrow> node_of r a = n \<and> byTagEntry (tag_of r a) r = Some a" for n a
    using registry_okD(2) [OF ok, of n a] by (simp add: byTagEntry_def byNodeID_def split: if_splits)
  show ?thesis using tags ids by (auto simp: SnapshotForNodeID_def SnapshotForTag_def)
qed

section \<open>A concrete registry\<close>

definition demo_info :: "node_id \<Rightarrow> string \<Rightarrow> NodeInfo" where
  "demo_info n tag = empty_info\<lparr>in_NodeID := n, in_Tag := tag, in_URI := ''uri''\<rparr>"

definition demo_registry :: nodeRegistry where
  "demo_registry = snd (registry_migrate Some 7 (demo_info 7 ''b'') (snd (registry_register (demo_info 7 ''a'') newNodeRegistry)))"

lemma demo_registry_reached: "reaches registry_step newNodeRegistry demo_registry"
  unfolding demo_registry_def
  by (rule reaches_step [OF reaches_step [OF reaches_refl, where u = "snd (registry_register (demo_info 7 ''a'') newNodeRegistry)"]])
     (rule step_register, rule step_migrate)

theorem registry_indexes_agree_witness:
  "byNodeID 7 demo_registry = Some 0 \<and> byTagEntry (in_Tag (en_info (rg_store demo_registry 0))) demo_registry = Some 0"
proof -
  have "byNodeID 7 demo_registry = Some 0" by code_simp
  with registry_indexes_agree [OF demo_registry_reached] show ?thesis by blast
qed

end
