(* ===== verification/Probe_Properties.thy ===== *)
theory Probe_Properties
  imports Probe
begin

text \<open>
  What the probe applier guarantees: an event is applied at most once and atomically with its receipt,
  stale or foreign evidence writes nothing, and reconciliation hands every pending result of the
  current identity to its consumer.
\<close>

section \<open>The store functions\<close>

lemma ApplyNodeLocation_unapplied:
  "ApplyNodeLocation t n obs db = (Inr ch, db1) \<Longrightarrow> \<not> ch_Applied ch \<Longrightarrow> db1 = db"
  by (auto simp: ApplyNodeLocation_def split: sum.splits prod.splits if_splits)

lemma ApplyNodeLocation_frame:
  "ApplyNodeLocation t n obs db = (res, db1) \<Longrightarrow> pd_journal db1 = pd_journal db \<and> pd_receipts db1 = pd_receipts db"
  by (auto simp: ApplyNodeLocation_def split: sum.splits prod.splits if_splits)

lemma UpsertNodeDetectionResult_frame:
  "UpsertNodeDetectionResult now r db = (res, db1) \<Longrightarrow>
     pd_journal db1 = pd_journal db \<and> pd_receipts db1 = pd_receipts db \<and> pd_locations db1 = pd_locations db"
  by (auto simp: UpsertNodeDetectionResult_def Let_def split: if_splits)

lemma ApplyLandingResult_unapplied:
  "ApplyLandingResult t now obs d db = (Inr ch, db1) \<Longrightarrow> \<not> ch_Applied ch \<Longrightarrow> db1 = db"
  by (auto simp: ApplyLandingResult_def Let_def dest: ApplyNodeLocation_unapplied split: prod.splits sum.splits if_splits)

lemma ApplyLandingResult_frame:
  "ApplyLandingResult t now obs d db = (Inr ch, db1) \<Longrightarrow> pd_journal db1 = pd_journal db \<and> pd_receipts db1 = pd_receipts db"
  by (auto simp: ApplyLandingResult_def Let_def dest!: ApplyNodeLocation_frame UpsertNodeDetectionResult_frame
      split: prod.splits sum.splits if_splits)

lemma write_facts_frame:
  assumes "write_facts t now cur out db = (Inr (b, out1), db1)"
  shows "ot_Event out1 = ot_Event out" "ot_ReceiptID out1 = ot_ReceiptID out" "ot_Applied out1 = ot_Applied out"
    "pd_receipts db1 = pd_receipts db" "\<not> b \<Longrightarrow> db1 = db"
  using assms
  by (auto simp: write_facts_def Let_def UpsertNodeDetectionResult_def UpsertNodeIPQualityResult_def UpsertUnlockResult_def
      dest: ApplyLandingResult_unapplied ApplyLandingResult_frame
      split: ProbeKind.splits option.splits prod.splits sum.splits if_splits)

lemma write_facts_journal:
  assumes "write_facts t now cur out db = (Inr (b, out1), db1)" and "re_Kind (ot_Event out) \<noteq> Health"
  shows "pd_journal db1 = pd_journal db"
  using assms
  by (auto simp: write_facts_def Let_def UpsertNodeDetectionResult_def UpsertNodeIPQualityResult_def UpsertUnlockResult_def
      dest: ApplyLandingResult_frame split: ProbeKind.splits option.splits prod.splits sum.splits if_splits)

lemma write_facts_locations:
  assumes "write_facts t now cur out db = (Inr (b, out1), db1)" and "re_Kind (ot_Event out) \<noteq> Landing"
  shows "pd_locations db1 = pd_locations db"
  using assms
  by (auto simp: write_facts_def Let_def UpsertNodeDetectionResult_def UpsertNodeIPQualityResult_def UpsertUnlockResult_def
      split: ProbeKind.splits option.splits prod.splits sum.splits if_splits)

lemma write_facts_health:
  assumes "write_facts t now cur out db = (Inr (b, out1), db1)" and "re_Kind (ot_Event out) = Health"
    and "re_Health (ot_Event out) = Some h"
  shows "AppendHealthEvent now (health_row cur (ot_Event out) h) (pd_journal db) = (Inr (ot_Seq out1), pd_journal db1)"
  using assms
  by (auto simp: write_facts_def Let_def split: prod.splits sum.splits)

section \<open>The transaction\<close>

definition receipt_for :: "Outcome \<Rightarrow> ProbeReceipt" where
  "receipt_for out = \<lparr>pr_NodeID = re_NodeID (ot_Event out), pr_Stream = Stream (ot_Event out), pr_EventID = ot_ReceiptID out,
     pr_Revision = tk_Revision (ob_Token (re_Observation (ot_Event out))), pr_StartedAt = ob_StartedAt (re_Observation (ot_Event out)),
     pr_Result = Some out, pr_Pending = True\<rparr>"

lemma apply_tx_cases:
  assumes "apply_tx t now out db = (Inr out', db')" and "\<not> ot_Applied out"
  shows "(\<not> ot_Applied out' \<and> ot_Event out' = ot_Event out \<and> db' = db) \<or>
    (\<exists>cur out1 db1. GetNodeLocation t (re_NodeID (ot_Event out)) db = Inr cur \<and>
       ls_Token cur = ob_Token (re_Observation (ot_Event out)) \<and>
       write_facts t now cur out db = (Inr (True, out1), db1) \<and>
       out' = out1\<lparr>ot_Applied := True, ot_Reason := ''applied''\<rparr> \<and> db' = PutProbeReceipt (receipt_for out') db1)"
proof -
  let ?ev = "ot_Event out" and ?ob = "re_Observation (ot_Event out)"
  show ?thesis
  proof (cases "GetNodeLocation t (re_NodeID ?ev) db")
    case (Inl e)
    with assms show ?thesis by (simp add: apply_tx_def Let_def)
  next
    case (Inr cur)
    show ?thesis
    proof (cases "ls_Token cur = ob_Token ?ob")
      case False
      with assms Inr show ?thesis by (auto simp: apply_tx_def Let_def)
    next
      case token: True
      obtain w db1 where w: "write_facts t now cur out db = (w, db1)" by (cases "write_facts t now cur out db")
      show ?thesis
      proof (cases w)
        case (Inl e)
        with assms Inr token w show ?thesis by (auto simp: apply_tx_def Let_def split: option.splits if_splits)
      next
        case wr: (Inr p)
        obtain b out1 where p: "p = (b, out1)" by (cases p)
        note wf = w [unfolded wr p]
        note frame = write_facts_frame [OF wf]
        show ?thesis
          using assms Inr token wf frame
          by (cases b) (auto simp: apply_tx_def Let_def receipt_for_def split: option.splits if_splits)
      qed
    qed
  qed
qed

lemma Apply_cases:
  assumes "Apply t digest now ev (Some db) = (res, Some db')"
  shows "(\<exists>e. res = Inl e \<and> db' = db) \<or> (\<exists>out. res = Inr out \<and> \<not> ot_Applied out \<and> ot_Event out = ev \<and> db' = db) \<or>
    (\<exists>cur out0 out1 out db1. res = Inr out \<and> validate_result ev = None \<and> GetNodeLocation t (re_NodeID ev) db = Inr cur \<and>
       ls_Token cur = ob_Token (re_Observation ev) \<and> ot_Event out0 = ev \<and> ot_ReceiptID out0 = digest ev \<and>
       write_facts t now cur out0 db = (Inr (True, out1), db1) \<and>
       out = out1\<lparr>ot_Applied := True, ot_Reason := ''applied''\<rparr> \<and> db' = PutProbeReceipt (receipt_for out) db1)"
proof (cases "validate_result ev")
  case (Some e)
  with assms show ?thesis by (auto simp: Apply_def)
next
  case None
  let ?out = "\<lparr>ot_ReceiptID = digest ev, ot_Event = ev, ot_Applied = False, ot_Reason = [], ot_Location = no_change, ot_Seq = 0\<rparr>"
  obtain r db1 where tx: "apply_tx t now ?out db = (r, db1)" by (cases "apply_tx t now ?out db")
  show ?thesis
  proof (cases r)
    case (Inl e)
    with assms None tx show ?thesis by (auto simp: Apply_def)
  next
    case (Inr out)
    have eqs: "res = Inr out" "db' = db1" using assms None tx Inr by (simp_all add: Apply_def)
    have "\<not> ot_Applied ?out" by simp
    from apply_tx_cases [OF tx [unfolded Inr] this] show ?thesis
    proof (elim disjE exE conjE)
      fix cur out1 db2
      assume "GetNodeLocation t (re_NodeID (ot_Event ?out)) db = Inr cur"
        "ls_Token cur = ob_Token (re_Observation (ot_Event ?out))"
        "write_facts t now cur ?out db = (Inr (True, out1), db2)"
        "out = out1\<lparr>ot_Applied := True, ot_Reason := ''applied''\<rparr>" "db1 = PutProbeReceipt (receipt_for out) db2"
      then show ?thesis
        using None eqs by (intro disjI2 exI [of _ cur] exI [of _ ?out] exI [of _ out1] exI [of _ out] exI [of _ db2]) simp
    qed (use eqs in simp)
  qed
qed

section \<open>Applying an event again\<close>

lemma GetNodeLocation_token:
  assumes "GetNodeLocation t n db = Inr cur"
  shows "\<exists>row. map_of (pd_locations db) n = Some row \<and> ls_Token cur = \<lparr>tk_Identity = lr_Identity row, tk_Revision = lr_Revision row\<rparr>"
  using assms by (auto simp: GetNodeLocation_def Let_def split: option.splits if_splits)

lemma GetNodeLocation_locations:
  "pd_locations db1 = pd_locations db \<Longrightarrow> GetNodeLocation t n db1 = GetNodeLocation t n db"
  by (simp add: GetNodeLocation_def)

lemma landing_event_reapplied:
  assumes "validate_result ev = None" and "re_Kind ev = Landing" and "re_Detection ev = Some d"
    and "GetNodeLocation t (re_NodeID ev) db = Inr st" and "ls_Token st = ob_Token (re_Observation ev)"
    and "ApplyLandingResult t now (re_Observation ev) d db = (Inr ch, db)" and "\<not> ch_Applied ch"
  shows "\<exists>out. Apply t digest now ev (Some db) = (Inr out, Some db) \<and> \<not> ot_Applied out"
  using assms by (simp add: Apply_def apply_tx_def write_facts_def Let_def split: option.split)

lemma validated_landing:
  assumes "validate_result ev = None" and "re_Kind ev = Landing"
  shows "\<exists>d. re_Detection ev = Some d \<and> nd_NodeID d = re_NodeID ev"
  using assms by (auto simp: validate_result_def payload_error_def Let_def split: option.splits if_splits)

lemma validated_health:
  assumes "validate_result ev = None" and "re_Kind ev = Health"
  shows "\<exists>h. re_Health ev = Some h"
  using assms by (auto simp: validate_result_def payload_error_def Let_def split: option.splits if_splits)

lemma PutProbeReceipt_fields [simp]:
  "pd_locations (PutProbeReceipt r db) = pd_locations db" "pd_journal (PutProbeReceipt r db) = pd_journal db"
  "GetProbeReceipt n s (PutProbeReceipt r db) = (if (n, s) = (pr_NodeID r, pr_Stream r) then Some r else GetProbeReceipt n s db)"
  by (simp_all add: PutProbeReceipt_def GetProbeReceipt_def)

lemma GetProbeReceipt_receipts: "pd_receipts db1 = pd_receipts db \<Longrightarrow> GetProbeReceipt n s db1 = GetProbeReceipt n s db"
  by (simp add: GetProbeReceipt_def)

lemma write_facts_landing:
  assumes "write_facts t now cur out db = (Inr (True, out1), db1)" and "re_Kind (ot_Event out) = Landing"
    and "re_Detection (ot_Event out) = Some d"
  shows "\<exists>ch. ApplyLandingResult t now (re_Observation (ot_Event out)) d db = (Inr ch, db1) \<and> ch_Applied ch"
  using assms by (auto simp: write_facts_def Let_def split: prod.splits sum.splits if_splits)

definition journal_effect :: "gtime \<Rightarrow> LocState \<Rightarrow> Outcome \<Rightarrow> journal_db \<Rightarrow> journal_db \<Rightarrow> bool" where
  "journal_effect now cur out j j' = (case (re_Kind (ot_Event out), re_Health (ot_Event out)) of
     (Health, Some h) \<Rightarrow> ot_Seq out = db_lastSeq j + 1 \<and> db_lastSeq j' = ot_Seq out \<and>
        db_events j' = db_events j @ [(health_row cur (ot_Event out) h)\<lparr>jv_Seq := ot_Seq out, jv_RecordedAt := now\<rparr>]
   | _ \<Rightarrow> j' = j)"

lemma AppendHealthEvent_Inr:
  assumes "AppendHealthEvent now e j = (Inr seq, j')"
  shows "seq = db_lastSeq j + 1" "db_lastSeq j' = seq"
    "db_events j' = db_events j @ [e\<lparr>jv_Seq := seq, jv_RecordedAt := (if is_zero_time (jv_RecordedAt e) then now else jv_RecordedAt e)\<rparr>]"
  using assms by (auto simp: AppendHealthEvent_def Let_def split: if_splits)

lemma write_facts_journal_effect:
  assumes wf: "write_facts t now cur out0 db = (Inr (True, out1), db1)" and valid: "validate_result (ot_Event out0) = None"
  shows "journal_effect now cur (out1\<lparr>ot_Applied := True, ot_Reason := why\<rparr>) (pd_journal db) (pd_journal db1)"
proof (cases "re_Kind (ot_Event out0) = Health")
  case True
  obtain h where h: "re_Health (ot_Event out0) = Some h" using validated_health [OF valid True] by auto
  show ?thesis
    using AppendHealthEvent_Inr [OF write_facts_health [OF wf True h]] True h write_facts_frame(1) [OF wf]
    by (simp add: journal_effect_def health_row_def)
next
  case False
  then show ?thesis
    using write_facts_journal [OF wf False] write_facts_frame(1) [OF wf]
    by (auto simp: journal_effect_def split: ProbeKind.splits option.splits)
qed

section \<open>Application\<close>

text \<open>
  The events applied after an event. An event is spent once the database holds, for its stream, a
  receipt that outranks it: one of a later probe or of the same one; a landing is judged by the
  location state instead, which also ranks the sources of one probe.
\<close>

definition landing_obs :: "Observation \<Rightarrow> NodeDetectionResult \<Rightarrow> Observation" where
  "landing_obs o1 d = o1\<lparr>ob_Succeeded := (nd_ExitIPStatus d = ''success''), ob_IP := nd_ExitIP d, ob_ISO := nd_ExitCountryCode d,
     ob_Country := nd_ExitCountry d, ob_CheckedAt := nd_ExitIPCheckedAt d\<rparr>"

definition outranked :: "region_tables \<Rightarrow> LocState \<Rightarrow> Observation \<Rightarrow> bool" where
  "outranked t st ob \<longleftrightarrow> ob_StartedAt ob < ls_LastStartedAt st \<or>
     ob_StartedAt ob = ls_LastStartedAt st \<and> ob_ProbeID ob = ls_LastProbeID st \<and>
     (sourcePriority (ob_Source ob) < sourcePriority (ls_LastSource st) \<or>
      sourcePriority (ob_Source ob) = sourcePriority (ls_LastSource st) \<and> (ls_LastSucceeded st \<or> \<not> obs_success t ob))"

definition spent :: "region_tables \<Rightarrow> Result \<Rightarrow> probe_db \<Rightarrow> bool" where
  "spent t ev db \<longleftrightarrow> (\<exists>cur. GetNodeLocation t (re_NodeID ev) db = Inr cur \<and> ls_Token cur = ob_Token (re_Observation ev) \<and>
     (if re_Kind ev = Landing
      then \<exists>d. re_Detection ev = Some d \<and> outranked t cur (landing_obs (re_Observation ev) d)
      else \<exists>r prior. GetProbeReceipt (re_NodeID ev) (Stream ev) db = Some r \<and> pr_Revision r = tk_Revision (ls_Token cur) \<and>
        pr_Result r = Some prior \<and> ob_StartedAt (re_Observation ev) \<le> pr_StartedAt r \<and>
        (ob_ProbeID (re_Observation (ot_Event prior)) = ob_ProbeID (re_Observation ev) \<or>
         ob_StartedAt (re_Observation ev) < pr_StartedAt r)))"

lemma outranked_rejected: "outranked t st ob \<Longrightarrow> rejection t st ob \<noteq> None"
  by (auto simp: outranked_def rejection_def)

lemma outranked_stays:
  assumes "outranked t st ob" and "rejection t st ob2 = None"
    and "ob_StartedAt ob2 = ob_StartedAt ob \<Longrightarrow> ob_ProbeID ob2 = ob_ProbeID ob"
    and "ls_LastProbeID st2 = ob_ProbeID ob2" "ls_LastStartedAt st2 = ob_StartedAt ob2" "ls_LastSource st2 = ob_Source ob2"
      "ls_LastSucceeded st2 = obs_success t ob2"
  shows "outranked t st2 ob"
proof -
  note r = rejection_None(2,3) [OF assms(2)]
  consider "ob_StartedAt ob < ob_StartedAt ob2" | "ob_StartedAt ob2 = ob_StartedAt ob" "ob_ProbeID ob = ls_LastProbeID st"
      "sourcePriority (ob_Source ob) < sourcePriority (ls_LastSource st) \<or>
       sourcePriority (ob_Source ob) = sourcePriority (ls_LastSource st) \<and> (ls_LastSucceeded st \<or> \<not> obs_success t ob)"
    using assms(1) r(1) unfolding outranked_def by linarith
  then show ?thesis
  proof cases
    case 1
    then show ?thesis by (simp add: outranked_def assms(5))
  next
    case 2
    then have same: "ob_ProbeID ob2 = ls_LastProbeID st" "ob_ProbeID ob = ob_ProbeID ob2" using assms(3) by simp_all
    from r(2) [OF same(1)] have "sourcePriority (ob_Source ob) < sourcePriority (ob_Source ob2) \<or>
        sourcePriority (ob_Source ob) = sourcePriority (ob_Source ob2) \<and> obs_success t ob2"
      using 2(3) by linarith
    with 2(1) same(2) show ?thesis unfolding outranked_def assms(4-7) by auto
  qed
qed

lemma spent_event_rejected:
  assumes "spent t ev db" and "validate_result ev = None"
  shows "\<exists>again. Apply t digest now ev (Some db) = (Inr again, Some db) \<and> \<not> ot_Applied again"
proof (cases "re_Kind ev = Landing")
  case True
  from assms(1) True obtain cur d where cur: "GetNodeLocation t (re_NodeID ev) db = Inr cur"
    "ls_Token cur = ob_Token (re_Observation ev)" and d: "re_Detection ev = Some d"
    and out: "outranked t cur (landing_obs (re_Observation ev) d)"
    by (auto simp: spent_def)
  obtain why where why: "rejection t cur (landing_obs (re_Observation ev) d) = Some why"
    using outranked_rejected [OF out] by auto
  have n: "nd_NodeID d = re_NodeID ev" using validated_landing [OF assms(2) True] d by auto
  have "\<exists>ch. ApplyLandingResult t now (re_Observation ev) d db = (Inr ch, db) \<and> \<not> ch_Applied ch"
    using why by (simp add: ApplyLandingResult_def ApplyNodeLocation_def Let_def n cur(1) Decide_def landing_obs_def)
  then obtain ch where "ApplyLandingResult t now (re_Observation ev) d db = (Inr ch, db)" "\<not> ch_Applied ch" by blast
  from landing_event_reapplied [OF assms(2) True d cur this] show ?thesis .
next
  case False
  with assms(1) obtain cur r prior where "GetNodeLocation t (re_NodeID ev) db = Inr cur"
    "ls_Token cur = ob_Token (re_Observation ev)" "GetProbeReceipt (re_NodeID ev) (Stream ev) db = Some r"
    "pr_Revision r = tk_Revision (ls_Token cur)" "pr_Result r = Some prior"
    "ob_ProbeID (re_Observation (ot_Event prior)) = ob_ProbeID (re_Observation ev) \<or>
       ob_StartedAt (re_Observation ev) < pr_StartedAt r"
    by (auto simp: spent_def)
  note r = this
  from r(6) show ?thesis
    using r(1-5) assms(2) False by (elim disjE) (simp_all add: Apply_def apply_tx_def Let_def)
qed

lemma GetNodeLocation_row:
  "map_of (pd_locations db1) n = map_of (pd_locations db) n \<Longrightarrow> GetNodeLocation t n db1 = GetNodeLocation t n db"
  by (simp add: GetNodeLocation_def)

lemma applied_landing:
  assumes "ApplyLandingResult t now ob d db = (Inr ch, db1)" and "ch_Applied ch"
    and "GetNodeLocation t (nd_NodeID d) db = Inr cur"
  shows "\<exists>st. GetNodeLocation t (nd_NodeID d) db1 = Inr st \<and> ls_Token st = ls_Token cur \<and>
    rejection t cur (landing_obs ob d) = None \<and> ls_LastProbeID st = ob_ProbeID ob \<and>
    ls_LastStartedAt st = ob_StartedAt ob \<and> ls_LastSource st = ob_Source ob \<and>
    ls_LastSucceeded st = obs_success t (landing_obs ob d) \<and>
    (\<forall>n. n \<noteq> nd_NodeID d \<longrightarrow> map_of (pd_locations db1) n = map_of (pd_locations db) n)"
proof -
  obtain dbl where loc: "ApplyNodeLocation t (nd_NodeID d) (landing_obs ob d) db = (Inr ch, dbl)"
    and dbl: "pd_locations db1 = pd_locations dbl"
    using assms(1,2) by (auto simp: ApplyLandingResult_def landing_obs_def Let_def dest!: UpsertNodeDetectionResult_frame
      split: prod.splits sum.splits if_splits)
  obtain row where row: "map_of (pd_locations db) (nd_NodeID d) = Some row"
      "ls_Token cur = \<lparr>tk_Identity = lr_Identity row, tk_Revision = lr_Revision row\<rparr>"
    using GetNodeLocation_token [OF assms(3)] by auto
  obtain nxt ch' where dec: "Decide t cur (landing_obs ob d) = (nxt, ch')" by (cases "Decide t cur (landing_obs ob d)")
  have ch: "ch' = ch" using assms(3) dec loc by (auto simp: ApplyNodeLocation_def split: if_splits)
  have none: "rejection t cur (landing_obs ob d) = None"
    using assms(2) dec unfolding ch [symmetric] by (auto simp: Decide_def Let_def split: option.splits)
  note a = Decide_accepted [OF none, unfolded dec fst_conv]
  obtain row' where row': "map_of (pd_locations dbl) (nd_NodeID d) = Some row'" "lr_State row' = Some nxt"
      "lr_Identity row' = lr_Identity row" "lr_Revision row' = lr_Revision row"
    and others: "\<forall>n. n \<noteq> nd_NodeID d \<longrightarrow> map_of (pd_locations dbl) n = map_of (pd_locations db) n"
    using assms(2,3) loc dec row(1) ch by (auto simp: ApplyNodeLocation_def)
  obtain st where st: "GetNodeLocation t (nd_NodeID d) dbl = Inr st" by (simp add: GetNodeLocation_def row'(1,2) Let_def)
  have "ls_LastProbeID st = ls_LastProbeID nxt" "ls_LastStartedAt st = ls_LastStartedAt nxt"
      "ls_LastSource st = ls_LastSource nxt" "ls_LastSucceeded st = ls_LastSucceeded nxt" "ls_Token st = ls_Token cur"
    using st by (auto simp: GetNodeLocation_def row' row(2) Let_def split: if_splits)
  moreover have "GetNodeLocation t (nd_NodeID d) db1 = Inr st"
    using st GetNodeLocation_locations [OF dbl] by simp
  moreover have "ob_ProbeID (landing_obs ob d) = ob_ProbeID ob" "ob_StartedAt (landing_obs ob d) = ob_StartedAt ob"
    "ob_Source (landing_obs ob d) = ob_Source ob" by (simp_all add: landing_obs_def)
  ultimately show ?thesis using none a others dbl by simp
qed

lemma write_facts_rows:
  assumes "write_facts t now cur out db = (Inr (True, out1), db1)" and "validate_result (ot_Event out) = None"
    and "GetNodeLocation t (re_NodeID (ot_Event out)) db = Inr st"
  shows "\<exists>st1. GetNodeLocation t (re_NodeID (ot_Event out)) db1 = Inr st1 \<and> ls_Token st1 = ls_Token st \<and>
    (\<forall>n. n \<noteq> re_NodeID (ot_Event out) \<longrightarrow> map_of (pd_locations db1) n = map_of (pd_locations db) n)"
proof (cases "re_Kind (ot_Event out) = Landing")
  case True
  obtain d where d: "re_Detection (ot_Event out) = Some d" "nd_NodeID d = re_NodeID (ot_Event out)"
    using validated_landing [OF assms(2) True] by auto
  obtain ch where "ApplyLandingResult t now (re_Observation (ot_Event out)) d db = (Inr ch, db1)" "ch_Applied ch"
    using write_facts_landing [OF assms(1) True d(1)] by auto
  from applied_landing [OF this] assms(3) show ?thesis by (auto simp: d(2))
next
  case False
  have "pd_locations db1 = pd_locations db" by (rule write_facts_locations [OF assms(1) False])
  with assms(3) GetNodeLocation_locations [OF this] show ?thesis by simp
qed

text \<open>An applied event is spent, and stays spent whatever is applied after it, as long as another probe
  of its stream does not report the same start.\<close>

definition no_tie :: "Result \<Rightarrow> Result \<Rightarrow> bool" where
  "no_tie ev e \<longleftrightarrow> (re_NodeID e = re_NodeID ev \<and> Stream e = Stream ev \<and>
     ob_StartedAt (re_Observation e) = ob_StartedAt (re_Observation ev) \<longrightarrow>
     ob_ProbeID (re_Observation e) = ob_ProbeID (re_Observation ev))"

lemma landing_stream:
  "validate_result ev = None \<Longrightarrow> validate_result e = None \<Longrightarrow> re_Kind ev = Landing \<Longrightarrow>
     Stream e = Stream ev \<longleftrightarrow> re_Kind e = Landing"
  by (auto simp: Stream_def kind_name_def validate_result_def payload_error_def Let_def
      split: ProbeKind.splits option.splits if_splits)

lemma applied_not_older:
  assumes "Apply t digest now e (Some db) = (Inr out, Some db')" and "ot_Applied out" and "re_Kind e \<noteq> Landing"
    and "GetNodeLocation t (re_NodeID e) db = Inr cur" and "GetProbeReceipt (re_NodeID e) (Stream e) db = Some r"
    and "pr_Revision r = tk_Revision (ls_Token cur)"
  shows "pr_StartedAt r \<le> ob_StartedAt (re_Observation e)"
proof (rule ccontr)
  assume "\<not> pr_StartedAt r \<le> ob_StartedAt (re_Observation e)"
  with assms show False
    by (cases "pr_Result r") (auto simp: Apply_def apply_tx_def Let_def split: option.splits if_splits)
qed

lemma spent_after:
  assumes "Apply t digest now e (Some db) = (res, Some db')" and "validate_result ev = None"
    and "(spent t ev db \<and> no_tie ev e) \<or> (e = ev \<and> (\<exists>out. res = Inr out \<and> ot_Applied out))"
  shows "spent t ev db'"
  using Apply_cases [OF assms(1)]
proof (elim disjE exE conjE)
  fix cur out0 out1 out db1
  assume res: "res = Inr out" and valid: "validate_result e = None" and cur: "GetNodeLocation t (re_NodeID e) db = Inr cur"
    and tok: "ls_Token cur = ob_Token (re_Observation e)" and ev: "ot_Event out0 = e"
    and wf: "write_facts t now cur out0 db = (Inr (True, out1), db1)"
    and out: "out = out1\<lparr>ot_Applied := True, ot_Reason := ''applied''\<rparr>" and db': "db' = PutProbeReceipt (receipt_for out) db1"
  have event: "ot_Event out = e" using write_facts_frame(1) [OF wf] by (simp add: out ev)
  have loc': "GetNodeLocation t n db' = GetNodeLocation t n db1" for n
    by (rule GetNodeLocation_row) (simp add: db')
  obtain st1 where st1: "GetNodeLocation t (re_NodeID e) db1 = Inr st1" "ls_Token st1 = ls_Token cur"
    and others: "\<forall>n. n \<noteq> re_NodeID e \<longrightarrow> GetNodeLocation t n db1 = GetNodeLocation t n db"
    using write_facts_rows [OF wf] valid cur by (auto simp: ev intro: GetNodeLocation_row)
  have receipts: "GetProbeReceipt n s db' = (if n = re_NodeID e \<and> s = Stream e then Some (receipt_for out) else GetProbeReceipt n s db)" for n s
    using GetProbeReceipt_receipts [OF write_facts_frame(4) [OF wf]] by (simp add: db' receipt_for_def event)
  have tok_ev: "ls_Token cur = ob_Token (re_Observation ev)" if "re_NodeID e = re_NodeID ev"
    using assms(3) cur tok that by (auto simp: spent_def)
  show "spent t ev db'"
  proof (cases "re_NodeID e = re_NodeID ev \<and> Stream e = Stream ev")
    case False
    then have old: "spent t ev db" using assms(3) by auto
    then obtain c0 where c0: "GetNodeLocation t (re_NodeID ev) db = Inr c0" by (auto simp: spent_def)
    have row: "\<exists>c1. GetNodeLocation t (re_NodeID ev) db' = Inr c1 \<and> ls_Token c1 = ls_Token c0"
      using c0 cur st1 others loc' by (cases "re_NodeID e = re_NodeID ev") auto
    have "GetNodeLocation t (re_NodeID ev) db' = Inr c0" if landing: "re_Kind ev = Landing"
    proof (cases "re_NodeID e = re_NodeID ev")
      case True
      then have "re_Kind e \<noteq> Landing" using False landing_stream [OF assms(2) valid landing] by simp
      with ev have "pd_locations db1 = pd_locations db" by (intro write_facts_locations [OF wf]) simp
      then show ?thesis using GetNodeLocation_locations [of db1 db] loc' c0 by simp
    qed (use others loc' c0 in auto)
    with old row c0 False show ?thesis unfolding spent_def receipts by (cases "re_Kind ev = Landing") auto
  next
    case same: True
    note tok = tok tok_ev [OF conjunct1 [OF same]]
    show ?thesis
    proof (cases "re_Kind ev = Landing")
      case True
      then have e_landing: "re_Kind e = Landing" using same landing_stream [OF assms(2) valid True] by simp
      obtain d where d: "re_Detection e = Some d" "nd_NodeID d = re_NodeID e" using validated_landing [OF valid e_landing] by auto
      obtain ch where "ApplyLandingResult t now (re_Observation e) d db = (Inr ch, db1)" "ch_Applied ch"
        using write_facts_landing [OF wf] ev e_landing d(1) by auto
      from applied_landing [OF this, unfolded d(2), OF cur] obtain st where
        st: "GetNodeLocation t (re_NodeID e) db1 = Inr st" "ls_Token st = ls_Token cur"
          "rejection t cur (landing_obs (re_Observation e) d) = None" "ls_LastProbeID st = ob_ProbeID (re_Observation e)"
          "ls_LastStartedAt st = ob_StartedAt (re_Observation e)" "ls_LastSource st = ob_Source (re_Observation e)"
          "ls_LastSucceeded st = obs_success t (landing_obs (re_Observation e) d)"
        by blast
      have "\<exists>d. re_Detection ev = Some d \<and> outranked t st (landing_obs (re_Observation ev) d)"
        using assms(3)
      proof (elim disjE conjE)
        assume "spent t ev db" "no_tie ev e"
        then obtain d0 where d0: "re_Detection ev = Some d0" "outranked t cur (landing_obs (re_Observation ev) d0)"
          using True cur same by (auto simp: spent_def)
        have "outranked t st (landing_obs (re_Observation ev) d0)"
          by (rule outranked_stays [OF d0(2) st(3)]) (use \<open>no_tie ev e\<close> same st in \<open>auto simp: no_tie_def landing_obs_def\<close>)
        with d0(1) show ?thesis by blast
      next
        assume "e = ev"
        with d(1) st(4-7) show ?thesis by (auto simp: outranked_def landing_obs_def)
      qed
      with True st(1,2) loc' same tok show ?thesis by (auto simp: spent_def)
    next
      case False
      have e_kind: "re_Kind e \<noteq> Landing" using landing_stream [OF valid assms(2)] False same by metis
      have "ob_StartedAt (re_Observation ev) \<le> ob_StartedAt (re_Observation e) \<and>
        (ob_ProbeID (re_Observation e) = ob_ProbeID (re_Observation ev) \<or>
         ob_StartedAt (re_Observation ev) < ob_StartedAt (re_Observation e))"
        using assms(3)
      proof (elim disjE conjE)
        assume "spent t ev db" "no_tie ev e"
        then obtain r where r: "GetProbeReceipt (re_NodeID e) (Stream e) db = Some r" "pr_Revision r = tk_Revision (ls_Token cur)"
          "ob_StartedAt (re_Observation ev) \<le> pr_StartedAt r"
          using False cur same by (auto simp: spent_def)
        have "pr_StartedAt r \<le> ob_StartedAt (re_Observation e)"
          by (rule applied_not_older [OF assms(1) [unfolded res] _ e_kind cur r(1,2)]) (simp add: out)
        with r(3) \<open>no_tie ev e\<close> same show ?thesis by (auto simp: no_tie_def)
      qed simp
      moreover have "pr_Revision (receipt_for out) = tk_Revision (ls_Token cur)" by (simp add: receipt_for_def event tok(1))
      ultimately show ?thesis
        using False st1 loc' same tok receipts [of "re_NodeID ev" "Stream ev"]
        by (auto simp: spent_def receipt_for_def event)
    qed
  qed
qed (use assms(3) in auto)

text \<open>Further events, each applied at its time.\<close>

definition apply_all :: "region_tables \<Rightarrow> (Result \<Rightarrow> string) \<Rightarrow> (gtime \<times> Result) list \<Rightarrow> probe_db \<Rightarrow> probe_db" where
  "apply_all t digest evs db = fold (\<lambda>(now, e) d. the (snd (Apply t digest now e (Some d)))) evs db"

lemma Apply_keeps_store: "\<exists>db'. snd (Apply t digest now e (Some db)) = Some db'"
  by (auto simp: Apply_def split: option.splits prod.splits sum.splits)

lemma spent_after_all:
  assumes "validate_result ev = None" and "spent t ev db" and "list_all (no_tie ev \<circ> snd) evs"
  shows "spent t ev (apply_all t digest evs db)"
  using assms(2,3)
proof (induction evs arbitrary: db)
  case (Cons x evs)
  obtain now e where x: "x = (now, e)" by fastforce
  obtain res db' where ap: "Apply t digest now e (Some db) = (res, Some db')"
    using Apply_keeps_store [of t digest now e db] by (metis prod.collapse)
  have "spent t ev db'" by (rule spent_after [OF ap assms(1)]) (use Cons.prems x in auto)
  with Cons.IH Cons.prems(2) show ?case by (simp add: apply_all_def x ap)
qed (simp add: apply_all_def)


text \<open>A latency event whose speed status is empty passes validation as leaving the speed stream
  alone, but the stored speed measurement is overwritten: the upsert keeps only streams marked
  \<open>untested\<close>.\<close>

theorem empty_status_erases_speed:
  assumes "payload_error ev = None" and "re_Kind ev = Latency" and "re_Detection ev = Some d" and "nd_SpeedStatus d = []"
    and "map_of (pd_detection db) (re_NodeID ev) = Some old" and "re_NodeID ev \<in> set (db_nodes (pd_journal db))"
  shows "\<exists>row. map_of (pd_detection (snd (UpsertNodeDetectionResult now d db))) (re_NodeID ev) = Some row \<and>
    nd_SpeedStatus row = [] \<and> nd_AverageBytesPerSecond row = nd_AverageBytesPerSecond d"
  using assms
  by (auto simp: payload_error_def UpsertNodeDetectionResult_def merge_detection_def keep_if_def Let_def split: if_splits)

section \<open>Reconciliation\<close>

lemma reconcile_row_frame:
  assumes "reconcile_row t faults consume r db = (failed, calls, db1)"
  shows "pd_locations db1 = pd_locations db" "pd_journal db1 = pd_journal db"
    "map fst (pd_receipts db1) = map fst (pd_receipts db)"
  using assms
  by (auto simp: reconcile_row_def Acknowledge_def AcknowledgeProbeReceipt_def Let_def split: option.splits sum.splits if_splits)

lemma reconcile_row_success:
  assumes "reconcile_row t faults consume r db = (False, calls, db1)"
    and "GetProbeReceipt (pr_NodeID r) (pr_Stream r) db = Some r" and "r = receipt_for out"
    and "GetNodeLocation t (pr_NodeID r) db = Inr cur"
  shows "calls = (if ls_Token cur = ob_Token (re_Observation (ot_Event out)) then [out] else [])"
    "map_option pr_Pending (GetProbeReceipt (pr_NodeID r) (pr_Stream r) db1) = Some False"
  using assms
  by (auto simp: reconcile_row_def receipt_for_def Acknowledge_def AcknowledgeProbeReceipt_def GetProbeReceipt_def Let_def
      split: option.splits if_splits)

section \<open>A concrete event\<close>

definition demo_probe_db :: probe_db where
  "demo_probe_db = \<lparr>pd_journal = \<lparr>db_events = [], db_lastSeq = 4, db_cursors = [], db_states = [], db_groups = [], db_nodes = [7]\<rparr>,
     pd_locations = [(7, \<lparr>lr_State = Some demo_fresh, lr_Revision = 1, lr_Identity = ''node'', lr_Region = [], lr_Country = []\<rparr>)],
     pd_receipts = [], pd_detection = [], pd_quality = [], pd_unlock = []\<rparr>"

definition demo_health_result :: Result where
  "demo_health_result = \<lparr>re_NodeID = 7, re_Kind = Health, re_Origin = HealthProbe,
     re_Observation = demo_obs ''p1'' 1 ''HK'' SourceGeoIPExit, re_Detection = None, re_Quality = None, re_Unlock = None,
     re_Health = Some \<lparr>he_Tag = ''node-7'', he_Success = True, he_Latency = 25 * millisecond, he_Error = []\<rparr>\<rparr>"

definition demo_applied :: "Outcome \<times> probe_db" where
  "demo_applied = (case Apply demo_regions (\<lambda>_. ''digest'') 9 demo_health_result (Some demo_probe_db) of
     (Inr out, Some db) \<Rightarrow> (out, db) | _ \<Rightarrow>
       (\<lparr>ot_ReceiptID = [], ot_Event = demo_health_result, ot_Applied = False, ot_Reason = [], ot_Location = no_change, ot_Seq = 0\<rparr>,
        demo_probe_db))"

definition demo_second_probe :: Result where
  "demo_second_probe = demo_health_result\<lparr>re_Observation := demo_obs ''p2'' 4 ''HK'' SourceGeoIPExit\<rparr>"


text \<open>Two probes with the same start, as a coarse clock gives them: after the second one, the first is
  applied once more, with a second journal row.\<close>

definition demo_tied_probe :: Result where
  "demo_tied_probe = demo_health_result\<lparr>re_Observation := demo_obs ''p2'' 1 ''HK'' SourceGeoIPExit\<rparr>"

lemma tied_replay_is_applied:
  "(let db2 = apply_all demo_regions (\<lambda>_. ''digest'') [(11, demo_tied_probe)] (snd demo_applied);
        (res, db3) = Apply demo_regions (\<lambda>_. ''digest'') 12 demo_health_result (Some db2)
    in (case res of Inr again \<Rightarrow> ot_Applied again | Inl _ \<Rightarrow> False) \<and>
       map jv_ProbeID (db_events (pd_journal (the db3))) = [''p1'', ''p2'', ''p1''])"
  by code_simp

end
