(* ===== verification/Monitor_Health.thy ===== *)
theory Monitor_Health
  imports Monitor_Registry Probe_Properties
begin

text \<open>
  A finished health probe from the measurement to routing: \<open>commitHealthResult\<close> writes the fact, its
  journal row and its receipt, projects the outcome on the entry and acknowledges the receipt. Either all
  of it happens or nothing does, and a repeated or reordered outcome does not project twice.
\<close>

section \<open>Projection\<close>

lemma PublishHealthResult_fields [simp]:
  "ma_registry (PublishHealthResult ev m) = ma_registry m" "ma_store (PublishHealthResult ev m) = ma_store m"
  "ma_probeEpoch (PublishHealthResult ev m) = ma_probeEpoch m" "ma_startupPolicy (PublishHealthResult ev m) = ma_startupPolicy m"
  by (simp_all add: PublishHealthResult_def)

lemma on_registry_fields [simp]:
  "ma_registry (on_registry f m) = f (ma_registry m)" "ma_store (on_registry f m) = ma_store m"
  "ma_probeEpoch (on_registry f m) = ma_probeEpoch m" "ma_startupPolicy (on_registry f m) = ma_startupPolicy m"
  by (simp_all add: on_registry_def)

lemma projectHealthResult_fields [simp]:
  "ma_store (projectHealthResult now a latency err checkedAt seq pid m) = ma_store m"
  "ma_probeEpoch (projectHealthResult now a latency err checkedAt seq pid m) = ma_probeEpoch m"
  "ma_startupPolicy (projectHealthResult now a latency err checkedAt seq pid m) = ma_startupPolicy m"
  by (simp_all add: projectHealthResult_def Let_def)

lemma projectHealthResult_registry:
  "\<exists>dst. ma_registry (projectHealthResult now a latency err checkedAt seq pid m) =
     update_entry a (project_entry now dst latency err (if is_zero_time checkedAt then now else checkedAt)) (ma_registry m)"
  by (auto simp: projectHealthResult_def Let_def)

lemma project_entry_fields [simp]:
  "en_info (project_entry now dst latency err checkedAt e) = en_info e"
  "en_healthReceiptID (project_entry now dst latency err checkedAt e) = en_healthReceiptID e"
  "en_blacklist (project_entry now dst latency err checkedAt e) = en_blacklist e"
  "en_initialCheckDone (project_entry now dst latency err checkedAt e)"
  "en_available (project_entry now dst latency err checkedAt e) = (err = None)"
  "en_lastHealthCheck (project_entry now dst latency err checkedAt e) = checkedAt"
  by (simp_all add: project_entry_def entry_recordFailure_def recordSuccessWithLatency_def appendTimelineLocked_def Let_def
      split: option.split)

text \<open>The guards of a projection: the outcome belongs to the running generation of its node and is newer
  than the last one projected.\<close>

definition projects_on :: "Outcome \<Rightarrow> Manager \<Rightarrow> nat option" where
  "projects_on out m = (case re_Health (ot_Event out) of None \<Rightarrow> None
     | Some h \<Rightarrow>
         if ob_StartedAt (re_Observation (ot_Event out)) < ma_probeEpoch m then None
         else case byTagEntry (he_Tag h) (ma_registry m) of None \<Rightarrow> None
              | Some a \<Rightarrow>
                  let e = rg_store (ma_registry m) a
                  in if byNodeID (re_NodeID (ot_Event out)) (ma_registry m) = Some a \<and>
                        in_NodeID (en_info e) = re_NodeID (ot_Event out) \<and> in_Tag (en_info e) = he_Tag h \<and>
                        ot_ReceiptID out \<noteq> en_healthReceiptID e \<and> en_healthReceiptAt e < ob_CheckedAt (re_Observation (ot_Event out))
                     then Some a else None)"

definition is_health :: "Result \<Rightarrow> bool" where
  "is_health ev \<longleftrightarrow> re_Kind ev = Health \<and> re_Origin ev = HealthProbe \<and> re_Health ev \<noteq> None"

definition projected :: "gtime \<Rightarrow> nat \<Rightarrow> Outcome \<Rightarrow> HealthResult \<Rightarrow> Manager \<Rightarrow> Manager" where
  "projected now a out h m =
     on_registry (update_entry a (\<lambda>e. e\<lparr>en_healthReceiptID := ot_ReceiptID out, en_healthReceiptAt := ob_CheckedAt (re_Observation (ot_Event out))\<rparr>))
       (projectHealthResult now a (he_Latency h) (if he_Success h then None else Some (he_Error h))
          (ob_CheckedAt (re_Observation (ot_Event out))) (ot_Seq out) (ob_ProbeID (re_Observation (ot_Event out))) m)"

lemma ProjectHealthOutcome_cases:
  assumes "is_health (ot_Event out)"
  shows "ProjectHealthOutcome now out m = (None, case projects_on out m of None \<Rightarrow> m
     | Some a \<Rightarrow> projected now a out (the (re_Health (ot_Event out))) m)"
  using assms
  by (auto simp: ProjectHealthOutcome_def projects_on_def is_health_def projected_def Let_def split: option.splits)

lemma ProjectHealthOutcome_invalid: "\<not> is_health (ot_Event out) \<Longrightarrow> \<exists>e. ProjectHealthOutcome now out m = (Some e, m)"
  by (auto simp: ProjectHealthOutcome_def is_health_def Let_def split: option.splits)

lemma projected_registry:
  "\<exists>f. ma_registry (projected now a out h m) = update_entry a f (ma_registry m) \<and>
     (\<forall>e. en_info (f e) = en_info e \<and> en_healthReceiptID (f e) = ot_ReceiptID out \<and> en_blacklist (f e) = en_blacklist e \<and>
        en_healthReceiptAt (f e) = ob_CheckedAt (re_Observation (ot_Event out)) \<and> en_initialCheckDone (f e) \<and> en_available (f e) = he_Success h)"
proof -
  let ?c = "ob_CheckedAt (re_Observation (ot_Event out))" and ?err = "if he_Success h then None else Some (he_Error h)"
  obtain dst where dst: "ma_registry (projectHealthResult now a (he_Latency h) ?err ?c (ot_Seq out) (ob_ProbeID (re_Observation (ot_Event out))) m) =
     update_entry a (project_entry now dst (he_Latency h) ?err (if is_zero_time ?c then now else ?c)) (ma_registry m)"
    using projectHealthResult_registry by blast
  let ?f = "\<lambda>e. (project_entry now dst (he_Latency h) ?err (if is_zero_time ?c then now else ?c) e)
      \<lparr>en_healthReceiptID := ot_ReceiptID out, en_healthReceiptAt := ?c\<rparr>"
  have "ma_registry (projected now a out h m) = update_entry a ?f (ma_registry m)"
    by (simp add: projected_def dst) (simp add: update_entry_def)
  then show ?thesis by (intro exI [of _ ?f]) simp
qed

lemma projects_on_byTag: "projects_on out m = Some a \<Longrightarrow> \<exists>h. re_Health (ot_Event out) = Some h \<and> byTagEntry (he_Tag h) (ma_registry m) = Some a"
  by (auto simp: projects_on_def Let_def split: option.splits if_splits)

lemma projected_again:
  assumes "projects_on out m = Some a"
  shows "projects_on out (projected now a out h m) = None"
proof -
  obtain f where f: "ma_registry (projected now a out h m) = update_entry a f (ma_registry m)"
      "\<forall>e. en_info (f e) = en_info e \<and> en_healthReceiptID (f e) = ot_ReceiptID out"
    using projected_registry [of now a out h m] by blast
  have epoch: "ma_probeEpoch (projected now a out h m) = ma_probeEpoch m" by (simp add: projected_def)
  show ?thesis
  proof (cases "projects_on out (projected now a out h m)")
    case (Some b)
    then show ?thesis
      using f(2) projects_on_byTag [OF assms] unfolding projects_on_def f(1) epoch
      by (auto simp: registry_simps byTagEntry_def byNodeID_def Let_def split: option.splits if_splits)
  qed simp
qed

lemma projection_idempotent:
  "ProjectHealthOutcome now2 out (snd (ProjectHealthOutcome now out m)) = (fst (ProjectHealthOutcome now out m), snd (ProjectHealthOutcome now out m))"
proof (cases "is_health (ot_Event out)")
  case True
  then show ?thesis by (simp add: ProjectHealthOutcome_cases projected_again split: option.splits)
next
  case False
  then show ?thesis by (auto simp: ProjectHealthOutcome_def is_health_def Let_def split: option.splits)
qed

section \<open>Committing a measurement\<close>

lemma validated_health_payload:
  assumes "validate_result ev = None" and "re_Health ev = Some h"
  shows "is_health ev" "Stream ev = ''health''"
proof -
  have pay: "payloads ev = 1" "payload_error ev = None" using assms(1) by (auto simp: validate_result_def Let_def split: if_splits)
  have none: "re_Detection ev = None" "re_Quality ev = None" "re_Unlock ev = None" using pay(1) assms(2) by (auto simp: payloads_def of_bool_def split: if_splits)
  show "is_health ev" using pay(2) none assms(2) by (auto simp: payload_error_def is_health_def split: ProbeKind.splits if_splits)
  then show "Stream ev = ''health''" by (simp add: Stream_def is_health_def kind_name_def)
qed

definition health_event :: "Result \<Rightarrow> duration \<Rightarrow> string option \<Rightarrow> gtime \<Rightarrow> Result" where
  "health_event tk latency err checkedAt =
     tk\<lparr>re_Observation := (re_Observation tk)\<lparr>ob_CheckedAt := checkedAt\<rparr>,
        re_Health := Some \<lparr>he_Tag = (case re_Health tk of None \<Rightarrow> [] | Some h \<Rightarrow> he_Tag h), he_Success = (err = None), he_Latency = latency,
                           he_Error = (case err of None \<Rightarrow> [] | Some e \<Rightarrow> e)\<rparr>\<rparr>"

lemma health_event_fields [simp]:
  "re_NodeID (health_event tk latency err checkedAt) = re_NodeID tk"
  "ob_CheckedAt (re_Observation (health_event tk latency err checkedAt)) = checkedAt"
  "ob_StartedAt (re_Observation (health_event tk latency err checkedAt)) = ob_StartedAt (re_Observation tk)"
  by (simp_all add: health_event_def)

lemma commit_unapplied:
  assumes "ma_store m = Some db" and "Apply t digest now (health_event tk latency err checkedAt) (Some db) = (r, Some db)"
    and "\<forall>out. r = Inr out \<longrightarrow> \<not> ot_Applied out"
    and "commitHealthResult t digest now ackFault a (Some tk) latency err checkedAt m = (res, m')"
  shows "res \<noteq> None \<and> ma_registry m' = ma_registry m \<and> ma_store m' = Some db"
  using assms by (cases r) (auto simp: commitHealthResult_def health_event_def Let_def)

lemma commit_applied:
  assumes "ma_store m = Some db" and "Apply t digest now (health_event tk latency err checkedAt) (Some db) = (Inr out, Some db1)"
    and "ot_Applied out" and "is_health (ot_Event out)"
    and "commitHealthResult t digest now ackFault a (Some tk) latency err checkedAt m = (res, m')"
  shows "res = ackFault" "ma_store m' = Some (snd (Acknowledge ackFault out db1))"
    "ma_registry m' = ma_registry (snd (ProjectHealthOutcome now out (m\<lparr>ma_store := Some db1\<rparr>)))"
    "ma_startupPolicy m' = ma_startupPolicy m"
  using assms
  by (auto simp: commitHealthResult_def health_event_def [symmetric] Let_def ProjectHealthOutcome_cases projected_def
      Acknowledge_def AcknowledgeProbeReceipt_def split: option.splits)

lemma Acknowledge_effect:
  "pd_journal (snd (Acknowledge fault out db)) = pd_journal db"
  "GetProbeReceipt (re_NodeID (ot_Event out)) (Stream (ot_Event out)) db = Some (receipt_for out) \<Longrightarrow>
     map_option pr_Pending (GetProbeReceipt (re_NodeID (ot_Event out)) (Stream (ot_Event out)) (snd (Acknowledge fault out db)))
       = Some (fault \<noteq> None)"
  by (auto simp: Acknowledge_def AcknowledgeProbeReceipt_def GetProbeReceipt_def receipt_for_def split: option.split)

text \<open>The entry that a measurement of this node and generation is meant for, and the routing verdict.\<close>

definition awaits :: "nat \<Rightarrow> Result \<Rightarrow> string \<Rightarrow> gtime \<Rightarrow> Manager \<Rightarrow> bool" where
  "awaits b tk rid checkedAt m \<longleftrightarrow> (let e = rg_store (ma_registry m) b in
     byNodeID (re_NodeID tk) (ma_registry m) = Some b \<and> re_Health tk \<noteq> None \<and> in_Tag (en_info e) = he_Tag (the (re_Health tk)) \<and>
     ma_probeEpoch m \<le> ob_StartedAt (re_Observation tk) \<and> en_healthReceiptID e \<noteq> rid \<and> en_healthReceiptAt e < checkedAt)"

lemma awaits_projects:
  assumes ok: "registry_ok (ma_registry m)" and aw: "awaits b tk (digest ev) checkedAt m" and ev: "ev = health_event tk latency err checkedAt"
    and out: "ot_Event out = ev" "ot_ReceiptID out = digest ev"
  shows "projects_on out (m\<lparr>ma_store := st\<rparr>) = Some b"
proof -
  have id: "byNodeID (re_NodeID tk) (ma_registry m) = Some b" using aw by (simp add: awaits_def Let_def)
  have n: "node_of (ma_registry m) b = re_NodeID tk" "byTagEntry (tag_of (ma_registry m) b) (ma_registry m) = Some b"
    using registry_okD(2) [OF ok, of "re_NodeID tk" b] id by (simp_all add: byNodeID_def byTagEntry_def split: if_splits)
  show ?thesis
    using aw n id by (auto simp: projects_on_def out ev health_event_def awaits_def Let_def)
qed

lemma projected_snapshot:
  assumes "byNodeID n (ma_registry m) = Some b"
  shows "\<exists>s. SnapshotForNodeID (projected now b out h m) n = Some s \<and> ns_InitialCheckDone s \<and> ns_Available s = he_Success h \<and>
    ns_RoutingEligible s = (he_Success h \<and> \<not> en_blacklist (rg_store (ma_registry m) b))"
proof -
  obtain f where f: "ma_registry (projected now b out h m) = update_entry b f (ma_registry m)"
      "\<And>e. en_blacklist (f e) = en_blacklist e" "\<And>e. en_initialCheckDone (f e)" "\<And>e. en_available (f e) = he_Success h"
    using projected_registry [of now b out h m] by blast
  let ?e = "f (rg_store (ma_registry m) b)" and ?p = "ma_startupPolicy (projected now b out h m)"
  have "byNodeID n (ma_registry (projected now b out h m)) = Some b" using assms by (auto simp: f(1) byNodeID_def registry_simps split: if_splits)
  then have "SnapshotForNodeID (projected now b out h m) n = Some (decorateSnapshot ?p (entry_snapshot ?e))"
    by (simp add: SnapshotForNodeID_def f(1) registry_simps)
  moreover have "ns_InitialCheckDone (decorateSnapshot ?p (entry_snapshot ?e))" "ns_Available (decorateSnapshot ?p (entry_snapshot ?e)) = he_Success h"
      "ns_RoutingEligible (decorateSnapshot ?p (entry_snapshot ?e)) = (he_Success h \<and> \<not> en_blacklist (rg_store (ma_registry m) b))"
    by (auto simp: decorateSnapshot_def entry_snapshot_def f(2-4) Let_def)
  ultimately show ?thesis by blast
qed


section \<open>A concrete measurement\<close>

definition demo_health_manager :: Manager where
  "demo_health_manager = \<lparr>ma_registry = demo_registry, ma_hub = newHealthEventHub, ma_store = Some demo_probe_db, ma_probeEpoch = 0,
     ma_target = Some ''example.com:80'', ma_startupPolicy = ''strict'', ma_healthInterval = hour, ma_healthStarted = True,
     ma_groupSchedules = [], ma_groupScheduleNext = 0\<rparr>"

definition demo_ticket :: Result where
  "demo_ticket = (case beginHealthResult demo_regions (\<lambda>_. ''node'') 5 ''p1'' 0 demo_health_manager of Inr (Some tk) \<Rightarrow> tk | _ \<Rightarrow> demo_health_result)"

definition demo_commit :: "string option \<times> Manager" where
  "demo_commit = commitHealthResult demo_regions (\<lambda>_. ''digest'') 9 None 0 (Some demo_ticket) millisecond None 8 demo_health_manager"

definition demo_commit_unacknowledged :: "string option \<times> Manager" where
  "demo_commit_unacknowledged = commitHealthResult demo_regions (\<lambda>_. ''digest'') 9 (Some ''database is locked'') 0 (Some demo_ticket)
     millisecond None 8 demo_health_manager"


end
