(* ===== verification/Monitor_Pool.thy ===== *)
theory Monitor_Pool
  imports Monitor_Health Pool_Views
begin

text \<open>
  The monitor as the pool sees it. A pool asks the monitor for the snapshot of a member before it
  consults its own blacklist, and reports failures and releases back to the monitor's entry. This theory
  composes the two models and shows what the composition means for a blacklisted member.
\<close>

definition pool_view :: "NodeSnapshot \<Rightarrow> MonitorSnapshot" where
  "pool_view s = \<lparr>sn_LastLatencyMs = ns_LastLatencyMs s, sn_RoutingEligible = ns_RoutingEligible s,
     sn_Provisional = ns_Provisional s, sn_InitialCheckDone = ns_InitialCheckDone s\<rparr>"

definition monitor_view_of :: "Manager \<Rightarrow> monitor_view" where
  "monitor_view_of m = \<lparr>mv_probeConfigured = (ma_target m \<noteq> None), mv_forTag = (\<lambda>tag. map_option pool_view (SnapshotForTag m tag)),
     mv_forNodeID = (\<lambda>n. map_option pool_view (SnapshotForNodeID m n))\<rparr>"

text \<open>A call on an entry handle, as the method of the entry behind it.\<close>

definition entry_effect :: "gtime \<Rightarrow> entry_call \<Rightarrow> entry \<Rightarrow> entry" where
  "entry_effect now c = (case c of
     EntryFailure err dst \<Rightarrow> entry_recordFailure now err dst
   | EntrySuccess dst \<Rightarrow> entry_recordSuccess now dst
   | EntryBlacklist t \<Rightarrow> blacklistUntil t
   | EntryClearBlacklist \<Rightarrow> clearBlacklist
   | EntryIncActive \<Rightarrow> entry_incActive
   | EntryDecActive \<Rightarrow> entry_decActive
   | EntryAddTraffic up down \<Rightarrow> AddTraffic up down)"

definition call_entry :: "gtime \<Rightarrow> nat \<Rightarrow> entry_call list \<Rightarrow> Manager \<Rightarrow> Manager" where
  "call_entry now a cs = on_registry (fold (\<lambda>c. update_entry a (entry_effect now c)) cs)"

section \<open>A blacklisted member\<close>

text \<open>What can happen to a member of a base pool without an operator: the pool rebuilds its candidates,
  as it does when a blacklist expires, and the monitor records health results. \<open>e\<close> is the entry the
  member's shared state reports to.\<close>

inductive recover_step :: "pool_config \<Rightarrow> mref \<Rightarrow> nat \<Rightarrow> Manager \<times> pool_world \<Rightarrow> Manager \<times> pool_world \<Rightarrow> bool" for cfg r e where
  rebuild: "memberAvailableForSnapshot cfg (Some (monitor_view_of m)) now r w = (b, w1) \<Longrightarrow>
    recover_step cfg r e (m, w) (call_entry now e (drop (length (pw_calls w)) (pw_calls w1)) m, w1)"
| measured: "recover_step cfg r e (m, w) (projectHealthResult now a latency err checkedAt seq pid m, w)"

definition kept_out :: "pool_config \<Rightarrow> mref \<Rightarrow> nat \<Rightarrow> Manager \<times> pool_world \<Rightarrow> bool" where
  "kept_out cfg r e = (\<lambda>(m, w). \<not> pc_MonitorObserverOnly cfg \<and> ma_target m \<noteq> None \<and>
     byTagEntry (mr_tag (pw_members w r)) (ma_registry m) = Some e \<and> en_blacklist (rg_store (ma_registry m) e))"

lemma kept_out_unavailable:
  assumes "kept_out cfg r e (m, w)"
  shows "\<exists>ms. memberAvailableForSnapshot cfg (Some (monitor_view_of m)) now r w =
    (False, w\<lparr>pw_members := (pw_members w)(r := (pw_members w r)\<lparr>mr_latencyMs := ms\<rparr>)\<rparr>)"
proof -
  have "\<exists>sn. monitor_snapshot cfg (monitor_view_of m) (pw_members w r) = Some sn \<and> \<not> sn_RoutingEligible sn"
    using assms by (simp add: kept_out_def monitor_snapshot_def monitor_view_of_def SnapshotForTag_def pool_view_def
      decorateSnapshot_def entry_snapshot_def Let_def)
  moreover have "mv_probeConfigured (monitor_view_of m)" using assms by (simp add: kept_out_def monitor_view_of_def)
  ultimately show ?thesis by (auto simp: memberAvailableForSnapshot_def Let_def)
qed

lemma projectHealthResult_registry_entry:
  "en_blacklist (rg_store (ma_registry (projectHealthResult now a latency err checkedAt seq pid m)) b) = en_blacklist (rg_store (ma_registry m) b)"
  "byTagEntry tag (ma_registry (projectHealthResult now a latency err checkedAt seq pid m)) = byTagEntry tag (ma_registry m)"
  "ma_target (projectHealthResult now a latency err checkedAt seq pid m) = ma_target m"
  using projectHealthResult_registry [of now a latency err checkedAt seq pid m]
  by (auto simp: registry_simps byTagEntry_def projectHealthResult_def PublishHealthResult_def on_registry_def Let_def)

interpretation blacklist: preserved_invariant "recover_step cfg r e" "kept_out cfg r e" for cfg r e
proof
  fix s t
  assume inv: "kept_out cfg r e s" and step: "recover_step cfg r e s t"
  from step show "kept_out cfg r e t"
  proof cases
    case (rebuild m now w b w1)
    obtain ms where "memberAvailableForSnapshot cfg (Some (monitor_view_of m)) now r w =
        (False, w\<lparr>pw_members := (pw_members w)(r := (pw_members w r)\<lparr>mr_latencyMs := ms\<rparr>)\<rparr>)"
      using kept_out_unavailable [of cfg r e m w now] inv rebuild(1) by auto
    with rebuild inv show ?thesis by (auto simp: kept_out_def call_entry_def on_registry_def)
  next
    case (measured m w)
    then show ?thesis using inv by (simp add: kept_out_def projectHealthResult_registry_entry)
  qed
qed

text \<open>C17: with a probe target configured, an expired blacklist never readmits a member. Let a base pool's
  member be blacklisted, in its shared state and thereby in the monitor's entry. Whatever the pool
  rebuilds and the monitor measures afterwards, at every later time the member is refused, also when the
  blacklist has expired and its last probe succeeded: the monitor's flag is consulted first, and only the
  check that is skipped then would clear it.\<close>

theorem expired_blacklist_never_readmits:
  assumes "\<not> pc_MonitorObserverOnly cfg" and "ma_target m \<noteq> None"
    and "byTagEntry (mr_tag (pw_members w r)) (ma_registry m) = Some e" and "en_blacklist (rg_store (ma_registry m) e)"
    and "reaches (recover_step cfg r e) (m, w) (m', w')"
  shows "\<not> fst (memberAvailableForSnapshot cfg (Some (monitor_view_of m')) now r w')"
proof -
  have "kept_out cfg r e (m, w)" using assms(1-4) by (simp add: kept_out_def)
  then have "kept_out cfg r e (m', w')" by (rule blacklist.reaches_inv [OF assms(5)])
  from kept_out_unavailable [OF this, of now] show ?thesis by auto
qed

text \<open>Without a monitor, the same rebuild readmits the member and clears its blacklist.\<close>

lemma expired_blacklist_readmits_alone:
  assumes "pc_GroupID cfg = 0" and "mr_shared (pw_members w r) = Some a"
    and "sh_blacklisted (ss_heap (pw_shared w) a)" and "sh_blacklistedUntil (ss_heap (pw_shared w) a) < now"
  shows "\<exists>w1. memberAvailableForSnapshot cfg None now r w = (True, w1) \<and> \<not> sh_blacklisted (ss_heap (pw_shared w1) a)"
  using assms by (simp add: memberAvailableForSnapshot_def shared_blacklisted_def isBlacklisted_def put_shared_def Let_def)

section \<open>A concrete member\<close>

text \<open>Member 1 is blacklisted until 5 in its shared state and in the monitor; at 900 a probe succeeds.\<close>

definition demo_blacklisted_manager :: Manager where
  "demo_blacklisted_manager = call_entry 1 0 [EntryBlacklist 5]
     (demo_health_manager\<lparr>ma_registry := snd (registry_register (demo_info 1 ''m1'') newNodeRegistry)\<rparr>)"

definition demo_blacklisted_world :: pool_world where
  "demo_blacklisted_world = demo_pool_world\<lparr>pw_shared := \<lparr>ss_byTag = [], ss_heap = (\<lambda>_. blank_shared\<lparr>sh_blacklisted := True,
     sh_blacklistedUntil := 5, sh_entry := Some 0\<rparr>), ss_next = 9\<rparr>\<rparr>"

definition demo_measured_manager :: Manager where
  "demo_measured_manager = projectHealthResult 900 0 millisecond None 900 0 [] demo_blacklisted_manager"

theorem expired_blacklist_never_readmits_witness:
  "\<not> fst (memberAvailableForSnapshot (demo_pool_config modeRandom) (Some (monitor_view_of demo_measured_manager)) 1000 1 demo_blacklisted_world) \<and>
   en_available (rg_store (ma_registry demo_measured_manager) 0) \<and> \<not> fst (isBlacklisted 1000 (ss_heap (pw_shared demo_blacklisted_world) 1))"
proof -
  have facts: "\<not> pc_MonitorObserverOnly (demo_pool_config modeRandom)" "ma_target demo_blacklisted_manager \<noteq> None"
    "byTagEntry (mr_tag (pw_members demo_blacklisted_world 1)) (ma_registry demo_blacklisted_manager) = Some 0"
    "en_blacklist (rg_store (ma_registry demo_blacklisted_manager) 0)"
    and rest: "en_available (rg_store (ma_registry demo_measured_manager) 0)" "\<not> fst (isBlacklisted 1000 (ss_heap (pw_shared demo_blacklisted_world) 1))"
    by code_simp+
  have run: "reaches (recover_step (demo_pool_config modeRandom) 1 0) (demo_blacklisted_manager, demo_blacklisted_world) (demo_measured_manager, demo_blacklisted_world)"
    unfolding demo_measured_manager_def by (rule reaches_step [OF reaches_refl]) (rule measured)
  show ?thesis using expired_blacklist_never_readmits [OF facts run] rest by simp
qed

end
