(* ===== verification/Pool_Topology.thy ===== *)
theory Pool_Topology
  imports Monitor_Pool Pool_Selection
begin

text \<open>
  The topology of a pool, \<open>src/internal/outbound/pool/pool.go\<close>: how the member references, their runtimes and
  the published snapshots change when the control plane installs a new list of members, when candidates are rebuilt, when a
  dial pins a snapshot and when a pool is closed. The methods hold the pool's mutex, so each is one step; the atomic
  operations of a dial are in \<open>Pool_Pinning\<close>. A snapshot is kept with the number of its readers; replaced
  snapshots that are still read wait in \<open>po_leaving\<close>. The outbound manager of the proxy core is the argument
  \<open>outb\<close>, the identity hash of an address the argument \<open>identity\<close>. Calls that publication makes on monitor
  entries are logged in the world, as before.
\<close>

record poolOutbound =
  po_cfg :: pool_config
  po_world :: pool_world
  po_nextRef :: nat
  po_runtimes :: "nat \<Rightarrow> memberRuntime"
  po_nextRuntime :: nat
  po_runtimeOf :: "mref \<Rightarrow> nat"
  po_entryOf :: "mref \<Rightarrow> nat option"
  po_topology :: "mref list"
  po_topologyByTag :: "(string \<times> mref) list"
  po_runtimeByTag :: "(string \<times> nat) list"
  po_path :: data_path
  po_current :: "(PoolSnapshot \<times> nat) option"
  po_leaving :: "(PoolSnapshot \<times> nat) list"
  po_monitor :: "Manager option"
  po_subscription :: "(string \<times> string list \<times> node_id list) option"
  po_closed :: bool

type_synonym RuntimeMemberSpec = "string \<times> MemberMeta"

definition errClosed :: string where "errClosed = ''use of closed network connection''"

definition pref :: "poolOutbound \<Rightarrow> mref \<Rightarrow> MemberRef" where "pref p r = pw_members (po_world p) r"

definition on_runtime :: "nat \<Rightarrow> (memberRuntime \<Rightarrow> memberRuntime) \<Rightarrow> poolOutbound \<Rightarrow> poolOutbound" where
  "on_runtime x f p = p\<lparr>po_runtimes := (po_runtimes p)(x := f (po_runtimes p x))\<rparr>"

definition add_refs :: "int \<Rightarrow> mref list \<Rightarrow> poolOutbound \<Rightarrow> poolOutbound" where
  "add_refs k rs p = fold (\<lambda>r. on_runtime (po_runtimeOf p r) (\<lambda>t. t\<lparr>rt_snapshotRefs := rt_snapshotRefs t + k\<rparr>)) rs p"

section \<open>Snapshots\<close>

definition releaseSnapshotMembers :: "PoolSnapshot \<Rightarrow> poolOutbound \<Rightarrow> poolOutbound" where
  "releaseSnapshotMembers snap p = add_refs (-1) (snd (ps_allMembers snap)) p"

text \<open>A snapshot that no longer accepts readers: released at once when nobody reads it.\<close>

definition retire_snapshot :: "PoolSnapshot \<times> nat \<Rightarrow> poolOutbound \<Rightarrow> poolOutbound" where
  "retire_snapshot sn p = (if snd sn = 0 then releaseSnapshotMembers (fst sn) p else p\<lparr>po_leaving := sn # po_leaving p\<rparr>)"

definition publish_topology :: "gtime \<Rightarrow> mref list \<Rightarrow> poolOutbound \<Rightarrow> PoolSnapshot \<times> poolOutbound" where
  "publish_topology now members p =
     (let (snap, w) = publishSnapshotLocked (po_cfg p) (map_option monitor_view_of (po_monitor p)) now (map_option fst (po_current p)) members (po_world p);
          p1 = (add_refs 1 members (p\<lparr>po_world := w\<rparr>))\<lparr>po_current := Some (snap, 0)\<rparr>
      in (snap, case po_current p of None \<Rightarrow> p1 | Some old \<Rightarrow> retire_snapshot old p1))"

definition rebuildCandidatesNow :: "gtime \<Rightarrow> poolOutbound \<Rightarrow> poolOutbound" where
  "rebuildCandidatesNow now p = (if po_closed p \<or> po_topology p = [] then p else snd (publish_topology now (po_topology p) p))"

text \<open>A reader lets go of the snapshot it has, known by its version.\<close>

fun leave_one :: "nat \<Rightarrow> (PoolSnapshot \<times> nat) list \<Rightarrow> PoolSnapshot option \<times> (PoolSnapshot \<times> nat) list" where
  "leave_one v [] = (None, [])"
| "leave_one v ((snap, n) # sns) =
     (if ps_Version snap = v then if n \<le> 1 then (Some snap, sns) else (None, (snap, n - 1) # sns)
      else let (gone, rest) = leave_one v sns in (gone, (snap, n) # rest))"

definition releaseSnapshotReader :: "nat \<Rightarrow> poolOutbound \<Rightarrow> poolOutbound" where
  "releaseSnapshotReader v p = (case po_current p of
       Some (snap, n) \<Rightarrow> if ps_Version snap = v then p\<lparr>po_current := Some (snap, n - 1)\<rparr>
                         else (let (gone, rest) = leave_one v (po_leaving p); p1 = p\<lparr>po_leaving := rest\<rparr>
                               in case gone of None \<Rightarrow> p1 | Some s \<Rightarrow> releaseSnapshotMembers s p1)
     | None \<Rightarrow> (let (gone, rest) = leave_one v (po_leaving p); p1 = p\<lparr>po_leaving := rest\<rparr>
                in case gone of None \<Rightarrow> p1 | Some s \<Rightarrow> releaseSnapshotMembers s p1))"

definition acquireOperation :: "mref \<Rightarrow> poolOutbound \<Rightarrow> bool \<times> poolOutbound" where
  "acquireOperation r p = (let x = po_runtimeOf p r
     in if rt_retired (po_runtimes p x) then (False, p)
        else (True, on_runtime x (\<lambda>t. t\<lparr>rt_operations := rt_operations t + 1\<rparr>) p))"

definition releaseOperation :: "mref \<Rightarrow> poolOutbound \<Rightarrow> poolOutbound" where
  "releaseOperation r p = on_runtime (po_runtimeOf p r) (\<lambda>t. t\<lparr>rt_operations := rt_operations t - 1\<rparr>) p"

section \<open>Members\<close>

definition member_info :: "string \<Rightarrow> MemberMeta \<Rightarrow> NodeInfo" where
  "member_info tag meta = \<lparr>in_NodeID = mm_NodeID meta, in_Tag = tag, in_Name = mm_Name meta, in_URI = mm_URI meta, in_Mode = mm_Mode meta,
     in_ListenAddress = mm_ListenAddress meta, in_Port = int (mm_Port meta), in_Region = mm_Region meta, in_Country = mm_Country meta\<rparr>"

definition attachMonitorMember :: "(string \<Rightarrow> string option) \<Rightarrow> mref \<Rightarrow> poolOutbound \<Rightarrow> poolOutbound" where
  "attachMonitorMember identity r p = (case po_monitor p of None \<Rightarrow> p
     | Some m \<Rightarrow>
         let member = pref p r; meta = mr_meta member
         in if pc_MonitorObserverOnly (po_cfg p)
            then (case byNodeID (mm_NodeID meta) (ma_registry m) of None \<Rightarrow> p
                  | Some e \<Rightarrow> p\<lparr>po_entryOf := (po_entryOf p)(r := Some e)\<rparr>)
            else let (e, reg) = registry_migrate identity (mm_NodeID meta) (member_info (mr_tag member) meta) (ma_registry m);
                     reg1 = update_entry e (setDialer True \<circ> setProbe True \<circ> setRelease True) reg;
                     w = po_world p; ss = pw_shared w;
                     ss1 = (case mr_shared member of None \<Rightarrow> ss | Some a \<Rightarrow> put_shared a (attachEntry (Some e) (ss_heap ss a)) ss)
                 in p\<lparr>po_monitor := Some (m\<lparr>ma_registry := reg1\<rparr>), po_entryOf := (po_entryOf p)(r := Some e), po_world := w\<lparr>pw_shared := ss1\<rparr>\<rparr>)"

text \<open>A new reference at a fresh address.\<close>

definition new_ref :: "MemberRef \<Rightarrow> nat \<Rightarrow> nat option \<Rightarrow> poolOutbound \<Rightarrow> mref \<times> poolOutbound" where
  "new_ref member x e p = (let r = po_nextRef p
     in (r, p\<lparr>po_nextRef := r + 1, po_world := (po_world p)\<lparr>pw_members := (pw_members (po_world p))(r := member)\<rparr>,
              po_runtimeOf := (po_runtimeOf p)(r := x), po_entryOf := (po_entryOf p)(r := e)\<rparr>))"

definition fresh_runtime :: "string \<Rightarrow> nat \<Rightarrow> nat \<Rightarrow> poolOutbound \<Rightarrow> nat \<times> poolOutbound" where
  "fresh_runtime tag detour a p =
     (let (rt, ss) = newMemberRuntime (Some detour) (Some a) (pw_shared (po_world p)); x = po_nextRuntime p
      in (x, p\<lparr>po_runtimes := (po_runtimes p)(x := rt), po_nextRuntime := x + 1, po_world := (po_world p)\<lparr>pw_shared := ss\<rparr>,
               po_runtimeByTag := aput tag x (po_runtimeByTag p)\<rparr>))"

text \<open>The runtime of an outbound: the one kept for the tag when it is of the same outbound, a new one otherwise.\<close>

definition runtime_for :: "string \<Rightarrow> nat \<Rightarrow> nat \<Rightarrow> poolOutbound \<Rightarrow> nat \<times> poolOutbound" where
  "runtime_for tag detour a p = (case map_of (po_runtimeByTag p) tag of None \<Rightarrow> fresh_runtime tag detour a p
     | Some x \<Rightarrow> if rt_outbound (po_runtimes p x) = Some detour then (x, p) else fresh_runtime tag detour a p)"

definition new_member :: "(string \<Rightarrow> string option) \<Rightarrow> RuntimeMemberSpec \<Rightarrow> nat \<Rightarrow> poolOutbound \<Rightarrow> mref \<times> poolOutbound" where
  "new_member identity spec detour p =
     (let (tag, meta) = spec;
          (a, ss) = acquireSharedState tag (pw_shared (po_world p));
          (x, p1) = runtime_for tag detour a (p\<lparr>po_world := (po_world p)\<lparr>pw_shared := ss\<rparr>\<rparr>);
          p2 = on_runtime x (\<lambda>t. t\<lparr>rt_retired := False\<rparr>) p1;
          (r, p3) = new_ref \<lparr>mr_outbound = Some detour, mr_tag = tag, mr_shared = Some a, mr_meta = meta, mr_latencyMs = -1\<rparr> x
                      (sh_entry (ss_heap (pw_shared (po_world p2)) a)) p2
      in (r, attachMonitorMember identity r p3))"

definition install_member :: "(string \<Rightarrow> string option) \<Rightarrow> RuntimeMemberSpec \<times> nat \<Rightarrow> poolOutbound \<Rightarrow> mref \<times> poolOutbound" where
  "install_member identity sd p =
     (let (spec, detour) = sd; (tag, meta) = spec
      in case map_of (po_topologyByTag p) tag of
           None \<Rightarrow> new_member identity spec detour p
         | Some r \<Rightarrow>
             if mr_outbound (pref p r) \<noteq> Some detour then new_member identity spec detour p
             else if mr_meta (pref p r) \<noteq> meta
             then (let (r', p1) = new_ref ((pref p r)\<lparr>mr_meta := meta\<rparr>) (po_runtimeOf p r) (po_entryOf p r) p
                   in (r', attachMonitorMember identity r' p1))
             else (r, p))"

fun install_members :: "(string \<Rightarrow> string option) \<Rightarrow> (RuntimeMemberSpec \<times> nat) list \<Rightarrow> poolOutbound \<Rightarrow> mref list \<times> poolOutbound" where
  "install_members identity [] p = ([], p)"
| "install_members identity (sd # sds) p =
     (let (r, p1) = install_member identity sd p; (rs, p2) = install_members identity sds p1 in (r # rs, p2))"

fun resolve_members :: "(string \<Rightarrow> nat option) \<Rightarrow> string list \<Rightarrow> RuntimeMemberSpec list \<Rightarrow> string + (RuntimeMemberSpec \<times> nat) list" where
  "resolve_members outb seen [] = Inr []"
| "resolve_members outb seen ((tag, meta) # specs) =
     (if tag = [] then Inl ''pool member tag is empty''
      else if tag \<in> set seen then Inl (''duplicate pool member: '' @ tag)
      else case outb tag of None \<Rightarrow> Inl (''pool member not found: '' @ tag)
           | Some d \<Rightarrow> (case resolve_members outb (tag # seen) specs of Inl e \<Rightarrow> Inl e | Inr sds \<Rightarrow> Inr (((tag, meta), d) # sds)))"

section \<open>Cold start\<close>

definition cold_member :: "(string \<Rightarrow> string option) \<Rightarrow> string \<Rightarrow> nat \<Rightarrow> poolOutbound \<Rightarrow> mref \<times> poolOutbound" where
  "cold_member identity tag detour p =
     (let (a, ss) = acquireSharedState tag (pw_shared (po_world p));
          (x, p1) = fresh_runtime tag detour a (p\<lparr>po_world := (po_world p)\<lparr>pw_shared := ss\<rparr>\<rparr>);
          meta = (case map_of (pc_Metadata (po_cfg p)) tag of None \<Rightarrow> zero_meta | Some meta \<Rightarrow> meta);
          (r, p2) = new_ref \<lparr>mr_outbound = Some detour, mr_tag = tag, mr_shared = Some a, mr_meta = meta, mr_latencyMs = -1\<rparr> x
                      (sh_entry (ss_heap (pw_shared (po_world p1)) a)) p1
      in (r, attachMonitorMember identity r p2))"

text \<open>A member without an outbound stops the start; what was done for the members before it stays.\<close>

fun cold_members :: "(string \<Rightarrow> nat option) \<Rightarrow> (string \<Rightarrow> string option) \<Rightarrow> string list \<Rightarrow> poolOutbound \<Rightarrow> (string + mref list) \<times> poolOutbound" where
  "cold_members outb identity [] p = (Inr [], p)"
| "cold_members outb identity (tag # tags) p = (case outb tag of None \<Rightarrow> (Inl (''pool member not found: '' @ tag), p)
     | Some d \<Rightarrow> let (r, p1) = cold_member identity tag d p
                 in case cold_members outb identity tags p1 of (Inl e, p2) \<Rightarrow> (Inl e, p2) | (Inr rs, p2) \<Rightarrow> (Inr (r # rs), p2))"

text \<open>\<open>selector\<close> is the error of looking up the group selector, if any.\<close>

definition initializeMembersLocked :: "(string \<Rightarrow> nat option) \<Rightarrow> (string \<Rightarrow> string option) \<Rightarrow> gtime \<Rightarrow> string list \<Rightarrow> string \<Rightarrow> string option \<Rightarrow>
    poolOutbound \<Rightarrow> string option \<times> poolOutbound" where
  "initializeMembersLocked outb identity now members preferred selector p =
     (if po_current p \<noteq> None then (None, p)
      else case cold_members outb identity members p of (Inl e, p1) \<Rightarrow> (Some e, p1)
           | (Inr rs, p1) \<Rightarrow>
               (case selector of Some e \<Rightarrow> (Some e, p1)
                | None \<Rightarrow>
                    let p2 = p1\<lparr>po_topology := rs, po_topologyByTag := fold (\<lambda>r. aput (mr_tag (pref p1 r)) r) rs [],
                          po_path := (po_path p1)\<lparr>dp_currentMember :=
                            (case filter (\<lambda>r. mr_tag (pref p1 r) = preferred) rs of [] \<Rightarrow> dp_currentMember (po_path p1) | ms \<Rightarrow> Some (last ms))\<rparr>\<rparr>
                    in (None, snd (publish_topology now rs p2))))"

text \<open>A dial pins the current snapshot; the first one starts a pool that has not been started. After the pool was closed
  nothing is pinned.\<close>

definition loadSnapshot :: "(string \<Rightarrow> nat option) \<Rightarrow> (string \<Rightarrow> string option) \<Rightarrow> gtime \<Rightarrow> string list \<Rightarrow> string \<Rightarrow> string option \<Rightarrow>
    poolOutbound \<Rightarrow> (string + PoolSnapshot) \<times> poolOutbound" where
  "loadSnapshot outb identity now members preferred selector p =
     (if po_closed p then (Inl errClosed, p)
      else case po_current p of Some sn \<Rightarrow> (Inr (fst sn), p)
           | None \<Rightarrow> (case initializeMembersLocked outb identity now members preferred selector p of
                (Some e, p1) \<Rightarrow> (Inl e, p1)
              | (None, p1) \<Rightarrow> (Inr (fst (the (po_current p1))), p1)))"

definition acquireSnapshot :: "(string \<Rightarrow> nat option) \<Rightarrow> (string \<Rightarrow> string option) \<Rightarrow> gtime \<Rightarrow> string list \<Rightarrow> string \<Rightarrow> string option \<Rightarrow>
    poolOutbound \<Rightarrow> (string + PoolSnapshot) \<times> poolOutbound" where
  "acquireSnapshot outb identity now members preferred selector p =
     (case loadSnapshot outb identity now members preferred selector p of
        (Inl e, p1) \<Rightarrow> (Inl e, p1)
      | (Inr snap, p1) \<Rightarrow> (Inr snap, p1\<lparr>po_current := map_option (\<lambda>(s, n). (s, n + 1)) (po_current p1)\<rparr>))"

section \<open>Reconciliation\<close>

definition healthConsumerKey :: "pool_config \<Rightarrow> string" where
  "healthConsumerKey cfg = (if pc_GroupID cfg = 0 then ''pool:base'' else ''pool:'' @ format_int (pc_GroupID cfg))"

definition refreshHealthSubscriptionLocked :: "poolOutbound \<Rightarrow> poolOutbound" where
  "refreshHealthSubscriptionLocked p = (if po_monitor p = None then p
     else p\<lparr>po_subscription := Some (healthConsumerKey (po_cfg p), map (\<lambda>r. mr_tag (pref p r)) (po_topology p),
        filter (\<lambda>n. n \<noteq> 0) (map (\<lambda>r. mm_NodeID (memberMeta (po_cfg p) (pref p r))) (po_topology p)))\<rparr>)"

text \<open>The member that stays current: the one of the same tag, else the one of the same node, else, in fixed mode, the next
  one of the old ring that is still there.\<close>

definition next_current :: "mref list \<Rightarrow> mref list \<Rightarrow> mref \<Rightarrow> poolOutbound \<Rightarrow> mref option" where
  "next_current old new cur p =
     (let node = (\<lambda>r. mm_NodeID (memberMeta (po_cfg p) (pref p r)));
          same_tag = map_of (po_topologyByTag p) (mr_tag (pref p cur));
          same_node = (if node cur = 0 then None else find (\<lambda>r. node r = node cur) new);
          ring = (if pc_mode (po_cfg p) \<noteq> modeFixed then None
                  else case first_position 0 (Some cur) old of None \<Rightarrow> None
                       | Some i \<Rightarrow> Option.bind (List.find (\<lambda>r. r \<noteq> None)
                           (map (\<lambda>k. map_of (po_topologyByTag p) (mr_tag (pref p (old ! ((i + k) mod length old))))) [1..<length old + 1])) id)
      in case same_tag of Some r \<Rightarrow> Some r | None \<Rightarrow> (case same_node of Some r \<Rightarrow> Some r | None \<Rightarrow> ring))"

definition retire_refs :: "mref list \<Rightarrow> poolOutbound \<Rightarrow> poolOutbound" where
  "retire_refs rs p = fold (\<lambda>r p. on_runtime (po_runtimeOf p r) (\<lambda>t. t\<lparr>rt_retired := True\<rparr>) p) rs p"

definition reconcileMembersWithPolicyLocked :: "(string \<Rightarrow> nat option) \<Rightarrow> (string \<Rightarrow> string option) \<Rightarrow> gtime \<Rightarrow> RuntimeMemberSpec list \<Rightarrow>
    (poolOutbound \<Rightarrow> poolOutbound) \<Rightarrow> poolOutbound \<Rightarrow> (string + nat \<times> mref list) \<times> poolOutbound" where
  "reconcileMembersWithPolicyLocked outb identity now specs applyPolicy p =
     (if po_closed p then (Inl errClosed, p)
      else case resolve_members outb [] specs of Inl e \<Rightarrow> (Inl e, p)
           | Inr sds \<Rightarrow>
               let old = po_topology p; cur = dp_currentMember (po_path p);
                   (new, p1) = install_members identity sds (applyPolicy p);
                   retired = filter (\<lambda>r. mr_tag (pref p r) \<notin> fst ` set specs) old;
                   p2 = refreshHealthSubscriptionLocked (p1\<lparr>po_topology := new, po_topologyByTag := map (\<lambda>r. (mr_tag (pref p1 r), r)) new\<rparr>);
                   current = (case cur of None \<Rightarrow> None | Some c \<Rightarrow> next_current old new c p2);
                   p3 = retire_refs retired (p2\<lparr>po_path := (po_path p2)\<lparr>dp_currentMember := current\<rparr>\<rparr>);
                   (snap, p4) = publish_topology now new p3
               in (Inr (ps_Version snap, retired), p4))"

definition ReconcileMembers :: "(string \<Rightarrow> nat option) \<Rightarrow> (string \<Rightarrow> string option) \<Rightarrow> gtime \<Rightarrow> RuntimeMemberSpec list \<Rightarrow> poolOutbound \<Rightarrow>
    (string + nat \<times> mref list) \<times> poolOutbound" where
  "ReconcileMembers outb identity now specs p = reconcileMembersWithPolicyLocked outb identity now specs id p"

text \<open>A retired member: drained when no snapshot, operation or connection uses it; its state is released then.\<close>

definition RetiredMember_Drained :: "mref \<Rightarrow> poolOutbound \<Rightarrow> bool" where
  "RetiredMember_Drained r p = Drained (pw_shared (po_world p)) (po_runtimes p (po_runtimeOf p r)) (mr_shared (pref p r))"

definition release_runtime :: "string \<Rightarrow> nat \<Rightarrow> poolOutbound \<Rightarrow> poolOutbound" where
  "release_runtime tag x p = (let (rt, ss) = releaseOwner tag (po_runtimes p x) (pw_shared (po_world p))
     in p\<lparr>po_runtimes := (po_runtimes p)(x := rt), po_world := (po_world p)\<lparr>pw_shared := ss\<rparr>\<rparr>)"

definition ReleaseState :: "mref \<Rightarrow> poolOutbound \<Rightarrow> poolOutbound" where
  "ReleaseState r p =
     (let tag = mr_tag (pref p r); x = po_runtimeOf p r; p1 = release_runtime tag x p
      in if map_of (po_runtimeByTag p1) tag = Some x then p1\<lparr>po_runtimeByTag := adel tag (po_runtimeByTag p1)\<rparr> else p1)"

definition Close :: "poolOutbound \<Rightarrow> poolOutbound" where
  "Close p = (if po_closed p then p
     else let p1 = p\<lparr>po_closed := True, po_current := None\<rparr>;
              p2 = (case po_current p of None \<Rightarrow> p1 | Some sn \<Rightarrow> retire_snapshot sn p1)
          in (fold (\<lambda>(tag, x). release_runtime tag x) (po_runtimeByTag p2) p2)\<lparr>po_runtimeByTag := []\<rparr>)"

end
