(* ===== verification/Pool_Drain.thy ===== *)
theory Pool_Drain
  imports Pool_Topology
begin

text \<open>
  The life of a pool's members: every reference counted by a snapshot that somebody may still read, no member of
  the topology retired, and a retired member that reports itself drained out of reach of every dial.
\<close>

section \<open>Reference counts\<close>

definition live :: "poolOutbound \<Rightarrow> PoolSnapshot list" where
  "live p = (case po_current p of None \<Rightarrow> [] | Some sn \<Rightarrow> [fst sn]) @ map fst (po_leaving p)"

definition live_refs :: "poolOutbound \<Rightarrow> mref list" where
  "live_refs p = concat (map (\<lambda>s. snd (ps_allMembers s)) (live p))"

definition refs_ok :: "poolOutbound \<Rightarrow> bool" where
  "refs_ok p = (\<forall>x. rt_snapshotRefs (po_runtimes p x) = int (count_list (map (po_runtimeOf p) (live_refs p)) x))"

lemma add_refs_eq:
  "add_refs k rs p = p\<lparr>po_runtimes := (\<lambda>x. (po_runtimes p x)\<lparr>rt_snapshotRefs := rt_snapshotRefs (po_runtimes p x) +
     k * int (count_list (map (po_runtimeOf p) rs) x)\<rparr>)\<rparr>"
proof -
  have "fold (\<lambda>r. on_runtime (f r) (\<lambda>t. t\<lparr>rt_snapshotRefs := rt_snapshotRefs t + k\<rparr>)) rs q =
      q\<lparr>po_runtimes := (\<lambda>x. (po_runtimes q x)\<lparr>rt_snapshotRefs := rt_snapshotRefs (po_runtimes q x) + k * int (count_list (map f rs) x)\<rparr>)\<rparr>" for f q
    by (induction rs arbitrary: q) (auto simp: on_runtime_def algebra_simps intro!: poolOutbound.equality ext)
  then show ?thesis by (simp add: add_refs_def)
qed

lemma refs_ok_retire:
  assumes "\<And>x. rt_snapshotRefs (po_runtimes p x) = int (count_list (map (po_runtimeOf p) (live_refs p @ snd (ps_allMembers (fst sn)))) x)"
  shows "refs_ok (retire_snapshot sn p)"
proof (cases "snd sn = 0")
  case True
  then show ?thesis using assms by (simp add: refs_ok_def retire_snapshot_def releaseSnapshotMembers_def add_refs_eq live_refs_def live_def)
next
  case False
  then show ?thesis using assms by (simp add: refs_ok_def retire_snapshot_def live_refs_def live_def)
qed

lemma publish_members: "snd (ps_allMembers (fst (publishSnapshotLocked cfg mon now prev members w))) = members"
  by (simp add: publishSnapshotLocked_def build_snapshot_def Let_def split: prod.split)

lemma publish_refs:
  assumes "refs_ok p"
  shows "refs_ok (snd (publish_topology now members p))"
proof -
  obtain snap w where s: "publishSnapshotLocked (po_cfg p) (map_option monitor_view_of (po_monitor p)) now (map_option fst (po_current p)) members (po_world p) = (snap, w)"
    by fastforce
  have mem: "snd (ps_allMembers snap) = members" using publish_members [of "po_cfg p" "map_option monitor_view_of (po_monitor p)" now "map_option fst (po_current p)" members "po_world p"]
    by (simp add: s)
  let ?p1 = "(add_refs 1 members (p\<lparr>po_world := w\<rparr>))\<lparr>po_current := Some (snap, 0)\<rparr>"
  have e: "snd (publish_topology now members p) = (case po_current p of None \<Rightarrow> ?p1 | Some old \<Rightarrow> retire_snapshot old ?p1)"
    by (simp add: publish_topology_def s Let_def)
  show ?thesis
  proof (cases "po_current p")
    case None
    then show ?thesis using assms mem unfolding e by (simp add: refs_ok_def add_refs_eq live_refs_def live_def)
  next
    case (Some old)
    show ?thesis unfolding e Some option.case
      by (rule refs_ok_retire) (use assms mem Some in \<open>simp add: refs_ok_def add_refs_eq live_refs_def live_def\<close>)
  qed
qed

lemma leave_one_refs:
  "leave_one v sns = (gone, rest) \<Longrightarrow> count_list (map f (concat (map (\<lambda>s. snd (ps_allMembers (fst s))) sns))) x =
     count_list (map f (concat (map (\<lambda>s. snd (ps_allMembers (fst s))) rest))) x + (case gone of None \<Rightarrow> 0 | Some s \<Rightarrow> count_list (map f (snd (ps_allMembers s))) x)"
proof (induction v sns arbitrary: gone rest rule: leave_one.induct)
  case (2 v snap n sns)
  show ?case
  proof (cases "ps_Version snap = v")
    case True
    then show ?thesis using 2(2) by (auto split: if_splits)
  next
    case False
    obtain g r where l: "leave_one v sns = (g, r)" by fastforce
    with 2(1) [OF False l] 2(2) False show ?thesis by (auto split: option.split)
  qed
qed auto

lemma reader_refs:
  assumes "refs_ok p"
  shows "refs_ok (releaseSnapshotReader v p)"
proof -
  obtain gone rest where l: "leave_one v (po_leaving p) = (gone, rest)" by fastforce
  note lr = leave_one_refs [OF l, where f = "po_runtimeOf p"]
  have moved: "refs_ok (case gone of None \<Rightarrow> p\<lparr>po_leaving := rest\<rparr> | Some s \<Rightarrow> releaseSnapshotMembers s (p\<lparr>po_leaving := rest\<rparr>))"
    using assms lr by (cases gone; simp add: refs_ok_def releaseSnapshotMembers_def add_refs_eq live_refs_def live_def comp_def)
  show ?thesis
  proof (cases "po_current p")
    case None
    then show ?thesis using moved by (simp add: releaseSnapshotReader_def l Let_def)
  next
    case (Some sn)
    have "refs_ok (p\<lparr>po_current := Some (fst sn, snd sn - 1)\<rparr>)" using assms Some by (simp add: refs_ok_def live_refs_def live_def)
    then show ?thesis using moved Some by (cases sn) (simp add: releaseSnapshotReader_def l Let_def)
  qed
qed

section \<open>Installing members\<close>

text \<open>Addresses are below the allocation marks, the table of runtimes is injective, and addresses that were never used
  count no reference.\<close>

definition table_ok :: "poolOutbound \<Rightarrow> bool" where
  "table_ok p = (distinct (map fst (po_runtimeByTag p)) \<and> distinct (map snd (po_runtimeByTag p)) \<and>
     (\<forall>x \<in> snd ` set (po_runtimeByTag p). x < po_nextRuntime p) \<and> (\<forall>r < po_nextRef p. po_runtimeOf p r < po_nextRuntime p) \<and>
     (\<forall>x. po_nextRuntime p \<le> x \<longrightarrow> rt_snapshotRefs (po_runtimes p x) = 0))"

text \<open>\<open>p'\<close> has what \<open>p\<close> had, and perhaps new references and runtimes; only the runtimes kept for the tags in \<open>T\<close>
  may be others.\<close>

definition grown :: "string set \<Rightarrow> poolOutbound \<Rightarrow> poolOutbound \<Rightarrow> bool" where
  "grown T p p' = (po_nextRef p \<le> po_nextRef p' \<and> po_nextRuntime p \<le> po_nextRuntime p' \<and>
     (\<forall>r < po_nextRef p. po_runtimeOf p' r = po_runtimeOf p r \<and> pref p' r = pref p r) \<and>
     po_topology p' = po_topology p \<and> po_topologyByTag p' = po_topologyByTag p \<and> po_current p' = po_current p \<and>
     po_leaving p' = po_leaving p \<and> po_closed p' = po_closed p \<and> po_cfg p' = po_cfg p \<and> po_path p' = po_path p \<and>
     (\<forall>x. rt_snapshotRefs (po_runtimes p' x) = rt_snapshotRefs (po_runtimes p x)) \<and>
     (\<forall>x < po_nextRuntime p. rt_retired (po_runtimes p' x) \<longrightarrow> rt_retired (po_runtimes p x)) \<and>
     (\<forall>t. t \<notin> T \<longrightarrow> map_of (po_runtimeByTag p') t = map_of (po_runtimeByTag p) t))"

definition installed :: "poolOutbound \<Rightarrow> mref \<Rightarrow> bool" where
  "installed p r = (r < po_nextRef p \<and> map_of (po_runtimeByTag p) (mr_tag (pref p r)) = Some (po_runtimeOf p r) \<and>
     \<not> rt_retired (po_runtimes p (po_runtimeOf p r)))"

lemma grown_refl [simp]: "grown T p p" by (simp add: grown_def)

lemma grown_trans: "grown S p q \<Longrightarrow> grown T q u \<Longrightarrow> grown (S \<union> T) p u"
  unfolding grown_def by (auto dest: less_le_trans)

lemma grown_mono: "grown S p q \<Longrightarrow> S \<subseteq> T \<Longrightarrow> grown T p q"
  by (auto simp: grown_def)

text \<open>What installation does to the monitor, the shared states and the entries is not looked at.\<close>

lemma attach_frame:
  "\<exists>mon ent ss. attachMonitorMember identity r p = p\<lparr>po_monitor := mon, po_entryOf := ent, po_world := (po_world p)\<lparr>pw_shared := ss\<rparr>\<rparr>"
proof (cases "po_monitor p")
  case None
  then have "attachMonitorMember identity r p = p\<lparr>po_monitor := None, po_entryOf := po_entryOf p, po_world := (po_world p)\<lparr>pw_shared := pw_shared (po_world p)\<rparr>\<rparr>"
    by (simp add: attachMonitorMember_def)
  then show ?thesis by blast
next
  case (Some m)
  have obs: "p\<lparr>po_entryOf := e\<rparr> = p\<lparr>po_monitor := Some m, po_entryOf := e, po_world := (po_world p)\<lparr>pw_shared := pw_shared (po_world p)\<rparr>\<rparr>" for e
    using Some by simp
  show ?thesis
  proof (cases "pc_MonitorObserverOnly (po_cfg p)")
    case True
    obtain e where "attachMonitorMember identity r p = p\<lparr>po_entryOf := e\<rparr>"
    proof (cases "byNodeID (mm_NodeID (mr_meta (pref p r))) (ma_registry m)")
      case None
      then show ?thesis using that [of "po_entryOf p"] Some True by (simp add: attachMonitorMember_def Let_def)
    next
      case (Some a)
      then show ?thesis using that [of "(po_entryOf p)(r := Some a)"] \<open>po_monitor p = Some m\<close> True by (simp add: attachMonitorMember_def Let_def)
    qed
    from this [unfolded obs [of e]] show ?thesis by blast
  next
    case False
    then show ?thesis unfolding attachMonitorMember_def Some option.case Let_def
      by (auto split: prod.split)
  qed
qed

lemma attach_ok:
  "grown {} p (attachMonitorMember identity r p)" "table_ok (attachMonitorMember identity r p) = table_ok p"
  "installed (attachMonitorMember identity r p) = installed p" "pref (attachMonitorMember identity r p) = pref p"
  using attach_frame [of identity r p] by (elim exE, simp add: grown_def table_ok_def installed_def pref_def fun_eq_iff)+

lemma new_ref_ok:
  assumes ok: "table_ok p" and x: "x < po_nextRuntime p" and n: "new_ref member x e p = (r, p')"
  shows "grown {} p p'" "table_ok p'" "r = po_nextRef p" "pref p' r = member" "po_runtimeOf p' r = x" "po_nextRef p' = r + 1"
    "po_runtimeByTag p' = po_runtimeByTag p" "po_runtimes p' = po_runtimes p"
proof -
  have e: "r = po_nextRef p" "p' = p\<lparr>po_nextRef := r + 1, po_world := (po_world p)\<lparr>pw_members := (pw_members (po_world p))(r := member)\<rparr>,
      po_runtimeOf := (po_runtimeOf p)(r := x), po_entryOf := (po_entryOf p)(r := e)\<rparr>" using n by (auto simp: new_ref_def Let_def)
  show "grown {} p p'" "r = po_nextRef p" "pref p' r = member" "po_runtimeOf p' r = x" "po_nextRef p' = r + 1"
    "po_runtimeByTag p' = po_runtimeByTag p" "po_runtimes p' = po_runtimes p" by (simp_all add: e grown_def pref_def)
  show "table_ok p'" using ok x by (simp add: e table_ok_def less_Suc_eq)
qed

lemma distinct_snd_aput:
  "distinct (map snd xs) \<Longrightarrow> v \<notin> snd ` set xs \<Longrightarrow> distinct (map snd (aput k v xs))"
  using set_aput [of k v] by (induction k v xs rule: aput.induct) fastforce+

lemma fresh_runtime_ok:
  assumes ok: "table_ok p" and rt: "fresh_runtime tag detour a p = (x, p')"
  shows "grown {tag} p p' \<and> table_ok p' \<and> x < po_nextRuntime p' \<and> map_of (po_runtimeByTag p') tag = Some x \<and> \<not> rt_retired (po_runtimes p' x)"
proof -
  obtain rtm ss where nr: "newMemberRuntime (Some detour) (Some a) (pw_shared (po_world p)) = (rtm, ss)" by fastforce
  have z: "rt_snapshotRefs rtm = 0" "\<not> rt_retired rtm" using nr by (auto simp: newMemberRuntime_def)
  have e: "x = po_nextRuntime p" "p' = p\<lparr>po_runtimes := (po_runtimes p)(x := rtm), po_nextRuntime := x + 1,
      po_world := (po_world p)\<lparr>pw_shared := ss\<rparr>, po_runtimeByTag := aput tag x (po_runtimeByTag p)\<rparr>"
    using rt nr by (auto simp: fresh_runtime_def Let_def)
  have fresh: "po_nextRuntime p \<notin> snd ` set (po_runtimeByTag p)" using ok by (auto simp: table_ok_def)
  have rng: "\<forall>y \<in> snd ` set (aput tag (po_nextRuntime p) (po_runtimeByTag p)). y < po_nextRuntime p + 1"
    using ok set_aput [of tag "po_nextRuntime p" "po_runtimeByTag p"] by (fastforce simp: table_ok_def)
  have d: "distinct (map snd (aput tag (po_nextRuntime p) (po_runtimeByTag p)))"
    by (rule distinct_snd_aput [OF _ fresh]) (use ok in \<open>simp add: table_ok_def\<close>)
  have "grown {tag} p p'" unfolding e using ok z by (simp add: grown_def pref_def table_ok_def)
  moreover have "table_ok p'" unfolding e using ok z rng d by (simp add: table_ok_def less_Suc_eq)
  ultimately show ?thesis using z by (simp add: e)
qed

lemma runtime_for_ok:
  assumes ok: "table_ok p" and rt: "runtime_for tag detour a p = (x, p')"
  shows "grown {tag} p p'" "table_ok p'" "x < po_nextRuntime p'" "map_of (po_runtimeByTag p') tag = Some x"
proof -
  have "grown {tag} p p' \<and> table_ok p' \<and> x < po_nextRuntime p' \<and> map_of (po_runtimeByTag p') tag = Some x"
  proof (cases "\<exists>y. map_of (po_runtimeByTag p) tag = Some y \<and> rt_outbound (po_runtimes p y) = Some detour")
    case True
    then obtain y where y: "map_of (po_runtimeByTag p) tag = Some y" "rt_outbound (po_runtimes p y) = Some detour" by blast
    then have "x = y" "p' = p" using rt by (auto simp: runtime_for_def)
    moreover have "y < po_nextRuntime p" using ok map_of_SomeD [OF y(1)] by (force simp: table_ok_def)
    ultimately show ?thesis using ok y by simp
  next
    case False
    then have "fresh_runtime tag detour a p = (x, p')" using rt by (auto simp: runtime_for_def split: option.splits)
    from fresh_runtime_ok [OF ok this] show ?thesis by simp
  qed
  then show "grown {tag} p p'" "table_ok p'" "x < po_nextRuntime p'" "map_of (po_runtimeByTag p') tag = Some x" by auto
qed

lemma installed_grown:
  assumes "installed p r" "grown T p q" "mr_tag (pref p r) \<notin> T" "table_ok p"
  shows "installed q r"
proof -
  have r: "r < po_nextRef p" "pref q r = pref p r" "po_runtimeOf q r = po_runtimeOf p r" using assms(1,2) by (auto simp: installed_def grown_def)
  moreover have "po_runtimeOf p r < po_nextRuntime p" using assms(4) r(1) by (simp add: table_ok_def)
  ultimately show ?thesis using assms unfolding installed_def grown_def by (metis less_le_trans)
qed

lemma unretire_ok:
  assumes "table_ok p" "x < po_nextRuntime p"
  shows "grown {} p (on_runtime x (\<lambda>t. t\<lparr>rt_retired := False\<rparr>) p)" "table_ok (on_runtime x (\<lambda>t. t\<lparr>rt_retired := False\<rparr>) p)"
  using assms by (simp_all add: on_runtime_def grown_def table_ok_def pref_def)

lemma new_member_ok:
  assumes ok: "table_ok p" and nm: "new_member identity (tag, meta) detour p = (r, p')"
  shows "grown {tag} p p' \<and> table_ok p' \<and> installed p' r \<and> mr_tag (pref p' r) = tag \<and> mr_meta (pref p' r) = meta \<and> mr_outbound (pref p' r) = Some detour"
proof -
  obtain a ss where a: "acquireSharedState tag (pw_shared (po_world p)) = (a, ss)" by fastforce
  define p0 where "p0 = p\<lparr>po_world := (po_world p)\<lparr>pw_shared := ss\<rparr>\<rparr>"
  have g0: "grown {} p p0" "table_ok p0" using ok by (simp_all add: p0_def grown_def table_ok_def pref_def)
  obtain x p1 where x: "runtime_for tag detour a p0 = (x, p1)" by fastforce
  note rf = runtime_for_ok [OF g0(2) x]
  define p2 where "p2 = on_runtime x (\<lambda>t. t\<lparr>rt_retired := False\<rparr>) p1"
  note un = unretire_ok [OF rf(2,3), folded p2_def]
  have p2: "po_nextRuntime p2 = po_nextRuntime p1" "po_runtimeByTag p2 = po_runtimeByTag p1" "\<not> rt_retired (po_runtimes p2 x)"
    by (simp_all add: p2_def on_runtime_def)
  let ?m = "\<lparr>mr_outbound = Some detour, mr_tag = tag, mr_shared = Some a, mr_meta = meta, mr_latencyMs = -1\<rparr>"
  obtain r3 p3 where n: "new_ref ?m x (sh_entry (ss_heap (pw_shared (po_world p2)) a)) p2 = (r3, p3)" by fastforce
  note nr = new_ref_ok [OF un(2) rf(3) [folded p2(1)] n]
  have e: "r = r3" "p' = attachMonitorMember identity r3 p3"
    using nm a x n by (auto simp: new_member_def p0_def p2_def Let_def)
  have inst: "installed p3 r3" using nr rf(4) p2 by (simp add: installed_def)
  have "grown ({} \<union> {tag} \<union> {} \<union> {} \<union> {}) p p'" unfolding e
    by (rule grown_trans [OF grown_trans [OF grown_trans [OF grown_trans [OF g0(1) rf(1)] un(1)] nr(1)] attach_ok(1)])
  then show ?thesis using inst nr(2,4) unfolding e attach_ok by simp
qed

lemma install_member_ok:
  assumes ok: "table_ok p" and old: "\<And>r. map_of (po_topologyByTag p) tag = Some r \<Longrightarrow> installed p r \<and> mr_tag (pref p r) = tag"
    and im: "install_member identity ((tag, meta), detour) p = (r, p')"
  shows "grown {tag} p p' \<and> table_ok p' \<and> installed p' r \<and> mr_tag (pref p' r) = tag \<and> mr_meta (pref p' r) = meta \<and> mr_outbound (pref p' r) = Some detour"
proof -
  consider "new_member identity (tag, meta) detour p = (r, p')"
    | r0 where "map_of (po_topologyByTag p) tag = Some r0" "mr_outbound (pref p r0) = Some detour" "mr_meta (pref p r0) \<noteq> meta"
    | "map_of (po_topologyByTag p) tag = Some r" "mr_outbound (pref p r) = Some detour" "mr_meta (pref p r) = meta" "p' = p"
  proof (cases "map_of (po_topologyByTag p) tag")
    case None
    with im have "new_member identity (tag, meta) detour p = (r, p')" by (simp add: install_member_def)
    then show ?thesis by (rule that(1))
  next
    case (Some r0)
    show ?thesis
    proof (cases "mr_outbound (pref p r0) = Some detour")
      case False
      with im Some have "new_member identity (tag, meta) detour p = (r, p')" by (simp add: install_member_def)
      then show ?thesis by (rule that(1))
    next
      case out: True
      show ?thesis
      proof (cases "mr_meta (pref p r0) = meta")
        case True
        with im Some out have "r = r0" "p' = p" by (simp_all add: install_member_def)
        with Some out True show ?thesis by (intro that(3)) simp_all
      qed (rule that(2) [OF Some out])
    qed
  qed
  then show ?thesis
  proof cases
    case 1
    then show ?thesis by (rule new_member_ok [OF ok])
  next
    case (2 r0)
    note o = old [OF 2(1)]
    obtain r1 p1 where n: "new_ref ((pref p r0)\<lparr>mr_meta := meta\<rparr>) (po_runtimeOf p r0) (po_entryOf p r0) p = (r1, p1)" by fastforce
    have e: "r = r1" "p' = attachMonitorMember identity r1 p1" using im 2 n by (auto simp: install_member_def)
    have x: "po_runtimeOf p r0 < po_nextRuntime p" using ok o by (simp add: table_ok_def installed_def)
    note nr = new_ref_ok [OF ok x n]
    have "installed p1 r1" using nr o by (auto simp: installed_def)
    moreover have "grown {tag} p p'" unfolding e by (rule grown_mono [OF grown_trans [OF nr(1) attach_ok(1)]]) simp
    ultimately show ?thesis using nr(2,4) o 2 unfolding e attach_ok by simp
  next
    case 3
    then show ?thesis using ok old by simp
  qed
qed

definition spec_of :: "poolOutbound \<Rightarrow> mref \<Rightarrow> RuntimeMemberSpec \<times> nat" where
  "spec_of p r = ((mr_tag (pref p r), mr_meta (pref p r)), the (mr_outbound (pref p r)))"

lemma install_members_ok:
  assumes "table_ok p" "distinct (map (fst \<circ> fst) sds)"
    and "\<And>t r. t \<in> (fst \<circ> fst) ` set sds \<Longrightarrow> map_of (po_topologyByTag p) t = Some r \<Longrightarrow> installed p r \<and> mr_tag (pref p r) = t"
    and "install_members identity sds p = (rs, p')"
  shows "grown ((fst \<circ> fst) ` set sds) p p' \<and> table_ok p' \<and> (\<forall>r \<in> set rs. installed p' r) \<and> map (spec_of p') rs = sds"
  using assms
proof (induction identity sds p arbitrary: rs p' rule: install_members.induct)
  case (2 identity sd sds p)
  obtain tag meta d where sd: "sd = ((tag, meta), d)" by (metis surj_pair)
  obtain r p1 where i: "install_member identity sd p = (r, p1)" by fastforce
  obtain rs1 p2 where rest: "install_members identity sds p1 = (rs1, p2)" by fastforce
  have e: "rs = r # rs1" "p' = p2" using 2(5) i rest by auto
  have old: "installed p x \<and> mr_tag (pref p x) = t" if "t \<in> insert tag ((fst \<circ> fst) ` set sds)" "map_of (po_topologyByTag p) t = Some x" for t x
    using 2(4) [of t x] that sd by simp
  note im = install_member_ok [OF 2(2) old [of tag] i [unfolded sd], simplified]
  have tb: "po_topologyByTag p1 = po_topologyByTag p" using im by (simp add: grown_def)
  have keep: "installed p1 x \<and> mr_tag (pref p1 x) = t" if "t \<in> (fst \<circ> fst) ` set sds" "map_of (po_topologyByTag p1) t = Some x" for t x
  proof -
    have o: "installed p x" "mr_tag (pref p x) = t" using old [of t x] that by (auto simp: tb)
    have "t \<noteq> tag" using 2(3) that(1) sd by auto
    then have "installed p1 x" using installed_grown [OF o(1), of "{tag}" p1] im o(2) 2(2) by simp
    moreover have "pref p1 x = pref p x" using im o(1) by (simp add: grown_def installed_def)
    ultimately show ?thesis using o by simp
  qed
  have ih: "grown ((fst \<circ> fst) ` set sds) p1 p2 \<and> table_ok p2 \<and> (\<forall>r \<in> set rs1. installed p2 r) \<and> map (spec_of p2) rs1 = sds"
    by (rule 2(1) [OF i [symmetric] refl _ _ keep rest]) (use im 2(3) in auto)
  have "tag \<notin> (fst \<circ> fst) ` set sds" using 2(3) sd by simp
  then have ir: "installed p2 r" using installed_grown [of p1 r "(fst \<circ> fst) ` set sds" p2] im ih by simp
  have "r < po_nextRef p1" using im by (simp add: installed_def)
  then have "pref p2 r = pref p1 r" using ih by (simp add: grown_def)
  moreover have "grown ({tag} \<union> (fst \<circ> fst) ` set sds) p p2" using grown_trans im ih by blast
  moreover from calculation(1) have "spec_of p2 r = sd" using im by (simp add: spec_of_def sd)
  ultimately show ?case using ir ih by (simp add: e sd)
qed auto

lemma install_member_keep:
  assumes ok: "table_ok p" and old: "map_of (po_topologyByTag p) tag = Some r0" "installed p r0" "mr_outbound (pref p r0) = Some d"
    and im: "install_member identity ((tag, meta), d) p = (r, p')"
  shows "po_runtimeOf p' r = po_runtimeOf p r0 \<and> (mr_meta (pref p r0) = meta \<longrightarrow> r = r0)"
proof (cases "mr_meta (pref p r0) = meta")
  case True
  then show ?thesis using im old by (simp add: install_member_def)
next
  case False
  obtain r1 p1 where n: "new_ref ((pref p r0)\<lparr>mr_meta := meta\<rparr>) (po_runtimeOf p r0) (po_entryOf p r0) p = (r1, p1)" by fastforce
  have e: "r = r1" "p' = attachMonitorMember identity r1 p1" using im old False n by (auto simp: install_member_def)
  have "po_runtimeOf p r0 < po_nextRuntime p" using ok old(2) by (simp add: table_ok_def installed_def)
  note nr = new_ref_ok [OF ok this n]
  have "r1 < po_nextRef p1" using nr by simp
  then show ?thesis using attach_ok(1) [of p1 identity r1] nr(5) False unfolding e by (simp add: grown_def)
qed

text \<open>\<open>carries_over\<close> holds of a new member when an old member of its tag with the same outbound gave it its runtime, and the very reference
  when the metadata is the same.\<close>

definition carries_over :: "poolOutbound \<Rightarrow> poolOutbound \<Rightarrow> mref \<Rightarrow> bool" where
  "carries_over p p' r = (\<forall>r0. map_of (po_topologyByTag p) (mr_tag (pref p' r)) = Some r0 \<longrightarrow> mr_outbound (pref p r0) = mr_outbound (pref p' r) \<longrightarrow>
     po_runtimeOf p' r = po_runtimeOf p r0 \<and> (mr_meta (pref p r0) = mr_meta (pref p' r) \<longrightarrow> r = r0))"

lemma install_members_keep:
  assumes "table_ok p" "distinct (map (fst \<circ> fst) sds)"
    and "\<And>t r. t \<in> (fst \<circ> fst) ` set sds \<Longrightarrow> map_of (po_topologyByTag p) t = Some r \<Longrightarrow> installed p r \<and> mr_tag (pref p r) = t"
    and "install_members identity sds p = (rs, p')"
  shows "\<forall>r \<in> set rs. carries_over p p' r"
  using assms
proof (induction identity sds p arbitrary: rs p' rule: install_members.induct)
  case (2 identity sd sds p)
  obtain tag meta d where sd: "sd = ((tag, meta), d)" by (metis surj_pair)
  obtain r p1 where i: "install_member identity sd p = (r, p1)" by fastforce
  obtain rs1 p2 where rest: "install_members identity sds p1 = (rs1, p2)" by fastforce
  have e: "rs = r # rs1" "p' = p2" using 2(5) i rest by auto
  have old: "installed p x \<and> mr_tag (pref p x) = t" if "t \<in> insert tag ((fst \<circ> fst) ` set sds)" "map_of (po_topologyByTag p) t = Some x" for t x
    using 2(4) [of t x] that sd by simp
  note im = install_member_ok [OF 2(2) old [of tag] i [unfolded sd], simplified]
  have tb: "po_topologyByTag p1 = po_topologyByTag p" using im by (simp add: grown_def)
  have nt: "tag \<notin> (fst \<circ> fst) ` set sds" using 2(3) sd by simp
  have keep: "installed p1 x \<and> mr_tag (pref p1 x) = t \<and> pref p1 x = pref p x \<and> po_runtimeOf p1 x = po_runtimeOf p x"
    if "t \<in> (fst \<circ> fst) ` set sds" "map_of (po_topologyByTag p1) t = Some x" for t x
  proof -
    have o: "installed p x" "mr_tag (pref p x) = t" using old [of t x] that by (auto simp: tb)
    have "t \<noteq> tag" using nt that(1) by auto
    then have "installed p1 x" using installed_grown [OF o(1), of "{tag}" p1] im o(2) 2(2) by simp
    moreover have "pref p1 x = pref p x" "po_runtimeOf p1 x = po_runtimeOf p x" using im o(1) by (simp_all add: grown_def installed_def)
    ultimately show ?thesis using o by simp
  qed
  have t1: "table_ok p1" "distinct (map (fst \<circ> fst) sds)" using im 2(3) by (simp_all add: comp_def)
  have keep': "installed p1 x \<and> mr_tag (pref p1 x) = t" if "t \<in> (fst \<circ> fst) ` set sds" "map_of (po_topologyByTag p1) t = Some x" for t x
    using keep [OF that] by blast
  have ih: "\<forall>q \<in> set rs1. carries_over p1 p2 q" by (rule 2(1) [OF i [symmetric] refl t1 keep' rest])
  have g2: "grown ((fst \<circ> fst) ` set sds) p1 p2" "map (spec_of p2) rs1 = sds" using install_members_ok [OF t1 keep' rest] by auto
  have "r < po_nextRef p1" using im by (simp add: installed_def)
  then have r2: "pref p2 r = pref p1 r" "po_runtimeOf p2 r = po_runtimeOf p1 r" using g2(1) by (simp_all add: grown_def)
  have "carries_over p p2 r" unfolding carries_over_def r2
    using install_member_keep [OF 2(2) _ _ _ i [unfolded sd]] old [of tag] im by auto
  moreover have "carries_over p p2 q" if q: "q \<in> set rs1" for q
  proof -
    have "spec_of p2 q \<in> set sds" using g2(2) q by (metis image_eqI list.set_map)
    then have "mr_tag (pref p2 q) \<in> (fst \<circ> fst) ` set sds" by (force simp: spec_of_def)
    then show ?thesis using ih q keep unfolding carries_over_def tb by metis
  qed
  ultimately show ?case unfolding e by simp
qed auto

section \<open>The invariant of a pool\<close>

definition member_tag :: "poolOutbound \<Rightarrow> mref \<Rightarrow> string" where "member_tag p r = mr_tag (pref p r)"

definition pool_ok :: "poolOutbound \<Rightarrow> bool" where
  "pool_ok p = (refs_ok p \<and> table_ok p \<and> (\<forall>r \<in> set (live_refs p). r < po_nextRef p) \<and> (\<forall>r \<in> set (po_topology p). r < po_nextRef p) \<and>
     po_topologyByTag p = map (\<lambda>r. (member_tag p r, r)) (po_topology p) \<and> distinct (map (member_tag p) (po_topology p)) \<and>
     (\<not> po_closed p \<longrightarrow> (\<forall>r \<in> set (po_topology p). installed p r)))"

lemma unused_runtime:
  assumes "refs_ok p" "\<forall>r \<in> set (live_refs p). r < po_nextRef p" "\<forall>r < po_nextRef p. po_runtimeOf p r < po_nextRuntime p" "po_nextRuntime p \<le> x"
  shows "rt_snapshotRefs (po_runtimes p x) = 0"
proof -
  have "x \<notin> set (map (po_runtimeOf p) (live_refs p))" using assms(2-4) by fastforce
  then show ?thesis using assms(1) by (simp add: refs_ok_def)
qed

text \<open>What publication, readers and operations change: reference and operation counts, latencies, shared states and
  the snapshots themselves.\<close>

definition same_members :: "poolOutbound \<Rightarrow> poolOutbound \<Rightarrow> bool" where
  "same_members p p' = (po_nextRef p' = po_nextRef p \<and> po_nextRuntime p' = po_nextRuntime p \<and> po_runtimeOf p' = po_runtimeOf p \<and>
     po_topology p' = po_topology p \<and> po_topologyByTag p' = po_topologyByTag p \<and> po_runtimeByTag p' = po_runtimeByTag p \<and>
     po_closed p' = po_closed p \<and> (\<forall>x. rt_retired (po_runtimes p' x) = rt_retired (po_runtimes p x)) \<and> member_tag p' = member_tag p)"

lemma same_members_ok:
  assumes ok: "pool_ok p" and same: "same_members p p'" and refs: "refs_ok p'" "set (live_refs p') \<subseteq> set (live_refs p) \<union> set (po_topology p)"
  shows "pool_ok p'"
proof -
  have bound: "\<forall>r \<in> set (live_refs p'). r < po_nextRef p'" using ok same refs(2) by (auto simp: pool_ok_def same_members_def)
  have t: "\<forall>r < po_nextRef p'. po_runtimeOf p' r < po_nextRuntime p'" using ok same by (simp add: pool_ok_def table_ok_def same_members_def)
  have "table_ok p'" using ok same unused_runtime [OF refs(1) bound t] by (simp add: pool_ok_def table_ok_def same_members_def)
  moreover have "mr_tag (pref p' r) = mr_tag (pref p r)" for r using same by (metis member_tag_def same_members_def)
  then have "installed p' r = installed p r" for r using same by (simp add: installed_def same_members_def)
  ultimately show ?thesis using ok same refs(1) bound by (simp add: pool_ok_def same_members_def)
qed

lemma retire_snapshot_frame:
  "same_members p (retire_snapshot sn p)" "set (live_refs (retire_snapshot sn p)) \<subseteq> set (live_refs p) \<union> set (snd (ps_allMembers (fst sn)))"
  by (auto simp: retire_snapshot_def releaseSnapshotMembers_def add_refs_eq same_members_def live_refs_def live_def member_tag_def pref_def fun_eq_iff)

lemma same_members_trans: "same_members p q \<Longrightarrow> same_members q u \<Longrightarrow> same_members p u"
  by (simp add: same_members_def)

lemma publish_frame:
  assumes "publish_topology now members p = (snap, p')"
  shows "same_members p p'" "set (live_refs p') \<subseteq> set (live_refs p) \<union> set members"
proof -
  obtain sn w where s: "publishSnapshotLocked (po_cfg p) (map_option monitor_view_of (po_monitor p)) now (map_option fst (po_current p)) members (po_world p) = (sn, w)"
    by fastforce
  have mem: "snd (ps_allMembers sn) = members" using publish_members [of "po_cfg p" "map_option monitor_view_of (po_monitor p)" now "map_option fst (po_current p)" members "po_world p"]
    by (simp add: s)
  have "same_answers now (po_world p) w"
    using s eligibility_routable(2) by (auto simp: publishSnapshotLocked_def Let_def split: prod.splits)
  then have tags: "mr_tag (pw_members w r) = mr_tag (pw_members (po_world p) r)" for r by (simp add: same_answers_def)
  let ?p1 = "(add_refs 1 members (p\<lparr>po_world := w\<rparr>))\<lparr>po_current := Some (sn, 0)\<rparr>"
  have e: "p' = (case po_current p of None \<Rightarrow> ?p1 | Some old \<Rightarrow> retire_snapshot old ?p1)"
    using assms s by (simp add: publish_topology_def Let_def)
  have one: "same_members p ?p1" by (simp add: same_members_def add_refs_eq member_tag_def pref_def fun_eq_iff tags)
  have lv: "set (live_refs ?p1) \<subseteq> set members \<union> set (concat (map (\<lambda>s. snd (ps_allMembers (fst s))) (po_leaving p)))"
    by (auto simp: live_refs_def live_def add_refs_eq mem)
  have "same_members p p' \<and> set (live_refs p') \<subseteq> set (live_refs p) \<union> set members"
  proof (cases "po_current p")
    case None
    then show ?thesis using one lv e by (auto simp: live_refs_def live_def)
  next
    case (Some old)
    have "set (snd (ps_allMembers (fst old))) \<subseteq> set (live_refs p)" "set (concat (map (\<lambda>s. snd (ps_allMembers (fst s))) (po_leaving p))) \<subseteq> set (live_refs p)"
      using Some by (auto simp: live_refs_def live_def)
    with lv retire_snapshot_frame(2) [of old ?p1] have "set (live_refs (retire_snapshot old ?p1)) \<subseteq> set (live_refs p) \<union> set members" by blast
    then show ?thesis using same_members_trans [OF one retire_snapshot_frame(1)] e Some by simp
  qed
  then show "same_members p p'" "set (live_refs p') \<subseteq> set (live_refs p) \<union> set members" by auto
qed

lemma publish_ok: "pool_ok p \<Longrightarrow> pool_ok (snd (publish_topology now (po_topology p) p))"
proof -
  assume ok: "pool_ok p"
  obtain snap p' where e: "publish_topology now (po_topology p) p = (snap, p')" by fastforce
  have "refs_ok p'" using publish_refs [of p now "po_topology p"] ok by (simp add: e pool_ok_def)
  from same_members_ok [OF ok publish_frame(1) [OF e] this publish_frame(2) [OF e]] show ?thesis by (simp add: e)
qed

section \<open>Reconciliation\<close>

text \<open>A policy changes settings and the group, not the members.\<close>

definition policy_like :: "(poolOutbound \<Rightarrow> poolOutbound) \<Rightarrow> bool" where
  "policy_like f = (\<forall>p. \<exists>cfg path g. f p = p\<lparr>po_cfg := cfg, po_path := path, po_world := (po_world p)\<lparr>pw_group := g\<rparr>\<rparr>)"

lemma policy_members:
  assumes "policy_like f"
  shows "same_members p (f p)" "live_refs (f p) = live_refs p" "po_runtimes (f p) = po_runtimes p" "pref (f p) = pref p"
proof -
  obtain cfg path g where "f p = p\<lparr>po_cfg := cfg, po_path := path, po_world := (po_world p)\<lparr>pw_group := g\<rparr>\<rparr>"
    using assms unfolding policy_like_def by blast
  then show "same_members p (f p)" "live_refs (f p) = live_refs p" "po_runtimes (f p) = po_runtimes p" "pref (f p) = pref p"
    by (simp_all add: same_members_def live_refs_def live_def member_tag_def pref_def fun_eq_iff)
qed

lemma policy_ok: "policy_like f \<Longrightarrow> pool_ok p \<Longrightarrow> pool_ok (f p)"
  using policy_members [of f p] by (intro same_members_ok [of p "f p"]) (auto simp: pool_ok_def refs_ok_def same_members_def)

lemma resolve_spec:
  assumes "resolve_members outb seen specs = Inr sds"
  shows "map fst sds = specs \<and> distinct (map fst specs) \<and> set (map fst specs) \<inter> set seen = {} \<and> (\<forall>(s, d) \<in> set sds. outb (fst s) = Some d)"
  using assms
proof (induction outb seen specs arbitrary: sds rule: resolve_members.induct)
  case (2 outb seen tag meta specs)
  from 2(2) obtain d sds' where "tag \<noteq> []" "tag \<notin> set seen" "outb tag = Some d" "resolve_members outb (tag # seen) specs = Inr sds'"
    "sds = ((tag, meta), d) # sds'" by (auto split: if_splits option.splits sum.splits)
  with 2(1) [of d sds'] show ?case by auto
qed auto

lemma retire_refs_eq:
  "retire_refs rs p = p\<lparr>po_runtimes := (\<lambda>x. if x \<in> po_runtimeOf p ` set rs then (po_runtimes p x)\<lparr>rt_retired := True\<rparr> else po_runtimes p x)\<rparr>"
  unfolding retire_refs_def
  by (induction rs arbitrary: p) (auto simp: on_runtime_def fun_eq_iff intro!: poolOutbound.equality)

lemma grown_live: "grown T p p' \<Longrightarrow> live_refs p' = live_refs p"
  by (simp add: grown_def live_refs_def live_def)

lemma grown_refs:
  assumes "grown T p p'" "refs_ok p" "\<forall>r \<in> set (live_refs p). r < po_nextRef p"
  shows "refs_ok p'"
proof -
  have "map (po_runtimeOf p') (live_refs p') = map (po_runtimeOf p) (live_refs p)"
    using assms(1,3) unfolding grown_live [OF assms(1)] by (simp add: grown_def)
  then show ?thesis using assms(1,2) by (simp add: refs_ok_def grown_def)
qed

text \<open>The new topology, before it is published: the members that left are retired, and no member of the new
  topology shares a runtime with them.\<close>

lemma install_topology_ok:
  assumes ok: "pool_ok p" and open': "\<not> po_closed p" and res: "resolve_members outb [] specs = Inr sds"
    and ins: "install_members identity sds p = (new, p1)"
    and p3: "p3 = retire_refs (filter (\<lambda>r. mr_tag (pref p r) \<notin> fst ` set specs) (po_topology p))
      (p1\<lparr>po_topology := new, po_topologyByTag := map (\<lambda>r. (mr_tag (pref p1 r), r)) new, po_subscription := sub, po_path := path\<rparr>)"
  shows "pool_ok p3 \<and> map (spec_of p3) new = sds \<and> po_topology p3 = new \<and> (\<forall>r \<in> set new. carries_over p p3 r)"
proof -
  have rs: "map fst sds = specs" "distinct (map fst specs)" using resolve_spec [OF res] by auto
  have dk: "distinct (map (fst \<circ> fst) sds)" and keys: "(fst \<circ> fst) ` set sds = fst ` set specs"
    using rs(2) unfolding rs(1) [symmetric] by (simp_all add: image_comp)
  have old: "installed p r \<and> mr_tag (pref p r) = t" if "map_of (po_topologyByTag p) t = Some r" for t r
    using map_of_SomeD [OF that] ok open' by (auto simp: pool_ok_def member_tag_def)
  note im = install_members_ok [OF _ dk old ins]
  have tp: "table_ok p" and rp: "refs_ok p" "\<forall>r \<in> set (live_refs p). r < po_nextRef p" using ok by (auto simp: pool_ok_def)
  from im tp have g: "grown ((fst \<circ> fst) ` set sds) p p1" and t1: "table_ok p1" and inst: "\<forall>r \<in> set new. installed p1 r"
    and spec: "map (spec_of p1) new = sds" by auto
  have flds: "pref p3 = pref p1" "po_nextRef p3 = po_nextRef p1" "po_runtimeOf p3 = po_runtimeOf p1" "po_runtimeByTag p3 = po_runtimeByTag p1"
    "po_nextRuntime p3 = po_nextRuntime p1" "live_refs p3 = live_refs p1" "po_topology p3 = new" "po_closed p3 = po_closed p1"
    "po_topologyByTag p3 = map (\<lambda>r. (mr_tag (pref p1 r), r)) new" "rt_snapshotRefs (po_runtimes p3 x) = rt_snapshotRefs (po_runtimes p1 x)" for x
    unfolding p3 retire_refs_eq by (simp_all add: pref_def fun_eq_iff live_refs_def live_def)
  have kept: "\<not> rt_retired (po_runtimes p3 (po_runtimeOf p1 r))" if r: "r \<in> set new" for r
  proof -
    have ir: "installed p1 r" using inst r by simp
    have "spec_of p1 r \<in> set sds" using spec r by (metis image_eqI list.set_map)
    then have tag: "mr_tag (pref p1 r) \<in> fst ` set specs" unfolding keys [symmetric] by (force simp: spec_of_def)
    have "po_runtimeOf p1 q \<noteq> po_runtimeOf p1 r" if q: "q \<in> set (po_topology p)" "mr_tag (pref p q) \<notin> fst ` set specs" for q
    proof -
      have "installed p q" using ok open' q by (simp add: pool_ok_def)
      then have "installed p1 q" "pref p1 q = pref p q" using installed_grown [OF _ g] q(2) tp g unfolding keys by (auto simp: grown_def installed_def)
      then have "(mr_tag (pref p1 q), po_runtimeOf p1 q) \<in> set (po_runtimeByTag p1)" "(mr_tag (pref p1 r), po_runtimeOf p1 r) \<in> set (po_runtimeByTag p1)"
        using ir by (auto simp: installed_def dest: map_of_SomeD)
      moreover have "mr_tag (pref p1 q) \<noteq> mr_tag (pref p1 r)" using tag q(2) \<open>pref p1 q = pref p q\<close> by metis
      moreover have "inj_on snd (set (po_runtimeByTag p1))" using t1 by (simp add: table_ok_def distinct_map)
      ultimately show ?thesis by (metis fst_conv inj_onD snd_conv)
    qed
    then have "po_runtimeOf p1 r \<notin> po_runtimeOf p1 ` {q \<in> set (po_topology p). mr_tag (pref p q) \<notin> fst ` set specs}" by fastforce
    then show ?thesis using ir unfolding p3 retire_refs_eq by (simp add: installed_def)
  qed
  have tags: "map (member_tag p1) new = map (fst \<circ> fst) sds" unfolding spec [symmetric] by (simp add: spec_of_def member_tag_def)
  have "table_ok p3" using t1 flds by (simp add: table_ok_def)
  moreover have "refs_ok p3" using grown_refs [OF g rp] flds by (simp add: refs_ok_def)
  moreover have "\<forall>r \<in> set (live_refs p3). r < po_nextRef p3" using rp(2) g grown_live [OF g] flds by (auto simp: grown_def)
  moreover have "\<forall>r \<in> set new. installed p3 r" using inst kept flds by (simp add: installed_def)
  moreover have mt: "member_tag p3 = member_tag p1" by (simp add: member_tag_def flds fun_eq_iff)
  moreover have "distinct (map (member_tag p3) new)" using tags dk mt by simp
  moreover have "spec_of p3 = spec_of p1" by (simp add: spec_of_def flds fun_eq_iff)
  then have "map (spec_of p3) new = sds" using spec by simp
  moreover have "\<forall>r \<in> set new. carries_over p p3 r" using install_members_keep [OF tp dk old ins] flds by (simp add: carries_over_def)
  ultimately show ?thesis using inst by (auto simp: pool_ok_def flds installed_def member_tag_def)
qed

lemma refresh_frame: "\<exists>sub. refreshHealthSubscriptionLocked p = p\<lparr>po_subscription := sub\<rparr>"
proof (cases "po_monitor p = None")
  case True
  then have "refreshHealthSubscriptionLocked p = p\<lparr>po_subscription := po_subscription p\<rparr>" by (simp add: refreshHealthSubscriptionLocked_def)
  then show ?thesis by blast
next
  case False
  then show ?thesis unfolding refreshHealthSubscriptionLocked_def by (simp only: if_False) blast
qed

lemma publish_spec:
  assumes "publish_topology now members p = (snap, p')"
  shows "map (spec_of p') rs = map (spec_of p) rs" "po_current p' = Some (snap, 0)" "snd (ps_allMembers snap) = members"
    "ps_Version snap = (case po_current p of None \<Rightarrow> 1 | Some sn \<Rightarrow> ps_Version (fst sn) + 1)"
    "mr_tag (pref p' r) = mr_tag (pref p r)" "mr_meta (pref p' r) = mr_meta (pref p r)" "mr_outbound (pref p' r) = mr_outbound (pref p r)"
proof -
  obtain sn w where s: "publishSnapshotLocked (po_cfg p) (map_option monitor_view_of (po_monitor p)) now (map_option fst (po_current p)) members (po_world p) = (sn, w)"
    by fastforce
  show mem: "snd (ps_allMembers snap) = members"
    using publish_members [of "po_cfg p" "map_option monitor_view_of (po_monitor p)" now "map_option fst (po_current p)" members "po_world p"] assms
    by (simp add: s publish_topology_def Let_def)
  have "same_answers now (po_world p) w"
    using s eligibility_routable(2) by (auto simp: publishSnapshotLocked_def Let_def split: prod.splits)
  then have same: "mr_tag (pw_members w r) = mr_tag (pw_members (po_world p) r)" "mr_meta (pw_members w r) = mr_meta (pw_members (po_world p) r)"
    "mr_outbound (pw_members w r) = mr_outbound (pw_members (po_world p) r)" for r by (simp_all add: same_answers_def)
  have e: "snap = sn" "po_world p' = w" "po_current p' = Some (snap, 0)"
    using assms s by (auto simp: publish_topology_def Let_def retire_snapshot_def releaseSnapshotMembers_def add_refs_eq split: option.splits)
  then show "po_current p' = Some (snap, 0)" by simp
  show "mr_tag (pref p' r) = mr_tag (pref p r)" "mr_meta (pref p' r) = mr_meta (pref p r)" "mr_outbound (pref p' r) = mr_outbound (pref p r)"
    by (simp_all add: pref_def e same)
  show "map (spec_of p') rs = map (spec_of p) rs" by (simp add: spec_of_def pref_def e same)
  show "ps_Version snap = (case po_current p of None \<Rightarrow> 1 | Some sn \<Rightarrow> ps_Version (fst sn) + 1)"
    using s e by (auto simp: publishSnapshotLocked_def build_snapshot_def Let_def split: prod.splits option.splits)
qed

text \<open>A reconciliation that fails changes nothing; one that succeeds installs the specification in its order.\<close>

lemma reconcile_ok:
  assumes ok: "pool_ok p" and pol: "policy_like f"
    and rec: "reconcileMembersWithPolicyLocked outb identity now specs f p = (res, p')"
  shows "(\<exists>e. res = Inl e \<and> p' = p) \<or>
    (\<exists>v sds. res = Inr (v, filter (\<lambda>r. mr_tag (pref p r) \<notin> fst ` set specs) (po_topology p)) \<and> pool_ok p' \<and>
       resolve_members outb [] specs = Inr sds \<and> map (spec_of p') (po_topology p') = sds \<and> \<not> po_closed p \<and>
       (\<forall>r \<in> set (po_topology p'). carries_over p p' r) \<and>
       (\<exists>sn. po_current p' = Some (sn, 0) \<and> ps_Version sn = v \<and> snd (ps_allMembers sn) = po_topology p'))"
proof (cases "po_closed p")
  case True
  then show ?thesis using rec by (auto simp: reconcileMembersWithPolicyLocked_def)
next
  case opn: False
  show ?thesis
  proof (cases "resolve_members outb [] specs")
    case (Inl e)
    then show ?thesis using rec opn by (auto simp: reconcileMembersWithPolicyLocked_def)
  next
    case (Inr sds)
    let ?ret = "filter (\<lambda>r. mr_tag (pref p r) \<notin> fst ` set specs) (po_topology p)"
    note pm = policy_members [OF pol, of p]
    have okf: "pool_ok (f p)" and cf: "\<not> po_closed (f p)" using policy_ok [OF pol ok] pm opn by (auto simp: same_members_def)
    obtain new p1 where ins: "install_members identity sds (f p) = (new, p1)" by fastforce
    define q where "q = p1\<lparr>po_topology := new, po_topologyByTag := map (\<lambda>r. (mr_tag (pref p1 r), r)) new\<rparr>"
    obtain sub where sub: "refreshHealthSubscriptionLocked q = q\<lparr>po_subscription := sub\<rparr>" using refresh_frame by blast
    obtain path where p3: "reconcileMembersWithPolicyLocked outb identity now specs f p =
        (let p3 = retire_refs ?ret (q\<lparr>po_subscription := sub, po_path := path\<rparr>); (snap, p4) = publish_topology now new p3
         in (Inr (ps_Version snap, ?ret), p4))"
      using opn Inr ins sub by (simp add: reconcileMembersWithPolicyLocked_def Let_def q_def [symmetric])
    define p3 where "p3 = retire_refs ?ret (q\<lparr>po_subscription := sub, po_path := path\<rparr>)"
    have "pool_ok p3 \<and> map (spec_of p3) new = sds \<and> po_topology p3 = new \<and> (\<forall>r \<in> set new. carries_over (f p) p3 r)"
      by (rule install_topology_ok [OF okf cf Inr ins, where sub = sub and path = path]) (use pm in \<open>simp add: p3_def q_def same_members_def\<close>)
    then have i: "pool_ok p3" "map (spec_of p3) new = sds" "po_topology p3 = new" and kp: "\<forall>r \<in> set new. carries_over (f p) p3 r" by auto
    obtain snap p4 where pub: "publish_topology now new p3 = (snap, p4)" by fastforce
    have "res = Inr (ps_Version snap, ?ret)" "p' = p4" using rec unfolding p3 p3_def [symmetric] Let_def by (auto simp: pub)
    moreover have "pool_ok p4" using publish_ok [OF i(1), of now] pub i(3) by simp
    moreover have "po_topology p4 = new" using publish_frame(1) [OF pub] i(3) by (simp add: same_members_def)
    moreover have "\<forall>r \<in> set new. carries_over p p4 r"
      using kp pm publish_frame(1) [OF pub] publish_spec(5-7) [OF pub] by (simp add: carries_over_def same_members_def)
    ultimately show ?thesis using publish_spec [OF pub] i(2) Inr opn by auto
  qed
qed

section \<open>Cold start, release and close\<close>

lemma cold_member_ok:
  assumes ok: "table_ok p" and cm: "cold_member identity tag d p = (r, p')"
  shows "grown {tag} p p' \<and> table_ok p' \<and> installed p' r \<and> mr_tag (pref p' r) = tag"
proof -
  obtain a ss where a: "acquireSharedState tag (pw_shared (po_world p)) = (a, ss)" by fastforce
  define p0 where "p0 = p\<lparr>po_world := (po_world p)\<lparr>pw_shared := ss\<rparr>\<rparr>"
  have g0: "grown {} p p0" "table_ok p0" using ok by (simp_all add: p0_def grown_def table_ok_def pref_def)
  obtain x p1 where x: "fresh_runtime tag d a p0 = (x, p1)" by fastforce
  note fr = fresh_runtime_ok [OF g0(2) x]
  define meta where "meta = (case map_of (pc_Metadata (po_cfg p)) tag of None \<Rightarrow> zero_meta | Some meta \<Rightarrow> meta)"
  let ?m = "\<lparr>mr_outbound = Some d, mr_tag = tag, mr_shared = Some a, mr_meta = meta, mr_latencyMs = -1\<rparr>"
  obtain r3 p3 where n: "new_ref ?m x (sh_entry (ss_heap (pw_shared (po_world p1)) a)) p1 = (r3, p3)" by fastforce
  note nr = new_ref_ok [OF conjunct1 [OF conjunct2 [OF fr]] conjunct1 [OF conjunct2 [OF conjunct2 [OF fr]]] n]
  have e: "r = r3" "p' = attachMonitorMember identity r3 p3"
    using cm a x n by (auto simp: cold_member_def p0_def meta_def Let_def)
  have inst: "installed p3 r3" using nr fr by (simp add: installed_def)
  have "grown ({} \<union> {tag} \<union> {} \<union> {}) p p'" unfolding e
    by (rule grown_trans [OF grown_trans [OF grown_trans [OF g0(1) conjunct1 [OF fr]] nr(1)] attach_ok(1)])
  then show ?thesis using inst nr(2,4) unfolding e attach_ok by simp
qed

lemma cold_members_ok:
  assumes "table_ok p" "distinct tags" "cold_members outb identity tags p = (res, p')"
  shows "grown (set tags) p p' \<and> table_ok p' \<and> (\<forall>rs. res = Inr rs \<longrightarrow> (\<forall>r \<in> set rs. installed p' r) \<and> map (member_tag p') rs = tags)"
  using assms
proof (induction outb identity tags p arbitrary: res p' rule: cold_members.induct)
  case (2 outb identity tag tags p)
  show ?case
  proof (cases "outb tag")
    case None
    then show ?thesis using 2 by auto
  next
    case (Some d)
    obtain r p1 where c: "cold_member identity tag d p = (r, p1)" by fastforce
    note cm = cold_member_ok [OF 2(2) c]
    obtain res1 p2 where rest: "cold_members outb identity tags p1 = (res1, p2)" by fastforce
    have ih: "grown (set tags) p1 p2 \<and> table_ok p2 \<and> (\<forall>rs. res1 = Inr rs \<longrightarrow> (\<forall>r \<in> set rs. installed p2 r) \<and> map (member_tag p2) rs = tags)"
      by (rule 2(1) [OF Some c [symmetric] refl _ _ rest]) (use cm 2(3) in auto)
    have p': "p' = p2" and rs: "res = map_sum id ((#) r) res1" using 2(4) Some c rest by (auto split: sum.splits)
    have "grown ({tag} \<union> set tags) p p2" using grown_trans cm ih by blast
    moreover have "installed p2 r" using installed_grown [of p1 r "set tags" p2] cm ih 2(3) by simp
    moreover have "pref p2 r = pref p1 r" using ih cm by (simp add: grown_def installed_def)
    ultimately show ?thesis using ih cm unfolding p' rs by (cases res1) (auto simp: member_tag_def)
  qed
qed auto

lemma fold_aput_map:
  assumes "distinct (map f rs)"
  shows "fold (\<lambda>r. aput (f r) r) rs [] = map (\<lambda>r. (f r, r)) rs"
proof -
  have "fold (\<lambda>r. aput (f r) r) rs acc = acc @ map (\<lambda>r. (f r, r)) rs" if "distinct (map fst acc @ map f rs)" for acc
    using that
  proof (induction rs arbitrary: acc)
    case (Cons r rs)
    have "map_of acc (f r) = None" using Cons.prems by (auto simp: map_of_eq_None_iff)
    then have "aput (f r) r acc = acc @ [(f r, r)]" by (induction "f r" r acc rule: aput.induct) (auto split: if_splits)
    with Cons show ?case by simp
  qed simp
  from this [of "[]"] assms show ?thesis by simp
qed

lemma initialize_ok:
  assumes ok: "pool_ok p" and top: "po_topology p = []" and d: "distinct members"
    and st: "initializeMembersLocked outb identity now members preferred selector p = (res, p')"
  shows "pool_ok p'"
proof (cases "po_current p = None")
  case False
  then show ?thesis using ok st by (simp add: initializeMembersLocked_def)
next
  case True
  obtain cr p1 where c: "cold_members outb identity members p = (cr, p1)" by fastforce
  have tp: "table_ok p" and rp: "refs_ok p" "\<forall>r \<in> set (live_refs p). r < po_nextRef p" using ok by (auto simp: pool_ok_def)
  note cm = cold_members_ok [OF tp d c]
  from cm have g: "grown (set members) p p1" by simp
  have t1: "po_topology p1 = []" "po_topologyByTag p1 = []" using g top ok by (auto simp: grown_def pool_ok_def)
  have base: "refs_ok p1" "\<forall>r \<in> set (live_refs p1). r < po_nextRef p1"
    using grown_refs [OF g rp] rp(2) g grown_live [OF g] by (auto simp: grown_def)
  have failed: "pool_ok p1" using cm base t1 by (simp add: pool_ok_def)
  show ?thesis
  proof (cases "\<exists>rs. cr = Inr rs \<and> selector = None")
    case False
    then have "p' = p1" using st True c by (auto simp: initializeMembersLocked_def split: sum.splits option.splits)
    then show ?thesis using failed by simp
  next
    case True
    then obtain rs where rs: "cr = Inr rs" "selector = None" by blast
    from cm rs have inst: "\<forall>r \<in> set rs. installed p1 r" and tags: "map (member_tag p1) rs = members" by auto
    obtain path where p': "p' = snd (publish_topology now rs (p1\<lparr>po_topology := rs, po_topologyByTag := fold (\<lambda>r. aput (mr_tag (pref p1 r)) r) rs [], po_path := path\<rparr>))"
      using st \<open>po_current p = None\<close> c rs by (auto simp: initializeMembersLocked_def Let_def)
    define q where "q = p1\<lparr>po_topology := rs, po_topologyByTag := fold (\<lambda>r. aput (mr_tag (pref p1 r)) r) rs [], po_path := path\<rparr>"
    have bt: "fold (\<lambda>r. aput (mr_tag (pref p1 r)) r) rs [] = map (\<lambda>r. (member_tag p1 r, r)) rs"
      using fold_aput_map [of "member_tag p1" rs] tags d by (simp add: member_tag_def)
    have fq: "pref q = pref p1" "member_tag q = member_tag p1" "installed q = installed p1" "table_ok q = table_ok p1" "refs_ok q = refs_ok p1" "live_refs q = live_refs p1"
      by (simp_all add: q_def pref_def member_tag_def installed_def table_ok_def refs_ok_def live_refs_def live_def fun_eq_iff)
    have "pool_ok q" unfolding pool_ok_def fq using base inst tags d cm by (auto simp: q_def bt installed_def)
    from publish_ok [OF this, of now] show ?thesis unfolding p' q_def [symmetric] by (simp add: q_def)
  qed
qed

text \<open>Releasing a runtime touches its owner flag and the shared states only.\<close>

lemma release_runtime_frame: "same_members p (release_runtime tag x p)" "live_refs (release_runtime tag x p) = live_refs p"
  "refs_ok (release_runtime tag x p) = refs_ok p"
proof -
  obtain rt ss where e: "releaseOwner tag (po_runtimes p x) (pw_shared (po_world p)) = (rt, ss)" by fastforce
  have "rt_retired rt = rt_retired (po_runtimes p x)" "rt_snapshotRefs rt = rt_snapshotRefs (po_runtimes p x)"
    using e by (auto simp: releaseOwner_def Let_def split: option.splits if_splits)
  then show "same_members p (release_runtime tag x p)" "live_refs (release_runtime tag x p) = live_refs p" "refs_ok (release_runtime tag x p) = refs_ok p"
    by (auto simp: release_runtime_def e same_members_def live_refs_def live_def member_tag_def pref_def fun_eq_iff refs_ok_def)
qed

lemma release_runtime_ok: "pool_ok p \<Longrightarrow> pool_ok (release_runtime tag x p)"
  by (rule same_members_ok [OF _ release_runtime_frame(1)]) (auto simp: release_runtime_frame pool_ok_def)

lemma ReleaseState_ok:
  assumes ok: "pool_ok p" and ret: "rt_retired (po_runtimes p (po_runtimeOf p r))"
  shows "pool_ok (ReleaseState r p)"
proof -
  let ?tag = "mr_tag (pref p r)" and ?x = "po_runtimeOf p r"
  define p1 where "p1 = release_runtime ?tag ?x p"
  have ok1: "pool_ok p1" unfolding p1_def by (rule release_runtime_ok [OF ok])
  have same: "same_members p p1" unfolding p1_def by (rule release_runtime_frame(1))
  show ?thesis
  proof (cases "map_of (po_runtimeByTag p1) ?tag = Some ?x")
    case False
    then show ?thesis using ok1 by (simp add: ReleaseState_def p1_def [symmetric])
  next
    case True
    let ?p2 = "p1\<lparr>po_runtimeByTag := adel ?tag (po_runtimeByTag p1)\<rparr>"
    have "table_ok p1" using ok1 by (simp add: pool_ok_def)
    then have tb: "table_ok ?p2" by (simp add: table_ok_def adel_def distinct_map_filter)
    have other: "mr_tag (pref p1 q) \<noteq> ?tag" if "installed p1 q" for q
    proof
      assume t: "mr_tag (pref p1 q) = ?tag"
      then have "po_runtimeOf p1 q = ?x" using that True by (simp add: installed_def)
      then show False using that ret same by (simp add: installed_def same_members_def)
    qed
    have inst: "installed ?p2 q" if "installed p1 q" for q using that other [OF that] by (simp add: installed_def pref_def)
    have fr: "member_tag ?p2 = member_tag p1" "refs_ok ?p2 = refs_ok p1" "live_refs ?p2 = live_refs p1"
      by (simp_all add: member_tag_def pref_def fun_eq_iff refs_ok_def live_refs_def live_def)
    have "pool_ok ?p2" using ok1 tb inst unfolding pool_ok_def fr by simp
    then show ?thesis using True by (simp add: ReleaseState_def p1_def [symmetric])
  qed
qed

lemma fold_release_ok: "pool_ok p \<Longrightarrow> pool_ok (fold (\<lambda>(tag, x). release_runtime tag x) xs p)"
  by (induction xs arbitrary: p) (auto intro: release_runtime_ok)

lemma Close_ok:
  assumes ok: "pool_ok p"
  shows "pool_ok (Close p)"
proof (cases "po_closed p")
  case False
  define p1 where "p1 = p\<lparr>po_closed := True, po_current := None\<rparr>"
  define p2 where "p2 = (case po_current p of None \<Rightarrow> p1 | Some sn \<Rightarrow> retire_snapshot sn p1)"
  have mt: "member_tag p1 = member_tag p" by (simp add: p1_def member_tag_def pref_def fun_eq_iff)
  have "pool_ok p2"
  proof (cases "po_current p")
    case None
    then have p2: "p2 = p\<lparr>po_closed := True\<rparr>" by (simp add: p2_def p1_def)
    have fr: "member_tag p2 = member_tag p" "refs_ok p2 = refs_ok p" "table_ok p2 = table_ok p" "live_refs p2 = live_refs p"
      by (simp_all add: p2 member_tag_def pref_def fun_eq_iff refs_ok_def table_ok_def live_refs_def live_def)
    show ?thesis using ok unfolding pool_ok_def fr by (simp add: p2)
  next
    case (Some sn)
    then have p2: "p2 = retire_snapshot sn p1" by (simp add: p2_def)
    have lv: "set (live_refs p2) \<subseteq> set (live_refs p)" "refs_ok p2"
    proof -
      show "set (live_refs p2) \<subseteq> set (live_refs p)" using retire_snapshot_frame(2) [of sn p1] Some unfolding p2 by (auto simp: live_refs_def live_def p1_def)
      show "refs_ok p2" unfolding p2 by (rule refs_ok_retire) (use ok Some in \<open>simp add: pool_ok_def refs_ok_def p1_def live_refs_def live_def\<close>)
    qed
    have same: "same_members p1 p2" unfolding p2 by (rule retire_snapshot_frame(1))
    have bound: "\<forall>r \<in> set (live_refs p2). r < po_nextRef p2" using lv(1) ok same by (auto simp: pool_ok_def same_members_def p1_def)
    have t: "\<forall>r < po_nextRef p2. po_runtimeOf p2 r < po_nextRuntime p2" using ok same by (simp add: pool_ok_def table_ok_def same_members_def p1_def)
    have "table_ok p2" using ok same unused_runtime [OF lv(2) bound t] by (simp add: pool_ok_def table_ok_def same_members_def p1_def)
    then show ?thesis using ok same lv(2) bound mt by (simp add: pool_ok_def same_members_def p1_def)
  qed
  from fold_release_ok [OF this, of "po_runtimeByTag p2"] have f: "pool_ok (fold (\<lambda>(tag, x). release_runtime tag x) (po_runtimeByTag p2) p2)" .
  have closed: "po_closed (fold (\<lambda>(tag, x). release_runtime tag x) xs q) = po_closed q" for xs q
    by (induction xs arbitrary: q) (auto simp: release_runtime_def split: prod.split)
  have "po_closed p2" by (simp add: p2_def p1_def retire_snapshot_def releaseSnapshotMembers_def add_refs_eq split: option.split)
  have e: "Close p = (fold (\<lambda>(tag, x). release_runtime tag x) (po_runtimeByTag p2) p2)\<lparr>po_runtimeByTag := []\<rparr>"
    unfolding Close_def Let_def p2_def p1_def using False by simp
  define q where "q = fold (\<lambda>(tag, x). release_runtime tag x) (po_runtimeByTag p2) p2"
  have fr: "member_tag (q\<lparr>po_runtimeByTag := []\<rparr>) = member_tag q" "refs_ok (q\<lparr>po_runtimeByTag := []\<rparr>) = refs_ok q"
      "live_refs (q\<lparr>po_runtimeByTag := []\<rparr>) = live_refs q" "table_ok q \<Longrightarrow> table_ok (q\<lparr>po_runtimeByTag := []\<rparr>)"
    by (simp_all add: member_tag_def pref_def fun_eq_iff refs_ok_def table_ok_def live_refs_def live_def)
  have "pool_ok q" "po_closed q" using f closed \<open>po_closed p2\<close> by (simp_all add: q_def)
  then show ?thesis unfolding e q_def [symmetric] pool_ok_def fr by (simp add: fr(4))
qed (use ok in \<open>simp add: Close_def\<close>)

section \<open>Runs of a pool\<close>

text \<open>The proxy core's outbounds, the monitor, the groups, the shared states and the latencies of the members change freely
  between the steps. A retired member's state is released after it reported itself drained.\<close>

inductive pool_step :: "poolOutbound \<Rightarrow> poolOutbound \<Rightarrow> bool" where
  cold_start: "distinct members \<Longrightarrow> po_topology p = [] \<Longrightarrow> pool_step p (snd (initializeMembersLocked outb identity now members preferred selector p))"
| reconciled: "policy_like f \<Longrightarrow> pool_step p (snd (reconcileMembersWithPolicyLocked outb identity now specs f p))"
| rebuilt: "pool_step p (rebuildCandidatesNow now p)"
| pinned: "distinct members \<Longrightarrow> po_closed p \<or> po_current p \<noteq> None \<or> po_topology p = [] \<Longrightarrow>
    pool_step p (snd (acquireSnapshot outb identity now members preferred selector p))"
| unpinned: "pool_step p (releaseSnapshotReader v p)"
| began: "pool_step p (snd (acquireOperation r p))"
| ended: "pool_step p (releaseOperation r p)"
| released: "rt_retired (po_runtimes p (po_runtimeOf p r)) \<Longrightarrow> RetiredMember_Drained r p \<Longrightarrow> pool_step p (ReleaseState r p)"
| closed: "pool_step p (Close p)"
| outside: "\<forall>r. (pw_members w r)\<lparr>mr_latencyMs := 0\<rparr> = (pref p r)\<lparr>mr_latencyMs := 0\<rparr> \<Longrightarrow>
    pool_step p (p\<lparr>po_monitor := m, po_path := path, po_world := w\<rparr>)"

definition new_pool :: "pool_config \<Rightarrow> Manager option \<Rightarrow> pool_world \<Rightarrow> data_path \<Rightarrow> poolOutbound" where
  "new_pool cfg mon w path = \<lparr>po_cfg = cfg, po_world = w, po_nextRef = 0,
     po_runtimes = (\<lambda>_. fst (newMemberRuntime None None (pw_shared w))), po_nextRuntime = 0, po_runtimeOf = (\<lambda>_. 0), po_entryOf = (\<lambda>_. None),
     po_topology = [], po_topologyByTag = [], po_runtimeByTag = [], po_path = path, po_current = None, po_leaving = [], po_monitor = mon,
     po_subscription = None, po_closed = False\<rparr>"

lemma new_pool_ok: "pool_ok (new_pool cfg mon w path)"
  by (simp add: new_pool_def pool_ok_def refs_ok_def table_ok_def live_refs_def live_def newMemberRuntime_def)

lemma leave_one_sub: "leave_one v sns = (gone, rest) \<Longrightarrow> set (map fst rest) \<subseteq> set (map fst sns)"
proof (induction v sns arbitrary: gone rest rule: leave_one.induct)
  case (2 v snap n sns)
  show ?case
  proof (cases "ps_Version snap = v")
    case True
    then show ?thesis using 2(2) by (auto split: if_splits)
  next
    case False
    obtain g r where l: "leave_one v sns = (g, r)" by fastforce
    then have "rest = (snap, n) # r" using 2(2) False by simp
    with 2(1) [OF False l] show ?thesis by (simp add: insert_mono subset_insertI2)
  qed
qed auto

lemma reader_frame: "same_members p (releaseSnapshotReader v p)" "set (live_refs (releaseSnapshotReader v p)) \<subseteq> set (live_refs p)"
proof -
  obtain gone rest where l: "leave_one v (po_leaving p) = (gone, rest)" by fastforce
  note sub = leave_one_sub [OF l]
  define q where "q = (case gone of None \<Rightarrow> p\<lparr>po_leaving := rest\<rparr> | Some s \<Rightarrow> releaseSnapshotMembers s (p\<lparr>po_leaving := rest\<rparr>))"
  have q: "same_members p q" "set (live_refs q) \<subseteq> set (live_refs p)"
  proof -
    show "same_members p q" by (cases gone) (simp_all add: q_def releaseSnapshotMembers_def add_refs_eq same_members_def member_tag_def pref_def fun_eq_iff)
    have "live q = (case po_current p of None \<Rightarrow> [] | Some sn \<Rightarrow> [fst sn]) @ map fst rest"
      by (cases gone) (simp_all add: q_def live_def releaseSnapshotMembers_def add_refs_eq)
    then have "set (live q) \<subseteq> set (live p)" using sub by (auto simp: live_def)
    then show "set (live_refs q) \<subseteq> set (live_refs p)" by (auto simp: live_refs_def)
  qed
  have c: "same_members p (p\<lparr>po_current := Some (sn, k)\<rparr>)" "po_current p = Some (sn, n) \<Longrightarrow> live_refs (p\<lparr>po_current := Some (sn, k)\<rparr>) = live_refs p" for sn k n
    by (simp_all add: same_members_def member_tag_def pref_def fun_eq_iff live_refs_def live_def)
  have e: "releaseSnapshotReader v p = (case po_current p of Some (snap, n) \<Rightarrow> if ps_Version snap = v then p\<lparr>po_current := Some (snap, n - 1)\<rparr> else q | None \<Rightarrow> q)"
    by (simp add: releaseSnapshotReader_def l q_def Let_def split: option.split prod.split)
  show "same_members p (releaseSnapshotReader v p)" "set (live_refs (releaseSnapshotReader v p)) \<subseteq> set (live_refs p)"
    unfolding e using q c by (auto split: option.split)
qed

lemma count_step_ok:
  assumes ok: "pool_ok p" and e: "p' = p\<lparr>po_current := c, po_runtimes := rts\<rparr>" "map_option fst c = map_option fst (po_current p)"
    "\<And>x. rt_snapshotRefs (rts x) = rt_snapshotRefs (po_runtimes p x) \<and> rt_retired (rts x) = rt_retired (po_runtimes p x)"
  shows "pool_ok p'"
proof -
  have "live p' = live p" using e(2) by (cases c; cases "po_current p") (auto simp: live_def e(1))
  then have lv: "live_refs p' = live_refs p" by (simp add: live_refs_def)
  show ?thesis
    by (rule same_members_ok [OF ok]) (use ok e lv in \<open>auto simp: same_members_def refs_ok_def pool_ok_def member_tag_def pref_def fun_eq_iff\<close>)
qed

lemma acquire_ok:
  assumes ok: "pool_ok p" and d: "distinct members" and top: "po_closed p \<or> po_current p \<noteq> None \<or> po_topology p = []"
  shows "pool_ok (snd (acquireSnapshot outb identity now members preferred selector p))"
proof -
  obtain res p1 where l: "loadSnapshot outb identity now members preferred selector p = (res, p1)" by fastforce
  have "pool_ok p1"
  proof (cases "po_closed p \<or> po_current p \<noteq> None")
    case True
    then show ?thesis using l ok by (auto simp: loadSnapshot_def split: if_splits)
  next
    case False
    obtain e q where i: "initializeMembersLocked outb identity now members preferred selector p = (e, q)" by fastforce
    have "p1 = q" using l False i by (auto simp: loadSnapshot_def split: option.splits)
    with initialize_ok [OF ok _ d i] top False show ?thesis by auto
  qed
  note ok1 = this
  show ?thesis
  proof (cases res)
    case (Inr snap)
    let ?c = "map_option (\<lambda>(s, n). (s, n + 1)) (po_current p1)"
    have "snd (acquireSnapshot outb identity now members preferred selector p) = p1\<lparr>po_current := ?c, po_runtimes := po_runtimes p1\<rparr>"
      by (simp add: acquireSnapshot_def l Inr)
    then show ?thesis by (rule count_step_ok [OF ok1]) (auto simp: option.map_comp comp_def case_prod_beta)
  qed (use l ok1 in \<open>simp add: acquireSnapshot_def\<close>)
qed

lemma outside_pool_ok:
  assumes ok: "pool_ok p" and w: "\<forall>r. (pw_members w r)\<lparr>mr_latencyMs := 0\<rparr> = (pref p r)\<lparr>mr_latencyMs := 0\<rparr>"
  shows "pool_ok (p\<lparr>po_monitor := m, po_path := path, po_world := w\<rparr>)"
proof (rule same_members_ok [OF ok])
  have "mr_tag (pw_members w r) = mr_tag (pref p r)" for r using arg_cong [OF spec [OF w, of r], of mr_tag] by simp
  then show "same_members p (p\<lparr>po_monitor := m, po_path := path, po_world := w\<rparr>)"
    by (simp add: same_members_def member_tag_def pref_def fun_eq_iff)
qed (use ok in \<open>auto simp: pool_ok_def refs_ok_def live_refs_def live_def\<close>)

lemma pool_step_ok:
  assumes "pool_step p p'" "pool_ok p"
  shows "pool_ok p'"
  using assms
proof (induction rule: pool_step.induct)
  case (cold_start members p outb identity now preferred selector)
  then show ?case using initialize_ok by (metis prod.collapse)
next
  case (reconciled f p outb identity now specs)
  then show ?case using reconcile_ok [OF reconciled(2,1)] by (metis prod.collapse)
next
  case (rebuilt p now)
  then show ?case by (simp add: rebuildCandidatesNow_def publish_ok)
next
  case (pinned members p outb identity now preferred selector)
  then show ?case by (intro acquire_ok)
next
  case (unpinned p v)
  have "refs_ok (releaseSnapshotReader v p)" using unpinned by (simp add: reader_refs pool_ok_def)
  from same_members_ok [OF unpinned reader_frame(1) this] reader_frame(2) [of v p] show ?case by blast
next
  case (began p r)
  have "snd (acquireOperation r p) = p\<lparr>po_current := po_current p, po_runtimes := po_runtimes (snd (acquireOperation r p))\<rparr>"
    by (simp add: acquireOperation_def Let_def on_runtime_def)
  then show ?case by (rule count_step_ok [OF began]) (simp_all add: acquireOperation_def Let_def on_runtime_def)
next
  case (ended p r)
  have "releaseOperation r p = p\<lparr>po_current := po_current p, po_runtimes := po_runtimes (releaseOperation r p)\<rparr>"
    by (simp add: releaseOperation_def on_runtime_def)
  then show ?case by (rule count_step_ok [OF ended]) (simp_all add: releaseOperation_def on_runtime_def)
qed (auto intro: ReleaseState_ok Close_ok outside_pool_ok)

interpretation pool_life: inductive_invariant "new_pool cfg mon w path" pool_step pool_ok
  by unfold_locales (auto intro: pool_step_ok new_pool_ok)

lemma pool_reach_ok: "reaches pool_step (new_pool cfg mon w path) p \<Longrightarrow> pool_ok p"
  by (rule pool_life.reachable_inv)

lemma unreferenced:
  assumes "pool_ok p"
  shows "rt_snapshotRefs (po_runtimes p x) = 0 \<longleftrightarrow> (\<forall>s \<in> set (live p). \<forall>q \<in> set (snd (ps_allMembers s)). po_runtimeOf p q \<noteq> x)"
proof -
  have "rt_snapshotRefs (po_runtimes p x) = 0 \<longleftrightarrow> x \<notin> set (map (po_runtimeOf p) (live_refs p))"
    using assms by (simp add: pool_ok_def refs_ok_def count_list_0_iff)
  then show ?thesis by (auto simp: live_refs_def)
qed


lemma resolve_total:
  "(\<exists>sds. resolve_members outb seen specs = Inr sds) \<longleftrightarrow> [] \<notin> fst ` set specs \<and> distinct (map fst specs) \<and> fst ` set specs \<inter> set seen = {} \<and>
     None \<notin> outb ` fst ` set specs"
proof (induction outb seen specs rule: resolve_members.induct)
  case (2 outb seen tag meta specs)
  show ?case
  proof (cases "tag \<noteq> [] \<and> tag \<notin> set seen \<and> outb tag \<noteq> None")
    case True
    then obtain d where d: "outb tag = Some d" by blast
    have "(\<exists>sds. resolve_members outb seen ((tag, meta) # specs) = Inr sds) \<longleftrightarrow> (\<exists>sds. resolve_members outb (tag # seen) specs = Inr sds)"
      using True d by (auto split: sum.split)
    with 2 [of d] True d show ?thesis by auto
  qed (auto simp: image_iff)
qed simp

lemma policy_like_id: "policy_like id"
proof -
  have "id p = p\<lparr>po_cfg := po_cfg p, po_path := po_path p, po_world := (po_world p)\<lparr>pw_group := pw_group (po_world p)\<rparr>\<rparr>" for p by simp
  then show ?thesis unfolding policy_like_def by blast
qed

text \<open>C14: a reconciliation installs exactly what it is given, or nothing. In every reachable pool \<open>ReconcileMembers\<close> fails, leaving the pool
  as it was, exactly when the pool is closed or a tag is empty, given twice or without an outbound. Otherwise the new topology
  has the given tags and metadata in the given order, each with the outbound of its tag; a member whose outbound is unchanged keeps its
  runtime, with its counters, and even its reference when the metadata is unchanged too; the members returned as retired are those of the
  old topology whose tags are gone; and the published snapshot has the returned version and covers the new topology.\<close>

theorem reconcile_installs_specification:
  assumes "reaches pool_step (new_pool cfg mon w path) p" and "ReconcileMembers outb identity now specs p = (res, p')"
  shows "(isl res \<longleftrightarrow> po_closed p \<or> [] \<in> fst ` set specs \<or> \<not> distinct (map fst specs) \<or> None \<in> outb ` fst ` set specs) \<and>
    (case res of Inl e \<Rightarrow> p' = p
     | Inr (v, retired) \<Rightarrow>
         map (\<lambda>r. (mr_tag (pref p' r), mr_meta (pref p' r))) (po_topology p') = specs \<and>
         (\<forall>r \<in> set (po_topology p'). the (mr_outbound (pref p' r)) = the (outb (mr_tag (pref p' r))) \<and> carries_over p p' r) \<and>
         retired = filter (\<lambda>r. mr_tag (pref p r) \<notin> fst ` set specs) (po_topology p) \<and>
         (\<exists>sn. po_current p' = Some (sn, 0) \<and> ps_Version sn = v \<and> snd (ps_allMembers sn) = po_topology p'))"
proof -
  have ok: "pool_ok p" by (rule pool_reach_ok [OF assms(1)])
  have rec: "reconcileMembersWithPolicyLocked outb identity now specs id p = (res, p')" using assms(2) by (simp add: ReconcileMembers_def)
  note tot = resolve_total [of outb "[]" specs]
  consider e where "res = Inl e" "p' = p"
    | v sds sn where "res = Inr (v, filter (\<lambda>r. mr_tag (pref p r) \<notin> fst ` set specs) (po_topology p))" "resolve_members outb [] specs = Inr sds"
      "map (spec_of p') (po_topology p') = sds" "\<not> po_closed p" "\<forall>r \<in> set (po_topology p'). carries_over p p' r"
      "po_current p' = Some (sn, 0)" "ps_Version sn = v" "snd (ps_allMembers sn) = po_topology p'"
    using reconcile_ok [OF ok policy_like_id rec] by blast
  then show ?thesis
  proof cases
    case (1 e)
    have "po_closed p \<or> (\<exists>e. resolve_members outb [] specs = Inl e)"
      using rec 1 by (auto simp: reconcileMembersWithPolicyLocked_def Let_def split: if_splits sum.splits prod.splits)
    then have "po_closed p \<or> \<not> (\<exists>sds. resolve_members outb [] specs = Inr sds)" by auto
    then show ?thesis using 1 tot by auto
  next
    case (2 v sds sn)
    have rs: "map fst sds = specs" "\<forall>(s, d) \<in> set sds. outb (fst s) = Some d" using resolve_spec [OF 2(2)] by auto
    have "map (\<lambda>r. (mr_tag (pref p' r), mr_meta (pref p' r))) (po_topology p') = specs"
      unfolding rs(1) [symmetric] 2(3) [symmetric] by (simp add: spec_of_def)
    moreover have "the (mr_outbound (pref p' r)) = the (outb (mr_tag (pref p' r)))" if "r \<in> set (po_topology p')" for r
    proof -
      have "spec_of p' r \<in> set sds" using that unfolding 2(3) [symmetric] by simp
      with rs(2) show ?thesis by (force simp: spec_of_def)
    qed
    ultimately show ?thesis using 2 tot by auto
  qed
qed

section \<open>A concrete pool\<close>

definition demo_outbounds :: "string \<Rightarrow> nat option" where
  "demo_outbounds = map_of [(''a'', 0), (''b'', 1)]"

definition demo_pool0 :: poolOutbound where "demo_pool0 = new_pool (demo_pool_config modeRandom) None demo_pool_world demo_path"

definition demo_specs :: "RuntimeMemberSpec list" where "demo_specs = [(''a'', zero_meta), (''b'', zero_meta)]"

definition demo_pool1 :: poolOutbound where "demo_pool1 = snd (ReconcileMembers demo_outbounds Some 0 demo_specs demo_pool0)"

lemma demo_pool_resolves: "\<not> po_closed demo_pool0" "resolve_members demo_outbounds [] demo_specs = Inr [((''a'', zero_meta), 0), ((''b'', zero_meta), 1)]"
  by (simp_all add: demo_pool0_def new_pool_def demo_specs_def demo_outbounds_def)

lemma demo_pool_run: "reaches pool_step demo_pool0 demo_pool1"
proof -
  have "pool_step demo_pool0 demo_pool1" unfolding demo_pool1_def ReconcileMembers_def by (rule reconciled [OF policy_like_id])
  with reaches_refl show ?thesis by (rule reaches_step)
qed

lemma demo_pool_members: "map (spec_of demo_pool1) (po_topology demo_pool1) = [((''a'', zero_meta), 0), ((''b'', zero_meta), 1)] \<and>
    (\<exists>sn. po_current demo_pool1 = Some (sn, 0) \<and> snd (ps_allMembers sn) = po_topology demo_pool1)"
proof -
  obtain res where "reconcileMembersWithPolicyLocked demo_outbounds Some 0 demo_specs id demo_pool0 = (res, demo_pool1)"
    unfolding demo_pool1_def ReconcileMembers_def by (metis prod.collapse)
  moreover have "pool_ok demo_pool0" unfolding demo_pool0_def by (rule new_pool_ok)
  moreover have "\<not> isl (fst (reconcileMembersWithPolicyLocked demo_outbounds Some 0 demo_specs id demo_pool0))"
    using demo_pool_resolves by (simp add: reconcileMembersWithPolicyLocked_def Let_def split: prod.split)
  ultimately show ?thesis using reconcile_ok [OF _ policy_like_id, of demo_pool0 demo_outbounds Some 0 demo_specs res demo_pool1] demo_pool_resolves by auto
qed


theorem reconcile_installs_specification_witness:
  "map (\<lambda>r. mr_tag (pref demo_pool1 r)) (po_topology demo_pool1) = [''a'', ''b'']"
proof -
  obtain res where r: "ReconcileMembers demo_outbounds Some 0 demo_specs demo_pool0 = (res, demo_pool1)"
    unfolding demo_pool1_def by (metis prod.collapse)
  have i: "\<not> po_closed demo_pool0" "[] \<notin> fst ` set demo_specs" "distinct (map fst demo_specs)" "None \<notin> demo_outbounds ` fst ` set demo_specs"
    by (simp_all add: demo_pool_resolves demo_specs_def demo_outbounds_def)
  note exact = reconcile_installs_specification [OF reaches_refl r [unfolded demo_pool0_def], folded demo_pool0_def]
  from exact i obtain v ret where "res = Inr (v, ret)" by (cases res) auto
  with exact have "map (\<lambda>r. (mr_tag (pref demo_pool1 r), mr_meta (pref demo_pool1 r))) (po_topology demo_pool1) = demo_specs" by simp
  from arg_cong [OF this, of "map fst"] show ?thesis by (simp add: demo_specs_def comp_def)
qed

end
