(* ===== verification/Pool_Update.thy ===== *)
theory Pool_Update
  imports Pool_Drain Pool_Dial Healer Health_Hub
begin

text \<open>
  The life of a pool above its topology, \<open>src/internal/outbound/pool/pool.go\<close>: creation and start, prepared
  updates, the replacement of the current member, and the handlers of group and health events. \<open>running_pool\<close> puts the options,
  the timers and the registrations of a pool beside its topology. What a step asks of the outside at one moment is the record
  \<open>pool_env\<close>: the outbound manager, the selector of the proxy core, the clock and a random word. The handlers that a
  notification of the group runtime calls are steps of their own, as the log \<open>w_delivered\<close> of that runtime records the calls.
\<close>

record Options =
  op_CapacityTarget :: int
  op_ActiveNodeIDs :: "node_id list option"
  op_Mode :: string
  op_Members :: "string list"
  op_FailureThreshold :: int
  op_BlacklistDuration :: duration
  op_Metadata :: "(string \<times> MemberMeta) list"
  op_GroupID :: group_id
  op_FailureWindow :: duration
  op_HealthCheckInterval :: duration
  op_PreferredMember :: string
  op_InitialGroupState :: "(string \<times> GroupInitialState) list"
  op_SelectorTag :: string
  op_MonitorObserverOnly :: bool
  op_RecoveryEnabled :: bool
  op_RecoverySuccessThreshold :: int
  op_RecoveryCooldown :: duration

record pool_env =
  pe_manager :: "string \<Rightarrow> nat option"
  pe_selectorError :: "string option"
  pe_selector :: "(string \<Rightarrow> bool) option"
  pe_identity :: "string \<Rightarrow> string option"
  pe_now :: gtime
  pe_random :: "64 word"

record running_pool =
  lv_pool :: poolOutbound
  lv_options :: Options
  lv_failureThreshold :: int
  lv_failureWindowNanos :: duration
  lv_waitForInitialLatency :: bool
  lv_rebuildTimer :: "gtime option"
  lv_expiryTimer :: "gtime option"
  lv_unregisterSchedule :: "nat option"
  lv_unsubscribeActivation :: "nat option"
  lv_unsubscribeGroupState :: "nat option"
  lv_unregisterRuntime :: "nat option"

definition group_world :: "running_pool \<Rightarrow> world" where
  "group_world lv = pw_group (po_world (lv_pool lv))"

definition on_group :: "(world \<Rightarrow> world) \<Rightarrow> running_pool \<Rightarrow> running_pool" where
  "on_group f lv = lv\<lparr>lv_pool := (lv_pool lv)\<lparr>po_world := (po_world (lv_pool lv))\<lparr>pw_group := f (group_world lv)\<rparr>\<rparr>\<rparr>"

section \<open>Options\<close>

text \<open>\<open>Some\<close> is a slice that is not nil; a selection always is.\<close>

definition applyCapacitySelection :: "int \<Rightarrow> node_id list option \<Rightarrow> (string \<times> GroupInitialState) list \<Rightarrow>
    node_id list option \<times> (string \<times> GroupInitialState) list" where
  "applyCapacitySelection target previous states =
     (let selected = CapacitySelection (map (gi_NodeID \<circ> snd) states) previous target
      in (Some selected, map (\<lambda>(tag, st). (tag, st\<lparr>gi_Standby := (target > 0 \<and> gi_NodeID st \<notin> set selected)\<rparr>)) states))"

definition fresh_state :: "node_id \<Rightarrow> GroupInitialState" where
  "fresh_state n = \<lparr>gi_Standby = False, gi_NodeID = n, gi_FailureHistory = [], gi_Evicted = False, gi_LastError = [],
     gi_EvictedAt = zero_time, gi_Revision = 0\<rparr>"

definition option_meta :: "Options \<Rightarrow> string \<Rightarrow> MemberMeta" where
  "option_meta opt tag = (case map_of (op_Metadata opt) tag of None \<Rightarrow> zero_meta | Some meta \<Rightarrow> meta)"

definition member_states :: "Options \<Rightarrow> (string \<times> GroupInitialState) list" where
  "member_states opt = fold (\<lambda>tag. aput tag (case map_of (op_InitialGroupState opt) tag of Some st \<Rightarrow> st
     | None \<Rightarrow> fresh_state (mm_NodeID (option_meta opt tag)))) (op_Members opt) []"

definition normalizeOptions :: "Options \<Rightarrow> Options" where
  "normalizeOptions opt =
     (let o1 = opt\<lparr>op_FailureThreshold := (if op_FailureThreshold opt \<le> 0 then 3 else op_FailureThreshold opt),
                   op_BlacklistDuration := (if op_BlacklistDuration opt \<le> 0 then 24 * hour else op_BlacklistDuration opt),
                   op_Mode := normalize_mode (op_Mode opt)\<rparr>
      in if op_GroupID opt = 0 then o1
         else let (active, states) = applyCapacitySelection (op_CapacityTarget opt) (op_ActiveNodeIDs opt) (member_states opt)
              in o1\<lparr>op_InitialGroupState := states, op_ActiveNodeIDs := active\<rparr>)"

definition recoveryPolicy :: "Options \<Rightarrow> RecoveryPolicy" where
  "recoveryPolicy opt = NormalizeRecoveryPolicy \<lparr>rp_Enabled = op_RecoveryEnabled opt,
     rp_SuccessThreshold = op_RecoverySuccessThreshold opt, rp_Cooldown = op_RecoveryCooldown opt\<rparr>"

definition dial_config_of :: "running_pool \<Rightarrow> (string \<Rightarrow> bool) option \<Rightarrow> dial_config" where
  "dial_config_of lv selector = \<lparr>dc_pool = po_cfg (lv_pool lv), dc_subscribed = (lv_unsubscribeGroupState lv \<noteq> None),
     dc_failureThreshold = lv_failureThreshold lv, dc_optThreshold = op_FailureThreshold (lv_options lv),
     dc_failureWindow = lv_failureWindowNanos lv, dc_optWindow = op_FailureWindow (lv_options lv),
     dc_blacklistDuration = op_BlacklistDuration (lv_options lv), dc_selector = selector\<rparr>"

section \<open>Timers\<close>

text \<open>A timer is the instant it fires at; \<open>Reset\<close> replaces it.\<close>

definition scheduleCandidateRebuild :: "gtime \<Rightarrow> running_pool \<Rightarrow> running_pool" where
  "scheduleCandidateRebuild now lv = (if po_closed (lv_pool lv) then lv else lv\<lparr>lv_rebuildTimer := Some (now + 100 * millisecond)\<rparr>)"

definition arm_expiry :: "gtime \<Rightarrow> duration \<Rightarrow> running_pool \<Rightarrow> running_pool" where
  "arm_expiry now d lv = (if po_closed (lv_pool lv) then lv
     else fold (\<lambda>ev lv. case ev of ExpiryIn after \<Rightarrow> lv\<lparr>lv_expiryTimer := Some (now + after)\<rparr> | RebuildNow \<Rightarrow> lv)
            (scheduleExpiryRebuild d) lv)"

section \<open>The current member\<close>

definition load :: "pool_env \<Rightarrow> running_pool \<Rightarrow> (string + PoolSnapshot) \<times> running_pool" where
  "load env lv = (let (res, p) = loadSnapshot (pe_manager env) (pe_identity env) (pe_now env) (op_Members (lv_options lv))
      (op_PreferredMember (lv_options lv)) (pe_selectorError env) (lv_pool lv) in (res, lv\<lparr>lv_pool := p\<rparr>))"

definition allInitialChecksDone :: "poolOutbound \<Rightarrow> PoolSnapshot \<Rightarrow> bool" where
  "allInitialChecksDone p snap = (case po_monitor p of None \<Rightarrow> True
     | Some m \<Rightarrow> list_all (\<lambda>r. case monitor_snapshot (po_cfg p) (monitor_view_of m) (pref p r) of None \<Rightarrow> False
                               | Some sn \<Rightarrow> sn_InitialCheckDone sn) (snd (ps_allMembers snap)))"

text \<open>The current member of the data path and the current tag of the group are written together.\<close>

definition set_current :: "gtime \<Rightarrow> mref option \<Rightarrow> running_pool \<Rightarrow> running_pool" where
  "set_current now c lv = (let p = lv_pool lv; tag = (case c of None \<Rightarrow> [] | Some r \<Rightarrow> mr_tag (pref p r))
     in on_group (SetCurrentTag (op_GroupID (lv_options lv)) tag now)
          (lv\<lparr>lv_pool := p\<lparr>po_path := (po_path p)\<lparr>dp_currentMember := c\<rparr>\<rparr>\<rparr>))"

definition selector_rejects :: "pool_env \<Rightarrow> string \<Rightarrow> bool" where
  "selector_rejects env tag = (case pe_selector env of None \<Rightarrow> False | Some accepts \<Rightarrow> \<not> accepts tag)"

definition reconcileCurrent :: "pool_env \<Rightarrow> running_pool \<Rightarrow> running_pool" where
  "reconcileCurrent env lv = (case load env lv of (Inl e, lv1) \<Rightarrow> lv1
     | (Inr snap, lv1) \<Rightarrow>
         let p = lv_pool lv1; ms = snd (ps_Members snap)
         in if (case dp_currentMember (po_path p) of None \<Rightarrow> False | Some c \<Rightarrow> c \<in> set ms)
            then lv1\<lparr>lv_waitForInitialLatency := False\<rparr>
            else if lv_waitForInitialLatency lv1 \<and> \<not> allInitialChecksDone p snap then lv1
            else let lv2 = lv1\<lparr>lv_waitForInitialLatency := False\<rparr>
                 in if ms = [] then set_current (pe_now env) None lv2
                    else let (r, dp) = selectMember (po_cfg p) (pw_members (po_world p)) (member_active (po_world p)) (pe_random env) snap
                                         (ps_Members snap) (po_path p);
                             lv3 = lv2\<lparr>lv_pool := p\<lparr>po_path := dp\<rparr>\<rparr>
                         in if selector_rejects env (mr_tag (pref p r)) then lv3 else set_current (pe_now env) (Some r) lv3)"

definition activateNodeID :: "pool_env \<Rightarrow> node_id \<Rightarrow> running_pool \<Rightarrow> string option \<times> running_pool" where
  "activateNodeID env n lv = (case load env lv of (Inl e, lv1) \<Rightarrow> (Some e, lv1)
     | (Inr snap, lv1) \<Rightarrow>
         let p = lv_pool lv1
         in case find (\<lambda>r. mm_NodeID (memberMeta (po_cfg p) (pref p r)) = n) (snd (ps_Members snap)) of
              None \<Rightarrow> (Some ''node is not a healthy running group member'', lv1)
            | Some r \<Rightarrow> if selector_rejects env (mr_tag (pref p r)) then (Some ''selector rejected group member'', lv1)
                        else (None, set_current (pe_now env) (Some r) (lv1\<lparr>lv_waitForInitialLatency := False\<rparr>)))"

definition rebuild :: "gtime \<Rightarrow> running_pool \<Rightarrow> running_pool" where
  "rebuild now lv = lv\<lparr>lv_pool := rebuildCandidatesNow now (lv_pool lv)\<rparr>"

definition rebuildAndReconcileCandidatesNow :: "pool_env \<Rightarrow> running_pool \<Rightarrow> running_pool" where
  "rebuildAndReconcileCandidatesNow env lv = reconcileCurrent env (rebuild (pe_now env) lv)"

section \<open>Event handlers\<close>

definition member_of_node :: "poolOutbound \<Rightarrow> node_id \<Rightarrow> mref option" where
  "member_of_node p n = find (\<lambda>r. mm_NodeID (memberMeta (po_cfg p) (pref p r)) = n) (po_topology p)"

definition handleGroupState :: "pool_env \<Rightarrow> GroupStateEvent \<Rightarrow> running_pool \<Rightarrow> running_pool" where
  "handleGroupState env ev lv =
     (if ev_GroupID ev \<noteq> op_GroupID (lv_options lv) \<or> po_closed (lv_pool lv) then lv
      else let p = lv_pool lv;
               lv1 = (if ev_CurrentChanged ev
                      then lv\<lparr>lv_pool := p\<lparr>po_path := (po_path p)\<lparr>dp_currentMember :=
                        (if ev_CurrentNodeID ev = 0 then None else member_of_node p (ev_CurrentNodeID ev))\<rparr>\<rparr>\<rparr>
                      else lv);
               lv2 = (if ev_StateChanged ev
                      then if ev_Recovered ev then scheduleCandidateRebuild (pe_now env) lv1 else rebuild (pe_now env) lv1
                      else lv1)
           in if ev_CurrentChanged ev then reconcileCurrent env lv2 else lv2)"

text \<open>A call into the group notifies its subscribers before it returns: the handler of this pool runs for each of the
  notifications the call sends to it, in their order. (In the code the handler of an event runs between the steps of a call that
  sends several; here it sees the group as the call leaves it. What a handler itself makes the group send, the change of the
  current tag it has just installed, is in \<open>w_delivered\<close> and handled by a later \<open>group_event\<close>.)\<close>

definition notified :: "running_pool \<Rightarrow> world \<Rightarrow> world \<Rightarrow> GroupStateEvent list" where
  "notified lv w w' = (case lv_unsubscribeGroupState lv of None \<Rightarrow> []
     | Some n \<Rightarrow> map snd (filter (\<lambda>(to, e). to = Subscriber n) (drop (length (w_delivered w)) (w_delivered w'))))"

definition call_group :: "pool_env \<Rightarrow> (world \<Rightarrow> world) \<Rightarrow> running_pool \<Rightarrow> running_pool" where
  "call_group env f lv = fold (handleGroupState env) (notified lv (group_world lv) (f (group_world lv))) (on_group f lv)"

definition hasMember :: "string \<Rightarrow> poolOutbound \<Rightarrow> bool" where
  "hasMember tag p \<longleftrightarrow> map_of (po_topologyByTag p) tag \<noteq> None"

definition durableStates :: "gtime \<Rightarrow> node_id \<Rightarrow> running_pool \<Rightarrow> GroupNodeState list" where
  "durableStates now n lv = (if op_GroupID (lv_options lv) = 0 then []
     else map (\<lambda>s. \<lparr>gn_GroupID = ss_GroupID s, gn_NodeID = ss_NodeID s, gn_FailureHistory = ss_FailureHistory s, gn_Evicted = ss_Evicted s,
       gn_LastError = ss_LastError s, gn_EvictedAt = ss_EvictedAt s, gn_UpdatedAt = now, gn_Revision = ss_Revision s\<rparr>)
       (SnapshotStates [n] (group_world lv)))"

definition event_tag :: "HealthResultEvent \<Rightarrow> running_pool \<Rightarrow> string" where
  "event_tag ev lv = (if op_GroupID (lv_options lv) \<noteq> 0 \<and> hr_NodeID ev \<noteq> 0
     then case member_of_node (lv_pool lv) (hr_NodeID ev) of None \<Rightarrow> hr_Tag ev | Some r \<Rightarrow> mr_tag (pref (lv_pool lv) r)
     else hr_Tag ev)"

definition event_latency_ms :: "duration \<Rightarrow> int" where
  "event_latency_ms d = (let ms = (if d \<ge> 0 then d div millisecond else - ((- d) div millisecond)) in if ms = 0 \<and> d > 0 then 1 else ms)"

definition store_latency :: "string \<Rightarrow> int \<Rightarrow> poolOutbound \<Rightarrow> poolOutbound" where
  "store_latency tag ms p = (case map_of (po_topologyByTag p) tag of None \<Rightarrow> p
     | Some r \<Rightarrow> p\<lparr>po_world := (po_world p)\<lparr>pw_members := (pw_members (po_world p))(r := (pref p r)\<lparr>mr_latencyMs := ms\<rparr>)\<rparr>\<rparr>)"

text \<open>What a measurement does to the group of the pool, with the durable states it leaves.\<close>

definition record_health :: "pool_env \<Rightarrow> HealthResultEvent \<Rightarrow> string \<Rightarrow> running_pool \<Rightarrow> GroupNodeState list \<times> running_pool" where
  "record_health env ev tag lv =
     (let g = op_GroupID (lv_options lv); now = pe_now env
      in if g = 0 then ([], lv)
         else let lv1 = (if hr_Success ev
                then call_group env (\<lambda>w. snd (RecordHealthSuccess g tag (hr_ProbeID ev) now w)) lv
                else arm_expiry now (currentFailureWindow (dial_config_of lv (pe_selector env)))
                       (call_group env (\<lambda>w. snd (RecordGroupHealthFailure g tag (hr_ProbeID ev) (Some (hr_Error ev)) (hr_CheckedAt ev) now w)) lv))
              in (durableStates now (hr_NodeID ev) lv1, lv1))"

definition handleHealthResult :: "pool_env \<Rightarrow> HealthResultEvent \<Rightarrow> running_pool \<Rightarrow> GroupNodeState list \<times> running_pool" where
  "handleHealthResult env ev lv =
     (if hr_SnapshotOnly ev
      then ([], if po_closed (lv_pool lv) then lv else rebuildAndReconcileCandidatesNow env lv)
      else let tag = event_tag ev lv
           in if \<not> hasMember tag (lv_pool lv) then ([], lv)
              else let (states, lv1) = record_health env ev tag lv
                   in (states, if hr_Success ev
                       then scheduleCandidateRebuild (pe_now env) (lv1\<lparr>lv_pool := store_latency tag (event_latency_ms (hr_Latency ev)) (lv_pool lv1)\<rparr>)
                       else rebuildAndReconcileCandidatesNow env lv1))"

section \<open>Prepared updates\<close>

record PoolUpdate =
  pu_CapacityTarget :: int
  pu_ActiveNodeIDs :: "node_id list option"
  pu_Members :: "RuntimeMemberSpec list"
  pu_Mode :: string
  pu_FailureWindow :: duration
  pu_FailureThreshold :: int
  pu_HealthCheckInterval :: duration
  pu_PreferredNodeID :: node_id
  pu_InitialGroupState :: "(string \<times> GroupInitialState) list"
  pu_RecoveryEnabled :: bool
  pu_RecoveryThreshold :: int
  pu_RecoveryCooldown :: duration

record preparedPoolUpdate =
  pp_update :: PoolUpdate
  pp_rolledBack :: bool
  pp_committed :: bool

fun check_members :: "(string \<Rightarrow> nat option) \<Rightarrow> (nat \<Rightarrow> string list) \<Rightarrow> string list \<Rightarrow> RuntimeMemberSpec list \<Rightarrow> string option" where
  "check_members outb networks seen [] = None"
| "check_members outb networks seen ((tag, meta) # specs) =
     (if tag = [] then Some ''pool member tag is empty''
      else if tag \<in> set seen then Some (''duplicate pool member: '' @ tag)
      else case outb tag of None \<Rightarrow> Some (''pool member not found: '' @ tag)
           | Some d \<Rightarrow> if ''tcp'' \<notin> set (networks d) \<and> ''udp'' \<notin> set (networks d)
                       then Some (''pool member has no supported network: '' @ tag)
                       else check_members outb networks (tag # seen) specs)"

text \<open>The state of every member: what the caller has for its tag, under the node of its metadata.\<close>

definition update_states :: "PoolUpdate \<Rightarrow> (string \<times> GroupInitialState) list" where
  "update_states u = fold (\<lambda>(tag, meta). aput tag ((case map_of (pu_InitialGroupState u) tag of None \<Rightarrow> fresh_state 0 | Some st \<Rightarrow> st)
     \<lparr>gi_NodeID := mm_NodeID meta\<rparr>)) (pu_Members u) []"

definition PrepareUpdate :: "pool_env \<Rightarrow> PoolUpdate \<Rightarrow> running_pool \<Rightarrow> string + preparedPoolUpdate" where
  "PrepareUpdate env u lv =
     (if pu_Members u = [] then Inl ''pool update requires at least one member''
      else case check_members (pe_manager env) (pc_networks (po_cfg (lv_pool lv))) [] (pu_Members u) of Some e \<Rightarrow> Inl e
           | None \<Rightarrow>
               let previous = (if pu_ActiveNodeIDs u = None \<and> pu_CapacityTarget u > 0 \<and> op_CapacityTarget (lv_options lv) > 0
                               then op_ActiveNodeIDs (lv_options lv) else pu_ActiveNodeIDs u);
                   (active, states) = applyCapacitySelection (pu_CapacityTarget u) previous (update_states u)
               in Inr \<lparr>pp_update = u\<lparr>pu_Mode := normalize_mode (pu_Mode u), pu_ActiveNodeIDs := active, pu_InitialGroupState := states\<rparr>,
                       pp_rolledBack = False, pp_committed = False\<rparr>)"

definition Rollback :: "preparedPoolUpdate \<Rightarrow> preparedPoolUpdate" where
  "Rollback pp = pp\<lparr>pp_rolledBack := True\<rparr>"

definition update_options :: "PoolUpdate \<Rightarrow> Options \<Rightarrow> Options" where
  "update_options u opt = opt\<lparr>op_Mode := pu_Mode u, op_FailureWindow := pu_FailureWindow u, op_FailureThreshold := pu_FailureThreshold u,
     op_HealthCheckInterval := pu_HealthCheckInterval u, op_RecoveryEnabled := pu_RecoveryEnabled u,
     op_RecoverySuccessThreshold := pu_RecoveryThreshold u, op_RecoveryCooldown := pu_RecoveryCooldown u,
     op_CapacityTarget := pu_CapacityTarget u, op_ActiveNodeIDs := pu_ActiveNodeIDs u\<rparr>"

definition group_update :: "PoolUpdate \<Rightarrow> Options \<Rightarrow> RuntimeUpdate" where
  "group_update u opt = \<lparr>ru_FailureWindow = pu_FailureWindow u, ru_FailureThreshold = pu_FailureThreshold u,
     ru_PreferredNodeID = pu_PreferredNodeID u, ru_Members = pu_InitialGroupState u, ru_Recovery = recoveryPolicy (update_options u opt)\<rparr>"

text \<open>The part of a commit that runs once the members are resolved and before they are installed.\<close>

definition apply_policy :: "gtime \<Rightarrow> PoolUpdate \<Rightarrow> Options \<Rightarrow> poolOutbound \<Rightarrow> poolOutbound" where
  "apply_policy now u opt p = p\<lparr>po_cfg := (po_cfg p)\<lparr>pc_mode := pu_Mode u\<rparr>,
     po_path := (po_path p)\<lparr>dp_mode := pu_Mode u, dp_modeAtomic := Some (pu_Mode u)\<rparr>,
     po_world := (po_world p)\<lparr>pw_group := snd (ReconcileSilent (op_GroupID opt) (group_update u opt) now (pw_group (po_world p)))\<rparr>\<rparr>"

definition reschedule :: "PoolUpdate \<Rightarrow> running_pool \<Rightarrow> running_pool" where
  "reschedule u lv =
     (let g = op_GroupID (lv_options lv); old = lv_unregisterSchedule lv
      in case po_monitor (lv_pool lv) of None \<Rightarrow> lv
         | Some m \<Rightarrow>
             let (token, m1) = (if g \<noteq> 0 then RegisterGroupHealthScheduleByNodeID g (map (mm_NodeID \<circ> snd) (pu_Members u)) (pu_HealthCheckInterval u) m
                                else (old, m))
             in lv\<lparr>lv_unregisterSchedule := token, lv_pool := (lv_pool lv)\<lparr>po_monitor := Some (unregister_schedule g old m1)\<rparr>\<rparr>)"

definition Commit :: "pool_env \<Rightarrow> preparedPoolUpdate \<Rightarrow> running_pool \<Rightarrow>
    (string + nat \<times> mref list) \<times> preparedPoolUpdate \<times> running_pool" where
  "Commit env pp lv =
     (if pp_rolledBack pp then (Inl ''pool update was rolled back'', pp, lv)
      else if pp_committed pp then (Inl ''pool update already committed'', pp, lv)
      else let pp1 = pp\<lparr>pp_committed := True\<rparr>; u = pp_update pp; opt = lv_options lv; now = pe_now env; p = lv_pool lv
           in if po_closed p then (Inl errClosed, pp1, lv)
              else case reconcileMembersWithPolicyLocked (pe_manager env) (pe_identity env) now (pu_Members u) (apply_policy now u opt) p of
                     (Inl e, _) \<Rightarrow> (Inl e, pp1, lv)
                   | (Inr (version, retired), p1) \<Rightarrow>
                       let events = fst (ReconcileSilent (op_GroupID opt) (group_update u opt) now (pw_group (po_world p)));
                           lv1 = lv\<lparr>lv_pool := p1, lv_options := (update_options u opt)\<lparr>op_Members := map fst (pu_Members u)\<rparr>,
                                    lv_failureThreshold := pu_FailureThreshold u, lv_failureWindowNanos := pu_FailureWindow u\<rparr>
                       in (Inr (version, retired), pp1, reconcileCurrent env (on_group (NotifyEvents now events) (reschedule u lv1))))"

section \<open>Creation and start\<close>

text \<open>A pool that owns its monitor entries registers its nodes when it is created.\<close>

definition register_node :: "(string \<Rightarrow> string option) \<Rightarrow> Options \<Rightarrow> string \<Rightarrow> Manager \<times> sharedStateStore \<Rightarrow> Manager \<times> sharedStateStore" where
  "register_node identity opt tag s =
     (let (m, ss) = s; (a, ss1) = acquireSharedState tag ss; meta = option_meta opt tag;
          (e, reg) = registry_migrate identity (mm_NodeID meta) (member_info tag meta) (ma_registry m)
      in (m\<lparr>ma_registry := update_entry e (setDialer True \<circ> setProbe True \<circ> setRelease True) reg\<rparr>,
          put_shared a (attachEntry (Some e) (ss_heap ss1 a)) ss1))"

definition newPool :: "pool_env \<Rightarrow> (nat \<Rightarrow> string list) \<Rightarrow> Options \<Rightarrow> Manager option \<Rightarrow> pool_world \<Rightarrow> string + running_pool" where
  "newPool env networks options mon w =
     (if op_Members options = [] then Inl ''pool requires at least one member''
      else let opt = normalizeOptions options; mode = op_Mode opt;
               (runtime, gw) = Register (op_GroupID opt) (op_FailureWindow opt) (op_FailureThreshold opt) (op_PreferredMember opt)
                                 (op_InitialGroupState opt) (Some (recoveryPolicy opt)) (pe_now env) (pw_group w);
               (mon1, ss) = (case mon of None \<Rightarrow> (None, pw_shared w)
                 | Some m \<Rightarrow> if op_MonitorObserverOnly opt then (Some m, pw_shared w)
                    else (\<lambda>(m1, ss1). (Some m1, ss1)) (fold (register_node (pe_identity env) opt) (op_Members opt) (m, pw_shared w)))
           in Inr \<lparr>lv_pool = new_pool \<lparr>pc_GroupID = op_GroupID opt, pc_MonitorObserverOnly = op_MonitorObserverOnly opt,
                       pc_Metadata = op_Metadata opt, pc_mode = mode, pc_networks = networks\<rparr> mon1
                     (w\<lparr>pw_group := gw, pw_shared := ss\<rparr>)
                     \<lparr>dp_rrCounter = 0, dp_randomState = word_of_int (pe_now env) OR 1, dp_currentMember = None, dp_modeAtomic = Some mode,
                      dp_mode = mode\<rparr>,
                   lv_options = opt, lv_failureThreshold = op_FailureThreshold opt, lv_failureWindowNanos = op_FailureWindow opt,
                   lv_waitForInitialLatency = (mode = modeLowestLatency \<and> op_PreferredMember opt = []),
                   lv_rebuildTimer = None, lv_expiryTimer = None, lv_unregisterSchedule = None, lv_unsubscribeActivation = None,
                   lv_unsubscribeGroupState = None, lv_unregisterRuntime = runtime\<rparr>)"

text \<open>\<open>handler\<close> is the activation handler that is registered for the pool: \<open>activateNodeID\<close>.\<close>

definition Start :: "pool_env \<Rightarrow> (node_id \<Rightarrow> string option) \<Rightarrow> running_pool \<Rightarrow> string option \<times> running_pool" where
  "Start env handler lv =
     (let opt = lv_options lv; g = op_GroupID opt;
          (err, p) = initializeMembersLocked (pe_manager env) (pe_identity env) (pe_now env) (op_Members opt) (op_PreferredMember opt)
                       (pe_selectorError env) (lv_pool lv)
      in case err of Some e \<Rightarrow> (Some e, lv\<lparr>lv_pool := p\<rparr>)
         | None \<Rightarrow>
             let p1 = refreshHealthSubscriptionLocked p; lv1 = lv\<lparr>lv_pool := p1\<rparr>
             in case po_monitor p1 of None \<Rightarrow> (None, lv1)
                | Some m \<Rightarrow>
                    if g = 0 then (None, lv1)
                    else let (token, m1) = RegisterGroupHealthScheduleByNodeID g (map (mm_NodeID \<circ> option_meta opt) (op_Members opt))
                                             (op_HealthCheckInterval opt) m;
                             lv2 = reconcileCurrent env (lv1\<lparr>lv_unregisterSchedule := token, lv_pool := p1\<lparr>po_monitor := Some m1\<rparr>\<rparr>);
                             (act, w1) = RegisterActivationHandler g handler (group_world lv2);
                             (sub, w2) = SubscribeStateChanges w1
                         in (None, (on_group (\<lambda>_. w2) lv2)\<lparr>lv_unsubscribeActivation := act, lv_unsubscribeGroupState := Some sub\<rparr>))"

definition unregister_monitor :: "running_pool \<Rightarrow> running_pool" where
  "unregister_monitor lv = lv\<lparr>lv_pool := (lv_pool lv)\<lparr>po_subscription := None,
     po_monitor := map_option (unregister_schedule (op_GroupID (lv_options lv)) (lv_unregisterSchedule lv)) (po_monitor (lv_pool lv))\<rparr>\<rparr>"

text \<open>\<open>Close\<close> of the topology, with the timers stopped and every registration given back.\<close>

definition Close_pool :: "running_pool \<Rightarrow> running_pool" where
  "Close_pool lv = (if po_closed (lv_pool lv) then lv
     else let g = op_GroupID (lv_options lv);
              off = (\<lambda>tok f. case tok of None \<Rightarrow> id | Some t \<Rightarrow> on_group (f t));
              lv1 = lv\<lparr>lv_rebuildTimer := None, lv_expiryTimer := None, lv_pool := Close (lv_pool lv)\<rparr>
          in off (lv_unregisterRuntime lv) (Unregister g)
               (unregister_monitor
                 (off (lv_unsubscribeGroupState lv) UnsubscribeStateChanges
                   (off (lv_unsubscribeActivation lv) (UnregisterActivationHandler g) lv1))))"

end
