(* ===== verification/Pool_Life.thy ===== *)
theory Pool_Life
  imports Pool_Update
begin

text \<open>
  Properties of a running pool: the invariant of \<open>Pool_Drain\<close> holds along the runs of the whole component, a rebuild leaves
  the data path on a member that may carry traffic, and a prepared update is committed once and as a whole.
\<close>

section \<open>The member a pool falls back to\<close>

lemma balance_loop_range:
  "i = 0 \<and> ms \<noteq> [] \<or> sel < i \<Longrightarrow> balance_loop active i sel minA ms < i + length ms"
proof (induction ms arbitrary: i sel minA)
  case (Cons m ms)
  have "balance_loop active (Suc i) i (active m) ms < Suc i + length ms" by (rule Cons.IH) simp
  moreover have "balance_loop active (Suc i) sel minA ms < Suc i + length ms" if "i \<noteq> 0" by (rule Cons.IH) (use Cons.prems that in auto)
  ultimately show ?case by auto
qed simp

lemma best_latency_range: "best < n \<Longrightarrow> set is \<subseteq> {..<n} \<Longrightarrow> best_latency cfg h cs best is < n"
  by (induction "is" arbitrary: best) auto

lemma members_index_ok:
  assumes snap: "snap = build_snapshot cfg v h members (map ok members)"
  shows "index_ok (candidate_index snap (ps_Members snap)) (snd (ps_Members snap))"
proof -
  obtain content where content: "\<forall>s \<in> {ps_Members snap, ps_tcpMembers snap, ps_udpMembers snap}. snd s = content (fst s)"
    using build_snapshot_arrays [OF snap] by blast
  have tcp: "snd (ps_tcpMembers snap) = snd (ps_Members snap)" if "sameCandidateSlice (ps_Members snap) (ps_tcpMembers snap)"
    using that content by (auto simp: sameCandidateSlice_def)
  have udp: "snd (ps_udpMembers snap) = snd (ps_Members snap)" if "sameCandidateSlice (ps_Members snap) (ps_udpMembers snap)"
    using that content by (auto simp: sameCandidateSlice_def)
  show ?thesis unfolding candidate_index_def
    using build_snapshot_views(4-6) [OF snap] tcp udp own_index_ok by simp metis
qed

lemma selectMember_mem:
  assumes snap: "snap = build_snapshot cfg v h members (map ok members)" and ne: "snd (ps_Members snap) \<noteq> []"
    and sel: "selectMember cfg' h' active random snap (ps_Members snap) dp = (r, dp')"
  shows "r \<in> set (snd (ps_Members snap)) \<and> dp_currentMember dp' = dp_currentMember dp"
proof -
  let ?cs = "snd (ps_Members snap)"
  have fixed: "nextFixedIndex snap (ps_Members snap) c < length ?cs" for c
    using fixed_walk_next(1) [OF members_index_ok [OF snap] ne] ne by (auto simp: nextFixedIndex_def Let_def split: option.split)
  have cur: "current_index snap c ?cs = Some k \<Longrightarrow> k < length ?cs" for c k
    using current_index_Some [of snap _ ?cs k] by (cases c) (auto simp: current_index_def)
  have "i < length ?cs \<and> dp_currentMember d = dp_currentMember dp" if "selectionIndex active random snap (ps_Members snap) dp = (i, d)" for i d
    using that ne fixed cur twoChoice_range [OF ne, of active random] balance_loop_range [of 0 ?cs 0 active 0]
    by (auto simp: selectionIndex_def Let_def split: if_splits option.splits)
  moreover have "best_latency cfg' h' ?cs 0 [1..<length ?cs] < length ?cs" by (rule best_latency_range) (use ne in auto)
  ultimately show ?thesis using sel nth_mem by (fastforce simp: selectMember_def Let_def split: if_splits option.splits prod.splits)
qed

section \<open>What the steps keep\<close>

definition not_started :: "poolOutbound \<Rightarrow> bool" where
  "not_started p \<longleftrightarrow> \<not> po_closed p \<and> po_current p = None"

definition running_ok :: "running_pool \<Rightarrow> bool" where
  "running_ok lv \<longleftrightarrow> pool_ok (lv_pool lv) \<and> (not_started (lv_pool lv) \<longrightarrow> po_topology (lv_pool lv) = []) \<and>
     pc_GroupID (po_cfg (lv_pool lv)) = op_GroupID (lv_options lv) \<and> distinct (op_Members (lv_options lv))"

lemma running_frame:
  assumes "running_ok lv" and "lv_options lv' = lv_options lv" and "pool_ok (lv_pool lv')"
    and "po_cfg (lv_pool lv') = po_cfg (lv_pool lv)" and "not_started (lv_pool lv') \<Longrightarrow> po_topology (lv_pool lv') = []"
  shows "running_ok lv'"
  using assms by (simp add: running_ok_def)

text \<open>Changes of the monitor, of the data path and of the world that leave the members alone.\<close>

lemma outside_running:
  assumes "running_ok lv" and "lv_options lv' = lv_options lv" and "lv_pool lv' = (lv_pool lv)\<lparr>po_monitor := m, po_path := path, po_world := w\<rparr>"
    and "\<And>r. (pw_members w r)\<lparr>mr_latencyMs := 0\<rparr> = (pref (lv_pool lv) r)\<lparr>mr_latencyMs := 0\<rparr>"
  shows "running_ok lv'"
  by (rule running_frame [OF assms(1,2)]) (use assms outside_pool_ok in \<open>auto simp: running_ok_def not_started_def\<close>)

lemma on_group_running: "running_ok lv \<Longrightarrow> running_ok (on_group f lv)"
  by (rule outside_running [where m = "po_monitor (lv_pool lv)" and path = "po_path (lv_pool lv)"
        and w = "(po_world (lv_pool lv))\<lparr>pw_group := f (group_world lv)\<rparr>"]) (auto simp: on_group_def pref_def)

lemma set_current_running: "running_ok lv \<Longrightarrow> running_ok (set_current now c lv)"
  unfolding set_current_def Let_def
  by (rule on_group_running, rule outside_running [where m = "po_monitor (lv_pool lv)" and w = "po_world (lv_pool lv)"
        and path = "(po_path (lv_pool lv))\<lparr>dp_currentMember := c\<rparr>"]) (auto simp: pref_def)

lemma timer_running:
  "running_ok (scheduleCandidateRebuild now lv) = running_ok lv" "running_ok (arm_expiry now d lv) = running_ok lv"
  "lv_pool (scheduleCandidateRebuild now lv) = lv_pool lv" "lv_pool (arm_expiry now d lv) = lv_pool lv"
  "lv_options (arm_expiry now d lv) = lv_options lv"
  by (simp_all add: scheduleCandidateRebuild_def arm_expiry_def scheduleExpiryRebuild_def running_ok_def)

lemma publish_keeps:
  assumes "publish_topology now members p = (snap, p')"
  shows "po_cfg p' = po_cfg p" "po_closed p' = po_closed p" "po_path p' = po_path p" "po_monitor p' = po_monitor p" "po_topology p' = po_topology p"
    "po_world p' = snd (publishSnapshotLocked (po_cfg p) (map_option monitor_view_of (po_monitor p)) now (map_option fst (po_current p)) members (po_world p))"
    "snap = fst (publishSnapshotLocked (po_cfg p) (map_option monitor_view_of (po_monitor p)) now (map_option fst (po_current p)) members (po_world p))"
    "po_current p' = Some (snap, 0)"
  using assms by (auto simp: publish_topology_def Let_def retire_snapshot_def releaseSnapshotMembers_def add_refs_eq
      split: prod.splits option.splits if_splits)

lemma initialize_keeps:
  assumes ok: "pool_ok p" and d: "distinct members" and top: "po_topology p = []"
    and st: "initializeMembersLocked outb identity now members preferred selector p = (res, p')"
  shows "pool_ok p' \<and> po_cfg p' = po_cfg p \<and> po_closed p' = po_closed p \<and> (res = None \<longrightarrow> po_current p' \<noteq> None) \<and> (po_current p' = None \<longrightarrow> po_topology p' = [])"
proof -
  have tab: "table_ok p" using ok by (simp add: pool_ok_def)
  obtain cres p1 where c: "cold_members outb identity members p = (cres, p1)" by fastforce
  have g: "po_cfg p1 = po_cfg p" "po_closed p1 = po_closed p" "po_topology p1 = po_topology p"
    using cold_members_ok [OF tab d c] by (simp_all add: grown_def)
  have "po_cfg p' = po_cfg p \<and> po_closed p' = po_closed p \<and> (res = None \<longrightarrow> po_current p' \<noteq> None) \<and> (po_current p' = None \<longrightarrow> po_topology p' = [])"
  proof (cases "po_current p = None")
    case True
    show ?thesis
    proof (cases "\<exists>rs. cres = Inr rs \<and> selector = None")
      case False
      then have "p' = p1" "res \<noteq> None" using st True c by (auto simp: initializeMembersLocked_def split: sum.splits option.splits)
      then show ?thesis using g top by auto
    next
      case t: True
      then obtain rs where rs: "cres = Inr rs" "selector = None" by blast
      obtain q snap where pub: "publish_topology now rs q = (snap, p')" and q: "po_cfg q = po_cfg p" "po_closed q = po_closed p"
      proof -
        let ?q = "p1\<lparr>po_topology := rs, po_topologyByTag := fold (\<lambda>r. aput (mr_tag (pref p1 r)) r) rs [],
                          po_path := (po_path p1)\<lparr>dp_currentMember :=
                            (case filter (\<lambda>r. mr_tag (pref p1 r) = preferred) rs of [] \<Rightarrow> dp_currentMember (po_path p1) | ms \<Rightarrow> Some (last ms))\<rparr>\<rparr>"
        have "p' = snd (publish_topology now rs ?q)" using st True c rs by (auto simp: initializeMembersLocked_def Let_def)
        then show thesis using that [of ?q "fst (publish_topology now rs ?q)"] g by (simp add: prod_eq_iff)
      qed
      then show ?thesis using publish_keeps [OF pub] by simp
    qed
  qed (use st top in \<open>auto simp: initializeMembersLocked_def\<close>)
  then show ?thesis using initialize_ok [OF ok top d st] by blast
qed

lemma load_running:
  assumes ok: "running_ok lv" and l: "load env lv = (res, lv')"
  shows "running_ok lv' \<and> lv_options lv' = lv_options lv \<and> po_closed (lv_pool lv') = po_closed (lv_pool lv)"
    and "\<not> po_closed (lv_pool lv) \<Longrightarrow> po_current (lv_pool lv) = Some sn \<Longrightarrow> res = Inr (fst sn) \<and> lv' = lv"
proof -
  let ?p = "lv_pool lv" and ?opt = "lv_options lv"
  show "running_ok lv' \<and> lv_options lv' = lv_options lv \<and> po_closed (lv_pool lv') = po_closed (lv_pool lv)"
  proof (cases "not_started ?p")
    case False
    then have "lv_pool lv' = ?p" "lv_options lv' = ?opt" using l by (auto simp: load_def loadSnapshot_def not_started_def split: if_splits)
    then show ?thesis using ok by (simp add: running_ok_def)
  next
    case True
    obtain e p1 where i: "initializeMembersLocked (pe_manager env) (pe_identity env) (pe_now env) (op_Members ?opt) (op_PreferredMember ?opt)
        (pe_selectorError env) ?p = (e, p1)" by fastforce
    have "lv' = lv\<lparr>lv_pool := p1\<rparr>" using l True i by (auto simp: load_def loadSnapshot_def not_started_def split: option.splits)
    moreover have "pool_ok p1 \<and> po_cfg p1 = po_cfg ?p \<and> po_closed p1 = po_closed ?p \<and> (po_current p1 = None \<longrightarrow> po_topology p1 = [])"
      using initialize_keeps [OF _ _ _ i] ok True by (auto simp: running_ok_def)
    ultimately show ?thesis using ok by (auto simp: running_ok_def not_started_def)
  qed
  show "res = Inr (fst sn) \<and> lv' = lv" if "\<not> po_closed ?p" "po_current ?p = Some sn"
    using l that by (auto simp: load_def loadSnapshot_def)
qed

lemma wait_running: "running_ok (lv\<lparr>lv_waitForInitialLatency := b\<rparr>) = running_ok lv"
  by (simp add: running_ok_def)

lemma path_running: "running_ok lv \<Longrightarrow> running_ok (lv\<lparr>lv_pool := (lv_pool lv)\<lparr>po_path := path\<rparr>\<rparr>)"
  by (rule outside_running [where m = "po_monitor (lv_pool lv)" and w = "po_world (lv_pool lv)" and path = path]) (auto simp: pref_def)

lemma set_current_frame:
  "lv_options (set_current now c lv) = lv_options lv" "po_closed (lv_pool (set_current now c lv)) = po_closed (lv_pool lv)"
  by (simp_all add: set_current_def on_group_def Let_def)

lemma reconcileCurrent_running:
  assumes "running_ok lv"
  shows "running_ok (reconcileCurrent env lv) \<and> lv_options (reconcileCurrent env lv) = lv_options lv"
proof -
  obtain res lv1 where l: "load env lv = (res, lv1)" by fastforce
  note ok = load_running(1) [OF assms l]
  have p: "running_ok (lv1\<lparr>lv_waitForInitialLatency := False, lv_pool := (lv_pool lv1)\<lparr>po_path := path\<rparr>\<rparr>)" for path
    using path_running [of "lv1\<lparr>lv_waitForInitialLatency := False\<rparr>" path] ok by (simp add: wait_running)
  show ?thesis using ok p
    by (cases res) (auto simp: reconcileCurrent_def l Let_def wait_running set_current_frame split: prod.split option.split
        intro!: set_current_running)
qed

lemma rebuild_running:
  assumes ok: "running_ok lv"
  shows "running_ok (rebuild now lv)"
proof (cases "po_closed (lv_pool lv) \<or> po_topology (lv_pool lv) = []")
  case False
  obtain snap p' where pub: "publish_topology now (po_topology (lv_pool lv)) (lv_pool lv) = (snap, p')" by fastforce
  have e: "rebuild now lv = lv\<lparr>lv_pool := p'\<rparr>" using False by (simp add: rebuild_def rebuildCandidatesNow_def pub)
  have "pool_ok p'" using publish_ok [of "lv_pool lv" now] ok by (simp add: pub running_ok_def)
  then show ?thesis unfolding e by (intro running_frame [OF ok]) (use publish_keeps [OF pub] in \<open>auto simp: not_started_def\<close>)
qed (use ok in \<open>auto simp: rebuild_def rebuildCandidatesNow_def\<close>)

lemma rebuild_frame: "lv_options (rebuild now lv) = lv_options lv"
  by (simp add: rebuild_def)

lemma handleGroupState_running:
  assumes ok: "running_ok lv"
  shows "running_ok (handleGroupState env ev lv)"
proof (cases "ev_GroupID ev \<noteq> op_GroupID (lv_options lv) \<or> po_closed (lv_pool lv)")
  case False
  define lv1 where "lv1 = (if ev_CurrentChanged ev then lv\<lparr>lv_pool := (lv_pool lv)\<lparr>po_path := (po_path (lv_pool lv))\<lparr>dp_currentMember :=
    (if ev_CurrentNodeID ev = 0 then None else member_of_node (lv_pool lv) (ev_CurrentNodeID ev))\<rparr>\<rparr>\<rparr> else lv)"
  define lv2 where "lv2 = (if ev_StateChanged ev then if ev_Recovered ev then scheduleCandidateRebuild (pe_now env) lv1 else rebuild (pe_now env) lv1 else lv1)"
  have "running_ok lv1" using ok by (simp add: lv1_def path_running)
  then have "running_ok lv2" by (simp add: lv2_def timer_running rebuild_running)
  moreover have "handleGroupState env ev lv = (if ev_CurrentChanged ev then reconcileCurrent env lv2 else lv2)"
    using False by (simp add: handleGroupState_def Let_def lv1_def lv2_def)
  ultimately show ?thesis by (simp add: reconcileCurrent_running)
qed (use ok in \<open>auto simp: handleGroupState_def\<close>)

lemma store_latency_running: "running_ok lv \<Longrightarrow> running_ok (lv\<lparr>lv_pool := store_latency tag ms (lv_pool lv)\<rparr>)"
proof (cases "map_of (po_topologyByTag (lv_pool lv)) tag")
  case (Some r)
  assume ok: "running_ok lv"
  show ?thesis
    by (rule outside_running [OF ok, where m = "po_monitor (lv_pool lv)" and path = "po_path (lv_pool lv)"
          and w = "(po_world (lv_pool lv))\<lparr>pw_members := (pw_members (po_world (lv_pool lv)))(r := (pref (lv_pool lv) r)\<lparr>mr_latencyMs := ms\<rparr>)\<rparr>"])
      (auto simp: store_latency_def Some pref_def)
qed (simp add: store_latency_def)

lemma on_group_frame:
  "lv_options (on_group f lv) = lv_options lv" "po_closed (lv_pool (on_group f lv)) = po_closed (lv_pool lv)"
  "po_topology (lv_pool (on_group f lv)) = po_topology (lv_pool lv)" "po_cfg (lv_pool (on_group f lv)) = po_cfg (lv_pool lv)"
  "po_current (lv_pool (on_group f lv)) = po_current (lv_pool lv)" "pref (lv_pool (on_group f lv)) = pref (lv_pool lv)"
  "group_world (on_group f lv) = f (group_world lv)" "po_path (lv_pool (on_group f lv)) = po_path (lv_pool lv)"
  "po_monitor (lv_pool (on_group f lv)) = po_monitor (lv_pool lv)"
  by (simp_all add: on_group_def group_world_def pref_def fun_eq_iff)

lemma reconcileCurrent_open:
  assumes "running_ok lv" and "\<not> po_closed (lv_pool lv)" and "po_topology (lv_pool lv) \<noteq> []"
  shows "\<not> po_closed (lv_pool (reconcileCurrent env lv)) \<and> po_topology (lv_pool (reconcileCurrent env lv)) = po_topology (lv_pool lv)"
proof -
  obtain sn where sn: "po_current (lv_pool lv) = Some sn" using assms by (auto simp: running_ok_def not_started_def)
  obtain res lv1 where l: "load env lv = (res, lv1)" by fastforce
  have l1: "res = Inr (fst sn)" "lv1 = lv" using load_running(2) [OF assms(1) l assms(2) sn] by auto
  have top: "po_topology (lv_pool (set_current now c v)) = po_topology (lv_pool v)" for now c v
    by (simp add: set_current_def on_group_def Let_def)
  show ?thesis
    using assms(2) by (auto simp: reconcileCurrent_def l l1 Let_def set_current_frame top split: prod.split option.split)
qed

lemma rebuild_open:
  "po_closed (lv_pool (rebuild now lv)) = po_closed (lv_pool lv)" "po_topology (lv_pool (rebuild now lv)) = po_topology (lv_pool lv)"
proof -
  obtain snap p' where pub: "publish_topology now (po_topology (lv_pool lv)) (lv_pool lv) = (snap, p')" by fastforce
  show "po_closed (lv_pool (rebuild now lv)) = po_closed (lv_pool lv)" "po_topology (lv_pool (rebuild now lv)) = po_topology (lv_pool lv)"
    using publish_keeps [OF pub] by (auto simp: rebuild_def rebuildCandidatesNow_def pub)
qed

lemma handleGroupState_open:
  assumes ok: "running_ok lv" and opn: "\<not> po_closed (lv_pool lv)" and top: "po_topology (lv_pool lv) \<noteq> []"
  shows "\<not> po_closed (lv_pool (handleGroupState env ev lv)) \<and> po_topology (lv_pool (handleGroupState env ev lv)) = po_topology (lv_pool lv) \<and>
    lv_options (handleGroupState env ev lv) = lv_options lv"
proof (cases "ev_GroupID ev \<noteq> op_GroupID (lv_options lv)")
  case False
  define lv1 where "lv1 = (if ev_CurrentChanged ev then lv\<lparr>lv_pool := (lv_pool lv)\<lparr>po_path := (po_path (lv_pool lv))\<lparr>dp_currentMember :=
    (if ev_CurrentNodeID ev = 0 then None else member_of_node (lv_pool lv) (ev_CurrentNodeID ev))\<rparr>\<rparr>\<rparr> else lv)"
  define lv2 where "lv2 = (if ev_StateChanged ev then if ev_Recovered ev then scheduleCandidateRebuild (pe_now env) lv1 else rebuild (pe_now env) lv1 else lv1)"
  have one: "running_ok lv1" "\<not> po_closed (lv_pool lv1)" "po_topology (lv_pool lv1) = po_topology (lv_pool lv)" "lv_options lv1 = lv_options lv"
    using ok opn by (simp_all add: lv1_def path_running)
  have two: "running_ok lv2" "\<not> po_closed (lv_pool lv2)" "po_topology (lv_pool lv2) = po_topology (lv_pool lv)" "lv_options lv2 = lv_options lv"
    using one by (simp_all add: lv2_def timer_running rebuild_running rebuild_open rebuild_frame scheduleCandidateRebuild_def
        running_ok_def [of "lv1\<lparr>lv_rebuildTimer := t\<rparr>" for t] running_ok_def [of lv1])
  have "handleGroupState env ev lv = (if ev_CurrentChanged ev then reconcileCurrent env lv2 else lv2)"
    using False opn by (simp add: handleGroupState_def Let_def lv1_def lv2_def)
  then show ?thesis
    using two reconcileCurrent_open [OF two(1,2), of env] reconcileCurrent_running [OF two(1), of env] top by simp
qed (use opn in \<open>simp add: handleGroupState_def\<close>)

lemma handlers_running: "running_ok lv \<Longrightarrow> running_ok (fold (handleGroupState env) es lv)"
  by (induction es arbitrary: lv) (simp_all add: handleGroupState_running)

lemma handlers_open:
  assumes "running_ok lv" and "\<not> po_closed (lv_pool lv)" and "po_topology (lv_pool lv) \<noteq> []"
  shows "\<not> po_closed (lv_pool (fold (handleGroupState env) es lv)) \<and>
    po_topology (lv_pool (fold (handleGroupState env) es lv)) = po_topology (lv_pool lv) \<and>
    lv_options (fold (handleGroupState env) es lv) = lv_options lv"
  using assms
proof (induction es arbitrary: lv)
  case (Cons e es)
  from Cons.IH [of "handleGroupState env e lv"] handleGroupState_open [OF Cons.prems] handleGroupState_running [OF Cons.prems(1)]
  show ?case using Cons.prems by simp
qed simp

lemma record_health_running:
  assumes "running_ok lv" and "record_health env ev tag lv = (states, lv1)"
  shows "running_ok lv1"
  using assms on_group_running [OF assms(1)]
  by (auto simp: record_health_def Let_def timer_running call_group_def handlers_running split: if_splits)

lemma record_health_open:
  assumes "running_ok lv" "\<not> po_closed (lv_pool lv)" "po_topology (lv_pool lv) \<noteq> []"
    and "record_health env ev tag lv = (states, lv1)"
  shows "\<not> po_closed (lv_pool lv1) \<and> po_topology (lv_pool lv1) = po_topology (lv_pool lv) \<and> lv_options lv1 = lv_options lv"
proof -
  have "\<not> po_closed (lv_pool (call_group env f lv)) \<and> po_topology (lv_pool (call_group env f lv)) = po_topology (lv_pool lv) \<and>
      lv_options (call_group env f lv) = lv_options lv" for f
    using handlers_open [OF on_group_running [OF assms(1)], of f env] assms(2,3) by (simp add: call_group_def on_group_frame)
  then show ?thesis using assms(2,4) by (auto simp: record_health_def Let_def timer_running split: if_splits)
qed

lemma handleHealthResult_running:
  assumes ok: "running_ok lv"
  shows "running_ok (snd (handleHealthResult env ev lv))"
proof -
  obtain states lv1 where r: "record_health env ev (event_tag ev lv) lv = (states, lv1)" by fastforce
  have "running_ok lv1" by (rule record_health_running [OF ok r])
  then show ?thesis
    using ok by (simp add: handleHealthResult_def Let_def r timer_running store_latency_running rebuildAndReconcileCandidatesNow_def
        reconcileCurrent_running rebuild_running)
qed

lemma activate_running:
  assumes ok: "running_ok lv"
  shows "running_ok (snd (activateNodeID env n lv))"
proof -
  obtain res lv1 where l: "load env lv = (res, lv1)" by fastforce
  then have "running_ok lv1" using load_running(1) [OF ok] by blast
  then show ?thesis
    by (cases res) (auto simp: activateNodeID_def l Let_def wait_running split: option.split intro!: set_current_running)
qed

lemma reschedule_frame:
  "lv_options (reschedule u lv) = lv_options lv" "po_closed (lv_pool (reschedule u lv)) = po_closed (lv_pool lv)"
  "po_current (lv_pool (reschedule u lv)) = po_current (lv_pool lv)" "po_world (lv_pool (reschedule u lv)) = po_world (lv_pool lv)"
  "po_topology (lv_pool (reschedule u lv)) = po_topology (lv_pool lv)" "po_cfg (lv_pool (reschedule u lv)) = po_cfg (lv_pool lv)"
  by (auto simp: reschedule_def Let_def split: option.split prod.split)

lemma reschedule_running: "running_ok lv \<Longrightarrow> running_ok (reschedule u lv)"
proof -
  assume ok: "running_ok lv"
  define m where "m = po_monitor (lv_pool (reschedule u lv))"
  have m: "lv_pool (reschedule u lv) = (lv_pool lv)\<lparr>po_monitor := m\<rparr>"
    unfolding m_def by (auto simp: reschedule_def Let_def split: option.split prod.split)
  show ?thesis
    by (rule outside_running [OF ok, where m = m and path = "po_path (lv_pool lv)" and w = "po_world (lv_pool lv)"])
      (auto simp: m reschedule_frame pref_def)
qed

lemma apply_policy_like: "policy_like (apply_policy now u opt)"
  unfolding policy_like_def apply_policy_def by blast

text \<open>Installing members changes neither the configuration, nor the data path, nor the group.\<close>

definition same_policy :: "poolOutbound \<Rightarrow> poolOutbound \<Rightarrow> bool" where
  "same_policy p p' \<longleftrightarrow> po_cfg p' = po_cfg p \<and> po_path p' = po_path p \<and> pw_group (po_world p') = pw_group (po_world p) \<and>
     po_closed p' = po_closed p"

lemma same_policy_trans: "same_policy p q \<Longrightarrow> same_policy q u \<Longrightarrow> same_policy p u"
  by (simp add: same_policy_def)

lemma attach_policy: "same_policy p (attachMonitorMember identity r p)"
  by (auto simp: same_policy_def attachMonitorMember_def Let_def split: option.splits prod.splits)

lemma new_ref_policy: "new_ref member x e p = (r, p') \<Longrightarrow> same_policy p p'"
  by (auto simp: same_policy_def new_ref_def Let_def)

lemma runtime_policy: "runtime_for tag d a p = (x, p') \<Longrightarrow> same_policy p p'"
  by (auto simp: same_policy_def runtime_for_def fresh_runtime_def Let_def split: option.splits prod.splits if_splits)

lemma new_member_policy:
  assumes "new_member identity spec d p = (r, p')"
  shows "same_policy p p'"
proof -
  obtain tag meta where spec: "spec = (tag, meta)" by fastforce
  obtain a ss where a: "acquireSharedState tag (pw_shared (po_world p)) = (a, ss)" by fastforce
  obtain x p1 where x: "runtime_for tag d a (p\<lparr>po_world := (po_world p)\<lparr>pw_shared := ss\<rparr>\<rparr>) = (x, p1)" by fastforce
  define p2 where "p2 = on_runtime x (\<lambda>t. t\<lparr>rt_retired := False\<rparr>) p1"
  obtain r3 p3 where n: "new_ref \<lparr>mr_outbound = Some d, mr_tag = tag, mr_shared = Some a, mr_meta = meta, mr_latencyMs = -1\<rparr> x
      (sh_entry (ss_heap (pw_shared (po_world p2)) a)) p2 = (r3, p3)" by fastforce
  have "same_policy p p1" using runtime_policy [OF x] by (simp add: same_policy_def)
  moreover have "same_policy p1 p2" by (simp add: p2_def on_runtime_def same_policy_def)
  ultimately have "same_policy p p3" using new_ref_policy [OF n] same_policy_trans by blast
  moreover have "p' = attachMonitorMember identity r3 p3" using assms by (auto simp: new_member_def spec a x p2_def [symmetric] n)
  ultimately show ?thesis using attach_policy same_policy_trans by blast
qed

lemma install_member_policy:
  assumes "install_member identity sd p = (r, p')"
  shows "same_policy p p'"
proof -
  obtain tag meta d where sd: "sd = ((tag, meta), d)" by (metis surj_pair)
  have refl: "same_policy p p" by (simp add: same_policy_def)
  have "same_policy p (attachMonitorMember identity r1 p1)" if "new_ref m x e p = (r1, p1)" for m x e r1 p1
    using new_ref_policy [OF that] attach_policy same_policy_trans by blast
  then show ?thesis using assms new_member_policy refl
    by (auto simp: install_member_def sd split: option.splits if_splits prod.splits)
qed

lemma install_members_policy: "install_members identity sds p = (rs, p') \<Longrightarrow> same_policy p p'"
proof (induction identity sds p arbitrary: rs p' rule: install_members.induct)
  case (2 identity sd sds p)
  obtain r p1 where i: "install_member identity sd p = (r, p1)" by fastforce
  obtain rs1 p2 where j: "install_members identity sds p1 = (rs1, p2)" by fastforce
  have "p' = p2" using 2(2) by (simp add: i j)
  then show ?case using install_member_policy [OF i] 2(1) [OF i [symmetric] refl j] same_policy_trans by blast
qed (simp add: same_policy_def)

lemma reconcile_cfg:
  assumes "reconcileMembersWithPolicyLocked outb identity now specs f p = (Inr vr, p')"
  obtains q snap where "publish_topology now (po_topology q) q = (snap, p')" "po_cfg q = po_cfg (f p)" "pw_group (po_world q) = pw_group (po_world (f p))"
    "\<exists>c. po_path q = (po_path (f p))\<lparr>dp_currentMember := c\<rparr>" "po_closed q = po_closed (f p)"
proof -
  have opn: "\<not> po_closed p" using assms by (auto simp: reconcileMembersWithPolicyLocked_def)
  then obtain sds where sds: "resolve_members outb [] specs = Inr sds"
    using assms by (cases "resolve_members outb [] specs") (auto simp: reconcileMembersWithPolicyLocked_def)
  let ?ret = "filter (\<lambda>r. mr_tag (pref p r) \<notin> fst ` set specs) (po_topology p)"
  obtain new p1 where ins: "install_members identity sds (f p) = (new, p1)" by fastforce
  define q where "q = p1\<lparr>po_topology := new, po_topologyByTag := map (\<lambda>r. (mr_tag (pref p1 r), r)) new\<rparr>"
  obtain sub where sub: "refreshHealthSubscriptionLocked q = q\<lparr>po_subscription := sub\<rparr>" using refresh_frame by blast
  define c where "c = (case dp_currentMember (po_path p) of None \<Rightarrow> None | Some c \<Rightarrow> next_current (po_topology p) new c (q\<lparr>po_subscription := sub\<rparr>))"
  have e: "reconcileMembersWithPolicyLocked outb identity now specs f p =
      (let p3 = retire_refs ?ret (q\<lparr>po_subscription := sub, po_path := (po_path q)\<lparr>dp_currentMember := c\<rparr>\<rparr>); (snap, p4) = publish_topology now new p3
       in (Inr (ps_Version snap, ?ret), p4))"
    using opn sds ins sub
    by (cases "dp_currentMember (po_path p)") (simp_all add: reconcileMembersWithPolicyLocked_def Let_def q_def [symmetric] c_def)
  define p3 where "p3 = retire_refs ?ret (q\<lparr>po_subscription := sub, po_path := (po_path q)\<lparr>dp_currentMember := c\<rparr>\<rparr>)"
  obtain snap p4 where pub: "publish_topology now new p3 = (snap, p4)" by fastforce
  have "reconcileMembersWithPolicyLocked outb identity now specs f p = (Inr (ps_Version snap, ?ret), p4)"
    unfolding e p3_def [symmetric] Let_def by (simp add: pub)
  then have "p' = p4" using assms by simp
  moreover have "po_topology p3 = new" by (simp add: p3_def retire_refs_eq q_def)
  ultimately show thesis using that [of p3 snap] pub install_members_policy [OF ins] by (auto simp: p3_def retire_refs_eq q_def same_policy_def)
qed

lemma Commit_ok:
  assumes ok: "running_ok lv" and c: "Commit env pp lv = (res, pp', lv')"
  shows "running_ok lv'"
proof (cases "pp_rolledBack pp \<or> pp_committed pp \<or> po_closed (lv_pool lv)")
  case True
  then have "lv' = lv" using c by (auto simp: Commit_def Let_def split: if_splits)
  then show ?thesis using ok by simp
next
  case False
  define u where "u = pp_update pp"
  define opt where "opt = lv_options lv"
  obtain rres p1 where rec: "reconcileMembersWithPolicyLocked (pe_manager env) (pe_identity env) (pe_now env) (pu_Members u)
      (apply_policy (pe_now env) u opt) (lv_pool lv) = (rres, p1)" by fastforce
  show ?thesis
  proof (cases rres)
    case (Inl e)
    then show ?thesis using c False ok rec by (simp add: Commit_def Let_def u_def opt_def)
  next
    case (Inr vr)
    obtain version retired where vr: "vr = (version, retired)" by fastforce
    define lv1 where "lv1 = lv\<lparr>lv_pool := p1, lv_options := (update_options u opt)\<lparr>op_Members := map fst (pu_Members u)\<rparr>,
        lv_failureThreshold := pu_FailureThreshold u, lv_failureWindowNanos := pu_FailureWindow u\<rparr>"
    have l': "lv' = reconcileCurrent env (on_group (NotifyEvents (pe_now env) (fst (ReconcileSilent (op_GroupID opt) (group_update u opt) (pe_now env)
        (pw_group (po_world (lv_pool lv)))))) (reschedule u lv1))"
      using c False rec unfolding Inr vr by (simp add: Commit_def Let_def u_def opt_def lv1_def)
    have po: "pool_ok p1 \<and> (\<exists>sds. resolve_members (pe_manager env) [] (pu_Members u) = Inr sds) \<and> po_current p1 \<noteq> None"
      using reconcile_ok [OF _ apply_policy_like rec] ok by (auto simp: Inr running_ok_def)
    then have d: "distinct (map fst (pu_Members u))" using resolve_total by blast
    have "pc_GroupID (po_cfg p1) = op_GroupID opt"
    proof -
      obtain q snap where pub: "publish_topology (pe_now env) (po_topology q) q = (snap, p1)"
        and q: "po_cfg q = po_cfg (apply_policy (pe_now env) u opt (lv_pool lv))"
        by (rule reconcile_cfg [OF rec [unfolded Inr]]) blast
      then show ?thesis using publish_keeps(1) [OF pub] ok by (simp add: apply_policy_def running_ok_def opt_def)
    qed
    then have "running_ok lv1" using po d by (auto simp: lv1_def running_ok_def not_started_def update_options_def)
    then show ?thesis unfolding l' by (simp add: reconcileCurrent_running on_group_running reschedule_running)
  qed
qed

section \<open>Runs of a pool\<close>

lemma subscription_ok: "pool_ok p \<Longrightarrow> pool_ok (p\<lparr>po_subscription := s\<rparr>)"
proof -
  assume ok: "pool_ok p"
  have lr: "live_refs (p\<lparr>po_subscription := s\<rparr>) = live_refs p" by (simp add: live_refs_def live_def)
  show ?thesis
  proof (rule same_members_ok [OF ok])
    show "same_members p (p\<lparr>po_subscription := s\<rparr>)" by (simp add: same_members_def member_tag_def pref_def fun_eq_iff)
    show "refs_ok (p\<lparr>po_subscription := s\<rparr>)" using ok by (simp add: pool_ok_def refs_ok_def lr)
  qed (simp add: lr)
qed

lemma subscription_running: "running_ok lv \<Longrightarrow> running_ok (lv\<lparr>lv_pool := (lv_pool lv)\<lparr>po_subscription := s\<rparr>\<rparr>)"
  using subscription_ok by (simp add: running_ok_def not_started_def)

lemma Start_running:
  assumes ok: "running_ok lv" and opn: "\<not> po_closed (lv_pool lv)"
  shows "running_ok (snd (Start env handler lv))"
proof -
  let ?p = "lv_pool lv" and ?opt = "lv_options lv"
  obtain err p where i: "initializeMembersLocked (pe_manager env) (pe_identity env) (pe_now env) (op_Members ?opt) (op_PreferredMember ?opt)
      (pe_selectorError env) ?p = (err, p)" by fastforce
  have "running_ok (lv\<lparr>lv_pool := p\<rparr>)"
  proof (cases "po_current ?p = None")
    case True
    then have "po_topology ?p = []" using ok opn by (simp add: running_ok_def not_started_def)
    then show ?thesis using initialize_keeps [OF _ _ _ i] ok by (auto simp: running_ok_def not_started_def)
  next
    case False
    then have "p = ?p" using i by (auto simp: initializeMembersLocked_def)
    then show ?thesis using ok by simp
  qed
  moreover obtain sub where sub: "refreshHealthSubscriptionLocked p = p\<lparr>po_subscription := sub\<rparr>" using refresh_frame by blast
  ultimately have r1: "running_ok (lv\<lparr>lv_pool := refreshHealthSubscriptionLocked p\<rparr>)" "running_ok (lv\<lparr>lv_pool := p\<rparr>)"
    using subscription_running [of "lv\<lparr>lv_pool := p\<rparr>" sub] by simp_all
  have r2: "running_ok (lv\<lparr>lv_unregisterSchedule := token, lv_pool := (refreshHealthSubscriptionLocked p)\<lparr>po_monitor := m\<rparr>\<rparr>)" for token m
    by (rule outside_running [OF r1(1), where m = m and path = "po_path p" and w = "po_world p"]) (auto simp: sub pref_def)
  have "running_ok (lv'\<lparr>lv_unsubscribeActivation := a, lv_unsubscribeGroupState := s\<rparr>)" if "running_ok lv'" for lv' a s
    using that by (simp add: running_ok_def)
  then show ?thesis using r1 r2
    by (auto simp: Start_def i Let_def reconcileCurrent_running on_group_running split: option.split prod.split)
qed

lemma newPool_running:
  assumes "newPool env networks options mon w = Inr lv" and "distinct (op_Members options)"
  shows "running_ok lv"
proof -
  have n: "op_GroupID (normalizeOptions options) = op_GroupID options" "op_Members (normalizeOptions options) = op_Members options"
    by (simp_all add: normalizeOptions_def Let_def split: prod.split)
  obtain cfg m w' path where p: "lv_pool lv = new_pool cfg m w' path" "pc_GroupID cfg = op_GroupID (lv_options lv)"
    and opt: "lv_options lv = normalizeOptions options"
    using assms(1) by (auto simp: newPool_def Let_def split: if_splits prod.splits)
  show ?thesis using assms(2) new_pool_ok [of cfg m w' path] p(2) by (simp add: running_ok_def p(1) opt n new_pool_def)
qed

lemma Close_pool_running:
  assumes ok: "running_ok lv"
  shows "running_ok (Close_pool lv)"
proof (cases "po_closed (lv_pool lv)")
  case False
  define lv1 where "lv1 = lv\<lparr>lv_rebuildTimer := None, lv_expiryTimer := None, lv_pool := Close (lv_pool lv)\<rparr>"
  have cl: "po_closed (Close p) \<and> po_cfg (Close p) = po_cfg p" if "\<not> po_closed p" for p
  proof -
    have f: "po_closed (fold (\<lambda>(tag, x). release_runtime tag x) xs q) = po_closed q \<and> po_cfg (fold (\<lambda>(tag, x). release_runtime tag x) xs q) = po_cfg q" for xs q
      by (induction xs arbitrary: q) (auto simp: release_runtime_def Let_def split: prod.split)
    show ?thesis using that f by (simp add: Close_def Let_def retire_snapshot_def releaseSnapshotMembers_def add_refs_eq split: option.split)
  qed
  have "pool_ok (Close (lv_pool lv))" using ok Close_ok by (simp add: running_ok_def)
  then have "running_ok lv1" using ok cl [OF False] by (simp add: running_ok_def lv1_def not_started_def)
  moreover have "running_ok (unregister_monitor l)" if "running_ok l" for l
  proof -
    have "running_ok (l\<lparr>lv_pool := (lv_pool l)\<lparr>po_subscription := None\<rparr>\<rparr>)" by (rule subscription_running [OF that])
    then show ?thesis
      by (rule outside_running [where path = "po_path (lv_pool l)" and w = "po_world (lv_pool l)" and
            m = "map_option (unregister_schedule (op_GroupID (lv_options l)) (lv_unregisterSchedule l)) (po_monitor (lv_pool l))"])
        (auto simp: unregister_monitor_def pref_def)
  qed
  ultimately show ?thesis using False unfolding Close_pool_def Let_def lv1_def [symmetric] by (auto simp: on_group_running split: option.split)
qed (use ok in \<open>simp add: Close_pool_def\<close>)

text \<open>What happens to a pool between its creation and its end. Dials pin and release snapshots and count operations; what they
  do to the world outside, to the monitor and to the data path is in \<open>outside_pool\<close>.\<close>

inductive life_step :: "running_pool \<Rightarrow> running_pool \<Rightarrow> bool" where
  starts: "\<not> po_closed (lv_pool lv) \<Longrightarrow> life_step lv (snd (Start env handler lv))"
| commits: "Commit env pp lv = (res, pp', lv') \<Longrightarrow> life_step lv lv'"
| installs: "life_step lv (lv\<lparr>lv_pool := snd (ReconcileMembers outb identity now specs (lv_pool lv))\<rparr>)"
| group_event: "life_step lv (handleGroupState env ev lv)"
| health_event: "life_step lv (snd (handleHealthResult env ev lv))"
| rebuild_timer: "life_step lv (rebuildAndReconcileCandidatesNow env lv)"
| expiry_timer: "life_step lv (rebuild now lv)"
| activates: "life_step lv (snd (activateNodeID env n lv))"
| pins: "life_step lv (lv\<lparr>lv_pool := snd (acquireSnapshot outb identity now (op_Members (lv_options lv)) (op_PreferredMember (lv_options lv)) sel (lv_pool lv))\<rparr>)"
| unpins: "life_step lv (lv\<lparr>lv_pool := releaseSnapshotReader v (lv_pool lv)\<rparr>)"
| begins: "life_step lv (lv\<lparr>lv_pool := snd (acquireOperation r (lv_pool lv))\<rparr>)"
| ends: "life_step lv (lv\<lparr>lv_pool := releaseOperation r (lv_pool lv)\<rparr>)"
| releases: "rt_retired (po_runtimes (lv_pool lv) (po_runtimeOf (lv_pool lv) r)) \<Longrightarrow> RetiredMember_Drained r (lv_pool lv) \<Longrightarrow>
    life_step lv (lv\<lparr>lv_pool := ReleaseState r (lv_pool lv)\<rparr>)"
| outside_pool: "\<forall>r. (pw_members w r)\<lparr>mr_latencyMs := 0\<rparr> = (pref (lv_pool lv) r)\<lparr>mr_latencyMs := 0\<rparr> \<Longrightarrow>
    life_step lv (lv\<lparr>lv_pool := (lv_pool lv)\<lparr>po_monitor := m, po_path := path, po_world := w\<rparr>\<rparr>)"
| closes: "life_step lv (Close_pool lv)"

lemma acquire_running:
  assumes ok: "running_ok lv"
  shows "running_ok (lv\<lparr>lv_pool := snd (acquireSnapshot outb identity now (op_Members (lv_options lv)) (op_PreferredMember (lv_options lv)) sel (lv_pool lv))\<rparr>)"
proof -
  let ?p = "lv_pool lv" and ?acq = "acquireSnapshot outb identity now (op_Members (lv_options lv)) (op_PreferredMember (lv_options lv)) sel (lv_pool lv)"
  have "po_closed ?p \<or> po_current ?p \<noteq> None \<or> po_topology ?p = []" using ok unfolding running_ok_def not_started_def by metis
  with ok have "pool_ok (snd ?acq)" by (intro acquire_ok) (simp_all add: running_ok_def)
  moreover have "po_cfg (snd ?acq) = po_cfg ?p \<and> (not_started (snd ?acq) \<longrightarrow> po_topology (snd ?acq) = [])"
  proof (cases "not_started ?p")
    case True
    obtain e q where i: "initializeMembersLocked outb identity now (op_Members (lv_options lv)) (op_PreferredMember (lv_options lv)) sel ?p = (e, q)" by fastforce
    have "po_cfg q = po_cfg ?p \<and> (po_current q = None \<longrightarrow> po_topology q = [])"
      using initialize_keeps [OF _ _ _ i] ok True by (auto simp: running_ok_def)
    moreover have "po_cfg (snd ?acq) = po_cfg q \<and> po_topology (snd ?acq) = po_topology q \<and> (po_current (snd ?acq) = None \<longleftrightarrow> po_current q = None)"
      using True i by (auto simp: acquireSnapshot_def loadSnapshot_def not_started_def split: option.split)
    ultimately show ?thesis by (auto simp: not_started_def)
  next
    case False
    have "po_cfg (snd ?acq) = po_cfg ?p \<and> \<not> not_started (snd ?acq)"
      using False by (auto simp: acquireSnapshot_def loadSnapshot_def not_started_def split: option.splits)
    then show ?thesis by blast
  qed
  ultimately show ?thesis using ok by (simp add: running_ok_def)
qed

lemma installs_running:
  assumes ok: "running_ok lv"
  shows "running_ok (lv\<lparr>lv_pool := snd (ReconcileMembers outb identity now specs (lv_pool lv))\<rparr>)"
proof -
  obtain res p1 where rec: "reconcileMembersWithPolicyLocked outb identity now specs id (lv_pool lv) = (res, p1)" by fastforce
  note o = reconcile_ok [OF _ policy_like_id rec]
  show ?thesis
  proof (cases res)
    case (Inl e)
    then have "p1 = lv_pool lv" using o ok by (auto simp: running_ok_def)
    then show ?thesis using ok by (simp add: ReconcileMembers_def rec)
  next
    case (Inr vr)
    obtain q snap where pub: "publish_topology now (po_topology q) q = (snap, p1)" "po_cfg q = po_cfg (id (lv_pool lv))"
      by (rule reconcile_cfg [OF rec [unfolded Inr]]) blast
    have "pool_ok p1" using o ok by (auto simp: Inr running_ok_def)
    then show ?thesis using ok publish_keeps [OF pub(1)] pub(2) by (simp add: ReconcileMembers_def rec running_ok_def not_started_def)
  qed
qed

lemma reader_running: "running_ok lv \<Longrightarrow> running_ok (lv\<lparr>lv_pool := releaseSnapshotReader v (lv_pool lv)\<rparr>)"
proof -
  assume ok: "running_ok lv"
  have "pool_ok (releaseSnapshotReader v (lv_pool lv))" using pool_step_ok [OF unpinned] ok by (simp add: running_ok_def)
  moreover have "po_cfg (releaseSnapshotReader v p) = po_cfg p" "po_closed (releaseSnapshotReader v p) = po_closed p"
    "po_current (releaseSnapshotReader v p) = None \<longleftrightarrow> po_current p = None" "po_topology (releaseSnapshotReader v p) = po_topology p" for p
    by (auto simp: releaseSnapshotReader_def releaseSnapshotMembers_def add_refs_eq Let_def split: option.split prod.split)
  ultimately show ?thesis using ok by (simp add: running_ok_def not_started_def)
qed

lemma ReleaseState_running:
  assumes ok: "running_ok lv" and "rt_retired (po_runtimes (lv_pool lv) (po_runtimeOf (lv_pool lv) r))"
  shows "running_ok (lv\<lparr>lv_pool := ReleaseState r (lv_pool lv)\<rparr>)"
proof -
  have "po_cfg (ReleaseState r p) = po_cfg p \<and> po_closed (ReleaseState r p) = po_closed p \<and> po_current (ReleaseState r p) = po_current p \<and>
      po_topology (ReleaseState r p) = po_topology p" for p
    by (auto simp: ReleaseState_def release_runtime_def Let_def split: prod.split)
  then show ?thesis using ok ReleaseState_ok assms(2) by (simp add: running_ok_def not_started_def)
qed

lemma operation_running:
  "running_ok lv \<Longrightarrow> running_ok (lv\<lparr>lv_pool := snd (acquireOperation r (lv_pool lv))\<rparr>)"
  "running_ok lv \<Longrightarrow> running_ok (lv\<lparr>lv_pool := releaseOperation r (lv_pool lv)\<rparr>)"
  using pool_step_ok [OF began] pool_step_ok [OF ended]
  by (auto simp: running_ok_def not_started_def acquireOperation_def releaseOperation_def on_runtime_def Let_def split: if_splits)

interpretation pool_run: preserved_invariant life_step running_ok
proof
  fix s t
  assume ok: "running_ok s" and "life_step s t"
  from this(2) show "running_ok t"
  proof cases
    case outside_pool
    then show ?thesis by (intro outside_running [OF ok]) auto
  qed (use ok in \<open>auto simp: Start_running Commit_ok installs_running handleGroupState_running handleHealthResult_running rebuild_running
      rebuildAndReconcileCandidatesNow_def reconcileCurrent_running activate_running acquire_running reader_running operation_running
      ReleaseState_running Close_pool_running\<close>)
qed

lemma run_running:
  assumes "newPool env networks options mon w = Inr lv0" "distinct (op_Members options)" "reaches life_step lv0 lv"
  shows "running_ok lv"
  by (rule pool_run.reaches_inv [OF assms(3) newPool_running [OF assms(1,2)]])

section \<open>Rerouting\<close>

text \<open>What decides about a member of a group: the member's state and the failure window.\<close>

definition group_view :: "world \<Rightarrow> group_id \<Rightarrow> (members \<times> duration) option" where
  "group_view w g = map_option (\<lambda>r. (gr_members r, gr_window r)) (map_of (w_groups w) g)"

lemma view_answers:
  assumes "group_view w' g = group_view w g"
  shows "MemberNotEvicted g t w' = MemberNotEvicted g t w" "fst (MemberAvailable g t now w') = fst (MemberAvailable g t now w)"
  using assms by (cases "map_of (w_groups w) g"; cases "map_of (w_groups w') g";
      auto simp: group_view_def MemberNotEvicted_def MemberAvailable_def Let_def split: option.split)+

lemma SetCurrentTag_view: "group_view (SetCurrentTag g t now w) g' = group_view w g'"
  by (auto simp: group_view_def SetCurrentTag_def Let_def notifyGroupState_def put_group_def split: option.split)

lemma set_current_world:
  "po_world (lv_pool (set_current now c lv)) = (po_world (lv_pool lv))\<lparr>pw_group := SetCurrentTag (op_GroupID (lv_options lv))
     (case c of None \<Rightarrow> [] | Some r \<Rightarrow> mr_tag (pref (lv_pool lv) r)) now (group_world lv)\<rparr>"
  "po_current (lv_pool (set_current now c lv)) = po_current (lv_pool lv)" "po_topology (lv_pool (set_current now c lv)) = po_topology (lv_pool lv)"
  "po_cfg (lv_pool (set_current now c lv)) = po_cfg (lv_pool lv)" "po_monitor (lv_pool (set_current now c lv)) = po_monitor (lv_pool lv)"
  "dp_currentMember (po_path (lv_pool (set_current now c lv))) = c" "pref (lv_pool (set_current now c lv)) = pref (lv_pool lv)"
  "po_path (lv_pool (set_current now c lv)) = (po_path (lv_pool lv))\<lparr>dp_currentMember := c\<rparr>"
  "lv_waitForInitialLatency (set_current now c lv) = lv_waitForInitialLatency lv"
  by (auto simp: set_current_def on_group_def group_world_def Let_def pref_def fun_eq_iff cong: option.case_cong)

definition routed_to :: "pool_env \<Rightarrow> running_pool \<Rightarrow> PoolSnapshot \<Rightarrow> bool" where
  "routed_to env lv sn \<longleftrightarrow> (case dp_currentMember (po_path (lv_pool lv)) of Some r \<Rightarrow> r \<in> set (snd (ps_Members sn)) | None \<Rightarrow> snd (ps_Members sn) = []) \<or>
     lv_waitForInitialLatency lv \<and> \<not> allInitialChecksDone (lv_pool lv) sn \<or>
     (\<exists>r \<in> set (snd (ps_Members sn)). selector_rejects env (mr_tag (pref (lv_pool lv) r)))"

definition same_routing :: "gtime \<Rightarrow> poolOutbound \<Rightarrow> poolOutbound \<Rightarrow> bool" where
  "same_routing now p p' \<longleftrightarrow> po_current p' = po_current p \<and> po_topology p' = po_topology p \<and> po_cfg p' = po_cfg p \<and> po_monitor p' = po_monitor p \<and>
     po_closed p' = po_closed p \<and> pref p' = pref p \<and> same_answers now (po_world p) (po_world p') \<and>
     dp_mode (po_path p') = dp_mode (po_path p) \<and> dp_modeAtomic (po_path p') = dp_modeAtomic (po_path p) \<and>
     group_view (pw_group (po_world p')) = group_view (pw_group (po_world p))"

lemma set_current_routing: "same_routing now p (lv_pool (set_current now' c lv))"
  if "same_routing now p (lv_pool lv)"
proof -
  let ?w = "po_world (lv_pool lv)" and ?w' = "po_world (lv_pool (set_current now' c lv))"
  have "same_answers now ?w ?w'"
    using view_answers [OF SetCurrentTag_view] unfolding same_answers_def set_current_world(1) by (simp add: group_world_def)
  then have "same_answers now (po_world p) ?w'" using that same_answers_trans by (auto simp: same_routing_def)
  then show ?thesis using that SetCurrentTag_view by (simp add: same_routing_def set_current_world set_current_frame group_world_def fun_eq_iff)
qed

lemma selectMember_path:
  assumes "selectMember cfg h active random snap cs dp = (r, dp')"
  shows "dp_mode dp' = dp_mode dp \<and> dp_modeAtomic dp' = dp_modeAtomic dp"
  using assms by (auto simp: selectMember_def selectionIndex_def Let_def split: if_splits option.splits prod.splits)

lemma reconcileCurrent_settles:
  assumes opn: "\<not> po_closed (lv_pool lv)" and cur: "po_current (lv_pool lv) = Some (sn, n)"
    and sn: "sn = build_snapshot cfg v h members (map ok members)"
  shows "routed_to env (reconcileCurrent env lv) sn \<and> same_routing now (lv_pool lv) (lv_pool (reconcileCurrent env lv))"
proof -
  let ?p = "lv_pool lv" and ?ms = "snd (ps_Members sn)"
  have l: "load env lv = (Inr sn, lv)" using opn cur by (simp add: load_def loadSnapshot_def)
  have same: "same_routing now ?p ?p" by (simp add: same_routing_def same_answers_refl)
  consider (keeps_current) c where "dp_currentMember (po_path ?p) = Some c" "c \<in> set ?ms"
    | (waits) "lv_waitForInitialLatency lv" "\<not> allInitialChecksDone ?p sn" "\<forall>c. dp_currentMember (po_path ?p) = Some c \<longrightarrow> c \<notin> set ?ms"
    | (nobody) "?ms = []" "\<not> (lv_waitForInitialLatency lv \<and> \<not> allInitialChecksDone ?p sn)"
    | (chooses) "?ms \<noteq> []" "\<not> (lv_waitForInitialLatency lv \<and> \<not> allInitialChecksDone ?p sn)" "\<forall>c. dp_currentMember (po_path ?p) = Some c \<longrightarrow> c \<notin> set ?ms"
    by blast
  then show ?thesis
  proof cases
    case keeps_current
    then have "reconcileCurrent env lv = lv\<lparr>lv_waitForInitialLatency := False\<rparr>" by (simp add: reconcileCurrent_def l)
    then show ?thesis using keeps_current same by (simp add: routed_to_def)
  next
    case waits
    then have "reconcileCurrent env lv = lv" by (auto simp: reconcileCurrent_def l Let_def split: option.split)
    then show ?thesis using waits same by (simp add: routed_to_def)
  next
    case nobody
    then have "reconcileCurrent env lv = set_current (pe_now env) None (lv\<lparr>lv_waitForInitialLatency := False\<rparr>)"
      by (auto simp: reconcileCurrent_def l Let_def split: option.split)
    then show ?thesis using nobody set_current_routing [of now ?p "lv\<lparr>lv_waitForInitialLatency := False\<rparr>"] same
      by (simp add: routed_to_def set_current_world)
  next
    case chooses
    obtain r dp where sel: "selectMember (po_cfg ?p) (pw_members (po_world ?p)) (member_active (po_world ?p)) (pe_random env) sn (ps_Members sn) (po_path ?p) = (r, dp)"
      by fastforce
    note mem = selectMember_mem [OF sn chooses(1) sel]
    define lv3 where "lv3 = lv\<lparr>lv_waitForInitialLatency := False, lv_pool := ?p\<lparr>po_path := dp\<rparr>\<rparr>"
    have e: "reconcileCurrent env lv = (if selector_rejects env (mr_tag (pref ?p r)) then lv3 else set_current (pe_now env) (Some r) lv3)"
      using chooses sel by (auto simp: reconcileCurrent_def l Let_def lv3_def split: option.split)
    have s3: "same_routing now ?p (lv_pool lv3)"
      using selectMember_path [OF sel] by (simp add: lv3_def same_routing_def same_answers_refl pref_def fun_eq_iff)
    show ?thesis unfolding e using mem s3 set_current_routing [OF s3]
      by (auto simp: routed_to_def set_current_world lv3_def pref_def)
  qed
qed

text \<open>After a rebuild the current snapshot offers what may be routed to in the state the handler leaves, and the data path is on one of
  these members.\<close>

lemma rebuild_settles:
  fixes env lv
  defines "lv' \<equiv> rebuildAndReconcileCandidatesNow env lv"
  assumes opn: "\<not> po_closed (lv_pool lv)" and top: "po_topology (lv_pool lv) \<noteq> []"
  shows "\<exists>sn. po_current (lv_pool lv') = Some (sn, 0) \<and> po_topology (lv_pool lv') = po_topology (lv_pool lv) \<and> po_cfg (lv_pool lv') = po_cfg (lv_pool lv) \<and>
    snd (ps_Members sn) = filter (routable (po_cfg (lv_pool lv')) (map_option monitor_view_of (po_monitor (lv_pool lv'))) (pe_now env)
      (po_world (lv_pool lv'))) (po_topology (lv_pool lv')) \<and> routed_to env lv' sn"
proof -
  let ?p = "lv_pool lv" and ?now = "pe_now env"
  let ?mon = "map_option monitor_view_of (po_monitor ?p)"
  obtain snap p1 where pub: "publish_topology ?now (po_topology ?p) ?p = (snap, p1)" by fastforce
  have r: "rebuild ?now lv = lv\<lparr>lv_pool := p1\<rparr>" using opn top by (simp add: rebuild_def rebuildCandidatesNow_def pub)
  obtain w1 where w1: "publishSnapshotLocked (po_cfg ?p) ?mon ?now (map_option fst (po_current ?p)) (po_topology ?p) (po_world ?p) = (snap, w1)"
    "po_world p1 = w1" using publish_keeps(6,7) [OF pub] by (metis prod.collapse)
  obtain v where b: "snap = build_snapshot (po_cfg ?p) v (pw_members w1) (po_topology ?p) (map (routable (po_cfg ?p) ?mon ?now (po_world ?p)) (po_topology ?p))"
    using published_build [OF w1(1)] .
  obtain bs where "eligibility (po_cfg ?p) ?mon ?now (po_topology ?p) (po_world ?p) = (bs, w1)"
    using w1(1) by (auto simp: publishSnapshotLocked_def Let_def split: prod.splits)
  from eligibility_routable(2) [OF this] have a1: "same_answers ?now (po_world ?p) (po_world p1)" by (simp add: w1(2))
  have c: "\<not> po_closed (lv_pool (lv\<lparr>lv_pool := p1\<rparr>))" "po_current (lv_pool (lv\<lparr>lv_pool := p1\<rparr>)) = Some (snap, 0)"
    using publish_keeps [OF pub] opn by simp_all
  have l': "lv' = reconcileCurrent env (lv\<lparr>lv_pool := p1\<rparr>)" by (simp add: lv'_def rebuildAndReconcileCandidatesNow_def r)
  from reconcileCurrent_settles [OF c b, of env ?now] have s: "routed_to env lv' snap" "same_routing ?now p1 (lv_pool lv')"
    unfolding l' by simp_all
  have a2: "same_answers ?now (po_world ?p) (po_world (lv_pool lv'))" using s(2) a1 same_answers_trans by (auto simp: same_routing_def)
  have f: "po_cfg (lv_pool lv') = po_cfg ?p" "po_monitor (lv_pool lv') = po_monitor ?p" "po_topology (lv_pool lv') = po_topology ?p"
    "po_current (lv_pool lv') = Some (snap, 0)"
    using s(2) publish_keeps [OF pub] by (simp_all add: same_routing_def)
  have "snd (ps_Members snap) = filter (routable (po_cfg ?p) ?mon ?now (po_world ?p)) (po_topology ?p)" by (rule build_snapshot_views(1) [OF b])
  also have "\<dots> = filter (routable (po_cfg ?p) ?mon ?now (po_world (lv_pool lv'))) (po_topology ?p)" using routable_cong [OF a2] by (intro filter_cong) simp_all
  finally show ?thesis using s(1) f by simp
qed

lemma available_not_evicted: "fst (MemberAvailable g t now w) \<Longrightarrow> MemberNotEvicted g t w"
  by (auto simp: MemberAvailable_def MemberNotEvicted_def Let_def member_clean_def member_usable_def pruneFailures_def split: option.splits if_splits)

lemma routable_not_evicted: "routable cfg mon now w r \<Longrightarrow> pc_GroupID cfg \<noteq> 0 \<Longrightarrow> MemberNotEvicted (pc_GroupID cfg) (mr_tag (pw_members w r)) (pw_group w)"
  by (auto simp: routable_def Let_def available_not_evicted split: if_splits)

lemma has_member_topology: "pool_ok p \<Longrightarrow> hasMember tag p \<longleftrightarrow> tag \<in> member_tag p ` set (po_topology p)"
  by (auto simp: pool_ok_def hasMember_def map_of_eq_None_iff image_image)


section \<open>Commits\<close>

text \<open>The members of a group with their nodes and whether they are on standby; the group operations of a commit, apart from the
  reconciliation itself, leave it alone.\<close>

definition place :: "groupMemberRuntime \<Rightarrow> node_id \<times> bool" where
  "place m = (gm_nodeID m, gm_standby m)"

definition roster :: "world \<Rightarrow> group_id \<Rightarrow> (string \<Rightarrow> (node_id \<times> bool) option) option" where
  "roster w g = map_option (\<lambda>r t. map_option place (map_of (gr_members r) t)) (map_of (w_groups w) g)"

lemma roster_view: "group_view w' g = group_view w g \<Longrightarrow> roster w' g = roster w g"
  by (cases "map_of (w_groups w) g"; cases "map_of (w_groups w') g") (auto simp: group_view_def roster_def)

lemma notify_view: "group_view (notifyGroupState e w) g = group_view w g" "group_view (notify_all es w) g = group_view w g"
proof -
  show one: "group_view (notifyGroupState e w) g = group_view w g" for e w by (simp add: group_view_def notifyGroupState_def)
  show "group_view (notify_all es w) g = group_view w g" unfolding notify_all_def by (induction es arbitrary: w) (simp_all add: one)
qed

lemma evict_first_places:
  "evict_first n err at rv ms = Some (m, ms') \<Longrightarrow> map_option place (map_of ms' t) = map_option place (map_of ms t)"
proof (induction n err at rv ms arbitrary: m ms' rule: evict_first.induct)
  case (2 n err at rv k v ms)
  show ?case
  proof (cases "gm_nodeID v \<noteq> n \<or> gm_evicted v")
    case True
    with 2(2) obtain ms1 where "evict_first n err at rv ms = Some (m, ms1)" "ms' = (k, v) # ms1" by auto
    then show ?thesis using 2(1) [OF True] by simp
  next
    case False
    then show ?thesis using 2(2) by (auto simp: Let_def touch_def place_def)
  qed
qed simp

lemma propagate_places:
  "propagate_groups n err at rv gs = (es, rv', gs') \<Longrightarrow>
     map_option (\<lambda>r t. map_option place (map_of (gr_members r) t)) (map_of gs' g) = map_option (\<lambda>r t. map_option place (map_of (gr_members r) t)) (map_of gs g)"
proof (induction n err at rv gs arbitrary: es rv' gs' rule: propagate_groups.induct)
  case (2 n err at rv k r gs)
  show ?case
  proof (cases "propagate_group n err at rv r")
    case None
    obtain es1 rv1 gs1 where p: "propagate_groups n err at rv gs = (es1, rv1, gs1)" by (metis surj_pair)
    then have "gs' = (k, r) # gs1" using 2(3) None by simp
    then show ?thesis using 2(1) [OF None p] by simp
  next
    case (Some er)
    obtain e r' where er: "er = (e, r')" by fastforce
    obtain es1 rv1 gs1 where p: "propagate_groups n err at (rv + 1) gs = (es1, rv1, gs1)" by (metis surj_pair)
    then have g: "gs' = (k, r') # gs1" using 2(3) Some er by simp
    obtain m ms' where ev: "evict_first n err at rv (gr_members r) = Some (m, ms')" "gr_members r' = ms'"
      using Some er by (auto simp: propagate_group_def Let_def split: option.splits)
    show ?thesis using 2(2) [OF Some er [symmetric] p] by (simp add: g ev(2) evict_first_places [OF ev(1)] fun_eq_iff)
  qed
qed simp

lemma propagateEviction_roster: "roster (propagateEviction n err at now w) g = roster w g"
proof (cases "n = 0")
  case False
  let ?at = "if is_zero_time at then now else at"
  obtain es rv' gs' where p: "propagate_groups n err ?at (w_stateRevision w) (w_groups w) = (es, rv', gs')" by (metis surj_pair)
  have "propagateEviction n err at now w = notify_all es (w\<lparr>w_groups := gs', w_stateRevision := rv'\<rparr>)"
    using False by (simp add: propagateEviction_def p)
  then show ?thesis using roster_view [OF notify_view(2)] propagate_places [OF p] by (simp add: roster_def)
qed (simp add: propagateEviction_def)

lemma NotifyEvents_roster: "roster (NotifyEvents now es w) g = roster w g"
  unfolding NotifyEvents_def
proof (induction es arbitrary: w)
  case (Cons e es)
  show ?case using Cons.IH by (simp add: Let_def propagateEviction_roster roster_view [OF notify_view(1)])
qed simp

lemma MemberAvailable_roster:
  assumes "MemberAvailable g t now w = (b, w')"
  shows "roster w' g' = roster w g'"
proof -
  have "place (snd (pruneFailures m win now)) = place m" for m win by (simp add: pruneFailures_def Let_def place_def)
  then show ?thesis using assms
    by (auto simp: MemberAvailable_def roster_def put_group_def set_member_def Let_def fun_eq_iff split: option.splits if_splits)
qed

lemma eligibility_roster: "eligibility cfg mon now rs w = (bs, w') \<Longrightarrow> roster (pw_group w') g = roster (pw_group w) g"
proof (induction rs arbitrary: bs w)
  case (Cons r rs)
  obtain b w1 where a: "memberAvailableForSnapshot cfg mon now r w = (b, w1)" by fastforce
  obtain bs2 w2 where e: "eligibility cfg mon now rs w1 = (bs2, w2)" by fastforce
  have sb: "pw_group u' = pw_group u" if "shared_blacklisted now sh u = (c, u')" for sh u c u'
    using that by (auto simp: shared_blacklisted_def Let_def split: option.splits prod.splits)
  have "roster (pw_group w1) g = roster (pw_group w) g"
    using a by (auto simp: memberAvailableForSnapshot_def Let_def split: if_splits option.splits prod.splits dest!: sb dest: MemberAvailable_roster)
  moreover have "w' = w2" using Cons.prems by (simp add: a e)
  ultimately show ?case using Cons.IH [of w1 bs2] e by simp
qed simp

lemma place_simps:
  "place (snd (pruneFailures m win now)) = place m" "place (snd (settle_member thr stale now m)) = place m"
  "place (touch rv m) = place m" "place (m\<lparr>gm_evicted := b\<rparr>) = place m" "place (carried_member t i old) = (gi_NodeID i, gi_Standby i)"
  by (simp_all add: pruneFailures_def settle_member_def touch_def carried_member_def Let_def place_def split: option.split)

lemma reconcile_member_place:
  assumes "reconcile_member g win thr pc now olds (t, i) acc = ((t', m), acc')"
  shows "t' = t \<and> place m = (gi_NodeID i, gi_Standby i)"
  using assms by (cases acc) (auto simp: reconcile_member_def Let_def case_prod_beta place_simps split: if_splits)

lemma reconcile_members_places:
  "reconcile_members g win thr pc now olds tis acc = (tms, acc') \<Longrightarrow>
     map (\<lambda>(t, m). (t, place m)) tms = map (\<lambda>(t, i). (t, gi_NodeID i, gi_Standby i)) tis"
proof (induction tis arbitrary: acc tms acc')
  case (Cons ti tis)
  obtain t i where ti: "ti = (t, i)" by fastforce
  obtain t' m acc1 where a: "reconcile_member g win thr pc now olds (t, i) acc = ((t', m), acc1)" by (metis surj_pair)
  obtain tms1 acc2 where b: "reconcile_members g win thr pc now olds tis acc1 = (tms1, acc2)" by (metis surj_pair)
  have "tms = (t', m) # tms1" using Cons.prems by (simp add: ti a b)
  then show ?case using reconcile_member_place [OF a] Cons.IH [OF b] by (simp add: ti)
qed simp

definition intended :: "(string \<times> GroupInitialState) list \<Rightarrow> string \<Rightarrow> (node_id \<times> bool) option" where
  "intended states = map_of (map (\<lambda>(t, i). (t, gi_NodeID i, gi_Standby i)) states)"

lemma ReconcileSilent_roster:
  assumes "map_of (w_groups w) g = Some r"
  shows "roster (snd (ReconcileSilent g u now w)) g = Some (intended (ru_Members u))"
proof -
  let ?win = "effective_window (ru_FailureWindow u)" and ?thr = "effective_threshold (ru_FailureThreshold u)"
  let ?pc = "recoveryPolicyProvided (ru_Recovery u) \<and> NormalizeRecoveryPolicy (ru_Recovery u) \<noteq> gr_recovery r"
  obtain ms marks rv es where rm: "reconcile_members g ?win ?thr ?pc now (gr_members r) (ru_Members u) (w_globalEvicted w, w_stateRevision w, []) = (ms, marks, rv, es)"
    by (metis surj_pair)
  have "\<exists>r'. map_of (w_groups (snd (ReconcileSilent g u now w))) g = Some r' \<and> gr_members r' = ms"
    using rm by (simp add: ReconcileSilent_def assms Let_def pruneGlobalEvictions_def)
  then obtain r' where "map_of (w_groups (snd (ReconcileSilent g u now w))) g = Some r'" "gr_members r' = ms" by blast
  moreover have "(\<lambda>t. map_option place (map_of ms t)) = intended (ru_Members u)"
    using arg_cong [OF reconcile_members_places [OF rm], of map_of] by (simp add: intended_def map_of_map comp_def)
  ultimately show ?thesis by (simp add: roster_def)
qed

lemma capacity_bound: "0 < target \<Longrightarrow> int (length (CapacitySelection ids previous target)) \<le> target"
proof (cases previous)
  case (Some prev)
  assume t: "0 < target"
  have "int (length sel) \<le> target \<Longrightarrow>
      int (length (fold (\<lambda>i sel. if i \<in> set (uniquePositiveIDs ids) \<and> int (length sel) < target then sel @ [i] else sel) xs sel)) \<le> target" for xs sel
    by (induction xs arbitrary: sel) auto
  from this [of "[]"] t Some show ?thesis by (simp add: CapacitySelection_def Let_def)
qed (simp add: CapacitySelection_def Let_def)

lemma fold_aput_pairs:
  assumes "distinct (map fst xs)"
  shows "fold (\<lambda>(t, x). aput t (f t x)) xs [] = map (\<lambda>(t, x). (t, f t x)) xs"
proof -
  have "fold (\<lambda>(t, x). aput t (f t x)) xs acc = acc @ map (\<lambda>(t, x). (t, f t x)) xs" if "distinct (map fst acc @ map fst xs)" for acc
    using that
  proof (induction xs arbitrary: acc)
    case (Cons x xs)
    obtain t v where x: "x = (t, v)" by fastforce
    have "t \<notin> set (map fst acc)" using Cons.prems by (simp add: x)
    then have "aput t (f t v) acc = acc @ [(t, f t v)]" by (induction t "f t v" acc rule: aput.induct) (auto split: if_splits)
    with Cons show ?case by (simp add: x)
  qed simp
  from this [of "[]"] assms show ?thesis by simp
qed

definition seats :: "PoolUpdate \<Rightarrow> node_id list \<Rightarrow> string \<Rightarrow> (node_id \<times> bool) option" where
  "seats u active t = map_option (\<lambda>meta. (mm_NodeID meta, pu_CapacityTarget u > 0 \<and> mm_NodeID meta \<notin> set active)) (map_of (pu_Members u) t)"

lemma prepared_update:
  assumes "PrepareUpdate env u lv = Inr pp" and "distinct (map fst (pu_Members u))"
  obtains active where "pu_ActiveNodeIDs (pp_update pp) = Some active" "pu_CapacityTarget u > 0 \<Longrightarrow> int (length active) \<le> pu_CapacityTarget u"
    "intended (pu_InitialGroupState (pp_update pp)) = seats u active" "pu_Members (pp_update pp) = pu_Members u"
    "pu_Mode (pp_update pp) = normalize_mode (pu_Mode u)"
proof -
  define previous where "previous = (if pu_ActiveNodeIDs u = None \<and> pu_CapacityTarget u > 0 \<and> op_CapacityTarget (lv_options lv) > 0
                               then op_ActiveNodeIDs (lv_options lv) else pu_ActiveNodeIDs u)"
  define active where "active = CapacitySelection (map (gi_NodeID \<circ> snd) (update_states u)) previous (pu_CapacityTarget u)"
  define standby where "standby = (\<lambda>(tag :: string, st :: GroupInitialState). (tag, st\<lparr>gi_Standby := (pu_CapacityTarget u > 0 \<and> gi_NodeID st \<notin> set active)\<rparr>))"
  have e: "pp_update pp = u\<lparr>pu_Mode := normalize_mode (pu_Mode u), pu_ActiveNodeIDs := Some active, pu_InitialGroupState := map standby (update_states u)\<rparr>"
  proof -
    have "pu_Members u \<noteq> []" "check_members (pe_manager env) (pc_networks (po_cfg (lv_pool lv))) [] (pu_Members u) = None"
      using assms(1) by (auto simp: PrepareUpdate_def Let_def split: option.splits if_splits)
    then have "Inr pp = (Inr \<lparr>pp_update = u\<lparr>pu_Mode := normalize_mode (pu_Mode u), pu_ActiveNodeIDs := Some active,
        pu_InitialGroupState := map standby (update_states u)\<rparr>, pp_rolledBack = False, pp_committed = False\<rparr> :: string + preparedPoolUpdate)"
      unfolding assms(1) [symmetric] PrepareUpdate_def applyCapacitySelection_def Let_def previous_def [symmetric]
      by (simp only: if_False option.case prod.case active_def [symmetric] standby_def [symmetric])
    then show ?thesis by simp
  qed
  let ?f = "\<lambda>t meta. (case map_of (pu_InitialGroupState u) t of None \<Rightarrow> fresh_state 0 | Some st \<Rightarrow> st)\<lparr>gi_NodeID := mm_NodeID meta\<rparr>"
  have "update_states u = map (\<lambda>(t, meta). (t, ?f t meta)) (pu_Members u)"
    using fold_aput_pairs [OF assms(2), of ?f] by (simp add: update_states_def)
  then have "map (\<lambda>(t, i). (t, gi_NodeID i, gi_Standby i)) (map standby (update_states u)) =
      map (\<lambda>(t, meta). (t, mm_NodeID meta, pu_CapacityTarget u > 0 \<and> mm_NodeID meta \<notin> set active)) (pu_Members u)"
    by (simp add: standby_def case_prod_beta comp_def)
  then have "intended (map standby (update_states u)) = seats u active"
    by (simp add: intended_def seats_def map_of_map fun_eq_iff)
  then show thesis using that [of active] e capacity_bound by (simp add: active_def)
qed

lemma publish_built:
  assumes "publish_topology now (po_topology q) q = (snap, p')"
  shows "\<exists>cfg v h ok. snap = build_snapshot cfg v h (po_topology q) (map ok (po_topology q))"
    and "roster (pw_group (po_world p')) g = roster (pw_group (po_world q)) g"
proof -
  obtain w1 where w1: "publishSnapshotLocked (po_cfg q) (map_option monitor_view_of (po_monitor q)) now (map_option fst (po_current q)) (po_topology q) (po_world q) = (snap, w1)"
    "po_world p' = w1" using publish_keeps(6,7) [OF assms] by (metis prod.collapse)
  show "\<exists>cfg v h ok. snap = build_snapshot cfg v h (po_topology q) (map ok (po_topology q))" using published_build [OF w1(1)] by metis
  obtain bs where "eligibility (po_cfg q) (map_option monitor_view_of (po_monitor q)) now (po_topology q) (po_world q) = (bs, w1)"
    using w1(1) by (auto simp: publishSnapshotLocked_def Let_def split: prod.splits)
  from eligibility_roster [OF this] show "roster (pw_group (po_world p')) g = roster (pw_group (po_world q)) g" by (simp add: w1(2))
qed

lemma reschedule_path: "po_path (lv_pool (reschedule u lv)) = po_path (lv_pool lv)"
  by (auto simp: reschedule_def Let_def split: option.split prod.split)

lemma reconcileCurrent_options: "lv_options (reconcileCurrent env lv) = lv_options lv"
  by (auto simp: reconcileCurrent_def load_def Let_def set_current_frame split: prod.split sum.split option.split)

lemma Commit_success:
  assumes ok: "running_ok lv" and c: "Commit env pp lv = (Inr vr, pp', lv')"
  defines "u \<equiv> pp_update pp" and "g \<equiv> op_GroupID (lv_options lv)"
  shows "map (\<lambda>r. (mr_tag (pref (lv_pool lv') r), mr_meta (pref (lv_pool lv') r))) (po_topology (lv_pool lv')) = pu_Members u \<and>
    lv_options lv' = (update_options u (lv_options lv))\<lparr>op_Members := map fst (pu_Members u)\<rparr> \<and>
    pc_mode (po_cfg (lv_pool lv')) = pu_Mode u \<and> dp_modeAtomic (po_path (lv_pool lv')) = Some (pu_Mode u) \<and>
    distinct (map fst (pu_Members u)) \<and>
    (roster (group_world lv) g \<noteq> None \<longrightarrow> roster (group_world lv') g = Some (intended (pu_InitialGroupState u)))"
proof -
  let ?p = "lv_pool lv" and ?now = "pe_now env" and ?opt = "lv_options lv"
  let ?f = "apply_policy ?now u ?opt"
  have opn: "\<not> pp_rolledBack pp" "\<not> pp_committed pp" "\<not> po_closed ?p" using c by (auto simp: Commit_def Let_def split: if_splits)
  obtain rres p1 where rec: "reconcileMembersWithPolicyLocked (pe_manager env) (pe_identity env) ?now (pu_Members u) ?f ?p = (rres, p1)" by fastforce
  with c opn have r: "rres = Inr vr" by (cases rres) (auto simp: Commit_def Let_def u_def split: prod.splits)
  define lv1 where "lv1 = lv\<lparr>lv_pool := p1, lv_options := (update_options u ?opt)\<lparr>op_Members := map fst (pu_Members u)\<rparr>,
      lv_failureThreshold := pu_FailureThreshold u, lv_failureWindowNanos := pu_FailureWindow u\<rparr>"
  define lv2 where "lv2 = on_group (NotifyEvents ?now (fst (ReconcileSilent g (group_update u ?opt) ?now (pw_group (po_world ?p))))) (reschedule u lv1)"
  have l': "lv' = reconcileCurrent env lv2"
    using c opn rec [unfolded r] by (cases vr) (simp add: Commit_def Let_def u_def g_def lv1_def lv2_def)
  obtain q snap where pub: "publish_topology ?now (po_topology q) q = (snap, p1)" and q: "po_cfg q = po_cfg (?f ?p)"
    "pw_group (po_world q) = pw_group (po_world (?f ?p))" "\<exists>c. po_path q = (po_path (?f ?p))\<lparr>dp_currentMember := c\<rparr>" "po_closed q = po_closed (?f ?p)"
    by (rule reconcile_cfg [OF rec [unfolded r]])
  note pk = publish_keeps [OF pub]
  have "group_world (reschedule u lv1) = pw_group (po_world p1)" by (simp add: group_world_def reschedule_frame lv1_def)
  then have ro: "roster (group_world lv2) g = roster (pw_group (po_world p1)) g" by (simp add: lv2_def on_group_frame NotifyEvents_roster)
  have lv2: "\<not> po_closed (lv_pool lv2)" "po_current (lv_pool lv2) = Some (snap, 0)" "po_topology (lv_pool lv2) = po_topology p1" "pref (lv_pool lv2) = pref p1"
    "po_cfg (lv_pool lv2) = po_cfg p1" "lv_options lv2 = lv_options lv1" "po_path (lv_pool lv2) = po_path p1"
    using pk q(4) opn(3)
    by (simp_all add: lv2_def on_group_frame reschedule_frame lv1_def apply_policy_def pref_def fun_eq_iff reschedule_path)
  obtain cfg v h el where b: "snap = build_snapshot cfg v h (po_topology q) (map el (po_topology q))" using publish_built(1) [OF pub] by blast
  from reconcileCurrent_settles [OF lv2(1,2) b, of env ?now] have s: "same_routing ?now (lv_pool lv2) (lv_pool lv')" by (simp add: l')
  obtain sds where sds: "resolve_members (pe_manager env) [] (pu_Members u) = Inr sds" "map (spec_of p1) (po_topology p1) = sds"
    using reconcile_ok [OF _ apply_policy_like rec] ok by (auto simp: r running_ok_def)
  have d: "map fst sds = pu_Members u" "distinct (map fst (pu_Members u))" using resolve_spec [OF sds(1)] resolve_total sds(1) by blast+
  have "map (\<lambda>r. (mr_tag (pref p1 r), mr_meta (pref p1 r))) (po_topology p1) = pu_Members u"
    unfolding d(1) [symmetric] sds(2) [symmetric] by (simp add: spec_of_def)
  moreover have "lv_options lv' = lv_options lv1"
    using reconcileCurrent_options by (simp add: l' lv2)
  moreover have "roster (group_world lv') g = Some (intended (pu_InitialGroupState u))" if "roster (group_world lv) g \<noteq> None"
  proof -
    from that obtain gr where gr: "map_of (w_groups (group_world lv)) g = Some gr" by (auto simp: roster_def)
    have "roster (group_world lv') g = roster (group_world lv2) g" using s by (intro roster_view) (simp add: same_routing_def group_world_def)
    also have "\<dots> = roster (pw_group (po_world q)) g" using publish_built(2) [OF pub] ro by simp
    also have "pw_group (po_world q) = snd (ReconcileSilent g (group_update u ?opt) ?now (group_world lv))"
      by (simp add: q(2) apply_policy_def group_world_def g_def)
    finally show ?thesis using ReconcileSilent_roster [OF gr, of "group_update u ?opt"] by (simp add: group_update_def)
  qed
  ultimately show ?thesis using s lv2 pk q d(2) by (auto simp: same_routing_def lv1_def apply_policy_def)
qed

text \<open>C34: a prepared update is committed once, as a whole or not at all. A commit that was rolled back or done before, or comes
  after the close, fails; a commit that fails changes nothing of the pool, its group or its monitor; and none succeeds
  twice. One that succeeds makes the members of the update, in their order and with their metadata, the topology of the pool, its mode the mode of
  the pool and of the data path, and the same tags, under the same nodes, the members of the group; of these, the nodes left
  out of the selection are on standby, and the selection has no more nodes than the capacity.\<close>

theorem commit_once_and_whole:
  assumes "newPool env0 networks options mon w = Inr lv0" and "distinct (op_Members options)" and "reaches life_step lv0 lv"
    and "PrepareUpdate env1 u lv1 = Inr pp0" and "pp_update pp = pp_update pp0" and "Commit env pp lv = (res, pp', lv')"
  shows "(pp_rolledBack pp \<or> pp_committed pp \<or> po_closed (lv_pool lv) \<longrightarrow> isl res) \<and> (isl res \<longrightarrow> lv' = lv) \<and>
    (\<not> isl res \<longrightarrow> pp_committed pp') \<and>
    (\<not> isl res \<longrightarrow>
       map (\<lambda>r. (mr_tag (pref (lv_pool lv') r), mr_meta (pref (lv_pool lv') r))) (po_topology (lv_pool lv')) = pu_Members u \<and>
       pc_mode (po_cfg (lv_pool lv')) = normalize_mode (pu_Mode u) \<and> dp_modeAtomic (po_path (lv_pool lv')) = Some (normalize_mode (pu_Mode u)) \<and>
       op_Members (lv_options lv') = map fst (pu_Members u) \<and>
       (\<exists>active. op_ActiveNodeIDs (lv_options lv') = Some active \<and> (pu_CapacityTarget u > 0 \<longrightarrow> int (length active) \<le> pu_CapacityTarget u) \<and>
          (roster (group_world lv) (op_GroupID (lv_options lv)) \<noteq> None \<longrightarrow>
             roster (group_world lv') (op_GroupID (lv_options lv)) = Some (seats u active))))"
proof (cases res)
  case (Inl e)
  have "lv' = lv" using assms(6) by (auto simp: Inl Commit_def Let_def split: if_splits sum.splits prod.splits)
  then show ?thesis using Inl by simp
next
  case (Inr vr)
  have ok: "running_ok lv" by (rule run_running [OF assms(1-3)])
  have g: "\<not> pp_rolledBack pp" "\<not> pp_committed pp" "\<not> po_closed (lv_pool lv)" "pp_committed pp'"
    using assms(6) by (auto simp: Inr Commit_def Let_def split: if_splits sum.splits prod.splits)
  note s = Commit_success [OF ok assms(6) [unfolded Inr], unfolded assms(5)]
  have m: "pu_Members (pp_update pp0) = pu_Members u"
    using assms(4) by (auto simp: PrepareUpdate_def applyCapacitySelection_def Let_def split: if_splits option.splits)
  then have d: "distinct (map fst (pu_Members u))" using s by simp
  obtain active where "pu_ActiveNodeIDs (pp_update pp0) = Some active" "pu_CapacityTarget u > 0 \<Longrightarrow> int (length active) \<le> pu_CapacityTarget u"
    "intended (pu_InitialGroupState (pp_update pp0)) = seats u active" "pu_Mode (pp_update pp0) = normalize_mode (pu_Mode u)"
    by (rule prepared_update [OF assms(4) d]) blast
  then show ?thesis using s m g Inr by (simp add: update_options_def)
qed

section \<open>A concrete running pool\<close>

definition demo_pool_env :: pool_env where
  "demo_pool_env = \<lparr>pe_manager = demo_outbounds, pe_selectorError = None, pe_selector = None, pe_identity = Some, pe_now = 0, pe_random = 5\<rparr>"

definition demo_options :: Options where
  "demo_options = \<lparr>op_CapacityTarget = 0, op_ActiveNodeIDs = None, op_Mode = ''Random'', op_Members = [''a''], op_FailureThreshold = 0,
     op_BlacklistDuration = 0, op_Metadata = [], op_GroupID = 1, op_FailureWindow = 0, op_HealthCheckInterval = 0, op_PreferredMember = [],
     op_InitialGroupState = [], op_SelectorTag = [], op_MonitorObserverOnly = False, op_RecoveryEnabled = False,
     op_RecoverySuccessThreshold = 0, op_RecoveryCooldown = 0\<rparr>"

definition demo_running0 :: running_pool where
  "demo_running0 = projr (newPool demo_pool_env (\<lambda>_. [''tcp'']) demo_options None demo_pool_world)"

definition demo_running1 :: running_pool where
  "demo_running1 = demo_running0\<lparr>lv_pool := snd (ReconcileMembers demo_outbounds Some 0 demo_specs (lv_pool demo_running0))\<rparr>"

lemma demo_running_new: "newPool demo_pool_env (\<lambda>_. [''tcp'']) demo_options None demo_pool_world = Inr demo_running0"
  "\<not> po_closed (lv_pool demo_running0)" "distinct (op_Members demo_options)"
  unfolding demo_running0_def by (simp_all add: newPool_def demo_options_def Let_def new_pool_def split: prod.split)

lemma demo_running_reached: "reaches life_step demo_running0 demo_running1"
proof -
  have "life_step demo_running0 demo_running1" unfolding demo_running1_def by (rule installs)
  with reaches_refl show ?thesis by (rule reaches_step)
qed

lemma demo_running_members:
  "map (spec_of (lv_pool demo_running1)) (po_topology (lv_pool demo_running1)) = [((''a'', zero_meta), 0), ((''b'', zero_meta), 1)] \<and>
   \<not> po_closed (lv_pool demo_running1)"
proof -
  let ?p = "lv_pool demo_running0"
  have ok: "pool_ok ?p" using newPool_running [OF demo_running_new(1,3)] by (simp add: running_ok_def)
  obtain res where rec: "reconcileMembersWithPolicyLocked demo_outbounds Some 0 demo_specs id ?p = (res, lv_pool demo_running1)"
    by (metis (no_types, lifting) ReconcileMembers_def demo_running1_def prod.collapse running_pool.simps(1) running_pool.update_convs(1) running_pool.surjective)
  moreover have ni: "\<not> isl res"
    using arg_cong [OF rec, of fst] demo_running_new(2) demo_pool_resolves(2) by (auto simp: reconcileMembersWithPolicyLocked_def Let_def split: prod.splits)
  ultimately have r: "map (spec_of (lv_pool demo_running1)) (po_topology (lv_pool demo_running1)) = [((''a'', zero_meta), 0), ((''b'', zero_meta), 1)]"
    using reconcile_ok [OF ok policy_like_id rec] demo_pool_resolves(2) by auto
  from ni obtain vr where "res = Inr vr" by (cases res) auto
  then obtain q snap where pub: "publish_topology 0 (po_topology q) q = (snap, lv_pool demo_running1)" "po_closed q = po_closed (id ?p)"
    using reconcile_cfg [of demo_outbounds Some 0 demo_specs id ?p vr "lv_pool demo_running1"] rec by metis
  then show ?thesis using r publish_keeps(2) [OF pub(1)] demo_running_new(2) by simp
qed

definition demo_failure :: HealthResultEvent where
  "demo_failure = \<lparr>hr_Tag = ''a'', hr_NodeID = 0, hr_Success = False, hr_Latency = 0, hr_Error = ''timeout'', hr_ProbeID = ''p'', hr_Seq = 1,
     hr_CheckedAt = 0, hr_SnapshotOnly = False\<rparr>"


definition demo_update :: PoolUpdate where
  "demo_update = \<lparr>pu_CapacityTarget = 1, pu_ActiveNodeIDs = None, pu_Members = demo_specs, pu_Mode = ''FIXED'', pu_FailureWindow = 0,
     pu_FailureThreshold = 0, pu_HealthCheckInterval = 0, pu_PreferredNodeID = 0, pu_InitialGroupState = [], pu_RecoveryEnabled = False,
     pu_RecoveryThreshold = 0, pu_RecoveryCooldown = 0\<rparr>"

definition demo_prepared :: preparedPoolUpdate where "demo_prepared = projr (PrepareUpdate demo_pool_env demo_update demo_running0)"

lemma demo_prepares:
  "PrepareUpdate demo_pool_env demo_update demo_running0 = Inr demo_prepared \<and> \<not> pp_rolledBack demo_prepared \<and> \<not> pp_committed demo_prepared \<and>
   pu_Members (pp_update demo_prepared) = demo_specs"
proof -
  have "pc_networks (po_cfg (lv_pool demo_running0)) = (\<lambda>_. [''tcp''])"
    unfolding demo_running0_def by (simp add: newPool_def demo_options_def Let_def new_pool_def split: prod.split)
  then show ?thesis unfolding demo_prepared_def
    by (simp add: PrepareUpdate_def demo_update_def demo_specs_def demo_pool_env_def demo_outbounds_def applyCapacitySelection_def Let_def)
qed

theorem commit_once_and_whole_witness:
  "op_Members (lv_options (snd (snd (Commit demo_pool_env demo_prepared demo_running0)))) = [''a'', ''b''] \<and>
   dp_modeAtomic (po_path (lv_pool (snd (snd (Commit demo_pool_env demo_prepared demo_running0))))) = Some modeFixed"
proof -
  obtain res pp' lv' where c: "Commit demo_pool_env demo_prepared demo_running0 = (res, pp', lv')" by (metis surj_pair)
  obtain rres p1 where rec: "reconcileMembersWithPolicyLocked demo_outbounds Some 0 demo_specs
      (apply_policy 0 (pp_update demo_prepared) (lv_options demo_running0)) (lv_pool demo_running0) = (rres, p1)" by fastforce
  have "\<not> isl rres"
    using arg_cong [OF rec, of fst] demo_running_new(2) demo_pool_resolves(2) by (auto simp: reconcileMembersWithPolicyLocked_def Let_def split: prod.splits)
  then have ni: "\<not> isl res" using c demo_prepares demo_running_new(2) rec
    by (cases rres) (auto simp: Commit_def Let_def demo_pool_env_def split: prod.splits)
  have mode: "normalize_mode (pu_Mode demo_update) = modeFixed" by code_simp
  have members: "map fst (pu_Members demo_update) = [''a'', ''b'']" by (simp add: demo_update_def demo_specs_def)
  from commit_once_and_whole [OF demo_running_new(1,3) reaches_refl conjunct1 [OF demo_prepares] refl c] ni show ?thesis
    unfolding mode members by (simp add: c)
qed

end
