(* ===== verification/Monitor_Schedule.thy ===== *)
theory Monitor_Schedule
  imports Monitor
begin

text \<open>
  When the monitor probes a node: the interval of a node is the shortest one that the management
  setting or any group with the node asks for, and the periodic timer is set for the first node that
  becomes due.
\<close>

section \<open>The shortest interval\<close>

text \<open>The reference: the minimum over the base interval and the positive intervals of the groups that
  list the tag or the node.\<close>

definition base_interval :: "Manager \<Rightarrow> duration" where
  "base_interval m = (if ma_healthInterval m \<le> 0 then 2 * hour else ma_healthInterval m)"

definition asked_intervals :: "Manager \<Rightarrow> string \<Rightarrow> node_id \<Rightarrow> duration set" where
  "asked_intervals m tag n = {gs_interval s | g s. (g, s) \<in> set (ma_groupSchedules m) \<and> gs_interval s > 0 \<and>
     (tag \<in> set (gs_tags s) \<or> n \<in> set (gs_nodeIDs s))}"

definition shortest_interval :: "Manager \<Rightarrow> string \<Rightarrow> node_id \<Rightarrow> duration" where
  "shortest_interval m tag n = Min (insert (base_interval m) (asked_intervals m tag n))"

text \<open>A table of durations that holds the least of a set of positive durations, 0 for none.\<close>

definition least_of :: "duration \<Rightarrow> duration set \<Rightarrow> bool" where
  "least_of d D \<longleftrightarrow> finite D \<and> (\<forall>x \<in> D. 0 < x \<and> d \<le> x) \<and> (if D = {} then d = 0 else d \<in> D)"

lemma least_of_insert: "least_of c D \<Longrightarrow> 0 < d \<Longrightarrow> least_of (if c = 0 \<or> d < c then d else c) (insert d D)"
  by (auto simp: least_of_def split: if_splits)

lemma lookup_lower_to:
  "lookup_duration k (lower_to d x xs) =
     (if x = k \<and> (lookup_duration k xs = 0 \<or> d < lookup_duration k xs) then d else lookup_duration k xs)"
  by (auto simp: lookup_duration_def lower_to_def Let_def split: option.splits)

lemma lower_to_least:
  assumes "least_of (lookup_duration k xs) D" and "0 < d"
  shows "least_of (lookup_duration k (fold (lower_to d) ks xs)) (if k \<in> set ks then insert d D else D)"
  using assms(1)
proof (induction ks arbitrary: xs D)
  case (Cons x ks)
  have "least_of (lookup_duration k (lower_to d x xs)) (if x = k then insert d D else D)"
    using least_of_insert [OF Cons.prems assms(2)] Cons.prems by (auto simp: lookup_lower_to)
  from Cons.IH [OF this] show ?case by (auto split: if_splits)
qed simp

definition tag_intervals :: "(group_id \<times> groupHealthSchedule) list \<Rightarrow> string \<Rightarrow> duration set" where
  "tag_intervals ss tag = {gs_interval s | g s. (g, s) \<in> set ss \<and> gs_interval s > 0 \<and> tag \<in> set (gs_tags s)}"

definition node_intervals :: "(group_id \<times> groupHealthSchedule) list \<Rightarrow> node_id \<Rightarrow> duration set" where
  "node_intervals ss n = {gs_interval s | g s. (g, s) \<in> set ss \<and> gs_interval s > 0 \<and> n \<in> set (gs_nodeIDs s)}"

lemma tag_intervals_Cons:
  "tag_intervals ((g, s) # ss) tag = (if gs_interval s > 0 \<and> tag \<in> set (gs_tags s) then insert (gs_interval s) (tag_intervals ss tag) else tag_intervals ss tag)"
  by (auto simp: tag_intervals_def)

lemma node_intervals_Cons:
  "node_intervals ((g, s) # ss) n = (if gs_interval s > 0 \<and> n \<in> set (gs_nodeIDs s) then insert (gs_interval s) (node_intervals ss n) else node_intervals ss n)"
  by (auto simp: node_intervals_def)

lemma fold_schedules:
  assumes "least_of (lookup_duration tag (ps_byTag p)) D" and "least_of (lookup_duration n (ps_byNodeID p)) E"
  shows "let q = fold (add_schedule \<circ> snd) ss p in
    least_of (lookup_duration tag (ps_byTag q)) (tag_intervals ss tag \<union> D) \<and>
    least_of (lookup_duration n (ps_byNodeID q)) (node_intervals ss n \<union> E) \<and> ps_base q = ps_base p \<and> ps_started q = ps_started p"
  using assms
proof (induction ss arbitrary: p D E)
  case (Cons gs ss)
  obtain g s where gs: "gs = (g, s)" by (cases gs)
  let ?p = "add_schedule s p" and ?d = "gs_interval s"
  let ?D = "if ?d > 0 \<and> tag \<in> set (gs_tags s) then insert ?d D else D"
  let ?E = "if ?d > 0 \<and> n \<in> set (gs_nodeIDs s) then insert ?d E else E"
  have new: "least_of (lookup_duration tag (ps_byTag ?p)) ?D" "least_of (lookup_duration n (ps_byNodeID ?p)) ?E"
      "ps_base ?p = ps_base p" "ps_started ?p = ps_started p"
    using lower_to_least [OF Cons.prems(1), of ?d "gs_tags s"] lower_to_least [OF Cons.prems(2), of ?d "gs_nodeIDs s"] Cons.prems
    by (auto simp: add_schedule_def)
  have sets: "tag_intervals ss tag \<union> ?D = tag_intervals (gs # ss) tag \<union> D" "node_intervals ss n \<union> ?E = node_intervals (gs # ss) n \<union> E"
    by (auto simp: gs tag_intervals_Cons node_intervals_Cons)
  show ?case using Cons.IH [OF new(1,2)] new(3,4) by (simp add: gs [symmetric] sets Let_def) (simp add: gs)
qed (simp add: tag_intervals_def node_intervals_def)

lemma schedule_snapshot_parts:
  "least_of (lookup_duration tag (ps_byTag (schedule_snapshot m))) (tag_intervals (ma_groupSchedules m) tag)"
  "least_of (lookup_duration n (ps_byNodeID (schedule_snapshot m))) (node_intervals (ma_groupSchedules m) n)"
  "ps_base (schedule_snapshot m) = base_interval m" "ps_started (schedule_snapshot m) = ma_healthStarted m"
proof -
  let ?p = "\<lparr>ps_started = ma_healthStarted m, ps_base = base_interval m, ps_byTag = [], ps_byNodeID = []\<rparr>"
  have snap: "schedule_snapshot m = fold (add_schedule \<circ> snd) (ma_groupSchedules m) ?p"
    by (simp add: schedule_snapshot_def base_interval_def)
  have "least_of (lookup_duration tag (ps_byTag ?p)) {}" "least_of (lookup_duration n (ps_byNodeID ?p)) {}" for tag n
    by (simp_all add: lookup_duration_def least_of_def)
  note parts = fold_schedules [OF this, of "ma_groupSchedules m", unfolded Let_def, folded snap]
  show "least_of (lookup_duration tag (ps_byTag (schedule_snapshot m))) (tag_intervals (ma_groupSchedules m) tag)"
    "least_of (lookup_duration n (ps_byNodeID (schedule_snapshot m))) (node_intervals (ma_groupSchedules m) n)"
    "ps_base (schedule_snapshot m) = base_interval m" "ps_started (schedule_snapshot m) = ma_healthStarted m"
    using parts by simp_all
qed

lemma asked_union: "asked_intervals m tag n = tag_intervals (ma_groupSchedules m) tag \<union> node_intervals (ma_groupSchedules m) n"
  by (auto simp: asked_intervals_def tag_intervals_def node_intervals_def)

lemma min_step:
  assumes "least_of c D"
  shows "(if c > 0 \<and> c < b then c else b) = Min (insert b D)"
  using assms by (intro Min_eqI [symmetric]) (auto simp: least_of_def split: if_splits)

lemma intervalFor_shortest: "intervalFor (schedule_snapshot m) tag n = shortest_interval m tag n"
proof -
  note s = schedule_snapshot_parts [where m = m]
  let ?D = "tag_intervals (ma_groupSchedules m) tag" and ?E = "node_intervals (ma_groupSchedules m) n"
  have fin: "finite ?D" "finite ?E" using s(1) [of tag] s(2) [of n] by (simp_all add: least_of_def)
  have "intervalFor (schedule_snapshot m) tag n = Min (insert (Min (insert (base_interval m) ?D)) ?E)"
    unfolding intervalFor_def Let_def s(3) min_step [OF s(1)] min_step [OF s(2)] ..
  also have "\<dots> = Min (insert (base_interval m) (?D \<union> ?E))"
    using fin by (cases "?E = {}") (simp_all add: Min.union [of "insert (base_interval m) ?D" ?E, symmetric] Un_assoc)
  finally show ?thesis by (simp add: shortest_interval_def asked_union)
qed

section \<open>The periodic timer\<close>

definition due_entry :: "Manager \<Rightarrow> gtime \<Rightarrow> entry \<Rightarrow> bool" where
  "due_entry m t e \<longleftrightarrow> is_zero_time (en_lastHealthCheck e) \<or>
     en_lastHealthCheck e + shortest_interval m (in_Tag (en_info e)) (in_NodeID (en_info e)) \<le> t"

definition probed_entries :: "Manager \<Rightarrow> entry list" where
  "probed_entries m = filter en_probe (map (rg_store (ma_registry m)) (registry_entries (ma_registry m)))"

lemma earliest_due_least:
  "case earliest_due s now found es of
     None \<Rightarrow> found = None \<and> filter en_probe es = []
   | Some t \<Rightarrow> (found = Some t \<or> t \<in> due_at s now ` set (filter en_probe es)) \<and>
       (\<forall>e \<in> set (filter en_probe es). t \<le> due_at s now e) \<and> (\<forall>u. found = Some u \<longrightarrow> t \<le> u)"
proof (induction es arbitrary: found)
  case (Cons e es)
  let ?f = "case found of None \<Rightarrow> Some (due_at s now e) | Some t \<Rightarrow> if due_at s now e < t then Some (due_at s now e) else Some t"
  show ?case
  proof (cases "en_probe e")
    case True
    have "earliest_due s now found (e # es) = earliest_due s now ?f es" using True by (simp add: Let_def)
    with Cons.IH [of ?f] True show ?thesis
      by (cases found; cases "earliest_due s now ?f es") (auto split: if_splits)
  next
    case False
    then have "filter en_probe (e # es) = filter en_probe es" "earliest_due s now found (e # es) = earliest_due s now found es" by simp_all
    then show ?thesis using Cons.IH [of found] by (simp only:)
  qed
qed (simp split: option.splits)

lemma shortest_le_base: "shortest_interval m tag n \<le> base_interval m"
proof -
  have "finite (asked_intervals m tag n)"
    using schedule_snapshot_parts(1,2) by (simp add: asked_union least_of_def)
  then show ?thesis by (simp add: shortest_interval_def)
qed

lemma due_at_reference:
  "due_at (schedule_snapshot m) now e = (if is_zero_time (en_lastHealthCheck e) then now
     else en_lastHealthCheck e + shortest_interval m (in_Tag (en_info e)) (in_NodeID (en_info e)))"
  by (simp add: due_at_def intervalFor_shortest)

text \<open>The periodic timer is set for the first node that becomes due. A node is due when it was
  never checked or when the shortest interval asked for by the management setting or a group that lists
  it has passed since its last check. The delay is never negative, after it some node that has a probe
  function is due, and before it none is; there is no timer exactly when probing is not configured, not
  started, or no node can be probed.\<close>

theorem next_probe_is_first_due:
  assumes past: "\<forall>e \<in> set (probed_entries m). en_lastHealthCheck e \<le> now" and width: "ma_healthInterval m \<le> max_duration"
  shows "case nextProbeDelay m now of
      None \<Rightarrow> ma_target m = None \<or> \<not> ma_healthStarted m \<or> probed_entries m = []
    | Some d \<Rightarrow> 0 \<le> d \<and> (\<exists>e \<in> set (probed_entries m). due_entry m (now + d) e) \<and>
        (\<forall>e \<in> set (probed_entries m). \<forall>t. now \<le> t \<and> t < now + d \<longrightarrow> \<not> due_entry m t e)"
proof -
  let ?es = "map (rg_store (ma_registry m)) (registry_entries (ma_registry m))"
  let ?first = "earliest_due (schedule_snapshot m) now None ?es"
  note least = earliest_due_least [where s = "schedule_snapshot m" and now = now and found = None and es = ?es, folded probed_entries_def]
  have base: "base_interval m \<le> max_duration" using width by (simp add: base_interval_def time_defs)
  show ?thesis
  proof (cases "ma_target m = None \<or> \<not> ma_healthStarted m")
    case True
    then show ?thesis by (auto simp: nextProbeDelay_def schedule_snapshot_parts(4) Let_def)
  next
    case False
    then have delay: "nextProbeDelay m now = map_option (\<lambda>t. max 0 (time_sub t now)) ?first"
      by (auto simp: nextProbeDelay_def schedule_snapshot_parts(4) Let_def split: option.split)
    show ?thesis
    proof (cases ?first)
      case None
      with least delay show ?thesis by simp
    next
      case (Some t)
      let ?d = "max 0 (time_sub t now)"
      obtain e where e: "e \<in> set (probed_entries m)" "t = due_at (schedule_snapshot m) now e"
        using least Some by auto
      have "t \<le> now + max_duration"
        using e past base shortest_le_base [of m "in_Tag (en_info e)" "in_NodeID (en_info e)"]
        by (auto simp: due_at_reference time_defs intro: order_trans)
      then have d: "now + ?d = max now t" by (auto simp: time_sub_def time_defs)
      have "due_entry m (now + ?d) e" unfolding d due_entry_def using e(2) by (auto simp: due_at_reference)
      moreover have "\<not> due_entry m u f" if "f \<in> set (probed_entries m)" "now \<le> u" "u < now + ?d" for f u
      proof -
        have "t \<le> due_at (schedule_snapshot m) now f" using least Some that(1) by simp
        with that(2,3) show ?thesis unfolding d due_entry_def by (auto simp: due_at_reference split: if_splits)
      qed
      ultimately show ?thesis using e(1) by (auto simp: delay Some)
    qed
  qed
qed

section \<open>A concrete schedule\<close>

definition demo_manager :: Manager where
  "demo_manager = \<lparr>ma_registry = newNodeRegistry\<lparr>rg_store := (\<lambda>_. new_entry\<lparr>en_info := empty_info\<lparr>in_NodeID := 7, in_Tag := ''a''\<rparr>,
       en_probe := True, en_lastHealthCheck := 100\<rparr>), rg_next := 1, rg_byTag := [(''a'', 0)], rg_byID := [(7, 0)]\<rparr>,
     ma_hub = newHealthEventHub, ma_store = None, ma_probeEpoch = 0, ma_target = Some ''example.com:80'', ma_startupPolicy = ''strict'',
     ma_healthInterval = hour, ma_healthStarted = True,
     ma_groupSchedules = [(3, \<lparr>gs_tags = [], gs_nodeIDs = [7], gs_interval = minute, gs_token = 1\<rparr>)], ma_groupScheduleNext = 1\<rparr>"

theorem next_probe_is_first_due_witness:
  "nextProbeDelay demo_manager 200 = Some (minute - 100) \<and> (\<exists>e \<in> set (probed_entries demo_manager). due_entry demo_manager (200 + (minute - 100)) e)"
proof -
  have facts: "nextProbeDelay demo_manager 200 = Some (minute - 100)" "\<forall>e \<in> set (probed_entries demo_manager). en_lastHealthCheck e \<le> 200"
    "ma_healthInterval demo_manager \<le> max_duration" by code_simp+
  show ?thesis using next_probe_is_first_due [OF facts(2,3)] unfolding facts(1) by simp
qed

end
