(* ===== verification/Scheduler.thy ===== *)
theory Scheduler
  imports Monitor_Schedule
begin

text \<open>
  The probe scheduler, \<open>src/internal/monitor/probe_scheduler.go\<close>: a single actor that owns the startup,
  periodic and manual rounds. Its local variables, the lease table and the round status are one record. The
  actor loop is a function from the message its \<open>select\<close> takes to the state before the next
  \<open>select\<close>. Network attempts run outside: \<open>sc_wave\<close> holds the items of the round that have not reported, and
  \<open>sc_events\<close> is the channel of reports. Contexts are numbers, 0 the manager's; \<open>sc_cancelled\<close> holds
  those that are done. Responses are logged under the number of the request. Callbacks of a request and
  log lines are left out, and so is the policy of a round, which only sets timeouts and the number of
  workers.
\<close>

record probeWorkItem =
  wi_entry :: nat
  wi_tag :: string
  wi_name :: string
  wi_probe :: bool

record ProbeBatchResult =
  br_Tag :: string
  br_Name :: string
  br_Latency :: duration
  br_Err :: "string option"
  br_Attempts :: nat

record ProbeBatchSummary =
  sm_Total :: nat
  sm_Success :: nat
  sm_Failed :: nat

datatype ProbeRoundKind = ProbeRoundStartup | ProbeRoundPeriodic | ProbeRoundManual

record probeBatchRequest =
  rq_ctx :: nat
  rq_kind :: ProbeRoundKind
  rq_dueOnly :: bool
  rq_response :: "nat option"

datatype probeExecutionEvent = Reported nat ProbeBatchResult | WaveDone nat

record activeProbeRound =
  ar_id :: nat
  ar_request :: probeBatchRequest
  ar_items :: "(string \<times> probeWorkItem) list"
  ar_retry :: "probeWorkItem list"
  ar_summary :: ProbeBatchSummary
  ar_startup :: bool
  ar_convergence :: bool
  ar_attempt :: nat

record ProbeRoundStatus =
  rs_InFlight :: bool
  rs_Kind :: ProbeRoundKind
  rs_StartedAt :: gtime
  rs_Total :: nat
  rs_Completed :: nat
  rs_Success :: nat
  rs_Failed :: nat
  rs_Attempt :: nat
  rs_LastProgressAt :: gtime

record probeScheduler =
  sc_tagsInFlight :: "string list"
  sc_round :: ProbeRoundStatus
  sc_initialRunning :: bool
  sc_initialQueued :: nat
  sc_periodicDirty :: bool
  sc_convergenceStallRounds :: nat
  sc_lastPendingCount :: nat
  sc_initialQueue :: "string list"
  sc_manualQueue :: "probeBatchRequest list"
  sc_routinePending :: bool
  sc_routineDueOnly :: bool
  sc_active :: "activeProbeRound option"
  sc_activeC :: bool
  sc_retryC :: bool
  sc_periodicC :: "duration option"
  sc_nextRoundID :: nat
  sc_events :: "probeExecutionEvent list"
  sc_wave :: "(nat \<times> string list) option"
  sc_cancelled :: "nat list"
  sc_responses :: "(nat \<times> (ProbeBatchSummary \<times> string option)) list"
  sc_stopped :: bool

definition maxConvergenceStallRounds :: nat where "maxConvergenceStallRounds = 5"

definition newProbeScheduler :: probeScheduler where
  "newProbeScheduler = \<lparr>sc_tagsInFlight = [],
     sc_round = \<lparr>rs_InFlight = False, rs_Kind = ProbeRoundStartup, rs_StartedAt = zero_time, rs_Total = 0, rs_Completed = 0, rs_Success = 0,
                 rs_Failed = 0, rs_Attempt = 0, rs_LastProgressAt = zero_time\<rparr>,
     sc_initialRunning = False, sc_initialQueued = 0, sc_periodicDirty = False, sc_convergenceStallRounds = 0,
     sc_lastPendingCount = 0, sc_initialQueue = [], sc_manualQueue = [], sc_routinePending = False, sc_routineDueOnly = False,
     sc_active = None, sc_activeC = False, sc_retryC = False, sc_periodicC = None, sc_nextRoundID = 0, sc_events = [],
     sc_wave = None, sc_cancelled = [], sc_responses = [], sc_stopped = False\<rparr>"

definition ctx_err :: "nat \<Rightarrow> probeScheduler \<Rightarrow> string option" where
  "ctx_err c s = (if c \<in> set (sc_cancelled s) then Some ''context canceled'' else None)"

text \<open>The context of a round ends with the request's and with the manager's.\<close>

definition active_err :: "activeProbeRound \<Rightarrow> probeScheduler \<Rightarrow> string option" where
  "active_err a s = (if ctx_err (rq_ctx (ar_request a)) s \<noteq> None \<or> ctx_err 0 s \<noteq> None then Some ''context canceled'' else None)"

definition respond :: "probeBatchRequest \<Rightarrow> ProbeBatchSummary \<Rightarrow> string option \<Rightarrow> probeScheduler \<Rightarrow> probeScheduler" where
  "respond rq summary err s = (case rq_response rq of None \<Rightarrow> s
     | Some i \<Rightarrow> s\<lparr>sc_responses := sc_responses s @ [(i, (summary, err))]\<rparr>)"

definition no_summary :: ProbeBatchSummary where
  "no_summary = \<lparr>sm_Total = 0, sm_Success = 0, sm_Failed = 0\<rparr>"

section \<open>Leases\<close>

definition beginTagProbe :: "string \<Rightarrow> probeScheduler \<Rightarrow> bool \<times> probeScheduler" where
  "beginTagProbe tag s = (if tag \<in> set (sc_tagsInFlight s) then (False, s)
     else (True, s\<lparr>sc_tagsInFlight := tag # sc_tagsInFlight s\<rparr>))"

definition releaseTagProbe :: "string \<Rightarrow> probeScheduler \<Rightarrow> probeScheduler" where
  "releaseTagProbe tag s = s\<lparr>sc_tagsInFlight := filter (\<lambda>t. t \<noteq> tag) (sc_tagsInFlight s)\<rparr>"

definition endTagProbe :: "string \<Rightarrow> probeScheduler \<Rightarrow> probeScheduler" where
  "endTagProbe tag s = releaseTagProbe tag (s\<lparr>sc_periodicDirty := True\<rparr>)"

fun reserveBatchProbeItems :: "string list \<Rightarrow> probeWorkItem list \<Rightarrow> probeWorkItem list \<times> string list" where
  "reserveBatchProbeItems leased [] = ([], leased)"
| "reserveBatchProbeItems leased (w # ws) =
     (if wi_tag w \<in> set leased then reserveBatchProbeItems leased ws
      else let (rs, leased') = reserveBatchProbeItems (wi_tag w # leased) ws in (w # rs, leased'))"

section \<open>Collecting work\<close>

definition batch_work :: "nodeRegistry \<Rightarrow> nat \<Rightarrow> probeWorkItem" where
  "batch_work r a = (let e = rg_store r a in \<lparr>wi_entry = a, wi_tag = in_Tag (en_info e), wi_name = in_Name (en_info e), wi_probe = en_probe e\<rparr>)"

definition collectBatchProbeItems :: "Manager \<Rightarrow> gtime \<Rightarrow> bool \<Rightarrow> probeScheduler \<Rightarrow> probeWorkItem list \<times> probeScheduler" where
  "collectBatchProbeItems m now dueOnly s =
     (let r = ma_registry m; sched = schedule_snapshot m;
          skip = (\<lambda>a. let e = rg_store r a in \<not> en_probe e \<or> dueOnly \<and> \<not> is_zero_time (en_lastHealthCheck e) \<and>
                    now < en_lastHealthCheck e + intervalFor sched (in_Tag (en_info e)) (in_NodeID (en_info e)));
          (items, leased) = reserveBatchProbeItems (sc_tagsInFlight s) (map (batch_work r) (filter (\<lambda>a. \<not> skip a) (registry_entries r)))
      in (items, s\<lparr>sc_tagsInFlight := leased\<rparr>))"

definition pending_work :: "Manager \<Rightarrow> (string \<times> probeWorkItem) list" where
  "pending_work m = (let r = ma_registry m
     in map (\<lambda>(tag, a). (tag, \<lparr>wi_entry = a, wi_tag = tag, wi_name = in_Name (en_info (rg_store r a)), wi_probe = en_probe (rg_store r a)\<rparr>))
          (filter (\<lambda>(tag, a). \<not> en_initialCheckDone (rg_store r a)) (rg_byTag r)))"

definition pendingTags :: "Manager \<Rightarrow> string list" where "pendingTags m = map fst (pending_work m)"

definition add_tags :: "string list \<Rightarrow> string list \<Rightarrow> string list" where
  "add_tags new queue = queue @ filter (\<lambda>t. t \<notin> set queue) new"

definition collectInitialProbeItems :: "Manager \<Rightarrow> probeScheduler \<Rightarrow> (probeWorkItem list \<times> nat \<times> bool) \<times> probeScheduler" where
  "collectInitialProbeItems m s =
     (let pending = pending_work m;
          queue = add_tags (map fst pending) (filter (\<lambda>t. t \<in> fst ` set pending) (sc_initialQueue s));
          (items, leased) = reserveBatchProbeItems (sc_tagsInFlight s) (List.map_filter (map_of pending) queue);
          queue' = filter (\<lambda>t. t \<notin> wi_tag ` set items) queue
      in ((items, length pending, items = [] \<and> queue' \<noteq> []), s\<lparr>sc_tagsInFlight := leased, sc_initialQueue := queue'\<rparr>))"

section \<open>Convergence\<close>

definition resetConvergenceStall :: "probeScheduler \<Rightarrow> probeScheduler" where
  "resetConvergenceStall s = s\<lparr>sc_convergenceStallRounds := 0, sc_lastPendingCount := 0\<rparr>"

definition finishInitialConvergence :: "Manager \<Rightarrow> probeScheduler \<Rightarrow> probeScheduler" where
  "finishInitialConvergence m s =
     (let pending = pendingTags m
      in if pending \<noteq> [] then s\<lparr>sc_initialQueue := add_tags pending (sc_initialQueue s)\<rparr>
         else if sc_initialRunning s then s\<lparr>sc_initialRunning := False, sc_initialQueue := []\<rparr> else s)"

definition refreshInitialQueue :: "Manager \<Rightarrow> probeScheduler \<Rightarrow> probeScheduler" where
  "refreshInitialQueue m s =
     (let pending = pendingTags m; n = length pending;
          requeue = (\<lambda>s. s\<lparr>sc_lastPendingCount := n, sc_initialQueue := add_tags pending (sc_initialQueue s)\<rparr>)
      in if pending = [] then finishInitialConvergence m (resetConvergenceStall s)
         else if n = sc_lastPendingCount s
         then (let s1 = s\<lparr>sc_convergenceStallRounds := sc_convergenceStallRounds s + 1\<rparr>
               in if sc_convergenceStallRounds s1 \<ge> maxConvergenceStallRounds
                  then (let s2 = resetConvergenceStall s1
                        in if sc_initialRunning s2 then s2\<lparr>sc_initialRunning := False, sc_initialQueue := []\<rparr> else s2)
                  else requeue s1)
         else requeue (resetConvergenceStall s))"

definition updateInitialStatus :: "probeScheduler \<Rightarrow> probeScheduler" where
  "updateInitialStatus s = s\<lparr>sc_initialQueued := length (sc_initialQueue s)\<rparr>"

section \<open>Rounds\<close>

definition newActiveRound :: "nat \<Rightarrow> probeBatchRequest \<Rightarrow> probeWorkItem list \<Rightarrow> bool \<Rightarrow> activeProbeRound" where
  "newActiveRound i rq items conv = \<lparr>ar_id = i, ar_request = rq, ar_items = fold (\<lambda>w. aput (wi_tag w) w) items [], ar_retry = [],
     ar_summary = \<lparr>sm_Total = length items, sm_Success = 0, sm_Failed = 0\<rparr>, ar_startup = (rq_kind rq = ProbeRoundStartup),
     ar_convergence = conv, ar_attempt = 1\<rparr>"

definition launch :: "nat \<Rightarrow> string list \<Rightarrow> probeScheduler \<Rightarrow> probeScheduler" where
  "launch i tags s = s\<lparr>sc_wave := Some (i, tags)\<rparr>"

definition startActiveRound :: "gtime \<Rightarrow> activeProbeRound \<Rightarrow> probeScheduler \<Rightarrow> probeScheduler" where
  "startActiveRound now a s =
     (let n = sm_Total (ar_summary a);
          s1 = s\<lparr>sc_round := \<lparr>rs_InFlight = True, rs_Kind = rq_kind (ar_request a), rs_StartedAt = now, rs_Total = n, rs_Completed = 0,
                  rs_Success = 0, rs_Failed = 0, rs_Attempt = ar_attempt a, rs_LastProgressAt = now\<rparr>\<rparr>
      in if n = 0 then s1\<lparr>sc_events := sc_events s1 @ [WaveDone (ar_id a)]\<rparr>
         else launch (ar_id a) (map fst (ar_items a)) s1)"

definition begin_round :: "gtime \<Rightarrow> probeBatchRequest \<Rightarrow> probeWorkItem list \<Rightarrow> bool \<Rightarrow> probeScheduler \<Rightarrow> probeScheduler" where
  "begin_round now rq items conv s =
     (let i = sc_nextRoundID s + 1; a = newActiveRound i rq items conv
      in startActiveRound now a (s\<lparr>sc_nextRoundID := i, sc_active := Some a, sc_activeC := True\<rparr>))"

text \<open>The item of a failed first attempt that is kept for the retry.\<close>

definition retry_item :: "Manager \<Rightarrow> activeProbeRound \<Rightarrow> ProbeBatchResult \<Rightarrow> probeScheduler \<Rightarrow> probeWorkItem option" where
  "retry_item m a res s =
     (if ar_startup a \<and> ar_attempt a = 1 \<and> br_Err res \<noteq> None \<and> active_err a s = None
      then (case map_of (ar_items a) (br_Tag res) of None \<Rightarrow> None
            | Some w \<Rightarrow> if wi_probe w \<and> in_Tag (en_info (rg_store (ma_registry m) (wi_entry w))) = wi_tag w then Some w else None)
      else None)"

definition handleExecutionResult :: "Manager \<Rightarrow> gtime \<Rightarrow> activeProbeRound \<Rightarrow> ProbeBatchResult \<Rightarrow> probeScheduler \<Rightarrow> probeScheduler" where
  "handleExecutionResult m now a res s =
     (let failed = (br_Err res \<noteq> None); tot = ar_summary a
      in case retry_item m a res s of
           Some w \<Rightarrow> s\<lparr>sc_active := Some (a\<lparr>ar_retry := ar_retry a @ [w]\<rparr>)\<rparr>
         | None \<Rightarrow>
             let s1 = releaseTagProbe (br_Tag res) s; st = sc_round s1
             in s1\<lparr>sc_active := Some (a\<lparr>ar_items := adel (br_Tag res) (ar_items a),
                      ar_summary := (if failed then tot\<lparr>sm_Failed := sm_Failed tot + 1\<rparr> else tot\<lparr>sm_Success := sm_Success tot + 1\<rparr>)\<rparr>),
                   sc_round := st\<lparr>rs_Completed := rs_Completed st + 1, rs_LastProgressAt := now,
                      rs_Success := (if failed then rs_Success st else rs_Success st + 1),
                      rs_Failed := (if failed then rs_Failed st + 1 else rs_Failed st)\<rparr>\<rparr>)"

definition finishActiveRound :: "Manager \<Rightarrow> activeProbeRound \<Rightarrow> probeScheduler \<Rightarrow> probeScheduler" where
  "finishActiveRound m a s =
     (let s1 = s\<lparr>sc_round := (sc_round s)\<lparr>rs_InFlight := False\<rparr>\<rparr>;
          s2 = respond (ar_request a) (ar_summary a) (active_err a s) s1
      in if ar_convergence a then refreshInitialQueue m s2 else s2)"

definition drop_retry :: "activeProbeRound \<Rightarrow> probeScheduler \<Rightarrow> activeProbeRound \<times> probeScheduler" where
  "drop_retry a s = (a\<lparr>ar_items := fold (\<lambda>w. adel (wi_tag w)) (ar_retry a) (ar_items a), ar_retry := []\<rparr>,
     fold (\<lambda>w. releaseTagProbe (wi_tag w)) (ar_retry a) s)"

definition resetPeriodicTimer :: "Manager \<Rightarrow> gtime \<Rightarrow> probeScheduler \<Rightarrow> probeScheduler" where
  "resetPeriodicTimer m now s = s\<lparr>sc_periodicC := map_option (max (10 * millisecond)) (nextProbeDelay m now)\<rparr>"

text \<open>The end of a round in the actor: finish, publish the queue length, clear the locals, rearm the timer.\<close>

definition close_round :: "Manager \<Rightarrow> gtime \<Rightarrow> activeProbeRound \<Rightarrow> probeScheduler \<Rightarrow> probeScheduler" where
  "close_round m now a s =
     resetPeriodicTimer m now ((updateInitialStatus (finishActiveRound m a s))\<lparr>sc_active := None, sc_activeC := False\<rparr>)"

section \<open>The actor\<close>

fun drop_cancelled :: "probeBatchRequest list \<Rightarrow> probeScheduler \<Rightarrow> probeBatchRequest list \<times> probeScheduler" where
  "drop_cancelled [] s = ([], s)"
| "drop_cancelled (rq # rqs) s =
     (case ctx_err (rq_ctx rq) s of None \<Rightarrow> (rq # rqs, s) | Some e \<Rightarrow> drop_cancelled rqs (respond rq no_summary (Some e) s))"

definition startNext :: "Manager \<Rightarrow> gtime \<Rightarrow> probeScheduler \<Rightarrow> probeScheduler" where
  "startNext m now s =
     (if sc_active s \<noteq> None \<or> sc_retryC s then s
      else let (queue, s0) = drop_cancelled (sc_manualQueue s) s; s1 = s0\<lparr>sc_manualQueue := queue\<rparr>;
               routine = (\<lambda>rq s. let (items, s') = collectBatchProbeItems m now (rq_dueOnly rq) s in begin_round now rq items False s')
           in case queue of
                rq # rqs \<Rightarrow> routine rq (s1\<lparr>sc_manualQueue := rqs\<rparr>)
              | [] \<Rightarrow>
                  if sc_initialRunning s1
                  then (let ((items, pending, waiting), s2) = collectInitialProbeItems m s1; s3 = updateInitialStatus s2
                        in if items \<noteq> []
                           then begin_round now \<lparr>rq_ctx = 0, rq_kind = ProbeRoundStartup, rq_dueOnly = False, rq_response = None\<rparr> items True s3
                           else if pending = 0 then updateInitialStatus (finishInitialConvergence m s3) else s3)
                  else if sc_routinePending s1
                  then routine \<lparr>rq_ctx = 0, rq_kind = ProbeRoundPeriodic, rq_dueOnly = sc_routineDueOnly s1, rq_response = None\<rparr>
                         (s1\<lparr>sc_routinePending := False, sc_routineDueOnly := False\<rparr>)
                  else s1)"

definition enqueue_initial :: "string list \<Rightarrow> probeScheduler \<Rightarrow> probeScheduler" where
  "enqueue_initial tags s =
     (let s1 = (if sc_initialRunning s then s else resetConvergenceStall (s\<lparr>sc_initialRunning := True\<rparr>))
      in updateInitialStatus (s1\<lparr>sc_initialQueue := add_tags (remdups (filter (\<lambda>t. t \<noteq> []) tags)) (sc_initialQueue s1)\<rparr>))"

definition request_routine :: "bool \<Rightarrow> probeScheduler \<Rightarrow> probeScheduler" where
  "request_routine dueOnly s = s\<lparr>sc_routineDueOnly := (if \<not> sc_routinePending s then dueOnly
      else if \<not> dueOnly then False else sc_routineDueOnly s), sc_routinePending := True\<rparr>"

definition submit_batch :: "probeBatchRequest \<Rightarrow> probeScheduler \<Rightarrow> probeScheduler" where
  "submit_batch rq s = (if sc_active s \<noteq> None \<or> sc_retryC s \<or> sc_manualQueue s \<noteq> []
     then respond rq no_summary (Some ''probe round already in progress'') s
     else s\<lparr>sc_manualQueue := sc_manualQueue s @ [rq]\<rparr>)"

definition on_event :: "Manager \<Rightarrow> gtime \<Rightarrow> probeExecutionEvent \<Rightarrow> probeScheduler \<Rightarrow> probeScheduler" where
  "on_event m now ev s = (case sc_active s of None \<Rightarrow> s
     | Some a \<Rightarrow> (case ev of
         Reported i res \<Rightarrow> if i \<noteq> ar_id a then s else handleExecutionResult m now a res s
       | WaveDone i \<Rightarrow>
           if i \<noteq> ar_id a then s
           else if ar_startup a \<and> ar_attempt a = 1 \<and> ar_retry a \<noteq> []
           then (if active_err a s = None then s\<lparr>sc_retryC := True\<rparr>
                 else let (a1, s1) = drop_retry a s in close_round m now a1 s1)
           else close_round m now a s))"

definition on_retry :: "Manager \<Rightarrow> gtime \<Rightarrow> probeScheduler \<Rightarrow> probeScheduler" where
  "on_retry m now s = (let s0 = s\<lparr>sc_retryC := False\<rparr> in case sc_active s0 of None \<Rightarrow> s0
     | Some a \<Rightarrow>
         if active_err a s0 \<noteq> None then (let (a1, s1) = drop_retry a s0 in close_round m now a1 s1)
         else launch (ar_id a) (map wi_tag (ar_retry a))
                (s0\<lparr>sc_active := Some (a\<lparr>ar_attempt := 2\<rparr>), sc_round := (sc_round s0)\<lparr>rs_Attempt := 2\<rparr>\<rparr>))"

definition on_activeDone :: "Manager \<Rightarrow> gtime \<Rightarrow> probeScheduler \<Rightarrow> probeScheduler" where
  "on_activeDone m now s = (case sc_active s of None \<Rightarrow> s\<lparr>sc_activeC := False\<rparr>
     | Some a \<Rightarrow> if \<not> sc_retryC s then s\<lparr>sc_activeC := False\<rparr>
                 else let (a1, s1) = drop_retry a (s\<lparr>sc_retryC := False\<rparr>) in close_round m now a1 s1)"

definition on_periodic :: "probeScheduler \<Rightarrow> probeScheduler" where
  "on_periodic s = s\<lparr>sc_periodicC := None, sc_routineDueOnly := (if sc_routinePending s then sc_routineDueOnly s else True),
     sc_routinePending := True\<rparr>"

text \<open>The branch of a stopped manager: the leases of the round are released and every waiting request is
  answered; the actor ends.\<close>

definition on_stop :: "probeScheduler \<Rightarrow> probeScheduler" where
  "on_stop s =
     (let s1 = (case sc_active s of None \<Rightarrow> s | Some a \<Rightarrow> fold (\<lambda>(tag, _). releaseTagProbe tag) (ar_items a) s)
      in (fold (\<lambda>rq. respond rq no_summary (ctx_err 0 s)) (sc_manualQueue s) s1)\<lparr>sc_manualQueue := [], sc_active := None,
            sc_activeC := False, sc_retryC := False, sc_periodicC := None, sc_stopped := True\<rparr>)"

definition loop_top :: "Manager \<Rightarrow> gtime \<Rightarrow> probeScheduler \<Rightarrow> probeScheduler" where
  "loop_top m now s = startNext m now (if sc_periodicDirty s then resetPeriodicTimer m now (s\<lparr>sc_periodicDirty := False\<rparr>) else s)"

end
