(* ===== verification/Scheduler_Steps.thy ===== *)
theory Scheduler_Steps
  imports Scheduler "HOL-Library.Multiset"
begin

text \<open>
  The probe scheduler as a transition system. A step is one message of the actor's \<open>select\<close> followed by
  the top of the loop, one move of the executor that runs a round's probes, one lease taken or given back by a
  caller outside the actor, or the end of a context. The registry may change freely between two
  steps: every actor step reads a manager of its own. The second component of a state is the list of
  leases held outside the actor. The invariant says that the lease table holds those and the leases of the running
  round, and that every item of the round is with the executor, in the channel or waiting for its retry.
\<close>

type_synonym sched_state = "probeScheduler \<times> string list"

definition report_into :: "nat \<Rightarrow> ProbeBatchResult \<Rightarrow> string list \<Rightarrow> probeScheduler \<Rightarrow> probeScheduler" where
  "report_into i res left s = s\<lparr>sc_wave := Some (i, remove1 (br_Tag res) left), sc_events := sc_events s @ [Reported i res]\<rparr>"

definition finish_wave :: "nat \<Rightarrow> probeScheduler \<Rightarrow> probeScheduler" where
  "finish_wave i s = s\<lparr>sc_wave := None, sc_events := sc_events s @ [WaveDone i]\<rparr>"

text \<open>The moves that carry a round: the actor takes an event or the retry timer, the executor reports or finishes.\<close>

inductive round_step :: "sched_state \<Rightarrow> sched_state \<Rightarrow> bool" where
  event: "\<not> sc_stopped s \<Longrightarrow> sc_events s = ev # evs \<Longrightarrow> round_step (s, ext) (loop_top m now (on_event m now ev (s\<lparr>sc_events := evs\<rparr>)), ext)"
| retry: "\<not> sc_stopped s \<Longrightarrow> sc_retryC s \<Longrightarrow> round_step (s, ext) (loop_top m now (on_retry m now s), ext)"
| report: "sc_wave s = Some (i, left) \<Longrightarrow> br_Tag res \<in> set left \<Longrightarrow> length (sc_events s) < 256 \<Longrightarrow>
    round_step (s, ext) (report_into i res left s, ext)"
| wave_done: "sc_wave s = Some (i, []) \<Longrightarrow> length (sc_events s) < 256 \<Longrightarrow> round_step (s, ext) (finish_wave i s, ext)"

inductive sched_step :: "sched_state \<Rightarrow> sched_state \<Rightarrow> bool" where
  enqueue: "\<not> sc_stopped s \<Longrightarrow> sched_step (s, ext) (loop_top m now (enqueue_initial tags s), ext)"
| routine: "\<not> sc_stopped s \<Longrightarrow> sched_step (s, ext) (loop_top m now (request_routine dueOnly s), ext)"
| run_batch: "\<not> sc_stopped s \<Longrightarrow> sched_step (s, ext) (loop_top m now (submit_batch rq s), ext)"
| wake: "\<not> sc_stopped s \<Longrightarrow> sched_step (s, ext) (loop_top m now s, ext)"
| active_done: "\<not> sc_stopped s \<Longrightarrow> sc_activeC s \<Longrightarrow> sc_active s = Some a \<Longrightarrow> active_err a s \<noteq> None \<Longrightarrow>
    sched_step (s, ext) (loop_top m now (on_activeDone m now s), ext)"
| periodic: "\<not> sc_stopped s \<Longrightarrow> sc_periodicC s \<noteq> None \<Longrightarrow> sched_step (s, ext) (loop_top m now (on_periodic s), ext)"
| stop: "\<not> sc_stopped s \<Longrightarrow> ctx_err 0 s \<noteq> None \<Longrightarrow> sched_step (s, ext) (on_stop s, ext)"
| abandon: "ctx_err 0 s \<noteq> None \<Longrightarrow> sched_step (s, ext) (s\<lparr>sc_wave := None\<rparr>, ext)"
| take: "beginTagProbe tag s = (True, s') \<Longrightarrow> sched_step (s, ext) (s', tag # ext)"
| give: "tag \<in> set ext \<Longrightarrow> sched_step (s, ext) (endTagProbe tag s, remove1 tag ext)"
| cancel: "sched_step (s, ext) (s\<lparr>sc_cancelled := c # sc_cancelled s\<rparr>, ext)"
| round: "round_step t t' \<Longrightarrow> sched_step t t'"

inductive_cases round_stepE: "round_step (s, ext) t"
inductive_cases sched_stepE: "sched_step (s, ext) t"

definition sched_reach :: "sched_state \<Rightarrow> bool" where
  "sched_reach t = (\<exists>m now. reaches sched_step (loop_top m now newProbeScheduler, []) t)"

section \<open>The invariant\<close>

definition round_keys :: "probeScheduler \<Rightarrow> string list" where
  "round_keys s = (case sc_active s of None \<Rightarrow> [] | Some a \<Rightarrow> map fst (ar_items a))"

definition lease_ok :: "probeScheduler \<Rightarrow> string list \<Rightarrow> bool" where
  "lease_ok s ext = (distinct (sc_tagsInFlight s) \<and> distinct (ext @ round_keys s) \<and> set (sc_tagsInFlight s) = set (ext @ round_keys s))"

fun report_tag :: "probeExecutionEvent \<Rightarrow> string list" where
  "report_tag (Reported i res) = [br_Tag res]"
| "report_tag (WaveDone i) = []"

definition wave_left :: "probeScheduler \<Rightarrow> string list" where
  "wave_left s = (case sc_wave s of None \<Rightarrow> [] | Some (i, left) \<Rightarrow> left)"

definition waiting_retry :: "activeProbeRound \<Rightarrow> string list" where
  "waiting_retry a = (if ar_attempt a = 1 then map wi_tag (ar_retry a) else [])"

definition outstanding :: "activeProbeRound \<Rightarrow> probeScheduler \<Rightarrow> string list" where
  "outstanding a s = wave_left s @ concat (map report_tag (sc_events s)) @ waiting_retry a"

definition items_ok :: "activeProbeRound \<Rightarrow> bool" where
  "items_ok a = ((\<forall>(t, w) \<in> set (ar_items a). wi_tag w = t) \<and>
     sm_Total (ar_summary a) = sm_Success (ar_summary a) + sm_Failed (ar_summary a) + length (ar_items a) \<and>
     (ar_retry a \<noteq> [] \<longrightarrow> ar_startup a) \<and> (ar_attempt a = 1 \<or> ar_attempt a = 2))"

text \<open>A round runs its probes, has run them all, was abandoned by an executor that saw the manager's context end, or
  waits for the retry timer.\<close>

definition round_running :: "activeProbeRound \<Rightarrow> probeScheduler \<Rightarrow> bool" where
  "round_running a s = (\<not> sc_retryC s \<and> (\<exists>left reps. sc_wave s = Some (ar_id a, left) \<and> sc_events s = map (Reported (ar_id a)) reps))"

definition round_drained :: "activeProbeRound \<Rightarrow> probeScheduler \<Rightarrow> bool" where
  "round_drained a s = (\<not> sc_retryC s \<and> sc_wave s = None \<and> (\<exists>reps. sc_events s = map (Reported (ar_id a)) reps @ [WaveDone (ar_id a)]))"

definition round_abandoned :: "activeProbeRound \<Rightarrow> probeScheduler \<Rightarrow> bool" where
  "round_abandoned a s = (\<not> sc_retryC s \<and> sc_wave s = None \<and> ctx_err 0 s \<noteq> None \<and> (\<exists>reps. sc_events s = map (Reported (ar_id a)) reps))"

definition round_resting :: "activeProbeRound \<Rightarrow> probeScheduler \<Rightarrow> bool" where
  "round_resting a s = (sc_retryC s \<and> sc_wave s = None \<and> sc_events s = [] \<and> ar_attempt a = 1 \<and> ar_retry a \<noteq> [])"

definition round_ok :: "activeProbeRound \<Rightarrow> probeScheduler \<Rightarrow> bool" where
  "round_ok a s = (items_ok a \<and> distinct (outstanding a s) \<and> set (outstanding a s) \<subseteq> fst ` set (ar_items a) \<and>
     (round_abandoned a s \<or>
      set (outstanding a s) = fst ` set (ar_items a) \<and> (round_running a s \<or> round_drained a s \<or> round_resting a s)))"

definition phase_ok :: "probeScheduler \<Rightarrow> bool" where
  "phase_ok s = (case sc_active s of None \<Rightarrow> sc_stopped s \<or> \<not> sc_retryC s \<and> sc_wave s = None \<and> sc_events s = []
     | Some a \<Rightarrow> \<not> sc_stopped s \<and> round_ok a s)"

definition sched_ok :: "sched_state \<Rightarrow> bool" where
  "sched_ok t = (lease_ok (fst t) (snd t) \<and> phase_ok (fst t))"

lemma sched_okI: "lease_ok s ext \<Longrightarrow> phase_ok s \<Longrightarrow> sched_ok (s, ext)"
  by (simp add: sched_ok_def)


section \<open>What the invariant reads of a state\<close>

definition same_core :: "probeScheduler \<Rightarrow> probeScheduler \<Rightarrow> bool" where
  "same_core s s' = (sc_tagsInFlight s' = sc_tagsInFlight s \<and> sc_active s' = sc_active s \<and> sc_stopped s' = sc_stopped s \<and>
     sc_retryC s' = sc_retryC s \<and> sc_wave s' = sc_wave s \<and> sc_events s' = sc_events s \<and> set (sc_cancelled s) \<subseteq> set (sc_cancelled s'))"

lemma same_core_refl [simp]: "same_core s s" by (simp add: same_core_def)

lemma same_core_trans: "same_core s t \<Longrightarrow> same_core t u \<Longrightarrow> same_core s u"
  by (auto simp: same_core_def)

lemma lease_ok_core: "same_core s s' \<Longrightarrow> lease_ok s' ext = lease_ok s ext"
  by (simp add: lease_ok_def round_keys_def same_core_def)

lemma phase_ok_core:
  assumes "same_core s s'" "phase_ok s" shows "phase_ok s'"
  using assms unfolding same_core_def phase_ok_def round_ok_def outstanding_def wave_left_def round_running_def round_drained_def
    round_abandoned_def round_resting_def ctx_err_def by (auto split: option.splits if_splits)

lemma sched_ok_core: "same_core s s' \<Longrightarrow> sched_ok (s, ext) \<Longrightarrow> sched_ok (s', ext)"
  by (simp add: sched_ok_def lease_ok_core phase_ok_core)

lemma core_respond [simp]: "same_core s (respond rq summary err s)"
  by (simp add: respond_def same_core_def split: option.split)

lemma core_updateInitialStatus [simp]: "same_core s (updateInitialStatus s)"
  by (simp add: updateInitialStatus_def same_core_def)

lemma core_resetPeriodicTimer [simp]: "same_core s (resetPeriodicTimer m now s)"
  by (simp add: resetPeriodicTimer_def same_core_def)

lemma core_finishInitialConvergence [simp]: "same_core s (finishInitialConvergence m s)"
  by (simp add: finishInitialConvergence_def same_core_def Let_def)

lemma core_refreshInitialQueue [simp]: "same_core s (refreshInitialQueue m s)"
  by (simp add: refreshInitialQueue_def finishInitialConvergence_def resetConvergenceStall_def same_core_def Let_def)

lemma core_enqueue_initial [simp]: "same_core s (enqueue_initial tags s)"
  by (simp add: enqueue_initial_def updateInitialStatus_def resetConvergenceStall_def same_core_def Let_def)

lemma core_request_routine [simp]: "same_core s (request_routine dueOnly s)"
  by (simp add: request_routine_def same_core_def)

lemma core_submit_batch [simp]: "same_core s (submit_batch rq s)"
  by (simp add: submit_batch_def same_core_def respond_def split: option.split)

lemma core_on_periodic [simp]: "same_core s (on_periodic s)"
  by (simp add: on_periodic_def same_core_def)

lemma core_drop_cancelled: "drop_cancelled rqs s = (rqs', s') \<Longrightarrow> same_core s s'"
proof (induction rqs s rule: drop_cancelled.induct)
  case (2 rq rqs s)
  show ?case
  proof (cases "ctx_err (rq_ctx rq) s")
    case (Some e)
    then show ?thesis using 2 by (auto intro: same_core_trans [OF core_respond])
  qed (use 2 in auto)
qed auto

lemma core_finishActiveRound [simp]: "same_core s (finishActiveRound m a s)"
proof -
  have "same_core s (s\<lparr>sc_round := (sc_round s)\<lparr>rs_InFlight := False\<rparr>\<rparr>)" by (simp add: same_core_def)
  from same_core_trans [OF this core_respond] have "same_core s (respond (ar_request a) (ar_summary a) (active_err a s)
      (s\<lparr>sc_round := (sc_round s)\<lparr>rs_InFlight := False\<rparr>\<rparr>))" .
  then show ?thesis unfolding finishActiveRound_def Let_def
    by (simp add: same_core_trans [OF _ core_refreshInitialQueue])
qed

section \<open>Starting a round\<close>

lemma reserve_spec:
  assumes "reserveBatchProbeItems leased ws = (rs, leased')"
  shows "set leased' = set leased \<union> wi_tag ` set rs \<and> distinct (map wi_tag rs) \<and> set leased \<inter> wi_tag ` set rs = {} \<and>
    (distinct leased \<longrightarrow> distinct leased') \<and> set rs \<subseteq> set ws"
  using assms
proof (induction leased ws arbitrary: rs leased' rule: reserveBatchProbeItems.induct)
  case (2 leased w ws)
  show ?case
  proof (cases "wi_tag w \<in> set leased")
    case True
    with 2(3) have "reserveBatchProbeItems leased ws = (rs, leased')" by simp
    from 2(1) [OF True this] show ?thesis by (auto simp del: reserveBatchProbeItems.simps)
  next
    case False
    obtain rs1 l1 where r: "reserveBatchProbeItems (wi_tag w # leased) ws = (rs1, l1)" by fastforce
    with 2(3) False have e: "rs = w # rs1" "leased' = l1" by auto
    note ih = 2(2) [OF False r]
    show ?thesis unfolding e using False ih by (intro conjI) (simp_all, blast+)
  qed
qed auto

lemma reserve_nil: "reserveBatchProbeItems l ws = ([], l') \<Longrightarrow> l' = l"
  by (induction l ws rule: reserveBatchProbeItems.induct) (auto split: if_splits prod.splits)

lemma new_items:
  assumes "distinct (map wi_tag items)"
  shows "ar_items (newActiveRound i rq items conv) = map (\<lambda>w. (wi_tag w, w)) items"
proof -
  have "fold (\<lambda>w. aput (wi_tag w) w) items acc = acc @ map (\<lambda>w. (wi_tag w, w)) items"
    if "distinct (map fst acc @ map wi_tag items)" for acc
    using that
  proof (induction items arbitrary: acc)
    case (Cons w ws)
    have "aput (wi_tag w) w acc = acc @ [(wi_tag w, w)]"
      using Cons.prems by (induction "wi_tag w" w acc rule: aput.induct) auto
    with Cons show ?case by simp
  qed simp
  from this [of "[]"] assms show ?thesis by (simp add: newActiveRound_def)
qed

lemma begin_round_ok:
  assumes idle: "sc_active s = None" "\<not> sc_retryC s" "sc_wave s = None" "sc_events s = []" "\<not> sc_stopped s"
    and ls: "distinct (sc_tagsInFlight s)" "distinct ext" "set (sc_tagsInFlight s) = set ext \<union> wi_tag ` set items"
      "set ext \<inter> wi_tag ` set items = {}" "distinct (map wi_tag items)"
  shows "sched_ok (begin_round now rq items conv s, ext)"
proof (rule sched_okI)
  let ?a = "newActiveRound (sc_nextRoundID s + 1) rq items conv"
  have it: "ar_items ?a = map (\<lambda>w. (wi_tag w, w)) items" by (rule new_items [OF ls(5)])
  have act: "sc_active (begin_round now rq items conv s) = Some ?a"
    by (simp add: begin_round_def startActiveRound_def launch_def Let_def)
  have keys: "map fst (ar_items ?a) = map wi_tag items" unfolding it by simp
  show "lease_ok (begin_round now rq items conv s) ext"
    unfolding lease_ok_def round_keys_def act option.case keys
    using ls by (auto simp: begin_round_def startActiveRound_def launch_def Let_def)
  have flds: "sc_retryC (begin_round now rq items conv s) = False" "sc_stopped (begin_round now rq items conv s) = False"
    "sc_wave (begin_round now rq items conv s) = (if items = [] then None else Some (ar_id ?a, map wi_tag items))"
    "sc_events (begin_round now rq items conv s) = (if items = [] then [WaveDone (ar_id ?a)] else [])"
    using idle by (simp_all add: begin_round_def startActiveRound_def launch_def Let_def new_items [OF ls(5)] comp_def)
      (auto simp: newActiveRound_def)
  have w: "waiting_retry ?a = []" by (simp add: waiting_retry_def newActiveRound_def)
  have ok: "items_ok ?a" using it by (auto simp: items_ok_def) (auto simp: newActiveRound_def)
  show "phase_ok (begin_round now rq items conv s)"
    unfolding phase_ok_def act option.case round_ok_def outstanding_def round_running_def round_drained_def wave_left_def flds w
    using ok ls(5) by (auto simp: new_items [OF ls(5)] image_image)
qed

definition idle :: "probeScheduler \<Rightarrow> bool" where
  "idle s = (sc_active s = None \<and> \<not> sc_retryC s \<and> sc_wave s = None \<and> sc_events s = [] \<and> \<not> sc_stopped s)"

lemma idle_core: "same_core s s' \<Longrightarrow> idle s \<Longrightarrow> idle s'"
  by (simp add: same_core_def idle_def)

lemma idle_sched_ok: "idle s \<Longrightarrow> sched_ok (s, ext) = (distinct (sc_tagsInFlight s) \<and> distinct ext \<and> set (sc_tagsInFlight s) = set ext)"
  by (simp add: idle_def sched_ok_def lease_ok_def phase_ok_def round_keys_def)

lemma begin_reserved:
  assumes "idle s" "sched_ok (s, ext)" "reserveBatchProbeItems (sc_tagsInFlight s) ws = (items, leased)"
    "sc_tagsInFlight s' = leased" "idle s'"
  shows "sched_ok (begin_round now rq items conv s', ext)"
  using assms reserve_spec [OF assms(3)] by (intro begin_round_ok) (auto simp: idle_sched_ok idle_def)

lemma collectBatch_idle:
  assumes "idle s" "sched_ok (s, ext)" "collectBatchProbeItems m now dueOnly s = (items, s')"
  shows "sched_ok (begin_round now rq items conv s', ext)"
proof -
  obtain ws where r: "reserveBatchProbeItems (sc_tagsInFlight s) ws = (items, sc_tagsInFlight s')" and "idle s'"
    using assms(1,3) by (auto simp: collectBatchProbeItems_def Let_def idle_def split: prod.splits)
  then show ?thesis using begin_reserved [OF assms(1,2) r refl] by simp
qed

lemma collectInitial_idle:
  assumes "idle s" "sched_ok (s, ext)" "collectInitialProbeItems m s = ((items, pending, waiting), s')"
  shows "sched_ok (begin_round now rq items conv (updateInitialStatus s'), ext)"
    "items = [] \<Longrightarrow> same_core s s'"
proof -
  define ws where "ws = List.map_filter (map_of (pending_work m))
    (add_tags (map fst (pending_work m)) (filter (\<lambda>t. t \<in> fst ` set (pending_work m)) (sc_initialQueue s)))"
  have r: "reserveBatchProbeItems (sc_tagsInFlight s) ws = (items, sc_tagsInFlight s')" and i: "idle s'"
    and eq: "same_core (s\<lparr>sc_tagsInFlight := sc_tagsInFlight s'\<rparr>) s'"
    using assms(1,3) by (auto simp: collectInitialProbeItems_def Let_def idle_def same_core_def ws_def split: prod.splits)
  have "idle (updateInitialStatus s')" "sc_tagsInFlight (updateInitialStatus s') = sc_tagsInFlight s'"
    using idle_core [OF core_updateInitialStatus i] by (simp_all add: updateInitialStatus_def)
  then show "sched_ok (begin_round now rq items conv (updateInitialStatus s'), ext)"
    using begin_reserved [OF assms(1,2) r] by simp
  show "same_core s s'" if "items = []"
    using eq reserve_nil [of _ ws "sc_tagsInFlight s'"] r unfolding that by (auto simp: same_core_def)
qed

lemma startNext_ok:
  assumes ok: "sched_ok (s, ext)" and run: "\<not> sc_stopped s"
  shows "sched_ok (startNext m now s, ext)"
proof (cases "sc_active s \<noteq> None \<or> sc_retryC s")
  case True
  then show ?thesis using ok by (auto simp: startNext_def)
next
  case False
  with ok run have i: "idle s" by (auto simp: sched_ok_def phase_ok_def idle_def)
  obtain q s0 where d: "drop_cancelled (sc_manualQueue s) s = (q, s0)" by fastforce
  note c0 = core_drop_cancelled [OF d]
  have upd: "idle s2 \<and> sched_ok (s2, ext)" if "same_core s0 s2" for s2
    using same_core_trans [OF c0 that] i ok idle_core sched_ok_core by blast
  have routine: "sched_ok (case collectBatchProbeItems m now b s2 of (items, s') \<Rightarrow> begin_round now rq items False s', ext)"
    if "same_core s0 s2" for b rq s2
    using upd [OF that] collectBatch_idle by (fastforce split: prod.split)
  define s1 where "s1 = s0\<lparr>sc_manualQueue := q\<rparr>"
  have c1: "same_core s0 s1" by (simp add: s1_def same_core_def)
  show ?thesis
  proof (cases q)
    case (Cons rq rqs)
    have "same_core s0 (s1\<lparr>sc_manualQueue := rqs\<rparr>)" by (simp add: s1_def same_core_def)
    from routine [OF this] show ?thesis using False d Cons by (simp add: startNext_def s1_def Let_def)
  next
    case Nil
    obtain items pending waiting s2 where ci: "collectInitialProbeItems m s1 = ((items, pending, waiting), s2)"
      by (metis prod_cases3 surj_pair)
    note both = collectInitial_idle [OF conjunct1 [OF upd [OF c1]] conjunct2 [OF upd [OF c1]] ci]
    have fin: "sched_ok (updateInitialStatus s2, ext)" "sched_ok (updateInitialStatus (finishInitialConvergence m (updateInitialStatus s2)), ext)"
      if "items = []"
      using both(2) [OF that] conjunct2 [OF upd [OF c1]] sched_ok_core same_core_trans core_updateInitialStatus core_finishInitialConvergence
      by blast+
    have "same_core s0 (s1\<lparr>sc_routinePending := False, sc_routineDueOnly := False\<rparr>)" by (simp add: s1_def same_core_def)
    note rt = routine [OF this]
    have "s0\<lparr>sc_manualQueue := []\<rparr> = s1" by (simp add: s1_def Nil)
    then show ?thesis using False d Nil ci both(1) fin rt conjunct2 [OF upd [OF c1]]
      by (simp add: startNext_def Let_def)
  qed
qed

lemma loop_top_ok:
  assumes "sched_ok (s, ext)" "\<not> sc_stopped s"
  shows "sched_ok (loop_top m now s, ext)"
proof -
  have "same_core s (if sc_periodicDirty s then resetPeriodicTimer m now (s\<lparr>sc_periodicDirty := False\<rparr>) else s)"
    by (simp add: resetPeriodicTimer_def same_core_def)
  with assms show ?thesis unfolding loop_top_def
    by (intro startNext_ok) (auto intro: sched_ok_core simp: same_core_def)
qed

section \<open>The end of a round\<close>

lemma release_tags: "sc_tagsInFlight (releaseTagProbe t s) = filter (\<lambda>x. x \<noteq> t) (sc_tagsInFlight s)"
  by (simp add: releaseTagProbe_def)

lemma fold_release: "fold (\<lambda>w. releaseTagProbe (f w)) ws s = s\<lparr>sc_tagsInFlight := filter (\<lambda>x. x \<notin> f ` set ws) (sc_tagsInFlight s)\<rparr>"
  by (induction ws arbitrary: s) (simp_all add: releaseTagProbe_def conj_commute)

lemma fold_adel: "fold (\<lambda>w. adel (f w)) ws xs = filter (\<lambda>(k, _). k \<notin> f ` set ws) xs"
  by (induction ws arbitrary: xs) (auto simp: adel_def intro!: filter_cong)

lemma close_idle:
  assumes "distinct (sc_tagsInFlight s)" "distinct ext" "set (sc_tagsInFlight s) = set ext"
    "\<not> sc_retryC s" "sc_wave s = None" "sc_events s = []" "\<not> sc_stopped s"
  shows "sched_ok (close_round m now a s, ext)" "\<not> sc_stopped (close_round m now a s)"
proof -
  let ?s1 = "updateInitialStatus (finishActiveRound m a s)"
  have c: "same_core s ?s1" using same_core_trans [OF core_finishActiveRound core_updateInitialStatus] .
  then have "idle (?s1\<lparr>sc_active := None, sc_activeC := False\<rparr>)" "sched_ok (?s1\<lparr>sc_active := None, sc_activeC := False\<rparr>, ext)"
    using assms by (auto simp: same_core_def idle_def sched_ok_def lease_ok_def phase_ok_def round_keys_def)
  moreover have "same_core (?s1\<lparr>sc_active := None, sc_activeC := False\<rparr>) (close_round m now a s)"
    by (simp add: close_round_def)
  ultimately show "sched_ok (close_round m now a s, ext)" "\<not> sc_stopped (close_round m now a s)"
    using idle_core sched_ok_core by (auto simp: idle_def)
qed

text \<open>A round whose items all wait for the retry gives their leases back and ends.\<close>

lemma drop_retry_close:
  assumes l: "lease_ok s ext" and a: "sc_active s = Some a" and all: "set (map wi_tag (ar_retry a)) = fst ` set (ar_items a)"
    and rest: "\<not> sc_retryC s" "sc_wave s = None" "sc_events s = []" "\<not> sc_stopped s" and d: "drop_retry a s = (a1, s1)"
  shows "sched_ok (close_round m now a1 s1, ext) \<and> \<not> sc_stopped (close_round m now a1 s1)"
proof -
  have s1: "s1 = s\<lparr>sc_tagsInFlight := filter (\<lambda>x. x \<notin> fst ` set (ar_items a)) (sc_tagsInFlight s)\<rparr>"
    using all d by (simp add: drop_retry_def fold_release)
  from l a have "distinct (sc_tagsInFlight s1)" "distinct ext" "set (sc_tagsInFlight s1) = set ext"
    unfolding s1 by (auto simp: lease_ok_def round_keys_def)
  from close_idle [OF this] rest show ?thesis by (simp add: s1)
qed

section \<open>Reports\<close>

lemma length_adel:
  assumes "distinct (map fst xs)" "k \<in> fst ` set xs"
  shows "length xs = Suc (length (adel k xs))"
  using assms
proof (induction xs)
  case (Cons p xs)
  show ?case
  proof (cases "fst p = k")
    case True
    with Cons.prems have "\<forall>q \<in> set xs. fst q \<noteq> k" by (metis distinct.simps(2) image_eqI list.map(2) set_map)
    then have "adel k xs = xs" by (auto simp: adel_def filter_id_conv)
    with True show ?thesis by (auto simp: adel_def split: prod.splits)
  next
    case False
    with Cons show ?thesis by (auto simp: adel_def split: prod.splits)
  qed
qed simp

lemma active_keys_distinct: "lease_ok s ext \<Longrightarrow> sc_active s = Some a \<Longrightarrow> distinct (map fst (ar_items a))"
  by (simp add: lease_ok_def round_keys_def)

lemma report_head_id: "round_ok a s \<Longrightarrow> sc_events s = Reported i res # evs \<Longrightarrow> i = ar_id a"
  by (auto simp: round_ok_def round_running_def round_drained_def round_abandoned_def round_resting_def Cons_eq_map_conv Cons_eq_append_conv)

text \<open>Taking a report off the channel leaves the round in its phase.\<close>

lemma report_taken:
  assumes ok: "round_ok a s" and ev: "sc_events s = Reported i res # evs"
    and a': "ar_id a' = ar_id a" "items_ok a'" "mset (waiting_retry a') = mset (waiting_retry a) + X"
      "fst ` set (ar_items a') = fst ` set (ar_items a) - {br_Tag res} \<union> set_mset X" "X = {#} \<or> X = {#br_Tag res#}"
    and s': "sc_retryC s' = sc_retryC s" "sc_wave s' = sc_wave s" "sc_cancelled s' = sc_cancelled s" "sc_events s' = evs"
  shows "round_ok a' s'"
proof -
  have out: "mset (outstanding a s) + X = mset (outstanding a' s') + {#br_Tag res#}"
    using a'(3) s' by (simp add: outstanding_def wave_left_def ev)
  have d: "distinct (outstanding a s)" and sub: "set (outstanding a s) \<subseteq> fst ` set (ar_items a)" using ok by (auto simp: round_ok_def)
  have hd: "br_Tag res \<in> set (outstanding a s)" by (simp add: outstanding_def ev)
  have d': "distinct (outstanding a' s')" and st: "set (outstanding a' s') = set (outstanding a s) - {br_Tag res} \<union> set_mset X"
    using a'(5)
  proof (atomize (full), elim disjE)
    assume x: "X = {#}"
    with out have m: "mset (outstanding a s) = mset (br_Tag res # outstanding a' s')" by simp
    from mset_eq_imp_distinct_iff [OF m] mset_eq_setD [OF m] d
    show "distinct (outstanding a' s') \<and> set (outstanding a' s') = set (outstanding a s) - {br_Tag res} \<union> set_mset X" by (auto simp: x)
  next
    assume x: "X = {#br_Tag res#}"
    with out have m: "mset (outstanding a s) = mset (outstanding a' s')" by simp
    from mset_eq_imp_distinct_iff [OF m] mset_eq_setD [OF m] d hd
    show "distinct (outstanding a' s') \<and> set (outstanding a' s') = set (outstanding a s) - {br_Tag res} \<union> set_mset X" by (auto simp: x)
  qed
  have ph: "round_abandoned a s \<Longrightarrow> round_abandoned a' s'" "round_running a s \<Longrightarrow> round_running a' s'"
    "round_drained a s \<Longrightarrow> round_drained a' s'" "\<not> round_resting a s"
    using ev s' a'(1) by (auto simp: round_running_def round_drained_def round_abandoned_def round_resting_def ctx_err_def
        Cons_eq_map_conv Cons_eq_append_conv)
  show ?thesis using ok ph d' st sub a'(2,4) by (auto simp: round_ok_def)
qed

lemma report_ok:
  assumes ok: "sched_ok (s, ext)" and run: "\<not> sc_stopped s" and act: "sc_active s = Some a" and ev: "sc_events s = Reported i res # evs"
  shows "sched_ok (handleExecutionResult m now a res (s\<lparr>sc_events := evs\<rparr>), ext)"
    "\<not> sc_stopped (handleExecutionResult m now a res (s\<lparr>sc_events := evs\<rparr>))"
proof -
  let ?s = "s\<lparr>sc_events := evs\<rparr>" and ?t = "br_Tag res"
  from ok act have l: "lease_ok s ext" and r: "round_ok a s" by (auto simp: sched_ok_def phase_ok_def)
  from r have it: "items_ok a" and sub: "set (outstanding a s) \<subseteq> fst ` set (ar_items a)" by (auto simp: round_ok_def)
  have key: "?t \<in> fst ` set (ar_items a)" using sub by (auto simp: outstanding_def ev)
  note dk = active_keys_distinct [OF l act]
  have "sched_ok (handleExecutionResult m now a res ?s, ext) \<and> \<not> sc_stopped (handleExecutionResult m now a res ?s)"
  proof (cases "retry_item m a res ?s")
    case (Some w)
    then have c: "ar_startup a" "ar_attempt a = 1" "map_of (ar_items a) ?t = Some w"
      unfolding retry_item_def by (auto split: if_splits option.splits)
    let ?a = "a\<lparr>ar_retry := ar_retry a @ [w]\<rparr>"
    have wt: "wi_tag w = ?t" using map_of_SomeD [OF c(3)] it by (auto simp: items_ok_def)
    have h: "handleExecutionResult m now a res ?s = ?s\<lparr>sc_active := Some ?a\<rparr>"
      using Some by (simp add: handleExecutionResult_def Let_def)
    have "round_ok ?a (?s\<lparr>sc_active := Some ?a\<rparr>)"
      by (rule report_taken [OF r ev, where X = "{#?t#}"]) (use it c wt key in \<open>auto simp: items_ok_def waiting_retry_def\<close>)
    then show ?thesis unfolding h using l act run by (simp add: sched_ok_def phase_ok_def lease_ok_def round_keys_def)
  next
    case None
    let ?a = "a\<lparr>ar_items := adel ?t (ar_items a),
      ar_summary := (if br_Err res \<noteq> None then (ar_summary a)\<lparr>sm_Failed := sm_Failed (ar_summary a) + 1\<rparr>
                     else (ar_summary a)\<lparr>sm_Success := sm_Success (ar_summary a) + 1\<rparr>)\<rparr>"
    obtain st where h: "handleExecutionResult m now a res ?s = (releaseTagProbe ?t ?s)\<lparr>sc_active := Some ?a, sc_round := st\<rparr>"
      using None by (simp add: handleExecutionResult_def Let_def)
    have ia: "items_ok ?a" using it length_adel [OF dk key] by (auto simp: items_ok_def)
    have rk: "round_ok ?a ((releaseTagProbe ?t ?s)\<lparr>sc_active := Some ?a, sc_round := st\<rparr>)"
      by (rule report_taken [OF r ev, where X = "{#}"]) (use ia in \<open>auto simp: waiting_retry_def releaseTagProbe_def\<close>)
    have "lease_ok ((releaseTagProbe ?t ?s)\<lparr>sc_active := Some ?a, sc_round := st\<rparr>) ext"
      using l act key by (auto simp: lease_ok_def round_keys_def releaseTagProbe_def)
    with rk run show ?thesis unfolding h by (simp add: sched_ok_def phase_ok_def releaseTagProbe_def)
  qed
  then show "sched_ok (handleExecutionResult m now a res ?s, ext)" "\<not> sc_stopped (handleExecutionResult m now a res ?s)" by auto
qed

lemma done_head:
  assumes "round_ok a s" "sc_events s = WaveDone i # evs"
  shows "evs = [] \<and> i = ar_id a \<and> \<not> sc_retryC s \<and> sc_wave s = None \<and> set (waiting_retry a) = fst ` set (ar_items a)"
  using assms by (auto simp: round_ok_def round_running_def round_drained_def round_abandoned_def round_resting_def
      Cons_eq_map_conv Cons_eq_append_conv outstanding_def wave_left_def)

lemma event_ok:
  assumes ok: "sched_ok (s, ext)" and run: "\<not> sc_stopped s" and ev: "sc_events s = e # evs"
  shows "sched_ok (on_event m now e (s\<lparr>sc_events := evs\<rparr>), ext) \<and> \<not> sc_stopped (on_event m now e (s\<lparr>sc_events := evs\<rparr>))"
proof -
  obtain a where act: "sc_active s = Some a" using ok run ev by (cases "sc_active s") (auto simp: sched_ok_def phase_ok_def)
  from ok act have l: "lease_ok s ext" and r: "round_ok a s" by (auto simp: sched_ok_def phase_ok_def)
  from r have it: "items_ok a" and rd: "distinct (outstanding a s)" by (auto simp: round_ok_def)
  let ?s = "s\<lparr>sc_events := evs\<rparr>"
  show ?thesis
  proof (cases e)
    case (Reported i res)
    with ev have "sc_events s = Reported i res # evs" by simp
    from report_ok [OF ok run act this] report_head_id [OF r this] show ?thesis by (simp add: on_event_def act Reported)
  next
    case (WaveDone i)
    with ev have "sc_events s = WaveDone i # evs" by simp
    note d = done_head [OF r this]
    have ls: "lease_ok ?s ext" using l by (simp add: lease_ok_def round_keys_def)
    consider "ar_startup a \<and> ar_attempt a = 1 \<and> ar_retry a \<noteq> []" "active_err a ?s = None"
      | "ar_startup a \<and> ar_attempt a = 1 \<and> ar_retry a \<noteq> []" "active_err a ?s \<noteq> None"
      | "\<not> (ar_startup a \<and> ar_attempt a = 1 \<and> ar_retry a \<noteq> [])" by blast
    then show ?thesis
    proof cases
      case 1
      have "round_ok a (?s\<lparr>sc_retryC := True\<rparr>)"
        using 1 d it rd ev by (auto simp: round_ok_def round_resting_def outstanding_def wave_left_def)
      then have "sched_ok (?s\<lparr>sc_retryC := True\<rparr>, ext)"
        using ls act run by (simp add: sched_ok_def phase_ok_def lease_ok_def round_keys_def)
      then show ?thesis using 1 d run by (simp add: on_event_def act WaveDone)
    next
      case 2
      obtain a1 s1 where dr: "drop_retry a ?s = (a1, s1)" by fastforce
      have "sched_ok (close_round m now a1 s1, ext) \<and> \<not> sc_stopped (close_round m now a1 s1)"
        by (rule drop_retry_close [OF ls _ _ _ _ _ _ dr]) (use 2 d act run in \<open>auto simp: waiting_retry_def\<close>)
      then show ?thesis using 2 d dr by (auto simp: on_event_def act WaveDone)
    next
      case 3
      then have "waiting_retry a = []" using it by (auto simp: waiting_retry_def items_ok_def)
      with d have "ar_items a = []" by auto
      with ls act have "distinct (sc_tagsInFlight ?s)" "distinct ext" "set (sc_tagsInFlight ?s) = set ext"
        by (auto simp: lease_ok_def round_keys_def)
      from close_idle [OF this] d run show ?thesis using 3 by (auto simp: on_event_def act WaveDone)
    qed
  qed
qed

lemma resting:
  assumes "sched_ok (s, ext)" "\<not> sc_stopped s" "sc_retryC s"
  shows "\<exists>a. sc_active s = Some a \<and> round_ok a s \<and> round_resting a s \<and> set (map wi_tag (ar_retry a)) = fst ` set (ar_items a)"
  using assms by (cases "sc_active s") (auto simp: sched_ok_def phase_ok_def round_ok_def round_running_def round_drained_def
      round_abandoned_def round_resting_def outstanding_def wave_left_def waiting_retry_def)

lemma retry_aborted:
  assumes ok: "sched_ok (s, ext)" and run: "\<not> sc_stopped s" and rt: "sc_retryC s" and act: "sc_active s = Some a"
    and dr: "drop_retry a (s\<lparr>sc_retryC := False\<rparr>) = (a1, s1)"
  shows "sched_ok (close_round m now a1 s1, ext) \<and> \<not> sc_stopped (close_round m now a1 s1)"
proof -
  have ls: "lease_ok (s\<lparr>sc_retryC := False\<rparr>) ext" using ok by (simp add: sched_ok_def lease_ok_def round_keys_def)
  show ?thesis
    by (rule drop_retry_close [OF ls _ _ _ _ _ _ dr]) (use resting [OF ok run rt] act run in \<open>auto simp: round_resting_def\<close>)
qed

lemma retry_ok:
  assumes ok: "sched_ok (s, ext)" and run: "\<not> sc_stopped s" and rt: "sc_retryC s"
  shows "sched_ok (on_retry m now s, ext) \<and> \<not> sc_stopped (on_retry m now s)"
proof -
  obtain a where act: "sc_active s = Some a" and r: "round_ok a s" and rest: "round_resting a s"
    and all: "set (map wi_tag (ar_retry a)) = fst ` set (ar_items a)" using resting [OF ok run rt] by blast
  show ?thesis
  proof (cases "active_err a (s\<lparr>sc_retryC := False\<rparr>)")
    case (Some e)
    obtain a1 s1 where dr: "drop_retry a (s\<lparr>sc_retryC := False\<rparr>) = (a1, s1)" by fastforce
    from retry_aborted [OF ok run rt act dr] Some dr show ?thesis by (auto simp: on_retry_def act)
  next
    case None
    let ?a = "a\<lparr>ar_attempt := 2\<rparr>"
    obtain st where h: "on_retry m now s = s\<lparr>sc_retryC := False, sc_active := Some ?a, sc_round := st, sc_wave := Some (ar_id a, map wi_tag (ar_retry a))\<rparr>"
      using None by (simp add: on_retry_def act launch_def Let_def)
    have "distinct (map wi_tag (ar_retry a))" using r rest by (auto simp: round_ok_def outstanding_def waiting_retry_def round_resting_def)
    then have "round_ok ?a (on_retry m now s)"
      using r rest all unfolding h
      by (auto simp: round_ok_def round_running_def round_resting_def outstanding_def wave_left_def waiting_retry_def items_ok_def)
    then show ?thesis using ok act run unfolding h by (auto simp: sched_ok_def phase_ok_def lease_ok_def round_keys_def)
  qed
qed

lemma active_done_ok:
  assumes ok: "sched_ok (s, ext)" and run: "\<not> sc_stopped s" and act: "sc_active s = Some a"
  shows "sched_ok (on_activeDone m now s, ext) \<and> \<not> sc_stopped (on_activeDone m now s)"
proof (cases "sc_retryC s")
  case True
  obtain a1 s1 where dr: "drop_retry a (s\<lparr>sc_retryC := False\<rparr>) = (a1, s1)" by fastforce
  from retry_aborted [OF ok run True act dr] True dr show ?thesis by (simp add: on_activeDone_def act)
next
  case False
  have "same_core s (s\<lparr>sc_activeC := False\<rparr>)" by (simp add: same_core_def)
  from sched_ok_core [OF this ok] False run show ?thesis by (simp add: on_activeDone_def act)
qed

lemma stop_ok:
  assumes ok: "sched_ok (s, ext)"
  shows "sched_ok (on_stop s, ext)"
proof -
  have resp: "sc_tagsInFlight (fold (\<lambda>rq. respond rq no_summary e) rqs t) = sc_tagsInFlight t" for e rqs t
    by (induction rqs arbitrary: t) (simp_all add: respond_def split: option.split)
  have rel: "fold (\<lambda>(tag, _). releaseTagProbe tag) ps t = t\<lparr>sc_tagsInFlight := filter (\<lambda>x. x \<notin> fst ` set ps) (sc_tagsInFlight t)\<rparr>"
    for ps :: "(string \<times> probeWorkItem) list" and t
    using fold_release [of fst ps t] by (simp add: case_prod_beta')
  show ?thesis using ok by (auto simp: on_stop_def Let_def sched_ok_def lease_ok_def phase_ok_def round_keys_def resp rel split: option.splits)
qed

section \<open>The executor and the callers\<close>

lemma wave_round:
  assumes "sched_ok (s, ext)" "sc_wave s = Some (i, left)" "sc_active s = Some a"
  shows "i = ar_id a \<and> \<not> sc_retryC s \<and> (\<exists>reps. sc_events s = map (Reported i) reps) \<and> items_ok a \<and>
    distinct (outstanding a s) \<and> set (outstanding a s) = fst ` set (ar_items a) \<and> \<not> sc_stopped s"
  using assms by (auto simp: sched_ok_def phase_ok_def round_ok_def round_running_def round_drained_def round_abandoned_def round_resting_def)

lemma executor_ok:
  assumes ok: "sched_ok (s, ext)" and w: "sc_wave s = Some (i, left)"
    and s': "s' = s\<lparr>sc_wave := w', sc_events := evs'\<rparr>"
    and step: "w' = Some (i, left') \<and> evs' = sc_events s @ [Reported i res] \<and> mset left = add_mset (br_Tag res) (mset left') \<or>
      w' = None \<and> left = [] \<and> evs' = sc_events s @ [WaveDone i]"
  shows "sched_ok (s', ext)"
proof (rule sched_okI)
  show "lease_ok s' ext" using ok by (simp add: sched_ok_def lease_ok_def round_keys_def s')
  show "phase_ok s'"
  proof (cases "sc_active s")
    case None
    then show ?thesis using ok w by (simp add: sched_ok_def phase_ok_def s')
  next
    case (Some a)
    note r = wave_round [OF ok w Some]
    have m: "mset (outstanding a s') = mset (outstanding a s)"
      using step w by (auto simp: outstanding_def wave_left_def s')
    have "round_running a s' \<or> round_drained a s'"
      using step r by (auto simp: round_running_def round_drained_def s' intro: exI [of _ "_ @ [res]"])
    then have "round_ok a s'"
      using r mset_eq_imp_distinct_iff [OF m] mset_eq_setD [OF m] by (auto simp: round_ok_def)
    then show ?thesis using Some r by (simp add: phase_ok_def s')
  qed
qed

lemma abandon_ok:
  assumes ok: "sched_ok (s, ext)" and c: "ctx_err 0 s \<noteq> None"
  shows "sched_ok (s\<lparr>sc_wave := None\<rparr>, ext)"
proof (cases "sc_wave s")
  case None
  then have "same_core s (s\<lparr>sc_wave := None\<rparr>)" by (simp add: same_core_def)
  then show ?thesis using ok by (rule sched_ok_core)
next
  case (Some w)
  obtain i left where w: "sc_wave s = Some (i, left)" using Some by (cases w) auto
  show ?thesis
  proof (cases "sc_active s")
    case None
    then show ?thesis using ok w by (simp add: sched_ok_def phase_ok_def lease_ok_def round_keys_def)
  next
    case (Some a)
    note r = wave_round [OF ok w Some]
    have "round_ok a (s\<lparr>sc_wave := None\<rparr>)"
      using r c w by (auto simp: round_ok_def round_abandoned_def ctx_err_def outstanding_def wave_left_def)
    then show ?thesis using ok Some r by (simp add: sched_ok_def phase_ok_def lease_ok_def round_keys_def)
  qed
qed

lemma outside_ok:
  assumes "sched_ok (s, ext)"
  shows "beginTagProbe tag s = (True, s') \<Longrightarrow> sched_ok (s', tag # ext)"
    "tag \<in> set ext \<Longrightarrow> sched_ok (endTagProbe tag s, remove1 tag ext)"
    "sched_ok (s\<lparr>sc_cancelled := c # sc_cancelled s\<rparr>, ext)"
proof -
  have c: "same_core s (s\<lparr>sc_cancelled := c # sc_cancelled s\<rparr>)" by (auto simp: same_core_def)
  show "sched_ok (s\<lparr>sc_cancelled := c # sc_cancelled s\<rparr>, ext)" by (rule sched_ok_core [OF c assms])
  have ph: "phase_ok s'" if "same_core s (s'\<lparr>sc_tagsInFlight := sc_tagsInFlight s\<rparr>)" for s'
    using phase_ok_core [OF that] assms phase_ok_core [of "s'\<lparr>sc_tagsInFlight := sc_tagsInFlight s\<rparr>" s']
    by (auto simp: sched_ok_def phase_ok_def round_ok_def outstanding_def wave_left_def round_running_def round_drained_def
        round_abandoned_def round_resting_def ctx_err_def split: option.splits)
  show "sched_ok (s', tag # ext)" if b: "beginTagProbe tag s = (True, s')"
  proof (rule sched_okI)
    have s': "tag \<notin> set (sc_tagsInFlight s)" "s' = s\<lparr>sc_tagsInFlight := tag # sc_tagsInFlight s\<rparr>"
      using b by (auto simp: beginTagProbe_def split: if_splits)
    then show "lease_ok s' (tag # ext)" using assms by (auto simp: sched_ok_def lease_ok_def round_keys_def)
    show "phase_ok s'" by (rule ph) (simp add: s' same_core_def)
  qed
  show "sched_ok (endTagProbe tag s, remove1 tag ext)" if "tag \<in> set ext"
  proof (rule sched_okI)
    show "lease_ok (endTagProbe tag s) (remove1 tag ext)"
      using assms that by (auto simp: sched_ok_def lease_ok_def round_keys_def endTagProbe_def releaseTagProbe_def)
    show "phase_ok (endTagProbe tag s)" by (rule ph) (simp add: same_core_def endTagProbe_def releaseTagProbe_def)
  qed
qed

lemma sched_ok_start: "sched_ok (loop_top m now newProbeScheduler, [])"
  by (rule loop_top_ok) (simp_all add: sched_ok_def lease_ok_def phase_ok_def round_keys_def newProbeScheduler_def)

lemma core_loop: "same_core s s' \<Longrightarrow> sched_ok (s, ext) \<Longrightarrow> \<not> sc_stopped s \<Longrightarrow> sched_ok (loop_top m now s', ext)"
  by (rule loop_top_ok) (auto intro: sched_ok_core simp: same_core_def)

lemma round_step_ok:
  assumes "round_step t t'" "sched_ok t"
  shows "sched_ok t'"
  using assms
proof (induction rule: round_step.induct)
  case (event s ev evs ext m now)
  then show ?case using event_ok loop_top_ok by blast
next
  case (retry s ext m now)
  then show ?case using retry_ok loop_top_ok by blast
next
  case (report s i left res ext)
  then show ?case by (intro executor_ok [OF report(4,1), of _ _ _ "remove1 (br_Tag res) left" res]) (auto simp: report_into_def)
next
  case (wave_done s i ext)
  then show ?case by (intro executor_ok [OF wave_done(3,1)]) (auto simp: finish_wave_def)
qed

lemma sched_step_ok:
  assumes "sched_step t t'" "sched_ok t"
  shows "sched_ok t'"
  using assms
proof (induction rule: sched_step.induct)
  case (active_done s a ext m now)
  then show ?case using active_done_ok loop_top_ok by blast
next
  case (take tag s s' ext)
  then show ?case using outside_ok(1) by blast
next
  case (give tag ext s)
  then show ?case using outside_ok(2) by blast
next
  case (cancel s ext c)
  then show ?case using outside_ok(3) by blast
qed (auto intro: core_loop stop_ok abandon_ok core_enqueue_initial core_request_routine core_submit_batch same_core_refl core_on_periodic round_step_ok)

interpretation scheduler: inductive_invariant "(loop_top m now newProbeScheduler, [])" sched_step sched_ok
  by unfold_locales (auto intro: sched_step_ok sched_ok_start)

lemma sched_reach_ok: "sched_reach t \<Longrightarrow> sched_ok t"
  unfolding sched_reach_def using scheduler.reachable_inv by blast

section \<open>Leases and items\<close>

text \<open>C23: no node is probed twice at a time and no lease leaks. In every reachable state of the scheduler, under
  every order of commands, reports, timers, cancelled contexts and registry changes, the lease table
  holds exactly the leases taken outside the actor and one for each unfinished item of the running round, and no tag has
  both. Every item of a round is counted once, as succeeded, failed or unfinished; unless the manager is
  stopping, each unfinished item is in exactly one place: with the executor, in the channel or waiting for its
  retry. Between rounds the channel is empty, so the actor's own send at the start of an empty round
  finds room.\<close>

theorem probe_leases_exact:
  assumes "sched_reach (s, ext)"
  shows "distinct (sc_tagsInFlight s) \<and> set (sc_tagsInFlight s) = set ext \<union> set (round_keys s) \<and>
    set ext \<inter> set (round_keys s) = {} \<and>
    (\<forall>a. sc_active s = Some a \<longrightarrow>
       sm_Total (ar_summary a) = sm_Success (ar_summary a) + sm_Failed (ar_summary a) + length (ar_items a) \<and>
       (ctx_err 0 s = None \<longrightarrow> mset (outstanding a s) = mset (map fst (ar_items a)))) \<and>
    (sc_active s = None \<longrightarrow> sc_stopped s \<or> sc_events s = [] \<and> sc_wave s = None)"
proof -
  from sched_reach_ok [OF assms] have l: "lease_ok s ext" and p: "phase_ok s" by (auto simp: sched_ok_def)
  have "sm_Total (ar_summary a) = sm_Success (ar_summary a) + sm_Failed (ar_summary a) + length (ar_items a) \<and>
       (ctx_err 0 s = None \<longrightarrow> mset (outstanding a s) = mset (map fst (ar_items a)))" if a: "sc_active s = Some a" for a
  proof -
    have r: "round_ok a s" using p a by (simp add: phase_ok_def)
    have "mset (outstanding a s) = mset (map fst (ar_items a))" if "ctx_err 0 s = None"
      using r that active_keys_distinct [OF l a] by (subst set_eq_iff_mset_eq_distinct [symmetric]) (auto simp: round_ok_def round_abandoned_def)
    with r show ?thesis by (simp add: round_ok_def items_ok_def)
  qed
  with l p show ?thesis by (auto simp: lease_ok_def phase_ok_def)
qed

definition demo_round :: probeScheduler where
  "demo_round = snd (beginTagProbe ''z'' (loop_top demo_manager 200 (enqueue_initial [''a''] (loop_top demo_manager 200 newProbeScheduler))))"

lemma demo_round_reached: "sched_reach (demo_round, [''z''])"
proof -
  let ?s0 = "loop_top demo_manager 200 newProbeScheduler" and ?s1 = "loop_top demo_manager 200 (enqueue_initial [''a''] (loop_top demo_manager 200 newProbeScheduler))"
  have f: "fst (beginTagProbe ''z'' ?s1)" "\<not> sc_stopped ?s0" by code_simp+
  have "sched_step (?s0, []) (?s1, [])" by (rule enqueue [OF f(2)])
  with reaches_refl have "reaches sched_step (?s0, []) (?s1, [])" by (rule reaches_step)
  moreover have "sched_step (?s1, []) (demo_round, [''z''])" using f(1) unfolding demo_round_def by (intro take) (simp add: prod_eq_iff)
  ultimately have "reaches sched_step (?s0, []) (demo_round, [''z''])" by (rule reaches_step)
  then show ?thesis unfolding sched_reach_def by blast
qed

theorem probe_leases_exact_witness:
  "sc_tagsInFlight demo_round = [''z'', ''a''] \<and> round_keys demo_round = [''a''] \<and>
   set (sc_tagsInFlight demo_round) = set [''z''] \<union> set (round_keys demo_round)"
proof -
  have "sc_tagsInFlight demo_round = [''z'', ''a'']" "round_keys demo_round = [''a'']" by code_simp+
  then show ?thesis using probe_leases_exact [OF demo_round_reached] by blast
qed

end
