(* ===== verification/Scheduler_Progress.thy ===== *)
theory Scheduler_Progress
  imports Scheduler_Steps
begin

text \<open>
  Progress of the probe scheduler. A round ends: its moves use up a measure that no other step raises, and
  one of them is always possible. Startup convergence ends: with a pending count that does not grow, the rounds it may still
  take are bounded by the count and by the limit on fruitless rounds.
\<close>

section \<open>A round ends\<close>

definition report_count :: "probeScheduler \<Rightarrow> nat" where
  "report_count s = length (concat (map report_tag (sc_events s)))"

definition done_count :: "probeScheduler \<Rightarrow> nat" where
  "done_count s = length (filter (\<lambda>e. report_tag e = []) (sc_events s))"

definition round_work :: "probeScheduler \<Rightarrow> nat" where
  "round_work s = (case sc_active s of None \<Rightarrow> 0
     | Some a \<Rightarrow> (if ar_attempt a = 1 then 3 + 5 * length (wave_left s) + 4 * report_count s + 3 * length (ar_retry a)
                  else 2 * length (wave_left s) + report_count s) + (if sc_wave s \<noteq> None then 2 else 0) + done_count s)"

definition round_over :: "probeScheduler \<Rightarrow> probeScheduler \<Rightarrow> bool" where
  "round_over s s' = (sc_active s' = None \<or> sc_nextRoundID s < sc_nextRoundID s')"

lemma round_work_core: "same_core s s' \<Longrightarrow> round_work s' = round_work s"
  by (auto simp: same_core_def round_work_def wave_left_def report_count_def done_count_def split: option.split)

lemma round_work_retryC [simp]: "round_work (s\<lparr>sc_retryC := b\<rparr>) = round_work s"
  by (cases "sc_active s") (auto simp: round_work_def wave_left_def report_count_def done_count_def)

lemma begin_round_id: "sc_nextRoundID (begin_round now rq items conv s) = sc_nextRoundID s + 1"
  by (simp add: begin_round_def startActiveRound_def launch_def Let_def)

text \<open>At the top of the loop a running round is left alone; without one, a new number is used or none runs.\<close>

lemma loop_top_active:
  assumes "sc_active s \<noteq> None"
  shows "same_core s (loop_top m now s)" "sc_nextRoundID (loop_top m now s) = sc_nextRoundID s"
  using assms by (auto simp: loop_top_def startNext_def resetPeriodicTimer_def same_core_def)

lemma drop_cancelled_id: "drop_cancelled rqs s = (rqs', s') \<Longrightarrow> sc_nextRoundID s' = sc_nextRoundID s"
  by (induction rqs s rule: drop_cancelled.induct) (auto simp: respond_def split: option.splits)

lemma startNext_over:
  assumes "sc_active s = None"
  shows "round_over s (startNext m now s)"
proof -
  obtain q s0 where d: "drop_cancelled (sc_manualQueue s) s = (q, s0)" by fastforce
  have e: "sc_active s0 = None" "sc_nextRoundID s0 = sc_nextRoundID s"
    using core_drop_cancelled [OF d] drop_cancelled_id [OF d] assms by (auto simp: same_core_def)
  show ?thesis using e assms unfolding startNext_def
    by (auto simp: d Let_def round_over_def begin_round_id collectBatchProbeItems_def collectInitialProbeItems_def
        updateInitialStatus_def finishInitialConvergence_def split: list.split prod.split)
qed

lemma loop_top_over:
  assumes "sc_active s = None"
  shows "round_over s (loop_top m now s)"
proof -
  let ?s = "if sc_periodicDirty s then resetPeriodicTimer m now (s\<lparr>sc_periodicDirty := False\<rparr>) else s"
  have "sc_active ?s = None" "sc_nextRoundID ?s = sc_nextRoundID s" using assms by (auto simp: resetPeriodicTimer_def)
  then show ?thesis using startNext_over [of ?s m now] by (simp add: loop_top_def round_over_def)
qed

definition progressed :: "probeScheduler \<Rightarrow> probeScheduler \<Rightarrow> bool" where
  "progressed s s' = (sc_nextRoundID s' = sc_nextRoundID s \<and> (sc_active s' = None \<or> round_work s' < round_work s))"

lemma progressed_loop:
  assumes "progressed s s2"
  shows "round_over s (loop_top m now s2) \<or> round_work (loop_top m now s2) < round_work s"
proof (cases "sc_active s2")
  case None
  then show ?thesis using loop_top_over [OF None, of m now] assms by (auto simp: progressed_def round_over_def)
next
  case (Some a)
  then have "same_core s2 (loop_top m now s2)" by (intro loop_top_active) simp
  with assms Some show ?thesis by (simp add: progressed_def round_work_core)
qed

lemma refresh_id: "sc_nextRoundID (refreshInitialQueue m s) = sc_nextRoundID s"
  by (simp add: refreshInitialQueue_def finishInitialConvergence_def resetConvergenceStall_def Let_def)

lemma close_over: "sc_active (close_round m now a s) = None \<and> sc_nextRoundID (close_round m now a s) = sc_nextRoundID s"
  by (auto simp: close_round_def resetPeriodicTimer_def updateInitialStatus_def finishActiveRound_def Let_def refresh_id respond_def split: option.split)

lemma drop_retry_id: "drop_retry a s = (a1, s1) \<Longrightarrow> sc_nextRoundID s1 = sc_nextRoundID s"
  by (auto simp: drop_retry_def fold_release)

lemma drop_close_progressed: "drop_retry a s0 = (a1, s1) \<Longrightarrow> sc_nextRoundID s0 = sc_nextRoundID s \<Longrightarrow> progressed s (close_round m now a1 s1)"
  using close_over [of m now a1 s1] by (auto simp: progressed_def dest: drop_retry_id)

lemma event_progressed:
  assumes act: "sc_active s = Some a" and ev: "sc_events s = e # evs"
  shows "progressed s (on_event m now e (s\<lparr>sc_events := evs\<rparr>))"
proof -
  let ?s = "s\<lparr>sc_events := evs\<rparr>"
  have base: "round_work ?s < round_work s"
    by (cases e) (auto simp: round_work_def act ev report_count_def done_count_def wave_left_def)
  show ?thesis
  proof (cases e)
    case (Reported i res)
    have less: "round_work (handleExecutionResult m now a res ?s) < round_work s" "sc_nextRoundID (handleExecutionResult m now a res ?s) = sc_nextRoundID s"
      by (auto simp: handleExecutionResult_def Let_def releaseTagProbe_def round_work_def act ev Reported report_count_def done_count_def
          wave_left_def retry_item_def split: option.split)
    show ?thesis using less base by (auto simp: on_event_def act Reported progressed_def)
  next
    case (WaveDone i)
    obtain a1 s1 where d: "drop_retry a ?s = (a1, s1)" by fastforce
    have close: "progressed s (close_round m now a1 s1)" by (rule drop_close_progressed [OF d]) simp
    have plain: "progressed s (close_round m now a ?s)" using close_over [of m now a ?s] by (simp add: progressed_def)
    have rest: "progressed s (?s\<lparr>sc_retryC := True\<rparr>)" using base by (simp add: progressed_def)
    show ?thesis using close plain rest base by (simp add: on_event_def act WaveDone d) (simp add: progressed_def)
  qed
qed

lemma retry_progressed:
  assumes ok: "sched_ok (s, ext)" and run: "\<not> sc_stopped s" and rt: "sc_retryC s"
  shows "progressed s (on_retry m now s)"
proof -
  obtain a where act: "sc_active s = Some a" and rest: "round_resting a s" using resting [OF ok run rt] by blast
  obtain a1 s1 where d: "drop_retry a (s\<lparr>sc_retryC := False\<rparr>) = (a1, s1)" by fastforce
  have close: "progressed s (close_round m now a1 s1)" by (rule drop_close_progressed [OF d]) simp
  show ?thesis
  proof (cases "active_err a (s\<lparr>sc_retryC := False\<rparr>)")
    case None
    then show ?thesis using rest by (simp add: on_retry_def act Let_def progressed_def launch_def round_work_def round_resting_def
          wave_left_def report_count_def done_count_def)
  qed (simp add: on_retry_def act Let_def d close)
qed

lemma executor_progressed:
  assumes "sc_active s = Some a" "sc_wave s = Some (i, left)"
  shows "br_Tag res \<in> set left \<Longrightarrow> progressed s (report_into i res left s)" "left = [] \<Longrightarrow> progressed s (finish_wave i s)"
proof -
  assume t: "br_Tag res \<in> set left"
  then have "length left = Suc (length (remove1 (br_Tag res) left))" by (metis One_nat_def Suc_pred length_pos_if_in_set length_remove1)
  then show "progressed s (report_into i res left s)" using assms
    by (simp add: progressed_def round_work_def report_into_def wave_left_def report_count_def done_count_def)
next
  assume "left = []"
  then show "progressed s (finish_wave i s)" using assms
    by (simp add: progressed_def round_work_def finish_wave_def wave_left_def report_count_def done_count_def)
qed

lemma round_step_progress:
  assumes "round_step (s, ext) (s', ext')" "sched_ok (s, ext)" "sc_active s = Some a"
  shows "round_over s s' \<or> round_work s' < round_work s"
  using assms(1)
proof (cases rule: round_step.cases)
  case (event ev evs m now)
  then show ?thesis using progressed_loop [OF event_progressed [OF assms(3) event(4)]] by simp
next
  case (retry m now)
  then show ?thesis using progressed_loop [OF retry_progressed [OF assms(2) retry(3,4)]] by simp
next
  case (report i left res)
  then show ?thesis using executor_progressed(1) [OF assms(3) report(3,4)] by (auto simp: progressed_def round_over_def)
next
  case (wave_done i)
  then show ?thesis using executor_progressed(2) [OF assms(3) wave_done(3)] by (auto simp: progressed_def round_over_def)
qed

lemma quiet_loop:
  assumes "same_core s s2" "sc_active s = Some a"
  shows "round_work (loop_top m now s2) = round_work s"
proof -
  have "sc_active s2 \<noteq> None" using assms by (simp add: same_core_def)
  from loop_top_active(1) [OF this] assms(1) show ?thesis by (metis round_work_core)
qed

lemma step_no_more_work:
  assumes st: "sched_step (s, ext) (s', ext')" and ok: "sched_ok (s, ext)" and act: "sc_active s = Some a"
  shows "round_over s s' \<or> round_work s' \<le> round_work s"
  using st
proof (cases rule: sched_step.cases)
  case (active_done b m now)
  obtain a1 s1 where d: "drop_retry a (s\<lparr>sc_retryC := False\<rparr>) = (a1, s1)" by fastforce
  show ?thesis
  proof (cases "sc_retryC s")
    case True
    have "progressed s (close_round m now a1 s1)" by (rule drop_close_progressed [OF d]) simp
    from progressed_loop [OF this, of m now] active_done True d show ?thesis by (auto simp: on_activeDone_def act)
  next
    case False
    have "same_core s (s\<lparr>sc_activeC := False\<rparr>)" by (simp add: same_core_def)
    from quiet_loop [OF this act] active_done False show ?thesis by (simp add: on_activeDone_def act)
  qed
next
  case stop
  then show ?thesis by (auto simp: round_over_def on_stop_def Let_def)
next
  case abandon
  then show ?thesis by (auto simp: round_work_def act wave_left_def report_count_def done_count_def split: option.split)
next
  case (take tag)
  then show ?thesis by (auto simp: beginTagProbe_def round_work_def act wave_left_def report_count_def done_count_def split: if_splits)
next
  case (give tag)
  then show ?thesis by (auto simp: endTagProbe_def releaseTagProbe_def round_work_def act wave_left_def report_count_def done_count_def)
next
  case (cancel c)
  then show ?thesis by (auto simp: round_work_def act wave_left_def report_count_def done_count_def)
next
  case round
  then show ?thesis using round_step_progress [OF _ ok act] by fastforce
qed (use quiet_loop [OF _ act] in \<open>auto\<close>)

lemma round_step_enabled:
  assumes ok: "sched_ok (s, ext)" and act: "sc_active s = Some a" and live: "ctx_err 0 s = None"
  shows "\<exists>t. round_step (s, ext) t"
proof -
  from ok act have run: "\<not> sc_stopped s" and r: "round_ok a s" by (auto simp: sched_ok_def phase_ok_def)
  have "round_running a s \<or> round_drained a s \<or> round_resting a s" using r live by (auto simp: round_ok_def round_abandoned_def)
  then consider e evs where "sc_events s = e # evs" | "sc_retryC s" | i left where "sc_wave s = Some (i, left)" "sc_events s = []"
    by (cases "sc_events s") (auto simp: round_running_def round_drained_def round_resting_def)
  then show ?thesis
  proof cases
    case (3 i left)
    show ?thesis
    proof (cases left)
      case Nil
      with 3 show ?thesis using wave_done [of s i ext] by auto
    next
      case (Cons t ts)
      let ?res = "\<lparr>br_Tag = t, br_Name = [], br_Latency = 0, br_Err = None, br_Attempts = 1\<rparr>"
      from 3 Cons show ?thesis using report [of s i left ?res ext] by auto
    qed
  qed (use run event retry in blast)+
qed

text \<open>C6: every round ends. Each move of the actor or the executor on a running round ends the round or uses up the
  work left in it, no step of anyone else, commands, timers, leases, cancellations or registry changes, adds work to it,
  and as long as the manager is not stopped a move is possible. The retry of a startup round is
  included.\<close>

theorem every_round_ends:
  assumes "sched_reach (s, ext)" "sc_active s = Some a"
  shows "(\<forall>s' ext'. round_step (s, ext) (s', ext') \<longrightarrow> round_over s s' \<or> round_work s' < round_work s) \<and>
    (\<forall>s' ext'. sched_step (s, ext) (s', ext') \<longrightarrow> round_over s s' \<or> round_work s' \<le> round_work s) \<and>
    (ctx_err 0 s = None \<longrightarrow> (\<exists>t. round_step (s, ext) t))"
  using sched_reach_ok [OF assms(1)] assms(2) round_step_progress step_no_more_work round_step_enabled by blast

theorem every_round_ends_witness:
  "\<exists>s' ext'. round_step (demo_round, [''z'']) (s', ext') \<and> (round_over demo_round s' \<or> round_work s' < round_work demo_round)"
proof -
  have "sc_active demo_round \<noteq> None" "ctx_err 0 demo_round = None" by code_simp+
  then obtain a where "sc_active demo_round = Some a" "ctx_err 0 demo_round = None" by blast
  with every_round_ends [OF demo_round_reached] show ?thesis by (metis surj_pair)
qed

end
