(* ===== verification/Scheduler_Convergence.thy ===== *)
theory Scheduler_Convergence
  imports Scheduler_Progress
begin

text \<open>
  Startup convergence of the probe scheduler: what each step does to the convergence state, and a bound on the number of
  rounds it can take.
\<close>

definition same_conv :: "probeScheduler \<Rightarrow> probeScheduler \<Rightarrow> bool" where
  "same_conv s s' = (sc_initialRunning s' = sc_initialRunning s \<and> sc_convergenceStallRounds s' = sc_convergenceStallRounds s \<and>
     sc_lastPendingCount s' = sc_lastPendingCount s)"

lemma same_conv_refl [simp]: "same_conv s s" by (simp add: same_conv_def)

lemma same_conv_trans: "same_conv s t \<Longrightarrow> same_conv t u \<Longrightarrow> same_conv s u"
  by (simp add: same_conv_def)

text \<open>A refresh reads only the convergence state and the pending count.\<close>

lemma refresh_conv:
  "sc_initialRunning (refreshInitialQueue m s) = (sc_initialRunning s \<and> pendingTags m \<noteq> [] \<and>
     (length (pendingTags m) = sc_lastPendingCount s \<longrightarrow> sc_convergenceStallRounds s + 1 < maxConvergenceStallRounds))"
  "pendingTags m \<noteq> [] \<Longrightarrow> length (pendingTags m) = sc_lastPendingCount s \<Longrightarrow> sc_convergenceStallRounds s + 1 < maxConvergenceStallRounds \<Longrightarrow>
     sc_convergenceStallRounds (refreshInitialQueue m s) = sc_convergenceStallRounds s + 1 \<and> sc_lastPendingCount (refreshInitialQueue m s) = length (pendingTags m)"
  "pendingTags m \<noteq> [] \<Longrightarrow> length (pendingTags m) \<noteq> sc_lastPendingCount s \<Longrightarrow>
     sc_convergenceStallRounds (refreshInitialQueue m s) = 0 \<and> sc_lastPendingCount (refreshInitialQueue m s) = length (pendingTags m)"
  by (auto simp: refreshInitialQueue_def finishInitialConvergence_def resetConvergenceStall_def Let_def)

lemma refresh_conv_cong: "same_conv s s' \<Longrightarrow> same_conv (refreshInitialQueue m s) (refreshInitialQueue m s')"
  by (auto simp: same_conv_def refreshInitialQueue_def finishInitialConvergence_def resetConvergenceStall_def Let_def)

lemma conv_respond [simp]: "same_conv s (respond rq summary err s)"
  by (simp add: respond_def same_conv_def split: option.split)

lemma conv_drop_cancelled: "drop_cancelled rqs s = (rqs', s') \<Longrightarrow> same_conv s s'"
proof (induction rqs s rule: drop_cancelled.induct)
  case (2 rq rqs s)
  then show ?case by (cases "ctx_err (rq_ctx rq) s") (auto intro: same_conv_trans [OF conv_respond])
qed auto

lemma conv_begin_round [simp]: "same_conv s (begin_round now rq items conv s)"
  by (simp add: begin_round_def startActiveRound_def launch_def Let_def same_conv_def)

text \<open>The top of the loop keeps the convergence state or ends convergence; it never starts it.\<close>

lemma conv_collectBatch: "collectBatchProbeItems m now b s = (items, s') \<Longrightarrow> same_conv s s'"
  by (auto simp: collectBatchProbeItems_def Let_def same_conv_def split: prod.splits)

lemma conv_collectInitial: "collectInitialProbeItems m s = (r, s') \<Longrightarrow> same_conv s s'"
  by (auto simp: collectInitialProbeItems_def Let_def same_conv_def split: prod.splits)

lemma conv_updateInitialStatus [simp]: "same_conv s (updateInitialStatus s)"
  by (simp add: updateInitialStatus_def same_conv_def)

lemma conv_finish: "same_conv s (finishInitialConvergence m s) \<or> \<not> sc_initialRunning (finishInitialConvergence m s)"
  by (simp add: finishInitialConvergence_def same_conv_def Let_def)

lemma startNext_conv: "same_conv s (startNext m now s) \<or> \<not> sc_initialRunning (startNext m now s)"
proof (cases "sc_active s \<noteq> None \<or> sc_retryC s")
  case False
  obtain q s0 where d: "drop_cancelled (sc_manualQueue s) s = (q, s0)" by fastforce
  note c = conv_drop_cancelled [OF d]
  have routine: "same_conv s (case collectBatchProbeItems m now b s2 of (items, s') \<Rightarrow> begin_round now rq items False s')"
    if s2: "same_conv s0 s2" for b rq s2
  proof -
    obtain items s' where cb: "collectBatchProbeItems m now b s2 = (items, s')" by fastforce
    from same_conv_trans [OF same_conv_trans [OF same_conv_trans [OF c s2] conv_collectBatch [OF cb]] conv_begin_round]
    show ?thesis by (simp add: cb)
  qed
  define s1 where "s1 = s0\<lparr>sc_manualQueue := q\<rparr>"
  have c1: "same_conv s s1" using c by (simp add: s1_def same_conv_def)
  show ?thesis
  proof (cases q)
    case (Cons rq rqs)
    have "same_conv s0 (s1\<lparr>sc_manualQueue := rqs\<rparr>)" by (simp add: s1_def same_conv_def)
    from routine [OF this] show ?thesis using False d Cons by (simp add: startNext_def s1_def Let_def)
  next
    case Nil
    obtain items pending waiting s2 where ci: "collectInitialProbeItems m s1 = ((items, pending, waiting), s2)"
      by (metis prod_cases3 surj_pair)
    have c3: "same_conv s (updateInitialStatus s2)" using same_conv_trans [OF same_conv_trans [OF c1 conv_collectInitial [OF ci]] conv_updateInitialStatus] .
    have fin: "same_conv s (updateInitialStatus (finishInitialConvergence m (updateInitialStatus s2))) \<or>
        \<not> sc_initialRunning (updateInitialStatus (finishInitialConvergence m (updateInitialStatus s2)))"
      using c3 conv_finish [of "updateInitialStatus s2" m] by (auto simp: same_conv_def updateInitialStatus_def)
    have "same_conv s0 (s1\<lparr>sc_routinePending := False, sc_routineDueOnly := False\<rparr>)" by (simp add: s1_def same_conv_def)
    note rt = routine [OF this]
    have "s0\<lparr>sc_manualQueue := []\<rparr> = s1" by (simp add: s1_def Nil)
    then show ?thesis using False d Nil ci c1 c3 fin rt same_conv_trans [OF c3 conv_begin_round]
      by (simp add: startNext_def Let_def)
  qed
qed (auto simp: startNext_def)

lemma loop_top_conv: "same_conv s (loop_top m now s) \<or> \<not> sc_initialRunning (loop_top m now s)"
  using startNext_conv [of "if sc_periodicDirty s then resetPeriodicTimer m now (s\<lparr>sc_periodicDirty := False\<rparr>) else s" m now]
  by (auto simp: loop_top_def same_conv_def resetPeriodicTimer_def)

section \<open>Steps\<close>

definition conv_moved :: "Manager \<Rightarrow> probeScheduler \<Rightarrow> probeScheduler \<Rightarrow> bool" where
  "conv_moved m s s' = (same_conv s s' \<or>
     (\<exists>a. sc_active s = Some a \<and> ar_convergence a \<and> same_conv (refreshInitialQueue m s) s'))"

lemma conv_moved_loop:
  assumes "conv_moved m s s2"
  shows "\<not> sc_initialRunning (loop_top m now s2) \<or> conv_moved m s (loop_top m now s2)"
  using loop_top_conv [of s2 m now] assms same_conv_trans unfolding conv_moved_def by blast

lemma close_conv:
  assumes "same_conv s s1" "sc_active s = Some a" "ar_convergence a1 = ar_convergence a"
  shows "conv_moved m s (close_round m now a1 s1)"
proof -
  let ?r = "respond (ar_request a1) (ar_summary a1) (active_err a1 s1) (s1\<lparr>sc_round := (sc_round s1)\<lparr>rs_InFlight := False\<rparr>\<rparr>)"
  have "same_conv s (s1\<lparr>sc_round := (sc_round s1)\<lparr>rs_InFlight := False\<rparr>\<rparr>)" using assms(1) by (simp add: same_conv_def)
  from same_conv_trans [OF this conv_respond] have r: "same_conv s ?r" .
  have eq: "close_round m now a1 s1 = resetPeriodicTimer m now ((updateInitialStatus
      (if ar_convergence a1 then refreshInitialQueue m ?r else ?r))\<lparr>sc_active := None, sc_activeC := False\<rparr>)"
    by (simp add: close_round_def finishActiveRound_def Let_def)
  have tail: "same_conv t (resetPeriodicTimer m now ((updateInitialStatus t)\<lparr>sc_active := None, sc_activeC := False\<rparr>))" for t
    by (simp add: same_conv_def resetPeriodicTimer_def updateInitialStatus_def)
  show ?thesis
  proof (cases "ar_convergence a1")
    case True
    then have "same_conv (refreshInitialQueue m s) (close_round m now a1 s1)"
      using same_conv_trans [OF refresh_conv_cong [OF r] tail] by (simp add: eq)
    with True assms show ?thesis by (auto simp: conv_moved_def)
  next
    case False
    then show ?thesis using same_conv_trans [OF r tail] by (simp add: eq conv_moved_def)
  qed
qed

lemma drop_close_conv:
  assumes "drop_retry a s0 = (a1, s1)" "same_conv s s0" "sc_active s = Some a"
  shows "conv_moved m s (close_round m now a1 s1)"
  by (rule close_conv [OF _ assms(3)]) (use assms in \<open>auto simp: drop_retry_def fold_release same_conv_def\<close>)

lemma event_conv: "conv_moved m s (on_event m now e (s\<lparr>sc_events := evs\<rparr>))"
proof (cases "sc_active s")
  case None
  then show ?thesis by (simp add: on_event_def conv_moved_def same_conv_def)
next
  case (Some a)
  let ?s = "s\<lparr>sc_events := evs\<rparr>"
  obtain a1 s1 where d: "drop_retry a ?s = (a1, s1)" by fastforce
  have h: "same_conv s (handleExecutionResult m now a res ?s)" for res
    by (simp add: handleExecutionResult_def releaseTagProbe_def Let_def same_conv_def split: option.split)
  have sc: "same_conv s ?s" "same_conv s (?s\<lparr>sc_retryC := True\<rparr>)" by (simp_all add: same_conv_def)
  show ?thesis using h sc drop_close_conv [OF d sc(1) Some, of m now] close_conv [OF sc(1) Some refl, of m now]
    by (cases e) (auto simp: on_event_def Some d conv_moved_def)
qed

lemma retry_conv:
  assumes "sc_active s = Some a" "drop_retry a (s\<lparr>sc_retryC := False\<rparr>) = (a1, s1)"
  shows "conv_moved m s (close_round m now a1 s1)"
  by (rule drop_close_conv [OF assms(2) _ assms(1)]) (simp add: same_conv_def)

lemma on_retry_conv: "conv_moved m s (on_retry m now s)"
proof (cases "sc_active s")
  case None
  then show ?thesis by (simp add: on_retry_def conv_moved_def same_conv_def)
next
  case (Some a)
  obtain a1 s1 where d: "drop_retry a (s\<lparr>sc_retryC := False\<rparr>) = (a1, s1)" by fastforce
  show ?thesis
  proof (cases "active_err a (s\<lparr>sc_retryC := False\<rparr>)")
    case None
    then show ?thesis by (simp add: on_retry_def Some launch_def Let_def conv_moved_def same_conv_def)
  qed (use retry_conv [OF Some d] in \<open>simp add: on_retry_def Some d Let_def\<close>)
qed

lemma on_activeDone_conv: "conv_moved m s (on_activeDone m now s)"
proof (cases "sc_active s")
  case None
  then show ?thesis by (simp add: on_activeDone_def conv_moved_def same_conv_def)
next
  case (Some a)
  obtain a1 s1 where d: "drop_retry a (s\<lparr>sc_retryC := False\<rparr>) = (a1, s1)" by fastforce
  show ?thesis
  proof (cases "sc_retryC s")
    case False
    then show ?thesis by (simp add: on_activeDone_def Some conv_moved_def same_conv_def)
  qed (use retry_conv [OF Some d] in \<open>simp add: on_activeDone_def Some d\<close>)
qed

lemma command_conv:
  "sc_initialRunning s \<Longrightarrow> same_conv s (enqueue_initial tags s)" "same_conv s (request_routine b s)" "same_conv s (submit_batch rq s)"
  "same_conv s (on_periodic s)" "same_conv s (on_stop s)"
proof -
  have resp: "same_conv t (fold (\<lambda>rq. respond rq no_summary e) rqs t)" for e rqs t
    by (induction rqs arbitrary: t) (auto intro: same_conv_trans [OF conv_respond])
  have rel: "same_conv t (fold (\<lambda>(tag, _). releaseTagProbe tag) ps t)" for ps :: "(string \<times> probeWorkItem) list" and t
    using fold_release [of fst ps t] by (simp add: case_prod_beta' same_conv_def)
  have "same_conv s (case sc_active s of None \<Rightarrow> s | Some a \<Rightarrow> fold (\<lambda>(tag, _). releaseTagProbe tag) (ar_items a) s)"
    using rel by (simp split: option.split)
  from same_conv_trans [OF this resp] show "same_conv s (on_stop s)" by (simp add: on_stop_def Let_def same_conv_def)
qed (simp_all add: enqueue_initial_def updateInitialStatus_def request_routine_def submit_batch_def on_periodic_def respond_def same_conv_def
    split: option.split)

lemma step_conv:
  assumes "sched_step (s, ext) (s', ext')" "sc_initialRunning s"
  shows "\<not> sc_initialRunning s' \<or> (\<exists>m. conv_moved m s s')"
proof -
  have same: "\<not> sc_initialRunning (loop_top m now s2) \<or> (\<exists>m'. conv_moved m' s (loop_top m now s2))" if "same_conv s s2" for m now s2
    using conv_moved_loop [of m s s2 now] that by (auto simp: conv_moved_def)
  from assms(1) show ?thesis
  proof (cases rule: sched_step.cases)
    case (active_done a m now)
    then show ?thesis using conv_moved_loop [OF on_activeDone_conv [of m s now], of now] by auto
  next
    case round
    then show ?thesis
    proof (cases rule: round_step.cases)
      case (event ev evs m now)
      then show ?thesis using conv_moved_loop [OF event_conv [of m s now ev evs], of now] by auto
    next
      case (retry m now)
      then show ?thesis using conv_moved_loop [OF on_retry_conv [of m s now], of now] by auto
    qed (auto simp: report_into_def finish_wave_def conv_moved_def same_conv_def)
  next
    case (enqueue m now tags)
    then show ?thesis using same [OF command_conv(1) [OF assms(2)]] by blast
  next
    case (routine m now dueOnly)
    then show ?thesis using same [OF command_conv(2)] by blast
  next
    case (run_batch m now rq)
    then show ?thesis using same [OF command_conv(3)] by blast
  next
    case (wake m now)
    then show ?thesis using same [OF same_conv_refl] by blast
  next
    case (periodic m now)
    then show ?thesis using same [OF command_conv(4)] by blast
  next
    case stop
    then show ?thesis using command_conv(5) [of s] by (auto simp: conv_moved_def)
  qed (auto simp: conv_moved_def beginTagProbe_def endTagProbe_def releaseTagProbe_def same_conv_def split: if_splits)
qed

section \<open>The bound\<close>

text \<open>A run of the scheduler that starts while convergence is running, with the pending counts its convergence rounds found.
  The run may go on as long as convergence does; each step either leaves the convergence state alone, ends it, or ends a
  convergence round.\<close>

inductive conv_run :: "sched_state \<Rightarrow> nat list \<Rightarrow> sched_state \<Rightarrow> bool" where
  begun: "conv_run t [] t"
| quiet: "conv_run t ns t1 \<Longrightarrow> sc_initialRunning (fst t1) \<Longrightarrow> sched_step t1 t2 \<Longrightarrow> same_conv (fst t1) (fst t2) \<or> \<not> sc_initialRunning (fst t2) \<Longrightarrow>
    conv_run t ns t2"
| round_end: "conv_run t ns t1 \<Longrightarrow> sc_initialRunning (fst t1) \<Longrightarrow> sched_step t1 t2 \<Longrightarrow> sc_active (fst t1) = Some a \<Longrightarrow> ar_convergence a \<Longrightarrow>
    same_conv (refreshInitialQueue m (fst t1)) (fst t2) \<Longrightarrow> conv_run t (ns @ [length (pendingTags m)]) t2"

lemma conv_run_extend:
  assumes "conv_run t ns t1" "sc_initialRunning (fst t1)" "sched_step t1 t2"
  shows "\<exists>ns'. conv_run t (ns @ ns') t2"
proof -
  obtain s ext s' ext' where e: "t1 = (s, ext)" "t2 = (s', ext')" by (metis surj_pair)
  from step_conv [of s ext s' ext'] assms(2,3) e consider "same_conv s s' \<or> \<not> sc_initialRunning s'"
    | m a where "sc_active s = Some a" "ar_convergence a" "same_conv (refreshInitialQueue m s) s'"
    by (auto simp: conv_moved_def)
  then show ?thesis
  proof cases
    case 1
    with quiet [OF assms] e have "conv_run t (ns @ []) t2" by simp
    then show ?thesis ..
  next
    case (2 m a)
    with round_end [OF assms, of a m] e show ?thesis by auto
  qed
qed

definition conv_bound :: "nat list \<Rightarrow> probeScheduler \<Rightarrow> bool" where
  "conv_bound ns s = (if ns = [] then sc_convergenceStallRounds s = 0 \<and> sc_lastPendingCount s = 0
     else sc_lastPendingCount s = last ns \<and> 0 < last ns \<and> sc_convergenceStallRounds s < maxConvergenceStallRounds \<and>
       length ns + maxConvergenceStallRounds * last ns \<le> maxConvergenceStallRounds * hd ns + 1 + sc_convergenceStallRounds s)"

lemma conv_bound_refresh:
  assumes b: "conv_bound ns s" and run: "sc_initialRunning (refreshInitialQueue m s)" and down: "sorted_wrt (\<ge>) (ns @ [length (pendingTags m)])"
  shows "conv_bound (ns @ [length (pendingTags m)]) (refreshInitialQueue m s)"
proof -
  let ?n = "length (pendingTags m)"
  have n: "0 < ?n" and ne: "pendingTags m \<noteq> []" and go: "?n = sc_lastPendingCount s \<Longrightarrow> sc_convergenceStallRounds s + 1 < maxConvergenceStallRounds"
    using run by (auto simp: refresh_conv(1))
  have le: "?n \<le> last ns" if "ns \<noteq> []" using down that by (auto simp: sorted_wrt_append)
  show ?thesis
  proof (cases "ns = []")
    case True
    with b n have "?n \<noteq> sc_lastPendingCount s" by (simp add: conv_bound_def)
    with refresh_conv(3) [of m s] n True show ?thesis by (auto simp: conv_bound_def maxConvergenceStallRounds_def)
  next
    case ns: False
    show ?thesis
    proof (cases "?n = sc_lastPendingCount s")
      case True
      from refresh_conv(2) [OF ne True go [OF True]] n b ns True go [OF True] show ?thesis by (auto simp: conv_bound_def)
    next
      case False
      with b ns le have "?n < last ns" by (auto simp: conv_bound_def)
      with refresh_conv(3) [OF ne False] n b ns show ?thesis by (auto simp: conv_bound_def maxConvergenceStallRounds_def)
    qed
  qed
qed

lemma conv_run_bound:
  assumes "conv_run t ns t'" "sc_convergenceStallRounds (fst t) = 0" "sc_lastPendingCount (fst t) = 0"
    "sorted_wrt (\<ge>) ns" "sc_initialRunning (fst t')"
  shows "conv_bound ns (fst t')"
  using assms
proof (induction rule: conv_run.induct)
  case (quiet t ns t1 t2)
  then show ?case by (auto simp: conv_bound_def same_conv_def)
next
  case (round_end t ns t1 t2 a m)
  have "conv_bound ns (fst t1)" using round_end by (auto simp: sorted_wrt_append)
  moreover have "sc_initialRunning (refreshInitialQueue m (fst t1))" using round_end by (simp add: same_conv_def)
  ultimately have "conv_bound (ns @ [length (pendingTags m)]) (refreshInitialQueue m (fst t1))"
    using conv_bound_refresh round_end.prems(3) by blast
  with round_end(6) show ?case by (simp add: conv_bound_def same_conv_def)
qed (simp add: conv_bound_def)

lemma conv_run_length:
  assumes "conv_run t ns t'" "sc_convergenceStallRounds (fst t) = 0" "sc_lastPendingCount (fst t) = 0" "sorted_wrt (\<ge>) ns" "ns \<noteq> []"
  shows "length ns \<le> maxConvergenceStallRounds * hd ns + 1 \<and>
    (sc_initialRunning (fst t') \<longrightarrow> length ns \<le> maxConvergenceStallRounds * hd ns)"
proof -
  have running: "length ms \<le> maxConvergenceStallRounds * hd ms"
    if "conv_run t ms u" "sorted_wrt (\<ge>) ms" "sc_initialRunning (fst u)" "ms \<noteq> []" for ms u
    using conv_run_bound [OF that(1) assms(2,3) that(2,3)] that(4)
    by (cases "last ms") (auto simp: conv_bound_def maxConvergenceStallRounds_def)
  have "length ns \<le> maxConvergenceStallRounds * hd ns + 1"
    using assms(1,4,5)
  proof cases
    case (quiet t1)
    then show ?thesis using running [of ns t1] assms(4,5) by simp
  next
    case (round_end ms t1 a m)
    have "sorted_wrt (\<ge>) ms" using assms(4) round_end(1) by (simp add: sorted_wrt_append)
    then show ?thesis using running [of ms t1] round_end by (cases "ms = []") auto
  qed simp
  with running assms show ?thesis by blast
qed


definition demo_probe_result :: ProbeBatchResult where
  "demo_probe_result = \<lparr>br_Tag = ''a'', br_Name = [], br_Latency = millisecond, br_Err = None, br_Attempts = 1\<rparr>"

definition demo_conv0 :: probeScheduler where
  "demo_conv0 = loop_top demo_manager 200 (enqueue_initial [''a''] (loop_top demo_manager 200 newProbeScheduler))"

definition demo_conv1 :: probeScheduler where "demo_conv1 = report_into 1 demo_probe_result [''a''] demo_conv0"

definition demo_conv2 :: probeScheduler where
  "demo_conv2 = loop_top demo_manager 300 (on_event demo_manager 300 (Reported 1 demo_probe_result) (demo_conv1\<lparr>sc_events := []\<rparr>))"

definition demo_conv3 :: probeScheduler where "demo_conv3 = finish_wave 1 demo_conv2"

definition demo_conv4 :: probeScheduler where
  "demo_conv4 = loop_top demo_manager 300 (on_event demo_manager 300 (WaveDone 1) (demo_conv3\<lparr>sc_events := []\<rparr>))"

lemma demo_conv_steps:
  "sched_step (demo_conv0, []) (demo_conv1, [])" "sched_step (demo_conv1, []) (demo_conv2, [])"
  "sched_step (demo_conv2, []) (demo_conv3, [])" "sched_step (demo_conv3, []) (demo_conv4, [])"
proof -
  have f: "sc_wave demo_conv0 = Some (1, [''a''])" "br_Tag demo_probe_result \<in> set [''a'']" "length (sc_events demo_conv0) < 256"
    "\<not> sc_stopped demo_conv1" "sc_events demo_conv1 = [Reported 1 demo_probe_result]" "sc_wave demo_conv2 = Some (1, [])"
    "length (sc_events demo_conv2) < 256" "\<not> sc_stopped demo_conv3" "sc_events demo_conv3 = [WaveDone 1]" by code_simp+
  show "sched_step (demo_conv0, []) (demo_conv1, [])" unfolding demo_conv1_def by (rule round [OF report [OF f(1,2,3)]])
  show "sched_step (demo_conv1, []) (demo_conv2, [])" unfolding demo_conv2_def by (rule round [OF event [OF f(4,5)]])
  show "sched_step (demo_conv2, []) (demo_conv3, [])" unfolding demo_conv3_def by (rule round [OF wave_done [OF f(6,7)]])
  show "sched_step (demo_conv3, []) (demo_conv4, [])" unfolding demo_conv4_def by (rule round [OF event [OF f(8,9)]])
qed

lemma demo_conv_run: "conv_run (demo_conv0, []) [1] (demo_conv4, [])"
proof -
  have same: "same_conv demo_conv0 demo_conv1" "same_conv demo_conv1 demo_conv2" "same_conv demo_conv2 demo_conv3"
    and run: "sc_initialRunning demo_conv0" "sc_initialRunning demo_conv1" "sc_initialRunning demo_conv2" "sc_initialRunning demo_conv3"
    and fin: "sc_active demo_conv3 \<noteq> None" "ar_convergence (the (sc_active demo_conv3))"
      "same_conv (refreshInitialQueue demo_manager demo_conv3) demo_conv4" "length (pendingTags demo_manager) = 1" by code_simp+
  have "conv_run (demo_conv0, []) [] (demo_conv1, [])" by (rule quiet [OF begun _ demo_conv_steps(1)]) (simp_all add: same run)
  then have "conv_run (demo_conv0, []) [] (demo_conv2, [])" by (rule quiet [OF _ _ demo_conv_steps(2)]) (simp_all add: same run)
  then have "conv_run (demo_conv0, []) [] (demo_conv3, [])" by (rule quiet [OF _ _ demo_conv_steps(3)]) (simp_all add: same run)
  from round_end [OF this _ demo_conv_steps(4), of "the (sc_active demo_conv3)" demo_manager] run fin show ?thesis by auto
qed


end
