(* ===== verification/Probe_Attempts.thy ===== *)
theory Probe_Attempts
  imports Scheduler "HOL-Library.Multiset"
begin

text \<open>
  How one probe is run, from \<open>src/internal/monitor/probe_scheduler.go\<close>, \<open>concurrency.go\<close> and the probe policy of
  \<open>manager.go\<close>: the policy and the number of workers, the bounded executor, the table of outstanding calls with its
  ceiling, and the two attempts, startup and routine, from the ticket to the committed result. The network call is outside: its
  answer is an argument.
\<close>

section \<open>Policy and workers\<close>

record ProbePolicy =
  pp_Concurrency :: int
  pp_StartupTimeout :: duration
  pp_RoutineTimeout :: duration
  pp_DialTimeout :: duration
  pp_ResponseTimeout :: duration
  pp_RoutineRetries :: int

definition normalizeProbePolicy :: "ProbePolicy \<Rightarrow> ProbePolicy" where
  "normalizeProbePolicy p = p\<lparr>pp_Concurrency := (if pp_Concurrency p < 0 \<or> pp_Concurrency p > 512 then 0 else pp_Concurrency p),
     pp_StartupTimeout := (if pp_StartupTimeout p \<le> 0 then 5 * second else pp_StartupTimeout p),
     pp_RoutineTimeout := (if pp_RoutineTimeout p \<le> 0 then 10 * second else pp_RoutineTimeout p),
     pp_DialTimeout := (if pp_DialTimeout p \<le> 0 then 3 * second else pp_DialTimeout p),
     pp_ResponseTimeout := (if pp_ResponseTimeout p \<le> 0 then 2 * second else pp_ResponseTimeout p),
     pp_RoutineRetries := (if pp_RoutineRetries p < 0 then 0 else if pp_RoutineRetries p > 2 then 2 else pp_RoutineRetries p)\<rparr>"

definition autoProbeConcurrency :: "int \<Rightarrow> int" where
  "autoProbeConcurrency nodeCount = (let w = (nodeCount + 9) div 10; w1 = (if w < 32 then 32 else w) in if w1 > 128 then 128 else w1)"

definition EffectiveProbeConcurrency :: "int \<Rightarrow> int \<Rightarrow> int" where
  "EffectiveProbeConcurrency configured nodeCount =
     (let w = (if configured \<le> 0 then autoProbeConcurrency nodeCount else configured);
          w1 = (if nodeCount < w then nodeCount else w)
      in if w1 < 1 then 0 else w1)"

lemma effective_concurrency_bounds:
  "0 < n \<Longrightarrow> c \<le> 512 \<Longrightarrow> 1 \<le> EffectiveProbeConcurrency c n \<and> EffectiveProbeConcurrency c n \<le> min n 512"
  by (auto simp: EffectiveProbeConcurrency_def autoProbeConcurrency_def Let_def)

lemma normalize_policy_idem: "normalizeProbePolicy (normalizeProbePolicy p) = normalizeProbePolicy p"
  by (simp add: normalizeProbePolicy_def second_def)

lemma normalize_policy_range:
  "pp_Concurrency (normalizeProbePolicy p) \<in> {0..512} \<and> pp_RoutineRetries (normalizeProbePolicy p) \<in> {0..2} \<and>
   0 < pp_StartupTimeout (normalizeProbePolicy p) \<and> 0 < pp_RoutineTimeout (normalizeProbePolicy p)"
  by (simp add: normalizeProbePolicy_def second_def)

section \<open>The executor\<close>

text \<open>\<open>CollectLimited\<close>: values not yet started, values running, results. The group refuses to start a task while the
  limit is reached.\<close>

definition collect_limit :: "int \<Rightarrow> 'a list \<Rightarrow> nat" where
  "collect_limit limit vs = (let l = (if limit < 1 then 1 else limit) in nat (if l > int (length vs) then int (length vs) else l))"

inductive CollectLimited :: "nat \<Rightarrow> ('a \<Rightarrow> 'r) \<Rightarrow> 'a list \<times> 'a list \<times> 'r list \<Rightarrow> 'a list \<times> 'a list \<times> 'r list \<Rightarrow> bool" for l run where
  started: "length active < l \<Longrightarrow> CollectLimited l run (v # todo, active, results) (todo, v # active, results)"
| finished: "v \<in> set active \<Longrightarrow> CollectLimited l run (todo, active, results) (todo, remove1 v active, results @ [run v])"

definition collect_ok :: "nat \<Rightarrow> ('a \<Rightarrow> 'r) \<Rightarrow> 'a list \<Rightarrow> 'a list \<times> 'a list \<times> 'r list \<Rightarrow> bool" where
  "collect_ok l run vs = (\<lambda>(todo, active, results). length active \<le> l \<and>
     mset results + image_mset run (mset (todo @ active)) = image_mset run (mset vs))"

lemma collect_step_ok: "CollectLimited l run t u \<Longrightarrow> collect_ok l run vs t \<Longrightarrow> collect_ok l run vs u"
proof (induction rule: CollectLimited.induct)
  case (finished v active todo results)
  then have "mset active = add_mset v (mset (remove1 v active))" by (simp add: mset_remove1 insert_DiffM)
  then have "image_mset run (mset active) = add_mset (run v) (image_mset run (mset (remove1 v active)))" by (metis image_mset_add_mset)
  with finished show ?case by (auto simp: collect_ok_def length_remove1 ac_simps)
qed (auto simp: collect_ok_def)

interpretation collector: inductive_invariant "(vs, [], [])" "CollectLimited l run" "collect_ok l run vs"
proof unfold_locales
  show "collect_ok l run vs (vs, [], [])" by (simp add: collect_ok_def)
qed (rule collect_step_ok)

text \<open>Every value is run once, never more than the limit at a time, and the executor does not get stuck.\<close>

lemma collect_invariant:
  assumes "reaches (CollectLimited l run) (vs, [], []) (todo, active, results)"
  shows "length active \<le> l \<and> mset results + image_mset run (mset (todo @ active)) = image_mset run (mset vs)"
  using collector.reachable_inv [OF assms] by (simp add: collect_ok_def)

lemma collect_never_stuck:
  assumes "reaches (CollectLimited l run) (vs, [], []) (todo, active, results)" "0 < l" "todo @ active \<noteq> []"
  shows "\<exists>t. CollectLimited l run (todo, active, results) t"
proof (cases active)
  case Nil
  with assms obtain v rest where "todo = v # rest" by (cases todo) auto
  with Nil assms(2) have "CollectLimited l run (todo, active, results) (rest, v # active, results)" by (simp add: CollectLimited.started)
  then show ?thesis by blast
next
  case (Cons v vs')
  then have "v \<in> set active" by simp
  then show ?thesis by (blast intro: CollectLimited.finished)
qed

section \<open>Outstanding calls\<close>

text \<open>The table of running calls maps an entry and its tag to the call that holds the slot; a call is known by a
  number. \<open>at_calls\<close> holds every call that has not returned, with or without a waiting caller: the table forgets none
  of them.\<close>

type_synonym probeAttemptKey = "nat \<times> string"

record attempt_table =
  at_running :: "(probeAttemptKey \<times> nat) list"
  at_detached :: "nat list"
  at_detachedProbes :: int
  at_calls :: "(probeAttemptKey \<times> nat) list"
  at_next :: nat

definition maxOutstandingProbeCalls :: nat where "maxOutstandingProbeCalls = 512"

definition errProbeCallLimit :: string where "errProbeCallLimit = ''outstanding probe call limit reached''"

definition new_attempts :: attempt_table where
  "new_attempts = \<lparr>at_running = [], at_detached = [], at_detachedProbes = 0, at_calls = [], at_next = 0\<rparr>"

definition attempt_begin :: "string option \<Rightarrow> probeAttemptKey \<Rightarrow> attempt_table \<Rightarrow> (string + nat) \<times> attempt_table" where
  "attempt_begin ctxErr key s = (case ctxErr of Some e \<Rightarrow> (Inl e, s)
     | None \<Rightarrow>
         if map_of (at_running s) key \<noteq> None then (Inl ''previous probe call is still running'', s)
         else if length (at_running s) \<ge> maxOutstandingProbeCalls then (Inl errProbeCallLimit, s)
         else let i = at_next s
              in (Inr i, s\<lparr>at_running := aput key i (at_running s), at_calls := (key, i) # at_calls s, at_next := i + 1\<rparr>))"

text \<open>The call returns: its slot is freed, and the count of detached calls drops when its caller had left.\<close>

definition attempt_return :: "probeAttemptKey \<Rightarrow> nat \<Rightarrow> attempt_table \<Rightarrow> attempt_table" where
  "attempt_return key i s =
     (let s0 = s\<lparr>at_calls := removeAll (key, i) (at_calls s)\<rparr>
      in if map_of (at_running s0) key = Some i
         then (let s1 = s0\<lparr>at_running := adel key (at_running s0)\<rparr>
               in if i \<in> set (at_detached s1) then s1\<lparr>at_detachedProbes := at_detachedProbes s1 - 1\<rparr> else s1)
         else s0)"

text \<open>The caller gives up at its deadline or when its context ends.\<close>

definition attempt_leave :: "probeAttemptKey \<Rightarrow> nat \<Rightarrow> attempt_table \<Rightarrow> attempt_table" where
  "attempt_leave key i s =
     (if map_of (at_running s) key = Some i
      then s\<lparr>at_detached := i # at_detached s, at_detachedProbes := at_detachedProbes s + 1\<rparr> else s)"

text \<open>Callers and calls run concurrently; a caller leaves at most once.\<close>

inductive attempt_step :: "attempt_table \<Rightarrow> attempt_table \<Rightarrow> bool" where
  begin_call: "attempt_step s (snd (attempt_begin ctxErr key s))"
| return_call: "(key, i) \<in> set (at_calls s) \<Longrightarrow> attempt_step s (attempt_return key i s)"
| leave_call: "i < at_next s \<Longrightarrow> i \<notin> set (at_detached s) \<Longrightarrow> attempt_step s (attempt_leave key i s)"

definition attempts_ok :: "attempt_table \<Rightarrow> bool" where
  "attempts_ok s = (distinct (map fst (at_running s)) \<and> distinct (map snd (at_running s)) \<and> length (at_running s) \<le> maxOutstandingProbeCalls \<and>
     set (at_calls s) = set (at_running s) \<and> distinct (at_calls s) \<and> (\<forall>p \<in> set (at_running s). snd p < at_next s) \<and>
     (\<forall>i \<in> set (at_detached s). i < at_next s) \<and>
     at_detachedProbes s = int (length (filter (\<lambda>p. snd p \<in> set (at_detached s)) (at_running s))))"

lemma aput_new: "map_of xs k = None \<Longrightarrow> aput k v xs = xs @ [(k, v)]"
  by (induction k v xs rule: aput.induct) (auto split: if_splits)

lemma begin_keeps: "attempts_ok s \<Longrightarrow> attempts_ok (snd (attempt_begin ctxErr key s))"
proof (cases "ctxErr = None \<and> map_of (at_running s) key = None \<and> length (at_running s) < maxOutstandingProbeCalls")
  case True
  assume ok: "attempts_ok s"
  have new: "key \<notin> fst ` set (at_running s)" using True by (simp add: map_of_eq_None_iff)
  have fresh: "at_next s \<notin> snd ` set (at_running s)" "at_next s \<notin> set (at_detached s)"
    using ok by (auto simp: attempts_ok_def)
  have "(key, at_next s) \<notin> set (at_running s)" using new by force
  then show ?thesis using ok True new fresh
    by (auto simp: attempts_ok_def attempt_begin_def Let_def aput_new less_Suc_eq)
next
  case False
  then show "attempts_ok s \<Longrightarrow> ?thesis" by (auto simp: attempt_begin_def split: option.splits)
qed

lemma adel_running:
  assumes "distinct (map fst xs)" "map_of xs k = Some v"
  shows "\<exists>ys zs. xs = ys @ (k, v) # zs \<and> adel k xs = ys @ zs"
proof -
  obtain ys zs where e: "xs = ys @ (k, v) # zs" using map_of_SomeD [OF assms(2)] by (meson split_list)
  with assms(1) have "\<forall>p \<in> set (ys @ zs). fst p \<noteq> k" by force
  then have "filter (\<lambda>(k', _). k' \<noteq> k) ys = ys" "filter (\<lambda>(k', _). k' \<noteq> k) zs = zs"
    by (simp_all add: filter_id_conv case_prod_beta')
  then have "adel k xs = ys @ zs" unfolding e by (simp add: adel_def)
  with e show ?thesis by blast
qed

lemma return_keeps:
  assumes ok: "attempts_ok s" and c: "(key, i) \<in> set (at_calls s)"
  shows "attempts_ok (attempt_return key i s)"
proof -
  have m: "map_of (at_running s) key = Some i" using ok c by (simp add: attempts_ok_def)
  obtain ys zs where e: "at_running s = ys @ (key, i) # zs" "adel key (at_running s) = ys @ zs"
    using adel_running [OF _ m] ok by (auto simp: attempts_ok_def)
  have "distinct (map fst (ys @ (key, i) # zs))" using ok e(1) by (simp add: attempts_ok_def)
  then have "(key, i) \<notin> set ys" "(key, i) \<notin> set zs" by force+
  moreover have "at_running (attempt_return key i s) = ys @ zs" "at_calls (attempt_return key i s) = removeAll (key, i) (at_calls s)"
    "at_detached (attempt_return key i s) = at_detached s" "at_next (attempt_return key i s) = at_next s"
    "at_detachedProbes (attempt_return key i s) = at_detachedProbes s - (if i \<in> set (at_detached s) then 1 else 0)"
    using m by (simp_all add: attempt_return_def Let_def e(2))
  ultimately show ?thesis using ok unfolding attempts_ok_def by (auto simp: e(1) distinct_removeAll)
qed

lemma leave_keeps:
  assumes ok: "attempts_ok s" and i: "i < at_next s" "i \<notin> set (at_detached s)"
  shows "attempts_ok (attempt_leave key i s)"
proof (cases "map_of (at_running s) key = Some i")
  case True
  obtain ys zs where e: "at_running s = ys @ (key, i) # zs" using map_of_SomeD [OF True] by (meson split_list)
  have "distinct (map snd (ys @ (key, i) # zs))" using ok e by (simp add: attempts_ok_def)
  then have "\<forall>p \<in> set (ys @ zs). snd p \<noteq> i" by auto
  then have eq: "filter (\<lambda>p. snd p = i \<or> snd p \<in> set (at_detached s)) xs = filter (\<lambda>p. snd p \<in> set (at_detached s)) xs"
    if "set xs \<subseteq> set (ys @ zs)" for xs using that by (intro filter_cong) auto
  have n: "length (filter (\<lambda>p. snd p = i \<or> snd p \<in> set (at_detached s)) (at_running s)) =
      Suc (length (filter (\<lambda>p. snd p \<in> set (at_detached s)) (at_running s)))" using i(2) eq [of ys] eq [of zs] by (simp add: e)
  show ?thesis using ok i True n unfolding attempt_leave_def attempts_ok_def by simp
qed (use ok in \<open>simp add: attempt_leave_def\<close>)

interpretation outstanding_calls: inductive_invariant new_attempts attempt_step attempts_ok
proof unfold_locales
  show "attempts_ok new_attempts" by (simp add: attempts_ok_def new_attempts_def)
qed (auto elim!: attempt_step.cases intro: begin_keeps return_keeps leave_keeps)

text \<open>C26: the outstanding probe calls are bounded. In every state reached by callers that begin and give up and calls that
  return, in any order, at most 512 calls are outstanding, at most one for each node and tag, and none is forgotten: the table holds
  exactly the calls that have not returned, also those whose caller left at its deadline. The number of detached calls the status
  shows is exact.\<close>

theorem outstanding_calls_bounded:
  assumes "reaches attempt_step new_attempts s"
  shows "length (at_calls s) \<le> maxOutstandingProbeCalls \<and> distinct (map fst (at_calls s)) \<and>
    mset (at_calls s) = mset (at_running s) \<and>
    at_detachedProbes s = int (length (filter (\<lambda>(_, i). i \<in> set (at_detached s)) (at_calls s)))"
proof -
  have ok: "attempts_ok s" by (rule outstanding_calls.reachable_inv [OF assms])
  then have m: "mset (at_calls s) = mset (at_running s)"
    by (subst set_eq_iff_mset_eq_distinct [symmetric]) (auto simp: attempts_ok_def distinct_map)
  from arg_cong [OF m, of "image_mset fst"] have "mset (map fst (at_calls s)) = mset (map fst (at_running s))" by simp
  from mset_eq_imp_distinct_iff [OF this] ok have d: "distinct (map fst (at_calls s))" by (simp add: attempts_ok_def)
  have "mset (filter P (at_calls s)) = mset (filter P (at_running s))" for P using m by simp
  from mset_eq_length [OF this] mset_eq_length [OF m] ok m d show ?thesis
    by (simp add: attempts_ok_def case_prod_beta')
qed

definition demo_attempts :: attempt_table where
  "demo_attempts = attempt_leave (0, ''a'') 0 (snd (attempt_begin None (0, ''a'') new_attempts))"

theorem outstanding_calls_bounded_witness:
  "at_calls demo_attempts = [((0, ''a''), 0)] \<and> at_detachedProbes demo_attempts = 1 \<and> length (at_calls demo_attempts) \<le> maxOutstandingProbeCalls"
proof -
  let ?s1 = "snd (attempt_begin None (0, ''a'') new_attempts)"
  have f: "0 < at_next ?s1" "0 \<notin> set (at_detached ?s1)" "at_calls demo_attempts = [((0, ''a''), 0)]" "at_detachedProbes demo_attempts = 1" by code_simp+
  have "reaches attempt_step new_attempts ?s1" by (rule reaches_step [OF reaches_refl]) (rule begin_call)
  then have "reaches attempt_step new_attempts demo_attempts" unfolding demo_attempts_def by (rule reaches_step) (rule leave_call [OF f(1,2)])
  from outstanding_calls_bounded [OF this] f show ?thesis by simp
qed

section \<open>The attempts\<close>

definition entryRuntimeTag :: "nat \<Rightarrow> Manager \<Rightarrow> string" where
  "entryRuntimeTag a m = in_Tag (en_info (rg_store (ma_registry m) a))"

definition errStaleProbeGeneration :: string where "errStaleProbeGeneration = ''probe runtime generation changed''"

definition join_errors :: "string option \<Rightarrow> string option \<Rightarrow> string option" where
  "join_errors e f = (case e of None \<Rightarrow> f | Some x \<Rightarrow> (case f of None \<Rightarrow> Some x | Some y \<Rightarrow> Some (x @ [CHR 0x0A] @ y)))"

definition failed_result :: "probeWorkItem \<Rightarrow> nat \<Rightarrow> string \<Rightarrow> ProbeBatchResult" where
  "failed_result w attempt e = \<lparr>br_Tag = wi_tag w, br_Name = wi_name w, br_Latency = 0, br_Err = Some e, br_Attempts = attempt\<rparr>"

text \<open>The checks before the call: a result that ends the attempt, or the ticket. \<open>ctxErr\<close> is the error of the
  round's context at that moment; a routine attempt does not look at it.\<close>

definition attempt_ticket :: "region_tables \<Rightarrow> (string \<Rightarrow> string) \<Rightarrow> gtime \<Rightarrow> string \<Rightarrow> string option \<Rightarrow> nat \<Rightarrow> probeWorkItem \<Rightarrow> Manager \<Rightarrow>
    ProbeBatchResult + Result option" where
  "attempt_ticket t identity now pid ctxErr attempt w m = (case ctxErr of Some e \<Rightarrow> Inl (failed_result w attempt e)
     | None \<Rightarrow>
         if entryRuntimeTag (wi_entry w) m \<noteq> wi_tag w then Inl (failed_result w attempt errStaleProbeGeneration)
         else case beginHealthResult t identity now pid (wi_entry w) m of
                Inl e \<Rightarrow> Inl (failed_result w attempt e) | Inr ticket \<Rightarrow> Inr ticket)"

text \<open>After the call: the result, and the manager with the measurement committed when it may be. \<open>m\<close> is the manager at that time,
  \<open>call\<close> the answer of \<open>runProbeAttempt\<close>.\<close>

definition commit_result :: "region_tables \<Rightarrow> (Result \<Rightarrow> string) \<Rightarrow> gtime \<Rightarrow> string option \<Rightarrow> Result option \<Rightarrow> gtime \<Rightarrow> nat \<Rightarrow> ProbeBatchResult \<Rightarrow> Manager \<Rightarrow>
    ProbeBatchResult \<times> Manager" where
  "commit_result t digest now ackFault ticket checkedAt a res m =
     (case commitHealthResult t digest now ackFault a ticket (br_Latency res) (br_Err res) checkedAt m of
        (None, m') \<Rightarrow> (res, m') | (Some e, m') \<Rightarrow> (res\<lparr>br_Err := join_errors (br_Err res) (Some e)\<rparr>, m'))"

definition probeInitialAttempt :: "region_tables \<Rightarrow> (Result \<Rightarrow> string) \<Rightarrow> gtime \<Rightarrow> string option \<Rightarrow> Result option \<Rightarrow> string option \<Rightarrow> nat \<Rightarrow> bool \<Rightarrow> gtime \<Rightarrow>
    probeWorkItem \<Rightarrow> duration \<times> string option \<Rightarrow> Manager \<Rightarrow> ProbeBatchResult \<times> Manager" where
  "probeInitialAttempt t digest now ackFault ticket ctxErr attempt commitFailure checkedAt w call m =
     (let (latency, err) = (if wi_probe w then call else (0, Some ''probe function not configured''));
          res = \<lparr>br_Tag = wi_tag w, br_Name = wi_name w, br_Latency = latency, br_Err = err, br_Attempts = attempt\<rparr>
      in if err = Some errProbeCallLimit then (res, m)
         else if ctxErr = None \<and> entryRuntimeTag (wi_entry w) m = wi_tag w \<and> (err = None \<or> commitFailure \<or> \<not> wi_probe w)
         then commit_result t digest now ackFault ticket checkedAt (wi_entry w) res m
         else (res, m))"

text \<open>The loop of a routine attempt: \<open>calls i\<close> is the answer of call \<open>i\<close> and whether the node's context was done after it;
  \<open>n\<close> calls may follow.\<close>

fun routine_calls :: "(nat \<Rightarrow> (duration \<times> string option) \<times> bool) \<Rightarrow> nat \<Rightarrow> nat \<Rightarrow> nat \<times> duration \<times> string option" where
  "routine_calls calls i 0 = (i + 1, fst (calls i))"
| "routine_calls calls i (Suc n) =
     (let ((latency, err), expired) = calls i
      in if err = None \<or> expired then (i + 1, latency, err) else routine_calls calls (i + 1) n)"

definition probeRoutineItem :: "region_tables \<Rightarrow> (Result \<Rightarrow> string) \<Rightarrow> gtime \<Rightarrow> string option \<Rightarrow> Result option \<Rightarrow> string option \<Rightarrow> ProbePolicy \<Rightarrow> gtime \<Rightarrow>
    probeWorkItem \<Rightarrow> (nat \<Rightarrow> (duration \<times> string option) \<times> bool) \<Rightarrow> Manager \<Rightarrow> ProbeBatchResult \<times> Manager" where
  "probeRoutineItem t digest now ackFault ticket ctxErr policy checkedAt w calls m =
     (if \<not> wi_probe w then (failed_result w 0 ''probe function not configured'', m)
      else let (attempts, latency, err) = routine_calls calls 0 (nat (pp_RoutineRetries policy));
               res = \<lparr>br_Tag = wi_tag w, br_Name = wi_name w, br_Latency = latency, br_Err = err, br_Attempts = attempts\<rparr>
           in if ctxErr = None \<and> entryRuntimeTag (wi_entry w) m = wi_tag w \<and> err \<noteq> Some errProbeCallLimit
              then commit_result t digest now ackFault ticket checkedAt (wi_entry w) res m
              else (res, m))"

text \<open>A measurement of an older generation of the node, of an ended round or refused by the call limit changes nothing; nor does a failed
  first attempt of a startup round, which is tried again before the node is judged.\<close>

lemma initial_attempt_no_commit:
  assumes "ctxErr \<noteq> None \<or> entryRuntimeTag (wi_entry w) m \<noteq> wi_tag w \<or> snd call = Some errProbeCallLimit \<or>
      (snd call \<noteq> None \<and> \<not> commitFailure)" "wi_probe w"
  shows "snd (probeInitialAttempt t digest now ackFault ticket ctxErr attempt commitFailure checkedAt w call m) = m"
  using assms by (auto simp: probeInitialAttempt_def Let_def split: prod.split)

lemma routine_item_no_commit:
  assumes "ctxErr \<noteq> None \<or> entryRuntimeTag (wi_entry w) m \<noteq> wi_tag w"
  shows "snd (probeRoutineItem t digest now ackFault ticket ctxErr policy checkedAt w calls m) = m"
  using assms by (auto simp: probeRoutineItem_def Let_def split: prod.split)

text \<open>A routine probe makes at most one call more than the retries allow, and stops at the first success.\<close>

lemma routine_calls_bound:
  "routine_calls calls i n = (k, latency, err) \<Longrightarrow> i < k \<and> k \<le> i + n + 1 \<and> fst (calls (k - 1)) = (latency, err) \<and>
     (\<forall>j. i \<le> j \<and> j < k - 1 \<longrightarrow> snd (fst (calls j)) \<noteq> None \<and> \<not> snd (calls j))"
proof (induction calls i n rule: routine_calls.induct)
  case (2 calls i n)
  obtain l e x where c: "calls i = ((l, e), x)" by (metis surj_pair)
  show ?case
  proof (cases "e = None \<or> x")
    case False
    with 2(2) c have r: "routine_calls calls (i + 1) n = (k, latency, err)" by simp
    note ih = 2(1) [OF c [symmetric] refl refl False r]
    have "snd (fst (calls j)) \<noteq> None \<and> \<not> snd (calls j)" if "i \<le> j" "j < k - 1" for j
      using ih that False c by (cases "j = i") auto
    with ih show ?thesis by auto
  qed (use 2(2) c in auto)
qed auto

lemma routine_item_attempts:
  assumes "wi_probe w"
  shows "1 \<le> br_Attempts (fst (probeRoutineItem t digest now ackFault ticket ctxErr (normalizeProbePolicy p) checkedAt w calls m)) \<and>
    br_Attempts (fst (probeRoutineItem t digest now ackFault ticket ctxErr (normalizeProbePolicy p) checkedAt w calls m)) \<le> 3"
proof -
  let ?n = "nat (pp_RoutineRetries (normalizeProbePolicy p))"
  obtain k l e where r: "routine_calls calls 0 ?n = (k, l, e)" by (metis prod_cases3)
  have "?n \<le> 2" using normalize_policy_range [of p] by auto
  with routine_calls_bound [OF r] have "1 \<le> k \<and> k \<le> 3" by auto
  then show ?thesis using assms r by (auto simp: probeRoutineItem_def Let_def commit_result_def split: prod.split option.split)
qed

end
