(* ===== verification/Auth.thy ===== *)
theory Auth
  imports Prelude
begin

text \<open>
  Management authentication, \<open>src/internal/controlplane/auth.go\<close> and \<open>auth_usage.go\<close>, with the rows of
  \<open>store/sqlite.go\<close> it keeps: password checks under a rate limit per source, sessions in memory and in the
  database, API keys and the record of their use. The clock, the token generator, the faults of the database and the waits
  that run out of time are arguments. The database keeps instants as RFC 3339 text, that is to the second.
\<close>

datatype auth_error = ErrStoreUnavailable | ErrPasswordNotRequired | ErrInvalidCredentials | ErrTokenGeneration | ErrDeadline | ErrStore | ErrMalformedBody

record Session =
  se_Token :: string
  se_CreatedAt :: gtime
  se_ExpiresAt :: gtime

record APIKey =
  ak_ID :: int
  ak_Name :: string
  ak_Token :: string
  ak_CreatedAt :: gtime
  ak_LastUsedAt :: gtime

record loginFailureState =
  lf_count :: int
  lf_firstSeen :: gtime
  lf_lockedUntil :: gtime

record apiKeyUse =
  ku_pending :: gtime
  ku_next :: gtime
  ku_seen :: gtime

record apiKeyUsage =
  us_entries :: "(int \<times> apiKeyUse) list"
  us_generation :: nat
  us_wake :: bool
  us_started :: bool
  us_closed :: bool
  us_dropped :: nat
  us_lastOverflow :: gtime

record auth_db =
  db_sessions :: "(string \<times> Session) list"
  db_keys :: "(int \<times> APIKey) list"
  db_lastKey :: int

record Auth =
  ath_store :: "auth_db option"
  ath_password :: string
  ath_ttl :: duration
  ath_sessions :: "(string \<times> Session) list"
  ath_loginFailures :: "(string \<times> loginFailureState) list"
  ath_loginFailuresLast :: gtime
  ath_usage :: apiKeyUsage

definition MaxLoginFailuresWithin :: int where "MaxLoginFailuresWithin = 8"
definition LoginFailureWindow :: duration where "LoginFailureWindow = 10 * minute"
definition LoginLockout :: duration where "LoginLockout = 5 * minute"
definition MaxSessions :: nat where "MaxSessions = 256"
definition DefaultSessionTTL :: duration where "DefaultSessionTTL = 24 * hour"
definition apiKeyUseInterval :: duration where "apiKeyUseInterval = minute"
definition apiKeyUseRetry :: duration where "apiKeyUseRetry = 5 * second"
definition maxAPIKeyUseEntries :: nat where "maxAPIKeyUseEntries = 1024"

definition rfc3339 :: "gtime \<Rightarrow> gtime" where "rfc3339 t = t div second * second"

definition NewAuth :: "auth_db option \<Rightarrow> string \<Rightarrow> duration \<Rightarrow> Auth" where
  "NewAuth st passwd ttl = \<lparr>ath_store = st, ath_password = passwd, ath_ttl = (if ttl \<le> 0 then DefaultSessionTTL else ttl), ath_sessions = [],
     ath_loginFailures = [], ath_loginFailuresLast = zero_time,
     ath_usage = \<lparr>us_entries = [], us_generation = 0, us_wake = False, us_started = False, us_closed = False, us_dropped = 0, us_lastOverflow = zero_time\<rparr>\<rparr>"

text \<open>\<open>same\<close> tells whether the new store is the one already bound.\<close>

definition SetStore :: "bool \<Rightarrow> auth_db option \<Rightarrow> Auth \<Rightarrow> Auth" where
  "SetStore same st a = (if same \<or> ath_store a = None \<and> st = None then a
     else a\<lparr>ath_store := st, ath_usage := (ath_usage a)\<lparr>us_generation := us_generation (ath_usage a) + 1, us_entries := []\<rparr>\<rparr>)"

definition SecureCompare :: "string \<Rightarrow> string \<Rightarrow> bool" where
  "SecureCompare x y \<longleftrightarrow> length x = length y \<and> list_all2 (=) x y"

definition PasswordRequired :: "Auth \<Rightarrow> bool" where "PasswordRequired a \<longleftrightarrow> ath_password a \<noteq> []"

section \<open>The rate limit\<close>

definition stale_bucket :: "gtime \<Rightarrow> loginFailureState \<Rightarrow> bool" where
  "stale_bucket now st \<longleftrightarrow> time_sub now (lf_firstSeen st) > LoginFailureWindow \<and> now > lf_lockedUntil st"

definition sweep_buckets :: "gtime \<Rightarrow> Auth \<Rightarrow> Auth" where
  "sweep_buckets now a = (if time_sub now (ath_loginFailuresLast a) > hour
     then a\<lparr>ath_loginFailures := filter (\<lambda>(_, st). \<not> stale_bucket now st) (ath_loginFailures a), ath_loginFailuresLast := now\<rparr> else a)"

definition put_bucket :: "string \<Rightarrow> loginFailureState \<Rightarrow> Auth \<Rightarrow> Auth" where
  "put_bucket source st a = a\<lparr>ath_loginFailures := aput source st (ath_loginFailures a)\<rparr>"

definition loginAllowed :: "string \<Rightarrow> gtime \<Rightarrow> Auth \<Rightarrow> bool \<times> Auth" where
  "loginAllowed source now a =
     (let a1 = sweep_buckets now a
      in case map_of (ath_loginFailures a1) source of
           None \<Rightarrow> (True, put_bucket source \<lparr>lf_count = 0, lf_firstSeen = now, lf_lockedUntil = zero_time\<rparr> a1)
         | Some st \<Rightarrow>
             if now < lf_lockedUntil st then (False, a1)
             else if time_sub now (lf_firstSeen st) > LoginFailureWindow then (True, put_bucket source (st\<lparr>lf_count := 0, lf_firstSeen := now\<rparr>) a1)
             else (True, a1))"

definition LoginAllowed :: "string \<Rightarrow> gtime \<Rightarrow> Auth \<Rightarrow> bool \<times> Auth" where
  "LoginAllowed source now a = (if ath_password a = [] then (True, a) else loginAllowed source now a)"

definition recordLoginResult :: "string \<Rightarrow> bool \<Rightarrow> gtime \<Rightarrow> Auth \<Rightarrow> Auth" where
  "recordLoginResult source success now a =
     (if success then a\<lparr>ath_loginFailures := adel source (ath_loginFailures a)\<rparr>
      else case map_of (ath_loginFailures a) source of
             None \<Rightarrow> put_bucket source \<lparr>lf_count = 1, lf_firstSeen = now, lf_lockedUntil = zero_time\<rparr> a
           | Some st \<Rightarrow>
               if lf_count st + 1 \<ge> MaxLoginFailuresWithin
               then put_bucket source \<lparr>lf_count = 0, lf_firstSeen = now, lf_lockedUntil = now + LoginLockout\<rparr> a
               else put_bucket source (st\<lparr>lf_count := lf_count st + 1\<rparr>) a)"

section \<open>Sessions\<close>

definition on_store :: "bool \<Rightarrow> (auth_db \<Rightarrow> auth_db) \<Rightarrow> Auth \<Rightarrow> Auth" where
  "on_store fault f a = (if fault then a else a\<lparr>ath_store := map_option f (ath_store a)\<rparr>)"

definition db_createSession :: "Session \<Rightarrow> auth_db \<Rightarrow> auth_db" where
  "db_createSession s db = (if map_of (db_sessions db) (se_Token s) \<noteq> None then db
     else db\<lparr>db_sessions := aput (se_Token s) (s\<lparr>se_CreatedAt := rfc3339 (se_CreatedAt s), se_ExpiresAt := rfc3339 (se_ExpiresAt s)\<rparr>) (db_sessions db)\<rparr>)"

definition db_deleteSession :: "string \<Rightarrow> auth_db \<Rightarrow> auth_db" where
  "db_deleteSession token db = db\<lparr>db_sessions := adel token (db_sessions db)\<rparr>"

definition db_cleanupSessions :: "gtime \<Rightarrow> auth_db \<Rightarrow> auth_db" where
  "db_cleanupSessions now db = db\<lparr>db_sessions := filter (\<lambda>(_, s). \<not> se_ExpiresAt s < rfc3339 now) (db_sessions db)\<rparr>"

fun oldest_session :: "(string \<times> gtime) option \<Rightarrow> (string \<times> Session) list \<Rightarrow> (string \<times> gtime) option" where
  "oldest_session best [] = best"
| "oldest_session best ((token, s) # ss) =
     oldest_session (case best of None \<Rightarrow> Some (token, se_CreatedAt s)
       | Some (b, t) \<Rightarrow> if b = [] \<or> se_CreatedAt s < t then Some (token, se_CreatedAt s) else best) ss"

definition evictOldestLocked :: "bool \<Rightarrow> Auth \<Rightarrow> Auth" where
  "evictOldestLocked fault a = (case oldest_session None (ath_sessions a) of None \<Rightarrow> a
     | Some (token, _) \<Rightarrow> if token = [] then a
         else on_store fault (db_deleteSession token) (a\<lparr>ath_sessions := adel token (ath_sessions a)\<rparr>))"

text \<open>\<open>token\<close> is what the generator gives, if it does; \<open>fault\<close> and \<open>evictFault\<close> are the faults of the two writes.\<close>

definition CreateSession :: "string option \<Rightarrow> gtime \<Rightarrow> bool \<Rightarrow> bool \<Rightarrow> Auth \<Rightarrow> (auth_error + Session) \<times> Auth" where
  "CreateSession token now fault evictFault a = (case token of None \<Rightarrow> (Inl ErrTokenGeneration, a)
     | Some t \<Rightarrow>
         let s = \<lparr>se_Token = t, se_CreatedAt = now, se_ExpiresAt = now + ath_ttl a\<rparr>;
             a1 = on_store fault (db_createSession s) a;
             a2 = (if length (ath_sessions a1) \<ge> MaxSessions then evictOldestLocked evictFault a1 else a1)
         in (Inr s, a2\<lparr>ath_sessions := aput t s (ath_sessions a2)\<rparr>))"

definition Authenticate :: "string \<Rightarrow> string \<Rightarrow> string option \<Rightarrow> gtime \<Rightarrow> bool \<Rightarrow> bool \<Rightarrow> Auth \<Rightarrow> (auth_error + Session) \<times> Auth" where
  "Authenticate source password token now fault evictFault a =
     (if ath_password a = [] then (Inl ErrPasswordNotRequired, a)
      else if \<not> SecureCompare password (ath_password a) then (Inl ErrInvalidCredentials, recordLoginResult source False now a)
      else CreateSession token now fault evictFault (recordLoginResult source True now a))"

definition dropSession :: "string \<Rightarrow> bool \<Rightarrow> Auth \<Rightarrow> Auth" where
  "dropSession token fault a = on_store fault (db_deleteSession token) (a\<lparr>ath_sessions := adel token (ath_sessions a)\<rparr>)"

text \<open>\<open>gate\<close> is whether the store was free in time, \<open>readFault\<close> and \<open>fault\<close> the faults of reading and deleting a row.\<close>

definition Validate_session :: "string \<Rightarrow> gtime \<Rightarrow> bool \<Rightarrow> bool \<Rightarrow> bool \<Rightarrow> Auth \<Rightarrow> bool \<times> Auth" where
  "Validate_session token now gate readFault fault a =
     (if token = [] then (False, a)
      else case map_of (ath_sessions a) token of
             Some s \<Rightarrow> if now > se_ExpiresAt s then (False, dropSession token fault a) else (True, a)
           | None \<Rightarrow>
               (case (gate, ath_store a) of
                  (True, Some db) \<Rightarrow>
                    (case (readFault, map_of (db_sessions db) token) of
                       (False, Some s) \<Rightarrow>
                         if now > se_ExpiresAt s then (False, on_store fault (db_deleteSession token) a)
                         else (True, a\<lparr>ath_sessions := aput token s (ath_sessions a)\<rparr>)
                     | _ \<Rightarrow> (False, a))
                | _ \<Rightarrow> (False, a)))"

definition RevokeSession :: "string \<Rightarrow> bool \<Rightarrow> bool \<Rightarrow> Auth \<Rightarrow> auth_error option \<times> Auth" where
  "RevokeSession token gate fault a =
     (if token = [] then (None, a)
      else if \<not> gate then (Some ErrDeadline, a)
      else if ath_store a \<noteq> None \<and> fault then (Some ErrStore, a)
      else (None, (on_store False (db_deleteSession token) a)\<lparr>ath_sessions := adel token (ath_sessions a)\<rparr>))"

definition CleanupExpired :: "gtime \<Rightarrow> bool \<Rightarrow> Auth \<Rightarrow> Auth" where
  "CleanupExpired now fault a = on_store fault (db_cleanupSessions now)
     (a\<lparr>ath_sessions := filter (\<lambda>(_, s). \<not> now > se_ExpiresAt s) (ath_sessions a)\<rparr>)"

section \<open>API keys\<close>

definition db_keyByToken :: "string \<Rightarrow> auth_db \<Rightarrow> APIKey option" where
  "db_keyByToken token db = (if token = [] then None else find (\<lambda>k. ak_Token k = token) (map snd (db_keys db)))"

definition APIKeyByToken :: "string \<Rightarrow> bool \<Rightarrow> Auth \<Rightarrow> auth_error + APIKey option" where
  "APIKeyByToken token fault a = (case ath_store a of None \<Rightarrow> Inl ErrStoreUnavailable
     | Some db \<Rightarrow> if fault then Inl ErrStore
         else Inr (case db_keyByToken token db of None \<Rightarrow> None | Some k \<Rightarrow> if SecureCompare (ak_Token k) token then Some k else None))"

definition ListAPIKeys :: "bool \<Rightarrow> Auth \<Rightarrow> auth_error + APIKey list" where
  "ListAPIKeys fault a = (case ath_store a of None \<Rightarrow> Inl ErrStoreUnavailable
     | Some db \<Rightarrow> if fault then Inl ErrStore else Inr (rev (sort_key ak_ID (map snd (db_keys db)))))"

definition CreateAPIKey :: "string \<Rightarrow> string option \<Rightarrow> gtime \<Rightarrow> bool \<Rightarrow> Auth \<Rightarrow> (auth_error + APIKey) \<times> Auth" where
  "CreateAPIKey name token now fault a = (case ath_store a of None \<Rightarrow> (Inl ErrStoreUnavailable, a)
     | Some db \<Rightarrow> (case token of None \<Rightarrow> (Inl ErrTokenGeneration, a)
         | Some t \<Rightarrow> if fault then (Inl ErrStore, a)
             else let i = db_lastKey db + 1; k = \<lparr>ak_ID = i, ak_Name = name, ak_Token = t, ak_CreatedAt = now, ak_LastUsedAt = zero_time\<rparr>
                  in (Inr k, a\<lparr>ath_store := Some (db\<lparr>db_keys := aput i (k\<lparr>ak_CreatedAt := rfc3339 now\<rparr>) (db_keys db), db_lastKey := i\<rparr>)\<rparr>)))"

definition DeleteAPIKey :: "int \<Rightarrow> bool \<Rightarrow> Auth \<Rightarrow> auth_error option \<times> Auth" where
  "DeleteAPIKey i fault a = (case ath_store a of None \<Rightarrow> (Some ErrStoreUnavailable, a)
     | Some db \<Rightarrow> if fault then (Some ErrStore, a)
         else (None, a\<lparr>ath_store := Some (db\<lparr>db_keys := adel i (db_keys db)\<rparr>),
                       ath_usage := (ath_usage a)\<lparr>us_entries := adel i (us_entries (ath_usage a))\<rparr>\<rparr>))"

section \<open>Use of API keys\<close>

definition maxTimestamp :: "gtime \<Rightarrow> gtime \<Rightarrow> gtime" where "maxTimestamp a b = (if b > a then b else a)"

definition fresh_use :: apiKeyUse where "fresh_use = \<lparr>ku_pending = zero_time, ku_next = zero_time, ku_seen = zero_time\<rparr>"

definition observe_use :: "gtime \<Rightarrow> apiKeyUse \<Rightarrow> apiKeyUse" where
  "observe_use now e = e\<lparr>ku_pending := maxTimestamp (ku_pending e) (maxTimestamp (ku_seen e) now), ku_seen := maxTimestamp (ku_seen e) now\<rparr>"

definition recordAPIKeyUse :: "int \<Rightarrow> gtime \<Rightarrow> Auth \<Rightarrow> Auth" where
  "recordAPIKeyUse i now a =
     (let u = ath_usage a
      in if i \<le> 0 \<or> ath_store a = None \<or> us_closed u then a
         else let old = map_of (us_entries u) i;
                  entries = (if old = None \<and> length (us_entries u) \<ge> maxAPIKeyUseEntries
                    then filter (\<lambda>(_, e). \<not> (is_zero_time (ku_pending e) \<and> \<not> now < ku_next e)) (us_entries u) else us_entries u)
              in if old = None \<and> length entries \<ge> maxAPIKeyUseEntries
                 then a\<lparr>ath_usage := u\<lparr>us_entries := entries, us_dropped := us_dropped u + 1,
                        us_lastOverflow := (if time_sub now (us_lastOverflow u) \<ge> minute then now else us_lastOverflow u)\<rparr>\<rparr>
                 else let e = observe_use now (case old of None \<Rightarrow> fresh_use | Some e \<Rightarrow> e)
                      in a\<lparr>ath_usage := u\<lparr>us_entries := aput i e entries, us_started := True,
                             us_wake := (us_wake u \<or> \<not> now < ku_next e)\<rparr>\<rparr>)"

definition db_touchKey :: "int \<Rightarrow> gtime \<Rightarrow> auth_db \<Rightarrow> auth_db" where
  "db_touchKey i t db = db\<lparr>db_keys := amap_at i (\<lambda>k. k\<lparr>ak_LastUsedAt := max (ak_LastUsedAt k) (rfc3339 t)\<rparr>) (db_keys db)\<rparr>"

text \<open>A flush takes a batch under the lock, then writes its rows one by one; \<open>steps\<close> gives for each row the fault of its write and the time after it,
  and is shorter than the batch where the flush is cancelled.\<close>

definition usage_batch :: "bool \<Rightarrow> gtime \<Rightarrow> apiKeyUsage \<Rightarrow> (int \<times> gtime) list" where
  "usage_batch final now u = map (\<lambda>(i, e). (i, ku_pending e))
     (filter (\<lambda>(_, e). \<not> is_zero_time (ku_pending e) \<and> (final \<or> \<not> now < ku_next e)) (us_entries u))"

definition expire_uses :: "gtime \<Rightarrow> apiKeyUsage \<Rightarrow> apiKeyUsage" where
  "expire_uses now u = u\<lparr>us_entries := filter (\<lambda>(_, e). \<not> (is_zero_time (ku_pending e) \<and> time_sub now (ku_seen e) > 10 * minute)) (us_entries u)\<rparr>"

definition settle_use :: "bool \<Rightarrow> gtime \<Rightarrow> gtime \<Rightarrow> apiKeyUse \<Rightarrow> apiKeyUse" where
  "settle_use fault observed now e =
     (if fault then e\<lparr>ku_next := now + apiKeyUseRetry\<rparr>
      else e\<lparr>ku_next := now + apiKeyUseInterval, ku_pending := (if ku_pending e > observed then ku_pending e else zero_time)\<rparr>)"

definition write_use :: "nat \<Rightarrow> int \<times> gtime \<Rightarrow> bool \<times> gtime \<Rightarrow> Auth \<Rightarrow> Auth" where
  "write_use generation row st a =
     (let (i, observed) = row; (fault, now) = st;
          a1 = on_store fault (db_touchKey i observed) a
      in if us_generation (ath_usage a1) = generation
         then a1\<lparr>ath_usage := (ath_usage a1)\<lparr>us_entries := amap_at i (settle_use fault observed now) (us_entries (ath_usage a1))\<rparr>\<rparr> else a1)"

definition flushAPIKeyUsage :: "bool \<Rightarrow> gtime \<Rightarrow> (bool \<times> gtime) list \<Rightarrow> Auth \<Rightarrow> Auth" where
  "flushAPIKeyUsage final now steps a =
     (let batch = usage_batch final now (ath_usage a); a1 = a\<lparr>ath_usage := expire_uses now (ath_usage a)\<rparr>
      in if ath_store a = None then a1
         else fold (\<lambda>(row, st). write_use (us_generation (ath_usage a)) row st) (zip batch steps) a1)"

definition Close_usage :: "gtime \<Rightarrow> (bool \<times> gtime) list \<Rightarrow> Auth \<Rightarrow> Auth" where
  "Close_usage now steps a = (if us_closed (ath_usage a) then a
     else let a1 = a\<lparr>ath_usage := (ath_usage a)\<lparr>us_closed := True\<rparr>\<rparr>
          in if us_started (ath_usage a) then flushAPIKeyUsage True now steps a1 else a1)"

section \<open>The login handler\<close>

text \<open>\<open>handleAuthLogin\<close> of \<open>httpapi/server_auth.go\<close> up to its answer; \<open>body\<close> is the password of the request, if its body decodes, and
  the first component of the result is whether a password was looked at.\<close>

definition handleAuthLogin :: "string \<Rightarrow> string option \<Rightarrow> string option \<Rightarrow> gtime \<Rightarrow> bool \<Rightarrow> bool \<Rightarrow> Auth \<Rightarrow> bool \<times> (auth_error + Session) \<times> Auth" where
  "handleAuthLogin source body token now fault evictFault a =
     (if \<not> PasswordRequired a then (False, Inl ErrPasswordNotRequired, a)
      else let (ok, a1) = LoginAllowed source now a
           in if \<not> ok then (False, Inl ErrInvalidCredentials, a1)
              else case body of None \<Rightarrow> (False, Inl ErrMalformedBody, a1)
                   | Some password \<Rightarrow> (True, Authenticate source password token now fault evictFault a1))"

record login_request =
  lr_source :: string
  lr_password :: "string option"
  lr_token :: "string option"
  lr_now :: gtime
  lr_fault :: bool
  lr_evictFault :: bool

definition serve_login :: "login_request \<Rightarrow> Auth \<Rightarrow> bool \<times> (auth_error + Session) \<times> Auth" where
  "serve_login q a = handleAuthLogin (lr_source q) (lr_password q) (lr_token q) (lr_now q) (lr_fault q) (lr_evictFault q) a"

text \<open>A sequence of logins, and how many of them had a password of \<open>source\<close> looked at.\<close>

fun serve_logins :: "login_request list \<Rightarrow> Auth \<Rightarrow> Auth" where
  "serve_logins [] a = a"
| "serve_logins (q # qs) a = serve_logins qs (snd (snd (serve_login q a)))"

fun guesses :: "string \<Rightarrow> login_request list \<Rightarrow> Auth \<Rightarrow> nat" where
  "guesses source [] a = 0"
| "guesses source (q # qs) a = (if lr_source q = source \<and> fst (serve_login q a) then 1 else 0) + guesses source qs (snd (snd (serve_login q a)))"

end
