(* ===== verification/Auth_Properties.thy ===== *)
theory Auth_Properties
  imports Auth
begin

text \<open>
  Properties of the login rate limit: how many passwords one source can try when its requests are served one after the other, and that
  requests served at the same time are not limited at all.
\<close>

section \<open>Logins one after the other\<close>

lemma lockout_simps: "LoginLockout = 300000000000" "LoginFailureWindow = 600000000000" "MaxLoginFailuresWithin = 8"
  by (simp_all add: LoginLockout_def LoginFailureWindow_def MaxLoginFailuresWithin_def time_defs)

lemma window_exceeded: "time_sub t u > LoginFailureWindow \<longleftrightarrow> t - u > LoginFailureWindow" "time_sub t u > 600000000000 \<longleftrightarrow> t - u > 600000000000"
  by (auto simp: time_sub_def lockout_simps max_duration_def min_duration_def)

definition bucket_ok :: "string \<Rightarrow> Auth \<Rightarrow> bool" where
  "bucket_ok source a \<longleftrightarrow> (\<forall>st. map_of (ath_loginFailures a) source = Some st \<longrightarrow> 0 \<le> lf_count st \<and> lf_count st \<le> 7)"

text \<open>How many more passwords may be looked at before \<open>t0\<close> is a lockout ago.\<close>

definition room :: "gtime \<Rightarrow> string \<Rightarrow> Auth \<Rightarrow> int" where
  "room t0 source a = (case map_of (ath_loginFailures a) source of None \<Rightarrow> 8
     | Some st \<Rightarrow> if lf_lockedUntil st \<ge> t0 + LoginLockout then 0
         else if lf_firstSeen st \<ge> t0 then 8 - lf_count st else 15 - lf_count st)"

lemma room_bounds: "bucket_ok source a \<Longrightarrow> 0 \<le> room t0 source a \<and> room t0 source a \<le> 15"
  by (auto simp: room_def bucket_ok_def split: option.splits)

lemma map_of_filter_pairs:
  "map_of (filter (\<lambda>(k, v). P v) xs) k = Some v \<Longrightarrow> distinct (map fst xs) \<Longrightarrow> map_of xs k = Some v \<and> P v"
  by (induction xs) (auto split: if_splits dest: map_of_SomeD simp: image_iff)

lemma map_of_filter_kept: "map_of xs k = Some v \<Longrightarrow> P v \<Longrightarrow> distinct (map fst xs) \<Longrightarrow> map_of (filter (\<lambda>(k, v). P v) xs) k = Some v"
  by (induction xs) (auto split: if_splits dest: map_of_SomeD simp: image_iff)

definition buckets_ok :: "Auth \<Rightarrow> bool" where
  "buckets_ok a \<longleftrightarrow> distinct (map fst (ath_loginFailures a)) \<and> (\<forall>source. bucket_ok source a)"

lemma sweep_lookup:
  assumes "distinct (map fst (ath_loginFailures a))"
  shows "map_of (ath_loginFailures (sweep_buckets now a)) s = map_of (ath_loginFailures a) s \<or>
    map_of (ath_loginFailures (sweep_buckets now a)) s = None \<and> (\<exists>st. map_of (ath_loginFailures a) s = Some st \<and> stale_bucket now st)"
proof (cases "map_of (ath_loginFailures (sweep_buckets now a)) s")
  case None
  show ?thesis
  proof (cases "map_of (ath_loginFailures a) s")
    case (Some st)
    then have "stale_bucket now st \<or> map_of (ath_loginFailures (sweep_buckets now a)) s = Some st"
      using map_of_filter_kept [of "ath_loginFailures a" s st "\<lambda>st. \<not> stale_bucket now st"] assms by (auto simp: sweep_buckets_def)
    then show ?thesis using None Some by auto
  qed (use None in auto)
next
  case (Some st)
  then have "map_of (ath_loginFailures a) s = Some st"
    using map_of_filter_pairs [of "\<lambda>st. \<not> stale_bucket now st" "ath_loginFailures a" s st] assms by (auto simp: sweep_buckets_def split: if_splits)
  then show ?thesis using Some by simp
qed

lemma sweep_ok: "buckets_ok a \<Longrightarrow> buckets_ok (sweep_buckets now a)"
proof -
  assume ok: "buckets_ok a"
  then have d: "distinct (map fst (ath_loginFailures a))" by (simp add: buckets_ok_def)
  have "distinct (map fst (ath_loginFailures (sweep_buckets now a)))"
    using d by (auto simp: sweep_buckets_def distinct_map_filter)
  moreover have "bucket_ok s (sweep_buckets now a)" for s
    using sweep_lookup [OF d, of now s] ok by (auto simp: buckets_ok_def bucket_ok_def)
  ultimately show ?thesis by (simp add: buckets_ok_def)
qed

lemma put_bucket_ok: "buckets_ok a \<Longrightarrow> 0 \<le> lf_count st \<Longrightarrow> lf_count st \<le> 7 \<Longrightarrow> buckets_ok (put_bucket s st a)"
  by (auto simp: buckets_ok_def bucket_ok_def put_bucket_def distinct_aput)

lemma sweep_room:
  assumes "buckets_ok a" and "now < t0 + LoginLockout"
  shows "room t0 s (sweep_buckets now a) \<le> room t0 s a"
proof -
  have d: "distinct (map fst (ath_loginFailures a))" "bucket_ok s a" using assms(1) by (auto simp: buckets_ok_def)
  show ?thesis using sweep_lookup [OF d(1), of now s]
  proof
    assume "map_of (ath_loginFailures (sweep_buckets now a)) s = None \<and> (\<exists>st. map_of (ath_loginFailures a) s = Some st \<and> stale_bucket now st)"
    then obtain st where "map_of (ath_loginFailures (sweep_buckets now a)) s = None" "map_of (ath_loginFailures a) s = Some st" "stale_bucket now st" by blast
    then show ?thesis using assms(2) d(2) by (simp add: room_def bucket_ok_def stale_bucket_def window_exceeded lockout_simps)
  qed (simp add: room_def)
qed

lemma allowed_ok:
  assumes "buckets_ok a" and "loginAllowed s now a = (ok, a1)"
  shows "buckets_ok a1"
proof -
  have b: "buckets_ok (sweep_buckets now a)" by (rule sweep_ok [OF assms(1)])
  then have "bucket_ok s (sweep_buckets now a)" by (simp add: buckets_ok_def)
  with b assms(2) show ?thesis
    by (auto simp: loginAllowed_def Let_def bucket_ok_def intro!: put_bucket_ok split: option.splits if_splits)
qed

lemma record_ok: "buckets_ok a \<Longrightarrow> buckets_ok (recordLoginResult s success now a)"
proof (cases success)
  case True
  assume "buckets_ok a"
  with True show ?thesis by (auto simp: recordLoginResult_def buckets_ok_def bucket_ok_def adel_def distinct_map_filter
      simp flip: adel_def split: if_splits)
next
  case False
  assume ok: "buckets_ok a"
  then have "bucket_ok s a" by (simp add: buckets_ok_def)
  with False ok show ?thesis
    by (auto simp: recordLoginResult_def bucket_ok_def lockout_simps intro!: put_bucket_ok split: option.splits)
qed

lemma guess_room:
  assumes ok: "buckets_ok a" and t: "t0 \<le> now" "now < t0 + LoginLockout" and la: "loginAllowed s now a = (True, a1)" and epoch: "0 \<le> t0"
  shows "room t0 s (recordLoginResult s False now a1) + 1 \<le> room t0 s a"
proof -
  define a0 where "a0 = sweep_buckets now a"
  have r: "room t0 s a0 \<le> room t0 s a" unfolding a0_def by (rule sweep_room [OF ok t(2)])
  have b: "bucket_ok s a0" using sweep_ok [OF ok] by (simp add: a0_def buckets_ok_def)
  have z: "zero_time < t0 + LoginLockout" using epoch by (simp add: lockout_simps time_defs)
  have "room t0 s (recordLoginResult s False now a1) + 1 \<le> room t0 s a0"
  proof (cases "map_of (ath_loginFailures a0) s")
    case None
    then have "a1 = put_bucket s \<lparr>lf_count = 0, lf_firstSeen = now, lf_lockedUntil = zero_time\<rparr> a0" using la by (simp add: loginAllowed_def a0_def [symmetric])
    then show ?thesis using t z None by (simp add: recordLoginResult_def put_bucket_def room_def lockout_simps)
  next
    case (Some st)
    have c: "0 \<le> lf_count st" "lf_count st \<le> 7" using b Some by (auto simp: bucket_ok_def)
    have nl: "\<not> now < lf_lockedUntil st" using la Some by (auto simp: loginAllowed_def a0_def [symmetric] split: if_splits)
    show ?thesis
    proof (cases "now - lf_firstSeen st > LoginFailureWindow")
      case True
      then have "a1 = put_bucket s (st\<lparr>lf_count := 0, lf_firstSeen := now\<rparr>) a0"
        using la Some nl by (simp add: loginAllowed_def a0_def [symmetric] window_exceeded)
      then show ?thesis using True t c nl Some by (simp add: recordLoginResult_def put_bucket_def room_def lockout_simps)
    next
      case False
      then have "a1 = a0" using la Some nl by (simp add: loginAllowed_def a0_def [symmetric] window_exceeded)
      then show ?thesis using t c nl Some by (auto simp: recordLoginResult_def put_bucket_def room_def lockout_simps)
    qed
  qed
  with r show ?thesis by simp
qed

lemma allowed_room:
  assumes ok: "buckets_ok a" and t: "now < t0 + LoginLockout" and la: "loginAllowed s' now a = (b, a1)"
  shows "s \<noteq> s' \<or> \<not> b \<Longrightarrow> room t0 s a1 \<le> room t0 s a"
proof -
  assume other: "s \<noteq> s' \<or> \<not> b"
  have "map_of (ath_loginFailures a1) s = map_of (ath_loginFailures (sweep_buckets now a)) s"
    using la other by (auto simp: loginAllowed_def Let_def put_bucket_def split: option.splits if_splits)
  then have "room t0 s a1 = room t0 s (sweep_buckets now a)" by (simp add: room_def)
  with sweep_room [OF ok t] show ?thesis by simp
qed

lemma let_in_room:
  assumes ok: "buckets_ok a" and t: "t0 \<le> now" "now < t0 + LoginLockout" and la: "loginAllowed s now a = (True, a1)" and epoch: "0 \<le> t0"
  shows "room t0 s a1 \<le> room t0 s a"
proof -
  define a0 where "a0 = sweep_buckets now a"
  have r: "room t0 s a0 \<le> room t0 s a" unfolding a0_def by (rule sweep_room [OF ok t(2)])
  have b: "bucket_ok s a0" using sweep_ok [OF ok] by (simp add: a0_def buckets_ok_def)
  have "room t0 s a1 \<le> room t0 s a0"
  proof (cases "map_of (ath_loginFailures a0) s")
    case None
    then show ?thesis using la t epoch by (auto simp: loginAllowed_def a0_def [symmetric] put_bucket_def room_def lockout_simps time_defs)
  next
    case (Some st)
    then have "0 \<le> lf_count st" "lf_count st \<le> 7" using b by (auto simp: bucket_ok_def)
    then show ?thesis using la t Some
      by (auto simp: loginAllowed_def a0_def [symmetric] put_bucket_def room_def lockout_simps window_exceeded split: if_splits)
  qed
  with r show ?thesis by simp
qed

lemma SecureCompare_eq: "SecureCompare x y \<longleftrightarrow> x = y"
  by (auto simp: SecureCompare_def list.rel_eq)

lemma session_failures: "ath_loginFailures (snd (CreateSession token now f ef a)) = ath_loginFailures a"
  by (auto simp: CreateSession_def evictOldestLocked_def on_store_def Let_def split: option.split)

lemma allowed_password: "loginAllowed s now a = (b, a1) \<Longrightarrow> ath_password a1 = ath_password a"
  by (auto simp: loginAllowed_def Let_def put_bucket_def sweep_buckets_def split: option.splits if_splits)

lemma authenticate_step:
  assumes ok: "buckets_ok a" and t: "t0 \<le> now" "now < t0 + LoginLockout" and epoch: "0 \<le> t0" and pw: "ath_password a \<noteq> []"
    and la: "loginAllowed src now a = (True, a1)" and wrong: "src = s \<Longrightarrow> password \<noteq> ath_password a"
    and au: "(res, a') = Authenticate src password token now fault ef a1"
  shows "buckets_ok a' \<and> ath_password a' = ath_password a \<and> (if src = s then 1 else 0) + room t0 s a' \<le> room t0 s a"
proof -
  define success where "success \<longleftrightarrow> password = ath_password a"
  define a2 where "a2 = recordLoginResult src success now a1"
  note p1 = allowed_password [OF la]
  have f: "ath_loginFailures a' = ath_loginFailures a2"
    using au pw p1 session_failures by (auto simp: Authenticate_def a2_def success_def SecureCompare_eq split: if_splits dest!: arg_cong [of _ _ snd])
  have p2: "ath_password a' = ath_password a"
    using au pw p1 by (auto simp: Authenticate_def CreateSession_def recordLoginResult_def put_bucket_def evictOldestLocked_def on_store_def Let_def
        split: if_splits option.splits dest!: arg_cong [of _ _ snd])
  have "buckets_ok a'" using record_ok [OF allowed_ok [OF ok la], of src success now] by (simp add: buckets_ok_def bucket_ok_def f a2_def)
  moreover have "(if src = s then 1 else 0) + room t0 s a2 \<le> room t0 s a"
  proof (cases "src = s")
    case True
    then show ?thesis using wrong la guess_room [OF ok t _ epoch, of s a1] by (simp add: a2_def success_def)
  next
    case False
    then have "map_of (ath_loginFailures a2) s = map_of (ath_loginFailures a1) s"
      by (auto simp: a2_def recordLoginResult_def put_bucket_def split: option.split)
    then show ?thesis using allowed_room [OF ok t(2) la, of s] False by (simp add: room_def)
  qed
  ultimately show ?thesis using p2 f by (simp add: room_def)
qed

lemma serve_step:
  assumes ok: "buckets_ok a" and t: "t0 \<le> lr_now q" "lr_now q < t0 + LoginLockout" and epoch: "0 \<le> t0"
    and wrong: "lr_source q = s \<Longrightarrow> lr_password q \<noteq> Some (ath_password a)"
    and sv: "serve_login q a = (looked, res, a')"
  shows "buckets_ok a' \<and> ath_password a' = ath_password a \<and> (if lr_source q = s \<and> looked then 1 else 0) + room t0 s a' \<le> room t0 s a"
proof (cases "PasswordRequired a")
  case True
  then have pw: "ath_password a \<noteq> []" by (simp add: PasswordRequired_def)
  obtain b a1 where la: "loginAllowed (lr_source q) (lr_now q) a = (b, a1)" by fastforce
  note sv' = sv [unfolded serve_login_def handleAuthLogin_def LoginAllowed_def] and ok1 = allowed_ok [OF ok la] and p1 = allowed_password [OF la]
  consider "\<not> b" | "b" "lr_password q = None" | password where "b" "lr_password q = Some password" by (cases "lr_password q") auto
  then show ?thesis
  proof cases
    case 1
    then show ?thesis using sv' True pw la ok1 p1 allowed_room [OF ok t(2) la] by auto
  next
    case 2
    then have "a' = a1" "\<not> looked" "loginAllowed (lr_source q) (lr_now q) a = (True, a1)" using sv' True pw la by auto
    then show ?thesis using ok1 p1 let_in_room [OF ok t _ epoch] allowed_room [OF ok t(2) la] by (cases "lr_source q = s") auto
  next
    case (3 password)
    then have sl: "looked" "loginAllowed (lr_source q) (lr_now q) a = (True, a1)"
      "(res, a') = Authenticate (lr_source q) password (lr_token q) (lr_now q) (lr_fault q) (lr_evictFault q) a1"
      using sv' True pw la by auto
    have "lr_source q = s \<Longrightarrow> password \<noteq> ath_password a" using wrong 3 by auto
    from authenticate_step [OF ok t epoch pw sl(2) this sl(3)] sl(1) show ?thesis by simp
  qed
qed (use sv ok in \<open>simp add: serve_login_def handleAuthLogin_def\<close>)

lemma serve_ok:
  assumes "buckets_ok a"
  shows "buckets_ok (snd (snd (serve_login q a))) \<and> ath_password (snd (snd (serve_login q a))) = ath_password a"
proof -
  obtain b a1 where la: "loginAllowed (lr_source q) (lr_now q) a = (b, a1)" by fastforce
  note p1 = allowed_password [OF la]
  have p: "ath_password (recordLoginResult s suc now u) = ath_password u" "ath_password (snd (CreateSession tok now f ef u)) = ath_password u" for s suc now u tok f ef
    by (auto simp: recordLoginResult_def put_bucket_def CreateSession_def evictOldestLocked_def on_store_def Let_def split: option.split)
  have s: "buckets_ok (snd (CreateSession tok now f ef u)) = buckets_ok u" for tok now f ef u
    by (simp add: buckets_ok_def bucket_ok_def session_failures)
  show ?thesis using allowed_ok [OF assms la] assms record_ok p p1 s
    by (auto simp: serve_login_def handleAuthLogin_def LoginAllowed_def la Authenticate_def PasswordRequired_def split: option.split)
qed

lemma serves_ok: "buckets_ok a \<Longrightarrow> buckets_ok (serve_logins qs a) \<and> ath_password (serve_logins qs a) = ath_password a"
  by (induction qs arbitrary: a) (auto simp: serve_ok)

lemma guesses_room:
  assumes "buckets_ok a" and "0 \<le> t0"
    and "\<forall>q \<in> set qs. t0 \<le> lr_now q \<and> lr_now q < t0 + LoginLockout \<and> (lr_source q = s \<longrightarrow> lr_password q \<noteq> Some (ath_password a))"
  shows "int (guesses s qs a) \<le> room t0 s a"
  using assms
proof (induction qs arbitrary: a)
  case Nil
  then show ?case using room_bounds by (simp add: buckets_ok_def)
next
  case (Cons q qs)
  obtain looked res a' where sv: "serve_login q a = (looked, res, a')" by (metis surj_pair)
  have st: "buckets_ok a' \<and> ath_password a' = ath_password a \<and> (if lr_source q = s \<and> looked then 1 else 0) + room t0 s a' \<le> room t0 s a"
    by (rule serve_step [OF _ _ _ _ _ sv]) (use Cons.prems in auto)
  have "int (guesses s qs a') \<le> room t0 s a'" by (rule Cons.IH) (use st Cons.prems in auto)
  then show ?case using st by (auto simp: sv)
qed


definition demo_login :: login_request where
  "demo_login = \<lparr>lr_source = ''10.0.0.1'', lr_password = Some ''guess'', lr_token = None, lr_now = 0, lr_fault = False, lr_evictFault = False\<rparr>"


section \<open>Logins at the same time\<close>

text \<open>A request is let in by \<open>LoginAllowed\<close>, then its body is read, then its password is checked. The state counts the requests of
  one source that are in between and those whose password was found wrong.\<close>

inductive login_step :: "string \<Rightarrow> gtime \<Rightarrow> Auth \<times> nat \<times> nat \<Rightarrow> Auth \<times> nat \<times> nat \<Rightarrow> bool" for source now where
  let_in: "LoginAllowed source now a = (True, a') \<Longrightarrow> login_step source now (a, waiting, checked) (a', Suc waiting, checked)"
| checked: "Authenticate source password None now False False a = (Inl ErrInvalidCredentials, a') \<Longrightarrow>
    login_step source now (a, Suc waiting, checked) (a', waiting, Suc checked)"

lemma let_in_all:
  assumes "ath_password a \<noteq> []" and "0 \<le> now" and "time_sub now (ath_loginFailuresLast a) \<le> hour"
    and "map_of (ath_loginFailures a) source = Some \<lparr>lf_count = 0, lf_firstSeen = now, lf_lockedUntil = zero_time\<rparr>"
  shows "reaches (login_step source now) (a, w, c) (a, w + n, c)"
proof (induction n)
  case (Suc n)
  have "loginAllowed source now a = (True, a)"
    using assms by (auto simp: loginAllowed_def sweep_buckets_def Let_def time_sub_def lockout_simps time_defs)
  then have "login_step source now (a, w + n, c) (a, Suc (w + n), c)" using assms(1) by (intro let_in) (simp add: LoginAllowed_def)
  with Suc.IH show ?case by (auto intro: reaches_step)
qed (simp add: reaches_refl)

lemma check_all:
  assumes "ath_password a \<noteq> []"
  shows "\<exists>a'. reaches (login_step source now) (a, n, c) (a', 0, c + n)"
  using assms
proof (induction n arbitrary: a c)
  case (Suc n)
  define a1 where "a1 = recordLoginResult source False now a"
  have "\<not> SecureCompare [] (ath_password a)" using Suc.prems by (simp add: SecureCompare_eq)
  then have "Authenticate source [] None now False False a = (Inl ErrInvalidCredentials, a1)" using Suc.prems by (simp add: Authenticate_def a1_def)
  then have st: "login_step source now (a, Suc n, c) (a1, n, Suc c)" by (rule checked)
  have "ath_password a1 \<noteq> []" using Suc.prems by (simp add: a1_def recordLoginResult_def put_bucket_def split: option.split)
  from Suc.IH [OF this, of "Suc c"] obtain a' where "reaches (login_step source now) (a1, n, Suc c) (a', 0, Suc c + n)" by blast
  with st have "reaches (login_step source now) (a, Suc n, c) (a', 0, c + Suc n)" using reaches_compose reaches_once by fastforce
  then show ?case by blast
qed (auto intro: reaches_refl)

text \<open>C21: logins served at the same time are not limited. \<open>LoginAllowed\<close> is documented to reserve the attempt it allows, but counts nothing; so
  any number of requests of one source that are let in before the first password is checked all have their passwords
  checked, in the same instant and against a lockout after eight.\<close>

theorem concurrent_guesses_unlimited:
  assumes "passwd \<noteq> []" and "0 \<le> now"
  shows "\<exists>a'. reaches (login_step source now) (NewAuth st passwd ttl, 0, 0) (a', 0, n)"
proof (cases n)
  case (Suc k)
  let ?a = "NewAuth st passwd ttl"
  define a1 where "a1 = snd (LoginAllowed source now ?a)"
  have a1: "a1 = ?a\<lparr>ath_loginFailuresLast := now, ath_loginFailures := [(source, \<lparr>lf_count = 0, lf_firstSeen = now, lf_lockedUntil = zero_time\<rparr>)]\<rparr>"
    "LoginAllowed source now ?a = (True, a1)"
    using assms by (auto simp: a1_def LoginAllowed_def loginAllowed_def sweep_buckets_def NewAuth_def put_bucket_def Let_def time_defs)
  have s1: "login_step source now (?a, 0, 0) (a1, Suc 0, 0)" by (rule let_in [OF a1(2)])
  have "reaches (login_step source now) (a1, Suc 0, 0) (a1, Suc 0 + k, 0)"
    by (rule let_in_all) (use assms in \<open>simp_all add: a1(1) NewAuth_def time_defs\<close>)
  moreover obtain a' where "reaches (login_step source now) (a1, n, 0) (a', 0, 0 + n)"
    using check_all [of a1 source now n 0] assms(1) by (auto simp: a1(1) NewAuth_def)
  ultimately have "reaches (login_step source now) (a1, Suc 0, 0) (a', 0, n)" using reaches_compose Suc by fastforce
  then show ?thesis using reaches_compose [OF _ reaches_once [where step = "login_step source now", OF s1]] by blast
qed (auto intro: reaches_refl)

theorem concurrent_guesses_unlimited_witness:
  "\<exists>a'. reaches (login_step ''10.0.0.1'' 0) (NewAuth None ''secret'' 0, 0, 0) (a', 0, 1000)"
  by (rule concurrent_guesses_unlimited) simp_all

end
