(* ===== verification/Auth_Sessions.thy ===== *)
theory Auth_Sessions
  imports Auth
begin

text \<open>
  Sessions under concurrency. \<open>Validate\<close>, \<open>RevokeSession\<close>, \<open>CreateSession\<close> and \<open>CleanupExpired\<close> of
  \<open>src/internal/controlplane/auth.go\<close> as processes that take turns between their accesses to the cache of sessions and to the
  database. The gate that serialises cache misses with revocations is the process that holds it. A client can only revoke a
  token it was given, and the token generator never repeats a token. The list \<open>sy_valid\<close> records the tokens found valid.
\<close>

datatype session_phase =
    Idle
  | Missed string              \<comment> \<open>validating, not in the cache, waiting for the gate\<close>
  | Reading string             \<comment> \<open>holds the gate, about to read the row\<close>
  | Found string Session       \<comment> \<open>holds the gate, has a live row to put into the cache\<close>
  | Stale string               \<comment> \<open>holds the gate, has an expired row to delete\<close>
  | Dropping string            \<comment> \<open>took an expired session out of the cache, row still to delete\<close>
  | Revoking string            \<comment> \<open>waiting for the gate\<close>
  | Erasing string             \<comment> \<open>holds the gate, row still to delete\<close>
  | Erased string              \<comment> \<open>holds the gate, row deleted, cache still to clear\<close>
  | Made string Session        \<comment> \<open>token generated\<close>
  | Kept string Session        \<comment> \<open>row written, or not, cache still to fill\<close>

record session_system =
  sy_auth :: Auth
  sy_gate :: "nat option"
  sy_phase :: "nat \<Rightarrow> session_phase"
  sy_used :: "string set"
  sy_known :: "string set"
  sy_revoked :: "string set"
  sy_valid :: "string list"

definition cached :: "session_system \<Rightarrow> string \<Rightarrow> Session option" where
  "cached y t = map_of (ath_sessions (sy_auth y)) t"

definition stored :: "session_system \<Rightarrow> string \<Rightarrow> Session option" where
  "stored y t = (case ath_store (sy_auth y) of None \<Rightarrow> None | Some db \<Rightarrow> map_of (db_sessions db) t)"

definition goto :: "nat \<Rightarrow> session_phase \<Rightarrow> session_system \<Rightarrow> session_system" where
  "goto i ph y = y\<lparr>sy_phase := (sy_phase y)(i := ph)\<rparr>"

definition leave :: "nat \<Rightarrow> session_system \<Rightarrow> session_system" where
  "leave i y = goto i Idle (y\<lparr>sy_gate := None\<rparr>)"

definition on_auth :: "(Auth \<Rightarrow> Auth) \<Rightarrow> session_system \<Rightarrow> session_system" where
  "on_auth f y = y\<lparr>sy_auth := f (sy_auth y)\<rparr>"

definition uncache :: "string \<Rightarrow> Auth \<Rightarrow> Auth" where "uncache t a = a\<lparr>ath_sessions := adel t (ath_sessions a)\<rparr>"
definition cache_put :: "string \<Rightarrow> Session \<Rightarrow> Auth \<Rightarrow> Auth" where "cache_put t s a = a\<lparr>ath_sessions := aput t s (ath_sessions a)\<rparr>"

definition make_room :: "bool \<Rightarrow> Auth \<Rightarrow> Auth" where
  "make_room fault a = (if length (ath_sessions a) \<ge> MaxSessions then evictOldestLocked fault a else a)"

inductive session_step :: "session_system \<Rightarrow> session_system \<Rightarrow> bool" where
  hit: "sy_phase y i = Idle \<Longrightarrow> t \<noteq> [] \<Longrightarrow> cached y t = Some s \<Longrightarrow> \<not> now > se_ExpiresAt s \<Longrightarrow> session_step y (y\<lparr>sy_valid := sy_valid y @ [t]\<rparr>)"
| hit_expired: "sy_phase y i = Idle \<Longrightarrow> t \<noteq> [] \<Longrightarrow> cached y t = Some s \<Longrightarrow> now > se_ExpiresAt s \<Longrightarrow> session_step y (goto i (Dropping t) (on_auth (uncache t) y))"
| drops: "sy_phase y i = Dropping t \<Longrightarrow> session_step y (goto i Idle (on_auth (on_store fault (db_deleteSession t)) y))"
| miss: "sy_phase y i = Idle \<Longrightarrow> t \<noteq> [] \<Longrightarrow> cached y t = None \<Longrightarrow> session_step y (goto i (Missed t) y)"
| enters: "sy_phase y i = Missed t \<Longrightarrow> sy_gate y = None \<Longrightarrow> session_step y (goto i (Reading t) (y\<lparr>sy_gate := Some i\<rparr>))"
| gives_up: "sy_phase y i \<in> {Missed t, Revoking t} \<Longrightarrow> session_step y (goto i Idle y)"
| reads_nothing: "sy_phase y i = Reading t \<Longrightarrow> fault \<or> stored y t = None \<Longrightarrow> session_step y (leave i y)"
| reads_expired: "sy_phase y i = Reading t \<Longrightarrow> stored y t = Some s \<Longrightarrow> now > se_ExpiresAt s \<Longrightarrow> session_step y (goto i (Stale t) y)"
| reads_live: "sy_phase y i = Reading t \<Longrightarrow> stored y t = Some s \<Longrightarrow> \<not> now > se_ExpiresAt s \<Longrightarrow> session_step y (goto i (Found t s) y)"
| deletes_stale: "sy_phase y i = Stale t \<Longrightarrow> session_step y (leave i (on_auth (on_store fault (db_deleteSession t)) y))"
| caches: "sy_phase y i = Found t s \<Longrightarrow> session_step y (leave i (on_auth (cache_put t s) (y\<lparr>sy_valid := sy_valid y @ [t]\<rparr>)))"
| revokes: "sy_phase y i = Idle \<Longrightarrow> t \<noteq> [] \<Longrightarrow> t \<in> sy_known y \<Longrightarrow> session_step y (goto i (Revoking t) y)"
| revoke_enters: "sy_phase y i = Revoking t \<Longrightarrow> sy_gate y = None \<Longrightarrow> session_step y (goto i (Erasing t) (y\<lparr>sy_gate := Some i\<rparr>))"
| revoke_fails: "sy_phase y i = Erasing t \<Longrightarrow> ath_store (sy_auth y) \<noteq> None \<Longrightarrow> session_step y (leave i y)"
| erases: "sy_phase y i = Erasing t \<Longrightarrow> session_step y (goto i (Erased t) (on_auth (on_store False (db_deleteSession t)) y))"
| revoked: "sy_phase y i = Erased t \<Longrightarrow> session_step y (leave i (on_auth (uncache t) (y\<lparr>sy_revoked := insert t (sy_revoked y)\<rparr>)))"
| makes: "sy_phase y i = Idle \<Longrightarrow> t \<noteq> [] \<Longrightarrow> t \<notin> sy_used y \<Longrightarrow> s = \<lparr>se_Token = t, se_CreatedAt = now, se_ExpiresAt = now + ath_ttl (sy_auth y)\<rparr> \<Longrightarrow>
    session_step y (goto i (Made t s) (y\<lparr>sy_used := insert t (sy_used y)\<rparr>))"
| keeps_row: "sy_phase y i = Made t s \<Longrightarrow> session_step y (goto i (Kept t s) (on_auth (on_store fault (db_createSession s)) y))"
| hands_out: "sy_phase y i = Kept t s \<Longrightarrow>
    session_step y (goto i Idle (on_auth (cache_put t s \<circ> make_room fault) (y\<lparr>sy_known := insert t (sy_known y)\<rparr>)))"
| sweeps_cache: "session_step y (on_auth (\<lambda>a. a\<lparr>ath_sessions := filter (\<lambda>(_, s). \<not> now > se_ExpiresAt s) (ath_sessions a)\<rparr>) y)"
| sweeps_rows: "session_step y (on_auth (on_store fault (db_cleanupSessions now)) y)"

definition session_start :: "Auth \<Rightarrow> string set \<Rightarrow> session_system" where
  "session_start a known = \<lparr>sy_auth = a, sy_gate = None, sy_phase = (\<lambda>_. Idle), sy_used = known, sy_known = known, sy_revoked = {}, sy_valid = []\<rparr>"

section \<open>Revocation\<close>

fun holds_gate :: "session_phase \<Rightarrow> bool" where
  "holds_gate (Reading _) = True" | "holds_gate (Found _ _) = True" | "holds_gate (Stale _) = True" | "holds_gate (Erasing _) = True"
| "holds_gate (Erased _) = True" | "holds_gate _ = False"

fun making :: "session_phase \<Rightarrow> Session option" where
  "making (Made t s) = Some s" | "making (Kept t s) = Some s" | "making _ = None"

fun revoking :: "session_phase \<Rightarrow> string option" where
  "revoking (Revoking t) = Some t" | "revoking (Erasing t) = Some t" | "revoking (Erased t) = Some t" | "revoking _ = None"

fun own_token :: "session_phase \<Rightarrow> bool" where
  "own_token (Made t s) = (se_Token s = t)" | "own_token (Kept t s) = (se_Token s = t)" | "own_token _ = True"

definition gate_ok :: "session_system \<Rightarrow> bool" where
  "gate_ok y \<longleftrightarrow> (\<forall>i. holds_gate (sy_phase y i) \<longrightarrow> sy_gate y = Some i)"

definition tokens_ok :: "session_system \<Rightarrow> bool" where
  "tokens_ok y \<longleftrightarrow> sy_known y \<subseteq> sy_used y \<and> sy_revoked y \<subseteq> sy_known y \<and> (\<forall>i. own_token (sy_phase y i)) \<and>
     (\<forall>i s. making (sy_phase y i) = Some s \<longrightarrow> se_Token s \<notin> sy_known y \<and> se_Token s \<in> sy_used y) \<and>
     (\<forall>i j s s'. making (sy_phase y i) = Some s \<longrightarrow> making (sy_phase y j) = Some s' \<longrightarrow> se_Token s = se_Token s' \<longrightarrow> i = j) \<and>
     (\<forall>i t. revoking (sy_phase y i) = Some t \<longrightarrow> t \<in> sy_known y)"

definition erased_ok :: "session_system \<Rightarrow> bool" where
  "erased_ok y \<longleftrightarrow> (\<forall>i t. sy_phase y i = Erased t \<longrightarrow> stored y t = None) \<and>
     (\<forall>t \<in> sy_revoked y. cached y t = None \<and> stored y t = None \<and> (\<forall>i s. sy_phase y i \<noteq> Found t s))"

text \<open>How the accesses change what is cached and stored.\<close>

lemma cache_simps:
  "cached (goto i ph y) t = cached y t" "stored (goto i ph y) t = stored y t" "cached (leave i y) t = cached y t" "stored (leave i y) t = stored y t"
  "cached (y\<lparr>sy_gate := g\<rparr>) t = cached y t" "stored (y\<lparr>sy_gate := g\<rparr>) t = stored y t"
  "cached (y\<lparr>sy_valid := v\<rparr>) t = cached y t" "stored (y\<lparr>sy_valid := v\<rparr>) t = stored y t"
  "cached (y\<lparr>sy_revoked := R\<rparr>) t = cached y t" "stored (y\<lparr>sy_revoked := R\<rparr>) t = stored y t"
  "cached (y\<lparr>sy_known := K\<rparr>) t = cached y t" "stored (y\<lparr>sy_known := K\<rparr>) t = stored y t"
  "cached (y\<lparr>sy_used := K\<rparr>) t = cached y t" "stored (y\<lparr>sy_used := K\<rparr>) t = stored y t"
  by (simp_all add: cached_def stored_def goto_def leave_def)

lemma access_simps:
  "cached (on_auth (uncache u) y) t = (if t = u then None else cached y t)" "stored (on_auth (uncache u) y) t = stored y t"
  "cached (on_auth (cache_put u s) y) t = (if t = u then Some s else cached y t)" "stored (on_auth (cache_put u s) y) t = stored y t"
  "cached (on_auth (on_store fault f) y) t = cached y t"
  "stored (on_auth (on_store fault (db_deleteSession u)) y) t = (if t = u \<and> \<not> fault then None else stored y t)"
  "stored (on_auth (on_store fault (db_createSession s)) y) t =
     (if t = se_Token s \<and> \<not> fault \<and> ath_store (sy_auth y) \<noteq> None \<and> stored y t = None then Some (s\<lparr>se_CreatedAt := rfc3339 (se_CreatedAt s), se_ExpiresAt := rfc3339 (se_ExpiresAt s)\<rparr>) else stored y t)"
  by (auto simp: cached_def stored_def on_auth_def uncache_def cache_put_def on_store_def db_deleteSession_def db_createSession_def split: option.split)

lemma map_of_filter_None: "map_of xs t = None \<Longrightarrow> map_of (filter P xs) t = None"
  by (induction xs) (auto split: if_splits)

lemma shrink_simps:
  "cached y t = None \<Longrightarrow> cached (on_auth (\<lambda>a. a\<lparr>ath_sessions := filter P (ath_sessions a)\<rparr>) y) t = None"
  "stored (on_auth (\<lambda>a. a\<lparr>ath_sessions := filter P (ath_sessions a)\<rparr>) y) t = stored y t"
  "stored y t = None \<Longrightarrow> stored (on_auth (on_store fault (db_cleanupSessions now)) y) t = None"
  "cached y t = None \<Longrightarrow> t \<noteq> u \<Longrightarrow> cached (on_auth (cache_put u s \<circ> make_room fault) y) t = None"
  "stored y t = None \<Longrightarrow> stored (on_auth (cache_put u s \<circ> make_room fault) y) t = None"
  by (auto simp: cached_def stored_def on_auth_def on_store_def db_cleanupSessions_def cache_put_def make_room_def evictOldestLocked_def
      db_deleteSession_def map_of_filter_None split: option.splits)

lemma phase_frame: "sy_phase (on_auth f y) = sy_phase y" "sy_phase (goto i ph y) = (sy_phase y)(i := ph)" "sy_phase (leave i y) = (sy_phase y)(i := Idle)"
  "sy_gate (on_auth f y) = sy_gate y" "sy_gate (goto i ph y) = sy_gate y"
  "sy_known (on_auth f y) = sy_known y" "sy_used (on_auth f y) = sy_used y" "sy_revoked (on_auth f y) = sy_revoked y" "sy_valid (on_auth f y) = sy_valid y"
  "sy_known (goto i ph y) = sy_known y" "sy_used (goto i ph y) = sy_used y" "sy_revoked (goto i ph y) = sy_revoked y" "sy_valid (goto i ph y) = sy_valid y"
  "sy_known (leave i y) = sy_known y" "sy_used (leave i y) = sy_used y" "sy_revoked (leave i y) = sy_revoked y" "sy_valid (leave i y) = sy_valid y"
  by (simp_all add: on_auth_def goto_def leave_def)

lemma gate_alone: "gate_ok y \<Longrightarrow> holds_gate (sy_phase y i) \<Longrightarrow> j \<noteq> i \<Longrightarrow> \<not> holds_gate (sy_phase y j)"
  unfolding gate_ok_def by (metis option.inject)

lemma gate_goto:
  assumes "gate_ok y" and "holds_gate ph \<longrightarrow> holds_gate (sy_phase y i)"
  shows "gate_ok (goto i ph y)"
  unfolding gate_ok_def
proof (intro allI impI)
  fix j
  assume "holds_gate (sy_phase (goto i ph y) j)"
  then have "holds_gate (sy_phase y j)" using assms(2) by (simp add: phase_frame split: if_splits)
  then show "sy_gate (goto i ph y) = Some j" using assms(1) unfolding gate_ok_def phase_frame by blast
qed

lemma gate_leave:
  assumes "gate_ok y" and "holds_gate (sy_phase y i)"
  shows "gate_ok (leave i y)"
  unfolding gate_ok_def
proof (intro allI impI)
  fix j
  assume "holds_gate (sy_phase (leave i y) j)"
  then have "j \<noteq> i" "holds_gate (sy_phase y j)" by (auto simp: phase_frame split: if_splits)
  then show "sy_gate (leave i y) = Some j" using gate_alone [OF assms] by blast
qed

lemma gate_enter:
  assumes "gate_ok y" and "sy_gate y = None"
  shows "gate_ok (goto i ph (y\<lparr>sy_gate := Some i\<rparr>))"
proof -
  have "\<not> holds_gate (sy_phase y j)" for j using assms unfolding gate_ok_def by auto
  then show ?thesis by (simp add: gate_ok_def goto_def)
qed

lemma gate_frame: "gate_ok (on_auth f y) = gate_ok y" "gate_ok (y\<lparr>sy_valid := v\<rparr>) = gate_ok y" "gate_ok (y\<lparr>sy_used := U\<rparr>) = gate_ok y"
  "gate_ok (y\<lparr>sy_known := U\<rparr>) = gate_ok y" "gate_ok (y\<lparr>sy_revoked := U\<rparr>) = gate_ok y"
  by (simp_all add: gate_ok_def on_auth_def)

lemma gate_step: "session_step y y' \<Longrightarrow> gate_ok y \<Longrightarrow> gate_ok y'"
  by (induction rule: session_step.induct) (auto simp: gate_frame phase_frame intro!: gate_goto gate_leave gate_enter)

lemma tokens_frame: "tokens_ok (on_auth f y) = tokens_ok y" "tokens_ok (y\<lparr>sy_valid := v\<rparr>) = tokens_ok y" "tokens_ok (y\<lparr>sy_gate := g\<rparr>) = tokens_ok y"
  by (simp_all add: tokens_ok_def on_auth_def)

lemma tokens_goto:
  assumes ok: "tokens_ok y" and "own_token ph" and "making ph = None \<or> making ph = making (sy_phase y i)" and "\<And>t. revoking ph = Some t \<Longrightarrow> t \<in> sy_known y"
  shows "tokens_ok (goto i ph y)"
proof -
  have m: "making (sy_phase (goto i ph y) j) = Some s \<Longrightarrow> making (sy_phase y j) = Some s" for j s
    using assms(3) by (auto simp: phase_frame split: if_splits)
  have r: "revoking (sy_phase (goto i ph y) j) = Some t \<Longrightarrow> t \<in> sy_known y" for j t
    using assms(1,4) by (auto simp: phase_frame tokens_ok_def split: if_splits)
  have o: "own_token (sy_phase (goto i ph y) j)" for j using assms(1,2) by (simp add: phase_frame tokens_ok_def)
  show ?thesis unfolding tokens_ok_def phase_frame(10-12)
  proof (intro conjI allI impI)
    show "sy_known y \<subseteq> sy_used y" "sy_revoked y \<subseteq> sy_known y" using ok unfolding tokens_ok_def by blast+
    show "own_token (sy_phase (goto i ph y) j)" for j by (rule o)
    show "se_Token s \<notin> sy_known y" "se_Token s \<in> sy_used y" if "making (sy_phase (goto i ph y) j) = Some s" for j s
      using m [OF that] ok unfolding tokens_ok_def by blast+
    show "j = k" if "making (sy_phase (goto i ph y) j) = Some s" "making (sy_phase (goto i ph y) k) = Some s'" "se_Token s = se_Token s'" for j k s s'
      using m [OF that(1)] m [OF that(2)] that(3) ok unfolding tokens_ok_def by blast
    show "t \<in> sy_known y" if "revoking (sy_phase (goto i ph y) j) = Some t" for j t by (rule r [OF that])
  qed
qed

lemma tokens_leave: "tokens_ok y \<Longrightarrow> tokens_ok (leave i y)"
  unfolding leave_def by (intro tokens_goto) (simp_all add: tokens_frame)

lemma tokens_known:
  assumes "tokens_ok y" and "t \<in> sy_used y" and "\<And>i s. making (sy_phase y i) = Some s \<Longrightarrow> se_Token s \<noteq> t" and "K = insert t (sy_known y)"
  shows "tokens_ok (y\<lparr>sy_known := K\<rparr>)"
  using assms(1,2) unfolding tokens_ok_def assms(4)
  by (elim conjE, intro conjI allI impI) (use assms(3) in \<open>auto dest: subsetD\<close>)

lemma tokens_step: "session_step y y' \<Longrightarrow> tokens_ok y \<Longrightarrow> tokens_ok y'"
proof (induction rule: session_step.induct)
  case (revokes y i t)
  then show ?case by (intro tokens_goto) auto
next
  case (revoke_enters y i t)
  then have "t \<in> sy_known y" unfolding tokens_ok_def by (metis revoking.simps(1))
  with revoke_enters show ?case by (intro tokens_goto) (auto simp: tokens_frame)
next
  case (erases y i t)
  then have "t \<in> sy_known y" unfolding tokens_ok_def by (metis revoking.simps(2))
  with erases show ?case by (intro tokens_goto) (auto simp: tokens_frame phase_frame)
next
  case (revoked y i t)
  then have "t \<in> sy_known y" unfolding tokens_ok_def by (metis revoking.simps(3))
  with revoked have "tokens_ok (y\<lparr>sy_revoked := insert t (sy_revoked y)\<rparr>)" by (simp add: tokens_ok_def)
  then show ?case by (simp add: tokens_leave tokens_frame)
next
  case (makes y i t s now)
  have fresh: "se_Token s' \<noteq> t" if "making (sy_phase y j) = Some s'" for j s' using that makes unfolding tokens_ok_def by blast
  have known: "t \<notin> sy_known y" using makes unfolding tokens_ok_def by blast
  show ?case unfolding tokens_ok_def phase_frame
  proof (intro conjI allI impI)
    show "j = k" if "making (((sy_phase (y\<lparr>sy_used := insert t (sy_used y)\<rparr>))(i := Made t s)) j) = Some s1"
        "making (((sy_phase (y\<lparr>sy_used := insert t (sy_used y)\<rparr>))(i := Made t s)) k) = Some s2" "se_Token s1 = se_Token s2" for j k s1 s2
      using that makes(4,5) fresh [of j s1] fresh [of k s2] unfolding tokens_ok_def by (auto split: if_splits)
  qed (use makes known in \<open>auto simp: tokens_ok_def split: if_splits\<close>)
next
  case (keeps_row y i t s fault)
  then have "own_token (Kept t s)" unfolding tokens_ok_def by (metis own_token.simps(1,2))
  with keeps_row show ?case by (intro tokens_goto) (auto simp: tokens_frame phase_frame)
next
  case (hands_out y i t s fault)
  then have st: "se_Token s = t" unfolding tokens_ok_def by (metis own_token.simps(2))
  have other: "se_Token s' \<noteq> t" if "making (sy_phase y j) = Some s'" "j \<noteq> i" for j s'
  proof
    assume "se_Token s' = t"
    moreover have "making (sy_phase y i) = Some s" using hands_out by simp
    ultimately show False using that st hands_out(2) unfolding tokens_ok_def by metis
  qed
  have "t \<in> sy_used y" using hands_out st unfolding tokens_ok_def by (metis making.simps(2))
  moreover have g: "tokens_ok (goto i Idle y)" using hands_out(2) by (intro tokens_goto) simp_all
  moreover have "se_Token s' \<noteq> t" if "making (sy_phase (goto i Idle y) j) = Some s'" for j s'
    using that other [of j s'] by (simp add: phase_frame split: if_splits)
  ultimately have "tokens_ok ((goto i Idle y)\<lparr>sy_known := insert t (sy_known y)\<rparr>)"
    by (intro tokens_known [of "goto i Idle y" t]) (simp_all add: phase_frame)
  moreover have "goto i Idle (on_auth f (y\<lparr>sy_known := K\<rparr>)) = on_auth f ((goto i Idle y)\<lparr>sy_known := K\<rparr>)" for f K by (simp add: goto_def on_auth_def)
  ultimately show ?case by (simp only: tokens_frame)
qed (auto simp: tokens_frame phase_frame intro!: tokens_goto tokens_leave)

lemma erased_mono:
  assumes ok: "erased_ok y" "tokens_ok y" and rev: "sy_revoked y' = sy_revoked y"
    and st: "\<And>t. t \<in> sy_known y \<Longrightarrow> stored y t = None \<Longrightarrow> stored y' t = None"
    and ca: "\<And>t. t \<in> sy_revoked y \<Longrightarrow> cached y t = None \<Longrightarrow> cached y' t = None"
    and er: "\<And>i t. sy_phase y' i = Erased t \<Longrightarrow> sy_phase y i = Erased t \<or> stored y' t = None"
    and fo: "\<And>i t s. sy_phase y' i = Found t s \<Longrightarrow> sy_phase y i = Found t s \<or> t \<notin> sy_revoked y"
  shows "erased_ok y'"
proof -
  have k: "t \<in> sy_known y" if "sy_phase y i = Erased t" for i t using ok(2) that unfolding tokens_ok_def by (metis revoking.simps(3))
  have rk: "sy_revoked y \<subseteq> sy_known y" using ok(2) unfolding tokens_ok_def by blast
  have "stored y' t = None" if "sy_phase y' i = Erased t" for i t using er [OF that] k st ok(1) unfolding erased_ok_def by blast
  moreover have "cached y' t = None \<and> stored y' t = None \<and> (\<forall>i s. sy_phase y' i \<noteq> Found t s)" if "t \<in> sy_revoked y" for t
    using that ok(1) st ca fo rk unfolding erased_ok_def by blast
  ultimately show ?thesis unfolding erased_ok_def rev by blast
qed

lemma erased_step:
  assumes "session_step y y'" and "gate_ok y" and "tokens_ok y" and "erased_ok y"
  shows "erased_ok y'"
  using assms
proof (induction rule: session_step.induct)
  case (reads_live y i t s now)
  then have "t \<notin> sy_revoked y" unfolding erased_ok_def by auto
  with reads_live show ?case by (intro erased_mono [OF reads_live(6,5)]) (auto simp: phase_frame cache_simps split: if_splits)
next
  case (caches y i t s)
  then have "t \<notin> sy_revoked y" unfolding erased_ok_def by blast
  with caches show ?case by (intro erased_mono [OF caches(4,3)]) (auto simp: phase_frame cache_simps access_simps split: if_splits)
next
  case (erases y i t)
  then show ?case by (intro erased_mono [OF erases(4,3)]) (auto simp: phase_frame cache_simps access_simps split: if_splits)
next
  case (revoked y i t)
  have nf: "sy_phase y j \<noteq> Found t s" for j s
    using gate_alone [OF revoked(2), of i j] revoked(1) by (cases "j = i") auto
  have sn: "stored y t = None" using revoked unfolding erased_ok_def by blast
  show ?case unfolding erased_ok_def phase_frame cache_simps access_simps
  proof (intro conjI allI impI ballI)
    show "stored y u = None" if "((sy_phase (y\<lparr>sy_revoked := insert t (sy_revoked y)\<rparr>))(i := Idle)) j = Erased u" for j u
      using that revoked(4) unfolding erased_ok_def by (simp split: if_splits)
  qed (use revoked(4) nf sn in \<open>auto simp: erased_ok_def split: if_splits\<close>)
next
  case (keeps_row y i t s fault)
  have "making (sy_phase y i) = Some s" using keeps_row by simp
  then have "se_Token s \<notin> sy_known y" using keeps_row(3) unfolding tokens_ok_def by blast
  with keeps_row show ?case by (intro erased_mono [OF keeps_row(4,3)]) (auto simp: phase_frame cache_simps access_simps split: if_splits)
next
  case (hands_out y i t s fault)
  have "own_token (Kept t s)" "se_Token s \<notin> sy_known y" using hands_out(1,3) unfolding tokens_ok_def by (metis making.simps(2))+
  then have "t \<notin> sy_known y" by simp
  moreover have "sy_revoked y \<subseteq> sy_known y" using hands_out(3) unfolding tokens_ok_def by blast
  ultimately have "t \<notin> sy_revoked y" by blast
  then have c: "cached (on_auth (cache_put t s \<circ> make_room fault) (y\<lparr>sy_known := insert t (sy_known y)\<rparr>)) u = None"
    if "u \<in> sy_revoked y" "cached y u = None" for u
    using that by (intro shrink_simps(4)) (auto simp: cache_simps)
  show ?case by (rule erased_mono [OF hands_out(4,3)]) (auto simp: phase_frame cache_simps shrink_simps c split: if_splits)
qed (rule erased_mono; (assumption | auto simp: phase_frame cache_simps access_simps shrink_simps split: if_splits))+

definition sessions_ok :: "session_system \<Rightarrow> bool" where
  "sessions_ok y \<longleftrightarrow> gate_ok y \<and> tokens_ok y \<and> erased_ok y"

interpretation session_run: inductive_invariant "session_start a known" session_step sessions_ok
proof
  show "sessions_ok t" if "sessions_ok s" "session_step s t" for s t
    using that gate_step tokens_step erased_step unfolding sessions_ok_def by blast
  show "sessions_ok (session_start a known)"
    by (simp add: sessions_ok_def gate_ok_def tokens_ok_def erased_ok_def session_start_def)
qed

text \<open>From a revocation on, a token stays revoked and is found valid no more.\<close>

lemma revoked_step:
  assumes "session_step y y'" and "sessions_ok y" and "t \<in> sy_revoked y"
  shows "t \<in> sy_revoked y' \<and> count_list (sy_valid y') t = count_list (sy_valid y) t"
  using assms(1)
proof cases
  case (hit i u s now)
  then have "u \<noteq> t" using assms(2,3) unfolding sessions_ok_def erased_ok_def by auto
  then show ?thesis using hit assms(3) by simp
next
  case (caches i u s)
  then have "u \<noteq> t" using assms(2,3) unfolding sessions_ok_def erased_ok_def by blast
  then show ?thesis using caches assms(3) by (simp add: phase_frame)
qed (use assms(3) in \<open>simp_all add: phase_frame\<close>)

text \<open>C32: a revoked session is gone for good. Under every interleaving of validations, revocations, logins, expiry and clean-up, with a database that may
  fail at any access, once a revocation has been reported as done the token is neither in the cache nor in the database and no validation
  finds it valid any more, not even one that was reading the database when the revocation began.\<close>

theorem revocation_is_final:
  assumes "reaches session_step (session_start a known) y" and "t \<in> sy_revoked y" and "reaches session_step y y'"
  shows "cached y' t = None \<and> stored y' t = None \<and> count_list (sy_valid y') t = count_list (sy_valid y) t"
proof -
  have "sessions_ok y' \<and> t \<in> sy_revoked y' \<and> count_list (sy_valid y') t = count_list (sy_valid y) t"
    using assms(3,1,2)
  proof (induction rule: reaches.induct)
    case (reaches_refl s)
    then show ?case using session_run.reachable_inv by blast
  next
    case (reaches_step s u v)
    then have "sessions_ok u" "t \<in> sy_revoked u" by auto
    then show ?case using reaches_step session_run.step_inv revoked_step by metis
  qed
  then show ?thesis unfolding sessions_ok_def erased_ok_def by blast
qed

section \<open>A concrete logout\<close>

definition demo_session :: Session where "demo_session = \<lparr>se_Token = ''t'', se_CreatedAt = 0, se_ExpiresAt = 100 * second\<rparr>"

definition demo_sessions0 :: session_system where
  "demo_sessions0 = session_start (NewAuth (Some \<lparr>db_sessions = [(''t'', demo_session)], db_keys = [], db_lastKey = 0\<rparr>) ''secret'' 0) {''t''}"

definition demo_sessions1 :: session_system where "demo_sessions1 = goto 1 (Revoking ''t'') demo_sessions0"
definition demo_sessions2 :: session_system where "demo_sessions2 = goto 1 (Erasing ''t'') (demo_sessions1\<lparr>sy_gate := Some 1\<rparr>)"
definition demo_sessions3 :: session_system where "demo_sessions3 = goto 1 (Erased ''t'') (on_auth (on_store False (db_deleteSession ''t'')) demo_sessions2)"
definition demo_sessions4 :: session_system where
  "demo_sessions4 = leave 1 (on_auth (uncache ''t'') (demo_sessions3\<lparr>sy_revoked := insert ''t'' (sy_revoked demo_sessions3)\<rparr>))"

lemma demo_logout: "reaches session_step demo_sessions0 demo_sessions4"
proof -
  have "session_step demo_sessions0 demo_sessions1" unfolding demo_sessions1_def by (rule revokes) (simp_all add: demo_sessions0_def session_start_def)
  moreover have "session_step demo_sessions1 demo_sessions2" unfolding demo_sessions2_def
    by (rule revoke_enters) (simp_all add: demo_sessions1_def demo_sessions0_def session_start_def goto_def)
  moreover have "session_step demo_sessions2 demo_sessions3" unfolding demo_sessions3_def by (rule erases) (simp add: demo_sessions2_def goto_def)
  moreover have "session_step demo_sessions3 demo_sessions4" unfolding demo_sessions4_def by (rule revoked) (simp add: demo_sessions3_def goto_def)
  ultimately show ?thesis by (meson reaches_refl reaches_step)
qed

theorem revocation_is_final_witness:
  "stored demo_sessions0 ''t'' = Some demo_session \<and> stored demo_sessions4 ''t'' = None \<and> cached demo_sessions4 ''t'' = None"
proof -
  have "''t'' \<in> sy_revoked demo_sessions4" by (simp add: demo_sessions4_def phase_frame)
  from revocation_is_final [OF demo_logout [unfolded demo_sessions0_def] this reaches_refl]
  show ?thesis by (simp add: stored_def demo_sessions0_def session_start_def NewAuth_def)
qed

section \<open>The session table\<close>

text \<open>Logins keep the table of sessions within its bound, but a session that is read back from the database joins it unchecked: after a
  restart the table can grow to any size.\<close>

lemma length_aput: "length (aput k v xs) \<le> length xs + 1"
  by (induction k v xs rule: aput.induct) auto

lemma oldest_some: "xs \<noteq> [] \<Longrightarrow> [] \<notin> fst ` set xs \<Longrightarrow> \<exists>t c. oldest_session best xs = Some (t, c) \<and> (t \<in> fst ` set xs \<or> best = Some (t, c))"
proof (induction best xs rule: oldest_session.induct)
  case (2 best token s ss)
  let ?b = "case best of None \<Rightarrow> Some (token, se_CreatedAt s) | Some (b, t) \<Rightarrow> if b = [] \<or> se_CreatedAt s < t then Some (token, se_CreatedAt s) else best"
  show ?case
  proof (cases "ss = []")
    case True
    then show ?thesis by (cases best) auto
  next
    case False
    from 2(1) [OF this] 2(3) obtain t c where "oldest_session ?b ss = Some (t, c)" "t \<in> fst ` set ss \<or> ?b = Some (t, c)" by auto
    then show ?thesis by (cases best) (auto split: if_splits)
  qed
qed simp

lemma evict_shrinks:
  assumes "ath_sessions a \<noteq> []" and "[] \<notin> fst ` set (ath_sessions a)"
  shows "length (ath_sessions (evictOldestLocked fault a)) < length (ath_sessions a)"
proof -
  obtain t c where o: "oldest_session None (ath_sessions a) = Some (t, c)" "t \<in> fst ` set (ath_sessions a)"
    using oldest_some [OF assms, of None] by auto
  then have "t \<noteq> []" using assms(2) by blast
  moreover have "length (adel t (ath_sessions a)) < length (ath_sessions a)"
  proof -
    obtain v where "(t, v) \<in> set (ath_sessions a)" using o(2) by auto
    then show ?thesis unfolding adel_def by (rule length_filter_less) simp
  qed
  ultimately show ?thesis by (simp add: evictOldestLocked_def o(1) on_store_def)
qed

lemma create_bounded:
  assumes "CreateSession (Some t) now fault ef a = (res, a')" and "[] \<notin> fst ` set (ath_sessions a)" and "length (ath_sessions a) \<le> MaxSessions"
  shows "length (ath_sessions a') \<le> MaxSessions"
proof -
  let ?s = "\<lparr>se_Token = t, se_CreatedAt = now, se_ExpiresAt = now + ath_ttl a\<rparr>"
  define a1 where "a1 = on_store fault (db_createSession ?s) a"
  have s1: "ath_sessions a1 = ath_sessions a" by (simp add: a1_def on_store_def)
  define a2 where "a2 = (if length (ath_sessions a1) \<ge> MaxSessions then evictOldestLocked ef a1 else a1)"
  have "a' = a2\<lparr>ath_sessions := aput t ?s (ath_sessions a2)\<rparr>" using assms(1) by (auto simp: CreateSession_def Let_def a1_def a2_def)
  moreover have "length (ath_sessions a2) < MaxSessions"
  proof (cases "length (ath_sessions a1) \<ge> MaxSessions")
    case True
    then have "ath_sessions a1 \<noteq> []" by (auto simp: MaxSessions_def)
    then show ?thesis using True evict_shrinks [of a1 ef] assms(2,3) by (simp add: a2_def s1)
  qed (simp add: a2_def)
  ultimately show ?thesis using length_aput [of t ?s "ath_sessions a2"] by simp
qed

fun validate_all :: "string list \<Rightarrow> gtime \<Rightarrow> Auth \<Rightarrow> Auth" where
  "validate_all [] now a = a"
| "validate_all (t # ts) now a = validate_all ts now (snd (Validate_session t now True False False a))"

lemma validate_all_grows:
  assumes "ath_store a = Some db" and "distinct ts" and "[] \<notin> set ts" and "\<And>t. t \<in> set ts \<Longrightarrow> map_of (ath_sessions a) t = None"
    and "\<And>t. t \<in> set ts \<Longrightarrow> \<exists>s. map_of (db_sessions db) t = Some s \<and> \<not> now > se_ExpiresAt s"
  shows "length (ath_sessions (validate_all ts now a)) = length (ath_sessions a) + length ts"
  using assms
proof (induction ts arbitrary: a)
  case (Cons t ts)
  obtain s where s: "map_of (db_sessions db) t = Some s" "\<not> now > se_ExpiresAt s" using Cons.prems(5) [of t] by auto
  define a1 where "a1 = a\<lparr>ath_sessions := aput t s (ath_sessions a)\<rparr>"
  have v: "snd (Validate_session t now True False False a) = a1"
  proof -
    have "t \<noteq> []" using Cons.prems(3) by auto
    then show ?thesis using Cons.prems s by (simp add: Validate_session_def a1_def)
  qed
  have new: "map_of (ath_sessions a) t = None" using Cons.prems(4) by simp
  have len: "length (aput t s xs) = length xs + 1" if "map_of xs t = None" for xs :: "(string \<times> Session) list"
    using that by (induction t s xs rule: aput.induct) (auto split: if_splits)
  have "length (ath_sessions (validate_all ts now a1)) = length (ath_sessions a1) + length ts"
    by (rule Cons.IH) (use Cons.prems in \<open>auto simp: a1_def\<close>)
  then show ?case using len [OF new] by (simp add: v a1_def)
qed simp

end
