(* ===== verification/Tag_Store.thy ===== *)
theory Tag_Store
  imports Tags "HOL-Library.List_Lexorder" "HOL-Library.Char_ord"
begin

text \<open>
  The tables of the tagging system, \<open>src/internal/store/sqlite_tags.go\<close>: tags, their mutex groups, the assignments of tags to
  nodes, the column of visible tag names of a node and the tag filters of group pools. A write runs in a transaction: an
  error changes nothing. Uniqueness, foreign keys and cascades are those of the schema (\<open>store/migrations.go\<close>). The timestamps of the
  rows, which nothing reads but the display, are left out, and a JSON column is the list it encodes.
\<close>

datatype tag_store_error = ErrTagStore | ErrTagNotFound | ErrGroupNotFound | ErrNameTaken | ErrForeignKey

datatype tag_source = Auto_Source | Manual_Source

record tag_row = store_tag +
  tw_Color :: string
  tw_Description :: string
  tw_BuiltinKey :: string

record TagMutexGroup =
  mg_ID :: int
  mg_Name :: string
  mg_Description :: string

record NodeTag =
  nt_NodeID :: node_id
  nt_TagID :: int
  nt_Source :: tag_source
  nt_RuleVersion :: int

record NodeTagFilter =
  tf_NodeIDs :: "int list"
  tf_TagIDs :: "int list"
  tf_Source :: "tag_source option"

record pool_filter =
  pf_ID :: int
  pf_Whitelist :: "int list"
  pf_Blacklist :: "int list"

record tag_db =
  tb_tags :: "tag_row list"
  tb_lastTag :: int
  tb_groups :: "TagMutexGroup list"
  tb_lastGroup :: int
  tb_rows :: "NodeTag list"
  tb_nodes :: "(node_id \<times> string list) list"
  tb_pools :: "pool_filter list"

definition tag_known :: "tag_db \<Rightarrow> int \<Rightarrow> bool" where "tag_known db i \<longleftrightarrow> i \<in> st_ID ` set (tb_tags db)"
definition group_known :: "tag_db \<Rightarrow> int \<Rightarrow> bool" where "group_known db i \<longleftrightarrow> i \<in> mg_ID ` set (tb_groups db)"
definition node_known :: "tag_db \<Rightarrow> node_id \<Rightarrow> bool" where "node_known db n \<longleftrightarrow> n \<in> fst ` set (tb_nodes db)"

section \<open>Reading assignments\<close>

definition sqliteMaxVariables :: nat where "sqliteMaxVariables = 900"

function chunkIDs :: "'a list \<Rightarrow> nat \<Rightarrow> 'a list list" where
  "chunkIDs ids chunk = (let n = (if chunk = 0 then sqliteMaxVariables else chunk)
     in if ids = [] then [] else take n ids # chunkIDs (drop n ids) chunk)"
  by pat_completeness auto
termination
  by (relation "measure (length \<circ> fst)") (auto simp: sqliteMaxVariables_def)

declare chunkIDs.simps [simp del]

lemma chunkIDs_unfold [simp]: "chunkIDs [] n = []" "0 < n \<Longrightarrow> ids \<noteq> [] \<Longrightarrow> chunkIDs ids n = take n ids # chunkIDs (drop n ids) n"
  by (simp_all add: chunkIDs.simps [of "[]"] chunkIDs.simps [of ids])

lemma chunkIDs_shorter:
  assumes "0 < n" and "c \<in> set (chunkIDs ids n)"
  shows "length c \<le> n"
  using assms
proof (induction ids n rule: chunkIDs.induct)
  case (1 ids n)
  then show ?case by (cases "ids = []") auto
qed

definition filter_matches :: "NodeTagFilter \<Rightarrow> NodeTag \<Rightarrow> bool" where
  "filter_matches f r \<longleftrightarrow> (tf_NodeIDs f = [] \<or> nt_NodeID r \<in> set (tf_NodeIDs f)) \<and> (tf_TagIDs f = [] \<or> nt_TagID r \<in> set (tf_TagIDs f)) \<and>
     (tf_Source f = None \<or> tf_Source f = Some (nt_Source r))"

definition tag_row_key :: "NodeTag \<Rightarrow> int \<times> int \<times> bool" where
  "tag_row_key r = (nt_NodeID r, nt_TagID r, nt_Source r = Manual_Source)"

definition query_node_tags :: "tag_db \<Rightarrow> NodeTagFilter \<Rightarrow> NodeTag list" where
  "query_node_tags db f = sort_key tag_row_key (filter (filter_matches f) (tb_rows db))"

text \<open>\<open>ListNodeTags\<close> and \<open>listNodeTagsChunked\<close>.\<close>

function ListNodeTags :: "tag_db \<Rightarrow> NodeTagFilter \<Rightarrow> NodeTag list" where
  "ListNodeTags db f =
     (if length (tf_NodeIDs f) > sqliteMaxVariables \<or> length (tf_TagIDs f) > sqliteMaxVariables
      then sort_key tag_row_key (if length (tf_TagIDs f) > length (tf_NodeIDs f)
             then concat (map (\<lambda>c. ListNodeTags db (f\<lparr>tf_TagIDs := c\<rparr>)) (chunkIDs (tf_TagIDs f) sqliteMaxVariables))
             else concat (map (\<lambda>c. ListNodeTags db (f\<lparr>tf_NodeIDs := c\<rparr>)) (chunkIDs (tf_NodeIDs f) sqliteMaxVariables)))
      else query_node_tags db f)"
  by pat_completeness auto
termination
  by (relation "measure (\<lambda>(db, f). length (tf_NodeIDs f) + length (tf_TagIDs f))")
    (auto dest!: chunkIDs_shorter [rotated] simp: sqliteMaxVariables_def)

declare ListNodeTags.simps [simp del]

definition CountNodesByTag :: "tag_db \<Rightarrow> int \<Rightarrow> nat" where
  "CountNodesByTag db i = length (remdups (map nt_NodeID (filter (\<lambda>r. nt_TagID r = i) (tb_rows db))))"

section \<open>The column of visible tags\<close>

fun normalize_ids :: "int set \<Rightarrow> int list \<Rightarrow> int list" where
  "normalize_ids seen [] = []"
| "normalize_ids seen (i # is) = (if i \<le> 0 \<or> i \<in> seen then normalize_ids seen is else i # normalize_ids (insert i seen) is)"

definition normalizeIDList :: "int list \<Rightarrow> int list" where "normalizeIDList = normalize_ids {}"

definition dedupeSorted :: "string list \<Rightarrow> string list" where "dedupeSorted values = sort (remdups values)"

definition tag_names :: "tag_row list \<Rightarrow> int \<Rightarrow> string list" where
  "tag_names tags i = map st_Name (filter (\<lambda>t. st_ID t = i) tags)"

definition node_names :: "tag_db \<Rightarrow> node_id \<Rightarrow> string list" where
  "node_names db n = concat (map (\<lambda>r. tag_names (tb_tags db) (nt_TagID r)) (filter (\<lambda>r. nt_NodeID r = n) (tb_rows db)))"

definition write_tags :: "tag_db \<Rightarrow> node_id \<Rightarrow> (node_id \<times> string list) list \<Rightarrow> (node_id \<times> string list) list" where
  "write_tags db n = amap_at n (\<lambda>_. dedupeSorted (node_names db n))"

definition refreshNodeTagProjection :: "node_id list \<Rightarrow> tag_db \<Rightarrow> tag_db" where
  "refreshNodeTagProjection ids db = db\<lparr>tb_nodes := fold (write_tags db) (normalizeIDList ids) (tb_nodes db)\<rparr>"

section \<open>Writing assignments\<close>

definition upsert_row :: "NodeTag \<Rightarrow> NodeTag list \<Rightarrow> NodeTag list" where
  "upsert_row r rows = (if tag_row_key r \<in> tag_row_key ` set rows then map (\<lambda>q. if tag_row_key q = tag_row_key r then q\<lparr>nt_RuleVersion := nt_RuleVersion r\<rparr> else q) rows
     else rows @ [r])"

fun insertNodeTags :: "node_id \<Rightarrow> tag_source \<Rightarrow> int list \<Rightarrow> int list \<Rightarrow> tag_db \<Rightarrow> tag_store_error + tag_db" where
  "insertNodeTags n source [] versions db = Inr db"
| "insertNodeTags n source (i # is) versions db =
     (if i \<le> 0 then insertNodeTags n source is (tl versions) db
      else if \<not> node_known db n \<or> \<not> tag_known db i then Inl ErrForeignKey
      else insertNodeTags n source is (tl versions)
        (db\<lparr>tb_rows := upsert_row \<lparr>nt_NodeID = n, nt_TagID = i, nt_Source = source, nt_RuleVersion = (case versions of [] \<Rightarrow> 0 | v # _ \<Rightarrow> v)\<rparr> (tb_rows db)\<rparr>))"

definition clear_source :: "node_id \<Rightarrow> tag_source \<Rightarrow> tag_db \<Rightarrow> tag_db" where
  "clear_source n source db = db\<lparr>tb_rows := filter (\<lambda>r. \<not> (nt_NodeID r = n \<and> nt_Source r = source)) (tb_rows db)\<rparr>"

definition SetManualNodeTags :: "bool \<Rightarrow> node_id \<Rightarrow> int list \<Rightarrow> tag_db \<Rightarrow> tag_store_error + tag_db" where
  "SetManualNodeTags fault n ids db = (if fault then Inl ErrTagStore
     else case insertNodeTags n Manual_Source (normalizeIDList ids) [] (clear_source n Manual_Source db) of
       Inl e \<Rightarrow> Inl e | Inr db1 \<Rightarrow> Inr (refreshNodeTagProjection [n] db1))"

fun insert_all :: "node_id list \<Rightarrow> int list \<Rightarrow> tag_db \<Rightarrow> tag_store_error + tag_db" where
  "insert_all [] adds db = Inr db"
| "insert_all (n # ns) adds db = (case insertNodeTags n Manual_Source adds [] db of Inl e \<Rightarrow> Inl e | Inr db1 \<Rightarrow> insert_all ns adds db1)"

definition remove_rows :: "int list \<Rightarrow> int list \<Rightarrow> tag_db \<Rightarrow> tag_db" where
  "remove_rows nodes tags db = db\<lparr>tb_rows := filter (\<lambda>r. \<not> (nt_NodeID r \<in> set nodes \<and> nt_TagID r \<in> set tags \<and> nt_Source r = Manual_Source)) (tb_rows db)\<rparr>"

definition BatchUpdateManualNodeTags :: "bool \<Rightarrow> int list \<Rightarrow> int list \<Rightarrow> int list \<Rightarrow> tag_db \<Rightarrow> tag_store_error + tag_db" where
  "BatchUpdateManualNodeTags fault nodeIDs addTagIDs removeTagIDs db =
     (let nodes = normalizeIDList nodeIDs; adds = normalizeIDList addTagIDs; removes = normalizeIDList removeTagIDs
      in if nodes = [] \<or> adds = [] \<and> removes = [] then Inr db
         else if fault then Inl ErrTagStore
         else case insert_all nodes adds db of Inl e \<Rightarrow> Inl e
              | Inr db1 \<Rightarrow> Inr (refreshNodeTagProjection nodes
                  (fold (\<lambda>c. fold (\<lambda>nc. remove_rows nc c) (chunkIDs nodes (sqliteMaxVariables div 2))) (chunkIDs removes (sqliteMaxVariables div 2)) db1)))"

fun replace_auto :: "NodeAutoTagAssignment list \<Rightarrow> tag_db \<Rightarrow> tag_store_error + tag_db" where
  "replace_auto [] db = Inr db"
| "replace_auto (a # as) db = (if aa_NodeID a \<le> 0 then replace_auto as db
     else case insertNodeTags (aa_NodeID a) Auto_Source (aa_TagIDs a) (aa_RuleVersions a) (clear_source (aa_NodeID a) Auto_Source db) of
            Inl e \<Rightarrow> Inl e | Inr db1 \<Rightarrow> replace_auto as db1)"

definition ReplaceAutoNodeTags :: "bool \<Rightarrow> NodeAutoTagAssignment list \<Rightarrow> tag_db \<Rightarrow> tag_store_error + tag_db" where
  "ReplaceAutoNodeTags fault assignments db = (if assignments = [] then Inr db
     else if fault then Inl ErrTagStore
     else case replace_auto assignments db of Inl e \<Rightarrow> Inl e
          | Inr db1 \<Rightarrow> Inr (refreshNodeTagProjection (filter (\<lambda>n. n > 0) (map aa_NodeID assignments)) db1))"

section \<open>Tags and mutex groups\<close>

definition ListTags :: "tag_db \<Rightarrow> tag_row list" where
  "ListTags db = sort_key (\<lambda>t. (- st_Priority t, st_ID t)) (tb_tags db)"

definition GetTag :: "int \<Rightarrow> tag_db \<Rightarrow> tag_row option" where "GetTag i db = find (\<lambda>t. st_ID t = i) (tb_tags db)"
definition GetTagByName :: "string \<Rightarrow> tag_db \<Rightarrow> tag_row option" where "GetTagByName name db = find (\<lambda>t. st_Name t = name) (tb_tags db)"

definition nullableID :: "int \<Rightarrow> int" where "nullableID i = (if i \<le> 0 then 0 else i)"

definition mutex_ok :: "tag_db \<Rightarrow> int \<Rightarrow> bool" where "mutex_ok db g \<longleftrightarrow> nullableID g = 0 \<or> group_known db g"

definition CreateTag :: "bool \<Rightarrow> tag_row \<Rightarrow> tag_db \<Rightarrow> tag_store_error + tag_row \<times> tag_db" where
  "CreateTag fault tag db =
     (let tag1 = tag\<lparr>st_RuleVersion := max 1 (st_RuleVersion tag)\<rparr>
      in if fault then Inl ErrTagStore
         else if st_Name tag \<in> st_Name ` set (tb_tags db) then Inl ErrNameTaken
         else if \<not> mutex_ok db (st_MutexGroupID tag) then Inl ErrForeignKey
         else let i = tb_lastTag db + 1; row = tag1\<lparr>st_ID := i, st_MutexGroupID := nullableID (st_MutexGroupID tag)\<rparr>
              in Inr (tag1\<lparr>st_ID := i\<rparr>, db\<lparr>tb_tags := tb_tags db @ [row], tb_lastTag := i\<rparr>))"

definition UpdateTag :: "bool \<Rightarrow> tag_row \<Rightarrow> tag_db \<Rightarrow> tag_store_error + tag_db" where
  "UpdateTag fault tag db =
     (if fault then Inl ErrTagStore
      else if \<not> tag_known db (st_ID tag) then Inl ErrTagNotFound
      else if \<exists>t \<in> set (tb_tags db). st_ID t \<noteq> st_ID tag \<and> st_Name t = st_Name tag then Inl ErrNameTaken
      else if \<not> mutex_ok db (st_MutexGroupID tag) then Inl ErrForeignKey
      else Inr (db\<lparr>tb_tags := map (\<lambda>t. if st_ID t = st_ID tag then tag\<lparr>st_MutexGroupID := nullableID (st_MutexGroupID tag)\<rparr> else t) (tb_tags db)\<rparr>))"

definition removeID :: "int list \<Rightarrow> int \<Rightarrow> int list \<times> bool" where
  "removeID ids target = (filter (\<lambda>i. i \<noteq> target) ids, target \<in> set ids)"

definition removeTagFromGroupFilters :: "int \<Rightarrow> tag_db \<Rightarrow> tag_db" where
  "removeTagFromGroupFilters i db = db\<lparr>tb_pools := map (\<lambda>p.
     let (white, w) = removeID (pf_Whitelist p) i; (black, b) = removeID (pf_Blacklist p) i
     in if \<not> w \<and> \<not> b then p else p\<lparr>pf_Whitelist := white, pf_Blacklist := black\<rparr>) (tb_pools db)\<rparr>"

definition nodeIDsForTag :: "tag_db \<Rightarrow> int \<Rightarrow> node_id list" where
  "nodeIDsForTag db i = remdups (map nt_NodeID (filter (\<lambda>r. nt_TagID r = i) (tb_rows db)))"

definition DeleteTag :: "bool \<Rightarrow> int \<Rightarrow> tag_db \<Rightarrow> tag_store_error + tag_db" where
  "DeleteTag fault i db =
     (if fault then Inl ErrTagStore
      else if \<not> tag_known db i then Inl ErrTagNotFound
      else let nodes = nodeIDsForTag db i;
               db1 = db\<lparr>tb_tags := filter (\<lambda>t. st_ID t \<noteq> i) (tb_tags db), tb_rows := filter (\<lambda>r. nt_TagID r \<noteq> i) (tb_rows db)\<rparr>
           in Inr (refreshNodeTagProjection nodes (removeTagFromGroupFilters i db1)))"

definition ListTagMutexGroups :: "tag_db \<Rightarrow> TagMutexGroup list" where "ListTagMutexGroups db = sort_key mg_ID (tb_groups db)"

definition CreateTagMutexGroup :: "bool \<Rightarrow> TagMutexGroup \<Rightarrow> tag_db \<Rightarrow> tag_store_error + TagMutexGroup \<times> tag_db" where
  "CreateTagMutexGroup fault g db =
     (if fault then Inl ErrTagStore
      else if mg_Name g \<in> mg_Name ` set (tb_groups db) then Inl ErrNameTaken
      else let i = tb_lastGroup db + 1; g1 = g\<lparr>mg_ID := i\<rparr>
           in Inr (g1, db\<lparr>tb_groups := tb_groups db @ [g1], tb_lastGroup := i\<rparr>))"

definition UpdateTagMutexGroup :: "bool \<Rightarrow> TagMutexGroup \<Rightarrow> tag_db \<Rightarrow> tag_store_error + tag_db" where
  "UpdateTagMutexGroup fault g db =
     (if fault then Inl ErrTagStore
      else if \<not> group_known db (mg_ID g) then Inl ErrGroupNotFound
      else if \<exists>h \<in> set (tb_groups db). mg_ID h \<noteq> mg_ID g \<and> mg_Name h = mg_Name g then Inl ErrNameTaken
      else Inr (db\<lparr>tb_groups := map (\<lambda>h. if mg_ID h = mg_ID g then g else h) (tb_groups db)\<rparr>))"

definition DeleteTagMutexGroup :: "bool \<Rightarrow> int \<Rightarrow> tag_db \<Rightarrow> tag_store_error + tag_db" where
  "DeleteTagMutexGroup fault i db =
     (if fault then Inl ErrTagStore
      else if \<not> group_known db i then Inl ErrGroupNotFound
      else Inr (db\<lparr>tb_groups := filter (\<lambda>g. mg_ID g \<noteq> i) (tb_groups db),
                   tb_tags := map (\<lambda>t. if st_MutexGroupID t = i then t\<lparr>st_MutexGroupID := 0\<rparr> else t) (tb_tags db)\<rparr>))"

end
