(* ===== verification/Tag_Service.thy ===== *)
theory Tag_Service
  imports Tag_Store
begin

text \<open>
  The tag service, \<open>src/internal/nodetag/service.go\<close> with the templates of \<open>templates.go\<close>: recomputation of automatic tags, the
  preview of an unsaved rule and the seeding of the builtin tags. The fact loader (\<open>nodefacts/loader.go\<close>), which reads tables outside the
  tagging system, is a function of the environment, as are the codec of rules, the clock and the faults of the database; no other write
  comes between the reads of a recomputation and its write.
\<close>

record tag_env =
  te_tables :: region_tables
  te_lib :: "Condition rule_lib"
  te_marshal :: "Condition \<Rightarrow> tag_store_error + string"
  te_load :: "tag_db \<Rightarrow> int list option \<Rightarrow> tag_store_error + NodeFacts list"
  te_now :: gtime
  te_tagsFault :: bool
  te_groupsFault :: bool
  te_manualFault :: bool
  te_autoFault :: bool
  te_writeFault :: bool

section \<open>Recomputation\<close>

definition match_rules :: "tag_env \<Rightarrow> NodeFacts \<Rightarrow> Rule list \<Rightarrow> Rule list" where
  "match_rules env facts rules = filter (\<lambda>r. case Evaluate (te_tables env) (te_lib env) (ru_Condition r) facts (te_now env) of
     Inl e \<Rightarrow> False | Inr hit \<Rightarrow> hit) rules"

definition node_rows :: "tag_db \<Rightarrow> int list option \<Rightarrow> tag_source \<Rightarrow> node_id \<Rightarrow> NodeTag list" where
  "node_rows db nodeIDs source n = filter (\<lambda>r. nt_NodeID r = n)
     (ListNodeTags db \<lparr>tf_NodeIDs = (case nodeIDs of None \<Rightarrow> [] | Some ids \<Rightarrow> ids), tf_TagIDs = [], tf_Source = Some source\<rparr>)"

definition assignments :: "tag_db \<Rightarrow> int list option \<Rightarrow> tag_source \<Rightarrow> node_id \<Rightarrow> int list" where
  "assignments db nodeIDs source n = sort (map nt_TagID (node_rows db nodeIDs source n))"

definition autoAssignments :: "tag_db \<Rightarrow> int list option \<Rightarrow> node_id \<Rightarrow> NodeTag list" where
  "autoAssignments db nodeIDs n = sort_key nt_TagID (node_rows db nodeIDs Auto_Source n)"

definition ruleVersionsChanged :: "NodeTag list \<Rightarrow> int list \<Rightarrow> bool" where
  "ruleVersionsChanged previous versions \<longleftrightarrow> length previous \<noteq> length versions \<or> \<not> list_all2 (\<lambda>r v. nt_RuleVersion r = v) previous versions"

definition visible_name :: "(int \<times> TagMeta) list \<Rightarrow> int \<Rightarrow> string list" where
  "visible_name meta i = (case map_of meta i of None \<Rightarrow> [] | Some m \<Rightarrow> if tm_Name m = [] then [] else [tm_Name m])"

definition projection :: "int list \<Rightarrow> int list \<Rightarrow> (int \<times> TagMeta) list \<Rightarrow> string list" where
  "projection auto_ids manual meta = sort (remdups (concat (map (visible_name meta) (manual @ auto_ids))))"

definition projectionChanged :: "int list \<Rightarrow> int list \<Rightarrow> int list \<Rightarrow> (int \<times> TagMeta) list \<Rightarrow> bool" where
  "projectionChanged previousAuto nextAuto manual meta \<longleftrightarrow> projection previousAuto manual meta \<noteq> projection nextAuto manual meta"

text \<open>What the loop of \<open>Recompute\<close> finds for one node: its decision, whether its visible tags change and whether it is rewritten.\<close>

definition decide_node :: "tag_env \<Rightarrow> tag_db \<Rightarrow> int list option \<Rightarrow> Rule list \<Rightarrow> (int \<times> TagMeta) list \<Rightarrow> NodeFacts \<Rightarrow> TagDecision" where
  "decide_node env db nodeIDs rules meta facts =
     Resolve (nf_NodeID facts) (match_rules env facts rules) (assignments db nodeIDs Manual_Source (nf_NodeID facts)) meta"

definition node_changes :: "tag_env \<Rightarrow> tag_db \<Rightarrow> int list option \<Rightarrow> Rule list \<Rightarrow> (int \<times> TagMeta) list \<Rightarrow> NodeFacts \<Rightarrow> bool" where
  "node_changes env db nodeIDs rules meta facts =
     projectionChanged (map nt_TagID (autoAssignments db nodeIDs (nf_NodeID facts))) (td_TagIDs (decide_node env db nodeIDs rules meta facts))
       (assignments db nodeIDs Manual_Source (nf_NodeID facts)) meta"

definition node_rewritten :: "tag_env \<Rightarrow> tag_db \<Rightarrow> int list option \<Rightarrow> Rule list \<Rightarrow> (int \<times> TagMeta) list \<Rightarrow> NodeFacts \<Rightarrow> bool" where
  "node_rewritten env db nodeIDs rules meta facts \<longleftrightarrow> nodeIDs \<noteq> None \<or> node_changes env db nodeIDs rules meta facts \<or>
     ruleVersionsChanged (autoAssignments db nodeIDs (nf_NodeID facts)) (td_RuleVersions (decide_node env db nodeIDs rules meta facts))"

definition compiled :: "tag_env \<Rightarrow> tag_db \<Rightarrow> Rule list \<times> (int \<times> TagMeta) list" where
  "compiled env db = (let (rules, meta, skipped) = CompileRules (te_lib env) (map store_tag.truncate (ListTags db)) ([], [], []) in (rules, meta))"

text \<open>\<open>Recompute\<close> with its answer, the nodes whose visible tags changed (which are also those the membership queue is told of).\<close>

definition Recompute :: "tag_env \<Rightarrow> int list option \<Rightarrow> tag_db \<Rightarrow> (tag_store_error + node_id list) \<times> tag_db" where
  "Recompute env nodeIDs db =
     (if nodeIDs = Some [] then (Inr [], db)
      else if te_tagsFault env then (Inl ErrTagStore, db)
      else let (rules, meta) = compiled env db
           in case te_load env db nodeIDs of
                Inl e \<Rightarrow> (Inl e, db)
              | Inr factSets \<Rightarrow>
                  if factSets = [] then (Inr [], db)
                  else if te_manualFault env \<or> te_autoFault env then (Inl ErrTagStore, db)
                  else let changed = map nf_NodeID (filter (node_changes env db nodeIDs rules meta) factSets);
                           as = map (\<lambda>f. Assignment (decide_node env db nodeIDs rules meta f)) (filter (node_rewritten env db nodeIDs rules meta) factSets)
                       in if as = [] then (Inr changed, db)
                          else case ReplaceAutoNodeTags (te_writeFault env) as db of Inl e \<Rightarrow> (Inl e, db) | Inr db' \<Rightarrow> (Inr changed, db'))"

definition RecomputeAll :: "tag_env \<Rightarrow> tag_db \<Rightarrow> (tag_store_error + node_id list) \<times> tag_db" where
  "RecomputeAll env = Recompute env None"

end
