(* ===== verification/Tag_Projection.thy ===== *)
theory Tag_Projection
  imports Tag_Store
begin

text \<open>
  Properties of the tag tables: splitting a long list of identifiers over several statements reads the same rows, and the column of
  visible tags of a node is at all times the sorted set of the names of its assignments.
\<close>

section \<open>Chunked reads\<close>

lemma mset_filter_disjoint:
  "(\<And>x. \<not> (P x \<and> Q x)) \<Longrightarrow> mset (filter P xs) + mset (filter Q xs) = mset (filter (\<lambda>x. P x \<or> Q x) xs)"
  by (induction xs) auto

lemma chunk_partition:
  assumes "0 < n" and "distinct ids"
  shows "mset (concat (map (\<lambda>c. filter (\<lambda>r. P r \<and> g r \<in> set c) rows) (chunkIDs ids n))) = mset (filter (\<lambda>r. P r \<and> g r \<in> set ids) rows)"
  using assms
proof (induction ids n rule: chunkIDs.induct)
  case (1 ids n)
  show ?case
  proof (cases "ids = []")
    case False
    have u: "set ids = set (take n ids) \<union> set (drop n ids)" by (metis append_take_drop_id set_append)
    have d: "set (take n ids) \<inter> set (drop n ids) = {}" using 1(3) by (simp add: set_take_disj_set_drop_if_distinct)
    have "mset (filter (\<lambda>r. P r \<and> g r \<in> set (take n ids)) rows) + mset (filter (\<lambda>r. P r \<and> g r \<in> set (drop n ids)) rows)
        = mset (filter (\<lambda>r. P r \<and> g r \<in> set (take n ids) \<or> P r \<and> g r \<in> set (drop n ids)) rows)"
      by (rule mset_filter_disjoint) (use d in auto)
    also have "(\<lambda>r. P r \<and> g r \<in> set (take n ids) \<or> P r \<and> g r \<in> set (drop n ids)) = (\<lambda>r. P r \<and> g r \<in> set ids)"
      unfolding u by auto
    finally have "mset (filter (\<lambda>r. P r \<and> g r \<in> set (take n ids)) rows) + mset (filter (\<lambda>r. P r \<and> g r \<in> set (drop n ids)) rows)
        = mset (filter (\<lambda>r. P r \<and> g r \<in> set ids) rows)" .
    then show ?thesis using 1 False by simp
  qed simp
qed

lemma chunk_distinct: "0 < n \<Longrightarrow> distinct ids \<Longrightarrow> c \<in> set (chunkIDs ids n) \<Longrightarrow> distinct c \<and> c \<noteq> []"
proof (induction ids n rule: chunkIDs.induct)
  case (1 ids n)
  then show ?case by (cases "ids = []") auto
qed

lemma max_variables_pos [simp]: "0 < sqliteMaxVariables"
  by (simp add: sqliteMaxVariables_def)

lemma chunked_dimension:
  assumes "distinct ids" and q: "\<And>c. c \<in> set (chunkIDs ids sqliteMaxVariables) \<Longrightarrow> mset (q c) = mset (filter (\<lambda>r. P r \<and> g r \<in> set c) rows)"
    and m: "\<And>r. M r \<longleftrightarrow> P r \<and> g r \<in> set ids"
  shows "mset (concat (map q (chunkIDs ids sqliteMaxVariables))) = mset (filter M rows)"
proof -
  have "mset (concat (map q (chunkIDs ids sqliteMaxVariables)))
      = mset (concat (map (\<lambda>c. filter (\<lambda>r. P r \<and> g r \<in> set c) rows) (chunkIDs ids sqliteMaxVariables)))"
    using q by (simp add: mset_concat comp_def cong: map_cong)
  then show ?thesis using chunk_partition [OF max_variables_pos assms(1), of P g rows] by (simp add: m cong: filter_cong)
qed

lemma query_chunk:
  "c \<noteq> [] \<Longrightarrow> mset (query_node_tags db (f\<lparr>tf_TagIDs := c\<rparr>)) = mset (filter (\<lambda>r. filter_matches (f\<lparr>tf_TagIDs := []\<rparr>) r \<and> nt_TagID r \<in> set c) (tb_rows db))"
  "c \<noteq> [] \<Longrightarrow> mset (query_node_tags db (f\<lparr>tf_NodeIDs := c\<rparr>)) = mset (filter (\<lambda>r. filter_matches (f\<lparr>tf_NodeIDs := []\<rparr>) r \<and> nt_NodeID r \<in> set c) (tb_rows db))"
  by (simp_all add: query_node_tags_def filter_matches_def conj_ac)

lemma ListNodeTags_direct:
  assumes "distinct (map tag_row_key (tb_rows db))" and "distinct (tf_NodeIDs f)" and "distinct (tf_TagIDs f)"
  shows "ListNodeTags db f = query_node_tags db f"
  using assms
proof (induction db f rule: ListNodeTags.induct)
  case (1 db f)
  let ?big = "length (tf_NodeIDs f) > sqliteMaxVariables \<or> length (tf_TagIDs f) > sqliteMaxVariables"
    and ?tags = "length (tf_TagIDs f) > length (tf_NodeIDs f)"
  have sorts: "sort_key tag_row_key xs = query_node_tags db f" if "mset xs = mset (filter (filter_matches f) (tb_rows db))" for xs
    unfolding query_node_tags_def
  proof (rule sort_key_inj_key_eq)
    show "mset xs = mset (sort_key tag_row_key (filter (filter_matches f) (tb_rows db)))" using that by simp
    show "inj_on tag_row_key (set xs)" using 1(3) mset_eq_setD [OF that] by (auto simp: distinct_map inj_on_def)
  qed simp
  consider "\<not> ?big" | "?big" "?tags" | "?big" "\<not> ?tags" by blast
  then show ?case
  proof cases
    case 1
    then show ?thesis by (subst ListNodeTags.simps) simp
  next
    case 2
    have "mset (ListNodeTags db (f\<lparr>tf_TagIDs := c\<rparr>)) = mset (filter (\<lambda>r. filter_matches (f\<lparr>tf_TagIDs := []\<rparr>) r \<and> nt_TagID r \<in> set c) (tb_rows db))"
      if "c \<in> set (chunkIDs (tf_TagIDs f) sqliteMaxVariables)" for c
      using "1.IH"(1) [OF 2 that] "1.prems" chunk_distinct [OF _ _ that] by (simp add: query_chunk)
    then have "mset (concat (map (\<lambda>c. ListNodeTags db (f\<lparr>tf_TagIDs := c\<rparr>)) (chunkIDs (tf_TagIDs f) sqliteMaxVariables))) = mset (filter (filter_matches f) (tb_rows db))"
      by (rule chunked_dimension [OF "1.prems"(3)]) (use 2 in \<open>auto simp: filter_matches_def\<close>)
    then show ?thesis using 2 sorts by (subst ListNodeTags.simps) simp
  next
    case 3
    have "mset (ListNodeTags db (f\<lparr>tf_NodeIDs := c\<rparr>)) = mset (filter (\<lambda>r. filter_matches (f\<lparr>tf_NodeIDs := []\<rparr>) r \<and> nt_NodeID r \<in> set c) (tb_rows db))"
      if "c \<in> set (chunkIDs (tf_NodeIDs f) sqliteMaxVariables)" for c
      using "1.IH"(2) [OF 3 that] "1.prems" chunk_distinct [OF _ _ that] by (simp add: query_chunk)
    then have "mset (concat (map (\<lambda>c. ListNodeTags db (f\<lparr>tf_NodeIDs := c\<rparr>)) (chunkIDs (tf_NodeIDs f) sqliteMaxVariables))) = mset (filter (filter_matches f) (tb_rows db))"
      by (rule chunked_dimension [OF "1.prems"(2)]) (use 3 in \<open>auto simp: filter_matches_def\<close>)
    then show ?thesis using 3 sorts by (subst ListNodeTags.simps) simp
  qed
qed

text \<open>Reading assignments in pieces is transparent. For identifiers without duplicates, however many, \<open>ListNodeTags\<close>, which splits
  long lists of nodes and of tags over several statements and merges the pieces, returns every row that matches the filter once and no
  other, in the order of node, tag and source.\<close>

theorem chunked_read_is_exact:
  assumes "distinct (map tag_row_key (tb_rows db))" and "distinct (tf_NodeIDs f)" and "distinct (tf_TagIDs f)"
  shows "set (ListNodeTags db f) = {r \<in> set (tb_rows db). filter_matches f r} \<and> distinct (ListNodeTags db f) \<and>
    sorted (map tag_row_key (ListNodeTags db f))"
proof -
  have "distinct (tb_rows db)" using assms(1) by (simp add: distinct_map)
  then show ?thesis unfolding ListNodeTags_direct [OF assms] by (auto simp: query_node_tags_def)
qed

section \<open>The tables are consistent\<close>

definition row_keys :: "tag_db \<Rightarrow> (int \<times> int \<times> bool) set" where "row_keys db = tag_row_key ` set (tb_rows db)"

definition tag_db_ok :: "tag_db \<Rightarrow> bool" where
  "tag_db_ok db \<longleftrightarrow> distinct (map st_ID (tb_tags db)) \<and> (\<forall>t \<in> set (tb_tags db). 0 < st_ID t \<and> st_ID t \<le> tb_lastTag db) \<and> 0 \<le> tb_lastTag db \<and>
     distinct (map tag_row_key (tb_rows db)) \<and> (\<forall>n i m. (n, i, m) \<in> row_keys db \<longrightarrow> tag_known db i \<and> node_known db n) \<and>
     distinct (map fst (tb_nodes db)) \<and> (\<forall>n. node_known db n \<longrightarrow> 0 < n)"

definition columns_ok :: "tag_db \<Rightarrow> bool" where
  "columns_ok db \<longleftrightarrow> (\<forall>n names. map_of (tb_nodes db) n = Some names \<longrightarrow> names = dedupeSorted (node_names db n))"

lemma dedupeSorted_set: "set xs = set ys \<Longrightarrow> dedupeSorted xs = dedupeSorted ys"
  unfolding dedupeSorted_def by (metis distinct_remdups distinct_sort set_remdups set_sort sorted_distinct_set_unique sorted_sort)

lemma row_keys_iff: "(n, i, m) \<in> row_keys db \<longleftrightarrow> (\<exists>r \<in> set (tb_rows db). nt_NodeID r = n \<and> nt_TagID r = i \<and> (nt_Source r = Manual_Source) = m)"
  by (auto simp: row_keys_def tag_row_key_def)

lemma some_key: "(\<exists>m. (n, i, m) \<in> row_keys db) \<longleftrightarrow> (\<exists>r \<in> set (tb_rows db). nt_NodeID r = n \<and> nt_TagID r = i)"
  unfolding row_keys_iff by blast

lemma set_node_names: "set (node_names db n) = {st_Name t | t. t \<in> set (tb_tags db) \<and> (\<exists>m. (n, st_ID t, m) \<in> row_keys db)}"
proof -
  have "set (node_names db n) = (\<Union>r \<in> {r \<in> set (tb_rows db). nt_NodeID r = n}. st_Name ` {t \<in> set (tb_tags db). st_ID t = nt_TagID r})"
    by (simp add: node_names_def tag_names_def)
  also have "\<dots> = {st_Name t | t. t \<in> set (tb_tags db) \<and> (\<exists>m. (n, st_ID t, m) \<in> row_keys db)}"
    unfolding some_key
  proof (intro equalityI subsetI)
    fix x assume "x \<in> (\<Union>r \<in> {r \<in> set (tb_rows db). nt_NodeID r = n}. st_Name ` {t \<in> set (tb_tags db). st_ID t = nt_TagID r})"
    then show "x \<in> {st_Name t | t. t \<in> set (tb_tags db) \<and> (\<exists>r \<in> set (tb_rows db). nt_NodeID r = n \<and> nt_TagID r = st_ID t)}" by force
  qed auto
  finally show ?thesis .
qed

lemma in_normalize: "x \<in> set (normalize_ids seen ids) \<longleftrightarrow> x \<in> set ids \<and> 0 < x \<and> x \<notin> seen"
proof (induction ids arbitrary: seen)
  case (Cons i ids)
  show ?case unfolding normalize_ids.simps if_split [where P = "\<lambda>l. x \<in> set l \<longleftrightarrow> _"] list.set insert_iff Cons.IH
    by (metis not_less)
qed simp

lemma set_normalizeIDList [simp]: "set (normalizeIDList ids) = {i \<in> set ids. 0 < i}"
  by (auto simp: normalizeIDList_def in_normalize)

lemma distinct_normalizeIDList [simp]: "distinct (normalizeIDList ids)"
proof -
  have "distinct (normalize_ids seen ids)" for seen
    by (induction seen ids rule: normalize_ids.induct) (auto simp: in_normalize)
  then show ?thesis by (simp add: normalizeIDList_def)
qed

lemma map_of_write_tags: "map_of (fold (write_tags db) ids xs) n = (if n \<in> set ids then map_option (\<lambda>_. dedupeSorted (node_names db n)) (map_of xs n) else map_of xs n)"
  by (induction ids arbitrary: xs) (auto simp: write_tags_def map_option.compositionality comp_def)

lemma fst_write_tags: "map fst (fold (write_tags db) ids xs) = map fst xs"
  by (induction ids arbitrary: xs) (auto simp: write_tags_def)

lemma projection_frame [simp]:
  "row_keys (refreshNodeTagProjection ids db) = row_keys db" "tb_tags (refreshNodeTagProjection ids db) = tb_tags db" "tb_rows (refreshNodeTagProjection ids db) = tb_rows db"
  "tb_lastTag (refreshNodeTagProjection ids db) = tb_lastTag db" "tb_groups (refreshNodeTagProjection ids db) = tb_groups db"
  "node_names (refreshNodeTagProjection ids db) n = node_names db n"
  "map fst (tb_nodes (refreshNodeTagProjection ids db)) = map fst (tb_nodes db)"
  by (simp_all add: refreshNodeTagProjection_def node_names_def row_keys_def fst_write_tags)

lemma node_known_fst: "node_known db n \<longleftrightarrow> n \<in> set (map fst (tb_nodes db))"
  by (simp add: node_known_def)

lemma refresh_ok [simp]: "tag_db_ok (refreshNodeTagProjection ids db) = tag_db_ok db"
  unfolding tag_db_ok_def node_known_fst tag_known_def projection_frame ..

lemma map_of_refresh: "map_of (tb_nodes (refreshNodeTagProjection ids db)) n =
    (if n \<in> set ids \<and> 0 < n then map_option (\<lambda>_. dedupeSorted (node_names db n)) (map_of (tb_nodes db) n) else map_of (tb_nodes db) n)"
  by (simp add: refreshNodeTagProjection_def map_of_write_tags)

text \<open>A write that refreshes every node whose names it may change keeps the columns right.\<close>

lemma columns_refresh:
  assumes "columns_ok db" and "tag_db_ok db1" and "tb_nodes db1 = tb_nodes db"
    and "\<And>m. m \<notin> set ids \<Longrightarrow> set (node_names db1 m) = set (node_names db m)"
  shows "columns_ok (refreshNodeTagProjection ids db1)"
  unfolding columns_ok_def
proof (intro allI impI)
  fix n names
  assume a: "map_of (tb_nodes (refreshNodeTagProjection ids db1)) n = Some names"
  have "0 < n" if "map_of (tb_nodes db1) n \<noteq> None"
    using that assms(2) by (auto simp: tag_db_ok_def node_known_def map_of_eq_None_iff)
  then show "names = dedupeSorted (node_names (refreshNodeTagProjection ids db1) n)"
    using a assms(1,3) dedupeSorted_set [OF assms(4), of n] by (auto simp: map_of_refresh columns_ok_def split: if_splits)
qed

section \<open>Writing assignments\<close>

lemma row_key_version [simp]: "tag_row_key (r\<lparr>nt_RuleVersion := v\<rparr>) = tag_row_key r"
  by (simp add: tag_row_key_def)

lemma keys_upsert: "map tag_row_key (upsert_row r rows) = (if tag_row_key r \<in> set (map tag_row_key rows) then map tag_row_key rows else map tag_row_key rows @ [tag_row_key r])"
  by (auto simp: upsert_row_def)

lemma row_keys_upsert: "row_keys (db\<lparr>tb_rows := upsert_row r (tb_rows db)\<rparr>) = insert (tag_row_key r) (row_keys db)"
proof -
  have "set (map tag_row_key (upsert_row r (tb_rows db))) = insert (tag_row_key r) (set (map tag_row_key (tb_rows db)))" unfolding keys_upsert by auto
  then show ?thesis by (simp add: row_keys_def)
qed

lemma ok_rows:
  assumes "tag_db_ok db" and "tb_tags db' = tb_tags db" and "map fst (tb_nodes db') = map fst (tb_nodes db)" and "tb_lastTag db' = tb_lastTag db"
    and "distinct (map tag_row_key (tb_rows db'))" and "\<And>n i m. (n, i, m) \<in> row_keys db' \<Longrightarrow> (n, i, m) \<in> row_keys db \<or> tag_known db i \<and> node_known db n"
  shows "tag_db_ok db'"
  using assms(1,5,6) unfolding tag_db_ok_def node_known_fst tag_known_def assms(2,3,4) by blast

text \<open>What an insertion leaves alone, and the keys it adds.\<close>

lemma insert_effect:
  assumes "insertNodeTags n source ids versions db = Inr db'"
  shows "tb_tags db' = tb_tags db \<and> tb_nodes db' = tb_nodes db \<and> tb_lastTag db' = tb_lastTag db \<and> tb_groups db' = tb_groups db \<and>
    row_keys db' = row_keys db \<union> {(n, i, source = Manual_Source) | i. i \<in> set ids \<and> 0 < i} \<and> (tag_db_ok db \<longrightarrow> tag_db_ok db')"
  using assms
proof (induction n source ids versions db rule: insertNodeTags.induct)
  case (2 n source i js versions db)
  show ?case
  proof (cases "i \<le> 0")
    case True
    then show ?thesis using 2(1) 2(3) by auto
  next
    case False
    define r where "r = \<lparr>nt_NodeID = n, nt_TagID = i, nt_Source = source, nt_RuleVersion = (case versions of [] \<Rightarrow> 0 | v # _ \<Rightarrow> v)\<rparr>"
    define db1 where "db1 = db\<lparr>tb_rows := upsert_row r (tb_rows db)\<rparr>"
    have known: "node_known db n" "tag_known db i" using 2(3) False by (auto split: if_splits)
    have keys: "row_keys db1 = insert (n, i, source = Manual_Source) (row_keys db)" unfolding db1_def row_keys_upsert by (simp add: r_def tag_row_key_def)
    have "tag_db_ok db \<longrightarrow> tag_db_ok db1"
    proof
      assume ok: "tag_db_ok db"
      then have "distinct (map tag_row_key (tb_rows db))" by (simp add: tag_db_ok_def)
      then have "distinct (map tag_row_key (upsert_row r (tb_rows db)))" unfolding keys_upsert by simp
      then show "tag_db_ok db1" by (intro ok_rows [OF ok]) (use keys known in \<open>auto simp: db1_def\<close>)
    qed
    moreover have "insertNodeTags n source js (tl versions) db1 = Inr db'" using 2(3) False known by (simp add: db1_def r_def)
    then have "tb_tags db' = tb_tags db1 \<and> tb_nodes db' = tb_nodes db1 \<and> tb_lastTag db' = tb_lastTag db1 \<and> tb_groups db' = tb_groups db1 \<and>
      row_keys db' = row_keys db1 \<union> {(n, i, source = Manual_Source) | i. i \<in> set js \<and> 0 < i} \<and> (tag_db_ok db1 \<longrightarrow> tag_db_ok db')"
      using 2(2) False known unfolding db1_def r_def by simp
    ultimately show ?thesis using keys False by (auto simp: db1_def)
  qed
qed auto

lemma clear_effect:
  "tb_tags (clear_source n source db) = tb_tags db" "tb_nodes (clear_source n source db) = tb_nodes db" "tb_lastTag (clear_source n source db) = tb_lastTag db"
  "row_keys (clear_source n source db) = {k \<in> row_keys db. \<not> (fst k = n \<and> snd (snd k) = (source = Manual_Source))}"
  "tag_db_ok db \<Longrightarrow> tag_db_ok (clear_source n source db)"
proof -
  have key: "(nt_NodeID r = n \<and> nt_Source r = source) \<longleftrightarrow> fst (tag_row_key r) = n \<and> snd (snd (tag_row_key r)) = (source = Manual_Source)" for r
    by (cases "nt_Source r"; cases source) (auto simp: tag_row_key_def)
  show k: "row_keys (clear_source n source db) = {k \<in> row_keys db. \<not> (fst k = n \<and> snd (snd k) = (source = Manual_Source))}"
    unfolding row_keys_def clear_source_def key by auto
  show f: "tb_tags (clear_source n source db) = tb_tags db" "tb_nodes (clear_source n source db) = tb_nodes db" "tb_lastTag (clear_source n source db) = tb_lastTag db"
    by (simp_all add: clear_source_def)
  assume ok: "tag_db_ok db"
  then have "distinct (map tag_row_key (tb_rows (clear_source n source db)))" by (simp add: tag_db_ok_def clear_source_def distinct_map_filter)
  then show "tag_db_ok (clear_source n source db)" by (intro ok_rows [OF ok]) (simp_all add: f k)
qed

text \<open>A write that touches only rows of some nodes. Such writes compose, and refreshing those nodes makes the columns right.\<close>

definition touches :: "node_id set \<Rightarrow> tag_db \<Rightarrow> tag_db \<Rightarrow> bool" where
  "touches S db db' \<longleftrightarrow> tb_tags db' = tb_tags db \<and> tb_nodes db' = tb_nodes db \<and> (\<forall>n i m. n \<notin> S \<longrightarrow> ((n, i, m) \<in> row_keys db' \<longleftrightarrow> (n, i, m) \<in> row_keys db)) \<and>
     (tag_db_ok db \<longrightarrow> tag_db_ok db')"

lemma touches_refl: "touches S db db"
  by (simp add: touches_def)

lemma touches_trans: "touches S db db1 \<Longrightarrow> touches T db1 db2 \<Longrightarrow> touches (S \<union> T) db db2"
  by (simp add: touches_def)

lemma touches_mono: "touches S db db' \<Longrightarrow> S \<subseteq> T \<Longrightarrow> touches T db db'"
  unfolding touches_def by blast

lemma touches_refresh:
  assumes "touches (set ids) db db'" and "tag_db_ok db" and "columns_ok db"
  shows "tag_db_ok (refreshNodeTagProjection ids db') \<and> columns_ok (refreshNodeTagProjection ids db')"
proof -
  have "set (node_names db' m) = set (node_names db m)" if "m \<notin> set ids" for m
    using assms(1) that unfolding set_node_names touches_def by simp
  moreover have "tag_db_ok db'" "tb_nodes db' = tb_nodes db" using assms(1,2) by (auto simp: touches_def)
  ultimately show ?thesis using columns_refresh [OF assms(3)] by simp
qed

lemma touches_insert: "insertNodeTags n source ids versions db = Inr db' \<Longrightarrow> touches {n} db db'"
  by (drule insert_effect) (auto simp: touches_def)

lemma touches_clear: "touches {n} db (clear_source n source db)"
  by (auto simp: touches_def clear_effect)

lemma touches_clear_insert:
  assumes "insertNodeTags n source ids versions (clear_source n source db) = Inr db'"
  shows "touches {n} db db'"
  using touches_trans [OF touches_clear touches_insert [OF assms]] by simp

lemma touches_insert_all: "insert_all nodes adds db = Inr db' \<Longrightarrow> touches (set nodes) db db'"
proof (induction nodes adds db rule: insert_all.induct)
  case (2 n ns adds db)
  then obtain db1 where "insertNodeTags n Manual_Source adds [] db = Inr db1" "insert_all ns adds db1 = Inr db'" by (auto split: sum.splits)
  then show ?case using 2(1) touches_trans [OF touches_insert] by fastforce
qed (simp add: touches_refl)

lemma touches_remove: "touches (set nodes) db (remove_rows nodes tags db)"
proof -
  have key: "(nt_NodeID r \<in> set nodes \<and> nt_TagID r \<in> set tags \<and> nt_Source r = Manual_Source) \<longleftrightarrow>
      fst (tag_row_key r) \<in> set nodes \<and> fst (snd (tag_row_key r)) \<in> set tags \<and> snd (snd (tag_row_key r))" for r
    by (simp add: tag_row_key_def)
  have k: "row_keys (remove_rows nodes tags db) = {k \<in> row_keys db. \<not> (fst k \<in> set nodes \<and> fst (snd k) \<in> set tags \<and> snd (snd k))}"
    unfolding row_keys_def remove_rows_def key by auto
  have f: "tb_tags (remove_rows nodes tags db) = tb_tags db" "tb_nodes (remove_rows nodes tags db) = tb_nodes db" "tb_lastTag (remove_rows nodes tags db) = tb_lastTag db"
    by (simp_all add: remove_rows_def)
  have "tag_db_ok (remove_rows nodes tags db)" if ok: "tag_db_ok db"
  proof -
    have "distinct (map tag_row_key (tb_rows (remove_rows nodes tags db)))" using ok by (simp add: tag_db_ok_def remove_rows_def distinct_map_filter)
    then show ?thesis by (intro ok_rows [OF ok]) (auto simp: k f)
  qed
  then show ?thesis by (auto simp: touches_def k f)
qed

lemma touches_fold:
  assumes "\<And>x db. x \<in> set xs \<Longrightarrow> touches S db (f x db)"
  shows "touches S db (fold f xs db)"
  using assms
proof (induction xs arbitrary: db)
  case (Cons x xs)
  have "touches S db (f x db)" "touches S (f x db) (fold f xs (f x db))" using Cons by simp_all
  from touches_trans [OF this] show ?case by simp
qed (simp add: touches_refl)

lemma chunk_subset: "0 < n \<Longrightarrow> c \<in> set (chunkIDs ids n) \<Longrightarrow> set c \<subseteq> set ids"
proof (induction ids n rule: chunkIDs.induct)
  case (1 ids n)
  show ?case
  proof (cases "ids = []")
    case False
    then have "c = take n ids \<or> c \<in> set (chunkIDs (drop n ids) n)" using 1(2,3) by simp
    then show ?thesis using 1(1) [OF refl False] 1(2) set_take_subset set_drop_subset by fastforce
  qed (use 1 in simp)
qed

lemma touches_replace: "replace_auto as db = Inr db' \<Longrightarrow> touches (set (filter (\<lambda>n. n > 0) (map aa_NodeID as))) db db'"
proof (induction as db rule: replace_auto.induct)
  case (2 a as db)
  show ?case
  proof (cases "aa_NodeID a \<le> 0")
    case False
    then obtain db1 where "insertNodeTags (aa_NodeID a) Auto_Source (aa_TagIDs a) (aa_RuleVersions a) (clear_source (aa_NodeID a) Auto_Source db) = Inr db1"
        "replace_auto as db1 = Inr db'" using 2(3) by (auto split: sum.splits)
    then have "touches ({aa_NodeID a} \<union> set (filter (\<lambda>n. n > 0) (map aa_NodeID as))) db db'"
      using 2(2) [OF False] touches_trans [OF touches_clear_insert] by blast
    then show ?thesis by (rule touches_mono) (use False in auto)
  qed (use 2 in auto)
qed (simp add: touches_refl)

section \<open>The operations\<close>

lemma set_manual_keeps:
  assumes "SetManualNodeTags fault n ids db = Inr db'" and "tag_db_ok db" and "columns_ok db"
  shows "tag_db_ok db' \<and> columns_ok db'"
proof -
  obtain db1 where "insertNodeTags n Manual_Source (normalizeIDList ids) [] (clear_source n Manual_Source db) = Inr db1" "db' = refreshNodeTagProjection [n] db1"
    using assms(1) by (auto simp: SetManualNodeTags_def split: if_splits sum.splits)
  moreover from this have "touches (set [n]) db db1" using touches_clear_insert by simp
  ultimately show ?thesis using touches_refresh assms(2,3) by blast
qed

lemma batch_update_keeps:
  assumes "BatchUpdateManualNodeTags fault nodeIDs adds removes db = Inr db'" and "tag_db_ok db" and "columns_ok db"
  shows "tag_db_ok db' \<and> columns_ok db'"
proof (cases "db' = db")
  case False
  let ?nodes = "normalizeIDList nodeIDs" and ?half = "sqliteMaxVariables div 2"
  have half: "0 < ?half" by (simp add: sqliteMaxVariables_def)
  obtain db1 where db1: "insert_all ?nodes (normalizeIDList adds) db = Inr db1"
    "db' = refreshNodeTagProjection ?nodes (fold (\<lambda>c. fold (\<lambda>nc. remove_rows nc c) (chunkIDs ?nodes ?half)) (chunkIDs (normalizeIDList removes) ?half) db1)"
    using assms(1) False by (auto simp: BatchUpdateManualNodeTags_def Let_def split: if_splits sum.splits)
  have "touches (set ?nodes) d (fold (\<lambda>nc. remove_rows nc c) (chunkIDs ?nodes ?half) d)" for c d
    by (rule touches_fold) (rule touches_mono [OF touches_remove chunk_subset [OF half]])
  then have "touches (set ?nodes) db1 (fold (\<lambda>c. fold (\<lambda>nc. remove_rows nc c) (chunkIDs ?nodes ?half)) (chunkIDs (normalizeIDList removes) ?half) db1)"
    by (rule touches_fold)
  from touches_trans [OF touches_insert_all [OF db1(1)] this] show ?thesis
    unfolding db1(2) Un_absorb by (rule touches_refresh [OF _ assms(2,3)])
qed (use assms in simp)

lemma replace_auto_keeps:
  assumes "ReplaceAutoNodeTags fault as db = Inr db'" and "tag_db_ok db" and "columns_ok db"
  shows "tag_db_ok db' \<and> columns_ok db'"
proof (cases "as = []")
  case False
  then obtain db1 where "replace_auto as db = Inr db1" "db' = refreshNodeTagProjection (filter (\<lambda>n. n > 0) (map aa_NodeID as)) db1"
    using assms(1) by (auto simp: ReplaceAutoNodeTags_def split: if_splits sum.splits)
  then show ?thesis using touches_refresh [OF touches_replace assms(2,3)] by simp
qed (use assms in \<open>simp add: ReplaceAutoNodeTags_def\<close>)

text \<open>The writes to tags and groups. \<open>retagged\<close> is a change of the table of tags that keeps identifiers and names.\<close>

lemma retagged_keeps:
  assumes "tag_db_ok db" and "columns_ok db" and "map st_ID (tb_tags db') = map st_ID (tb_tags db)" and "map st_Name (tb_tags db') = map st_Name (tb_tags db)"
    and "tb_rows db' = tb_rows db" and "tb_nodes db' = tb_nodes db" and "tb_lastTag db' = tb_lastTag db"
  shows "tag_db_ok db' \<and> columns_ok db'"
proof -
  have ids: "st_ID ` set (tb_tags db') = st_ID ` set (tb_tags db)" using assms(3) by (metis set_map)
  have bounds: "(\<forall>t \<in> set (tb_tags d). 0 < st_ID t \<and> st_ID t \<le> b) \<longleftrightarrow> (\<forall>i \<in> st_ID ` set (tb_tags d). 0 < i \<and> i \<le> b)" for d b by blast
  have ok: "tag_db_ok db'" using assms(1) unfolding tag_db_ok_def tag_known_def node_known_def row_keys_def bounds ids assms(3,5,6,7) .
  have "tag_names (tb_tags db') i = tag_names (tb_tags db) i" for i
  proof -
    have "tag_names ts i = map snd (filter (\<lambda>p. fst p = i) (zip (map st_ID ts) (map st_Name ts)))" for ts
      by (induction ts) (auto simp: tag_names_def)
    then show ?thesis using assms(3,4) by simp
  qed
  then show ?thesis using ok assms(2,5,6) by (simp add: columns_ok_def node_names_def)
qed

lemma update_tag_keeps:
  assumes "UpdateTag fault tag db = Inr db'" and "tag_db_ok db" and "columns_ok db" and "\<And>t. t \<in> set (tb_tags db) \<Longrightarrow> st_ID t = st_ID tag \<Longrightarrow> st_Name t = st_Name tag"
  shows "tag_db_ok db' \<and> columns_ok db'"
proof -
  have db': "db' = db\<lparr>tb_tags := map (\<lambda>t. if st_ID t = st_ID tag then tag\<lparr>st_MutexGroupID := nullableID (st_MutexGroupID tag)\<rparr> else t) (tb_tags db)\<rparr>"
    using assms(1) by (auto simp: UpdateTag_def split: if_splits)
  show ?thesis by (rule retagged_keeps [OF assms(2,3)]) (use assms(4) in \<open>auto simp: db'\<close>)
qed

lemma delete_group_keeps:
  assumes "DeleteTagMutexGroup fault i db = Inr db'" and "tag_db_ok db" and "columns_ok db"
  shows "tag_db_ok db' \<and> columns_ok db'"
proof -
  have db': "db' = db\<lparr>tb_groups := filter (\<lambda>g. mg_ID g \<noteq> i) (tb_groups db),
                   tb_tags := map (\<lambda>t. if st_MutexGroupID t = i then t\<lparr>st_MutexGroupID := 0\<rparr> else t) (tb_tags db)\<rparr>"
    using assms(1) by (auto simp: DeleteTagMutexGroup_def split: if_splits)
  show ?thesis by (rule retagged_keeps [OF assms(2,3)]) (auto simp: db')
qed

lemma create_tag_keeps:
  assumes "CreateTag fault tag db = Inr (tag', db')" and "tag_db_ok db" and "columns_ok db"
  shows "tag_db_ok db' \<and> columns_ok db'"
proof -
  let ?i = "tb_lastTag db + 1"
  define row where "row = tag\<lparr>st_RuleVersion := max 1 (st_RuleVersion tag), st_ID := ?i, st_MutexGroupID := nullableID (st_MutexGroupID tag)\<rparr>"
  have row: "st_ID row = ?i" and db': "db' = db\<lparr>tb_tags := tb_tags db @ [row], tb_lastTag := ?i\<rparr>"
    using assms(1) by (auto simp: CreateTag_def Let_def row_def split: if_splits)
  have new: "?i \<notin> st_ID ` set (tb_tags db)" using assms(2) by (fastforce simp: tag_db_ok_def)
  have ok: "tag_db_ok db'" using assms(2) new row unfolding tag_db_ok_def
    by (auto simp: db' tag_known_def node_known_def row_keys_def)
  have "tag_names (tb_tags db') (nt_TagID r) = tag_names (tb_tags db) (nt_TagID r)" if "r \<in> set (tb_rows db)" for r
  proof -
    have "(nt_NodeID r, nt_TagID r, nt_Source r = Manual_Source) \<in> row_keys db" using that by (auto simp: row_keys_iff)
    then have "tag_known db (nt_TagID r)" using assms(2) unfolding tag_db_ok_def by blast
    then show ?thesis using new row by (auto simp: tag_names_def db' tag_known_def)
  qed
  then have "node_names db' n = node_names db n" for n
    unfolding node_names_def by (auto simp: db' intro!: arg_cong [where f = concat] map_cong)
  then show ?thesis using ok assms(3) by (simp add: columns_ok_def db')
qed

lemma delete_tag_keeps:
  assumes "DeleteTag fault i db = Inr db'" and ok: "tag_db_ok db" and "columns_ok db"
  shows "tag_db_ok db' \<and> columns_ok db'"
proof -
  define db1 where "db1 = removeTagFromGroupFilters i (db\<lparr>tb_tags := filter (\<lambda>t. st_ID t \<noteq> i) (tb_tags db), tb_rows := filter (\<lambda>r. nt_TagID r \<noteq> i) (tb_rows db)\<rparr>)"
  have db': "db' = refreshNodeTagProjection (nodeIDsForTag db i) db1" using assms(1) by (auto simp: DeleteTag_def Let_def db1_def split: if_splits)
  have f: "tb_tags db1 = filter (\<lambda>t. st_ID t \<noteq> i) (tb_tags db)" "tb_rows db1 = filter (\<lambda>r. nt_TagID r \<noteq> i) (tb_rows db)" "tb_nodes db1 = tb_nodes db" "tb_lastTag db1 = tb_lastTag db"
    by (simp_all add: db1_def removeTagFromGroupFilters_def)
  have key: "nt_TagID r \<noteq> i \<longleftrightarrow> fst (snd (tag_row_key r)) \<noteq> i" for r by (simp add: tag_row_key_def)
  have k: "row_keys db1 = {k \<in> row_keys db. fst (snd k) \<noteq> i}" unfolding row_keys_def f key by auto
  have "distinct (map tag_row_key (tb_rows db1))" "distinct (map st_ID (tb_tags db1))" using ok by (simp_all add: tag_db_ok_def f distinct_map_filter)
  moreover have "tag_known db1 j \<and> node_known db1 n" if "(n, j, m) \<in> row_keys db1" for n j m
  proof -
    have "(n, j, m) \<in> row_keys db" and j: "j \<noteq> i" using that by (auto simp: k)
    then have "tag_known db j" "node_known db n" using ok unfolding tag_db_ok_def by blast+
    then show ?thesis using j by (auto simp: tag_known_def node_known_def f)
  qed
  moreover have "\<forall>t \<in> set (tb_tags db). 0 < st_ID t \<and> st_ID t \<le> tb_lastTag db" "0 \<le> tb_lastTag db" "distinct (map fst (tb_nodes db))" "\<forall>n. node_known db n \<longrightarrow> 0 < n"
    using ok by (simp_all add: tag_db_ok_def)
  ultimately have ok1: "tag_db_ok db1" unfolding tag_db_ok_def node_known_def by (simp add: f)
  have "set (node_names db1 m) = set (node_names db m)" if "m \<notin> set (nodeIDsForTag db i)" for m
  proof -
    have "(m, i, b) \<notin> row_keys db" for b using that by (auto simp: nodeIDsForTag_def row_keys_iff)
    then show ?thesis unfolding set_node_names f k by auto
  qed
  from columns_refresh [OF assms(3) ok1 f(3) this] ok1 show ?thesis by (simp add: db')
qed

lemma group_keeps:
  "CreateTagMutexGroup fault g db = Inr (g', db') \<Longrightarrow> tag_db_ok db \<and> columns_ok db \<Longrightarrow> tag_db_ok db' \<and> columns_ok db'"
  "UpdateTagMutexGroup fault g db = Inr db' \<Longrightarrow> tag_db_ok db \<and> columns_ok db \<Longrightarrow> tag_db_ok db' \<and> columns_ok db'"
  by (rule retagged_keeps [of db]; auto simp: CreateTagMutexGroup_def UpdateTagMutexGroup_def Let_def split: if_splits)+

section \<open>Every history of writes\<close>

inductive tag_step :: "tag_db \<Rightarrow> tag_db \<Rightarrow> bool" where
  "SetManualNodeTags fault n ids db = Inr db' \<Longrightarrow> tag_step db db'"
| "BatchUpdateManualNodeTags fault nodes adds removes db = Inr db' \<Longrightarrow> tag_step db db'"
| "ReplaceAutoNodeTags fault assignments db = Inr db' \<Longrightarrow> tag_step db db'"
| "CreateTag fault tag db = Inr (tag', db') \<Longrightarrow> tag_step db db'"
| "UpdateTag fault tag db = Inr db' \<Longrightarrow> (\<And>t. t \<in> set (tb_tags db) \<Longrightarrow> st_ID t = st_ID tag \<Longrightarrow> st_Name t = st_Name tag) \<Longrightarrow> tag_step db db'"
| "DeleteTag fault i db = Inr db' \<Longrightarrow> tag_step db db'"
| "CreateTagMutexGroup fault g db = Inr (g', db') \<Longrightarrow> tag_step db db'"
| "UpdateTagMutexGroup fault g db = Inr db' \<Longrightarrow> tag_step db db'"
| "DeleteTagMutexGroup fault i db = Inr db' \<Longrightarrow> tag_step db db'"

definition tags_projected :: "tag_db \<Rightarrow> bool" where "tags_projected db \<longleftrightarrow> tag_db_ok db \<and> columns_ok db"

interpretation tag_writes: preserved_invariant tag_step tags_projected
proof
  show "tags_projected db'" if "tags_projected db" "tag_step db db'" for db db'
    using that(2,1) unfolding tags_projected_def
    by cases (blast dest: set_manual_keeps batch_update_keeps replace_auto_keeps create_tag_keeps update_tag_keeps delete_tag_keeps group_keeps delete_group_keeps)+
qed

text \<open>C35: the visible tags of a node are the names of its assignments. Under every sequence of writes to tags, mutex groups and manual or automatic
  assignments, but for a change of the name of a tag, the column of every node that group selection reads is the sorted list without
  duplicates of the names of the tags assigned to it by hand or by rule, and no assignment refers to a tag or node that is gone.\<close>

theorem visible_tags_are_assignments:
  assumes "reaches tag_step db db'" and "tag_db_ok db" and "columns_ok db" and "map_of (tb_nodes db') n = Some names"
  shows "sorted names \<and> distinct names \<and> set names = {st_Name t | t r. t \<in> set (tb_tags db') \<and> r \<in> set (tb_rows db') \<and> nt_NodeID r = n \<and> nt_TagID r = st_ID t}
    \<and> (\<forall>r \<in> set (tb_rows db'). tag_known db' (nt_TagID r) \<and> node_known db' (nt_NodeID r))"
proof -
  have p: "tag_db_ok db'" "columns_ok db'" using tag_writes.reaches_inv [OF assms(1)] assms(2,3) by (auto simp: tags_projected_def)
  then have names: "names = dedupeSorted (node_names db' n)" using assms(4) by (simp add: columns_ok_def)
  have "set (node_names db' n) = {st_Name t | t r. t \<in> set (tb_tags db') \<and> r \<in> set (tb_rows db') \<and> nt_NodeID r = n \<and> nt_TagID r = st_ID t}"
    unfolding set_node_names some_key by blast
  moreover have "\<forall>r \<in> set (tb_rows db'). tag_known db' (nt_TagID r) \<and> node_known db' (nt_NodeID r)"
    using p(1) unfolding tag_db_ok_def row_keys_def tag_row_key_def by blast
  ultimately show ?thesis unfolding names by (simp add: dedupeSorted_def)
qed

section \<open>A concrete node\<close>

definition demo_tag :: "int \<Rightarrow> string \<Rightarrow> tag_row" where
  "demo_tag i name = \<lparr>st_ID = i, st_Name = name, st_MutexGroupID = 0, st_Priority = 0, st_AutoEnabled = True, st_RuleJSON = name, st_RuleVersion = 1,
     tw_Color = [], tw_Description = [], tw_BuiltinKey = []\<rparr>"

definition demo_assignment :: "int \<Rightarrow> tag_source \<Rightarrow> int \<Rightarrow> NodeTag" where
  "demo_assignment i source v = \<lparr>nt_NodeID = 1, nt_TagID = i, nt_Source = source, nt_RuleVersion = v\<rparr>"

text \<open>The node carries the tags \<open>a\<close> and \<open>b\<close> by hand, and \<open>a\<close> also by rule; now only the rule of \<open>b\<close> matches.\<close>

definition demo_tags :: tag_db where
  "demo_tags = \<lparr>tb_tags = [demo_tag 1 ''a'', demo_tag 2 ''b''], tb_lastTag = 2, tb_groups = [], tb_lastGroup = 0,
     tb_rows = [demo_assignment 1 Manual_Source 0, demo_assignment 2 Manual_Source 0, demo_assignment 1 Auto_Source 1], tb_nodes = [(1, [''a'', ''b''])], tb_pools = []\<rparr>"

lemma demo_tags_ok: "tag_db_ok demo_tags" "columns_ok demo_tags"
proof -
  show "tag_db_ok demo_tags" by (simp add: tag_db_ok_def demo_tags_def demo_tag_def demo_assignment_def row_keys_def tag_row_key_def tag_known_def node_known_def)
  have "dedupeSorted (node_names demo_tags 1) = [''a'', ''b'']" by code_simp
  then show "columns_ok demo_tags" by (auto simp: columns_ok_def demo_tags_def)
qed

definition demo_deleted :: tag_db where
  "demo_deleted = demo_tags\<lparr>tb_tags := [demo_tag 2 ''b''], tb_rows := [demo_assignment 2 Manual_Source 0], tb_nodes := [(1, [''b''])]\<rparr>"

theorem visible_tags_are_assignments_witness:
  "DeleteTag False 1 demo_tags = Inr demo_deleted \<and> map_of (tb_nodes demo_deleted) 1 = Some [''b''] \<and>
   set [''b''] = {st_Name t | t r. t \<in> set (tb_tags demo_deleted) \<and> r \<in> set (tb_rows demo_deleted) \<and> nt_NodeID r = 1 \<and> nt_TagID r = st_ID t}"
proof -
  have d: "DeleteTag False 1 demo_tags = Inr demo_deleted" by code_simp
  then have "tag_step demo_tags demo_deleted" by (rule tag_step.intros(6))
  from visible_tags_are_assignments [OF reaches_once [where step = tag_step, OF this] demo_tags_ok, of 1 "[''b'']"] d show ?thesis
    by (simp add: demo_deleted_def)
qed

end
