(* ===== verification/Tag_Recompute.thy ===== *)
theory Tag_Recompute
  imports Tag_Service Tag_Projection
begin

text \<open>
  Properties of recomputation: what a successful run leaves visible and reports, and the assignment rows a full run may leave behind.
\<close>

section \<open>What is read\<close>

lemma set_node_rows:
  assumes "tag_db_ok db" and "\<And>ids. nodeIDs = Some ids \<Longrightarrow> distinct ids \<and> n \<in> set ids"
  shows "set (node_rows db nodeIDs source n) = {r \<in> set (tb_rows db). nt_NodeID r = n \<and> nt_Source r = source}"
proof -
  let ?f = "\<lparr>tf_NodeIDs = (case nodeIDs of None \<Rightarrow> [] | Some ids \<Rightarrow> ids), tf_TagIDs = [], tf_Source = Some source\<rparr>"
  have "ListNodeTags db ?f = query_node_tags db ?f"
    by (rule ListNodeTags_direct) (use assms in \<open>auto simp: tag_db_ok_def split: option.split\<close>)
  then show ?thesis using assms(2) by (auto simp: node_rows_def query_node_tags_def filter_matches_def split: option.splits)
qed

lemma source_keys:
  "(\<exists>r \<in> set (tb_rows db). nt_NodeID r = n \<and> nt_TagID r = i \<and> nt_Source r = source) \<longleftrightarrow> (n, i, source = Manual_Source) \<in> row_keys db"
proof -
  have flag: "(nt_Source r = Manual_Source) = (source = Manual_Source) \<longleftrightarrow> nt_Source r = source" for r by (cases "nt_Source r"; cases source) auto
  show ?thesis unfolding row_keys_iff flag ..
qed

lemma set_assignments:
  assumes "tag_db_ok db" and "\<And>ids. nodeIDs = Some ids \<Longrightarrow> distinct ids \<and> n \<in> set ids"
  shows "set (assignments db nodeIDs source n) = {i. (n, i, source = Manual_Source) \<in> row_keys db}"
    and "nt_TagID ` set (autoAssignments db nodeIDs n) = {i. (n, i, False) \<in> row_keys db}"
proof -
  have tags: "nt_TagID ` set (node_rows db nodeIDs src n) = {i. (n, i, src = Manual_Source) \<in> row_keys db}" for src
  proof -
    have "set (node_rows db nodeIDs src n) = {r \<in> set (tb_rows db). nt_NodeID r = n \<and> nt_Source r = src}"
      by (rule set_node_rows) (use assms in auto)
    then show ?thesis unfolding source_keys [symmetric] by auto
  qed
  show "set (assignments db nodeIDs source n) = {i. (n, i, source = Manual_Source) \<in> row_keys db}" by (simp add: assignments_def tags)
  show "nt_TagID ` set (autoAssignments db nodeIDs n) = {i. (n, i, False) \<in> row_keys db}" by (simp add: autoAssignments_def tags)
qed

text \<open>The compiled rules and the index of tags without the accumulators.\<close>

definition rule_of :: "Condition rule_lib \<Rightarrow> store_tag \<Rightarrow> Rule list" where
  "rule_of lib s = (if \<not> st_AutoEnabled s \<or> st_RuleJSON s = [] then []
     else case ParseRule lib (st_RuleJSON s) of Inl e \<Rightarrow> []
          | Inr c \<Rightarrow> if IsEmpty c then [] else [\<lparr>ru_Meta = tag_meta s, ru_Version = st_RuleVersion s, ru_Condition = c\<rparr>])"

lemma compile_eq:
  "fst (CompileRules lib ss (rules, meta, skipped)) = rules @ concat (map (rule_of lib) ss) \<and>
   fst (snd (CompileRules lib ss (rules, meta, skipped))) = fold (\<lambda>s. aput (st_ID s) (tag_meta s)) ss meta"
  by (induction ss arbitrary: rules meta skipped) (auto simp: rule_of_def Let_def split: sum.split)

lemma rule_of_tag: "r \<in> set (rule_of lib s) \<Longrightarrow> rule_tag r = st_ID s" "length (rule_of lib s) \<le> 1"
  by (auto simp: rule_of_def tag_meta_def split: if_splits sum.splits)

lemma compiled_rules:
  assumes "tag_db_ok db" and "compiled env db = (rules, meta)"
  shows "distinct (map rule_tag rules)" and "rule_tag ` set rules \<subseteq> st_ID ` set (tb_tags db)"
    and "map_of meta i = Some m \<longleftrightarrow> (\<exists>t \<in> set (tb_tags db). st_ID t = i \<and> m = tag_meta (store_tag.truncate t))"
proof -
  define ss where "ss = map store_tag.truncate (ListTags db)"
  have ids: "map st_ID ss = map st_ID (ListTags db)" by (simp add: ss_def store_tag.defs comp_def)
  have "mset (map st_ID (ListTags db)) = mset (map st_ID (tb_tags db))" by (simp add: ListTags_def)
  then have d: "distinct (map st_ID ss)" using assms(1) unfolding ids tag_db_ok_def by (metis mset_eq_imp_distinct_iff)
  have set_ss: "set ss = store_tag.truncate ` set (tb_tags db)" by (simp add: ss_def ListTags_def)
  have rm: "rules = concat (map (rule_of (te_lib env)) ss)" "meta = fold (\<lambda>s. aput (st_ID s) (tag_meta s)) ss []"
    using compile_eq [of "te_lib env" ss "[]" "[]" "[]"] assms(2) by (auto simp: compiled_def ss_def split: prod.splits)
  have "distinct (map rule_tag (concat (map (rule_of lib) xs))) \<and> rule_tag ` set (concat (map (rule_of lib) xs)) \<subseteq> st_ID ` set xs"
    if "distinct (map st_ID xs)" for xs lib
    using that
  proof (induction xs)
    case (Cons x xs)
    have "rule_of lib x = [] \<or> (\<exists>r. rule_of lib x = [r])" using rule_of_tag(2) [of lib x] by (cases "rule_of lib x") auto
    then show ?case using Cons rule_of_tag(1) [of _ lib x] by auto
  qed simp
  from this [OF d, of "te_lib env"] have r: "distinct (map rule_tag rules)" "rule_tag ` set rules \<subseteq> st_ID ` set ss" unfolding rm(1) by blast+
  show "distinct (map rule_tag rules)" by (rule r(1))
  have "st_ID ` set ss = st_ID ` set (tb_tags db)" unfolding set_ss by (simp add: image_image store_tag.defs)
  then show "rule_tag ` set rules \<subseteq> st_ID ` set (tb_tags db)" using r(2) by simp
  have "map_of (fold (\<lambda>s. aput (st_ID s) (tag_meta s)) xs m0) i = Some m \<longleftrightarrow>
      (\<exists>s \<in> set xs. st_ID s = i \<and> m = tag_meta s) \<or> i \<notin> st_ID ` set xs \<and> map_of m0 i = Some m" if "distinct (map st_ID xs)" for xs :: "store_tag list" and m0
    using that
  proof (induction xs arbitrary: m0)
    case (Cons x xs)
    then show ?case by (cases "i = st_ID x") auto
  qed simp
  from this [OF d, of "[]"] show "map_of meta i = Some m \<longleftrightarrow> (\<exists>t \<in> set (tb_tags db). st_ID t = i \<and> m = tag_meta (store_tag.truncate t))"
    unfolding rm(2) set_ss by (auto simp: store_tag.defs)
qed

section \<open>What is shown\<close>

definition tags_named :: "tag_db \<Rightarrow> bool" where "tags_named db \<longleftrightarrow> (\<forall>t \<in> set (tb_tags db). st_Name t \<noteq> [])"

lemma projection_names:
  assumes "tag_db_ok db" and "compiled env db = (rules, meta)" and "tags_named db"
  shows "set (projection au ma meta) = {st_Name t | t. t \<in> set (tb_tags db) \<and> (st_ID t \<in> set au \<or> st_ID t \<in> set ma)}"
proof -
  note meta = compiled_rules(3) [OF assms(1,2)]
  have v: "set (visible_name meta i) = {st_Name t | t. t \<in> set (tb_tags db) \<and> st_ID t = i}" for i
  proof (cases "map_of meta i")
    case None
    then have "\<not> (\<exists>t \<in> set (tb_tags db). st_ID t = i)" using meta [of i] by auto
    with None show ?thesis by (auto simp: visible_name_def)
  next
    case (Some m)
    then obtain t where t: "t \<in> set (tb_tags db)" "st_ID t = i" "m = tag_meta (store_tag.truncate t)" using meta by blast
    have "t' = t" if "t' \<in> set (tb_tags db)" "st_ID t' = i" for t' using that t assms(1) by (auto simp: tag_db_ok_def distinct_map inj_on_def)
    then have "{t' \<in> set (tb_tags db). st_ID t' = i} = {t}" using t(1,2) by blast
    then have "st_Name ` {t' \<in> set (tb_tags db). st_ID t' = i} = {st_Name t}" by simp
    moreover have "{st_Name t' | t'. t' \<in> set (tb_tags db) \<and> st_ID t' = i} = st_Name ` {t' \<in> set (tb_tags db). st_ID t' = i}" by blast
    moreover have "st_Name t \<noteq> []" using t(1) assms(3) by (simp add: tags_named_def)
    ultimately show ?thesis using Some t(3) by (simp add: visible_name_def tag_meta_def store_tag.defs)
  qed
  have "set (projection au ma meta) = (\<Union>i \<in> set ma \<union> set au. {st_Name t | t. t \<in> set (tb_tags db) \<and> st_ID t = i})"
    by (simp add: projection_def v)
  also have "\<dots> = {st_Name t | t. t \<in> set (tb_tags db) \<and> (st_ID t \<in> set au \<or> st_ID t \<in> set ma)}" by blast
  finally show ?thesis .
qed

lemma projection_column:
  assumes "tag_db_ok db" and "compiled env db = (rules, meta)" and "tags_named db" and "tb_tags db2 = tb_tags db"
    and "\<And>i. (n, i, False) \<in> row_keys db2 \<longleftrightarrow> i \<in> set au" and "\<And>i. (n, i, True) \<in> row_keys db2 \<longleftrightarrow> i \<in> set ma"
  shows "dedupeSorted (node_names db2 n) = projection au ma meta"
proof -
  have key: "(\<exists>m. (n, i, m) \<in> row_keys db2) \<longleftrightarrow> i \<in> set au \<or> i \<in> set ma" for i
    using assms(5,6) by (metis (full_types))
  have "set (node_names db2 n) = set (projection au ma meta)"
    unfolding set_node_names projection_names [OF assms(1-3)] assms(4) key ..
  then show ?thesis
    by (intro sorted_distinct_set_unique) (simp_all add: dedupeSorted_def projection_def)
qed

lemma winners_subset: "set (winners taken rs) \<subseteq> set rs"
  by (induction taken rs rule: winners.induct) auto

lemma decided_tags:
  assumes "tag_db_ok db" and "compiled env db = (rules, meta)"
  shows "set (td_TagIDs (decide_node env db' nodeIDs rules meta f)) \<subseteq> st_ID ` set (tb_tags db)"
proof -
  have "set (td_TagIDs (decide_node env db' nodeIDs rules meta f)) \<subseteq> rule_tag ` set (match_rules env f rules)"
    unfolding decide_node_def td_TagIDs_eq using winners_subset by fastforce
  also have "\<dots> \<subseteq> rule_tag ` set rules" by (auto simp: match_rules_def)
  finally show ?thesis using compiled_rules(2) [OF assms] by blast
qed

section \<open>What is written\<close>

lemma replace_manual: "replace_auto as db = Inr db' \<Longrightarrow> (n, i, True) \<in> row_keys db' \<longleftrightarrow> (n, i, True) \<in> row_keys db"
proof (induction as db rule: replace_auto.induct)
  case (2 a as db)
  show ?case
  proof (cases "aa_NodeID a \<le> 0")
    case False
    then obtain db1 where ins: "insertNodeTags (aa_NodeID a) Auto_Source (aa_TagIDs a) (aa_RuleVersions a) (clear_source (aa_NodeID a) Auto_Source db) = Inr db1"
      and r: "replace_auto as db1 = Inr db'" using 2(3) by (auto split: sum.splits)
    from insert_effect [OF ins] have "(n, i, True) \<in> row_keys db1 \<longleftrightarrow> (n, i, True) \<in> row_keys db" by (auto simp: clear_effect)
    moreover have "(n, i, True) \<in> row_keys db' \<longleftrightarrow> (n, i, True) \<in> row_keys db1" using 2(2) [OF False ins r] .
    ultimately show ?thesis by simp
  qed (use 2 in auto)
qed simp

lemma replace_rows:
  assumes "replace_auto as db = Inr db'" and "distinct (map aa_NodeID as)" and "a \<in> set as" and "0 < aa_NodeID a" and "\<And>i. i \<in> set (aa_TagIDs a) \<Longrightarrow> 0 < i"
  shows "(aa_NodeID a, i, False) \<in> row_keys db' \<longleftrightarrow> i \<in> set (aa_TagIDs a)"
  using assms
proof (induction as db rule: replace_auto.induct)
  case (2 b as db)
  show ?case
  proof (cases "aa_NodeID b \<le> 0")
    case False
    then obtain db1 where ins: "insertNodeTags (aa_NodeID b) Auto_Source (aa_TagIDs b) (aa_RuleVersions b) (clear_source (aa_NodeID b) Auto_Source db) = Inr db1"
      and r: "replace_auto as db1 = Inr db'" using 2(3) by (auto split: sum.splits)
    show ?thesis
    proof (cases "a = b")
      case True
      have "(aa_NodeID a, i, False) \<in> row_keys db1 \<longleftrightarrow> i \<in> set (aa_TagIDs a)"
        using insert_effect [OF ins] 2(7) True by (auto simp: clear_effect)
      moreover have "aa_NodeID a \<notin> set (filter (\<lambda>n. n > 0) (map aa_NodeID as))" using 2(4) True by auto
      ultimately show ?thesis using touches_replace [OF r] unfolding touches_def by blast
    next
      case ab: False
      then have "a \<in> set as" using 2(5) by simp
      then show ?thesis using 2(2) [OF False ins] r 2(4,6,7) by simp
    qed
  next
    case True
    then have "a \<in> set as" using 2(5,6) by auto
    then show ?thesis using 2(1) [OF True] 2(3,4,6,7) True by simp
  qed
qed simp

section \<open>Recomputation\<close>

text \<open>A recomputation for which the loader answers with facts of known nodes, each once and each asked for.\<close>

definition loads :: "tag_env \<Rightarrow> tag_db \<Rightarrow> int list option \<Rightarrow> NodeFacts list \<Rightarrow> bool" where
  "loads env db nodeIDs fs \<longleftrightarrow> te_load env db nodeIDs = Inr fs \<and> distinct (map nf_NodeID fs) \<and> (\<forall>f \<in> set fs. node_known db (nf_NodeID f)) \<and>
     (\<forall>ids. nodeIDs = Some ids \<longrightarrow> distinct ids \<and> nf_NodeID ` set fs \<subseteq> set ids)"

lemma recompute_cases:
  assumes "Recompute env nodeIDs db = (Inr changed, db')" and "loads env db nodeIDs fs" and "compiled env db = (rules, meta)"
  obtains (unchanged) "db' = db" "filter (node_rewritten env db nodeIDs rules meta) fs = []" "changed = map nf_NodeID (filter (node_changes env db nodeIDs rules meta) fs)"
  | (written) db1 as where "as = map (\<lambda>f. Assignment (decide_node env db nodeIDs rules meta f)) (filter (node_rewritten env db nodeIDs rules meta) fs)"
      "replace_auto as db = Inr db1" "db' = refreshNodeTagProjection (filter (\<lambda>n. n > 0) (map aa_NodeID as)) db1"
      "changed = map nf_NodeID (filter (node_changes env db nodeIDs rules meta) fs)"
proof -
  have l: "te_load env db nodeIDs = Inr fs" using assms(2) by (simp add: loads_def)
  show thesis
  proof (cases "fs = [] \<or> nodeIDs = Some []")
    case True
    then have "fs = []" using assms(2) by (auto simp: loads_def)
    then show thesis using assms(1,3) l by (intro unchanged) (auto simp: Recompute_def split: if_splits)
  next
    case False
    define as where "as = map (\<lambda>f. Assignment (decide_node env db nodeIDs rules meta f)) (filter (node_rewritten env db nodeIDs rules meta) fs)"
    show thesis
    proof (cases "as = []")
      case True
      then show thesis using assms(1,3) l False by (intro unchanged) (auto simp: Recompute_def as_def Let_def split: if_splits)
    next
      case ne: False
      then have "\<exists>db1. replace_auto as db = Inr db1 \<and> db' = refreshNodeTagProjection (filter (\<lambda>n. n > 0) (map aa_NodeID as)) db1 \<and>
          changed = map nf_NodeID (filter (node_changes env db nodeIDs rules meta) fs)"
        using assms(1,3) l False unfolding Recompute_def ReplaceAutoNodeTags_def as_def [symmetric] Let_def
        by (auto simp: as_def [symmetric] split: if_splits sum.splits)
      then show thesis using written [OF as_def] by blast
    qed
  qed
qed

lemma column_after:
  assumes "tag_db_ok db" and "columns_ok db" and "tags_named db" and "loads env db nodeIDs fs" and "compiled env db = (rules, meta)" and "f \<in> set fs"
    and "Recompute env nodeIDs db = (Inr changed, db')"
  shows "map_of (tb_nodes db) (nf_NodeID f) = Some (projection (map nt_TagID (autoAssignments db nodeIDs (nf_NodeID f))) (assignments db nodeIDs Manual_Source (nf_NodeID f)) meta)"
    and "map_of (tb_nodes db') (nf_NodeID f) = Some (projection (td_TagIDs (decide_node env db nodeIDs rules meta f)) (assignments db nodeIDs Manual_Source (nf_NodeID f)) meta)"
proof -
  let ?n = "nf_NodeID f" and ?d = "decide_node env db nodeIDs rules meta f" and ?ma = "assignments db nodeIDs Manual_Source (nf_NodeID f)"
  have known: "node_known db ?n" and ids: "\<And>ids. nodeIDs = Some ids \<Longrightarrow> distinct ids \<and> ?n \<in> set ids" and dn: "distinct (map nf_NodeID fs)"
    using assms(4,6) by (auto simp: loads_def)
  then have pos: "0 < ?n" using assms(1) by (simp add: tag_db_ok_def)
  have ma: "(?n, i, True) \<in> row_keys db \<longleftrightarrow> i \<in> set ?ma" and au: "(?n, i, False) \<in> row_keys db \<longleftrightarrow> i \<in> set (map nt_TagID (autoAssignments db nodeIDs ?n))" for i
    using set_assignments [OF assms(1) ids] by auto
  obtain names where names: "map_of (tb_nodes db) ?n = Some names" using known by (cases "map_of (tb_nodes db) ?n") (auto simp: node_known_def map_of_eq_None_iff)
  show before: "map_of (tb_nodes db) ?n = Some (projection (map nt_TagID (autoAssignments db nodeIDs ?n)) ?ma meta)"
    using names assms(2) projection_column [OF assms(1,5,3) refl au ma] by (simp add: columns_ok_def)
  have same: "projection (map nt_TagID (autoAssignments db nodeIDs ?n)) ?ma meta = projection (td_TagIDs ?d) ?ma meta"
    if "\<not> node_rewritten env db nodeIDs rules meta f"
    using that unfolding node_rewritten_def node_changes_def projectionChanged_def by blast
  from assms(7,4,5) show "map_of (tb_nodes db') ?n = Some (projection (td_TagIDs ?d) ?ma meta)"
  proof (cases rule: recompute_cases)
    case unchanged
    then have "\<not> node_rewritten env db nodeIDs rules meta f" using assms(6) by (auto simp: filter_empty_conv)
    with same unchanged(1) before show ?thesis by simp
  next
    case (written db1 as)
    note t = touches_replace [OF written(2)]
    have nodes: "map aa_NodeID as = map nf_NodeID (filter (node_rewritten env db nodeIDs rules meta) fs)"
      by (simp add: written(1) Assignment_def decide_node_def Resolve_def Let_def comp_def)
    show ?thesis
    proof (cases "node_rewritten env db nodeIDs rules meta f")
      case True
      then have "Assignment ?d \<in> set as" using assms(6) by (auto simp: written(1))
      moreover have a: "aa_NodeID (Assignment ?d) = ?n" "aa_TagIDs (Assignment ?d) = td_TagIDs ?d" by (simp_all add: Assignment_def decide_node_def Resolve_def Let_def)
      moreover have "0 < i" if "i \<in> set (td_TagIDs ?d)" for i
        using that decided_tags [OF assms(1,5)] assms(1) by (fastforce simp: tag_db_ok_def)
      moreover have "distinct (map aa_NodeID as)" unfolding nodes using dn by (rule distinct_map_filter)
      ultimately have "(?n, i, False) \<in> row_keys db1 \<longleftrightarrow> i \<in> set (td_TagIDs ?d)" for i
        using replace_rows [OF written(2), of "Assignment ?d" i] pos by simp
      moreover have "(?n, i, True) \<in> row_keys db1 \<longleftrightarrow> i \<in> set ?ma" for i using replace_manual [OF written(2)] ma by simp
      ultimately have "dedupeSorted (node_names db1 ?n) = projection (td_TagIDs ?d) ?ma meta"
        using t by (intro projection_column [OF assms(1,5,3)]) (auto simp: touches_def)
      moreover have "?n \<in> set (filter (\<lambda>n. n > 0) (map aa_NodeID as))" unfolding nodes using True assms(6) pos by auto
      ultimately show ?thesis using names t pos by (simp add: written(3) map_of_refresh touches_def)
    next
      case False
      then have "?n \<notin> set (map aa_NodeID as)" unfolding nodes using dn assms(6) by (auto simp: distinct_map inj_on_def)
      then have "map_of (tb_nodes db') ?n = map_of (tb_nodes db) ?n" using t by (simp add: written(3) map_of_refresh touches_def)
      with same [OF False] before show ?thesis by simp
    qed
  qed
qed


section \<open>A stale row\<close>

definition demo_known :: "string \<Rightarrow> Condition" where
  "demo_known field = Condition 0 (OtherMatch []) [] field OpIsKnown ONil [] 0 False"

definition demo_tag_facts :: NodeFacts where
  "demo_tag_facts = \<lparr>nf_NodeID = 1, nf_Name = ''n'', nf_Region = [], nf_Values = [(''b'', zero_value\<lparr>va_Known := True\<rparr>)]\<rparr>"

definition demo_tag_env :: tag_env where
  "demo_tag_env = \<lparr>te_tables = build_tables [], te_lib = \<lparr>rl_compiles = (\<lambda>_. True), rl_matches = (\<lambda>_ _. False), rl_parseFloat = (\<lambda>_. None), rl_runes = length,
       rl_encoded = (\<lambda>_. Inr 1), rl_unmarshal = (\<lambda>s. Inr (demo_known s))\<rparr>, te_marshal = (\<lambda>_. Inr []), te_load = (\<lambda>_ _. Inr [demo_tag_facts]), te_now = 0,
     te_tagsFault = False, te_groupsFault = False, te_manualFault = False, te_autoFault = False, te_writeFault = False\<rparr>"

lemma demo_tags_load: "tags_named demo_tags" "loads demo_tag_env demo_tags (Some [1]) [demo_tag_facts]"
  by (simp_all add: tags_named_def demo_tags_def demo_tag_def loads_def demo_tag_env_def demo_tag_facts_def node_known_def)


text \<open>C19: a full recomputation can leave a row that no rule stands behind. Here it succeeds, reports nothing and writes nothing, and yet the
  automatic assignment it leaves is not the one the rules decide: it compares the visible names, which the manual assignments cover, and the versions of
  the rows by position, but not the tags. (A recomputation of that node alone writes the decided row.)\<close>

theorem stale_row_survives:
  "RecomputeAll demo_tag_env demo_tags = (Inr [], demo_tags) \<and>
   map nt_TagID (autoAssignments demo_tags None 1) = [1] \<and>
   td_TagIDs (decide_node demo_tag_env demo_tags None (fst (compiled demo_tag_env demo_tags)) (snd (compiled demo_tag_env demo_tags)) demo_tag_facts) = [2] \<and>
   map nt_TagID (autoAssignments (snd (Recompute demo_tag_env (Some [1]) demo_tags)) None 1) = [2]"
proof -
  have "fst (RecomputeAll demo_tag_env demo_tags) = Inr []" by code_simp
  moreover have "snd (RecomputeAll demo_tag_env demo_tags) = demo_tags" by code_simp
  ultimately have "RecomputeAll demo_tag_env demo_tags = (Inr [], demo_tags)" by (simp add: prod_eq_iff)
  moreover have "map nt_TagID (autoAssignments demo_tags None 1) = [1]" by code_simp
  moreover have "td_TagIDs (decide_node demo_tag_env demo_tags None (fst (compiled demo_tag_env demo_tags)) (snd (compiled demo_tag_env demo_tags)) demo_tag_facts) = [2]"
    by code_simp
  moreover have "map nt_TagID (autoAssignments (snd (Recompute demo_tag_env (Some [1]) demo_tags)) None 1) = [2]" by code_simp
  ultimately show ?thesis by blast
qed

end
