(* ===== verification/Tag_Templates.thy ===== *)
theory Tag_Templates
  imports Tag_Recompute
begin

text \<open>
  The builtin tags, \<open>src/internal/nodetag/templates.go\<close>, and their seeding, \<open>SeedTemplates\<close> of \<open>service.go\<close>. Names are byte strings in UTF-8.
  Seeding is not a transaction: a write that fails leaves the tags created before it.
\<close>

definition utf8 :: "nat list \<Rightarrow> string" where "utf8 = map char_of"

record ProviderInfo =
  pi_Name :: string
  pi_Label :: string

record Template =
  tp_BuiltinKey :: string
  tp_Name :: string
  tp_Color :: string
  tp_Description :: string
  tp_MutexGroup :: string
  tp_Priority :: int
  tp_Condition :: Condition

definition BuiltinNativeIP :: string where "BuiltinNativeIP = ''native_ip''"
definition BuiltinRiskHigh :: string where "BuiltinRiskHigh = ''risk_high''"
definition BuiltinRiskLow :: string where "BuiltinRiskLow = ''risk_low''"
definition BuiltinLatencyFast :: string where "BuiltinLatencyFast = ''latency_fast''"
definition BuiltinLatencyOK :: string where "BuiltinLatencyOK = ''latency_ok''"
definition BuiltinLatencySlow :: string where "BuiltinLatencySlow = ''latency_slow''"
definition BuiltinUnlockPrefix :: string where "BuiltinUnlockPrefix = ''unlock_''"
definition MutexGroupRisk :: string where "MutexGroupRisk = utf8 [233, 163, 142, 233, 153, 169, 231, 173, 137, 231, 186, 167]"
definition MutexGroupLatency :: string where "MutexGroupLatency = utf8 [229, 187, 182, 232, 191, 159, 230, 161, 163]"
definition FieldUnlockIPPure :: string where "FieldUnlockIPPure = ''unlock.ip.pure''"
definition FieldUnlockIPRiskLevel :: string where "FieldUnlockIPRiskLevel = ''unlock.ip.risk_level''"
definition FieldLatencyMs :: string where "FieldLatencyMs = ''latency_ms''"

definition leafValue :: "string \<Rightarrow> Operator \<Rightarrow> operand \<Rightarrow> Condition" where
  "leafValue field op v = Condition 0 (OtherMatch []) [] field op v [] 0 False"

definition leafList :: "string \<Rightarrow> Operator \<Rightarrow> operand list \<Rightarrow> Condition" where
  "leafList field op vs = Condition 0 (OtherMatch []) [] field op ONil vs 0 False"

definition UnlockTemplateKey :: "string \<Rightarrow> string" where
  "UnlockTemplateKey provider = BuiltinUnlockPrefix @ to_lower (trim_space provider)"

definition unlock_template :: "ProviderInfo \<Rightarrow> Template list" where
  "unlock_template p =
     (let name = to_lower (trim_space (pi_Name p));
          label = (if trim_space (pi_Label p) = [] then name else trim_space (pi_Label p))
      in if name = [] then []
         else [\<lparr>tp_BuiltinKey = UnlockTemplateKey name, tp_Name = label @ utf8 [232, 167, 163, 233, 148, 129], tp_Color = ''#a855f7'',
                tp_Description = label @ utf8 [32, 232, 167, 163, 233, 148, 129, 230, 163, 128, 230, 181, 139, 233, 128, 154, 232, 191, 135], tp_MutexGroup = [], tp_Priority = 0,
                tp_Condition = leafValue (UnlockField name ''status'') OpEq (OText ''unlocked'')\<rparr>])"

definition Templates :: "ProviderInfo list \<Rightarrow> Template list" where
  "Templates unlockProviders =
     [\<lparr>tp_BuiltinKey = BuiltinNativeIP, tp_Name = utf8 [229, 142, 159, 231, 148, 159, 73, 80], tp_Color = ''#22c55e'', tp_Description = utf8 [232, 167, 163, 233, 148, 129, 230, 163, 128, 230, 181, 139, 229, 136, 164, 229, 174, 154, 228, 184, 186, 229, 142, 159, 231, 148, 159, 32, 73, 80],
        tp_MutexGroup = [], tp_Priority = 0, tp_Condition = leafValue FieldUnlockIPPure OpEq (OBool True)\<rparr>,
      \<lparr>tp_BuiltinKey = BuiltinRiskHigh, tp_Name = utf8 [233, 171, 152, 233, 163, 142, 233, 153, 169], tp_Color = ''#ef4444'', tp_Description = utf8 [73, 80, 32, 233, 163, 142, 233, 153, 169, 231, 173, 137, 231, 186, 167, 228, 184, 186, 32, 72, 105, 103, 104, 32, 230, 136, 150, 32, 77, 101, 100, 105, 117, 109],
        tp_MutexGroup = MutexGroupRisk, tp_Priority = 20, tp_Condition = leafList FieldUnlockIPRiskLevel OpIn [OText ''High'', OText ''Medium'']\<rparr>,
      \<lparr>tp_BuiltinKey = BuiltinRiskLow, tp_Name = utf8 [228, 189, 142, 233, 163, 142, 233, 153, 169], tp_Color = ''#3b82f6'', tp_Description = utf8 [73, 80, 32, 233, 163, 142, 233, 153, 169, 231, 173, 137, 231, 186, 167, 228, 184, 186, 32, 76, 111, 119],
        tp_MutexGroup = MutexGroupRisk, tp_Priority = 10, tp_Condition = leafList FieldUnlockIPRiskLevel OpIn [OText ''Low'']\<rparr>,
      \<lparr>tp_BuiltinKey = BuiltinLatencyFast, tp_Name = utf8 [226, 154, 161, 230, 158, 129, 233, 128, 159], tp_Color = ''#22c55e'', tp_Description = utf8 [229, 187, 182, 232, 191, 159, 228, 184, 141, 232, 182, 133, 232, 191, 135, 32, 49, 48, 48, 109, 115],
        tp_MutexGroup = MutexGroupLatency, tp_Priority = 30, tp_Condition = leafValue FieldLatencyMs OpLte (OInt 100)\<rparr>,
      \<lparr>tp_BuiltinKey = BuiltinLatencyOK, tp_Name = utf8 [226, 156, 133, 230, 173, 163, 229, 184, 184], tp_Color = ''#0ea5e9'', tp_Description = utf8 [229, 187, 182, 232, 191, 159, 228, 184, 141, 232, 182, 133, 232, 191, 135, 32, 51, 48, 48, 109, 115],
        tp_MutexGroup = MutexGroupLatency, tp_Priority = 20, tp_Condition = leafValue FieldLatencyMs OpLte (OInt 300)\<rparr>,
      \<lparr>tp_BuiltinKey = BuiltinLatencySlow, tp_Name = utf8 [240, 159, 144, 140, 232, 190, 131, 230, 133, 162], tp_Color = ''#f97316'', tp_Description = utf8 [229, 187, 182, 232, 191, 159, 232, 182, 133, 232, 191, 135, 32, 51, 48, 48, 109, 115],
        tp_MutexGroup = MutexGroupLatency, tp_Priority = 10, tp_Condition = leafValue FieldLatencyMs OpGt (OInt 300)\<rparr>] @ concat (map unlock_template unlockProviders)"

section \<open>Seeding\<close>

record SeedResult =
  sr_Created :: "string list"
  sr_Skipped :: "string list"
  sr_Conflicts :: "string list"

text \<open>\<open>fault\<close> tells by name which of the rows cannot be written.\<close>

definition ensureMutexGroup :: "(string \<Rightarrow> bool) \<Rightarrow> string \<Rightarrow> (string \<times> int) list \<Rightarrow> tag_db \<Rightarrow> tag_store_error + int \<times> (string \<times> int) list \<times> tag_db" where
  "ensureMutexGroup fault name cache db = (case map_of cache name of
     Some i \<Rightarrow> Inr (i, cache, db)
   | None \<Rightarrow> (case CreateTagMutexGroup (fault name) \<lparr>mg_ID = 0, mg_Name = name, mg_Description = utf8 [231, 148, 177, 229, 134, 133, 231, 189, 174, 230, 160, 135, 231, 173, 190, 230, 168, 161, 230, 157, 191, 229, 136, 155, 229, 187, 186]\<rparr> db of
               Inl e \<Rightarrow> Inl e | Inr (g, db1) \<Rightarrow> Inr (mg_ID g, aput name (mg_ID g) cache, db1)))"

definition template_tag :: "Template \<Rightarrow> int \<Rightarrow> string \<Rightarrow> tag_row" where
  "template_tag t g json = \<lparr>st_ID = 0, st_Name = tp_Name t, st_MutexGroupID = g, st_Priority = tp_Priority t, st_AutoEnabled = True, st_RuleJSON = json,
     st_RuleVersion = 1, tw_Color = tp_Color t, tw_Description = tp_Description t, tw_BuiltinKey = tp_BuiltinKey t\<rparr>"

fun seed_templates :: "tag_env \<Rightarrow> (string \<Rightarrow> bool) \<Rightarrow> string set \<Rightarrow> Template list \<Rightarrow> string set \<Rightarrow> (string \<times> int) list \<Rightarrow> SeedResult \<Rightarrow> tag_db \<Rightarrow>
    (tag_store_error + SeedResult) \<times> tag_db" where
  "seed_templates env fault seeded [] taken groups res db = (Inr res, db)"
| "seed_templates env fault seeded (t # ts) taken groups res db =
     (if tp_BuiltinKey t \<in> seeded then seed_templates env fault seeded ts taken groups (res\<lparr>sr_Skipped := sr_Skipped res @ [tp_Name t]\<rparr>) db
      else if tp_Name t \<in> taken then seed_templates env fault seeded ts taken groups (res\<lparr>sr_Conflicts := sr_Conflicts res @ [tp_Name t]\<rparr>) db
      else case (if tp_MutexGroup t \<noteq> [] then ensureMutexGroup fault (tp_MutexGroup t) groups db else Inr (0, groups, db)) of
             Inl e \<Rightarrow> (Inl e, db)
           | Inr (g, groups1, db1) \<Rightarrow>
               (case te_marshal env (tp_Condition t) of
                  Inl e \<Rightarrow> (Inl e, db1)
                | Inr json \<Rightarrow>
                    (case CreateTag (fault (tp_Name t)) (template_tag t g json) db1 of
                       Inl e \<Rightarrow> (Inl e, db1)
                     | Inr (tag, db2) \<Rightarrow>
                         seed_templates env fault seeded ts (insert (tp_Name t) taken) groups1 (res\<lparr>sr_Created := sr_Created res @ [tp_Name t]\<rparr>) db2)))"

definition SeedTemplates :: "tag_env \<Rightarrow> (string \<Rightarrow> bool) \<Rightarrow> ProviderInfo list \<Rightarrow> tag_db \<Rightarrow> (tag_store_error + SeedResult) \<times> tag_db" where
  "SeedTemplates env fault unlockProviders db =
     (if te_tagsFault env \<or> te_groupsFault env then (Inl ErrTagStore, db)
      else seed_templates env fault (tw_BuiltinKey ` set (ListTags db) - {[]}) (Templates unlockProviders) (st_Name ` set (ListTags db))
        (fold (\<lambda>g. aput (mg_Name g) (mg_ID g)) (ListTagMutexGroups db) []) \<lparr>sr_Created = [], sr_Skipped = [], sr_Conflicts = []\<rparr> db)"

section \<open>Seeding again\<close>

lemma template_keys: "t \<in> set (Templates ps) \<Longrightarrow> tp_BuiltinKey t \<noteq> []"
  by (auto simp: Templates_def unlock_template_def Let_def UnlockTemplateKey_def BuiltinUnlockPrefix_def BuiltinNativeIP_def BuiltinRiskHigh_def
      BuiltinRiskLow_def BuiltinLatencyFast_def BuiltinLatencyOK_def BuiltinLatencySlow_def split: if_splits)

definition covered :: "tag_db \<Rightarrow> Template \<Rightarrow> bool" where
  "covered db t \<longleftrightarrow> tp_BuiltinKey t \<in> tw_BuiltinKey ` set (tb_tags db) \<or> tp_Name t \<in> st_Name ` set (tb_tags db)"

lemma create_tag_adds:
  assumes "CreateTag fault tag db = Inr (tag', db')"
  shows "tw_BuiltinKey ` set (tb_tags db') = insert (tw_BuiltinKey tag) (tw_BuiltinKey ` set (tb_tags db)) \<and>
    st_Name ` set (tb_tags db') = insert (st_Name tag) (st_Name ` set (tb_tags db))"
  using assms by (auto simp: CreateTag_def Let_def split: if_splits)

lemma ensure_group_tags: "ensureMutexGroup fault name cache db = Inr (g, cache', db') \<Longrightarrow> tb_tags db' = tb_tags db"
  by (auto simp: ensureMutexGroup_def CreateTagMutexGroup_def Let_def split: option.splits if_splits)

lemma seed_covers:
  assumes "seed_templates env fault seeded ts taken groups res db = (Inr res', db')"
    and "seeded \<subseteq> tw_BuiltinKey ` set (tb_tags db)" and "taken \<subseteq> st_Name ` set (tb_tags db)"
  shows "tw_BuiltinKey ` set (tb_tags db) \<subseteq> tw_BuiltinKey ` set (tb_tags db') \<and> st_Name ` set (tb_tags db) \<subseteq> st_Name ` set (tb_tags db') \<and>
    (\<forall>t \<in> set ts. covered db' t)"
  using assms
proof (induction ts arbitrary: taken groups res db)
  case (Cons t ts)
  show ?case
  proof (cases "tp_BuiltinKey t \<in> seeded \<or> tp_Name t \<in> taken")
    case True
    then obtain r where "seed_templates env fault seeded ts taken groups r db = (Inr res', db')" using Cons.prems(1) by (auto split: if_splits)
    from Cons.IH [OF this Cons.prems(2,3)] have IH: "tw_BuiltinKey ` set (tb_tags db) \<subseteq> tw_BuiltinKey ` set (tb_tags db')"
      "st_Name ` set (tb_tags db) \<subseteq> st_Name ` set (tb_tags db')" "\<forall>t \<in> set ts. covered db' t" by auto
    have "tp_BuiltinKey t \<in> tw_BuiltinKey ` set (tb_tags db') \<or> tp_Name t \<in> st_Name ` set (tb_tags db')"
      using True Cons.prems(2,3) IH(1,2) by (elim disjE) (auto dest!: subsetD)
    then have "covered db' t" by (simp add: covered_def)
    with IH show ?thesis by simp
  next
    case False
    then obtain g groups1 db1 json tag db2 where
      g: "(if tp_MutexGroup t \<noteq> [] then ensureMutexGroup fault (tp_MutexGroup t) groups db else Inr (0, groups, db)) = Inr (g, groups1, db1)"
      and c: "CreateTag (fault (tp_Name t)) (template_tag t g json) db1 = Inr (tag, db2)"
      and s: "seed_templates env fault seeded ts (insert (tp_Name t) taken) groups1 (res\<lparr>sr_Created := sr_Created res @ [tp_Name t]\<rparr>) db2 = (Inr res', db')"
      using Cons.prems(1) by (auto split: if_splits sum.splits)
    have "tb_tags db1 = tb_tags db" using g ensure_group_tags by (auto split: if_splits)
    with create_tag_adds [OF c] have adds: "tw_BuiltinKey ` set (tb_tags db2) = insert (tp_BuiltinKey t) (tw_BuiltinKey ` set (tb_tags db))"
      "st_Name ` set (tb_tags db2) = insert (tp_Name t) (st_Name ` set (tb_tags db))" by (simp_all add: template_tag_def)
    have "seeded \<subseteq> tw_BuiltinKey ` set (tb_tags db2)" "insert (tp_Name t) taken \<subseteq> st_Name ` set (tb_tags db2)" using Cons.prems(2,3) adds by auto
    from Cons.IH [OF s this] adds show ?thesis by (auto simp: covered_def)
  qed
qed simp

lemma seed_nothing:
  assumes "\<forall>t \<in> set ts. tp_BuiltinKey t \<in> seeded \<or> tp_Name t \<in> taken"
  shows "\<exists>res'. seed_templates env fault seeded ts taken groups res db = (Inr res', db) \<and> sr_Created res' = sr_Created res"
  using assms
proof (induction ts arbitrary: res)
  case (Cons t ts)
  then have IH: "\<exists>res'. seed_templates env fault seeded ts taken groups r db = (Inr res', db) \<and> sr_Created res' = sr_Created r" for r by simp
  show ?case using IH [of "res\<lparr>sr_Skipped := sr_Skipped res @ [tp_Name t]\<rparr>"] IH [of "res\<lparr>sr_Conflicts := sr_Conflicts res @ [tp_Name t]\<rparr>"] Cons.prems by auto
qed simp

text \<open>C29: seeding twice is seeding once. After a seeding that succeeded, a second one, with any codec and any write fault, succeeds, creates
  nothing and changes nothing: every builtin tag is already there by its key or its name is taken.\<close>

theorem seeding_is_idempotent:
  assumes "SeedTemplates env fault ps db = (Inr res, db')" and "\<not> te_tagsFault env'" and "\<not> te_groupsFault env'"
  shows "\<exists>res'. SeedTemplates env' fault' ps db' = (Inr res', db') \<and> sr_Created res' = []"
proof -
  have set_list: "set (ListTags d) = set (tb_tags d)" for d by (simp add: ListTags_def)
  have "\<forall>t \<in> set (Templates ps). covered db' t"
    using seed_covers assms(1) by (auto simp: SeedTemplates_def set_list split: if_splits)
  then have "\<forall>t \<in> set (Templates ps). tp_BuiltinKey t \<in> tw_BuiltinKey ` set (tb_tags db') - {[]} \<or> tp_Name t \<in> st_Name ` set (tb_tags db')"
    using template_keys by (auto simp: covered_def)
  from seed_nothing [OF this, of env' fault' _ "\<lparr>sr_Created = [], sr_Skipped = [], sr_Conflicts = []\<rparr>" db'] show ?thesis
    using assms(2,3) by (simp add: SeedTemplates_def set_list)
qed

text \<open>Without faults seeding succeeds: a name is created only when it is free, and a group is created only when it is missing.\<close>

definition cache_ok :: "(string \<times> int) list \<Rightarrow> tag_db \<Rightarrow> bool" where
  "cache_ok groups db \<longleftrightarrow> (\<forall>n i. map_of groups n = Some i \<longrightarrow> group_known db i) \<and> (\<forall>n. map_of groups n = None \<longrightarrow> n \<notin> mg_Name ` set (tb_groups db))"

lemma ensure_group_succeeds:
  assumes "cache_ok groups db" and "\<not> fault name"
  shows "\<exists>g groups1 db1. ensureMutexGroup fault name groups db = Inr (g, groups1, db1) \<and> tb_tags db1 = tb_tags db \<and> group_known db1 g \<and> cache_ok groups1 db1"
proof (cases "map_of groups name")
  case None
  then have "name \<notin> mg_Name ` set (tb_groups db)" using assms(1) by (simp add: cache_ok_def)
  then show ?thesis using assms None
    by (auto simp: ensureMutexGroup_def CreateTagMutexGroup_def Let_def cache_ok_def group_known_def)
qed (use assms in \<open>auto simp: ensureMutexGroup_def cache_ok_def\<close>)

lemma seed_succeeds:
  assumes "\<And>n. \<not> fault n" and "\<And>c. \<exists>j. te_marshal env c = Inr j" and "taken = st_Name ` set (tb_tags db)" and "cache_ok groups db"
  shows "\<exists>res' db'. seed_templates env fault seeded ts taken groups res db = (Inr res', db')"
  using assms(3,4)
proof (induction ts arbitrary: taken groups res db)
  case (Cons t ts)
  show ?case
  proof (cases "tp_BuiltinKey t \<in> seeded \<or> tp_Name t \<in> taken")
    case True
    then show ?thesis using Cons.IH [OF Cons.prems] by auto
  next
    case False
    obtain g groups1 db1 where g: "(if tp_MutexGroup t \<noteq> [] then ensureMutexGroup fault (tp_MutexGroup t) groups db else Inr (0, groups, db)) = Inr (g, groups1, db1)"
      and d: "tb_tags db1 = tb_tags db" "mutex_ok db1 g" "cache_ok groups1 db1"
      using ensure_group_succeeds [of groups db fault "tp_MutexGroup t"] Cons.prems(2) assms(1) by (cases "tp_MutexGroup t = []") (auto simp: mutex_ok_def nullableID_def)
    obtain json where j: "te_marshal env (tp_Condition t) = Inr json" using assms(2) by blast
    have "st_Name (template_tag t g json) \<notin> st_Name ` set (tb_tags db1)" "mutex_ok db1 (st_MutexGroupID (template_tag t g json))"
      using False Cons.prems(1) d by (auto simp: template_tag_def)
    then obtain tag db2 where c: "CreateTag (fault (tp_Name t)) (template_tag t g json) db1 = Inr (tag, db2)" and gr: "tb_groups db2 = tb_groups db1"
      using assms(1) by (auto simp: CreateTag_def Let_def)
    have "insert (tp_Name t) taken = st_Name ` set (tb_tags db2)" using create_tag_adds [OF c] Cons.prems(1) d(1) by (simp add: template_tag_def)
    moreover have "cache_ok groups1 db2" using d(3) gr by (simp add: cache_ok_def group_known_def)
    ultimately show ?thesis using Cons.IH [of "insert (tp_Name t) taken" db2 groups1] False g j c by (auto simp del: fun_upd_apply)
  qed
qed simp

theorem seeding_is_idempotent_witness:
  "\<exists>res res' db'. SeedTemplates demo_tag_env (\<lambda>_. False) [] demo_tags = (Inr res, db') \<and>
     SeedTemplates demo_tag_env (\<lambda>_. True) [] db' = (Inr res', db') \<and> sr_Created res' = []"
proof -
  have "\<exists>res db'. SeedTemplates demo_tag_env (\<lambda>_. False) [] demo_tags = (Inr res, db')"
  proof -
    have "cache_ok (fold (\<lambda>g. aput (mg_Name g) (mg_ID g)) (ListTagMutexGroups demo_tags) []) demo_tags"
      by (simp add: ListTagMutexGroups_def demo_tags_def cache_ok_def)
    moreover have "st_Name ` set (ListTags demo_tags) = st_Name ` set (tb_tags demo_tags)" by (simp add: ListTags_def)
    moreover have "\<exists>j. te_marshal demo_tag_env c = Inr j" for c by (simp add: demo_tag_env_def)
    moreover have "\<not> (te_tagsFault demo_tag_env \<or> te_groupsFault demo_tag_env)" by (simp add: demo_tag_env_def)
    ultimately show ?thesis unfolding SeedTemplates_def using seed_succeeds [of "\<lambda>_. False" demo_tag_env] by presburger
  qed
  then obtain res db' where s: "SeedTemplates demo_tag_env (\<lambda>_. False) [] demo_tags = (Inr res, db')" by blast
  from seeding_is_idempotent [OF s, of demo_tag_env "\<lambda>_. True"] s show ?thesis by (auto simp: demo_tag_env_def)
qed

end
