(* ===== verification/Tag_Preview.thy ===== *)
theory Tag_Preview
  imports Tag_Service
begin

text \<open>
  The preview of an unsaved rule, \<open>Preview\<close> of \<open>src/internal/nodetag/service.go\<close>. It reads and writes nothing, and the theory shows what its counts and
  its page of examples promise.
\<close>

definition DefaultPreviewLimit :: int where "DefaultPreviewLimit = 50"
definition MaxPreviewLimit :: int where "MaxPreviewLimit = 200"
definition draftTagID :: int where "draftTagID = 2 ^ 62"

record PreviewRequest =
  pq_Condition :: Condition
  pq_TagID :: int
  pq_MutexGroupID :: int
  pq_Priority :: int
  pq_NodeIDs :: "int list option"
  pq_Limit :: int

record PreviewNode =
  pn_NodeID :: node_id
  pn_Name :: string
  pn_Region :: string
  pn_Matched :: bool
  pn_Applied :: bool
  pn_Shadowed :: "ShadowNote option"
  pn_Facts :: "(string \<times> string) list"

record PreviewResult =
  pv_TotalNodes :: int
  pv_MatchCount :: int
  pv_AppliedCount :: int
  pv_ShadowedCount :: int
  pv_UnknownCount :: int
  pv_Fields :: "string list"
  pv_Samples :: "PreviewNode list"

datatype preview_error = BadRule rule_error | PreviewStore tag_store_error

definition ReferencedFields :: "Condition \<Rightarrow> string list" where "ReferencedFields c = sort (remdups (collectFields c))"

definition containsTagID :: "int list \<Rightarrow> int \<Rightarrow> bool" where "containsTagID ids wanted \<longleftrightarrow> wanted \<in> set ids"

definition shadowNoteFor :: "ShadowNote list \<Rightarrow> int \<Rightarrow> ShadowNote option" where "shadowNoteFor notes i = find (\<lambda>n. sh_TagID n = i) notes"

definition missingFact :: "NodeFacts \<Rightarrow> string list \<Rightarrow> bool" where "missingFact facts names \<longleftrightarrow> (\<exists>f \<in> set names. \<not> va_Known (fact_value facts f))"

definition preview_limit :: "PreviewRequest \<Rightarrow> int" where
  "preview_limit r = min MaxPreviewLimit (if pq_Limit r \<le> 0 then DefaultPreviewLimit else pq_Limit r)"

text \<open>The draft as a rule; the name of a rule without a tag is the text \<open>noName\<close>.\<close>

definition draft_rule :: "string \<Rightarrow> PreviewRequest \<Rightarrow> (int \<times> TagMeta) list \<Rightarrow> Rule" where
  "draft_rule noName r meta = \<lparr>ru_Meta = \<lparr>tm_TagID = draftTagID,
     tm_Name = (case map_of meta (pq_TagID r) of Some m \<Rightarrow> if pq_TagID r \<noteq> 0 then tm_Name m else noName | None \<Rightarrow> noName),
     tm_MutexGroupID = pq_MutexGroupID r, tm_Priority = pq_Priority r\<rparr>, ru_Version = 0, ru_Condition = pq_Condition r\<rparr>"

definition draft_meta :: "string \<Rightarrow> PreviewRequest \<Rightarrow> (int \<times> TagMeta) list \<Rightarrow> (int \<times> TagMeta) list" where
  "draft_meta noName r meta =
     (let d = ru_Meta (draft_rule noName r meta);
          meta1 = (if map_of meta (pq_TagID r) \<noteq> None \<and> pq_TagID r \<noteq> 0 then aput (pq_TagID r) (d\<lparr>tm_TagID := pq_TagID r\<rparr>) meta else meta)
      in aput draftTagID d meta1)"

definition preview_node :: "tag_env \<Rightarrow> tag_db \<Rightarrow> PreviewRequest \<Rightarrow> Rule list \<Rightarrow> Rule \<Rightarrow> (int \<times> TagMeta) list \<Rightarrow> NodeFacts \<Rightarrow> rule_error + PreviewNode" where
  "preview_node env db r others draft meta facts = (case Evaluate (te_tables env) (te_lib env) (pq_Condition r) facts (te_now env) of
     Inl e \<Rightarrow> Inl e
   | Inr matched \<Rightarrow>
       let decision = Resolve (nf_NodeID facts) (match_rules env facts others @ [draft]) (assignments db (pq_NodeIDs r) Manual_Source (nf_NodeID facts)) meta;
           contested = (matched \<and> pq_MutexGroupID r \<noteq> 0);
           applied = (if contested then containsTagID (td_TagIDs decision) draftTagID else matched)
       in Inr \<lparr>pn_NodeID = nf_NodeID facts, pn_Name = nf_Name facts, pn_Region = nf_Region facts, pn_Matched = matched, pn_Applied = applied,
            pn_Shadowed = (if contested \<and> \<not> applied then shadowNoteFor (td_Shadowed decision) draftTagID else None),
            pn_Facts = map (\<lambda>f. (f, Display (fact_value facts f))) (ReferencedFields (pq_Condition r))\<rparr>)"

definition count_node :: "NodeFacts \<Rightarrow> PreviewNode \<Rightarrow> PreviewResult \<Rightarrow> PreviewResult" where
  "count_node facts p v =
     (if pn_Matched p then (if pn_Applied p then v\<lparr>pv_MatchCount := pv_MatchCount v + 1, pv_AppliedCount := pv_AppliedCount v + 1\<rparr>
                            else v\<lparr>pv_MatchCount := pv_MatchCount v + 1, pv_ShadowedCount := pv_ShadowedCount v + 1\<rparr>)
      else if missingFact facts (pv_Fields v) then v\<lparr>pv_UnknownCount := pv_UnknownCount v + 1\<rparr> else v)"

fun preview_loop :: "(NodeFacts \<Rightarrow> rule_error + PreviewNode) \<Rightarrow> int \<Rightarrow> NodeFacts list \<Rightarrow> PreviewResult \<Rightarrow> PreviewNode list \<Rightarrow> rule_error + PreviewResult \<times> PreviewNode list" where
  "preview_loop look limit [] v fill = Inr (v, fill)"
| "preview_loop look limit (f # fs) v fill = (case look f of
     Inl e \<Rightarrow> Inl e
   | Inr p \<Rightarrow>
       let v1 = count_node f p v
       in if pn_Matched p \<and> int (length (pv_Samples v1)) < limit then preview_loop look limit fs (v1\<lparr>pv_Samples := pv_Samples v1 @ [p]\<rparr>) fill
          else if \<not> pn_Matched p \<and> int (length fill) < limit then preview_loop look limit fs v1 (fill @ [p])
          else preview_loop look limit fs v1 fill)"

definition Preview :: "tag_env \<Rightarrow> Registry \<Rightarrow> Limits \<Rightarrow> string \<Rightarrow> PreviewRequest \<Rightarrow> tag_db \<Rightarrow> preview_error + PreviewResult" where
  "Preview env registry limits noName r db = (case ValidateRule (te_lib env) registry limits (pq_Condition r) of
     Some e \<Rightarrow> Inl (BadRule e)
   | None \<Rightarrow>
       if te_tagsFault env \<or> te_manualFault env then Inl (PreviewStore ErrTagStore)
       else let (stored, meta) = compiled env db; limit = preview_limit r;
                others = filter (\<lambda>q. \<not> (pq_TagID r \<noteq> 0 \<and> rule_tag q = pq_TagID r)) stored
            in case te_load env db (pq_NodeIDs r) of
                 Inl e \<Rightarrow> Inl (PreviewStore e)
               | Inr factSets \<Rightarrow>
                   (case preview_loop (preview_node env db r others (draft_rule noName r meta) (draft_meta noName r meta)) limit factSets
                           \<lparr>pv_TotalNodes = int (length factSets), pv_MatchCount = 0, pv_AppliedCount = 0, pv_ShadowedCount = 0, pv_UnknownCount = 0,
                            pv_Fields = ReferencedFields (pq_Condition r), pv_Samples = []\<rparr> [] of
                      Inl e \<Rightarrow> Inl (BadRule e)
                    | Inr (v, fill) \<Rightarrow> Inr (v\<lparr>pv_Samples := pv_Samples v @ take (nat (limit - int (length (pv_Samples v)))) fill\<rparr>)))"

section \<open>What a preview reports\<close>

definition preview_ok :: "int \<Rightarrow> int \<Rightarrow> PreviewResult \<Rightarrow> bool" where
  "preview_ok seen limit v \<longleftrightarrow> pv_MatchCount v = pv_AppliedCount v + pv_ShadowedCount v \<and> 0 \<le> pv_AppliedCount v \<and> 0 \<le> pv_ShadowedCount v \<and> 0 \<le> pv_UnknownCount v \<and>
     pv_MatchCount v + pv_UnknownCount v \<le> seen \<and> list_all pn_Matched (pv_Samples v) \<and> int (length (pv_Samples v)) = min limit (pv_MatchCount v)"

lemma preview_loop_ok:
  assumes "preview_loop look limit fs v fill = Inr (v', fill')" and "preview_ok seen limit v" and "0 < limit" and "list_all (\<lambda>p. \<not> pn_Matched p) fill"
  shows "preview_ok (seen + int (length fs)) limit v' \<and> pv_TotalNodes v' = pv_TotalNodes v \<and> list_all (\<lambda>p. \<not> pn_Matched p) fill'"
  using assms
proof (induction look limit fs v fill arbitrary: seen rule: preview_loop.induct)
  case (2 look limit f fs v fill)
  obtain p where p: "look f = Inr p" using "2.prems"(1) by (cases "look f") auto
  have c: "pv_Samples (count_node f p v) = pv_Samples v" "pv_TotalNodes (count_node f p v) = pv_TotalNodes v" by (auto simp: count_node_def)
  consider (m) "pn_Matched p" "int (length (pv_Samples v)) < limit" | (u) "\<not> pn_Matched p" "int (length fill) < limit"
    | (n) "\<not> (pn_Matched p \<and> int (length (pv_Samples v)) < limit)" "\<not> (\<not> pn_Matched p \<and> int (length fill) < limit)" by blast
  then show ?case
  proof cases
    case m
    have "preview_ok (seen + 1) limit ((count_node f p v)\<lparr>pv_Samples := pv_Samples v @ [p]\<rparr>)" using "2.prems"(2) m by (auto simp: preview_ok_def count_node_def)
    with "2.IH"(1) [OF p refl] "2.prems"(1,3,4) m p c show ?thesis by (fastforce simp: add.assoc)
  next
    case u
    have "preview_ok (seen + 1) limit (count_node f p v)" using "2.prems"(2) u by (auto simp: preview_ok_def count_node_def)
    with "2.IH"(2) [OF p refl] "2.prems"(1,3,4) u p c show ?thesis by (fastforce simp: add.assoc)
  next
    case n
    have "preview_ok (seen + 1) limit (count_node f p v)" using "2.prems"(2) n by (auto simp: preview_ok_def count_node_def)
    with "2.IH"(3) [OF p refl] "2.prems"(1,3,4) n p c show ?thesis by (fastforce simp: add.assoc)
  qed
qed simp

text \<open>The counts of a preview add up, its page holds at most 200 nodes and never more than asked for, and every matching node that fits comes before any other.\<close>

theorem preview_counts:
  assumes "Preview env registry limits noName r db = Inr v"
  shows "pv_MatchCount v = pv_AppliedCount v + pv_ShadowedCount v \<and> pv_MatchCount v + pv_UnknownCount v \<le> pv_TotalNodes v \<and>
    int (length (pv_Samples v)) \<le> preview_limit r \<and> preview_limit r \<le> 200 \<and>
    int (length (filter pn_Matched (pv_Samples v))) = min (preview_limit r) (pv_MatchCount v)"
proof -
  have lim: "0 < preview_limit r" "preview_limit r \<le> 200" by (auto simp: preview_limit_def MaxPreviewLimit_def DefaultPreviewLimit_def)
  obtain look factSets w fill where l: "preview_loop look (preview_limit r) factSets
      \<lparr>pv_TotalNodes = int (length factSets), pv_MatchCount = 0, pv_AppliedCount = 0, pv_ShadowedCount = 0, pv_UnknownCount = 0,
       pv_Fields = ReferencedFields (pq_Condition r), pv_Samples = []\<rparr> [] = Inr (w, fill)"
    and v: "v = w\<lparr>pv_Samples := pv_Samples w @ take (nat (preview_limit r - int (length (pv_Samples w)))) fill\<rparr>"
    using assms by (auto simp: Preview_def Let_def split: option.splits if_splits sum.splits prod.splits)
  have ok: "preview_ok (0 + int (length factSets)) (preview_limit r) w \<and> pv_TotalNodes w = int (length factSets) \<and> list_all (\<lambda>p. \<not> pn_Matched p) fill"
    using preview_loop_ok [OF l, of 0] lim(1) by (simp add: preview_ok_def)
  have "filter pn_Matched (take k fill) = []" for k using ok by (auto simp: list_all_iff filter_empty_conv dest: in_set_takeD)
  moreover have "filter pn_Matched (pv_Samples w) = pv_Samples w" using ok by (simp add: preview_ok_def list_all_iff)
  ultimately show ?thesis using lim ok by (auto simp: v preview_ok_def)
qed

end
