(* ===== verification/Tag_Queue.thy ===== *)
theory Tag_Queue
  imports Prelude
begin

text \<open>
  The queue in front of the tag service, \<open>src/internal/nodetag/queue.go\<close>: a bounded channel of node identifiers that senders never
  block on, an overflow flag, and one worker that collects a batch, waits for a quiet period and recomputes. Senders are serialised by
  the mutex of the queue; the worker receives without it, so a step is one access to the channel, the flag or the batch. \<open>ts_owed\<close> are the
  requests no recomputation has begun to serve, \<open>ts_serving\<close> those the running one serves.
\<close>

definition DefaultDebounce :: duration where "DefaultDebounce = 2 * second"
definition DefaultSweepInterval :: duration where "DefaultSweepInterval = 10 * minute"
definition defaultQueueBuffer :: nat where "defaultQueueBuffer = 1024"
definition allNodes :: int where "allNodes = 0"
definition maxWaitAbsolute :: duration where "maxWaitAbsolute = 30 * second"

record Queue =
  qu_events :: "int list"
  qu_buffer :: nat
  qu_debounce :: duration
  qu_sweep :: duration
  qu_overflow :: bool
  qu_closed :: bool
  qu_pending :: "int list"
  qu_full :: bool
  qu_firstEvent :: gtime
  qu_deadline :: "gtime option"

datatype QueueOption = WithDebounce duration | WithSweepInterval duration | WithQueueBuffer nat

fun apply_option :: "QueueOption \<Rightarrow> Queue \<Rightarrow> Queue" where
  "apply_option (WithDebounce d) q = (if d > 0 then q\<lparr>qu_debounce := d\<rparr> else q)"
| "apply_option (WithSweepInterval d) q = (if d > 0 then q\<lparr>qu_sweep := d\<rparr> else q)"
| "apply_option (WithQueueBuffer n) q = (if n > 0 then q\<lparr>qu_buffer := n\<rparr> else q)"

definition NewQueue :: "QueueOption list \<Rightarrow> Queue" where
  "NewQueue options = fold apply_option options \<lparr>qu_events = [], qu_buffer = defaultQueueBuffer, qu_debounce = DefaultDebounce, qu_sweep = DefaultSweepInterval,
     qu_overflow = False, qu_closed = False, qu_pending = [], qu_full = False, qu_firstEvent = zero_time, qu_deadline = None\<rparr>"

section \<open>The worker\<close>

definition maxWait :: "Queue \<Rightarrow> duration" where "maxWait q = min (qu_debounce q * 16) maxWaitAbsolute"

definition quiet_period :: "gtime \<Rightarrow> Queue \<Rightarrow> duration" where
  "quiet_period now q = (let age = time_sub now (qu_firstEvent q)
     in if age + qu_debounce q > maxWait q then max millisecond (maxWait q - age) else qu_debounce q)"

definition receive_event :: "int \<Rightarrow> gtime \<Rightarrow> Queue \<Rightarrow> Queue" where
  "receive_event nodeID now q =
     (let q1 = (if nodeID = allNodes then q\<lparr>qu_full := True\<rparr> else q\<lparr>qu_pending := List.insert nodeID (qu_pending q)\<rparr>);
          q2 = q1\<lparr>qu_full := (qu_full q1 \<or> qu_overflow q1), qu_overflow := False\<rparr>;
          q3 = (if is_zero_time (qu_firstEvent q2) then q2\<lparr>qu_firstEvent := now\<rparr> else q2)
      in q3\<lparr>qu_deadline := Some (now + quiet_period now q3)\<rparr>)"

text \<open>A flush recomputes all nodes, or those of the batch in order; an empty batch needs none. \<open>flushed\<close> and \<open>swept\<close> are what becomes of the batch.\<close>

definition flush_request :: "bool \<Rightarrow> Queue \<Rightarrow> int list option option" where
  "flush_request full q = (if full then Some None else if qu_pending q = [] then None else Some (Some (sort (qu_pending q))))"

definition batch_done :: "Queue \<Rightarrow> Queue" where
  "batch_done q = q\<lparr>qu_pending := [], qu_full := False, qu_firstEvent := zero_time\<rparr>"

definition flushed :: "bool \<Rightarrow> gtime \<Rightarrow> Queue \<Rightarrow> Queue" where
  "flushed ok now q = (if ok then batch_done q else q\<lparr>qu_deadline := Some (now + qu_debounce q)\<rparr>)"

definition swept :: "bool \<Rightarrow> gtime \<Rightarrow> Queue \<Rightarrow> Queue" where
  "swept ok now q = (if ok then batch_done q else q\<lparr>qu_full := True, qu_deadline := Some (now + qu_debounce q)\<rparr>)"

section \<open>Senders and worker together\<close>

datatype flush_kind = Timer_Flush | Sweep_Flush | Last_Flush

datatype worker = Waiting | Flushing flush_kind | Stopped

text \<open>A sender holds the mutex while it sends the identifiers left; \<open>Overflowing\<close> has found the channel full and not yet set the flag.\<close>

datatype sender = No_Sender | Sending "int list" | Overflowing "int list"

record queue_system =
  ts_queue :: Queue
  ts_sender :: sender
  ts_worker :: worker
  ts_cancelled :: bool
  ts_failed :: bool
  ts_owed :: "int set"
  ts_serving :: "int set"

definition on_queue :: "(Queue \<Rightarrow> Queue) \<Rightarrow> queue_system \<Rightarrow> queue_system" where
  "on_queue f y = y\<lparr>ts_queue := f (ts_queue y)\<rparr>"

definition Enqueue :: "int list \<Rightarrow> queue_system \<Rightarrow> queue_system" where
  "Enqueue nodeIDs y = (if nodeIDs = [] \<or> qu_closed (ts_queue y) then y
     else let ids = filter (\<lambda>i. i > 0) nodeIDs in y\<lparr>ts_sender := Sending ids, ts_owed := ts_owed y \<union> set ids\<rparr>)"

definition EnqueueAll :: "queue_system \<Rightarrow> queue_system" where
  "EnqueueAll y = (if qu_closed (ts_queue y) then y else y\<lparr>ts_sender := Sending [allNodes], ts_owed := insert allNodes (ts_owed y)\<rparr>)"

definition begin_flush :: "flush_kind \<Rightarrow> queue_system \<Rightarrow> queue_system" where
  "begin_flush kind y =
     (let full = (qu_full (ts_queue y) \<or> kind = Sweep_Flush); served = (if full then ts_owed y else ts_owed y \<inter> set (qu_pending (ts_queue y)))
      in on_queue (\<lambda>q. q\<lparr>qu_deadline := None\<rparr>) (y\<lparr>ts_worker := Flushing kind, ts_serving := served, ts_owed := ts_owed y - served\<rparr>))"

text \<open>The end of a flush; whether a recomputation succeeds is up to the service.\<close>

definition end_flush :: "flush_kind \<Rightarrow> bool \<Rightarrow> gtime \<Rightarrow> queue_system \<Rightarrow> queue_system" where
  "end_flush kind ok now y =
     (let y1 = y\<lparr>ts_owed := (if ok then ts_owed y else ts_owed y \<union> ts_serving y), ts_serving := {}, ts_failed := (ts_failed y \<or> \<not> ok)\<rparr>
      in case kind of
           Timer_Flush \<Rightarrow> on_queue (flushed ok now) (y1\<lparr>ts_worker := Waiting\<rparr>)
         | Sweep_Flush \<Rightarrow> on_queue (swept ok now) (y1\<lparr>ts_worker := Waiting\<rparr>)
         | Last_Flush \<Rightarrow> y1\<lparr>ts_worker := Stopped\<rparr>)"

inductive queue_step :: "queue_system \<Rightarrow> queue_system \<Rightarrow> bool" where
  requests: "ts_sender y = No_Sender \<Longrightarrow> queue_step y (Enqueue ids y)"
| requests_all: "ts_sender y = No_Sender \<Longrightarrow> queue_step y (EnqueueAll y)"
| sends: "ts_sender y = Sending (i # is_left) \<Longrightarrow> length (qu_events (ts_queue y)) < qu_buffer (ts_queue y) \<Longrightarrow>
    queue_step y (on_queue (\<lambda>q. q\<lparr>qu_events := qu_events q @ [i]\<rparr>) (y\<lparr>ts_sender := Sending is_left\<rparr>))"
| finds_full: "ts_sender y = Sending (i # is_left) \<Longrightarrow> \<not> length (qu_events (ts_queue y)) < qu_buffer (ts_queue y) \<Longrightarrow>
    queue_step y (y\<lparr>ts_sender := Overflowing is_left\<rparr>)"
| flags: "ts_sender y = Overflowing is_left \<Longrightarrow> queue_step y (on_queue (\<lambda>q. q\<lparr>qu_overflow := True\<rparr>) (y\<lparr>ts_sender := Sending is_left\<rparr>))"
| sent: "ts_sender y = Sending [] \<Longrightarrow> queue_step y (y\<lparr>ts_sender := No_Sender\<rparr>)"
| closes: "ts_sender y = No_Sender \<Longrightarrow> queue_step y (on_queue (\<lambda>q. q\<lparr>qu_closed := True\<rparr>) y)"
| cancels: "queue_step y (y\<lparr>ts_cancelled := True\<rparr>)"
| receives: "ts_worker y = Waiting \<Longrightarrow> qu_events (ts_queue y) = i # es \<Longrightarrow> queue_step y (on_queue (\<lambda>q. receive_event i now (q\<lparr>qu_events := es\<rparr>)) y)"
| deadline: "ts_worker y = Waiting \<Longrightarrow> qu_deadline (ts_queue y) = Some d \<Longrightarrow> queue_step y (begin_flush Timer_Flush y)"
| sweep: "ts_worker y = Waiting \<Longrightarrow> queue_step y (begin_flush Sweep_Flush y)"
| drained: "ts_worker y = Waiting \<Longrightarrow> qu_closed (ts_queue y) \<Longrightarrow> qu_events (ts_queue y) = [] \<Longrightarrow> queue_step y (begin_flush Last_Flush y)"
| finishes: "ts_worker y = Flushing kind \<Longrightarrow> flush_request (qu_full (ts_queue y) \<or> kind = Sweep_Flush) (ts_queue y) = None \<longrightarrow> ok = (\<not> ts_cancelled y) \<Longrightarrow>
    queue_step y (end_flush kind ok now y)"
| stops: "ts_worker y = Waiting \<Longrightarrow> ts_cancelled y \<Longrightarrow> queue_step y (y\<lparr>ts_worker := Stopped\<rparr>)"

definition queue_start :: "QueueOption list \<Rightarrow> queue_system" where
  "queue_start options = \<lparr>ts_queue = NewQueue options, ts_sender = No_Sender, ts_worker = Waiting, ts_cancelled = False, ts_failed = False, ts_owed = {}, ts_serving = {}\<rparr>"

section \<open>No request is forgotten\<close>

fun held :: "sender \<Rightarrow> int \<Rightarrow> bool" where
  "held No_Sender i = False"
| "held (Sending ids) i = (i \<in> set ids \<or> allNodes \<in> set ids)"
| "held (Overflowing ids) i = True"

definition on_way :: "queue_system \<Rightarrow> int \<Rightarrow> bool" where
  "on_way y i \<longleftrightarrow> i \<in> set (qu_events (ts_queue y)) \<or> allNodes \<in> set (qu_events (ts_queue y)) \<or> qu_overflow (ts_queue y) \<or> held (ts_sender y) i"

definition in_batch :: "queue_system \<Rightarrow> int \<Rightarrow> bool" where
  "in_batch y i \<longleftrightarrow> qu_full (ts_queue y) \<or> i \<in> set (qu_pending (ts_queue y))"

definition queue_ok :: "queue_system \<Rightarrow> bool" where
  "queue_ok y \<longleftrightarrow> (case ts_worker y of
       Waiting \<Rightarrow> ts_serving y = {} \<and> (\<forall>i \<in> ts_owed y. on_way y i \<or> in_batch y i) \<and>
         (qu_full (ts_queue y) \<or> qu_pending (ts_queue y) \<noteq> [] \<longrightarrow> qu_deadline (ts_queue y) \<noteq> None)
     | Flushing kind \<Rightarrow> (\<forall>i \<in> ts_owed y. on_way y i) \<and> (\<forall>i \<in> ts_serving y. kind = Sweep_Flush \<or> in_batch y i)
     | Stopped \<Rightarrow> True)"

named_theorems queue_defs \<open>the accesses of senders and worker\<close>

declare queue_ok_def [queue_defs] on_way_def [queue_defs] in_batch_def [queue_defs] on_queue_def [queue_defs]

lemma queue_ok_sender:
  assumes "queue_ok y" and "qu_pending (ts_queue y') = qu_pending (ts_queue y)" and "qu_full (ts_queue y') = qu_full (ts_queue y)"
    and "qu_deadline (ts_queue y') = qu_deadline (ts_queue y)" and "ts_worker y' = ts_worker y" and "ts_serving y' = ts_serving y"
    and "\<And>i. i \<in> ts_owed y' \<Longrightarrow> on_way y' i \<or> i \<in> ts_owed y \<and> \<not> on_way y i"
  shows "queue_ok y'"
proof (cases "ts_worker y")
  case Waiting
  then show ?thesis using assms(1,7) unfolding queue_ok_def in_batch_def assms(2-6) Waiting worker.case by blast
next
  case (Flushing kind)
  then show ?thesis using assms(1,7) unfolding queue_ok_def in_batch_def assms(2-6) Flushing worker.case by blast
qed (simp add: queue_ok_def assms(5))

lemma receive_effect:
  "qu_full (receive_event i now q) = (qu_full q \<or> i = allNodes \<or> qu_overflow q)"
  "set (qu_pending (receive_event i now q)) = (if i = allNodes then set (qu_pending q) else insert i (set (qu_pending q)))"
  "qu_events (receive_event i now q) = qu_events q" "\<not> qu_overflow (receive_event i now q)" "qu_deadline (receive_event i now q) \<noteq> None"
  by (auto simp: receive_event_def Let_def)

lemma queue_ok_step:
  assumes "queue_ok y" and "queue_step y y'"
  shows "queue_ok y'"
  using assms(2,1)
proof cases
  case (requests ids)
  then show ?thesis by (intro queue_ok_sender [OF assms(1)]) (auto simp: Enqueue_def Let_def on_way_def)
next
  case requests_all
  then show ?thesis by (intro queue_ok_sender [OF assms(1)]) (auto simp: EnqueueAll_def on_way_def)
next
  case (sends i is_left)
  then show ?thesis by (intro queue_ok_sender [OF assms(1)]) (auto simp: on_way_def on_queue_def)
next
  case (finds_full i is_left)
  then show ?thesis by (intro queue_ok_sender [OF assms(1)]) (auto simp: on_way_def)
next
  case (flags is_left)
  then show ?thesis by (intro queue_ok_sender [OF assms(1)]) (auto simp: on_way_def on_queue_def)
next
  case sent
  then show ?thesis by (intro queue_ok_sender [OF assms(1)]) (auto simp: on_way_def)
next
  case closes
  then show ?thesis by (intro queue_ok_sender [OF assms(1)]) (auto simp: on_way_def on_queue_def)
next
  case cancels
  then show ?thesis by (intro queue_ok_sender [OF assms(1)]) (auto simp: on_way_def)
next
  case (receives i es now)
  then show ?thesis using assms(1) by (auto simp: queue_defs receive_effect)
next
  case (finishes kind ok now)
  then show ?thesis using assms(1)
    by (cases kind; cases ok) (auto simp: queue_defs end_flush_def flushed_def swept_def batch_done_def)
next
  case stops
  then show ?thesis by (simp add: queue_ok_def)
qed (use assms(1) in \<open>auto simp: queue_defs begin_flush_def Let_def split: if_splits\<close>)

lemma options_keep: "qu_full (fold apply_option options q) = qu_full q \<and> qu_pending (fold apply_option options q) = qu_pending q"
proof (induction options arbitrary: q)
  case (Cons a options)
  show ?case using Cons.IH by (cases a) auto
qed simp

interpretation tag_queue: inductive_invariant "queue_start options" queue_step queue_ok
proof
  show "queue_ok (queue_start options)" by (simp add: queue_start_def queue_ok_def NewQueue_def options_keep)
qed (rule queue_ok_step)


text \<open>The timer of a batch is never set further than the longest wait after its first event, or a millisecond from now.\<close>

lemma deadline_bound:
  assumes "0 < qu_debounce q" and "is_zero_time (qu_firstEvent q) \<or> qu_firstEvent q \<le> now \<and> now - qu_firstEvent q \<le> max_duration" and "q' = receive_event i now q"
  shows "\<exists>d. qu_deadline q' = Some d \<and> now < d \<and> d \<le> max (qu_firstEvent q' + maxWait q) (now + millisecond)"
proof -
  define q3 where "q3 = q'\<lparr>qu_deadline := qu_deadline q\<rparr>"
  have f: "qu_firstEvent q3 = qu_firstEvent q'" "qu_debounce q3 = qu_debounce q" "maxWait q3 = maxWait q"
    by (auto simp: q3_def assms(3) receive_event_def Let_def maxWait_def)
  have d: "qu_deadline q' = Some (now + quiet_period now q3)"
    by (auto simp: q3_def assms(3) receive_event_def Let_def quiet_period_def maxWait_def)
  have first: "qu_firstEvent q' \<le> now \<and> now - qu_firstEvent q' \<le> max_duration"
    using assms(2) by (auto simp: assms(3) receive_event_def Let_def max_duration_def)
  then have age: "time_sub now (qu_firstEvent q') = now - qu_firstEvent q'" by (simp add: time_sub_def min_duration_def)
  show ?thesis unfolding d using assms(1) by (auto simp: quiet_period_def f age Let_def millisecond_def)
qed

section \<open>A request lost at close\<close>

definition demo_queue :: "int list \<Rightarrow> bool \<Rightarrow> bool \<Rightarrow> int list \<Rightarrow> gtime \<Rightarrow> gtime option \<Rightarrow> sender \<Rightarrow> worker \<Rightarrow> int set \<Rightarrow> int set \<Rightarrow> queue_system" where
  "demo_queue es ov cl pend first dl sn wk owed serving =
     \<lparr>ts_queue = \<lparr>qu_events = es, qu_buffer = 1, qu_debounce = DefaultDebounce, qu_sweep = DefaultSweepInterval, qu_overflow = ov, qu_closed = cl,
        qu_pending = pend, qu_full = False, qu_firstEvent = first, qu_deadline = dl\<rparr>,
      ts_sender = sn, ts_worker = wk, ts_cancelled = False, ts_failed = False, ts_owed = owed, ts_serving = serving\<rparr>"

lemmas demo_queue_simps = demo_queue_def on_queue_def Enqueue_def begin_flush_def end_flush_def Let_def

lemma demo_first_request: "reaches queue_step (queue_start [WithQueueBuffer 1]) (demo_queue [1] False False [] zero_time None No_Sender Waiting {1} {})"
proof -
  have "queue_start [WithQueueBuffer 1] = demo_queue [] False False [] zero_time None No_Sender Waiting {} {}"
    by (simp add: queue_start_def NewQueue_def demo_queue_def)
  moreover have "queue_step (demo_queue [] False False [] zero_time None No_Sender Waiting {} {}) (demo_queue [] False False [] zero_time None (Sending [1]) Waiting {1} {})"
    using requests [of "demo_queue [] False False [] zero_time None No_Sender Waiting {} {}" "[1]"] by (simp add: demo_queue_simps)
  moreover have "queue_step (demo_queue [] False False [] zero_time None (Sending [1]) Waiting {1} {}) (demo_queue [1] False False [] zero_time None (Sending []) Waiting {1} {})"
    using sends [of "demo_queue [] False False [] zero_time None (Sending [1]) Waiting {1} {}" 1 "[]"] by (simp add: demo_queue_simps)
  moreover have "queue_step (demo_queue [1] False False [] zero_time None (Sending []) Waiting {1} {}) (demo_queue [1] False False [] zero_time None No_Sender Waiting {1} {})"
    using sent [of "demo_queue [1] False False [] zero_time None (Sending []) Waiting {1} {}"] by (simp add: demo_queue_simps)
  ultimately show ?thesis by (metis reaches_refl reaches_step)
qed

lemma demo_second_request:
  "reaches queue_step (demo_queue [1] False False [] zero_time None No_Sender Waiting {1} {}) (demo_queue [] True False [1] 0 (Some (2 * second)) No_Sender Waiting {1, 2} {})"
proof -
  let ?d = "Some (2 * second)"
  have "queue_step (demo_queue [1] False False [] zero_time None No_Sender Waiting {1} {}) (demo_queue [1] False False [] zero_time None (Sending [2]) Waiting {1, 2} {})"
    using requests [of "demo_queue [1] False False [] zero_time None No_Sender Waiting {1} {}" "[2]"] by (simp add: demo_queue_simps insert_commute)
  moreover have "queue_step (demo_queue [1] False False [] zero_time None (Sending [2]) Waiting {1, 2} {}) (demo_queue [1] False False [] zero_time None (Overflowing []) Waiting {1, 2} {})"
    using finds_full [of "demo_queue [1] False False [] zero_time None (Sending [2]) Waiting {1, 2} {}" 2 "[]"] by (simp add: demo_queue_simps)
  moreover have "queue_step (demo_queue [1] False False [] zero_time None (Overflowing []) Waiting {1, 2} {}) (demo_queue [] False False [1] 0 ?d (Overflowing []) Waiting {1, 2} {})"
    using receives [of "demo_queue [1] False False [] zero_time None (Overflowing []) Waiting {1, 2} {}" 1 "[]" 0]
    by (simp add: demo_queue_simps receive_event_def allNodes_def quiet_period_def maxWait_def DefaultDebounce_def maxWaitAbsolute_def time_defs)
  moreover have "queue_step (demo_queue [] False False [1] 0 ?d (Overflowing []) Waiting {1, 2} {}) (demo_queue [] True False [1] 0 ?d (Sending []) Waiting {1, 2} {})"
    using flags [of "demo_queue [] False False [1] 0 ?d (Overflowing []) Waiting {1, 2} {}" "[]"] by (simp add: demo_queue_simps)
  moreover have "queue_step (demo_queue [] True False [1] 0 ?d (Sending []) Waiting {1, 2} {}) (demo_queue [] True False [1] 0 ?d No_Sender Waiting {1, 2} {})"
    using sent [of "demo_queue [] True False [1] 0 ?d (Sending []) Waiting {1, 2} {}"] by (simp add: demo_queue_simps)
  ultimately show ?thesis by (meson reaches_refl reaches_step)
qed

text \<open>A sender that finds the channel full sets the flag after the worker may have read the last event, and the final flush does not look at
  the flag: a request made before close is then dropped although no recomputation fails and nothing is cancelled.\<close>

theorem overflow_lost_at_close:
  "\<exists>y. reaches queue_step (queue_start [WithQueueBuffer 1]) y \<and> ts_worker y = Stopped \<and> \<not> ts_cancelled y \<and> \<not> ts_failed y \<and> 2 \<in> ts_owed y"
proof -
  let ?d = "Some (2 * second)"
  have "queue_step (demo_queue [] True False [1] 0 ?d No_Sender Waiting {1, 2} {}) (demo_queue [] True True [1] 0 ?d No_Sender Waiting {1, 2} {})"
    using closes [of "demo_queue [] True False [1] 0 ?d No_Sender Waiting {1, 2} {}"] by (simp add: demo_queue_simps)
  moreover have "queue_step (demo_queue [] True True [1] 0 ?d No_Sender Waiting {1, 2} {}) (demo_queue [] True True [1] 0 None No_Sender (Flushing Last_Flush) {2} {1})"
    using drained [of "demo_queue [] True True [1] 0 ?d No_Sender Waiting {1, 2} {}"] by (simp add: demo_queue_simps)
  moreover have "queue_step (demo_queue [] True True [1] 0 None No_Sender (Flushing Last_Flush) {2} {1}) (demo_queue [] True True [1] 0 None No_Sender Stopped {2} {})"
    using finishes [of "demo_queue [] True True [1] 0 None No_Sender (Flushing Last_Flush) {2} {1}" Last_Flush True 0] by (simp add: demo_queue_simps flush_request_def)
  ultimately have "reaches queue_step (queue_start [WithQueueBuffer 1]) (demo_queue [] True True [1] 0 None No_Sender Stopped {2} {})"
    using reaches_compose demo_first_request demo_second_request by (meson reaches_step)
  then show ?thesis by (auto simp: demo_queue_def)
qed


end
