(* ===== verification/Membership_Queue.thy ===== *)
theory Membership_Queue
  imports Prelude
begin

text \<open>
  The queue of nodes whose group membership is to be reconciled, \<open>src/internal/app/membership_queue.go\<close>, which the tag service notifies: a set of
  dirty nodes under a mutex, a wake channel of one place, and one worker. \<open>ms_owed\<close> are the nodes enqueued that no reconciliation
  has begun to serve, \<open>ms_serving\<close> those the running one serves.
\<close>

datatype mq_worker = MQ_Idle | MQ_Looping | MQ_Applying "int set" | MQ_Retrying | MQ_Done

record membershipQueue =
  mq_pending :: "int set"
  mq_wake :: bool
  mq_cancelled :: bool
  mq_worker :: mq_worker
  ms_owed :: "int set"
  ms_serving :: "int set"

definition newMembershipQueue :: membershipQueue where
  "newMembershipQueue = \<lparr>mq_pending = {}, mq_wake = False, mq_cancelled = False, mq_worker = MQ_Idle, ms_owed = {}, ms_serving = {}\<rparr>"

definition mq_Enqueue :: "int set \<Rightarrow> membershipQueue \<Rightarrow> membershipQueue" where
  "mq_Enqueue ids q = (if mq_cancelled q then q else q\<lparr>mq_pending := mq_pending q \<union> {i \<in> ids. i > 0}, mq_wake := True\<rparr>)"

definition mq_request :: "int set \<Rightarrow> membershipQueue \<Rightarrow> membershipQueue" where
  "mq_request ids q = (mq_Enqueue ids q)\<lparr>ms_owed := (if mq_cancelled q then ms_owed q else ms_owed q \<union> {i \<in> ids. i > 0})\<rparr>"

text \<open>One round of the inner loop takes the whole set; an empty set ends it.\<close>

definition mq_take :: "membershipQueue \<Rightarrow> membershipQueue" where
  "mq_take q = (if mq_pending q = {} then q\<lparr>mq_worker := MQ_Idle\<rparr>
     else q\<lparr>mq_pending := {}, mq_worker := MQ_Applying (mq_pending q), ms_serving := ms_owed q \<inter> mq_pending q, ms_owed := ms_owed q - mq_pending q\<rparr>)"

definition mq_applied :: "bool \<Rightarrow> int set \<Rightarrow> membershipQueue \<Rightarrow> membershipQueue" where
  "mq_applied ok ids q =
     (if ok then q\<lparr>mq_worker := MQ_Looping, ms_serving := {}\<rparr>
      else (mq_Enqueue ids q)\<lparr>mq_worker := (if mq_cancelled q then MQ_Done else MQ_Retrying), ms_owed := ms_owed q \<union> ms_serving q, ms_serving := {}\<rparr>)"

inductive mq_step :: "membershipQueue \<Rightarrow> membershipQueue \<Rightarrow> bool" where
  enqueues: "mq_step q (mq_request ids q)"
| closed: "mq_step q (q\<lparr>mq_cancelled := True\<rparr>)"
| wakes: "mq_worker q = MQ_Idle \<Longrightarrow> mq_wake q \<Longrightarrow> mq_step q (q\<lparr>mq_wake := False, mq_worker := MQ_Looping\<rparr>)"
| takes: "mq_worker q = MQ_Looping \<Longrightarrow> \<not> mq_cancelled q \<Longrightarrow> mq_step q (mq_take q)"
| applies: "mq_worker q = MQ_Applying ids \<Longrightarrow> mq_step q (mq_applied ok ids q)"
| retries: "mq_worker q = MQ_Retrying \<Longrightarrow> mq_step q (q\<lparr>mq_worker := MQ_Looping\<rparr>)"
| ends: "mq_worker q \<in> {MQ_Idle, MQ_Looping, MQ_Retrying} \<Longrightarrow> mq_cancelled q \<Longrightarrow> mq_step q (q\<lparr>mq_worker := MQ_Done\<rparr>)"

definition mq_ok :: "membershipQueue \<Rightarrow> bool" where
  "mq_ok q \<longleftrightarrow> mq_worker q = MQ_Done \<or> ms_owed q \<subseteq> mq_pending q \<and> (\<forall>i \<in> mq_pending q. i > 0) \<and>
     (case mq_worker q of MQ_Idle \<Rightarrow> ms_serving q = {} \<and> (mq_pending q \<noteq> {} \<longrightarrow> mq_wake q)
      | MQ_Applying ids \<Rightarrow> ms_serving q \<subseteq> ids \<and> (\<forall>i \<in> ids. i > 0) | _ \<Rightarrow> ms_serving q = {})"

interpretation membership_queue: inductive_invariant newMembershipQueue mq_step mq_ok
proof
  show "mq_ok newMembershipQueue" by (simp add: mq_ok_def newMembershipQueue_def)
  show "mq_ok q'" if "mq_ok q" "mq_step q q'" for q q'
    using that(2,1)
  proof cases
    case (enqueues ids)
    then show ?thesis using that(1) by (cases "mq_worker q") (auto simp: mq_ok_def mq_request_def mq_Enqueue_def)
  next
    case (applies ids ok)
    then show ?thesis using that(1) by (auto simp: mq_ok_def mq_applied_def mq_Enqueue_def)
  next
    case takes
    then show ?thesis using that(1) by (auto simp: mq_ok_def mq_take_def)
  next
    case closed
    then show ?thesis using that(1) by (cases "mq_worker q") (auto simp: mq_ok_def)
  qed (use that(1) in \<open>auto simp: mq_ok_def\<close>)
qed

text \<open>No wakeup is lost: until the queue is closed, a node that was enqueued and not yet served by a reconciliation that began later is in the set of
  dirty nodes, and a worker that waits has a wakeup pending; a failed reconciliation puts its nodes back.\<close>

theorem dirty_node_kept:
  assumes "reaches mq_step newMembershipQueue q" and "mq_worker q \<noteq> MQ_Done" and "i \<in> ms_owed q \<union> ms_serving q"
  shows "i \<in> mq_pending q \<and> (mq_worker q = MQ_Idle \<longrightarrow> mq_wake q) \<or> (\<exists>ids. mq_worker q = MQ_Applying ids \<and> i \<in> ids)"
  using membership_queue.reachable_inv [OF assms(1)] assms(2,3) unfolding mq_ok_def by (cases "mq_worker q") auto

end
