(* ===== verification/Spec2Isabelle.thy ===== *)
theory Spec2Isabelle
  imports Group_Properties Healer_Properties Membership Location Runtime_Nodes Rules_Properties Tags
    Health_Wakeup Hub_Properties Pool_Dial Pool_Pinning Pool_Life Probe_Properties
    Monitor_Schedule Monitor_Pool Scheduler_Convergence Probe_Attempts
    Auth_Properties Auth_Sessions Tag_Templates Tag_Preview Tag_Queue Membership_Queue
begin

text \<open>
  A verification development for EasyProxiesV2, the Go program under \<open>src/\<close>: a proxy pool manager
  that measures nodes, keeps their health per group, tags and locates them, routes connections over
  the healthy ones and repairs groups that run short of members.

  \<^bold>\<open>Parts and their theories.\<close> Source paths are relative to \<open>src/internal\<close>.

  \<^item> \<^emph>\<open>Foundations.\<close> \<open>Prelude\<close> has instants and durations in nanoseconds, Go maps as association
    lists, runs of a step relation (\<open>reaches\<close>) and the locales \<open>preserved_invariant\<close>,
    \<open>inductive_invariant\<close> and \<open>monotone_clock\<close> that hold the only inductions over runs. \<open>Go_Strings\<close> has
    the part of \<open>strings\<close>, \<open>strconv\<close> and \<open>net/netip\<close> the sources use.
  \<^item> \<^emph>\<open>Measurements.\<close> \<open>Probe\<close> is \<open>probe/applier.go\<close> with the tables it writes
    (\<open>store/sqlite_probe.go\<close>, \<open>sqlite_location.go\<close>, \<open>landing_probe.go\<close> and three upserts of
    \<open>sqlite.go\<close>); \<open>Location\<close> is the evidence machine of \<open>nodeloc/state.go\<close>; \<open>Region\<close> is
    \<open>noderegion/region.go\<close>. \<open>Probe_Properties\<close>: an event is applied at most once, atomically with its
    receipt. \<open>Location\<close> also shows which evidence may move a node.
  \<^item> \<^emph>\<open>Monitor.\<close> \<open>Monitor\<close> is \<open>monitor/node_registry.go\<close>, the entries, snapshots, schedules and the health commit of
    \<open>monitor/manager.go\<close> and \<open>monitor/health_applier.go\<close>. \<open>Monitor_Registry\<close>: its indexes agree.
    \<open>Monitor_Schedule\<close>: the timer is set for the first node due. \<open>Monitor_Health\<close>: a measurement is committed as a
    whole or not at all. \<open>Monitor_Pool\<close>: what the pool sees of it. \<open>Scheduler\<close> is the actor of
    \<open>monitor/probe_scheduler.go\<close>, \<open>Probe_Attempts\<close> its executor (\<open>concurrency.go\<close>), call table and attempts.
    \<open>Scheduler_Steps\<close> has the actor, the executor and the callers as a step relation and shows that leases and items are
    accounted for; \<open>Scheduler_Progress\<close>: every round ends; \<open>Scheduler_Convergence\<close>: startup
    convergence ends.
  \<^item> \<^emph>\<open>Health events.\<close> \<open>Journal\<close> is the event table of \<open>store/health_events.go\<close> and the versioned
    group state row; \<open>Health_Hub\<close> and \<open>Hub_Index\<close> are \<open>monitor/health_event_hub.go\<close> and
    \<open>health_event_prune.go\<close>. \<open>Health_Delivery\<close>: exactly-once, in-order delivery under every
    interleaving with database faults, and what a restart may repeat. \<open>Health_Wakeup\<close>: the loop of a
    wakeup terminates and drains the journal. \<open>Hub_Properties\<close>: the indexes agree with a scan, pruning
    keeps what is owed.
  \<^item> \<^emph>\<open>Groups.\<close> \<open>Group_Runtime\<close> is \<open>group/runtime.go\<close>, whole; \<open>Group_Invariant\<close> is its invariant and the
    preservation by every operation; \<open>Group_Properties\<close> are its promises. The packages reach it
    through the operations named in the step relation there. \<open>Healer\<close> is \<open>group/healer.go\<close> and
    \<open>group/healer_coordinator.go\<close>; \<open>Healer_Properties\<close> shows the plan is minimal, complete and
    stable, and that the coordinator respects budgets, backoff and dry runs.
  \<^item> \<^emph>\<open>Routing.\<close> \<open>Pool_Shared\<close> is \<open>outbound/pool/shared_state.go\<close>; \<open>Pool_Snapshot\<close>,
    \<open>Pool_Selection\<close> and \<open>Pool_Dial\<close> are the publication, selection and dial parts of
    \<open>outbound/pool/pool.go\<close>, on top of the group runtime; \<open>Pool_Pinning\<close> is the atomic protocol between
    dials and publication as a step relation of single atomic operations. \<open>Pool_Views\<close>: a snapshot
    offers exactly the usable members. \<open>Pool_Topology\<close> is cold start, reconciliation, retirement and close of the
    same file; \<open>Pool_Drain\<close> shows that a drained member is out of reach and that a reconciliation installs
    exactly what it is given. \<open>Pool_Update\<close> has the options, creation, start, prepared updates, timers and event handlers;
    \<open>Pool_Life\<close> shows that traffic leaves a member that fails and that an update is committed as a whole.
  \<^item> \<^emph>\<open>Membership.\<close> \<open>Membership\<close> is \<open>nodeselect/filter.go\<close> and \<open>groupmember/filter.go\<close>; \<open>Runtime_Nodes\<close> is
    \<open>runtimenodes/runtimenodes.go\<close> and \<open>runtimetag/tag.go\<close>.
  \<^item> \<^emph>\<open>Tags.\<close> \<open>Facts\<close>, \<open>Rules\<close> and \<open>Tags\<close> are \<open>nodefacts/\<close> (facts, registry, conditions, evaluation) and
    \<open>nodetag/\<close> (model, resolver). \<open>Rules_Properties\<close>: validated rules evaluate, evaluation is Kleene
    logic. \<open>Tag_Store\<close> is \<open>store/sqlite_tags.go\<close>; \<open>Tag_Projection\<close>: reads in pieces are exact, and the visible tags of a node are the names of
    its assignments. \<open>Tag_Service\<close>, \<open>Tag_Templates\<close> and \<open>Tag_Preview\<close> are \<open>nodetag/service.go\<close> and \<open>templates.go\<close>; \<open>Tag_Recompute\<close>: a
    recomputation shows what the rules decide, and which rows it may leave stale. \<open>Tag_Queue\<close> is \<open>nodetag/queue.go\<close> and
    \<open>Membership_Queue\<close> is \<open>app/membership_queue.go\<close>, both as step relations of senders and worker in which no request is forgotten.
  \<^item> \<^emph>\<open>Access.\<close> \<open>Auth\<close> is \<open>controlplane/auth.go\<close> and \<open>auth_usage.go\<close>, whole, with the rows of sessions and API keys in
    \<open>store/sqlite.go\<close> and the login handler of \<open>httpapi/server_auth.go\<close>. \<open>Auth_Properties\<close>: guesses served one after the
    other are limited, guesses served at the same time are not. \<open>Auth_Sessions\<close> has validation, revocation, login and
    clean-up as processes that interleave between their accesses to the cache and the database; a revocation is final.

  \<^bold>\<open>How state and effects are modelled.\<close> A struct is a record with a field prefix, an enumeration a
  datatype, a mutex-protected method one function from state to state; where the code takes a lock for
  a whole method the method is one atomic step, and where it uses single atomic operations
  (\<open>Pool_Pinning\<close>) every atomic operation is a step. Errors are \<open>Inl\<close> or \<open>Some\<close>. A database
  transaction that fails changes nothing. Pointers that are compared or shared (pool members, shared
  states, slices) are addresses of an explicit store. \<open>int64\<close> identifiers and counters are integers,
  with \<open>wrap64\<close> where the code can overflow; the random state of the pool is a 64-bit word.

  \<^bold>\<open>Parameters.\<close> Code outside the repository is an argument: the country tables of
  \<open>golang.org/x/text\<close>, the regular expression engine, float parsing and the JSON codec, the digest of
  an event, the loader of node facts (which reads tables outside this model), the proxy core's dial function and the networks of an outbound, and the order in which the
  database returns rows. Time, random words, cancellation and database faults are arguments as well,
  quantified in the theorems. The healing backend is a record of functions.

  \<^bold>\<open>Bounds and fuel.\<close> Recursion is structural or has a measure (the dial loop: candidates left). Only the
  wakeup loop takes a number of rounds; that \<open>work_left\<close> plus one rounds are enough for every state,
  journal and pattern of faults is a theorem. The bounds of the code are kept: 8192 journal rows,
  batches, the probe ring, the healing budgets, 512 outstanding probe calls, five fruitless convergence
  rounds.

  \<^bold>\<open>Not modelled.\<close> The HTTP API but for the login handler, the box manager and the outbound builder (they assemble structures of
  the external proxy core), configuration files, the remaining tables and the schema of the SQLite
  store, the settings service, the wiring of the application, subscription download and node address codecs, the network calls of probes, debug and
  traffic streams of the monitor, the front end. Of the pool: the bytes of its probes and connections.
\<close>

end
